(* ===== verification/Prelude.thy ===== *)
theory Prelude
  imports Complex_Main "HOL-Library.Word"
begin

text \<open>
  Shared vocabulary of the development: the named theorem collections, Go's 64-bit
  integer arithmetic, tables of rows with the SQL statements the services issue against
  them, and the environment every service runs in (a wall clock, a supply of fresh
  identifiers and a script that says which storage calls fail).
\<close>

section \<open>Theorem collections\<close>

named_theorems go_arith \<open>facts about Go integer arithmetic\<close>
named_theorems table_simps \<open>facts about SELECT, INSERT, UPDATE and DELETE on tables\<close>
named_theorems io_simps \<open>facts about the environment of a storage call\<close>

section \<open>Go integers\<close>

text \<open>
  A Go \<open>int64\<close> (and \<open>int\<close>, which is 64 bits wide on the deployed platform) is an
  \<open>int\<close> kept in range: every arithmetic result passes through \<open>wrap64\<close>, the
  two's complement reduction. Go's division truncates towards zero.
\<close>

definition wrap64 :: "int \<Rightarrow> int" where
  "wrap64 x = (x + 2 ^ 63) mod 2 ^ 64 - 2 ^ 63"

definition in_i64 :: "int \<Rightarrow> bool" where
  "in_i64 x \<longleftrightarrow> - (2 ^ 63) \<le> x \<and> x < 2 ^ 63"

definition add64 :: "int \<Rightarrow> int \<Rightarrow> int" where
  "add64 a b = wrap64 (a + b)"

definition sub64 :: "int \<Rightarrow> int \<Rightarrow> int" where
  "sub64 a b = wrap64 (a - b)"

definition mul64 :: "int \<Rightarrow> int \<Rightarrow> int" where
  "mul64 a b = wrap64 (a * b)"

definition shl64 :: "int \<Rightarrow> nat \<Rightarrow> int" where
  "shl64 a n = wrap64 (a * 2 ^ n)"

definition go_div :: "int \<Rightarrow> int \<Rightarrow> int" where
  "go_div a b = wrap64 (sgn a * sgn b * (\<bar>a\<bar> div \<bar>b\<bar>))"

lemma wrap64_in_i64 [simp]: "in_i64 (wrap64 x)"
proof -
  have "0 \<le> (x + 2 ^ 63) mod 2 ^ 64" "(x + 2 ^ 63) mod 2 ^ 64 < 2 ^ 64"
    by simp_all
  then show ?thesis unfolding in_i64_def wrap64_def by simp
qed

lemma wrap64_id [go_arith]: "in_i64 x \<Longrightarrow> wrap64 x = x"
  unfolding in_i64_def wrap64_def by (simp add: mod_pos_pos_trivial)

lemma wrap64_sint: "wrap64 x = sint (word_of_int x :: 64 word)"
  unfolding wrap64_def
  by (simp add: sint_uint signed_take_bit_eq_take_bit_shift take_bit_eq_mod
      uint_word_of_int mod_simps)

lemma go_div_nonneg [go_arith]:
  assumes "0 \<le> a" "0 < b" "in_i64 a"
  shows "go_div a b = a div b"
proof -
  have "a div b \<le> a" using assms by (cases "a = 0") (auto intro: int_div_le_self)
  then have "in_i64 (a div b)"
    using assms by (auto simp: in_i64_def pos_imp_zdiv_nonneg_iff
        intro: order_trans [of _ 0] order.strict_trans1)
  moreover have "sgn a * sgn b * (\<bar>a\<bar> div \<bar>b\<bar>) = a div b"
    using assms by (cases "a = 0") auto
  ultimately show ?thesis by (simp add: go_div_def wrap64_id)
qed

section \<open>Tables\<close>

text \<open>
  A Postgres table is the list of its rows. \<open>SELECT ... WHERE\<close> reads the first row that
  satisfies the condition, \<open>UPDATE ... WHERE ... RETURNING\<close> rewrites every row that
  satisfies it and returns the first of them, \<open>DELETE ... WHERE\<close> removes them. Where the
  condition contains the primary key there is at most one such row.
\<close>

definition update_where :: "('r \<Rightarrow> bool) \<Rightarrow> ('r \<Rightarrow> 'r) \<Rightarrow> 'r list \<Rightarrow> 'r list" where
  "update_where P f rows = map (\<lambda>r. if P r then f r else r) rows"

definition delete_where :: "('r \<Rightarrow> bool) \<Rightarrow> 'r list \<Rightarrow> 'r list" where
  "delete_where P rows = filter (\<lambda>r. \<not> P r) rows"

definition rows_affected :: "('r \<Rightarrow> bool) \<Rightarrow> 'r list \<Rightarrow> nat" where
  "rows_affected P rows = length (filter P rows)"

text \<open>\<open>ORDER BY key LIMIT 1\<close>: the first row whose key is least.\<close>

fun first_least :: "('r \<Rightarrow> 'k::linorder) \<Rightarrow> 'r list \<Rightarrow> 'r option" where
  "first_least k [] = None"
| "first_least k (r # rs) =
     (case first_least k rs of
        None \<Rightarrow> Some r
      | Some r' \<Rightarrow> if k r \<le> k r' then Some r else Some r')"

definition has_key :: "('r \<Rightarrow> 'k) \<Rightarrow> 'k \<Rightarrow> 'r list \<Rightarrow> bool" where
  "has_key k x rows \<longleftrightarrow> x \<in> k ` set rows"

definition unique_keys :: "('r \<Rightarrow> 'k) \<Rightarrow> 'r list \<Rightarrow> bool" where
  "unique_keys k rows \<longleftrightarrow> distinct (map k rows)"

lemma first_least_None [simp]: "first_least k rows = None \<longleftrightarrow> rows = []"
  by (induction rows) (auto split: option.splits)

lemma first_least_mem: "first_least k rows = Some r \<Longrightarrow> r \<in> set rows"
  by (induction rows arbitrary: r) (auto split: option.splits if_splits)

lemma first_least_least: "first_least k rows = Some r \<Longrightarrow> x \<in> set rows \<Longrightarrow> k r \<le> k x"
proof (induction rows arbitrary: r x)
  case (Cons a rows)
  then show ?case
    by (cases "first_least k rows") (auto split: if_splits intro: order_trans)
qed simp

lemma set_update_where [table_simps]:
  "set (update_where P f rows) = {r \<in> set rows. \<not> P r} \<union> f ` {r \<in> set rows. P r}"
  by (auto simp: update_where_def)

lemma length_update_where [simp]: "length (update_where P f rows) = length rows"
  by (simp add: update_where_def)

lemma nth_update_where [simp]:
  "i < length rows \<Longrightarrow> update_where P f rows ! i = (if P (rows ! i) then f (rows ! i) else rows ! i)"
  by (simp add: update_where_def)

lemma map_update_where:
  "(\<And>r. P r \<Longrightarrow> k (f r) = k r) \<Longrightarrow> map k (update_where P f rows) = map k rows"
  by (simp add: update_where_def)

lemma unique_keys_update [table_simps]:
  "(\<And>r. P r \<Longrightarrow> k (f r) = k r) \<Longrightarrow> unique_keys k (update_where P f rows) = unique_keys k rows"
  by (simp add: unique_keys_def map_update_where)

lemma unique_keys_insert [table_simps]:
  "unique_keys k (rows @ [r]) \<longleftrightarrow> unique_keys k rows \<and> \<not> has_key k (k r) rows"
  by (auto simp: unique_keys_def has_key_def)

lemma unique_keys_delete [table_simps]:
  "unique_keys k rows \<Longrightarrow> unique_keys k (delete_where P rows)"
  by (simp add: unique_keys_def delete_where_def distinct_map inj_on_filter_key_eq
      inj_on_def)

lemma unique_keys_eq:
  "unique_keys k rows \<Longrightarrow> r \<in> set rows \<Longrightarrow> r' \<in> set rows \<Longrightarrow> k r = k r' \<Longrightarrow> r = r'"
  by (auto simp: unique_keys_def distinct_map inj_on_def)

lemma find_mem: "List.find P rows = Some r \<Longrightarrow> r \<in> set rows \<and> P r"
  by (auto simp: find_Some_iff)

lemma find_None_all: "List.find P rows = None \<longleftrightarrow> (\<forall>r \<in> set rows. \<not> P r)"
  by (auto simp: find_None_iff)

lemma find_unique:
  assumes "unique_keys k rows" "r \<in> set rows" "P r" "\<And>x. P x \<Longrightarrow> k x = k r"
  shows "List.find P rows = Some r"
proof -
  obtain r' where r': "List.find P rows = Some r'"
    using assms(2,3) by (cases "List.find P rows") (auto simp: find_None_all)
  then have "r' \<in> set rows" "P r'" by (auto dest: find_mem)
  with assms r' show ?thesis by (metis unique_keys_eq)
qed

lemma update_where_none: "List.find P rows = None \<Longrightarrow> update_where P f rows = rows"
  by (auto simp: update_where_def find_None_all intro!: map_idI)

text \<open>An update that selects its row by the key rewrites exactly that row.\<close>

lemma set_update_unique:
  assumes "unique_keys k rows" "r \<in> set rows"
  shows "set (update_where (\<lambda>x. k x = k r) f rows) = insert (f r) (set rows - {r})"
proof -
  have "{x \<in> set rows. k x = k r} = {r}"
    using assms by (auto dest: unique_keys_eq)
  then show ?thesis using assms(2) by (auto simp: set_update_where)
qed

section \<open>The environment of a service\<close>

text \<open>
  Every call that leaves the process (a SQL statement, an object storage request, a message
  publication) may fail. \<open>io_script\<close> says how the next calls end: \<open>IoOk\<close> is a
  normal call, \<open>IoFail\<close> an error before any effect, \<open>IoLost\<close> an error reported to
  the caller although the effect took place (a commit whose acknowledgement is lost). An
  exhausted script means that every later call is normal. \<open>id_supply\<close> holds the values
  the identifier library will return (\<open>uuid.NewV7\<close>, \<open>uuid.NewString\<close>); an empty
  supply makes the library report an error. \<open>clock\<close> is the current time.
\<close>

datatype io = IoOk | IoFail | IoLost

record env =
  io_script :: "io list"
  id_supply :: "string list"
  clock :: int

datatype store_err = ErrNotFound | ErrConflict | ErrDuplicate | ErrIO

type_synonym ('s, 'a) op = "'s \<Rightarrow> (store_err + 'a) \<times> 's"

definition next_io :: "'s env_scheme \<Rightarrow> io \<times> 's env_scheme" where
  "next_io s = (case io_script s of [] \<Rightarrow> (IoOk, s) | o1 # os \<Rightarrow> (o1, s\<lparr>io_script := os\<rparr>))"

definition with_io :: "('s env_scheme, 'a) op \<Rightarrow> ('s env_scheme, 'a) op" where
  "with_io f s =
     (case next_io s of
        (IoOk, s') \<Rightarrow> f s'
      | (IoFail, s') \<Rightarrow> (Inl ErrIO, s')
      | (IoLost, s') \<Rightarrow> (Inl ErrIO, snd (f s')))"

definition new_id :: "('s env_scheme, string) op" where
  "new_id s =
     (case id_supply s of
        [] \<Rightarrow> (Inl ErrIO, s)
      | i # is \<Rightarrow> (Inr i, s\<lparr>id_supply := is\<rparr>))"

text \<open>
  Sequencing. A handler is a chain of calls, each of which returns a value and the state it
  leaves; \<open>and_then\<close> hands both to the rest of the handler.
\<close>

definition ret :: "'a \<Rightarrow> 's \<Rightarrow> 'a \<times> 's" where
  "ret a s = (a, s)"

definition and_then :: "('s \<Rightarrow> 'a \<times> 's) \<Rightarrow> ('a \<Rightarrow> 's \<Rightarrow> 'b \<times> 's) \<Rightarrow> 's \<Rightarrow> 'b \<times> 's" where
  "and_then f g s = (case f s of (a, s') \<Rightarrow> g a s')"

definition healthy :: "'s env_scheme \<Rightarrow> bool" where
  "healthy s \<longleftrightarrow> io_script s = []"

text \<open>
  An invariant that neither depends on the script nor on the identifier supply survives
  \<open>with_io\<close> as soon as the wrapped statement keeps it.
\<close>

lemma with_io_inv:
  assumes "I s" "\<And>s os. I s \<Longrightarrow> I (s\<lparr>io_script := os\<rparr>)" "\<And>s. I s \<Longrightarrow> I (snd (f s))"
  shows "I (snd (with_io f s))"
  using assms by (auto simp: with_io_def next_io_def split: list.splits io.splits)

lemma with_io_healthy [io_simps]: "healthy s \<Longrightarrow> with_io f s = f s"
  by (simp add: with_io_def next_io_def healthy_def)

lemma with_io_Inr:
  assumes "with_io f s = (Inr a, s')"
  obtains s0 where "next_io s = (IoOk, s0)" "f s0 = (Inr a, s')"
  using assms by (auto simp: with_io_def split: prod.splits io.splits)

lemma with_io_cases:
  obtains (ok) s0 where "next_io s = (IoOk, s0)" "with_io f s = f s0"
  | (fail) s0 where "next_io s = (IoFail, s0)" "with_io f s = (Inl ErrIO, s0)"
  | (lost) s0 where "next_io s = (IoLost, s0)" "with_io f s = (Inl ErrIO, snd (f s0))"
  by (cases "next_io s"; cases "fst (next_io s)") (auto simp: with_io_def)

lemma and_then_apply [io_simps]: "f s = (a, s') \<Longrightarrow> and_then f g s = g a s'"
  by (simp add: and_then_def)

lemma snd_and_then: "snd (and_then f g s) = snd (g (fst (f s)) (snd (f s)))"
  by (simp add: and_then_def split: prod.splits)

lemma and_then_result: "and_then f g s = g (fst (f s)) (snd (f s))"
  by (simp add: and_then_def split: prod.splits)

lemma and_thenE:
  assumes "and_then f g s = (r, s'')"
  obtains a s' where "f s = (a, s')" "g a s' = (r, s'')"
  using assms by (cases "f s") (simp add: and_then_def)

lemma next_io_update:
  assumes "next_io s = (x, s')"
  shows "s' = s\<lparr>io_script := tl (io_script s)\<rparr>"
  using assms by (cases s; cases "io_script s") (auto simp: next_io_def)

lemma next_io_state [simp]:
  "next_io s = (x, s') \<Longrightarrow> id_supply s' = id_supply s"
  "next_io s = (x, s') \<Longrightarrow> clock s' = clock s"
  "next_io s = (x, s') \<Longrightarrow> more s' = more s"
  by (auto simp: next_io_def split: list.splits)

section \<open>Relations between the states before and after a call\<close>

text \<open>
  \<open>keeps R f\<close>: whatever \<open>f\<close> does, it relates the state it leaves to the state it found by
  \<open>R\<close>. For a preorder that ignores the failure script and the identifier supply this is
  closed under sequencing and branching; invariants, frames and monotone quantities of the
  services are all of this form.
\<close>

definition keeps :: "('s \<Rightarrow> 's \<Rightarrow> bool) \<Rightarrow> ('s \<Rightarrow> 'a \<times> 's) \<Rightarrow> bool" where
  "keeps R f \<longleftrightarrow> (\<forall>s. R s (snd (f s)))"

lemma keepsI: "(\<And>s. R s (snd (f s))) \<Longrightarrow> keeps R f"
  by (simp add: keeps_def)

lemma keepsD: "keeps R f \<Longrightarrow> f s = (a, s') \<Longrightarrow> R s s'"
  unfolding keeps_def by (metis snd_conv)

locale step_rel =
  fixes R :: "'s env_scheme \<Rightarrow> 's env_scheme \<Rightarrow> bool"
  assumes refl: "R s s"
    and trans: "R s s' \<Longrightarrow> R s' s'' \<Longrightarrow> R s s''"
    and io: "R s (s\<lparr>io_script := os\<rparr>)"
    and ids: "id_supply s = i # is \<Longrightarrow> R s (s\<lparr>id_supply := is\<rparr>)"
begin

lemma keeps_ret: "keeps R (ret x)"
  by (simp add: keeps_def ret_def refl)

lemma keeps_and_then: "keeps R f \<Longrightarrow> (\<And>r. keeps R (g r)) \<Longrightarrow> keeps R (and_then f g)"
  unfolding keeps_def snd_and_then by (blast intro: trans)

lemma keeps_with_io:
  assumes "keeps R f"
  shows "keeps R (with_io f)"
proof (rule keepsI)
  fix s
  have n: "R s s'" if "next_io s = (x, s')" for x s'
    using next_io_update [OF that] io [of s] by simp
  show "R s (snd (with_io f s))"
    by (cases rule: with_io_cases [of s f]) (use n assms in \<open>auto simp: keeps_def intro: trans\<close>)
qed

lemma keeps_new_id: "keeps R new_id"
  by (rule keepsI) (auto simp: new_id_def refl ids split: list.splits)

lemma keeps_sum_case:
  "(\<And>e. s = Inl e \<Longrightarrow> keeps R (h e)) \<Longrightarrow> (\<And>x. s = Inr x \<Longrightarrow> keeps R (k x)) \<Longrightarrow>
   keeps R (case s of Inl e \<Rightarrow> h e | Inr x \<Rightarrow> k x)"
  by (cases s) simp_all

lemma keeps_option_case:
  "(i = None \<Longrightarrow> keeps R f) \<Longrightarrow> (\<And>x. i = Some x \<Longrightarrow> keeps R (g x)) \<Longrightarrow>
   keeps R (case i of None \<Rightarrow> f | Some x \<Rightarrow> g x)"
  by (cases i) simp_all

lemma keeps_if: "(b \<Longrightarrow> keeps R u) \<Longrightarrow> (\<not> b \<Longrightarrow> keeps R v) \<Longrightarrow> keeps R (if b then u else v)"
  by simp

lemma keeps_prod_case: "(\<And>x y. keeps R (m x y)) \<Longrightarrow> keeps R (case p of (x, y) \<Rightarrow> m x y)"
  by (cases p) simp

lemma keeps_err_case:
  "keeps R a \<Longrightarrow> keeps R b \<Longrightarrow> keeps R c \<Longrightarrow> keeps R d \<Longrightarrow>
   keeps R (case e of ErrNotFound \<Rightarrow> a | ErrConflict \<Rightarrow> b | ErrDuplicate \<Rightarrow> c | ErrIO \<Rightarrow> d)"
  by (cases e) simp_all

lemma keeps_guard: "keeps R f \<Longrightarrow> keeps R (\<lambda>s. if b s then (x, s) else f s)"
  by (simp add: keeps_def refl)

lemma keeps_new_id_case:
  assumes "\<And>i. keeps R (f i)"
  shows "keeps R (\<lambda>s. case new_id s of (Inl e, s') \<Rightarrow> (Inl e, s') | (Inr i, s') \<Rightarrow> f i s')"
proof (rule keepsI)
  fix s :: "'s env_scheme"
  obtain r s' where n: "new_id s = (r, s')" by (cases "new_id s")
  have "R s s'" by (rule keepsD [OF keeps_new_id n])
  moreover have "R s' (snd (f i s'))" for i using assms [of i] by (simp add: keeps_def)
  ultimately show "R s (snd (case new_id s of (Inl e, s') \<Rightarrow> (Inl e, s') | (Inr i, s') \<Rightarrow> f i s'))"
    unfolding n by (cases r) (auto intro: trans)
qed

lemmas keeps_intros = keeps_ret keeps_and_then keeps_with_io keeps_new_id keeps_sum_case
  keeps_option_case keeps_if keeps_prod_case keeps_err_case keeps_guard

end

text \<open>\<open>adds m n f\<close>: the quantity \<open>m\<close> grows by at most \<open>n\<close>.\<close>

definition adds :: "('s \<Rightarrow> nat) \<Rightarrow> nat \<Rightarrow> ('s \<Rightarrow> 'a \<times> 's) \<Rightarrow> bool" where
  "adds m n f \<longleftrightarrow> (\<forall>s. m (snd (f s)) \<le> m s + n)"

lemma adds_with_io:
  assumes "\<And>s os. m (s\<lparr>io_script := os\<rparr>) = m s" "adds m n f"
  shows "adds m n (with_io f)"
  unfolding adds_def
proof
  fix s
  have e: "m s' = m s" if "next_io s = (x, s')" for x s'
    using next_io_update [OF that] assms(1) by simp
  have f: "m (snd (f s')) \<le> m s' + n" for s' using assms(2) by (simp add: adds_def)
  show "m (snd (with_io f s)) \<le> m s + n"
    by (cases rule: with_io_cases [of s f]) (use e f in \<open>simp; metis\<close>)+
qed

lemma adds_new_id_case:
  assumes "\<And>s is. m (s\<lparr>id_supply := is\<rparr>) = m s" "\<And>i. adds m n (f i)"
  shows "adds m n (\<lambda>s. case new_id s of (Inl e, s') \<Rightarrow> (Inl e, s') | (Inr i, s') \<Rightarrow> f i s')"
  using assms by (auto simp: adds_def new_id_def split: list.splits) (metis assms(1))

end
