(* ===== verification/UploadGauge.thy ===== *)
theory UploadGauge
  imports Prelude
begin

text \<open>
  Backpressure of the upload service, \<open>services/upload/backpressure.go\<close>: the gauge of bytes in
  flight, whose compare-and-swap loop is modelled step by step for any number of concurrent
  requests, and the server-directed backoff.
\<close>

section \<open>InflightGauge\<close>

record InflightGauge =
  g_ceiling :: int
  g_current :: int

definition NewInflightGauge :: "int \<Rightarrow> InflightGauge" where
  "NewInflightGauge limit = \<lparr>g_ceiling = limit, g_current = 0\<rparr>"

text \<open>The loop of \<open>TryAcquire\<close> when no other request touches the gauge meanwhile.\<close>

definition TryAcquire :: "int \<Rightarrow> InflightGauge \<Rightarrow> bool \<times> InflightGauge" where
  "TryAcquire n g =
     (if add64 (g_current g) n > g_ceiling g then (False, g)
      else (True, g\<lparr>g_current := add64 (g_current g) n\<rparr>))"

definition Release :: "int \<Rightarrow> InflightGauge \<Rightarrow> InflightGauge" where
  "Release n g = g\<lparr>g_current := add64 (g_current g) (wrap64 (- n))\<rparr>"

definition Current :: "InflightGauge \<Rightarrow> int" where
  "Current g = g_current g"

text \<open>
  The same loop, one atomic access per step, with one thread per request. A thread about to load
  is \<open>Loading\<close>; after the load it holds the value it read; a successful exchange makes it
  \<open>Holding\<close> until it releases its bytes, a failed one sends it back to load again.
\<close>

datatype gthread = Loading int | Loaded int int | Holding int | Gone

fun held :: "gthread \<Rightarrow> int" where
  "held (Holding n) = n"
| "held _ = 0"

fun asks :: "gthread \<Rightarrow> int option" where
  "asks (Loading n) = Some n"
| "asks (Loaded n _) = Some n"
| "asks (Holding n) = Some n"
| "asks Gone = None"

inductive gauge_step ::
  "int \<Rightarrow> InflightGauge \<times> gthread list \<Rightarrow> InflightGauge \<times> gthread list \<Rightarrow> bool" for chunk :: int where
  call: "0 \<le> n \<Longrightarrow> n \<le> chunk \<Longrightarrow> gauge_step chunk (g, ts) (g, ts @ [Loading n])"
| load: "i < length ts \<Longrightarrow> ts ! i = Loading n \<Longrightarrow>
    gauge_step chunk (g, ts) (g, ts[i := Loaded n (g_current g)])"
| refuse: "i < length ts \<Longrightarrow> ts ! i = Loaded n cur \<Longrightarrow> add64 cur n > g_ceiling g \<Longrightarrow>
    gauge_step chunk (g, ts) (g, ts[i := Gone])"
| swap: "i < length ts \<Longrightarrow> ts ! i = Loaded n cur \<Longrightarrow> \<not> add64 cur n > g_ceiling g \<Longrightarrow> g_current g = cur \<Longrightarrow>
    gauge_step chunk (g, ts) (g\<lparr>g_current := add64 cur n\<rparr>, ts[i := Holding n])"
| again: "i < length ts \<Longrightarrow> ts ! i = Loaded n cur \<Longrightarrow> \<not> add64 cur n > g_ceiling g \<Longrightarrow> g_current g \<noteq> cur \<Longrightarrow>
    gauge_step chunk (g, ts) (g, ts[i := Loading n])"
| release: "i < length ts \<Longrightarrow> ts ! i = Holding n \<Longrightarrow>
    gauge_step chunk (g, ts) (Release n g, ts[i := Gone])"

definition gauge_inv :: "int \<Rightarrow> int \<Rightarrow> InflightGauge \<times> gthread list \<Rightarrow> bool" where
  "gauge_inv limit chunk s \<longleftrightarrow>
     g_ceiling (fst s) = limit \<and> g_current (fst s) = sum_list (map held (snd s)) \<and>
     g_current (fst s) \<le> limit \<and>
     (\<forall>t \<in> set (snd s). \<forall>n. asks t = Some n \<longrightarrow> 0 \<le> n \<and> n \<le> chunk)"

lemma held_nonneg:
  assumes "\<forall>t \<in> set ts. \<forall>n. asks t = Some n \<longrightarrow> 0 \<le> n \<and> n \<le> chunk"
  shows "0 \<le> sum_list (map held ts)"
proof (rule sum_list_nonneg)
  fix x assume "x \<in> set (map held ts)"
  then obtain t where t: "t \<in> set ts" "x = held t" by auto
  show "0 \<le> x" using assms t by (cases t) auto
qed

lemma sum_held_update:
  "i < length ts \<Longrightarrow> sum_list (map held (ts[i := t])) = sum_list (map held ts) - held (ts ! i) + held t"
  by (induction ts arbitrary: i) (auto split: nat.splits)

lemma gauge_step_inv:
  assumes step: "gauge_step chunk (g, ts) (g', ts')" and inv: "gauge_inv limit chunk (g, ts)"
    and room: "0 \<le> chunk" "limit + chunk < 2 ^ 63"
  shows "gauge_inv limit chunk (g', ts')"
proof -
  have c: "g_ceiling g = limit" "g_current g = sum_list (map held ts)" "g_current g \<le> limit"
    and a: "\<forall>t \<in> set ts. \<forall>n. asks t = Some n \<longrightarrow> 0 \<le> n \<and> n \<le> chunk"
    using inv by (auto simp: gauge_inv_def)
  have nn: "0 \<le> g_current g" using held_nonneg [OF a] c by simp
  have small: "wrap64 x = x" if "- chunk \<le> x" "x \<le> limit + chunk" for x
    using that room nn c by (intro wrap64_id) (simp add: in_i64_def)
  have at: "0 \<le> n \<and> n \<le> chunk" if "i < length ts" "asks (ts ! i) = Some n" for i n
    using a that nth_mem by blast
  have upd: "\<forall>t \<in> set (ts[i := u]). \<forall>n. asks t = Some n \<longrightarrow> 0 \<le> n \<and> n \<le> chunk"
    if "\<And>n. asks u = Some n \<Longrightarrow> 0 \<le> n \<and> n \<le> chunk" for i u
    using a that set_update_subset_insert [of ts i u] by blast
  have keep: "gauge_inv limit chunk (g\<lparr>g_current := x\<rparr>, ts[i := u])"
    if "i < length ts" "x = g_current g - held (ts ! i) + held u" "x \<le> limit"
      "\<And>n. asks u = Some n \<Longrightarrow> 0 \<le> n \<and> n \<le> chunk" for i u x
    using c that(1-3) upd [of u i, OF that(4)] by (simp add: gauge_inv_def sum_held_update)
  have same: "gauge_inv limit chunk (g, ts[i := u])"
    if "i < length ts" "held (ts ! i) = held u" "\<And>n. asks u = Some n \<Longrightarrow> 0 \<le> n \<and> n \<le> chunk" for i u
    using keep [of i "g_current g" u, OF that(1) _ c(3) that(3)] that(2) by simp
  from step show ?thesis
  proof cases
    case (call n)
    then show ?thesis using c a by (simp add: gauge_inv_def)
  next
    case (load i n)
    then show ?thesis using at [of i n] by (auto intro!: same)
  next
    case (refuse i n cur)
    then show ?thesis by (auto intro!: same)
  next
    case (swap i n cur)
    then have n: "0 \<le> n" "n \<le> chunk" using at [of i n] by simp_all
    then have "add64 cur n = g_current g + n" unfolding add64_def using swap c nn by (subst small) auto
    then have "g' = g\<lparr>g_current := g_current g + n\<rparr>" "ts' = ts[i := Holding n]" "g_current g + n \<le> limit"
      using swap c by simp_all
    then show ?thesis by (simp only:) (rule keep; use swap(3,4) n in simp)
  next
    case (again i n cur)
    then show ?thesis using at [of i n] by (auto intro!: same)
  next
    case (release i n)
    then have n: "0 \<le> n" "n \<le> chunk" using at [of i n] by simp_all
    have "add64 (g_current g) (wrap64 (- n)) = g_current g - n"
      unfolding add64_def using n c nn room by (simp add: small)
    then have "g' = g\<lparr>g_current := g_current g - n\<rparr>" "ts' = ts[i := Gone]"
      using release by (simp_all add: Release_def)
    then show ?thesis by (simp only:) (rule keep; use release(3,4) c n in simp)
  qed
qed

lemma gauge_run_inv:
  assumes "(gauge_step chunk)\<^sup>*\<^sup>* s s'" "gauge_inv limit chunk s" "0 \<le> chunk" "limit + chunk < 2 ^ 63"
  shows "gauge_inv limit chunk s'"
  using assms(1,2)
proof (induction rule: rtranclp_induct)
  case (step y z)
  then show ?case using gauge_step_inv assms(3,4) by (cases y; cases z) blast
qed

text \<open>The atomic steps of one request, run without interruption, do what \<open>TryAcquire\<close> does.\<close>

lemma TryAcquire_alone:
  assumes "TryAcquire n g = (b, g')" "0 \<le> n" "n \<le> chunk"
  shows "(gauge_step chunk)\<^sup>*\<^sup>* (g, ts) (g', ts @ [if b then Holding n else Gone])"
proof -
  have "gauge_step chunk (g, ts) (g, ts @ [Loading n])" by (rule gauge_step.call) fact+
  moreover have "gauge_step chunk (g, ts @ [Loading n]) (g, ts @ [Loaded n (g_current g)])"
    using gauge_step.load [of "length ts" "ts @ [Loading n]" n chunk g] by simp
  moreover have "gauge_step chunk (g, ts @ [Loaded n (g_current g)]) (g', ts @ [if b then Holding n else Gone])"
    using assms(1) gauge_step.refuse [of "length ts" "ts @ [Loaded n (g_current g)]" n "g_current g" g chunk]
      gauge_step.swap [of "length ts" "ts @ [Loaded n (g_current g)]" n "g_current g" g chunk]
    by (auto simp: TryAcquire_def split: if_splits)
  ultimately show ?thesis by (meson converse_rtranclp_into_rtranclp rtranclp.rtrancl_refl)
qed

section \<open>BackoffDirector\<close>

record BackoffDirector =
  b_levels :: "string \<Rightarrow> int option"
  b_base :: int
  b_max :: int

definition NewBackoffDirector :: "int \<Rightarrow> int \<Rightarrow> BackoffDirector" where
  "NewBackoffDirector base mx = \<lparr>b_levels = (\<lambda>_. None), b_base = base, b_max = mx\<rparr>"

definition level_of :: "BackoffDirector \<Rightarrow> string \<Rightarrow> int" where
  "level_of b i = (case b_levels b i of None \<Rightarrow> 0 | Some l \<Rightarrow> l)"

text \<open>Durations are nanoseconds. A shift by 64 or more gives 0 in Go, as \<open>shl64\<close> does.\<close>

definition Deny :: "string \<Rightarrow> BackoffDirector \<Rightarrow> int \<times> BackoffDirector" where
  "Deny i b =
     (let level = level_of b i; d = shl64 (b_base b) (nat level) in
      (if d > b_max b \<or> d \<le> 0 then b_max b else d,
       b\<lparr>b_levels := (b_levels b)(i \<mapsto> add64 level 1)\<rparr>))"

definition Reset :: "string \<Rightarrow> BackoffDirector \<Rightarrow> BackoffDirector" where
  "Reset i b = b\<lparr>b_levels := (b_levels b)(i := None)\<rparr>"

fun deny_times :: "nat \<Rightarrow> string \<Rightarrow> BackoffDirector \<Rightarrow> BackoffDirector" where
  "deny_times 0 i b = b"
| "deny_times (Suc k) i b = snd (Deny i (deny_times k i b))"

lemma deny_times_frame: "b_base (deny_times k i b) = b_base b \<and> b_max (deny_times k i b) = b_max b"
  by (induction k) (simp_all add: Deny_def Let_def)

lemma deny_times_level:
  assumes "int k < 2 ^ 63" "level_of b i = 0"
  shows "level_of (deny_times k i b) i = int k"
  using assms
proof (induction k)
  case (Suc k)
  then show ?case by (simp add: Deny_def Let_def level_of_def add64_def wrap64_id in_i64_def)
qed simp

text \<open>A multiple of \<open>2 ^ m\<close> stays one when it wraps, so it is not small and positive.\<close>

lemma wrap64_multiple:
  assumes "m \<le> 63"
  shows "wrap64 (x * 2 ^ m) \<le> 0 \<or> 2 ^ m \<le> wrap64 (x * 2 ^ m)"
proof -
  have "(2::int) ^ m dvd 2 ^ 64" "(2::int) ^ m dvd 2 ^ 63"
    by (rule le_imp_power_dvd; use assms in simp)+
  then have "(2::int) ^ m dvd wrap64 (x * 2 ^ m)"
    unfolding wrap64_def by (intro dvd_diff dvd_mod dvd_add) auto
  then show ?thesis using zdvd_imp_le by (metis linorder_not_le)
qed

lemma shl_second:
  assumes "6 \<le> k"
  shows "shl64 1000000000 k > 60000000000 \<or> shl64 1000000000 k \<le> 0"
proof (cases "k \<le> 33")
  case True
  have "(2::int) ^ 6 \<le> 2 ^ k" "(2::int) ^ k \<le> 2 ^ 33" by (rule power_increasing; use assms True in simp)+
  then have "in_i64 (1000000000 * 2 ^ k)" "1000000000 * (2::int) ^ k > 60000000000"
    by (auto simp: in_i64_def)
  then show ?thesis by (simp add: shl64_def wrap64_id)
next
  case False
  have "1000000000 * (2::int) ^ k = (1000000000 * 2 ^ (k - 36)) * 2 ^ 36 \<or> k < 36"
    by (cases "k < 36") (simp_all only: mult.assoc flip: power_add, simp_all)
  then show ?thesis
  proof
    assume "1000000000 * (2::int) ^ k = (1000000000 * 2 ^ (k - 36)) * 2 ^ 36"
    then show ?thesis
      using wrap64_multiple [of 36 "1000000000 * 2 ^ (k - 36)"] unfolding shl64_def by auto
  next
    assume "k < 36"
    with False have "k = 34 \<or> k = 35" by auto
    then show ?thesis by (auto simp: shl64_def wrap64_def)
  qed
qed

section \<open>Properties\<close>

text \<open>
  C19. Whatever the interleaving of concurrent requests, the gauge reads exactly the bytes of the
  requests that hold an admission, and that never exceeds the ceiling: no exchange is lost, none
  is counted twice, and a release gives back what was taken.
\<close>

theorem gauge_within_ceiling:
  assumes "(gauge_step chunk)\<^sup>*\<^sup>* (NewInflightGauge limit, []) (g, ts)"
    and "0 \<le> limit" "0 \<le> chunk" "limit + chunk < 2 ^ 63"
  shows "Current g = sum_list (map held ts) \<and> 0 \<le> Current g \<and> Current g \<le> limit"
proof -
  have "gauge_inv limit chunk (NewInflightGauge limit, [])"
    using assms(2) by (simp add: gauge_inv_def NewInflightGauge_def)
  from gauge_run_inv [OF assms(1) this assms(3,4)] show ?thesis
    using held_nonneg [of ts chunk] by (auto simp: gauge_inv_def Current_def)
qed

theorem gauge_within_ceiling_witness:
  "(gauge_step 64)\<^sup>*\<^sup>* (NewInflightGauge 100, [])
      (\<lparr>g_ceiling = 100, g_current = 64\<rparr>, [Holding 64, Gone]) \<and>
   Current \<lparr>g_ceiling = 100, g_current = 64\<rparr> \<le> 100"
proof -
  have 1: "TryAcquire 64 (NewInflightGauge 100) = (True, \<lparr>g_ceiling = 100, g_current = 64\<rparr>)"
    and 2: "TryAcquire 64 \<lparr>g_ceiling = 100, g_current = 64\<rparr> = (False, \<lparr>g_ceiling = 100, g_current = 64\<rparr>)"
    by (simp_all add: TryAcquire_def NewInflightGauge_def add64_def wrap64_def)
  have "(gauge_step 64)\<^sup>*\<^sup>* (NewInflightGauge 100, [])
      (\<lparr>g_ceiling = 100, g_current = 64\<rparr>, [Holding 64, Gone])"
    using TryAcquire_alone [OF 1, of 64 "[]"] TryAcquire_alone [OF 2, of 64 "[Holding 64]"] by simp
  with gauge_within_ceiling [OF this] show ?thesis by simp
qed

text \<open>
  The backoff the service deploys (one second, capped at a minute): after \<open>k\<close> denials in a
  row of a session the next hint is \<open>2 ^ k\<close> seconds as long as that is within the cap, and the
  cap from then on, even where the shift overflows 64 bits.
\<close>

theorem backoff_doubles_to_cap:
  assumes "int k < 2 ^ 63"
  shows "fst (Deny i (deny_times k i (NewBackoffDirector 1000000000 60000000000)))
       = (if k < 6 then 2 ^ k * 1000000000 else 60000000000)"
proof -
  let ?b = "deny_times k i (NewBackoffDirector 1000000000 60000000000)"
  have f: "b_base ?b = 1000000000" "b_max ?b = 60000000000"
    using deny_times_frame [of k i] by (simp_all add: NewBackoffDirector_def)
  have l: "level_of ?b i = int k"
    using deny_times_level [OF assms] by (simp add: level_of_def NewBackoffDirector_def)
  show ?thesis
  proof (cases "k < 6")
    case True
    then have "k = 0 \<or> k = 1 \<or> k = 2 \<or> k = 3 \<or> k = 4 \<or> k = 5" by auto
    then show ?thesis using f l by (auto simp: Deny_def Let_def shl64_def wrap64_def)
  next
    case False
    then show ?thesis using f l shl_second [of k] by (auto simp: Deny_def Let_def)
  qed
qed

theorem backoff_doubles_to_cap_witness:
  "fst (Deny ''s'' (deny_times 5 ''s'' (NewBackoffDirector 1000000000 60000000000))) = 32000000000 \<and>
   fst (Deny ''s'' (deny_times 55 ''s'' (NewBackoffDirector 1000000000 60000000000))) = 60000000000"
  using backoff_doubles_to_cap [of 5 "''s''"] backoff_doubles_to_cap [of 55 "''s''"] by simp

end
