(* ===== verification/Contracts.thy ===== *)
theory Contracts
  imports GoText
begin

text \<open>
  The frozen cross-service contracts, \<open>services/contracts\<close>: the event payloads
  (\<open>contracts.go\<close>), the quota hook as a locale with the law every implementation keeps,
  and the file-configured implementation \<open>ConfigQuota\<close> (\<open>configquota.go\<close>).
\<close>

section \<open>Event payloads and the quota decision (contracts.go)\<close>

definition SubjectUploadLanded :: string where
  "SubjectUploadLanded = ''aether.ft.upload.landed.v1''"

definition SubjectMetering :: string where
  "SubjectMetering = ''aether.ft.metering.v1''"

record LandedObjectEvent =
  le_UploadID :: string
  le_WorkspaceID :: string
  le_UserID :: string
  le_ObjectKey :: string
  le_SHA256 :: string
  le_SizeBytes :: int
  le_Mime :: string
  le_LandedAt :: int

datatype MeteringKind =
  MeteringUploadSessionCreated | MeteringUploadCompleted | MeteringJobQueued
  | MeteringJobStarted | MeteringJobCompleted | MeteringJobFailed | MeteringOther string

record MeteringEvent =
  me_EventID :: string
  me_WorkspaceID :: string
  me_UserID :: string
  me_Kind :: MeteringKind
  me_Bytes :: "int option"
  me_EncodeSeconds :: "real option"
  me_JobID :: string
  me_At :: int

record QuotaDecision =
  qd_Allowed :: bool
  qd_Reason :: string

abbreviation allow :: QuotaDecision where
  "allow \<equiv> \<lparr>qd_Allowed = True, qd_Reason = []\<rparr>"

abbreviation deny :: "string \<Rightarrow> QuotaDecision" where
  "deny r \<equiv> \<lparr>qd_Allowed = False, qd_Reason = r\<rparr>"

text \<open>A decision is either a bare admission or a denial that names its reason.\<close>

definition decision_ok :: "QuotaDecision \<Rightarrow> bool" where
  "decision_ok d \<longleftrightarrow> qd_Allowed d = (qd_Reason d = [])"

text \<open>
  The \<open>QuotaChecker\<close> interface. A check may read the state \<open>'s\<close> (a database of
  counters) but changes nothing its client observes through \<open>view\<close>, and its answers are
  well-formed decisions. The clients, the upload session and job creation handlers, rely
  on these two laws only.
\<close>

locale quota_checker =
  fixes check :: "'s \<Rightarrow> (store_err + QuotaDecision) \<times> 's"
    and view :: "'s \<Rightarrow> 'v"
  assumes check_view: "view (snd (check s)) = view s"
    and check_decision: "fst (check s) = Inr d \<Longrightarrow> decision_ok d"
begin

text \<open>
  The gate of a client: continue on admission, answer with the reason on denial and with
  an internal error when the check itself fails.
\<close>

definition gate :: "'s \<Rightarrow> ((string option, unit) sum) \<times> 's" where
  "gate s =
     (case check s of
        (Inl _, s') \<Rightarrow> (Inl None, s')
      | (Inr d, s') \<Rightarrow> (if qd_Allowed d then Inr () else Inl (Some (qd_Reason d)), s'))"

lemma gate_view: "view (snd (gate s)) = view s"
  using check_view [of s] by (auto simp: gate_def split: prod.splits sum.splits)

lemma gate_denial_has_reason: "fst (gate s) = Inl (Some r) \<Longrightarrow> r \<noteq> []"
  using check_decision [of s]
  by (auto simp: gate_def decision_ok_def split: prod.splits sum.splits if_splits)

lemma gate_opens_only_on_allow: "fst (gate s) = Inr () \<Longrightarrow> \<exists>d. fst (check s) = Inr d \<and> qd_Allowed d"
  by (auto simp: gate_def split: prod.splits sum.splits if_splits)

end

section \<open>ConfigQuota (configquota.go)\<close>

definition ReasonUploadSizeExceeded :: string where
  "ReasonUploadSizeExceeded = ''quota_upload_size_exceeded''"

definition ReasonUploadsDisabled :: string where
  "ReasonUploadsDisabled = ''quota_uploads_disabled''"

definition ReasonJobsDisabled :: string where
  "ReasonJobsDisabled = ''quota_jobs_disabled''"

definition ReasonWorkspaceUnknown :: string where
  "ReasonWorkspaceUnknown = ''quota_workspace_unknown''"

record WorkspaceQuota =
  wq_MaxUploadBytes :: "int option"
  wq_AllowUploads :: "bool option"
  wq_AllowJobs :: "bool option"

record QuotaConfigFile =
  qc_DenyUnknownWorkspaces :: bool
  qc_Defaults :: WorkspaceQuota
  qc_Workspaces :: "(string \<times> WorkspaceQuota) list"

datatype quota_cfg_err =
  QuotaFileUnreadable | QuotaFileUndecodable | QuotaFileExtension string
  | QuotaEmptyWorkspaceKey | QuotaNegativeMax string

definition validateWorkspaceQuota :: "string \<Rightarrow> WorkspaceQuota \<Rightarrow> quota_cfg_err option" where
  "validateWorkspaceQuota name wq =
     (case wq_MaxUploadBytes wq of
        None \<Rightarrow> None
      | Some n \<Rightarrow> if n < 0 then Some (QuotaNegativeMax name) else None)"

fun validateWorkspaces :: "(string \<times> WorkspaceQuota) list \<Rightarrow> quota_cfg_err option" where
  "validateWorkspaces [] = None"
| "validateWorkspaces ((name, wq) # rest) =
     (if name = [] then Some QuotaEmptyWorkspaceKey
      else case validateWorkspaceQuota name wq of
             Some e \<Rightarrow> Some e
           | None \<Rightarrow> validateWorkspaces rest)"

definition NewConfigQuota :: "QuotaConfigFile \<Rightarrow> quota_cfg_err + QuotaConfigFile" where
  "NewConfigQuota cfg =
     (case validateWorkspaceQuota ''defaults'' (qc_Defaults cfg) of
        Some e \<Rightarrow> Inl e
      | None \<Rightarrow>
          (case validateWorkspaces (qc_Workspaces cfg) of
             Some e \<Rightarrow> Inl e
           | None \<Rightarrow> Inr cfg))"

text \<open>
  \<open>filepath.Ext\<close> is the suffix from the last dot of the last path element;
  \<open>strings.ToLower\<close> acts on ASCII letters here, which is all the comparison with the
  three ASCII extensions can see.
\<close>

definition ext_of :: "string \<Rightarrow> string" where
  "ext_of path =
     (let after = takeWhile (\<lambda>c. c \<noteq> CHR ''.'' \<and> c \<noteq> CHR ''/'') (rev path);
          rest = drop (length after) (rev path)
      in case rest of c # _ \<Rightarrow> if c = CHR ''.'' then CHR ''.'' # rev after else [] | [] \<Rightarrow> [])"

definition to_lower_char :: "char \<Rightarrow> char" where
  "to_lower_char c =
     (if between CHR ''A'' CHR ''Z'' c then char_of ((of_char c :: nat) + 32) else c)"

definition to_lower :: "string \<Rightarrow> string" where
  "to_lower s = map to_lower_char s"

text \<open>The file system and the two decoders are parameters.\<close>

definition LoadConfigQuota ::
  "(string \<Rightarrow> string option) \<Rightarrow> (string \<Rightarrow> QuotaConfigFile option) \<Rightarrow>
   (string \<Rightarrow> QuotaConfigFile option) \<Rightarrow> string \<Rightarrow> quota_cfg_err + QuotaConfigFile" where
  "LoadConfigQuota read_file yaml_decode json_decode path =
     (case read_file path of
        None \<Rightarrow> Inl QuotaFileUnreadable
      | Some raw \<Rightarrow>
          (let ext = to_lower (ext_of path) in
           if ext = ''.yaml'' \<or> ext = ''.yml'' then
             (case yaml_decode raw of None \<Rightarrow> Inl QuotaFileUndecodable | Some cfg \<Rightarrow> NewConfigQuota cfg)
           else if ext = ''.json'' then
             (case json_decode raw of None \<Rightarrow> Inl QuotaFileUndecodable | Some cfg \<Rightarrow> NewConfigQuota cfg)
           else Inl (QuotaFileExtension ext)))"

definition layer :: "'a option \<Rightarrow> 'a option \<Rightarrow> 'a option" where
  "layer over base = (case over of None \<Rightarrow> base | Some x \<Rightarrow> Some x)"

definition effective :: "QuotaConfigFile \<Rightarrow> string \<Rightarrow> WorkspaceQuota \<times> bool" where
  "effective cfg ws =
     (case map_of (qc_Workspaces cfg) ws of
        None \<Rightarrow> (qc_Defaults cfg, False)
      | Some wq \<Rightarrow>
          (\<lparr>wq_MaxUploadBytes = layer (wq_MaxUploadBytes wq) (wq_MaxUploadBytes (qc_Defaults cfg)),
            wq_AllowUploads = layer (wq_AllowUploads wq) (wq_AllowUploads (qc_Defaults cfg)),
            wq_AllowJobs = layer (wq_AllowJobs wq) (wq_AllowJobs (qc_Defaults cfg))\<rparr>, True))"

text \<open>\<open>ctx_done\<close> is whether the request context is already cancelled (\<open>ctx.Err()\<close>).\<close>

definition ConfigQuota_CheckUploadSession ::
  "QuotaConfigFile \<Rightarrow> bool \<Rightarrow> string \<Rightarrow> int \<Rightarrow> store_err + QuotaDecision" where
  "ConfigQuota_CheckUploadSession cfg ctx_done ws sizeHint =
     (if ctx_done then Inl ErrIO
      else let (eff, known) = effective cfg ws in
        if qc_DenyUnknownWorkspaces cfg \<and> \<not> known then Inr (deny ReasonWorkspaceUnknown)
        else if wq_AllowUploads eff \<noteq> Some True then Inr (deny ReasonUploadsDisabled)
        else (case wq_MaxUploadBytes eff of
                None \<Rightarrow> Inr allow
              | Some m \<Rightarrow>
                  if m = 0 then Inr (deny ReasonUploadsDisabled)
                  else if sizeHint > m then Inr (deny ReasonUploadSizeExceeded)
                  else Inr allow))"

definition ConfigQuota_CheckJobAdmission ::
  "QuotaConfigFile \<Rightarrow> bool \<Rightarrow> string \<Rightarrow> store_err + QuotaDecision" where
  "ConfigQuota_CheckJobAdmission cfg ctx_done ws =
     (if ctx_done then Inl ErrIO
      else let (eff, known) = effective cfg ws in
        if qc_DenyUnknownWorkspaces cfg \<and> \<not> known then Inr (deny ReasonWorkspaceUnknown)
        else if wq_AllowJobs eff \<noteq> Some True then Inr (deny ReasonJobsDisabled)
        else Inr allow)"

lemmas quota_reasons =
  ReasonUploadSizeExceeded_def ReasonUploadsDisabled_def ReasonJobsDisabled_def
  ReasonWorkspaceUnknown_def

text \<open>
  Both checks of \<open>ConfigQuota\<close> are quota checkers in the sense of the interface: they
  touch no state at all.
\<close>

interpretation config_upload: quota_checker
  "\<lambda>s. (ConfigQuota_CheckUploadSession cfg ctx_done ws n, s)" "\<lambda>s. s"
  by unfold_locales
    (auto simp: ConfigQuota_CheckUploadSession_def decision_ok_def quota_reasons
      split: if_splits prod.splits option.splits)

interpretation config_jobs: quota_checker
  "\<lambda>s. (ConfigQuota_CheckJobAdmission cfg ctx_done ws, s)" "\<lambda>s. s"
  by unfold_locales
    (auto simp: ConfigQuota_CheckJobAdmission_def decision_ok_def quota_reasons
      split: if_splits prod.splits)

section \<open>Facts about layering\<close>

lemma layer_None_iff [simp]: "layer a b = None \<longleftrightarrow> a = None \<and> b = None"
  by (auto simp: layer_def split: option.splits)

lemma validateWorkspaces_None:
  "validateWorkspaces l = None \<longleftrightarrow>
     (\<forall>(name, wq) \<in> set l. name \<noteq> [] \<and> (\<forall>n. wq_MaxUploadBytes wq = Some n \<longrightarrow> 0 \<le> n))"
  by (induction l rule: validateWorkspaces.induct)
    (auto simp: validateWorkspaceQuota_def split: option.splits if_splits)

text \<open>In an accepted configuration every effective upload limit is non-negative.\<close>

lemma effective_max_nonneg:
  assumes "NewConfigQuota cfg = Inr cfg'" "wq_MaxUploadBytes (fst (effective cfg' ws)) = Some m"
  shows "0 \<le> m"
proof -
  have cfg: "cfg' = cfg" and d: "\<And>n. wq_MaxUploadBytes (qc_Defaults cfg) = Some n \<Longrightarrow> 0 \<le> n"
    and w: "validateWorkspaces (qc_Workspaces cfg) = None"
    using assms(1)
    by (auto simp: NewConfigQuota_def validateWorkspaceQuota_def split: option.splits if_splits)
  show ?thesis
  proof (cases "map_of (qc_Workspaces cfg) ws")
    case None
    with assms(2) cfg d show ?thesis by (simp add: effective_def)
  next
    case (Some wq)
    then have "(ws, wq) \<in> set (qc_Workspaces cfg)" by (rule map_of_SomeD)
    with w have "\<And>n. wq_MaxUploadBytes wq = Some n \<Longrightarrow> 0 \<le> n"
      by (auto simp: validateWorkspaces_None)
    with Some assms(2) cfg d show ?thesis
      by (auto simp: effective_def layer_def split: option.splits)
  qed
qed

text \<open>The exact admission condition of each check.\<close>

lemma config_upload_allowed_iff:
  "ConfigQuota_CheckUploadSession cfg False ws n = Inr allow \<longleftrightarrow>
     (snd (effective cfg ws) \<or> \<not> qc_DenyUnknownWorkspaces cfg) \<and>
     wq_AllowUploads (fst (effective cfg ws)) = Some True \<and>
     (\<forall>m. wq_MaxUploadBytes (fst (effective cfg ws)) = Some m \<longrightarrow> m \<noteq> 0 \<and> n \<le> m)"
  by (auto simp: ConfigQuota_CheckUploadSession_def split: prod.splits option.splits)

lemma config_jobs_allowed_iff:
  "ConfigQuota_CheckJobAdmission cfg False ws = Inr allow \<longleftrightarrow>
     (snd (effective cfg ws) \<or> \<not> qc_DenyUnknownWorkspaces cfg) \<and>
     wq_AllowJobs (fst (effective cfg ws)) = Some True"
  by (auto simp: ConfigQuota_CheckJobAdmission_def split: prod.splits)

section \<open>Properties\<close>

text \<open>
  \<open>ConfigQuota\<close> fails closed on uploads. For a validated configuration, an upload of
  \<open>n\<close> bytes is admitted exactly when the workspace is not refused as unknown, the layered
  policy says \<open>allowUploads: true\<close>, and a limit that is present is positive and not
  exceeded; any other answer is a denial with a non-empty reason.
\<close>

theorem config_quota_fail_closed:
  assumes "NewConfigQuota cfg = Inr cfg'" "effective cfg' ws = (eff, known)"
  shows "(ConfigQuota_CheckUploadSession cfg' False ws n = Inr allow \<longleftrightarrow>
      (known \<or> \<not> qc_DenyUnknownWorkspaces cfg') \<and> wq_AllowUploads eff = Some True \<and>
      (\<forall>m. wq_MaxUploadBytes eff = Some m \<longrightarrow> 0 < m \<and> n \<le> m)) \<and>
    (\<exists>d. ConfigQuota_CheckUploadSession cfg' False ws n = Inr d \<and> (d = allow \<or> \<not> qd_Allowed d \<and> qd_Reason d \<noteq> []))"
proof
  have "0 \<le> m" if "wq_MaxUploadBytes eff = Some m" for m
    using effective_max_nonneg [OF assms(1), of ws m] that assms(2) by simp
  then show "ConfigQuota_CheckUploadSession cfg' False ws n = Inr allow \<longleftrightarrow>
      (known \<or> \<not> qc_DenyUnknownWorkspaces cfg') \<and> wq_AllowUploads eff = Some True \<and>
      (\<forall>m. wq_MaxUploadBytes eff = Some m \<longrightarrow> 0 < m \<and> n \<le> m)"
    unfolding config_upload_allowed_iff using assms(2) by fastforce
  show "\<exists>d. ConfigQuota_CheckUploadSession cfg' False ws n = Inr d \<and> (d = allow \<or> \<not> qd_Allowed d \<and> qd_Reason d \<noteq> [])"
    by (auto simp: ConfigQuota_CheckUploadSession_def quota_reasons split: prod.splits option.splits)
qed

definition example_quota :: QuotaConfigFile where
  "example_quota = \<lparr>qc_DenyUnknownWorkspaces = True,
     qc_Defaults = \<lparr>wq_MaxUploadBytes = Some 100, wq_AllowUploads = None, wq_AllowJobs = None\<rparr>,
     qc_Workspaces = [(''ws'', \<lparr>wq_MaxUploadBytes = None, wq_AllowUploads = Some True, wq_AllowJobs = Some True\<rparr>)]\<rparr>"

theorem config_quota_fail_closed_witness:
  "ConfigQuota_CheckUploadSession example_quota False ''ws'' 100 = Inr allow \<and>
   ConfigQuota_CheckUploadSession example_quota False ''ws'' 101 \<noteq> Inr allow"
proof -
  have v: "NewConfigQuota example_quota = Inr example_quota" by code_simp
  have e: "effective example_quota ''ws'' =
    (\<lparr>wq_MaxUploadBytes = Some 100, wq_AllowUploads = Some True, wq_AllowJobs = Some True\<rparr>, True)"
    by (simp add: effective_def example_quota_def layer_def)
  show ?thesis
    using config_quota_fail_closed [OF v e, of 100] config_quota_fail_closed [OF v e, of 101] by simp
qed

text \<open>
  \<open>ConfigQuota\<close> fails closed on jobs: a job is admitted exactly when the workspace is
  not refused as unknown and the layered policy says \<open>allowJobs: true\<close>, and every denial
  gives one of the two typed reasons.
\<close>

theorem config_quota_jobs_fail_closed:
  assumes "effective cfg ws = (eff, known)"
  shows "ConfigQuota_CheckJobAdmission cfg False ws =
    (if qc_DenyUnknownWorkspaces cfg \<and> \<not> known then Inr (deny ReasonWorkspaceUnknown)
     else if wq_AllowJobs eff = Some True then Inr allow else Inr (deny ReasonJobsDisabled)) \<and>
    (map_of (qc_Workspaces cfg) ws = None \<and> wq_AllowJobs (qc_Defaults cfg) = None \<longrightarrow>
       ConfigQuota_CheckJobAdmission cfg False ws \<noteq> Inr allow)"
  using assms by (auto simp: ConfigQuota_CheckJobAdmission_def effective_def split: option.splits)

theorem config_quota_jobs_fail_closed_witness:
  "ConfigQuota_CheckJobAdmission example_quota False ''other'' = Inr (deny ReasonWorkspaceUnknown)"
proof -
  have e: "effective example_quota ''other'' = (qc_Defaults example_quota, False)"
    by (simp add: effective_def example_quota_def)
  show ?thesis using config_quota_jobs_fail_closed [OF e] by (simp add: example_quota_def)
qed

end
