(* ===== verification/UploadStore.thy ===== *)
theory UploadStore
  imports UploadGauge Contracts
begin

text \<open>
  The session store of the upload service: the rows and states of \<open>services/upload/store.go\<close> and
  the Postgres implementation of \<open>services/upload/postgres.go\<close>, with the constraints of the
  tables. The record \<open>upl\<close> is the state of the service: its two tables, the events it has
  published, the gauge and the backoff levels it keeps in memory, and the state \<open>'b\<close> of the
  object storage, which is not part of the program.
\<close>

section \<open>Rows (store.go)\<close>

datatype SessionState = SessionActive | SessionAssembled | SessionCompleted | SessionCancelled

fun string_of_session_state :: "SessionState \<Rightarrow> string" where
  "string_of_session_state SessionActive = ''ACTIVE''"
| "string_of_session_state SessionAssembled = ''ASSEMBLED''"
| "string_of_session_state SessionCompleted = ''COMPLETED''"
| "string_of_session_state SessionCancelled = ''CANCELLED''"

datatype ChunkState = ChunkPending | ChunkInflight | ChunkDone | ChunkRetry

record Session =
  ss_ID :: string
  ss_WorkspaceID :: string
  ss_UserID :: string
  ss_Filename :: string
  ss_SizeBytes :: int
  ss_Mime :: string
  ss_ChunkSizeBytes :: int
  ss_ChunkCount :: int
  ss_State :: SessionState
  ss_S3UploadID :: string
  ss_StagingKey :: string
  ss_SHA256 :: string
  ss_ObjectKey :: string

record Chunk =
  ck_Session :: string
  ck_Index :: int
  ck_State :: ChunkState
  ck_SHA256 :: string
  ck_ETag :: string
  ck_SizeBytes :: int

datatype ClaimResult = ClaimAcquired | ClaimAlreadyDone

datatype upl_event = EvLanded LandedObjectEvent | EvMetering MeteringEvent

record 'b upl = env +
  u_sessions :: "Session list"
  u_chunks :: "Chunk list"
  u_events :: "(string \<times> upl_event) list"
  u_gauge :: InflightGauge
  u_backoff :: BackoffDirector
  u_s3 :: 'b

section \<open>PostgresStore (postgres.go)\<close>

text \<open>
  The constraints of \<open>upload_sessions\<close>: the primary key, the three positivity checks, and the
  \<open>INTEGER\<close> (32 bit) type of \<open>chunk_count\<close>.
\<close>

definition session_checks :: "Session \<Rightarrow> Session list \<Rightarrow> bool" where
  "session_checks s rows \<longleftrightarrow>
     \<not> has_key ss_ID (ss_ID s) rows \<and> 0 < ss_SizeBytes s \<and> 0 < ss_ChunkSizeBytes s \<and>
     0 < ss_ChunkCount s \<and> ss_ChunkCount s < 2 ^ 31"

definition pending_chunk :: "string \<Rightarrow> int \<Rightarrow> Chunk" where
  "pending_chunk i n =
     \<lparr>ck_Session = i, ck_Index = n, ck_State = ChunkPending, ck_SHA256 = [], ck_ETag = [], ck_SizeBytes = 0\<rparr>"

text \<open>One transaction: the session row and its whole chunk map, or nothing.\<close>

definition CreateSession :: "Session \<Rightarrow> ('b upl, unit) op" where
  "CreateSession s = with_io (\<lambda>w.
     if session_checks s (u_sessions w)
     then (Inr (), w\<lparr>u_sessions := u_sessions w @ [s],
                     u_chunks := u_chunks w @ map (pending_chunk (ss_ID s)) [0..ss_ChunkCount s - 1]\<rparr>)
     else (Inl ErrIO, w))"

definition GetSession :: "string \<Rightarrow> ('b upl, Session) op" where
  "GetSession i = with_io (\<lambda>w.
     (case List.find (\<lambda>s. ss_ID s = i) (u_sessions w) of None \<Rightarrow> Inl ErrNotFound | Some s \<Rightarrow> Inr s, w))"

definition chunks_of :: "string \<Rightarrow> Chunk list \<Rightarrow> Chunk list" where
  "chunks_of i rows = sort_key ck_Index (filter (\<lambda>c. ck_Session c = i) rows)"

definition GetChunks :: "string \<Rightarrow> ('b upl, Chunk list) op" where
  "GetChunks i = with_io (\<lambda>w. (Inr (chunks_of i (u_chunks w)), w))"

definition exec_chunks :: "(Chunk \<Rightarrow> bool) \<Rightarrow> (Chunk \<Rightarrow> Chunk) \<Rightarrow> ('b upl, nat) op" where
  "exec_chunks P f = with_io (\<lambda>w.
     (Inr (rows_affected P (u_chunks w)), w\<lparr>u_chunks := update_where P f (u_chunks w)\<rparr>))"

definition exec_sessions :: "(Session \<Rightarrow> bool) \<Rightarrow> (Session \<Rightarrow> Session) \<Rightarrow> ('b upl, nat) op" where
  "exec_sessions P f = with_io (\<lambda>w.
     (Inr (rows_affected P (u_sessions w)), w\<lparr>u_sessions := update_where P f (u_sessions w)\<rparr>))"

definition one_row :: "store_err + nat \<Rightarrow> store_err + unit" where
  "one_row r = (case r of Inl e \<Rightarrow> Inl e | Inr n \<Rightarrow> if n \<noteq> 1 then Inl ErrNotFound else Inr ())"

definition chunk_at :: "string \<Rightarrow> int \<Rightarrow> Chunk \<Rightarrow> bool" where
  "chunk_at i n c \<longleftrightarrow> ck_Session c = i \<and> ck_Index c = n"

text \<open>Two statements: the second one tells a chunk that is done from one that does not exist.\<close>

definition ClaimChunk :: "string \<Rightarrow> int \<Rightarrow> ('b upl, ClaimResult) op" where
  "ClaimChunk i n =
     and_then (exec_chunks (\<lambda>c. chunk_at i n c \<and> ck_State c \<noteq> ChunkDone) (\<lambda>c. c\<lparr>ck_State := ChunkInflight\<rparr>))
       (\<lambda>r. case r of
          Inl e \<Rightarrow> ret (Inl e)
        | Inr k \<Rightarrow>
            if k = 1 then ret (Inr ClaimAcquired)
            else with_io (\<lambda>w.
              (case List.find (chunk_at i n) (u_chunks w) of
                 None \<Rightarrow> Inl ErrNotFound
               | Some c \<Rightarrow> if ck_State c = ChunkDone then Inr ClaimAlreadyDone else Inl ErrConflict, w)))"

definition MarkChunkDone :: "string \<Rightarrow> int \<Rightarrow> string \<Rightarrow> string \<Rightarrow> int \<Rightarrow> ('b upl, unit) op" where
  "MarkChunkDone i n sha etag sz =
     and_then (exec_chunks (chunk_at i n)
         (\<lambda>c. c\<lparr>ck_State := ChunkDone, ck_SHA256 := sha, ck_ETag := etag, ck_SizeBytes := sz\<rparr>))
       (\<lambda>r. ret (one_row r))"

definition MarkChunkRetry :: "string \<Rightarrow> int \<Rightarrow> ('b upl, unit) op" where
  "MarkChunkRetry i n =
     and_then (exec_chunks (\<lambda>c. chunk_at i n c \<and> ck_State c \<noteq> ChunkDone) (\<lambda>c. c\<lparr>ck_State := ChunkRetry\<rparr>))
       (\<lambda>r. ret (one_row r))"

definition SetSessionAssembled :: "string \<Rightarrow> string \<Rightarrow> string \<Rightarrow> ('b upl, unit) op" where
  "SetSessionAssembled i sha key =
     and_then (exec_sessions (\<lambda>s. ss_ID s = i)
         (\<lambda>s. s\<lparr>ss_State := SessionAssembled, ss_SHA256 := sha, ss_ObjectKey := key\<rparr>))
       (\<lambda>r. ret (one_row r))"

definition SetSessionState :: "string \<Rightarrow> SessionState \<Rightarrow> ('b upl, unit) op" where
  "SetSessionState i st =
     and_then (exec_sessions (\<lambda>s. ss_ID s = i) (\<lambda>s. s\<lparr>ss_State := st\<rparr>)) (\<lambda>r. ret (one_row r))"

section \<open>The chunk map\<close>

lemma sort_key_update:
  assumes "\<And>c. k (f c) = k c"
  shows "sort_key k (map f rows) = map f (sort_key k rows)"
proof -
  have ins: "insort_key k (f x) (map f ys) = map f (insort_key k x ys)" for x ys
    by (induction ys) (simp_all add: assms)
  show ?thesis by (induction rows) (simp_all add: ins)
qed

lemma chunks_of_update:
  assumes "\<And>c. ck_Session (f c) = ck_Session c" "\<And>c. ck_Index (f c) = ck_Index c"
  shows "chunks_of i (update_where P f rows) = update_where P f (chunks_of i rows)"
proof -
  let ?g = "\<lambda>c. if P c then f c else c"
  have "filter (\<lambda>c. ck_Session c = i) (map ?g rows) = map ?g (filter (\<lambda>c. ck_Session c = i) rows)"
    by (induction rows) (auto simp: assms)
  moreover have "sort_key ck_Index (map ?g ys) = map ?g (sort_key ck_Index ys)" for ys
    by (rule sort_key_update) (simp add: assms)
  ultimately show ?thesis unfolding chunks_of_def update_where_def by simp
qed

lemma set_chunks_of [simp]: "set (chunks_of i rows) = {c \<in> set rows. ck_Session c = i}"
  by (auto simp: chunks_of_def)

lemma chunks_of_append_other: "(\<And>c. c \<in> set cs \<Longrightarrow> ck_Session c \<noteq> i) \<Longrightarrow> chunks_of i (rows @ cs) = chunks_of i rows"
  by (simp add: chunks_of_def)

text \<open>
  The chunk map of a session is complete when it has exactly the indices \<open>0 .. count - 1\<close>, in
  order. It is created complete and no statement of the store changes an index.
\<close>

definition map_complete :: "Session \<Rightarrow> Chunk list \<Rightarrow> bool" where
  "map_complete s rows \<longleftrightarrow> map ck_Index (chunks_of (ss_ID s) rows) = [0..ss_ChunkCount s - 1]"

lemma pending_sorted:
  "sort_key ck_Index (map (pending_chunk i) [0..n]) = map (pending_chunk i) [0..n]"
proof -
  have "sorted (map ck_Index (map (pending_chunk i) [0..n]))"
    by (simp add: o_def pending_chunk_def)
  then show ?thesis by (rule sort_key_id_if_sorted)
qed

lemma map_complete_new:
  assumes "\<And>c. c \<in> set rows \<Longrightarrow> ck_Session c \<noteq> ss_ID s"
  shows "map_complete s (rows @ map (pending_chunk (ss_ID s)) [0..ss_ChunkCount s - 1])"
proof -
  have "filter (\<lambda>c. ck_Session c = ss_ID s) rows = []" using assms by (simp add: filter_empty_conv)
  then have "chunks_of (ss_ID s) (rows @ map (pending_chunk (ss_ID s)) [0..ss_ChunkCount s - 1])
      = map (pending_chunk (ss_ID s)) [0..ss_ChunkCount s - 1]"
    by (simp add: chunks_of_def filter_map o_def pending_chunk_def [of _ "_ :: int"] pending_sorted)
  then show ?thesis by (simp add: map_complete_def o_def pending_chunk_def)
qed

end
