(* ===== verification/UploadBlob.thy ===== *)
theory UploadBlob
  imports GoText
begin

text \<open>
  Object storage of the upload service, \<open>services/upload/blobstore.go\<close>. The S3 client library and
  the service behind it are not part of the program: they are the record \<open>s3_client\<close> of
  operations on a state \<open>'b\<close>, and what S3 documents of them is the locale \<open>s3_service\<close>. The code
  on top of it, \<open>S3BlobStore\<close>, is modelled in full, and shown to keep the contract \<open>blob_store\<close>
  that the upload handlers rely on.
\<close>

section \<open>The client library\<close>

datatype s3_err = S3NoSuchUpload | S3NotFound | S3Failed

type_synonym ('b, 'a) s3_op = "'b \<Rightarrow> (s3_err + 'a) \<times> 'b"

record CompletedPart =
  cp_PartNumber :: int
  cp_ETag :: string

text \<open>
  One field per call of the SDK, for a fixed bucket. A content type is optional. \<open>GetObject\<close>
  hands back a stream: \<open>None\<close> is a stream that breaks before its end. A copy source is the
  escaped path of bucket and key; a copy range is the pair of its first and last byte.
\<close>

record 'b s3_client =
  c_CreateMultipartUpload :: "string \<Rightarrow> string option \<Rightarrow> ('b, string) s3_op"
  c_UploadPart :: "string \<Rightarrow> string \<Rightarrow> int \<Rightarrow> string \<Rightarrow> ('b, string) s3_op"
  c_CompleteMultipartUpload :: "string \<Rightarrow> string \<Rightarrow> CompletedPart list \<Rightarrow> ('b, unit) s3_op"
  c_AbortMultipartUpload :: "string \<Rightarrow> string \<Rightarrow> ('b, unit) s3_op"
  c_GetObject :: "string \<Rightarrow> ('b, string option) s3_op"
  c_HeadObject :: "string \<Rightarrow> ('b, int) s3_op"
  c_CopyObject :: "string \<Rightarrow> string \<Rightarrow> ('b, unit) s3_op"
  c_UploadPartCopy :: "string \<Rightarrow> string \<Rightarrow> int \<Rightarrow> string \<Rightarrow> int \<times> int \<Rightarrow> ('b, string) s3_op"
  c_DeleteObject :: "string \<Rightarrow> ('b, unit) s3_op"

text \<open>
  \<open>url.PathEscape\<close>: every byte but the unreserved ones and \<open>$ & + : = @\<close> becomes a percent
  sign and two upper case hexadecimal digits.
\<close>

definition path_safe :: "char \<Rightarrow> bool" where
  "path_safe c \<longleftrightarrow> is_alnum c \<or> c \<in> set ''-_.~$&+:=@''"

definition hex_digit :: "nat \<Rightarrow> char" where
  "hex_digit n = (if n < 10 then char_of (48 + n) else char_of (55 + n))"

fun PathEscape :: "string \<Rightarrow> string" where
  "PathEscape [] = []"
| "PathEscape (c # cs) =
     (if path_safe c then [c]
      else [CHR ''%'', hex_digit (of_char c div 16), hex_digit (of_char c mod 16)]) @ PathEscape cs"

definition copy_source :: "string \<Rightarrow> string \<Rightarrow> string" where
  "copy_source bucket key = PathEscape (bucket @ ''/'' @ key)"

section \<open>S3BlobStore\<close>

definition copyPartSize :: int where
  "copyPartSize = 536870912"

definition singleCopyLimit :: int where
  "singleCopyLimit = 5368709120"

record 'b BlobStore =
  CreateMultipart :: "string \<Rightarrow> string \<Rightarrow> ('b, string) s3_op"
  UploadPart :: "string \<Rightarrow> string \<Rightarrow> int \<Rightarrow> string \<Rightarrow> ('b, string) s3_op"
  CompleteMultipart :: "string \<Rightarrow> string \<Rightarrow> CompletedPart list \<Rightarrow> ('b, unit) s3_op"
  AbortMultipart :: "string \<Rightarrow> string \<Rightarrow> ('b, unit) s3_op"
  GetObject :: "string \<Rightarrow> ('b, string option) s3_op"
  HeadObject :: "string \<Rightarrow> ('b, int \<times> bool) s3_op"
  CopyBlob :: "string \<Rightarrow> string \<Rightarrow> int \<Rightarrow> ('b, unit) s3_op"
  DeleteBlob :: "string \<Rightarrow> ('b, unit) s3_op"

definition S3_CreateMultipart :: "'b s3_client \<Rightarrow> string \<Rightarrow> string \<Rightarrow> ('b, string) s3_op" where
  "S3_CreateMultipart cl key mime = c_CreateMultipartUpload cl key (Some mime)"

definition S3_UploadPart :: "'b s3_client \<Rightarrow> string \<Rightarrow> string \<Rightarrow> int \<Rightarrow> string \<Rightarrow> ('b, string) s3_op" where
  "S3_UploadPart cl key uid n body = c_UploadPart cl key uid n body"

definition S3_CompleteMultipart :: "'b s3_client \<Rightarrow> string \<Rightarrow> string \<Rightarrow> CompletedPart list \<Rightarrow> ('b, unit) s3_op" where
  "S3_CompleteMultipart cl key uid ps = c_CompleteMultipartUpload cl key uid (sort_key cp_PartNumber ps)"

definition S3_AbortMultipart :: "'b s3_client \<Rightarrow> string \<Rightarrow> string \<Rightarrow> ('b, unit) s3_op" where
  "S3_AbortMultipart cl key uid b =
     (case c_AbortMultipartUpload cl key uid b of
        (Inl S3NoSuchUpload, b') \<Rightarrow> (Inr (), b')
      | r \<Rightarrow> r)"

definition S3_GetObject :: "'b s3_client \<Rightarrow> string \<Rightarrow> ('b, string option) s3_op" where
  "S3_GetObject cl key = c_GetObject cl key"

definition S3_HeadObject :: "'b s3_client \<Rightarrow> string \<Rightarrow> ('b, int \<times> bool) s3_op" where
  "S3_HeadObject cl key b =
     (case c_HeadObject cl key b of
        (Inl S3NotFound, b') \<Rightarrow> (Inr (0, False), b')
      | (Inl e, b') \<Rightarrow> (Inl e, b')
      | (Inr n, b') \<Rightarrow> (Inr (n, True), b'))"

text \<open>
  The loop of \<open>Copy\<close> over the parts of the source. The offset is a 64 bit and the part number a
  32 bit integer; neither wraps for an object of less than \<open>2 ^ 60\<close> bytes, far above the largest
  object S3 stores.
\<close>

function copy_parts ::
  "'b s3_client \<Rightarrow> string \<Rightarrow> string \<Rightarrow> string \<Rightarrow> int \<Rightarrow> int \<Rightarrow> int \<Rightarrow> CompletedPart list \<Rightarrow>
   ('b, CompletedPart list) s3_op" where
  "copy_parts cl source dst uid sz offset n parts b =
     (if offset < sz then
        (let end = (if offset + copyPartSize - 1 \<ge> sz then sz - 1 else offset + copyPartSize - 1) in
         case c_UploadPartCopy cl dst uid n source (offset, end) b of
           (Inl e, b') \<Rightarrow> (Inl e, snd (S3_AbortMultipart cl dst uid b'))
         | (Inr etag, b') \<Rightarrow>
             copy_parts cl source dst uid sz (offset + copyPartSize) (n + 1)
               (parts @ [\<lparr>cp_PartNumber = n, cp_ETag = etag\<rparr>]) b')
      else (Inr parts, b))"
  by pat_completeness auto

termination
  by (relation "measure (\<lambda>(cl, source, dst, uid, sz, offset, n, parts, b). nat (sz - offset))")
    (auto simp: copyPartSize_def)

declare copy_parts.simps [simp del]

definition S3_Copy :: "'b s3_client \<Rightarrow> string \<Rightarrow> string \<Rightarrow> string \<Rightarrow> int \<Rightarrow> ('b, unit) s3_op" where
  "S3_Copy cl bucket src dst sz b =
     (let source = copy_source bucket src in
      if sz \<le> singleCopyLimit then c_CopyObject cl dst source b
      else case c_CreateMultipartUpload cl dst None b of
        (Inl e, b1) \<Rightarrow> (Inl e, b1)
      | (Inr uid, b1) \<Rightarrow>
          (case copy_parts cl source dst uid sz 0 1 [] b1 of
             (Inl e, b2) \<Rightarrow> (Inl e, b2)
           | (Inr parts, b2) \<Rightarrow>
               (case c_CompleteMultipartUpload cl dst uid parts b2 of
                  (Inl e, b3) \<Rightarrow> (Inl e, snd (S3_AbortMultipart cl dst uid b3))
                | (Inr _, b3) \<Rightarrow> (Inr (), b3))))"

definition S3_Delete :: "'b s3_client \<Rightarrow> string \<Rightarrow> ('b, unit) s3_op" where
  "S3_Delete cl key = c_DeleteObject cl key"

definition NewS3BlobStore :: "'b s3_client \<Rightarrow> string \<Rightarrow> 'b BlobStore" where
  "NewS3BlobStore cl bucket =
     \<lparr>CreateMultipart = S3_CreateMultipart cl, UploadPart = S3_UploadPart cl,
      CompleteMultipart = S3_CompleteMultipart cl, AbortMultipart = S3_AbortMultipart cl,
      GetObject = S3_GetObject cl, HeadObject = S3_HeadObject cl,
      CopyBlob = S3_Copy cl bucket, DeleteBlob = S3_Delete cl\<rparr>"

section \<open>The contracts\<close>

text \<open>
  Two views of the storage state: \<open>obj b k\<close> is the object stored at a key, \<open>part b k u n\<close> the
  part of that number of a multipart upload, with its tag. A call that reports an error may or
  may not have taken effect.
\<close>

definition slice :: "int \<Rightarrow> int \<Rightarrow> string \<Rightarrow> string" where
  "slice a e c = take (nat (e - a + 1)) (drop (nat a) c)"

definition parts_le ::
  "('b \<Rightarrow> string \<Rightarrow> string \<Rightarrow> int \<Rightarrow> (string \<times> string) option) \<Rightarrow> 'b \<Rightarrow> 'b \<Rightarrow> bool" where
  "parts_le part b b' \<longleftrightarrow> (\<forall>k u n x. part b' k u n = Some x \<longrightarrow> part b k u n = Some x)"

definition others_same :: "('b \<Rightarrow> string \<Rightarrow> string option) \<Rightarrow> string \<Rightarrow> 'b \<Rightarrow> 'b \<Rightarrow> bool" where
  "others_same obj k b b' \<longleftrightarrow> (\<forall>k'. k' \<noteq> k \<longrightarrow> obj b' k' = obj b k')"

definition others_part ::
  "('b \<Rightarrow> string \<Rightarrow> string \<Rightarrow> int \<Rightarrow> (string \<times> string) option) \<Rightarrow> string \<Rightarrow> string \<Rightarrow> int \<Rightarrow> 'b \<Rightarrow> 'b \<Rightarrow> bool" where
  "others_part part k u n b b' \<longleftrightarrow> (\<forall>k' u' n'. (k', u', n') \<noteq> (k, u, n) \<longrightarrow> part b' k' u' n' = part b k' u' n')"

definition assembled ::
  "('b \<Rightarrow> string \<Rightarrow> string \<Rightarrow> int \<Rightarrow> (string \<times> string) option) \<Rightarrow> 'b \<Rightarrow> string \<Rightarrow> string \<Rightarrow>
   CompletedPart list \<Rightarrow> string \<Rightarrow> bool" where
  "assembled part b k u ps content \<longleftrightarrow>
     (\<exists>bodies. content = concat bodies \<and>
        list_all2 (\<lambda>p body. part b k u (cp_PartNumber p) = Some (cp_ETag p, body)) ps bodies)"

locale storage_views =
  fixes obj :: "'b \<Rightarrow> string \<Rightarrow> string option"
    and part :: "'b \<Rightarrow> string \<Rightarrow> string \<Rightarrow> int \<Rightarrow> (string \<times> string) option"
begin

lemma parts_le_refl [simp]: "parts_le part b b"
  by (simp add: parts_le_def)

lemma parts_le_trans: "parts_le part b b' \<Longrightarrow> parts_le part b' b'' \<Longrightarrow> parts_le part b b''"
  by (auto simp: parts_le_def)

lemma others_same_trans: "others_same obj k b b' \<Longrightarrow> others_same obj k b' b'' \<Longrightarrow> others_same obj k b b''"
  by (simp add: others_same_def)

lemma assembled_unique:
  assumes "assembled part b k u ps c" "assembled part b k u ps c'"
  shows "c = c'"
proof -
  let ?R = "\<lambda>p body. part b k u (cp_PartNumber p) = Some (cp_ETag p, body)"
  have "xs = ys" if "list_all2 ?R ps xs" "list_all2 ?R ps ys" for xs ys
    using that by (induction ps arbitrary: xs ys) (auto simp: list_all2_Cons1)
  with assms show ?thesis by (auto simp: assembled_def)
qed

end

text \<open>What S3 documents of the calls the code makes.\<close>

locale s3_service = storage_views obj part
  for obj :: "'b \<Rightarrow> string \<Rightarrow> string option"
    and part :: "'b \<Rightarrow> string \<Rightarrow> string \<Rightarrow> int \<Rightarrow> (string \<times> string) option" +
  fixes cl :: "'b s3_client" and bucket :: string
  assumes s3_create: "c_CreateMultipartUpload cl k m b = (r, b') \<Longrightarrow> obj b' = obj b \<and> parts_le part b b'"
    and s3_part: "c_UploadPart cl k u n body b = (r, b') \<Longrightarrow>
      obj b' = obj b \<and> others_part part k u n b b' \<and> (\<forall>e. r = Inr e \<longrightarrow> part b' k u n = Some (e, body))"
    and s3_complete: "c_CompleteMultipartUpload cl k u ps b = (r1, b') \<Longrightarrow>
      others_same obj k b b' \<and> parts_le part b b' \<and>
      (obj b' k = obj b k \<and> r1 \<noteq> Inr () \<or> (\<exists>c. obj b' k = Some c \<and> assembled part b k u ps c))"
    and s3_abort: "c_AbortMultipartUpload cl k u b = (r1, b') \<Longrightarrow> obj b' = obj b \<and> parts_le part b b'"
    and s3_get: "c_GetObject cl k b = (r2, b') \<Longrightarrow>
      obj b' = obj b \<and> part b' = part b \<and> (\<forall>c. r2 = Inr (Some c) \<longrightarrow> obj b k = Some c)"
    and s3_head: "c_HeadObject cl k b = (r3, b') \<Longrightarrow>
      obj b' = obj b \<and> part b' = part b \<and>
      (\<forall>n. r3 = Inr n \<longrightarrow> (\<exists>c. obj b k = Some c \<and> n = int (length c)))"
    and s3_copy: "c_CopyObject cl k (copy_source bucket src) b = (r1, b') \<Longrightarrow>
      others_same obj k b b' \<and> part b' = part b \<and>
      (obj b' k = obj b k \<and> r1 \<noteq> Inr () \<or> obj b src \<noteq> None \<and> obj b' k = obj b src)"
    and s3_part_copy: "c_UploadPartCopy cl k u n (copy_source bucket src) (lo, hi) b = (r, b') \<Longrightarrow>
      obj b' = obj b \<and> others_part part k u n b b' \<and>
      (\<forall>e. r = Inr e \<longrightarrow> (\<exists>c. obj b src = Some c \<and> part b' k u n = Some (e, slice lo hi c)))"
    and s3_delete: "c_DeleteObject cl k b = (r1, b') \<Longrightarrow>
      others_same obj k b b' \<and> part b' = part b \<and> (obj b' k = None \<or> obj b' k = obj b k \<and> r1 \<noteq> Inr ())"

text \<open>What the handlers rely on.\<close>

locale blob_store = storage_views obj part
  for obj :: "'b \<Rightarrow> string \<Rightarrow> string option"
    and part :: "'b \<Rightarrow> string \<Rightarrow> string \<Rightarrow> int \<Rightarrow> (string \<times> string) option" +
  fixes bs :: "'b BlobStore"
  assumes blob_create: "CreateMultipart bs k m b = (r, b') \<Longrightarrow> obj b' = obj b \<and> parts_le part b b'"
    and blob_part: "UploadPart bs k u n body b = (r, b') \<Longrightarrow>
      obj b' = obj b \<and> others_part part k u n b b' \<and> (\<forall>e. r = Inr e \<longrightarrow> part b' k u n = Some (e, body))"
    and blob_complete: "CompleteMultipart bs k u ps b = (r1, b') \<Longrightarrow>
      others_same obj k b b' \<and> parts_le part b b' \<and>
      (obj b' k = obj b k \<and> r1 \<noteq> Inr () \<or>
       (\<exists>c. obj b' k = Some c \<and> assembled part b k u (sort_key cp_PartNumber ps) c))"
    and blob_abort: "AbortMultipart bs k u b = (r1, b') \<Longrightarrow> obj b' = obj b \<and> parts_le part b b'"
    and blob_get: "GetObject bs k b = (r2, b') \<Longrightarrow>
      obj b' = obj b \<and> part b' = part b \<and> (\<forall>c. r2 = Inr (Some c) \<longrightarrow> obj b k = Some c)"
    and blob_head: "HeadObject bs k b = (r3, b') \<Longrightarrow>
      obj b' = obj b \<and> part b' = part b \<and>
      (\<forall>n. r3 = Inr (n, True) \<longrightarrow> (\<exists>c. obj b k = Some c \<and> n = int (length c)))"
    and blob_copy: "CopyBlob bs src k sz b = (r1, b') \<Longrightarrow> obj b src = Some c \<Longrightarrow> sz = int (length c) \<Longrightarrow> src \<noteq> k \<Longrightarrow>
      others_same obj k b b' \<and> (\<forall>k' u n x. k' \<noteq> k \<longrightarrow> part b' k' u n = Some x \<longrightarrow> part b k' u n = Some x) \<and>
      (obj b' k = obj b k \<and> r1 \<noteq> Inr () \<or> obj b' k = Some c)"
    and blob_delete: "DeleteBlob bs k b = (r1, b') \<Longrightarrow>
      others_same obj k b b' \<and> part b' = part b \<and> (obj b' k = None \<or> obj b' k = obj b k \<and> r1 \<noteq> Inr ())"

section \<open>S3BlobStore keeps the contract\<close>

lemma slice_take: "0 \<le> a \<Longrightarrow> take (nat a) c @ slice a (a + n - 1) c = take (nat (a + n)) c" if "0 \<le> n"
proof -
  assume "0 \<le> a"
  then have "nat (a + n) = nat a + nat (a + n - 1 - a + 1)" using that by simp
  then show ?thesis unfolding slice_def by (metis take_add)
qed

lemma slice_last: "0 \<le> a \<Longrightarrow> a < int (length c) \<Longrightarrow> take (nat a) c @ slice a (int (length c) - 1) c = c"
  by (simp add: slice_def) 

definition parts_upto ::
  "('b \<Rightarrow> string \<Rightarrow> string \<Rightarrow> int \<Rightarrow> (string \<times> string) option) \<Rightarrow> 'b \<Rightarrow> string \<Rightarrow> string \<Rightarrow> int \<Rightarrow>
   CompletedPart list \<Rightarrow> string \<Rightarrow> bool" where
  "parts_upto part b dst u n ps c \<longleftrightarrow> assembled part b dst u ps c \<and> (\<forall>p \<in> set ps. cp_PartNumber p < n)"

context s3_service
begin

lemma abort_keeps: "S3_AbortMultipart cl k u b = (r, b') \<Longrightarrow> obj b' = obj b \<and> parts_le part b b'"
  by (auto simp: S3_AbortMultipart_def split: prod.splits sum.splits s3_err.splits dest!: s3_abort)

lemma parts_upto_snoc:
  assumes "parts_upto part b dst u n ps c" "others_part part dst u n b b'" "part b' dst u n = Some (e, body)"
  shows "parts_upto part b' dst u (n + 1) (ps @ [\<lparr>cp_PartNumber = n, cp_ETag = e\<rparr>]) (c @ body)"
proof -
  from assms(1) obtain bodies where c: "c = concat bodies"
    and l: "list_all2 (\<lambda>p body. part b dst u (cp_PartNumber p) = Some (cp_ETag p, body)) ps bodies"
    and m: "\<forall>p \<in> set ps. cp_PartNumber p < n"
    by (auto simp: parts_upto_def assembled_def)
  have "list_all2 (\<lambda>p body. part b' dst u (cp_PartNumber p) = Some (cp_ETag p, body)) ps bodies"
    by (rule list.rel_mono_strong [OF l]) (use m assms(2) in \<open>auto simp: others_part_def\<close>)
  then have "assembled part b' dst u (ps @ [\<lparr>cp_PartNumber = n, cp_ETag = e\<rparr>]) (c @ body)"
    unfolding assembled_def using assms(3) c
    by (intro exI [of _ "bodies @ [body]"]) (simp add: list_all2_appendI)
  then show ?thesis using m by (auto simp: parts_upto_def)
qed

text \<open>The ranges of the loop tile the object: the parts copied so far are a prefix of it.\<close>

lemma copy_parts_tile:
  assumes "copy_parts cl (copy_source bucket src) dst uid sz offset n parts b = (r, b')"
    and "obj b src = Some c" "sz = int (length c)" "0 \<le> offset"
    and "parts_upto part b dst uid n parts (take (nat offset) c)"
  shows "obj b' = obj b \<and> (\<forall>k' u n x. k' \<noteq> dst \<longrightarrow> part b' k' u n = Some x \<longrightarrow> part b k' u n = Some x) \<and>
    (\<forall>ps. r = Inr ps \<longrightarrow> assembled part b' dst uid ps c)"
  using assms
proof (induction "nat (sz - offset)" arbitrary: offset n parts b rule: less_induct)
  case less
  let ?src = "copy_source bucket src"
  show ?case
  proof (cases "offset < sz")
    case False
    then have "take (nat offset) c = c" using less.prems(3,4) by simp
    then show ?thesis using False less.prems
      by (auto simp: copy_parts.simps [of cl ?src] parts_upto_def)
  next
    case True
    define hi where "hi = (if offset + copyPartSize - 1 \<ge> sz then sz - 1 else offset + copyPartSize - 1)"
    obtain q b1 where q: "c_UploadPartCopy cl dst uid n ?src (offset, hi) b = (q, b1)" by fastforce
    have same: "obj b1 = obj b" and oth: "others_part part dst uid n b b1"
      and new: "\<And>e. q = Inr e \<Longrightarrow> part b1 dst uid n = Some (e, slice offset hi c)"
      using s3_part_copy [OF q] less.prems(2) by auto
    have grow: "take (nat offset) c @ slice offset hi c = take (nat (offset + copyPartSize)) c"
      using slice_take [of copyPartSize offset c] slice_last [of offset c] True less.prems(3,4)
      by (auto simp: hi_def copyPartSize_def)
    show ?thesis
    proof (cases q)
      case (Inl e)
      then have "r = Inl e \<and> b' = snd (S3_AbortMultipart cl dst uid b1)"
        using less.prems(1) True q by (simp add: copy_parts.simps [of cl ?src] hi_def Let_def)
      moreover have "obj (snd (S3_AbortMultipart cl dst uid b1)) = obj b1 \<and>
          parts_le part b1 (snd (S3_AbortMultipart cl dst uid b1))"
        by (rule abort_keeps [OF surjective_pairing])
      moreover have "part b1 k' = part b k'" if "k' \<noteq> dst" for k'
        using oth that by (intro ext) (simp add: others_part_def)
      ultimately show ?thesis using same unfolding parts_le_def by (metis Inl_Inr_False)
    next
      case (Inr e)
      let ?ps = "parts @ [\<lparr>cp_PartNumber = n, cp_ETag = e\<rparr>]"
      have "copy_parts cl ?src dst uid sz (offset + copyPartSize) (n + 1) ?ps b1 = (r, b')"
        using less.prems(1) True q Inr by (simp add: copy_parts.simps [of cl ?src dst uid sz offset] hi_def Let_def)
      moreover have "parts_upto part b1 dst uid (n + 1) ?ps (take (nat (offset + copyPartSize)) c)"
        using parts_upto_snoc [OF less.prems(5) oth new [OF Inr]] grow by simp
      ultimately have "obj b' = obj b1 \<and>
          (\<forall>k' u n x. k' \<noteq> dst \<longrightarrow> part b' k' u n = Some x \<longrightarrow> part b1 k' u n = Some x) \<and>
          (\<forall>ps. r = Inr ps \<longrightarrow> assembled part b' dst uid ps c)"
        using less.prems(2-4) True same
        by (intro less.hyps [of "offset + copyPartSize" "n + 1" ?ps b1]) (auto simp: copyPartSize_def)
      then show ?thesis using same oth by (auto simp: others_part_def)
    qed
  qed
qed

lemma copy_keeps:
  assumes run: "S3_Copy cl bucket src k sz b = (r, b')"
    and c: "obj b src = Some c" "sz = int (length c)" "src \<noteq> k"
  shows "others_same obj k b b' \<and> (\<forall>k' u n x. k' \<noteq> k \<longrightarrow> part b' k' u n = Some x \<longrightarrow> part b k' u n = Some x) \<and>
    (obj b' k = obj b k \<and> r \<noteq> Inr () \<or> obj b' k = Some c)"
proof (cases "sz \<le> singleCopyLimit")
  case True
  then show ?thesis using run c s3_copy [of k src b r b'] by (auto simp: S3_Copy_def Let_def)
next
  case False
  let ?src = "copy_source bucket src"
  obtain q b1 where q: "c_CreateMultipartUpload cl k None b = (q, b1)" by fastforce
  note cr = s3_create [OF q]
  show ?thesis
  proof (cases q)
    case (Inl e)
    then show ?thesis using run False q cr
      by (auto simp: S3_Copy_def Let_def others_same_def parts_le_def)
  next
    case (Inr uid)
    obtain q2 b2 where q2: "copy_parts cl ?src k uid sz 0 1 [] b1 = (q2, b2)" by fastforce
    have t: "obj b2 = obj b1 \<and> (\<forall>k' u n x. k' \<noteq> k \<longrightarrow> part b2 k' u n = Some x \<longrightarrow> part b1 k' u n = Some x) \<and>
        (\<forall>ps. q2 = Inr ps \<longrightarrow> assembled part b2 k uid ps c)"
      by (rule copy_parts_tile [OF q2]) (use c cr in \<open>auto simp: parts_upto_def assembled_def\<close>)
    show ?thesis
    proof (cases q2)
      case (Inl e)
      then show ?thesis using run False q \<open>q = Inr uid\<close> q2 t cr
        by (auto simp: S3_Copy_def Let_def others_same_def parts_le_def)
    next
      case (Inr ps)
      obtain q3 b3 where q3: "c_CompleteMultipartUpload cl k uid ps b2 = (q3, b3)" by fastforce
      have u: "others_same obj k b2 b3" "parts_le part b2 b3"
        "obj b3 k = obj b2 k \<and> q3 \<noteq> Inr () \<or> obj b3 k = Some c"
        using s3_complete [OF q3] t Inr by (auto dest: assembled_unique)
      have f: "obj b3 = obj b' \<and> parts_le part b3 b' \<and> (r = Inr () \<longrightarrow> q3 = Inr ())"
        using run False q \<open>q = Inr uid\<close> q2 Inr q3 abort_keeps [OF prod.collapse [symmetric], of k uid b3]
        by (auto simp: S3_Copy_def Let_def split: sum.splits)
      show ?thesis
        using f u t cr by (auto simp: others_same_def parts_le_def)
    qed
  qed
qed

end

sublocale s3_service \<subseteq> s3: blob_store obj part "NewS3BlobStore cl bucket"
proof (unfold_locales, goal_cases)
  case (1 k m b r b')
  then show ?case by (auto simp: NewS3BlobStore_def S3_CreateMultipart_def dest: s3_create)
next
  case (2 k u n body b r b')
  then show ?case using s3_part [of k u n body b r b'] by (simp add: NewS3BlobStore_def S3_UploadPart_def)
next
  case (3 k u ps b r1 b')
  then show ?case using s3_complete [of k u "sort_key cp_PartNumber ps" b r1 b']
    by (simp add: NewS3BlobStore_def S3_CompleteMultipart_def)
next
  case (4 k u b r1 b')
  then show ?case using abort_keeps [of k u b r1 b'] by (simp add: NewS3BlobStore_def)
next
  case (5 k b r2 b')
  then show ?case using s3_get [of k b r2 b'] by (simp add: NewS3BlobStore_def S3_GetObject_def)
next
  case (6 k b r3 b')
  obtain q b1 where q: "c_HeadObject cl k b = (q, b1)" by fastforce
  then have "b' = b1" "\<And>n. r3 = Inr (n, True) \<Longrightarrow> q = Inr n"
    using 6 by (auto simp: NewS3BlobStore_def S3_HeadObject_def split: sum.splits s3_err.splits)
  then show ?case using s3_head [OF q] by auto
next
  case (7 src k sz b r1 b' c)
  then show ?case using copy_keeps [of src k sz b r1 b' c] by (simp add: NewS3BlobStore_def)
next
  case (8 k b r1 b')
  then show ?case using s3_delete [of k b r1 b'] by (simp add: NewS3BlobStore_def S3_Delete_def)
qed

section \<open>A storage service that keeps what S3 documents\<close>

text \<open>
  A service held in memory, without failures of its own: the laws of \<open>s3_service\<close> can be met, and
  the handlers can be run on it.
\<close>

record mem =
  m_objects :: "string \<Rightarrow> string option"
  m_parts :: "string \<Rightarrow> string \<Rightarrow> int \<Rightarrow> (string \<times> string) option"

fun hex_val :: "char \<Rightarrow> nat" where
  "hex_val c = (if is_digit c then of_char c - 48 else of_char c - 55)"

fun PathUnescape :: "string \<Rightarrow> string" where
  "PathUnescape [] = []"
| "PathUnescape (c # cs) =
     (if c = CHR ''%'' then
        (case cs of
           a # b # rest \<Rightarrow> char_of (16 * hex_val a + hex_val b) # PathUnescape rest
         | _ \<Rightarrow> [])
      else c # PathUnescape cs)"

fun mem_join :: "mem \<Rightarrow> string \<Rightarrow> string \<Rightarrow> CompletedPart list \<Rightarrow> string option" where
  "mem_join m k u [] = Some []"
| "mem_join m k u (p # ps) =
     (case m_parts m k u (cp_PartNumber p) of
        None \<Rightarrow> None
      | Some (e, body) \<Rightarrow>
          if e \<noteq> cp_ETag p then None
          else (case mem_join m k u ps of None \<Rightarrow> None | Some c \<Rightarrow> Some (body @ c)))"

definition mem_put :: "string \<Rightarrow> string \<Rightarrow> int \<Rightarrow> string \<Rightarrow> mem \<Rightarrow> (s3_err + string) \<times> mem" where
  "mem_put k u n body m =
     (Inr (''e'' @ body), m\<lparr>m_parts := (m_parts m)(k := (m_parts m k)(u := (m_parts m k u)(n \<mapsto> (''e'' @ body, body))))\<rparr>)"

definition mem_client :: "string \<Rightarrow> mem s3_client" where
  "mem_client bucket =
     \<lparr>c_CreateMultipartUpload = (\<lambda>k mime m. (Inr (''u'' @ k), m)),
      c_UploadPart = mem_put,
      c_CompleteMultipartUpload = (\<lambda>k u ps m.
        case mem_join m k u ps of
          None \<Rightarrow> (Inl S3Failed, m)
        | Some c \<Rightarrow> (Inr (), m\<lparr>m_objects := (m_objects m)(k \<mapsto> c),
                              m_parts := (m_parts m)(k := (m_parts m k)(u := (\<lambda>_. None)))\<rparr>)),
      c_AbortMultipartUpload = (\<lambda>k u m.
        (Inr (), m\<lparr>m_parts := (m_parts m)(k := (m_parts m k)(u := (\<lambda>_. None)))\<rparr>)),
      c_GetObject = (\<lambda>k m. (case m_objects m k of None \<Rightarrow> Inl S3NotFound | Some c \<Rightarrow> Inr (Some c), m)),
      c_HeadObject = (\<lambda>k m. (case m_objects m k of None \<Rightarrow> Inl S3NotFound | Some c \<Rightarrow> Inr (int (length c)), m)),
      c_CopyObject = (\<lambda>k source m.
        case m_objects m (trim_prefix (bucket @ ''/'') (PathUnescape source)) of
          None \<Rightarrow> (Inl S3NotFound, m)
        | Some c \<Rightarrow> (Inr (), m\<lparr>m_objects := (m_objects m)(k \<mapsto> c)\<rparr>)),
      c_UploadPartCopy = (\<lambda>k u n source (lo, hi) m.
        case m_objects m (trim_prefix (bucket @ ''/'') (PathUnescape source)) of
          None \<Rightarrow> (Inl S3NotFound, m)
        | Some c \<Rightarrow> mem_put k u n (slice lo hi c) m),
      c_DeleteObject = (\<lambda>k m. (Inr (), m\<lparr>m_objects := (m_objects m)(k := None)\<rparr>))\<rparr>"

lemma hex_val_digit: "n < 16 \<Longrightarrow> hex_val (hex_digit n) = n"
  by (auto simp: hex_digit_def is_digit_def between_def of_char_of)

lemma PathUnescape_escape: "PathUnescape (PathEscape s) = s"
proof (induction s)
  case (Cons c cs)
  have n: "(of_char c :: nat) < 256" by (metis char_of_char mod_less_divisor of_char_of zero_less_numeral)
  have "16 * hex_val (hex_digit (of_char c div 16)) + hex_val (hex_digit (of_char c mod 16)) = (of_char c :: nat)"
    using hex_val_digit [of "of_char c div 16"] hex_val_digit [of "of_char c mod 16"] n
    by (simp del: hex_val.simps add: less_mult_imp_div_less)
  moreover have "\<not> path_safe CHR ''%''" by (simp add: path_safe_def is_alnum_def between_def is_digit_def)
  ultimately show ?case using Cons by (auto simp del: hex_val.simps)
qed simp

lemma mem_source: "trim_prefix (bucket @ ''/'') (PathUnescape (copy_source bucket k)) = k"
proof -
  have "bucket @ ''/'' @ k = (bucket @ ''/'') @ k" by simp
  then show ?thesis unfolding copy_source_def PathUnescape_escape by (metis trim_prefix_append)
qed

lemma mem_join_assembled: "mem_join m k u ps = Some c \<Longrightarrow> assembled m_parts m k u ps c"
proof (induction ps arbitrary: c)
  case (Cons p ps)
  then obtain e body c' where p: "m_parts m k u (cp_PartNumber p) = Some (cp_ETag p, body)"
    and "mem_join m k u ps = Some c'" and c: "c = body @ c'"
    by (auto split: option.splits if_splits)
  with Cons.IH obtain bodies where "c' = concat bodies"
    "list_all2 (\<lambda>p body. m_parts m k u (cp_PartNumber p) = Some (cp_ETag p, body)) ps bodies"
    by (auto simp: assembled_def)
  then show ?case unfolding assembled_def using p c by (intro exI [of _ "body # bodies"]) simp
qed (simp add: assembled_def)

interpretation mem: s3_service m_objects m_parts "mem_client bucket" bucket for bucket
proof (unfold_locales, goal_cases)
  case (3 k u ps b r1 b')
  then show ?case by (auto simp: mem_client_def others_same_def parts_le_def dest: mem_join_assembled split: option.splits if_splits)
qed (auto simp: mem_client_def mem_put_def mem_source parts_le_def others_part_def others_same_def split: option.splits if_splits)

end
