(* ===== verification/UploadAuth.thy ===== *)
theory UploadAuth
  imports GoText
begin

text \<open>
  Authentication and configuration of the upload service: \<open>services/upload/auth.go\<close> and
  \<open>services/upload/config.go\<close>. The base64url decoder, HMAC-SHA256 and the JSON decoder of the
  standard library are arguments; what the code does with their results is modelled in full.
\<close>

section \<open>Bearer tokens (auth.go)\<close>

record UpIdentity =
  ui_WorkspaceID :: string
  ui_UserID :: string

datatype token_err = errTokenFormat | errTokenAlg | errTokenSignature | errTokenExpired | errTokenClaims

record tokenClaims =
  tc_Sub :: string
  tc_WorkspaceID :: string
  tc_Exp :: int
  tc_Nbf :: int

text \<open>
  The library functions: \<open>b64\<close> decodes unpadded base64url, \<open>hmac key msg\<close> is the code of a
  message, \<open>json_alg\<close> and \<open>json_claims\<close> are \<open>json.Unmarshal\<close> into the header (of which the code
  reads only the algorithm) and into the claims, absent fields being empty or zero.
\<close>

record token_lib =
  b64 :: "string \<Rightarrow> string option"
  hmac :: "string \<Rightarrow> string \<Rightarrow> string"
  json_alg :: "string \<Rightarrow> string option"
  json_claims :: "string \<Rightarrow> tokenClaims option"

definition check_claims :: "int \<Rightarrow> tokenClaims \<Rightarrow> token_err + UpIdentity" where
  "check_claims now c =
     (if tc_Exp c = 0 \<or> now \<ge> tc_Exp c then Inl errTokenExpired
      else if tc_Nbf c \<noteq> 0 \<and> now < tc_Nbf c then Inl errTokenExpired
      else if tc_Sub c = [] \<or> tc_WorkspaceID c = [] then Inl errTokenClaims
      else Inr \<lparr>ui_WorkspaceID = tc_WorkspaceID c, ui_UserID = tc_Sub c\<rparr>)"

definition VerifyHS256 :: "token_lib \<Rightarrow> string \<Rightarrow> string \<Rightarrow> int \<Rightarrow> token_err + UpIdentity" where
  "VerifyHS256 lib token key now =
     (case split_on CHR ''.'' token of
        [p0, p1, p2] \<Rightarrow>
          (case b64 lib p0 of
             None \<Rightarrow> Inl errTokenFormat
           | Some headerRaw \<Rightarrow>
               (case json_alg lib headerRaw of
                  None \<Rightarrow> Inl errTokenFormat
                | Some alg \<Rightarrow>
                    if alg \<noteq> ''HS256'' then Inl errTokenAlg
                    else case b64 lib p2 of
                      None \<Rightarrow> Inl errTokenFormat
                    | Some sig \<Rightarrow>
                        if sig \<noteq> hmac lib key (p0 @ ''.'' @ p1) then Inl errTokenSignature
                        else case b64 lib p1 of
                          None \<Rightarrow> Inl errTokenFormat
                        | Some claimsRaw \<Rightarrow>
                            (case json_claims lib claimsRaw of
                               None \<Rightarrow> Inl errTokenFormat
                             | Some c \<Rightarrow> check_claims now c)))
      | _ \<Rightarrow> Inl errTokenFormat)"

text \<open>The middleware either answers 401 or calls the next handler with the identity.\<close>

definition AuthMiddleware :: "token_lib \<Rightarrow> string \<Rightarrow> string \<Rightarrow> int \<Rightarrow> string + UpIdentity" where
  "AuthMiddleware lib key authorization now =
     (if \<not> has_prefix ''Bearer '' authorization then Inl ''missing bearer token''
      else case VerifyHS256 lib (trim_prefix ''Bearer '' authorization) key now of
             Inl _ \<Rightarrow> Inl ''invalid bearer token''
           | Inr i \<Rightarrow> Inr i)"

lemma check_claims_iff:
  "check_claims now c = Inr i \<longleftrightarrow>
     now < tc_Exp c \<and> tc_Exp c \<noteq> 0 \<and> (tc_Nbf c = 0 \<or> tc_Nbf c \<le> now) \<and>
     tc_Sub c \<noteq> [] \<and> tc_WorkspaceID c \<noteq> [] \<and>
     i = \<lparr>ui_WorkspaceID = tc_WorkspaceID c, ui_UserID = tc_Sub c\<rparr>"
  by (auto simp: check_claims_def)

section \<open>Configuration (config.go)\<close>

definition ChunkSizeBytes :: int where
  "ChunkSizeBytes = 67108864"

record UploadConfig =
  uc_ListenAddr :: string
  uc_DatabaseURL :: string
  uc_S3Endpoint :: string
  uc_S3Region :: string
  uc_S3Bucket :: string
  uc_S3AccessKey :: string
  uc_S3SecretKey :: string
  uc_S3PathStyle :: bool
  uc_NATSURL :: string
  uc_QuotaConfigPath :: string
  uc_AuthHS256Key :: string
  uc_MaxInflightBytes :: int
  uc_MaxObjectBytes :: int

text \<open>
  The required settings are checked by ranging over a Go map, whose order is not determined: the
  error does not say which missing setting is reported.
\<close>

datatype config_err =
  CfgBool string | CfgInt string | CfgKeyMissing | CfgKeyEncoding | CfgKeyShort | CfgMissing
| CfgInflight | CfgMaxObject

definition envDefault :: "(string \<Rightarrow> string) \<Rightarrow> string \<Rightarrow> string \<Rightarrow> string" where
  "envDefault getenv name d = (if getenv name \<noteq> [] then getenv name else d)"

definition ParseBool :: "string \<Rightarrow> bool option" where
  "ParseBool s =
     (if s \<in> {''1'', ''t'', ''T'', ''TRUE'', ''true'', ''True''} then Some True
      else if s \<in> {''0'', ''f'', ''F'', ''FALSE'', ''false'', ''False''} then Some False
      else None)"

definition envBool :: "(string \<Rightarrow> string) \<Rightarrow> string \<Rightarrow> bool \<Rightarrow> config_err + bool" where
  "envBool getenv name d =
     (if getenv name = [] then Inr d
      else case ParseBool (getenv name) of None \<Rightarrow> Inl (CfgBool name) | Some b \<Rightarrow> Inr b)"

definition envInt64 :: "(string \<Rightarrow> string) \<Rightarrow> string \<Rightarrow> int \<Rightarrow> config_err + int" where
  "envInt64 getenv name d =
     (if getenv name = [] then Inr d
      else case ParseInt (getenv name) of None \<Rightarrow> Inl (CfgInt name) | Some n \<Rightarrow> Inr n)"

definition LoadConfig :: "(string \<Rightarrow> string option) \<Rightarrow> (string \<Rightarrow> string) \<Rightarrow> config_err + UploadConfig" where
  "LoadConfig decode getenv =
     (case envBool getenv ''UPLOAD_S3_PATH_STYLE'' True of
        Inl e \<Rightarrow> Inl e
      | Inr pathStyle \<Rightarrow>
     (case envInt64 getenv ''UPLOAD_MAX_INFLIGHT_BYTES'' (2 ^ 30) of
        Inl e \<Rightarrow> Inl e
      | Inr inflight \<Rightarrow>
     (case envInt64 getenv ''UPLOAD_MAX_OBJECT_BYTES'' (2 ^ 40) of
        Inl e \<Rightarrow> Inl e
      | Inr maxObject \<Rightarrow>
     (let keyB64 = getenv ''UPLOAD_AUTH_HS256_KEY'' in
      if keyB64 = [] then Inl CfgKeyMissing
      else case decode keyB64 of
        None \<Rightarrow> Inl CfgKeyEncoding
      | Some key \<Rightarrow>
          if length key < 32 then Inl CfgKeyShort
          else if list_ex (\<lambda>v. getenv v = [])
            [''UPLOAD_DATABASE_URL'', ''UPLOAD_S3_ENDPOINT'', ''UPLOAD_S3_BUCKET'', ''UPLOAD_S3_ACCESS_KEY'',
             ''UPLOAD_S3_SECRET_KEY'', ''UPLOAD_QUOTA_CONFIG_PATH''] then Inl CfgMissing
          else if inflight < ChunkSizeBytes then Inl CfgInflight
          else if maxObject \<le> 0 then Inl CfgMaxObject
          else Inr
            \<lparr>uc_ListenAddr = envDefault getenv ''UPLOAD_LISTEN_ADDR'' ''127.0.0.1:5301'',
             uc_DatabaseURL = getenv ''UPLOAD_DATABASE_URL'',
             uc_S3Endpoint = getenv ''UPLOAD_S3_ENDPOINT'',
             uc_S3Region = envDefault getenv ''UPLOAD_S3_REGION'' ''gra'',
             uc_S3Bucket = getenv ''UPLOAD_S3_BUCKET'',
             uc_S3AccessKey = getenv ''UPLOAD_S3_ACCESS_KEY'',
             uc_S3SecretKey = getenv ''UPLOAD_S3_SECRET_KEY'',
             uc_S3PathStyle = pathStyle,
             uc_NATSURL = envDefault getenv ''UPLOAD_NATS_URL'' ''nats://127.0.0.1:4222'',
             uc_QuotaConfigPath = getenv ''UPLOAD_QUOTA_CONFIG_PATH'',
             uc_AuthHS256Key = key,
             uc_MaxInflightBytes = inflight,
             uc_MaxObjectBytes = maxObject\<rparr>))))"

text \<open>Every configuration the service starts with admits at least one chunk and one byte.\<close>

lemma LoadConfig_limits:
  "LoadConfig decode getenv = Inr cfg \<Longrightarrow>
     ChunkSizeBytes \<le> uc_MaxInflightBytes cfg \<and> 0 < uc_MaxObjectBytes cfg \<and> 32 \<le> length (uc_AuthHS256Key cfg)"
  by (auto simp: LoadConfig_def Let_def split: sum.splits option.splits if_splits)

section \<open>Properties\<close>

text \<open>
  A bearer token is accepted exactly when it is the dotted concatenation of a header that
  names HS256, a payload, and the authentication code of both under the service's key, and the
  payload's claims are current (not expired, and past the not-before time if there is one) and
  name a user and a workspace; the identity is the one of the claims. In particular the algorithm cannot be chosen by the caller, and nothing of the payload
  is read before the code has been checked.
\<close>

theorem token_accepted_iff:
  "VerifyHS256 lib token key now = Inr i \<longleftrightarrow>
     (\<exists>p0 p1 p2 hdr claims c.
        token = p0 @ ''.'' @ p1 @ ''.'' @ p2 \<and> CHR ''.'' \<notin> set (p0 @ p1 @ p2) \<and>
        b64 lib p0 = Some hdr \<and> json_alg lib hdr = Some ''HS256'' \<and>
        b64 lib p2 = Some (hmac lib key (p0 @ ''.'' @ p1)) \<and>
        b64 lib p1 = Some claims \<and> json_claims lib claims = Some c \<and>
        now < tc_Exp c \<and> tc_Exp c \<noteq> 0 \<and> (tc_Nbf c = 0 \<or> tc_Nbf c \<le> now) \<and>
        tc_Sub c \<noteq> [] \<and> tc_WorkspaceID c \<noteq> [] \<and>
        i = \<lparr>ui_WorkspaceID = tc_WorkspaceID c, ui_UserID = tc_Sub c\<rparr>)"
  (is "?l \<longleftrightarrow> ?r")
proof
  assume ?l
  then obtain p0 p1 p2 where s: "split_on CHR ''.'' token = [p0, p1, p2]"
    by (auto simp: VerifyHS256_def split: list.splits)
  with \<open>?l\<close> obtain hdr sig claims c where
    "b64 lib p0 = Some hdr" "json_alg lib hdr = Some ''HS256''" "b64 lib p2 = Some (hmac lib key (p0 @ ''.'' @ p1))"
    "b64 lib p1 = Some claims" "json_claims lib claims = Some c" "check_claims now c = Inr i"
    by (auto simp: VerifyHS256_def split: option.splits if_splits)
  moreover have "CHR ''.'' \<notin> set (p0 @ p1 @ p2)" using split_on_fields [of _ "CHR ''.''" token] s by auto
  moreover have "token = p0 @ ''.'' @ p1 @ ''.'' @ p2" by (rule split_on_three [OF s])
  ultimately show ?r unfolding check_claims_iff by blast
next
  assume ?r
  then show ?l by (auto simp: VerifyHS256_def split_on_append split_on_no_sep check_claims_iff)
qed

end
