(* ===== verification/Boundary.thy ===== *)
theory Boundary
  imports GoText
begin

text \<open>
  The JSON boundary of the services. What \<open>encoding/json\<close> does with the bytes of a body is
  given by its result: the body cannot be read, the first value does not decode into the
  target struct (unknown fields are refused by \<open>DisallowUnknownFields\<close>), or it decodes and
  some bytes are left over. What the services then do with the bytes left over is modelled
  exactly: the orchestrator, the upload service and telemetry ask \<open>Decoder.More\<close>, tenancy
  asks for a second value and expects end of input.
\<close>

datatype 'a json_in =
  JsonUnreadable
| JsonBad string
| JsonValue 'a string

definition is_json_space :: "char \<Rightarrow> bool" where
  "is_json_space c \<longleftrightarrow> c = CHR '' '' \<or> c = CHR 0x09 \<or> c = CHR 0x0A \<or> c = CHR 0x0D"

text \<open>
  \<open>Decoder.More\<close> at top level: there is a next byte after white space and it is neither a
  closing bracket nor a closing brace.
\<close>

definition dec_More :: "string \<Rightarrow> bool" where
  "dec_More rest =
     (case dropWhile is_json_space rest of
        [] \<Rightarrow> False
      | c # _ \<Rightarrow> c \<noteq> CHR '']'' \<and> c \<noteq> CHR ''}'')"

definition strictUnmarshal :: "'a json_in \<Rightarrow> string + 'a" where
  "strictUnmarshal b =
     (case b of
        JsonUnreadable \<Rightarrow> Inl ''EOF''
      | JsonBad e \<Rightarrow> Inl e
      | JsonValue v rest \<Rightarrow>
          if dec_More rest then Inl ''trailing data after JSON value'' else Inr v)"

text \<open>A second \<open>Decode\<close> reports \<open>io.EOF\<close> exactly when only white space is left.\<close>

definition at_eof :: "string \<Rightarrow> bool" where
  "at_eof rest \<longleftrightarrow> dropWhile is_json_space rest = []"

lemma at_eof_iff: "at_eof rest \<longleftrightarrow> list_all is_json_space rest"
  by (auto simp: at_eof_def dropWhile_eq_Nil_conv list_all_iff)

lemma at_eof_not_More: "at_eof rest \<Longrightarrow> \<not> dec_More rest"
  unfolding at_eof_def dec_More_def by (simp only: list.case not_False_eq_True)

lemma strictUnmarshal_Inr:
  "strictUnmarshal b = Inr v \<longleftrightarrow> (\<exists>rest. b = JsonValue v rest \<and> \<not> dec_More rest)"
  by (auto simp: strictUnmarshal_def split: json_in.splits if_splits)

end
