(* ===== verification/ServeMux.thy ===== *)
theory ServeMux
  imports GoText "HOL-Library.List_Lexorder" "HOL-Library.Char_ord"
begin

text \<open>
  Requests and their routing: what the services use of \<open>net/http\<close>. A request is given by the parts
  the services read. \<open>mux_serve\<close> is \<open>ServeMux\<close> of Go 1.25: cleaning of the path, patterns with a
  method, literal segments before wildcards before subtrees, \<open>GET\<close> serving \<open>HEAD\<close>, and the answers
  the multiplexer gives itself. Patterns have no host, no remainder wildcard and no end marker, as
  the services register none. The second half relates the search through the pattern tree to the
  plain meaning of a pattern.
\<close>

section \<open>Requests\<close>

record http_request =
  rq_Method :: string
  rq_RequestURI :: string
  rq_EscapedPath :: string
  rq_Path :: string
  rq_RawQuery :: string
  rq_Query :: "(string \<times> string list) list"
  rq_Header :: "string \<Rightarrow> string"
  rq_Cookie :: "string \<Rightarrow> string"
  rq_ContentLength :: int
  rq_Body :: string
  rq_Broken :: bool

section \<open>Paths\<close>

definition hex_value :: "char \<Rightarrow> nat option" where
  "hex_value c =
     (if is_digit c then Some (of_char c - 48)
      else if between CHR ''a'' CHR ''f'' c then Some (of_char c - 87)
      else if between CHR ''A'' CHR ''F'' c then Some (of_char c - 55)
      else None)"

fun pct_decode :: "string \<Rightarrow> string option" where
  "pct_decode [] = Some []"
| "pct_decode (c # s) =
     (if c \<noteq> CHR ''%'' then map_option (\<lambda>t. c # t) (pct_decode s)
      else case s of
        a # b # u \<Rightarrow>
          (case (hex_value a, hex_value b) of
             (Some x, Some y) \<Rightarrow> map_option (\<lambda>t. char_of (16 * x + y) # t) (pct_decode u)
           | _ \<Rightarrow> None)
      | _ \<Rightarrow> None)"

definition pathUnescape :: "string \<Rightarrow> string" where
  "pathUnescape s = (case pct_decode s of None \<Rightarrow> s | Some t \<Rightarrow> t)"

definition firstSegment :: "string \<Rightarrow> string \<times> string" where
  "firstSegment path =
     (if path = ''/'' then (''/'', [])
      else (pathUnescape (takeWhile (\<lambda>c. c \<noteq> CHR ''/'') (tl path)), dropWhile (\<lambda>c. c \<noteq> CHR ''/'') (tl path)))"

text \<open>The segments a search through the tree looks at, one after the other.\<close>

function path_segments :: "string \<Rightarrow> string list" where
  "path_segments path =
     (if path = [] then [] else fst (firstSegment path) # path_segments (snd (firstSegment path)))"
  by auto
termination
proof (relation "measure length")
  show "wf (measure length)" by simp
  fix path :: string
  assume ne: "path \<noteq> []"
  have "length (dropWhile (\<lambda>c. c \<noteq> CHR ''/'') (tl path)) \<le> length (tl path)" by (rule length_dropWhile_le)
  then show "(snd (firstSegment path), path) \<in> measure length"
    using ne by (cases path) (auto simp: firstSegment_def)
qed

declare path_segments.simps [simp del]

lemma path_segments_Nil [simp]: "path_segments [] = []"
  by (simp add: path_segments.simps)

definition cleanPath :: "string \<Rightarrow> string" where
  "cleanPath p =
     (if p = [] then ''/''
      else let p = (if hd p \<noteq> CHR ''/'' then CHR ''/'' # p else p); np = filepath_Clean p in
        if last p = CHR ''/'' \<and> np \<noteq> ''/'' then np @ ''/'' else np)"

section \<open>Patterns\<close>

datatype pat_seg = PLit string | PWild string | PMulti

record 'h route =
  rt_method :: string
  rt_segs :: "pat_seg list"
  rt_handler :: 'h

definition parse_seg :: "string \<Rightarrow> pat_seg" where
  "parse_seg s =
     (if s = [] then PMulti else if has_prefix ''{'' s then PWild (butlast (tl s)) else PLit (pathUnescape s))"

definition parsePattern :: "string \<times> 'h \<Rightarrow> 'h route" where
  "parsePattern p =
     (case (case cut CHR '' '' (fst p) of None \<Rightarrow> ([], fst p) | Some mp \<Rightarrow> mp) of
        (m, path) \<Rightarrow> \<lparr>rt_method = m, rt_segs = map parse_seg (split_on CHR ''/'' (tl path)), rt_handler = snd p\<rparr>)"

definition mux_of :: "(string \<times> 'h) list \<Rightarrow> 'h route list" where
  "mux_of ps = map parsePattern ps"

section \<open>The search\<close>

definition lit_children :: "string \<Rightarrow> (pat_seg list \<times> 'p) list \<Rightarrow> (pat_seg list \<times> 'p) list" where
  "lit_children s ps = map (\<lambda>(t, p). (tl t, p)) (filter (\<lambda>(t, p). t \<noteq> [] \<and> hd t = PLit s) ps)"

fun is_wild :: "pat_seg \<Rightarrow> bool" where
  "is_wild (PWild _) = True"
| "is_wild _ = False"

definition wild_children :: "(pat_seg list \<times> 'p) list \<Rightarrow> (pat_seg list \<times> 'p) list" where
  "wild_children ps = map (\<lambda>(t, p). (tl t, p)) (filter (\<lambda>(t, p). t \<noteq> [] \<and> is_wild (hd t)) ps)"

definition leaf :: "pat_seg list \<Rightarrow> (pat_seg list \<times> 'p) list \<Rightarrow> ('p \<times> string list) option" where
  "leaf t ps = map_option (\<lambda>x. (snd x, [])) (List.find (\<lambda>x. fst x = t) ps)"

fun matchPath :: "(pat_seg list \<times> 'p) list \<Rightarrow> string list \<Rightarrow> ('p \<times> string list) option" where
  "matchPath ps [] = leaf [] ps"
| "matchPath ps (s # rest) =
     (case matchPath (lit_children s ps) rest of
        Some r \<Rightarrow> Some r
      | None \<Rightarrow>
          (case (if s = ''/'' then None else matchPath (wild_children ps) rest) of
             Some (p, vs) \<Rightarrow> Some (p, s # vs)
           | None \<Rightarrow> leaf [PMulti] ps))"

definition of_method :: "string \<Rightarrow> 'h route list \<Rightarrow> (pat_seg list \<times> 'h route) list" where
  "of_method m rs = map (\<lambda>r. (rt_segs r, r)) (filter (\<lambda>r. rt_method r = m) rs)"

definition matchMethodAndPath :: "'h route list \<Rightarrow> string \<Rightarrow> string list \<Rightarrow> ('h route \<times> string list) option" where
  "matchMethodAndPath rs m segs =
     (case matchPath (of_method m rs) segs of
        Some x \<Rightarrow> Some x
      | None \<Rightarrow>
          (case (if m = ''HEAD'' then matchPath (of_method ''GET'' rs) segs else None) of
             Some x \<Rightarrow> Some x
           | None \<Rightarrow> matchPath (of_method [] rs) segs))"

definition exactMatch :: "('h route \<times> string list) option \<Rightarrow> string \<Rightarrow> bool" where
  "exactMatch n path =
     (case n of
        None \<Rightarrow> False
      | Some (r, _) \<Rightarrow>
          if last (rt_segs r) \<noteq> PMulti then True
          else if path \<noteq> [] \<and> last path \<noteq> CHR ''/'' then False
          else length (rt_segs r) = length (filter (\<lambda>c. c = CHR ''/'') path))"

text \<open>\<open>None\<close> is the redirection to the path with a slash at its end.\<close>

definition matchOrRedirect :: "'h route list \<Rightarrow> string \<Rightarrow> string \<Rightarrow> ('h route \<times> string list) option option" where
  "matchOrRedirect rs m path =
     (let n = matchMethodAndPath rs m (path_segments path) in
      if \<not> exactMatch n path \<and> \<not> has_suffix ''/'' path \<and>
         exactMatch (matchMethodAndPath rs m (path_segments (path @ ''/''))) (path @ ''/'')
      then None else Some n)"

definition methods_at :: "'h route list \<Rightarrow> string list \<Rightarrow> string list" where
  "methods_at rs segs =
     (let ms = filter (\<lambda>m. m \<noteq> [] \<and> matchPath (of_method m rs) segs \<noteq> None) (remdups (map rt_method rs)) in
      if ''GET'' \<in> set ms then List.insert ''HEAD'' ms else ms)"

definition matchingMethods :: "'h route list \<Rightarrow> string \<Rightarrow> string list" where
  "matchingMethods rs path =
     sort (remdups (methods_at rs (path_segments path) @
       (if has_suffix ''/'' path then [] else methods_at rs (path_segments (path @ ''/'')))))"

datatype mux_reply =
  MuxRedirect string string
| MuxNotFound
| MuxNotAllowed "string list"
| MuxBadRequest

fun mux_status :: "mux_reply \<Rightarrow> int" where
  "mux_status (MuxRedirect _ _) = 301"
| "mux_status MuxNotFound = 404"
| "mux_status (MuxNotAllowed _) = 405"
| "mux_status MuxBadRequest = 400"

definition findHandler :: "'h route list \<Rightarrow> http_request \<Rightarrow> mux_reply + ('h route \<times> string list)" where
  "findHandler rs q =
     (let m = rq_Method q; path = (if m = ''CONNECT'' then rq_EscapedPath q else cleanPath (rq_EscapedPath q)) in
      case matchOrRedirect rs m path of
        None \<Rightarrow> Inl (MuxRedirect (cleanPath (rq_Path q) @ ''/'') (rq_RawQuery q))
      | Some n \<Rightarrow>
          if path \<noteq> rq_EscapedPath q then Inl (MuxRedirect path (rq_RawQuery q))
          else (case n of
                  Some x \<Rightarrow> Inr x
                | None \<Rightarrow>
                    (let ms = matchingMethods rs path in
                     if ms \<noteq> [] then Inl (MuxNotAllowed ms) else Inl MuxNotFound)))"

fun wild_names :: "pat_seg list \<Rightarrow> string list" where
  "wild_names [] = []"
| "wild_names (PWild n # t) = n # wild_names t"
| "wild_names (_ # t) = wild_names t"

definition PathValue :: "'h route \<times> string list \<Rightarrow> string \<Rightarrow> string" where
  "PathValue x name = (case map_of (zip (wild_names (rt_segs (fst x))) (snd x)) name of None \<Rightarrow> [] | Some v \<Rightarrow> v)"

text \<open>\<open>ServeHTTP\<close>: the handler that runs and its path values, or the multiplexer's own answer.\<close>

definition mux_serve :: "'h route list \<Rightarrow> http_request \<Rightarrow> mux_reply + ('h \<times> (string \<Rightarrow> string))" where
  "mux_serve rs q =
     (if rq_RequestURI q = ''*'' then Inl MuxBadRequest
      else case findHandler rs q of
             Inl m \<Rightarrow> Inl m
           | Inr x \<Rightarrow> Inr (rt_handler (fst x), PathValue x))"

section \<open>The meaning of a pattern\<close>

fun seg_matches :: "pat_seg list \<Rightarrow> string list \<Rightarrow> string list option" where
  "seg_matches [] [] = Some []"
| "seg_matches [PMulti] (s # rest) = Some []"
| "seg_matches (PLit l # t) (s # rest) = (if l = s then seg_matches t rest else None)"
| "seg_matches (PWild n # t) (s # rest) =
     (if s = ''/'' then None else map_option (\<lambda>vs. s # vs) (seg_matches t rest))"
| "seg_matches _ _ = None"

lemma leaf_Some: "leaf t ps = Some (p, vs) \<longleftrightarrow> vs = [] \<and> (\<exists>x. List.find (\<lambda>x. fst x = t) ps = Some x \<and> p = snd x)"
  by (auto simp: leaf_def)

lemma leaf_mem: "leaf t ps = Some (p, vs) \<Longrightarrow> vs = [] \<and> (t, p) \<in> set ps"
  unfolding leaf_Some using find_mem by fastforce

lemma leaf_None: "leaf t ps = None \<Longrightarrow> (t, p) \<notin> set ps"
  by (force simp: leaf_def find_None_all)

lemma lit_children_mem: "(u, p) \<in> set (lit_children s ps) \<longleftrightarrow> (PLit s # u, p) \<in> set ps"
  by (force simp: lit_children_def neq_Nil_conv image_iff)

lemma wild_children_mem: "(u, p) \<in> set (wild_children ps) \<longleftrightarrow> (\<exists>n. (PWild n # u, p) \<in> set ps)"
proof
  assume "(u, p) \<in> set (wild_children ps)"
  then obtain t where t: "(t, p) \<in> set ps" "t \<noteq> []" "is_wild (hd t)" "u = tl t"
    by (auto simp: wild_children_def)
  then obtain n where "hd t = PWild n" by (cases "hd t") auto
  then have "t = PWild n # u" using t by (cases t) auto
  then show "\<exists>n. (PWild n # u, p) \<in> set ps" using t by blast
next
  assume "\<exists>n. (PWild n # u, p) \<in> set ps"
  then show "(u, p) \<in> set (wild_children ps)" by (force simp: wild_children_def)
qed

lemma matchPath_sound:
  "matchPath ps segs = Some (p, vs) \<Longrightarrow> \<exists>t. (t, p) \<in> set ps \<and> seg_matches t segs = Some vs"
proof (induction ps segs arbitrary: vs rule: matchPath.induct)
  case (1 ps)
  then show ?case using leaf_mem [of "[]" ps p vs] by force
next
  case (2 ps s rest)
  show ?case
  proof (cases "matchPath (lit_children s ps) rest")
    case (Some r)
    then have "matchPath (lit_children s ps) rest = Some (p, vs)" using 2(3) by simp
    from 2(1) [OF this] obtain t where "(PLit s # t, p) \<in> set ps" "seg_matches t rest = Some vs"
      by (auto simp: lit_children_mem)
    then show ?thesis by (intro exI [of _ "PLit s # t"]) simp
  next
    case None
    note lit = this
    show ?thesis
    proof (cases "if s = ''/'' then None else matchPath (wild_children ps) rest")
      case (Some r)
      then have s: "s \<noteq> ''/''" by (simp split: if_splits)
      then obtain ws where ws: "matchPath (wild_children ps) rest = Some (p, ws)" "vs = s # ws"
        using Some 2(3) lit by (cases r) auto
      from 2(2) [OF lit s ws(1)] obtain t n where "(PWild n # t, p) \<in> set ps" "seg_matches t rest = Some ws"
        by (auto simp: wild_children_mem)
      then show ?thesis using s ws(2) by (intro exI [of _ "PWild n # t"]) simp
    next
      case None
      then have "leaf [PMulti] ps = Some (p, vs)" using 2(3) lit by (simp split: if_splits)
      then show ?thesis using leaf_mem [of "[PMulti]" ps p vs] by (intro exI [of _ "[PMulti]"]) simp
    qed
  qed
qed

lemma matchPath_complete:
  "(t, p) \<in> set ps \<Longrightarrow> seg_matches t segs = Some vs \<Longrightarrow> matchPath ps segs \<noteq> None"
proof (induction t segs arbitrary: ps vs rule: seg_matches.induct)
  case 1
  then have "leaf [] ps \<noteq> None" using leaf_None [of "[]" ps p] by blast
  then show ?case by simp
next
  case (2 s rest)
  then have "leaf [PMulti] ps \<noteq> None" using leaf_None [of "[PMulti]" ps p] by blast
  then show ?case by (auto split: option.splits)
next
  case (3 l t s rest)
  then have "(t, p) \<in> set (lit_children s ps)" "seg_matches t rest = Some vs"
    by (auto simp: lit_children_mem split: if_splits)
  then have "matchPath (lit_children s ps) rest \<noteq> None" using 3(1,3) by (metis option.distinct(1) seg_matches.simps(3))
  then show ?case by (auto split: option.splits)
next
  case (4 n t s rest)
  then obtain ws where s: "s \<noteq> ''/''" and ws: "seg_matches t rest = Some ws" by (auto split: if_splits)
  have "(t, p) \<in> set (wild_children ps)" using 4(2) by (auto simp: wild_children_mem)
  then have "matchPath (wild_children ps) rest \<noteq> None" using 4(1) [OF s _ ws] by blast
  then show ?case using s by (auto split: option.splits)
qed simp_all

text \<open>Where one pattern alone matches, the search ends there with the values of its wildcards.\<close>

lemma matchPath_unique:
  assumes "(t, p) \<in> set ps" "seg_matches t segs = Some vs"
    and "\<And>t' p'. (t', p') \<in> set ps \<Longrightarrow> seg_matches t' segs \<noteq> None \<Longrightarrow> t' = t \<and> p' = p"
  shows "matchPath ps segs = Some (p, vs)"
proof -
  obtain p' vs' where m: "matchPath ps segs = Some (p', vs')" using matchPath_complete [OF assms(1,2)] by fastforce
  obtain t' where "(t', p') \<in> set ps" "seg_matches t' segs = Some vs'" using matchPath_sound [OF m] by blast
  then show ?thesis using m assms(2,3) by fastforce
qed

lemma matchMethodAndPath_sound:
  assumes "matchMethodAndPath rs m segs = Some (r, vs)"
  shows "r \<in> set rs" "rt_method r \<in> {m, []} \<or> m = ''HEAD'' \<and> rt_method r = ''GET''" "seg_matches (rt_segs r) segs = Some vs"
proof -
  have s: "r \<in> set rs \<and> rt_method r = n \<and> seg_matches (rt_segs r) segs = Some vs"
    if "matchPath (of_method n rs) segs = Some (r, vs)" for n
    using matchPath_sound [OF that] by (auto simp: of_method_def)
  show "r \<in> set rs" "rt_method r \<in> {m, []} \<or> m = ''HEAD'' \<and> rt_method r = ''GET''" "seg_matches (rt_segs r) segs = Some vs"
    using assms s unfolding matchMethodAndPath_def by (auto split: option.splits if_splits)
qed

text \<open>A handler that runs is registered, for the method of the request and a pattern that matches its path.\<close>

lemma mux_serve_sound:
  assumes "mux_serve rs q = Inr (h, pv)"
  obtains r vs where "r \<in> set rs" "h = rt_handler r" "pv = PathValue (r, vs)"
    "rt_method r \<in> {rq_Method q, []} \<or> rq_Method q = ''HEAD'' \<and> rt_method r = ''GET''"
    "seg_matches (rt_segs r) (path_segments (rq_EscapedPath q)) = Some vs"
proof -
  obtain r vs where x: "findHandler rs q = Inr (r, vs)" and h: "h = rt_handler r" "pv = PathValue (r, vs)"
    using assms by (auto simp: mux_serve_def split: if_splits sum.splits)
  from x have "matchMethodAndPath rs (rq_Method q) (path_segments (rq_EscapedPath q)) = Some (r, vs)"
    by (auto simp: findHandler_def matchOrRedirect_def Let_def split: if_splits option.splits)
  from matchMethodAndPath_sound [OF this] h show thesis by (intro that [of r vs])
qed

section \<open>Plain paths\<close>

text \<open>Segments that need neither escaping nor cleaning.\<close>

definition plain_seg :: "string \<Rightarrow> bool" where
  "plain_seg s \<longleftrightarrow> s \<noteq> [] \<and> s \<noteq> ''.'' \<and> s \<noteq> ''..'' \<and> CHR ''/'' \<notin> set s \<and> CHR ''%'' \<notin> set s"

definition plain_path :: "string list \<Rightarrow> string" where
  "plain_path segs = concat (map (\<lambda>s. CHR ''/'' # s) segs)"

lemma plain_path_Cons [simp]: "plain_path (s # segs) = CHR ''/'' # s @ plain_path segs"
  by (simp add: plain_path_def)

lemma plain_path_Nil [simp]: "plain_path [] = []"
  by (simp add: plain_path_def)

lemma pct_decode_plain: "CHR ''%'' \<notin> set s \<Longrightarrow> pct_decode s = Some s"
  by (induction s) auto

lemma plain_rest: "rest = [] \<or> hd rest = CHR ''/'' \<Longrightarrow> CHR ''/'' \<notin> set s \<Longrightarrow>
   takeWhile (\<lambda>c. c \<noteq> CHR ''/'') (s @ rest) = s \<and> dropWhile (\<lambda>c. c \<noteq> CHR ''/'') (s @ rest) = rest"
  by (induction s) (cases rest; auto)+

lemma firstSegment_plain:
  assumes "plain_seg s" "rest = [] \<or> hd rest = CHR ''/''"
  shows "firstSegment (CHR ''/'' # s @ rest) = (s, rest)"
  using assms plain_rest [of rest s]
  by (auto simp: firstSegment_def plain_seg_def pathUnescape_def pct_decode_plain)

lemma path_segments_plain:
  assumes "list_all plain_seg segs"
  shows "path_segments (plain_path segs) = segs" "path_segments (plain_path segs @ ''/'') = segs @ [''/'']"
proof -
  have hd: "rest = [] \<or> hd rest = CHR ''/''" if "rest = plain_path ss @ t" "t = [] \<or> t = ''/''" for rest ss t
    using that by (cases ss) auto
  show "path_segments (plain_path segs) = segs"
    using assms
  proof (induction segs)
    case (Cons s segs)
    then have "firstSegment (CHR ''/'' # s @ plain_path segs) = (s, plain_path segs)"
      by (intro firstSegment_plain) (use hd [of "plain_path segs" segs "[]"] in auto)
    then show ?case using Cons by (subst path_segments.simps) simp
  qed simp
  show "path_segments (plain_path segs @ ''/'') = segs @ [''/'']"
    using assms
  proof (induction segs)
    case Nil
    show ?case by (simp add: path_segments.simps firstSegment_def)
  next
    case (Cons s segs)
    then have "firstSegment (CHR ''/'' # s @ (plain_path segs @ ''/'')) = (s, plain_path segs @ ''/'')"
      by (intro firstSegment_plain) (use hd [of "plain_path segs @ ''/''" segs "''/''"] in auto)
    then show ?case using Cons by (subst path_segments.simps) simp
  qed
qed

lemma split_plain: "segs \<noteq> [] \<Longrightarrow> list_all plain_seg segs \<Longrightarrow> split_on CHR ''/'' (plain_path segs) = [] # segs"
proof (induction segs)
  case (Cons s segs)
  then have s: "CHR ''/'' \<notin> set s" by (simp add: plain_seg_def)
  show ?case
  proof (cases segs)
    case Nil
    then show ?thesis using split_on_no_sep [OF s] by simp
  next
    case (Cons u us)
    have "split_on CHR ''/'' (CHR ''/'' # u @ plain_path us) = [] # segs" using Cons.IH Cons.prems Cons by simp
    then have "split_on CHR ''/'' (u @ plain_path us) = segs" by (simp split: list.splits)
    then show ?thesis using split_on_append [OF s, of "u @ plain_path us"] Cons by simp
  qed
qed simp

lemma clean_plain: "list_all plain_seg segs \<Longrightarrow> clean_elements True acc segs = rev segs @ acc"
  by (induction segs arbitrary: acc) (auto simp: plain_seg_def)

lemma join_plain: "segs \<noteq> [] \<Longrightarrow> CHR ''/'' # join_with CHR ''/'' segs = plain_path segs"
proof (induction segs)
  case (Cons s segs)
  then show ?case by (cases segs) auto
qed simp

lemma plain_last: "segs \<noteq> [] \<Longrightarrow> list_all plain_seg segs \<Longrightarrow> last (plain_path segs) \<noteq> CHR ''/''"
proof (induction segs)
  case (Cons s segs)
  then have "s \<noteq> []" "CHR ''/'' \<notin> set s" by (auto simp: plain_seg_def)
  moreover then have "last s \<noteq> CHR ''/''" using last_in_set [of s] by metis
  ultimately show ?case using Cons by (cases segs) auto
qed simp

lemma cleanPath_plain:
  assumes "segs \<noteq> []" "list_all plain_seg segs"
  shows "cleanPath (plain_path segs) = plain_path segs"
proof -
  obtain s ss where segs: "segs = s # ss" using assms(1) by (cases segs) auto
  have "has_prefix ''/'' (plain_path segs)" by (simp add: segs has_prefix_def)
  then have "filepath_Clean (plain_path segs) = CHR ''/'' # join_with CHR ''/'' segs"
    by (simp add: filepath_Clean_def Let_def split_plain [OF assms] clean_plain [OF assms(2)])
  then have "filepath_Clean (plain_path segs) = plain_path segs" by (simp only: join_plain [OF assms(1)])
  moreover have "last (plain_path segs) \<noteq> CHR ''/''" by (rule plain_last [OF assms])
  ultimately show ?thesis using segs by (simp add: cleanPath_def Let_def)
qed

text \<open>A request for a plain path of a pattern runs the handler of that pattern.\<close>

definition plain_request :: "http_request \<Rightarrow> string \<Rightarrow> string list \<Rightarrow> bool" where
  "plain_request q m segs \<longleftrightarrow>
     rq_Method q = m \<and> rq_EscapedPath q = plain_path segs \<and> rq_RequestURI q \<noteq> ''*'' \<and> segs \<noteq> [] \<and> list_all plain_seg segs"

lemma mux_hit:
  assumes "plain_request q m segs" "matchMethodAndPath rs m segs = Some (r, vs)" "last (rt_segs r) \<noteq> PMulti"
  shows "mux_serve rs q = Inr (rt_handler r, PathValue (r, vs))"
proof -
  have p: "rq_EscapedPath q = plain_path segs" "segs \<noteq> []" "list_all plain_seg segs" "rq_RequestURI q \<noteq> ''*''" "rq_Method q = m"
    using assms(1) by (auto simp: plain_request_def)
  have "matchOrRedirect rs m (plain_path segs) = Some (Some (r, vs))"
    using assms(2,3) by (simp add: matchOrRedirect_def path_segments_plain(1) [OF p(3)] exactMatch_def Let_def)
  then have "findHandler rs q = Inr (r, vs)"
    unfolding findHandler_def Let_def p(1,5) cleanPath_plain [OF p(2,3)] if_cancel by simp
  then show ?thesis using p(4) by (simp add: mux_serve_def)
qed

lemma mux_hit_subtree:
  assumes "plain_request q m segs" "matchMethodAndPath rs m segs = Some (r, vs)"
    and "\<not> exactMatch (matchMethodAndPath rs m (segs @ [''/''])) (plain_path segs @ ''/'')"
  shows "mux_serve rs q = Inr (rt_handler r, PathValue (r, vs))"
proof -
  have p: "rq_EscapedPath q = plain_path segs" "segs \<noteq> []" "list_all plain_seg segs" "rq_RequestURI q \<noteq> ''*''" "rq_Method q = m"
    using assms(1) by (auto simp: plain_request_def)
  have "matchOrRedirect rs m (plain_path segs) = Some (Some (r, vs))"
    using assms(2,3) by (simp add: matchOrRedirect_def path_segments_plain [OF p(3)] Let_def)
  then have "findHandler rs q = Inr (r, vs)"
    unfolding findHandler_def Let_def p(1,5) cleanPath_plain [OF p(2,3)] if_cancel by simp
  then show ?thesis using p(4) by (simp add: mux_serve_def)
qed

end
