(* ===== verification/UploadServer.thy ===== *)
theory UploadServer
  imports UploadStore UploadBlob UploadAuth Boundary ServeMux
begin

text \<open>
  The handlers of the upload service, \<open>services/upload/server.go\<close>, with the publisher of
  \<open>services/upload/publisher.go\<close>. A handler takes the identity the middleware found, the parts of
  the request it reads and the state; it returns the response and the new state. \<open>sha\<close> is the
  lower case hexadecimal SHA-256 of a byte string, \<open>uuid_parse\<close> the canonical form of an accepted
  identifier. Requests are handled one after the other here; what concurrent requests do to the
  gauge is in \<open>UploadGauge\<close>.
\<close>

section \<open>Requests and responses\<close>

record createRequest =
  cq_Filename :: string
  cq_SizeBytes :: int
  cq_Mime :: string

datatype up_body =
  UErr string string
| UCreated string int int
| UStatus Session int "(int \<times> ChunkState) list"
| UChunk int bool
| USaturated int int
| UMissing "int list"
| UComplete Session
| UNoContent
| UOk
| UMux mux_reply

type_synonym up_resp = "int \<times> up_body"

abbreviation uerr :: "int \<Rightarrow> string \<Rightarrow> string \<Rightarrow> up_resp" where
  "uerr status code msg \<equiv> (status, UErr code msg)"

record 'b Server =
  sv_blobs :: "'b BlobStore"
  sv_quota :: "string \<Rightarrow> int \<Rightarrow> ('b upl, QuotaDecision) op"
  sv_maxObjectBytes :: int
  sv_publishRetries :: nat
  sv_chunkSize :: int

definition NewServer :: "'b BlobStore \<Rightarrow> (string \<Rightarrow> int \<Rightarrow> ('b upl, QuotaDecision) op) \<Rightarrow> int \<Rightarrow> 'b Server" where
  "NewServer blobs quota maxObject =
     \<lparr>sv_blobs = blobs, sv_quota = quota, sv_maxObjectBytes = maxObject, sv_publishRetries = 3,
      sv_chunkSize = ChunkSizeBytes\<rparr>"

text \<open>A storage call within a handler.\<close>

definition s3op :: "('b, 'a) s3_op \<Rightarrow> 'b upl \<Rightarrow> (s3_err + 'a) \<times> 'b upl" where
  "s3op f w = (case f (u_s3 w) of (r, b) \<Rightarrow> (r, w\<lparr>u_s3 := b\<rparr>))"

section \<open>Publishing\<close>

definition JetStream_Publish :: "string \<Rightarrow> upl_event \<Rightarrow> ('b upl, unit) op" where
  "JetStream_Publish subject ev = with_io (\<lambda>w. (Inr (), w\<lparr>u_events := u_events w @ [(subject, ev)]\<rparr>))"

text \<open>
  The wait between two attempts ends early when the request's context is done: one more entry of
  the failure script.
\<close>

definition pause :: "('b upl, unit) op" where
  "pause = with_io (\<lambda>w. (Inr (), w))"

fun publish_loop :: "nat \<Rightarrow> store_err + unit \<Rightarrow> string \<Rightarrow> upl_event \<Rightarrow> ('b upl, unit) op" where
  "publish_loop 0 res subject ev = ret res"
| "publish_loop (Suc k) res subject ev =
     and_then (JetStream_Publish subject ev) (\<lambda>r. case r of
       Inr _ \<Rightarrow> ret (Inr ())
     | Inl e \<Rightarrow>
         and_then pause (\<lambda>p. case p of
           Inl d \<Rightarrow> ret (Inl d)
         | Inr _ \<Rightarrow> publish_loop k (Inl e) subject ev))"

definition publishJSON :: "'b Server \<Rightarrow> string \<Rightarrow> upl_event \<Rightarrow> ('b upl, unit) op" where
  "publishJSON sv subject ev = publish_loop (sv_publishRetries sv) (Inr ()) subject ev"

definition publishMetering ::
  "'b Server \<Rightarrow> UpIdentity \<Rightarrow> MeteringKind \<Rightarrow> int option \<Rightarrow> string \<Rightarrow> ('b upl, unit) op" where
  "publishMetering sv i kind bytes job =
     and_then new_id (\<lambda>r. case r of
       Inl e \<Rightarrow> ret (Inl e)
     | Inr eventID \<Rightarrow> (\<lambda>w.
         publishJSON sv SubjectMetering (EvMetering
           \<lparr>me_EventID = eventID, me_WorkspaceID = ui_WorkspaceID i, me_UserID = ui_UserID i, me_Kind = kind,
            me_Bytes = bytes, me_EncodeSeconds = None, me_JobID = job, me_At = clock w\<rparr>) w))"

section \<open>Creating a session\<close>

definition mime_class :: "char \<Rightarrow> bool" where
  "mime_class c \<longleftrightarrow> is_alnum c \<or> c \<in> set ''!#$&^_.+-''"

text \<open>The class of both halves excludes the slash, so the match splits at the first one.\<close>

definition mimePattern :: "string \<Rightarrow> bool" where
  "mimePattern s =
     (case cut CHR ''/'' s of
        None \<Rightarrow> False
      | Some (a, b) \<Rightarrow> match_class mime_class 1 127 a \<and> match_class mime_class 1 127 b)"

definition validateCreate :: "createRequest \<Rightarrow> int \<Rightarrow> string option" where
  "validateCreate req maxObject =
     (if cq_Filename req = [] \<or> length (cq_Filename req) > 512 then Some ''filename must be 1..512 characters''
      else if list_ex (\<lambda>c. c = CHR ''/'' \<or> (of_char c :: nat) < 32) (cq_Filename req)
      then Some ''filename must not contain path separators or control characters''
      else if cq_SizeBytes req \<le> 0 then Some ''sizeBytes must be positive''
      else if cq_SizeBytes req > maxObject then Some (''sizeBytes exceeds service maximum '' @ show_int maxObject)
      else if \<not> mimePattern (cq_Mime req) then Some ''mime must be a type/subtype token''
      else None)"

definition decodeCreate :: "createRequest json_in \<Rightarrow> string + createRequest" where
  "decodeCreate body =
     (case body of
        JsonValue req rest \<Rightarrow> if dec_More rest then Inl ''trailing data after JSON object'' else Inr req
      | _ \<Rightarrow> Inl ''body must be a JSON object with filename, sizeBytes, mime'')"

definition chunk_count :: "int \<Rightarrow> int \<Rightarrow> int" where
  "chunk_count sz chunk = go_div (sub64 (add64 sz chunk) 1) chunk"

definition staging_key :: "string \<Rightarrow> string" where
  "staging_key i = ''staging/'' @ i"

definition new_session :: "UpIdentity \<Rightarrow> createRequest \<Rightarrow> int \<Rightarrow> string \<Rightarrow> string \<Rightarrow> Session" where
  "new_session i req chunk sid s3id =
     \<lparr>ss_ID = sid, ss_WorkspaceID = ui_WorkspaceID i, ss_UserID = ui_UserID i, ss_Filename = cq_Filename req,
      ss_SizeBytes = cq_SizeBytes req, ss_Mime = cq_Mime req, ss_ChunkSizeBytes = chunk,
      ss_ChunkCount = chunk_count (cq_SizeBytes req) chunk, ss_State = SessionActive, ss_S3UploadID = s3id,
      ss_StagingKey = staging_key sid, ss_SHA256 = [], ss_ObjectKey = []\<rparr>"

text \<open>The session is cancelled before its multipart upload is touched.\<close>

definition rollback :: "'b Server \<Rightarrow> string \<Rightarrow> string \<Rightarrow> 'b upl \<Rightarrow> unit \<times> 'b upl" where
  "rollback sv sid s3id =
     and_then (SetSessionState sid SessionCancelled) (\<lambda>r. case r of
       Inl _ \<Rightarrow> ret ()
     | Inr _ \<Rightarrow> and_then (s3op (AbortMultipart (sv_blobs sv) (staging_key sid) s3id)) (\<lambda>_. ret ()))"

definition open_session ::
  "'b Server \<Rightarrow> UpIdentity \<Rightarrow> createRequest \<Rightarrow> string \<Rightarrow> string \<Rightarrow> 'b upl \<Rightarrow> up_resp \<times> 'b upl" where
  "open_session sv i req sid s3id =
     (let sess = new_session i req (sv_chunkSize sv) sid s3id in
      and_then (CreateSession sess) (\<lambda>r. case r of
        Inl _ \<Rightarrow>
          and_then (s3op (AbortMultipart (sv_blobs sv) (staging_key sid) s3id))
            (\<lambda>_. ret (uerr 500 ''store_error'' ''could not persist session''))
      | Inr _ \<Rightarrow>
          and_then (publishMetering sv i MeteringUploadSessionCreated (Some (cq_SizeBytes req)) []) (\<lambda>r. case r of
            Inl _ \<Rightarrow> and_then (rollback sv sid s3id)
              (\<lambda>_. ret (uerr 503 ''event_publish_failed'' ''could not emit metering event; retry''))
          | Inr _ \<Rightarrow> ret (201, UCreated sid (sv_chunkSize sv) (ss_ChunkCount sess)))))"

definition handleCreate ::
  "'b Server \<Rightarrow> UpIdentity option \<Rightarrow> createRequest json_in \<Rightarrow> 'b upl \<Rightarrow> up_resp \<times> 'b upl" where
  "handleCreate sv ident body =
     (case ident of
        None \<Rightarrow> ret (uerr 401 ''unauthorized'' ''no identity'')
      | Some i \<Rightarrow>
     (case decodeCreate body of
        Inl msg \<Rightarrow> ret (uerr 400 ''invalid_body'' msg)
      | Inr req \<Rightarrow>
     (case validateCreate req (sv_maxObjectBytes sv) of
        Some msg \<Rightarrow> ret (uerr 400 ''invalid_body'' msg)
      | None \<Rightarrow>
          and_then (sv_quota sv (ui_WorkspaceID i) (cq_SizeBytes req)) (\<lambda>r. case r of
            Inl _ \<Rightarrow> ret (uerr 500 ''quota_error'' ''quota check failed'')
          | Inr d \<Rightarrow>
              if \<not> qd_Allowed d then ret (uerr 403 ''quota_denied'' (qd_Reason d))
              else and_then new_id (\<lambda>r. case r of
                Inl _ \<Rightarrow> ret (uerr 500 ''internal'' ''id generation failed'')
              | Inr sid \<Rightarrow>
                  and_then (s3op (CreateMultipart (sv_blobs sv) (staging_key sid) (cq_Mime req))) (\<lambda>r. case r of
                    Inl _ \<Rightarrow> ret (uerr 502 ''storage_error'' ''object storage unavailable'')
                  | Inr s3id \<Rightarrow> open_session sv i req sid s3id))))))"

section \<open>Reading a session\<close>

text \<open>A session of another workspace reads as missing.\<close>

definition loadOwnedSession ::
  "(string \<Rightarrow> string option) \<Rightarrow> UpIdentity option \<Rightarrow> string \<Rightarrow> (UpIdentity \<Rightarrow> Session \<Rightarrow> 'b upl \<Rightarrow> up_resp \<times> 'b upl) \<Rightarrow>
   'b upl \<Rightarrow> up_resp \<times> 'b upl" where
  "loadOwnedSession uuid_parse ident path k =
     (case ident of
        None \<Rightarrow> ret (uerr 401 ''unauthorized'' ''no identity'')
      | Some i \<Rightarrow>
     (case uuid_parse path of
        None \<Rightarrow> ret (uerr 400 ''invalid_id'' ''upload id must be a UUID'')
      | Some sid \<Rightarrow>
          and_then (GetSession sid) (\<lambda>r. case r of
            Inl ErrNotFound \<Rightarrow> ret (uerr 404 ''not_found'' ''no such upload'')
          | Inl _ \<Rightarrow> ret (uerr 500 ''store_error'' ''could not load session'')
          | Inr s \<Rightarrow>
              if ss_WorkspaceID s \<noteq> ui_WorkspaceID i then ret (uerr 404 ''not_found'' ''no such upload'')
              else k i s)))"

definition handleGet ::
  "(string \<Rightarrow> string option) \<Rightarrow> UpIdentity option \<Rightarrow> string \<Rightarrow> 'b upl \<Rightarrow> up_resp \<times> 'b upl" where
  "handleGet uuid_parse ident path =
     loadOwnedSession uuid_parse ident path (\<lambda>i s.
       and_then (GetChunks (ss_ID s)) (\<lambda>r. case r of
         Inl _ \<Rightarrow> ret (uerr 500 ''store_error'' ''could not load chunk map'')
       | Inr cs \<Rightarrow>
           ret (200, UStatus s (int (length (filter (\<lambda>c. ck_State c = ChunkDone) cs)))
                  (map (\<lambda>c. (ck_Index c, ck_State c)) cs))))"

section \<open>Uploading a chunk\<close>

definition wrap32 :: "int \<Rightarrow> int" where
  "wrap32 x = (x + 2 ^ 31) mod 2 ^ 32 - 2 ^ 31"

definition expected_size :: "Session \<Rightarrow> int \<Rightarrow> int" where
  "expected_size s n =
     (if n = ss_ChunkCount s - 1
      then sub64 (ss_SizeBytes s) (mul64 (ss_ChunkSizeBytes s) (ss_ChunkCount s - 1))
      else ss_ChunkSizeBytes s)"

text \<open>
  \<open>io.ReadAll\<close> of a body limited to \<open>n\<close> bytes: \<open>bytes\<close> is what the client sends, \<open>broken\<close>
  whether the connection fails after them.
\<close>

definition read_limited :: "nat \<Rightarrow> string \<Rightarrow> bool \<Rightarrow> string option" where
  "read_limited n bytes broken =
     (if n \<le> length bytes then Some (take n bytes) else if broken then None else Some bytes)"

record chunkRequest =
  kq_Index :: string
  kq_ContentLength :: int
  kq_Sha :: string
  kq_Bytes :: string
  kq_Broken :: bool

definition ceil_seconds :: "int \<Rightarrow> int" where
  "ceil_seconds d = - ((- d) div 1000000000)"

definition acquire :: "int \<Rightarrow> 'b upl \<Rightarrow> bool \<times> 'b upl" where
  "acquire n w = (case TryAcquire n (u_gauge w) of (ok, g) \<Rightarrow> (ok, w\<lparr>u_gauge := g\<rparr>))"

definition release_bytes :: "int \<Rightarrow> 'b upl \<Rightarrow> unit \<times> 'b upl" where
  "release_bytes n w = ((), w\<lparr>u_gauge := Release n (u_gauge w)\<rparr>)"

definition deny_session :: "string \<Rightarrow> 'b upl \<Rightarrow> int \<times> 'b upl" where
  "deny_session i w = (case Deny i (u_backoff w) of (d, b) \<Rightarrow> (d, w\<lparr>u_backoff := b\<rparr>))"

definition reset_session :: "string \<Rightarrow> 'b upl \<Rightarrow> unit \<times> 'b upl" where
  "reset_session i w = ((), w\<lparr>u_backoff := Reset i (u_backoff w)\<rparr>)"

definition retry_chunk :: "string \<Rightarrow> int \<Rightarrow> up_resp \<Rightarrow> 'b upl \<Rightarrow> up_resp \<times> 'b upl" where
  "retry_chunk i n resp = and_then (MarkChunkRetry i n) (\<lambda>_. ret resp)"

text \<open>The part of the handler that runs while the bytes of the body are admitted.\<close>

definition store_chunk ::
  "'b Server \<Rightarrow> (string \<Rightarrow> string) \<Rightarrow> Session \<Rightarrow> int \<Rightarrow> string \<Rightarrow> int \<Rightarrow> chunkRequest \<Rightarrow> 'b upl \<Rightarrow> up_resp \<times> 'b upl" where
  "store_chunk sv sha s n wantSHA expected q =
     and_then (ClaimChunk (ss_ID s) n) (\<lambda>r. case r of
       Inl _ \<Rightarrow> ret (uerr 500 ''store_error'' ''could not claim chunk'')
     | Inr ClaimAlreadyDone \<Rightarrow> ret (200, UChunk n True)
     | Inr ClaimAcquired \<Rightarrow>
         (let body = read_limited (nat (expected + 1)) (kq_Bytes q) (kq_Broken q) in
          if body = None \<or> int (length (the body)) \<noteq> expected
          then retry_chunk (ss_ID s) n (uerr 400 ''chunk_body_truncated''
                 (''chunk '' @ show_int n @ '' body did not match Content-Length''))
          else if sha (the body) \<noteq> wantSHA
          then retry_chunk (ss_ID s) n (uerr 422 ''chunk_checksum_mismatch''
                 (''chunk '' @ show_int n @ '' sha256 does not match X-Chunk-Sha256''))
          else and_then (s3op (UploadPart (sv_blobs sv) (ss_StagingKey s) (ss_S3UploadID s) (wrap32 (n + 1)) (the body)))
            (\<lambda>r. case r of
               Inl _ \<Rightarrow> retry_chunk (ss_ID s) n (uerr 502 ''storage_error'' ''object storage write failed'')
             | Inr etag \<Rightarrow>
                 and_then (MarkChunkDone (ss_ID s) n (sha (the body)) etag expected) (\<lambda>r. case r of
                   Inl _ \<Rightarrow> ret (uerr 500 ''store_error'' ''could not record chunk'')
                 | Inr _ \<Rightarrow> and_then (reset_session (ss_ID s)) (\<lambda>_. ret (200, UChunk n False))))))"

definition handlePutChunk ::
  "'b Server \<Rightarrow> (string \<Rightarrow> string) \<Rightarrow> (string \<Rightarrow> string option) \<Rightarrow> UpIdentity option \<Rightarrow> string \<Rightarrow> chunkRequest \<Rightarrow>
   'b upl \<Rightarrow> up_resp \<times> 'b upl" where
  "handlePutChunk sv sha uuid_parse ident path q =
     loadOwnedSession uuid_parse ident path (\<lambda>i s.
       let bad_index = ret (uerr 400 ''invalid_chunk_index''
             (''chunk index must be an integer in [0,'' @ show_int (ss_ChunkCount s) @ '')'')) in
       case ParseInt (kq_Index q) of
         None \<Rightarrow> bad_index
       | Some n \<Rightarrow>
           if n < 0 \<or> n \<ge> ss_ChunkCount s then bad_index
           else if ss_State s \<noteq> SessionActive then ret (uerr 409 ''session_not_active'' (''session is '' @ string_of_session_state (ss_State s)))
           else
             (let expected = expected_size s n; wantSHA = to_lower (kq_Sha q) in
              if kq_ContentLength q < 0 then ret (uerr 411 ''length_required'' ''Content-Length is required'')
              else if kq_ContentLength q \<noteq> expected
              then ret (uerr 400 ''chunk_size_mismatch''
                     (''chunk '' @ show_int n @ '' must be exactly '' @ show_int expected @ '' bytes''))
              else if \<not> hex64 wantSHA
              then ret (uerr 400 ''invalid_checksum_header'' ''X-Chunk-Sha256 must be 64 lowercase hex characters'')
              else and_then (acquire expected) (\<lambda>ok.
                if \<not> ok
                then and_then (deny_session (ss_ID s)) (\<lambda>d. ret (429, USaturated (ceil_seconds d) (d div 1000000)))
                else and_then (store_chunk sv sha s n wantSHA expected q)
                       (\<lambda>resp. and_then (release_bytes expected) (\<lambda>_. ret resp)))))"

section \<open>Completing a session\<close>

definition asset_path :: "string \<Rightarrow> string \<Rightarrow> string" where
  "asset_path ws digest = ''assets/'' @ ws @ ''/sha256/'' @ digest"

definition hash_staging ::
  "'b Server \<Rightarrow> Session \<Rightarrow> (string \<Rightarrow> 'b upl \<Rightarrow> Session option \<times> 'b upl) \<Rightarrow> 'b upl \<Rightarrow> Session option \<times> 'b upl" where
  "hash_staging sv s k =
     and_then (s3op (GetObject (sv_blobs sv) (ss_StagingKey s))) (\<lambda>r. case r of
       Inl _ \<Rightarrow> ret None
     | Inr None \<Rightarrow> ret None
     | Inr (Some content) \<Rightarrow>
         if int (length content) \<noteq> ss_SizeBytes s then ret None else k content)"

definition land ::
  "'b Server \<Rightarrow> (string \<Rightarrow> string) \<Rightarrow> Session \<Rightarrow> string \<Rightarrow> 'b upl \<Rightarrow> Session option \<times> 'b upl" where
  "land sv sha s content =
     (let digest = sha content; key = asset_path (ss_WorkspaceID s) digest in
      and_then (s3op (CopyBlob (sv_blobs sv) (ss_StagingKey s) key (ss_SizeBytes s))) (\<lambda>r. case r of
        Inl _ \<Rightarrow> ret None
      | Inr _ \<Rightarrow>
          and_then (s3op (DeleteBlob (sv_blobs sv) (ss_StagingKey s))) (\<lambda>_.
            and_then (SetSessionAssembled (ss_ID s) digest key) (\<lambda>r. case r of
              Inl _ \<Rightarrow> ret None
            | Inr _ \<Rightarrow> ret (Some (s\<lparr>ss_State := SessionAssembled, ss_SHA256 := digest, ss_ObjectKey := key\<rparr>))))))"

text \<open>\<open>None\<close> is an error; otherwise the session as the handler sees it afterwards.\<close>

definition assemble ::
  "'b Server \<Rightarrow> (string \<Rightarrow> string) \<Rightarrow> Session \<Rightarrow> CompletedPart list \<Rightarrow> 'b upl \<Rightarrow> Session option \<times> 'b upl" where
  "assemble sv sha s parts =
     and_then (s3op (CompleteMultipart (sv_blobs sv) (ss_StagingKey s) (ss_S3UploadID s) parts)) (\<lambda>r. case r of
       Inr _ \<Rightarrow> hash_staging sv s (land sv sha s)
     | Inl _ \<Rightarrow>
         and_then (s3op (HeadObject (sv_blobs sv) (ss_StagingKey s))) (\<lambda>r. case r of
           Inl _ \<Rightarrow> ret None
         | Inr (sz, there) \<Rightarrow>
             if \<not> there \<or> sz \<noteq> ss_SizeBytes s then ret None else hash_staging sv s (land sv sha s)))"

definition landed_event :: "Session \<Rightarrow> int \<Rightarrow> LandedObjectEvent" where
  "landed_event s now =
     \<lparr>le_UploadID = ss_ID s, le_WorkspaceID = ss_WorkspaceID s, le_UserID = ss_UserID s, le_ObjectKey = ss_ObjectKey s,
      le_SHA256 = ss_SHA256 s, le_SizeBytes = ss_SizeBytes s, le_Mime = ss_Mime s, le_LandedAt = now\<rparr>"

definition announce_landed :: "'b Server \<Rightarrow> Session \<Rightarrow> 'b upl \<Rightarrow> up_resp \<times> 'b upl" where
  "announce_landed sv s =
     and_then (\<lambda>w. publishJSON sv SubjectUploadLanded (EvLanded (landed_event s (clock w))) w) (\<lambda>r. case r of
       Inl _ \<Rightarrow> ret (uerr 503 ''event_publish_failed'' ''could not emit landed event; retry complete'')
     | Inr _ \<Rightarrow>
         and_then (publishMetering sv \<lparr>ui_WorkspaceID = ss_WorkspaceID s, ui_UserID = ss_UserID s\<rparr>
             MeteringUploadCompleted (Some (ss_SizeBytes s)) []) (\<lambda>r. case r of
           Inl _ \<Rightarrow> ret (uerr 503 ''event_publish_failed'' ''could not emit metering event; retry complete'')
         | Inr _ \<Rightarrow>
             and_then (SetSessionState (ss_ID s) SessionCompleted) (\<lambda>r. case r of
               Inl _ \<Rightarrow> ret (uerr 500 ''store_error'' ''could not finalize session'')
             | Inr _ \<Rightarrow> ret (200, UComplete (s\<lparr>ss_State := SessionCompleted\<rparr>)))))"

definition part_of :: "Chunk \<Rightarrow> CompletedPart" where
  "part_of c = \<lparr>cp_PartNumber = wrap32 (ck_Index c + 1), cp_ETag = ck_ETag c\<rparr>"

definition handleComplete ::
  "'b Server \<Rightarrow> (string \<Rightarrow> string) \<Rightarrow> (string \<Rightarrow> string option) \<Rightarrow> UpIdentity option \<Rightarrow> string \<Rightarrow>
   'b upl \<Rightarrow> up_resp \<times> 'b upl" where
  "handleComplete sv sha uuid_parse ident path =
     loadOwnedSession uuid_parse ident path (\<lambda>i s.
       if ss_State s = SessionCancelled then ret (uerr 409 ''session_cancelled'' ''session was cancelled'')
       else if ss_State s = SessionCompleted then ret (200, UComplete s)
       else and_then (GetChunks (ss_ID s)) (\<lambda>r. case r of
         Inl _ \<Rightarrow> ret (uerr 500 ''store_error'' ''could not load chunk map'')
       | Inr cs \<Rightarrow>
           (let todo = take 100 (map ck_Index (filter (\<lambda>c. ck_State c \<noteq> ChunkDone) cs));
                parts = map part_of (filter (\<lambda>c. ck_State c = ChunkDone) cs) in
            if todo \<noteq> [] \<or> int (length parts) \<noteq> ss_ChunkCount s then ret (409, UMissing todo)
            else if ss_State s = SessionActive
            then and_then (assemble sv sha s parts) (\<lambda>r. case r of
                   None \<Rightarrow> ret (uerr 502 ''assembly_failed'' ''object assembly failed; retry complete'')
                 | Some s' \<Rightarrow> announce_landed sv s')
            else announce_landed sv s)))"

section \<open>Cancelling a session\<close>

definition record_cancel :: "Session \<Rightarrow> 'b upl \<Rightarrow> up_resp \<times> 'b upl" where
  "record_cancel s =
     and_then (SetSessionState (ss_ID s) SessionCancelled) (\<lambda>r. case r of
       Inl _ \<Rightarrow> ret (uerr 500 ''store_error'' ''could not record cancellation'')
     | Inr _ \<Rightarrow> ret (204, UNoContent))"

definition handleCancel ::
  "'b Server \<Rightarrow> (string \<Rightarrow> string option) \<Rightarrow> UpIdentity option \<Rightarrow> string \<Rightarrow> 'b upl \<Rightarrow> up_resp \<times> 'b upl" where
  "handleCancel sv uuid_parse ident path =
     loadOwnedSession uuid_parse ident path (\<lambda>i s.
       if ss_State s = SessionCompleted
       then ret (uerr 409 ''session_completed'' ''completed sessions cannot be cancelled'')
       else if ss_State s = SessionCancelled
       then and_then (s3op (AbortMultipart (sv_blobs sv) (ss_StagingKey s) (ss_S3UploadID s)))
              (\<lambda>_. ret (204, UNoContent))
       else and_then (s3op (AbortMultipart (sv_blobs sv) (ss_StagingKey s) (ss_S3UploadID s))) (\<lambda>r. case r of
         Inl _ \<Rightarrow> ret (uerr 502 ''storage_error'' ''could not garbage collect parts; retry cancel'')
       | Inr _ \<Rightarrow>
           and_then (s3op (HeadObject (sv_blobs sv) (ss_StagingKey s))) (\<lambda>r. case r of
             Inr (_, True) \<Rightarrow>
               and_then (s3op (DeleteBlob (sv_blobs sv) (ss_StagingKey s))) (\<lambda>r. case r of
                 Inl _ \<Rightarrow> ret (uerr 502 ''storage_error'' ''could not garbage collect staging object; retry cancel'')
               | Inr _ \<Rightarrow> record_cancel s)
           | _ \<Rightarrow> record_cancel s)))"

end
