(* ===== verification/Triples.thy ===== *)
theory Triples
  imports Prelude
begin

text \<open>
  Triples for state-passing programs: \<open>valid P f Q\<close> says that \<open>f\<close>, started in a state with \<open>P\<close>,
  ends with a value and a state related by \<open>Q\<close>. The rules follow the way handlers are written:
  sequencing, branching, a storage call that may fail with or without effect.
\<close>

named_theorems valid_rules \<open>structural rules of triples\<close>

definition valid :: "('s \<Rightarrow> bool) \<Rightarrow> ('s \<Rightarrow> 'a \<times> 's) \<Rightarrow> ('a \<Rightarrow> 's \<Rightarrow> bool) \<Rightarrow> bool" where
  "valid P f Q \<longleftrightarrow> (\<forall>w. P w \<longrightarrow> Q (fst (f w)) (snd (f w)))"

lemma validI: "(\<And>w r w'. P w \<Longrightarrow> f w = (r, w') \<Longrightarrow> Q r w') \<Longrightarrow> valid P f Q"
  by (simp add: valid_def)

lemma validD: "valid P f Q \<Longrightarrow> P w \<Longrightarrow> f w = (r, w') \<Longrightarrow> Q r w'"
  unfolding valid_def by (metis fst_conv snd_conv)

lemma validD_snd: "valid P f Q \<Longrightarrow> P w \<Longrightarrow> Q (fst (f w)) (snd (f w))"
  by (simp add: valid_def)

lemma valid_ret: "(\<And>w. P w \<Longrightarrow> Q x w) \<Longrightarrow> valid P (ret x) Q"
  by (simp add: valid_def ret_def)

lemma valid_and_then:
  assumes "valid P f R" "\<And>r. valid (R r) (g r) Q"
  shows "valid P (and_then f g) Q"
  using assms unfolding valid_def and_then_result by blast

lemma valid_weaken:
  assumes "valid P' f Q'" "\<And>w. P w \<Longrightarrow> P' w" "\<And>r w. Q' r w \<Longrightarrow> Q r w"
  shows "valid P f Q"
  using assms unfolding valid_def by blast

lemma valid_pre: "valid P' f Q \<Longrightarrow> (\<And>w. P w \<Longrightarrow> P' w) \<Longrightarrow> valid P f Q"
  by (rule valid_weaken)

lemma valid_conj: "valid P f Q \<Longrightarrow> valid P f Q' \<Longrightarrow> valid P f (\<lambda>r w. Q r w \<and> Q' r w)"
  by (simp add: valid_def)

lemma valid_assume: "(\<And>w. P w \<Longrightarrow> valid P f Q) \<Longrightarrow> valid P f Q"
  unfolding valid_def by blast

lemma valid_const: "(A \<Longrightarrow> valid P f Q) \<Longrightarrow> valid (\<lambda>w. A \<and> P w) f Q"
  unfolding valid_def by blast

lemma valid_sum_case:
  "(\<And>e. s = Inl e \<Longrightarrow> valid P (h e) Q) \<Longrightarrow> (\<And>x. s = Inr x \<Longrightarrow> valid P (k x) Q) \<Longrightarrow>
   valid P (case s of Inl e \<Rightarrow> h e | Inr x \<Rightarrow> k x) Q"
  by (cases s) simp_all

lemma valid_option_case:
  "(i = None \<Longrightarrow> valid P f Q) \<Longrightarrow> (\<And>x. i = Some x \<Longrightarrow> valid P (g x) Q) \<Longrightarrow>
   valid P (case i of None \<Rightarrow> f | Some x \<Rightarrow> g x) Q"
  by (cases i) simp_all

lemma valid_if: "(b \<Longrightarrow> valid P f Q) \<Longrightarrow> (\<not> b \<Longrightarrow> valid P g Q) \<Longrightarrow> valid P (if b then f else g) Q"
  by simp

text \<open>
  A call through \<open>with_io\<close>: the precondition ignores the failure script; the call may also end as
  an error, in the state it found or in the state it would have left.
\<close>

lemma valid_with_io:
  assumes "valid P f R" "\<And>w os. P w \<Longrightarrow> P (w\<lparr>io_script := os\<rparr>)"
    and "\<And>r w. R r w \<Longrightarrow> Q r w" "\<And>r w. R r w \<Longrightarrow> Q (Inl ErrIO) w" "\<And>w. P w \<Longrightarrow> Q (Inl ErrIO) w"
  shows "valid P (with_io f) Q"
proof (rule validI)
  fix w r w'
  assume P: "P w" and run: "with_io f w = (r, w')"
  have n: "P s'" if "next_io w = (x, s')" for x s'
    using next_io_update [OF that] assms(2) P by simp
  show "Q r w'"
    using run
  proof (cases rule: with_io_cases [of w f])
    case (ok s0)
    then show ?thesis using run validD [OF assms(1) n] assms(3) by metis
  next
    case (fail s0)
    then show ?thesis using run n assms(5) by simp
  next
    case (lost s0)
    then show ?thesis using run validD_snd [OF assms(1) n] assms(4) by (metis Pair_inject)
  qed
qed

lemma valid_new_id:
  assumes "\<And>w i is. P w \<Longrightarrow> id_supply w = i # is \<Longrightarrow> Q (Inr i) (w\<lparr>id_supply := is\<rparr>)" "\<And>w. P w \<Longrightarrow> Q (Inl ErrIO) w"
  shows "valid P new_id Q"
  by (rule validI) (auto simp: new_id_def assms split: list.splits)

end
