(* ===== verification/UploadInv.thy ===== *)
theory UploadInv
  imports UploadServer Triples
begin

text \<open>
  The invariant of the upload service and how each primitive change of its state keeps it: what
  the session and chunk tables say agrees with what the object storage holds. A chunk marked done
  has its declared size and, as long as the storage holds a part with the recorded tag, that part
  is the verified body; a staging object is the concatenation of verified bodies; an object under
  an asset key has the digest its key names; a session that was assembled, and an announced
  object, exist.
\<close>

section \<open>Chunk sizes\<close>

definition session_shape :: "Session \<Rightarrow> bool" where
  "session_shape s \<longleftrightarrow>
     0 < ss_SizeBytes s \<and> in_i64 (ss_SizeBytes s) \<and> 0 < ss_ChunkSizeBytes s \<and>
     ss_ChunkCount s = (ss_SizeBytes s + ss_ChunkSizeBytes s - 1) div ss_ChunkSizeBytes s \<and>
     ss_ChunkCount s < 2 ^ 31 \<and> ss_StagingKey s = staging_key (ss_ID s) \<and> mimePattern (ss_Mime s)"

lemma wrap64_add: "wrap64 (wrap64 a + b) = wrap64 (a + b)"
proof -
  have "((a + 2 ^ 63) mod 2 ^ 64 - 2 ^ 63 + b + 2 ^ 63) mod 2 ^ 64 = (a + b + 2 ^ 63) mod (2 ^ 64 :: int)"
    using mod_add_left_eq [of "a + 2 ^ 63" "2 ^ 64" b] by (simp add: algebra_simps)
  then show ?thesis by (simp add: wrap64_def)
qed

lemma wrap64_over:
  assumes "2 ^ 63 \<le> x" "x < 2 ^ 64"
  shows "wrap64 x = x - 2 ^ 64"
proof -
  have "(x + 2 ^ 63) mod 2 ^ 64 = (x + 2 ^ 63 - 2 ^ 64) mod (2 ^ 64 :: int)" by (simp only: minus_mod_self2)
  also have "\<dots> = x + 2 ^ 63 - 2 ^ 64" by (rule mod_pos_pos_trivial) (use assms in auto)
  finally show ?thesis by (simp add: wrap64_def)
qed

text \<open>
  The rounding division of the handler: where the sum overflows the count is not positive, and
  the table refuses the session.
\<close>

lemma chunk_count_exact:
  assumes "0 < sz" "in_i64 sz" "0 < chunk" "in_i64 chunk" "0 < chunk_count sz chunk"
  shows "chunk_count sz chunk = (sz + chunk - 1) div chunk"
proof -
  have e: "sub64 (add64 sz chunk) 1 = wrap64 (sz + chunk - 1)"
    using wrap64_add [of "sz + chunk" "- 1"] by (simp add: sub64_def add64_def)
  show ?thesis
  proof (cases "sz + chunk - 1 < 2 ^ 63")
    case True
    then have "wrap64 (sz + chunk - 1) = sz + chunk - 1"
      using assms by (intro wrap64_id) (simp add: in_i64_def)
    then show ?thesis using assms True e
      by (simp add: chunk_count_def go_div_nonneg in_i64_def)
  next
    case False
    have "wrap64 (sz + chunk - 1) = sz + chunk - 1 - 2 ^ 64"
      by (rule wrap64_over) (use assms False in \<open>auto simp: in_i64_def\<close>)
    then have neg: "wrap64 (sz + chunk - 1) < 0" using assms by (simp add: in_i64_def)
    let ?w = "wrap64 (sz + chunk - 1)"
    have "sgn ?w * sgn chunk * (\<bar>?w\<bar> div \<bar>chunk\<bar>) \<le> 0"
      using neg assms by (simp add: pos_imp_zdiv_nonneg_iff)
    moreover have "in_i64 (sgn ?w * sgn chunk * (\<bar>?w\<bar> div \<bar>chunk\<bar>))"
    proof -
      have w: "- (2 ^ 63) \<le> ?w" using wrap64_in_i64 [of "sz + chunk - 1"] by (simp add: in_i64_def)
      have "\<bar>?w\<bar> div \<bar>chunk\<bar> \<le> \<bar>?w\<bar>" using zdiv_mono2 [of "\<bar>?w\<bar>" 1 "\<bar>chunk\<bar>"] assms by simp
      then show ?thesis using neg assms w calculation by (simp add: in_i64_def)
    qed
    ultimately have "go_div ?w chunk \<le> 0" by (simp add: go_div_def wrap64_id)
    then show ?thesis using assms e by (simp add: chunk_count_def)
  qed
qed

lemma shape_bounds:
  assumes "session_shape s"
  shows "0 < ss_ChunkCount s" "ss_ChunkSizeBytes s * (ss_ChunkCount s - 1) < ss_SizeBytes s"
    "ss_SizeBytes s \<le> ss_ChunkSizeBytes s * ss_ChunkCount s"
proof -
  let ?n = "ss_SizeBytes s + ss_ChunkSizeBytes s - 1" and ?c = "ss_ChunkSizeBytes s"
  have c: "0 < ?c" "0 < ss_SizeBytes s" and k: "ss_ChunkCount s = ?n div ?c"
    using assms by (auto simp: session_shape_def)
  have d: "?n = ?c * ss_ChunkCount s + ?n mod ?c" using k by simp
  have m: "0 \<le> ?n mod ?c" "?n mod ?c < ?c" using c by simp_all
  show "ss_ChunkSizeBytes s * (ss_ChunkCount s - 1) < ss_SizeBytes s"
    "ss_SizeBytes s \<le> ss_ChunkSizeBytes s * ss_ChunkCount s"
    using d m by (simp_all add: right_diff_distrib)
  show "0 < ss_ChunkCount s" using k c by (simp add: pos_imp_zdiv_pos_iff)
qed

lemma expected_size_eq:
  assumes "session_shape s"
  shows "expected_size s n =
    (if n = ss_ChunkCount s - 1 then ss_SizeBytes s - ss_ChunkSizeBytes s * (ss_ChunkCount s - 1) else ss_ChunkSizeBytes s)"
proof -
  note b = shape_bounds [OF assms]
  have p: "0 \<le> ss_ChunkSizeBytes s * (ss_ChunkCount s - 1)" using b assms by (simp add: session_shape_def)
  have i: "in_i64 (ss_SizeBytes s)" "0 < ss_SizeBytes s" using assms by (auto simp: session_shape_def)
  then have "mul64 (ss_ChunkSizeBytes s) (ss_ChunkCount s - 1) = ss_ChunkSizeBytes s * (ss_ChunkCount s - 1)"
    unfolding mul64_def using p b by (intro wrap64_id) (simp add: in_i64_def)
  moreover have "in_i64 (ss_SizeBytes s - ss_ChunkSizeBytes s * (ss_ChunkCount s - 1))"
    using i p b by (simp add: in_i64_def)
  ultimately show ?thesis by (simp add: expected_size_def sub64_def wrap64_id)
qed

lemma expected_sizes_sum:
  assumes "session_shape s"
  shows "sum_list (map (expected_size s) [0..ss_ChunkCount s - 1]) = ss_SizeBytes s"
proof -
  note b = shape_bounds [OF assms]
  have "[0..ss_ChunkCount s - 1] = [0..ss_ChunkCount s - 2] @ [ss_ChunkCount s - 1]"
    using b(1) upto_rec2 [of 0 "ss_ChunkCount s - 1"] by simp
  moreover have "sum_list (map (expected_size s) [0..ss_ChunkCount s - 2]) = ss_ChunkSizeBytes s * (ss_ChunkCount s - 1)"
  proof -
    have "map (expected_size s) [0..ss_ChunkCount s - 2] = map (\<lambda>_. ss_ChunkSizeBytes s) [0..ss_ChunkCount s - 2]"
      by (rule map_cong) (auto simp: expected_size_eq [OF assms])
    then show ?thesis using b(1) by (simp only: sum_list_triv length_upto) simp
  qed
  ultimately show ?thesis by (simp add: expected_size_eq [OF assms])
qed

lemma expected_size_range:
  assumes "session_shape s"
  shows "0 < expected_size s n \<and> expected_size s n \<le> ss_ChunkSizeBytes s"
proof -
  have "0 < ss_ChunkSizeBytes s" using assms by (simp add: session_shape_def)
  then show ?thesis
    unfolding expected_size_eq [OF assms] using shape_bounds [OF assms] by (simp add: right_diff_distrib)
qed

section \<open>The invariant\<close>

definition verified :: "(string \<Rightarrow> string) \<Rightarrow> Chunk \<Rightarrow> string \<Rightarrow> bool" where
  "verified sha c body \<longleftrightarrow> sha body = ck_SHA256 c \<and> int (length body) = ck_SizeBytes c"

definition built :: "(string \<Rightarrow> string) \<Rightarrow> Chunk list \<Rightarrow> string \<Rightarrow> bool" where
  "built sha cs content \<longleftrightarrow>
     list_all (\<lambda>c. ck_State c = ChunkDone) cs \<and>
     (\<exists>bodies. content = concat bodies \<and> list_all2 (verified sha) cs bodies)"

definition addressed :: "(string \<Rightarrow> string) \<Rightarrow> (string \<Rightarrow> string option) \<Rightarrow> bool" where
  "addressed sha objs \<longleftrightarrow>
     (\<forall>ws d c. length d = 64 \<longrightarrow> objs (asset_path ws d) = Some c \<longrightarrow> sha c = d)"

definition landed_at :: "(string \<Rightarrow> string option) \<Rightarrow> string \<Rightarrow> string \<Rightarrow> string \<Rightarrow> bool" where
  "landed_at objs ws d k \<longleftrightarrow> k = asset_path ws d \<and> hex64 d \<and> objs k \<noteq> None"

definition tables_ok :: "Session list \<Rightarrow> Chunk list \<Rightarrow> bool" where
  "tables_ok ss cs \<longleftrightarrow>
     unique_keys ss_ID ss \<and> (\<forall>s \<in> set ss. session_shape s \<and> map_complete s cs) \<and>
     (\<forall>c \<in> set cs. \<exists>s \<in> set ss. ss_ID s = ck_Session c)"

definition done_ok ::
  "(string \<Rightarrow> string) \<Rightarrow> (string \<Rightarrow> string \<Rightarrow> int \<Rightarrow> (string \<times> string) option) \<Rightarrow> Session \<Rightarrow> Chunk \<Rightarrow> bool" where
  "done_ok sha parts s c \<longleftrightarrow>
     (ck_State c = ChunkDone \<longrightarrow>
        ck_SizeBytes c = expected_size s (ck_Index c) \<and>
        (\<forall>body. parts (ss_StagingKey s) (ss_S3UploadID s) (ck_Index c + 1) = Some (ck_ETag c, body) \<longrightarrow>
           verified sha c body))"

definition chunks_ok ::
  "(string \<Rightarrow> string) \<Rightarrow> (string \<Rightarrow> string \<Rightarrow> int \<Rightarrow> (string \<times> string) option) \<Rightarrow> Session list \<Rightarrow> Chunk list \<Rightarrow> bool" where
  "chunks_ok sha parts ss cs \<longleftrightarrow>
     (\<forall>s \<in> set ss. \<forall>c \<in> set cs. ck_Session c = ss_ID s \<longrightarrow> done_ok sha parts s c)"

definition staging_ok ::
  "(string \<Rightarrow> string) \<Rightarrow> (string \<Rightarrow> string option) \<Rightarrow> Session list \<Rightarrow> Chunk list \<Rightarrow> bool" where
  "staging_ok sha objs ss cs \<longleftrightarrow>
     (\<forall>i x. objs (staging_key i) = Some x \<longrightarrow> i \<in> ss_ID ` set ss \<and> built sha (chunks_of i cs) x)"

definition session_landed :: "(string \<Rightarrow> string option) \<Rightarrow> Session \<Rightarrow> bool" where
  "session_landed objs s \<longleftrightarrow>
     (ss_State s = SessionAssembled \<or> ss_State s = SessionCompleted \<longrightarrow>
        landed_at objs (ss_WorkspaceID s) (ss_SHA256 s) (ss_ObjectKey s))"

definition event_landed :: "(string \<Rightarrow> string option) \<Rightarrow> upl_event \<Rightarrow> bool" where
  "event_landed objs x \<longleftrightarrow>
     (\<forall>e. x = EvLanded e \<longrightarrow>
        landed_at objs (le_WorkspaceID e) (le_SHA256 e) (le_ObjectKey e) \<and> 0 < le_SizeBytes e \<and> mimePattern (le_Mime e))"

definition core_inv ::
  "(string \<Rightarrow> string) \<Rightarrow> (string \<Rightarrow> string option) \<Rightarrow> (string \<Rightarrow> string \<Rightarrow> int \<Rightarrow> (string \<times> string) option) \<Rightarrow>
   Session list \<Rightarrow> Chunk list \<Rightarrow> (string \<times> upl_event) list \<Rightarrow> bool" where
  "core_inv sha objs parts ss cs es \<longleftrightarrow>
     tables_ok ss cs \<and> chunks_ok sha parts ss cs \<and> staging_ok sha objs ss cs \<and> addressed sha objs \<and>
     (\<forall>s \<in> set ss. session_landed objs s) \<and> (\<forall>x \<in> snd ` set es. event_landed objs x)"

lemma staging_not_asset [simp]: "staging_key i \<noteq> asset_path ws d" "asset_path ws d \<noteq> staging_key i"
  by (simp_all add: staging_key_def asset_path_def)

lemma staging_key_inject [simp]: "staging_key i = staging_key j \<longleftrightarrow> i = j"
  by (simp add: staging_key_def)

lemma asset_path_digest: "asset_path ws d = asset_path ws' d' \<Longrightarrow> length d = length d' \<Longrightarrow> d = d'"
proof -
  assume e: "asset_path ws d = asset_path ws' d'" and l: "length d = length d'"
  have "(''assets/'' @ ws @ ''/sha256/'') @ d = (''assets/'' @ ws' @ ''/sha256/'') @ d'"
    using e by (simp add: asset_path_def)
  then show ?thesis using l append_eq_append_conv by blast
qed

text \<open>A chunk that is not done changes: every other clause looks at chunks that are done.\<close>

lemma tables_ok_chunks:
  assumes "tables_ok ss cs" and keep: "\<And>c. ck_Session (f c) = ck_Session c" "\<And>c. ck_Index (f c) = ck_Index c"
  shows "tables_ok ss (update_where P f cs)"
proof -
  have "map_complete s (update_where P f cs) = map_complete s cs" for s
    using keep by (simp add: map_complete_def chunks_of_update map_update_where)
  moreover have "\<exists>s \<in> set ss. ss_ID s = ck_Session c" if c: "c \<in> set (update_where P f cs)" for c
  proof -
    obtain c0 where "c0 \<in> set cs" "ck_Session c = ck_Session c0"
      using c keep(1) by (auto simp: set_update_where)
    then show ?thesis using assms(1) unfolding tables_ok_def by metis
  qed
  ultimately show ?thesis using assms(1) by (simp add: tables_ok_def)
qed

lemma core_inv_chunks:
  assumes inv: "core_inv sha objs parts ss cs es"
    and keep: "\<And>c. ck_Session (f c) = ck_Session c" "\<And>c. ck_Index (f c) = ck_Index c"
    and opn: "\<And>c. c \<in> set cs \<Longrightarrow> P c \<Longrightarrow> ck_State c \<noteq> ChunkDone"
    and new: "\<And>c s. c \<in> set cs \<Longrightarrow> P c \<Longrightarrow> s \<in> set ss \<Longrightarrow> ck_Session c = ss_ID s \<Longrightarrow> done_ok sha parts s (f c)"
  shows "core_inv sha objs parts ss (update_where P f cs) es"
proof -
  have "chunks_ok sha parts ss (update_where P f cs)"
    unfolding chunks_ok_def
  proof (intro ballI impI)
    fix s c assume s: "s \<in> set ss" and c: "c \<in> set (update_where P f cs)" and e: "ck_Session c = ss_ID s"
    from c consider (old) "c \<in> set cs" | (new) c0 where "c0 \<in> set cs" "P c0" "c = f c0"
      by (auto simp: set_update_where)
    then show "done_ok sha parts s c"
    proof cases
      case old
      then show ?thesis using inv s e by (simp add: core_inv_def chunks_ok_def)
    next
      case (new c0)
      then show ?thesis using assms(5) [of c0 s] s e keep by simp
    qed
  qed
  moreover have "staging_ok sha objs ss (update_where P f cs)"
    unfolding staging_ok_def
  proof (intro allI impI)
    fix i x assume "objs (staging_key i) = Some x"
    then have b: "i \<in> ss_ID ` set ss \<and> built sha (chunks_of i cs) x"
      using inv by (simp add: core_inv_def staging_ok_def)
    then have "\<forall>c \<in> set (chunks_of i cs). \<not> P c" using opn by (auto simp: built_def list_all_iff)
    then have "update_where P f (chunks_of i cs) = chunks_of i cs"
      by (auto simp: update_where_def intro!: map_idI)
    then show "i \<in> ss_ID ` set ss \<and> built sha (chunks_of i (update_where P f cs)) x"
      using b keep by (simp add: chunks_of_update)
  qed
  ultimately show ?thesis
    using inv tables_ok_chunks [of ss cs f P, OF _ keep] by (simp add: core_inv_def)
qed

lemma core_inv_sessions:
  assumes inv: "core_inv sha objs parts ss cs es"
    and keep: "\<And>s. (ss_ID (g s), ss_SizeBytes (g s), ss_ChunkSizeBytes (g s), ss_ChunkCount (g s),
         ss_StagingKey (g s), ss_S3UploadID (g s), ss_Mime (g s)) =
       (ss_ID s, ss_SizeBytes s, ss_ChunkSizeBytes s, ss_ChunkCount s, ss_StagingKey s, ss_S3UploadID s, ss_Mime s)"
    and new: "\<And>s. s \<in> set ss \<Longrightarrow> P s \<Longrightarrow> session_landed objs (g s)"
  shows "core_inv sha objs parts (update_where P g ss) cs es"
proof -
  have id: "ss_ID (g s) = ss_ID s" for s using keep [of s] by simp
  have shape: "session_shape (g s) = session_shape s" "map_complete (g s) cs = map_complete s cs"
    "done_ok sha parts (g s) c = done_ok sha parts s c" for s c
    using keep [of s] by (simp_all add: session_shape_def map_complete_def expected_size_def done_ok_def)
  have img: "ss_ID ` set (update_where P g ss) = ss_ID ` set ss"
    using map_update_where [of P ss_ID g ss, OF id] by (metis list.set_map)
  have "tables_ok (update_where P g ss) cs"
  proof -
    have "\<forall>s \<in> set (update_where P g ss). session_shape s \<and> map_complete s cs"
      using inv shape by (auto simp: core_inv_def tables_ok_def set_update_where)
    moreover have "\<forall>c \<in> set cs. \<exists>s \<in> set (update_where P g ss). ss_ID s = ck_Session c"
      using inv img unfolding core_inv_def tables_ok_def by (metis image_iff)
    ultimately show ?thesis
      using inv id by (simp add: core_inv_def tables_ok_def unique_keys_update)
  qed
  moreover have "chunks_ok sha parts (update_where P g ss) cs"
    using inv shape id by (auto simp: core_inv_def chunks_ok_def set_update_where)
  moreover have "\<forall>s \<in> set (update_where P g ss). session_landed objs s"
    using inv new by (auto simp: core_inv_def set_update_where)
  ultimately show ?thesis using inv img by (simp add: core_inv_def staging_ok_def)
qed

lemma core_inv_new_session:
  assumes inv: "core_inv sha objs parts ss cs es" and chk: "session_checks s ss" and shape: "session_shape s"
    and st: "ss_State s = SessionActive"
  shows "core_inv sha objs parts (ss @ [s]) (cs @ map (pending_chunk (ss_ID s)) [0..ss_ChunkCount s - 1]) es"
proof -
  let ?new = "map (pending_chunk (ss_ID s)) [0..ss_ChunkCount s - 1]"
  have fresh: "ss_ID s \<notin> ss_ID ` set ss" using chk by (simp add: session_checks_def has_key_def)
  have others: "chunks_of i (cs @ ?new) = chunks_of i cs" if "i \<noteq> ss_ID s" for i
    using that by (intro chunks_of_append_other) (auto simp: pending_chunk_def)
  have owner: "ck_Session c \<in> ss_ID ` set ss" if "c \<in> set cs" for c
    using inv that by (force simp: core_inv_def tables_ok_def)
  then have none: "ck_Session c \<noteq> ss_ID s" if "c \<in> set cs" for c using fresh that by metis
  have "tables_ok (ss @ [s]) (cs @ ?new)"
  proof -
    have "map_complete s (cs @ ?new)" by (rule map_complete_new) (rule none)
    moreover have "map_complete t (cs @ ?new)" if "t \<in> set ss" for t
    proof -
      have "ss_ID t \<noteq> ss_ID s" using fresh that by (metis imageI)
      then show ?thesis using inv that others by (simp add: core_inv_def tables_ok_def map_complete_def)
    qed
    moreover have "unique_keys ss_ID (ss @ [s])"
      using inv chk by (simp add: unique_keys_insert core_inv_def tables_ok_def session_checks_def)
    ultimately show ?thesis
      using inv shape by (auto simp: core_inv_def tables_ok_def pending_chunk_def)
  qed
  moreover have "chunks_ok sha parts (ss @ [s]) (cs @ ?new)"
    using inv none by (auto simp: core_inv_def chunks_ok_def pending_chunk_def done_ok_def [of _ _ _ "\<lparr>ck_Session = _, ck_Index = _, ck_State = _, ck_SHA256 = _, ck_ETag = _, ck_SizeBytes = _\<rparr>"])
  moreover have "staging_ok sha objs (ss @ [s]) (cs @ ?new)"
    unfolding staging_ok_def
  proof (intro allI impI)
    fix i x assume "objs (staging_key i) = Some x"
    then have "i \<in> ss_ID ` set ss \<and> built sha (chunks_of i cs) x"
      using inv by (simp add: core_inv_def staging_ok_def)
    then show "i \<in> ss_ID ` set (ss @ [s]) \<and> built sha (chunks_of i (cs @ ?new)) x"
      using fresh others [of i] by (metis Un_iff image_Un set_append)
  qed
  ultimately show ?thesis using inv st by (simp add: core_inv_def session_landed_def)
qed

lemma core_inv_event:
  "core_inv sha objs parts ss cs es \<Longrightarrow> event_landed objs x \<Longrightarrow> core_inv sha objs parts ss cs (es @ [(t, x)])"
  by (simp add: core_inv_def)

text \<open>
  The storage changes: an object stays as it is, or it is a staging object built from verified
  chunks, or it is stored under the asset key of its own digest.
\<close>

definition objs_step ::
  "(string \<Rightarrow> string) \<Rightarrow> Session list \<Rightarrow> Chunk list \<Rightarrow> (string \<Rightarrow> string option) \<Rightarrow> (string \<Rightarrow> string option) \<Rightarrow> bool" where
  "objs_step sha ss cs objs objs' \<longleftrightarrow>
     (\<forall>k. objs' k = objs k \<or>
        (\<exists>i. k = staging_key i \<and> (\<forall>x. objs' k = Some x \<longrightarrow> i \<in> ss_ID ` set ss \<and> built sha (chunks_of i cs) x)) \<or>
        (\<exists>ws x. k = asset_path ws (sha x) \<and> objs' k = Some x))"

lemma core_inv_objs:
  assumes inv: "core_inv sha objs parts ss cs es" and step: "objs_step sha ss cs objs objs'"
    and hex: "\<And>x. hex64 (sha x)" and prt: "chunks_ok sha parts' ss cs"
  shows "core_inv sha objs' parts' ss cs es"
proof -
  have "staging_ok sha objs' ss cs"
    unfolding staging_ok_def
  proof (intro allI impI)
    fix i x assume x: "objs' (staging_key i) = Some x"
    have "objs' (staging_key i) = objs (staging_key i) \<or>
        (\<forall>x. objs' (staging_key i) = Some x \<longrightarrow> i \<in> ss_ID ` set ss \<and> built sha (chunks_of i cs) x)"
      using spec [OF step [unfolded objs_step_def], of "staging_key i"] by auto
    then show "i \<in> ss_ID ` set ss \<and> built sha (chunks_of i cs) x"
      using inv x unfolding core_inv_def staging_ok_def by metis
  qed
  moreover have asset: "objs' (asset_path ws d) = objs (asset_path ws d) \<or>
      (\<exists>ws' x. asset_path ws d = asset_path ws' (sha x) \<and> objs' (asset_path ws d) = Some x)" for ws d
    using spec [OF step [unfolded objs_step_def], of "asset_path ws d"] by auto
  have l64: "length (sha x) = 64" for x using hex [of x] by (simp add: hex64_def match_class_def)
  have "addressed sha objs'"
    unfolding addressed_def
  proof (intro allI impI)
    fix ws d c assume d: "length d = 64" and c: "objs' (asset_path ws d) = Some c"
    from asset [of ws d] show "sha c = d"
    proof
      assume "objs' (asset_path ws d) = objs (asset_path ws d)"
      then show ?thesis using inv c d by (auto simp: core_inv_def addressed_def)
    next
      assume "\<exists>ws' x. asset_path ws d = asset_path ws' (sha x) \<and> objs' (asset_path ws d) = Some x"
      then show ?thesis using c d l64 by (auto dest: asset_path_digest)
    qed
  qed
  moreover have "landed_at objs' ws d k" if "landed_at objs ws d k" for ws d k
    using that asset [of ws d] by (auto simp: landed_at_def)
  ultimately show ?thesis
    using inv prt by (auto simp: core_inv_def session_landed_def event_landed_def)
qed

end
