(* ===== verification/UploadLifecycle.thy ===== *)
theory UploadLifecycle
  imports UploadInv
begin

text \<open>
  Every handler of the upload service keeps the invariant of \<open>UploadInv\<close>, whatever the database,
  the message broker and the object storage fail at. The proofs rely on the contracts of the
  object storage and of the quota hook only (locale \<open>upload_service\<close>); the contracts are met by
  \<open>S3BlobStore\<close> and \<open>ConfigQuota\<close>, which the service deploys.
\<close>

definition up_view where
  "up_view w = (u_sessions w, u_chunks w, u_events w, u_s3 w)"

definition up_inv ::
  "(string \<Rightarrow> string) \<Rightarrow> ('b \<Rightarrow> string \<Rightarrow> string option) \<Rightarrow>
   ('b \<Rightarrow> string \<Rightarrow> string \<Rightarrow> int \<Rightarrow> (string \<times> string) option) \<Rightarrow> 'b upl \<Rightarrow> bool" where
  "up_inv sha obj part w \<longleftrightarrow>
     core_inv sha (obj (u_s3 w)) (part (u_s3 w)) (u_sessions w) (u_chunks w) (u_events w)"

lemma up_inv_env [simp]:
  "up_inv sha obj part (w\<lparr>io_script := os\<rparr>) = up_inv sha obj part w"
  "up_inv sha obj part (w\<lparr>id_supply := is\<rparr>) = up_inv sha obj part w"
  "up_inv sha obj part (w\<lparr>u_gauge := g\<rparr>) = up_inv sha obj part w"
  "up_inv sha obj part (w\<lparr>u_backoff := b\<rparr>) = up_inv sha obj part w"
  by (simp_all add: up_inv_def)

lemma up_inv_view: "up_view w' = up_view w \<Longrightarrow> up_inv sha obj part w \<Longrightarrow> up_inv sha obj part w'"
  by (simp add: up_inv_def up_view_def)

text \<open>Facts a handler keeps about the rows it has read.\<close>

lemma inv_shape: "up_inv sha obj part w \<Longrightarrow> s \<in> set (u_sessions w) \<Longrightarrow> session_shape s"
  by (simp add: up_inv_def core_inv_def tables_ok_def)

lemma inv_session:
  "up_inv sha obj part w \<Longrightarrow> s \<in> set (u_sessions w) \<Longrightarrow>
     ss_StagingKey s = staging_key (ss_ID s) \<and> ss_ChunkCount s < 2 ^ 31"
  by (drule (1) inv_shape) (simp add: session_shape_def)

lemma inv_staging:
  "up_inv sha obj part w \<Longrightarrow> obj (u_s3 w) (staging_key i) = Some x \<Longrightarrow> built sha (chunks_of i (u_chunks w)) x"
  unfolding up_inv_def core_inv_def staging_ok_def by blast

lemma inv_indices:
  "up_inv sha obj part w \<Longrightarrow> s \<in> set (u_sessions w) \<Longrightarrow>
     map ck_Index (chunks_of (ss_ID s) (u_chunks w)) = [0..ss_ChunkCount s - 1]"
  by (simp add: up_inv_def core_inv_def tables_ok_def map_complete_def)

lemma inv_session_unique:
  "up_inv sha obj part w \<Longrightarrow> s \<in> set (u_sessions w) \<Longrightarrow> t \<in> set (u_sessions w) \<Longrightarrow> ss_ID t = ss_ID s \<Longrightarrow> t = s"
  unfolding up_inv_def core_inv_def tables_ok_def by (metis unique_keys_eq)

lemma inv_chunk_unique:
  assumes "up_inv sha obj part w" "s \<in> set (u_sessions w)"
    and "c \<in> set (u_chunks w)" "chunk_at (ss_ID s) n c" "c' \<in> set (u_chunks w)" "chunk_at (ss_ID s) n c'"
  shows "c = c'"
proof -
  have "distinct (map ck_Index (chunks_of (ss_ID s) (u_chunks w)))"
    using inv_indices [OF assms(1,2)] by simp
  then have "inj_on ck_Index {c \<in> set (u_chunks w). ck_Session c = ss_ID s}"
    by (simp add: distinct_map)
  then show ?thesis using assms(3-6) by (auto simp: chunk_at_def dest: inj_onD)
qed

lemma inv_chunk_index:
  assumes "up_inv sha obj part w" "s \<in> set (u_sessions w)" "c \<in> set (u_chunks w)" "ck_Session c = ss_ID s"
  shows "0 \<le> ck_Index c \<and> ck_Index c < ss_ChunkCount s \<and> wrap32 (ck_Index c + 1) = ck_Index c + 1"
proof -
  have "ck_Index c \<in> set (map ck_Index (chunks_of (ss_ID s) (u_chunks w)))" using assms(3,4) by simp
  then have i: "0 \<le> ck_Index c \<and> ck_Index c < ss_ChunkCount s" unfolding inv_indices [OF assms(1,2)] by auto
  moreover have "ss_ChunkCount s < 2 ^ 31" using inv_shape [OF assms(1,2)] by (simp add: session_shape_def)
  ultimately show ?thesis by (simp add: wrap32_def mod_pos_pos_trivial)
qed

lemma valid_s3op:
  assumes "\<And>w r b. P w \<Longrightarrow> f (u_s3 w) = (r, b) \<Longrightarrow> Q r (w\<lparr>u_s3 := b\<rparr>)"
  shows "valid P (s3op f) Q"
  by (rule validI) (auto simp: s3op_def assms split: prod.splits)

text \<open>The list of parts handed to the storage is already in ascending order.\<close>

lemma parts_sorted:
  assumes "up_inv sha obj part w" "s \<in> set (u_sessions w)"
  defines "cs \<equiv> chunks_of (ss_ID s) (u_chunks w)"
  shows "sort_key cp_PartNumber (map part_of cs) = map part_of cs"
proof (rule sort_key_id_if_sorted)
  have "map cp_PartNumber (map part_of cs) = map (\<lambda>i. i + 1) (map ck_Index cs)"
    using inv_chunk_index [OF assms(1,2)] by (auto simp: part_of_def cs_def)
  also have "\<dots> = map (\<lambda>i. i + 1) [0..ss_ChunkCount s - 1]" using inv_indices [OF assms(1,2)] by (simp add: cs_def)
  finally show "sorted (map cp_PartNumber (map part_of cs))" by (simp add: sorted_wrt_map)
qed

text \<open>What the storage assembles from parts with the recorded tags is built from verified chunks.\<close>

lemma assembled_built:
  assumes inv: "up_inv sha obj part w" "s \<in> set (u_sessions w)"
  defines "cs \<equiv> chunks_of (ss_ID s) (u_chunks w)"
  assumes fin: "list_all (\<lambda>c. ck_State c = ChunkDone) cs"
    and asm: "assembled part (u_s3 w) (ss_StagingKey s) (ss_S3UploadID s) (map part_of cs) x"
  shows "built sha cs x"
proof -
  obtain bodies where x: "x = concat bodies" and l: "list_all2 (\<lambda>p body. part (u_s3 w) (ss_StagingKey s) (ss_S3UploadID s)
      (cp_PartNumber p) = Some (cp_ETag p, body)) (map part_of cs) bodies"
    using asm by (auto simp: assembled_def)
  have "list_all2 (verified sha) cs bodies"
    unfolding list_all2_conv_all_nth
  proof (intro conjI allI impI)
    show "length cs = length bodies" using l by (auto dest: list_all2_lengthD)
    fix j assume j: "j < length cs"
    then have c: "cs ! j \<in> set (u_chunks w)" "ck_Session (cs ! j) = ss_ID s"
      using nth_mem [OF j] by (simp_all add: cs_def)
    have "part (u_s3 w) (ss_StagingKey s) (ss_S3UploadID s) (ck_Index (cs ! j) + 1) = Some (ck_ETag (cs ! j), bodies ! j)"
      using list_all2_nthD [OF l, of j] j inv_chunk_index [OF inv c] by (simp add: part_of_def)
    moreover have "ck_State (cs ! j) = ChunkDone" using fin j by (simp add: list_all_length)
    ultimately show "verified sha (cs ! j) (bodies ! j)"
      using inv c by (auto simp: up_inv_def core_inv_def chunks_ok_def done_ok_def)
  qed
  then show ?thesis using fin x by (auto simp: built_def)
qed

locale upload_service = blob_store obj part "sv_blobs sv"
  for obj :: "'b \<Rightarrow> string \<Rightarrow> string option"
    and part :: "'b \<Rightarrow> string \<Rightarrow> string \<Rightarrow> int \<Rightarrow> (string \<times> string) option"
    and sv :: "'b Server" +
  fixes sha :: "string \<Rightarrow> string"
  assumes digest: "hex64 (sha x)"
    and quota_reads: "up_view (snd (sv_quota sv ws n w)) = up_view w"
    and chunk_size: "0 < sv_chunkSize sv" "in_i64 (sv_chunkSize sv)"
    and max_object: "in_i64 (sv_maxObjectBytes sv)"
begin

abbreviation J :: "'b upl \<Rightarrow> bool" where
  "J \<equiv> up_inv sha obj part"

lemma J_s3:
  assumes "J w" "objs_step sha (u_sessions w) (u_chunks w) (obj (u_s3 w)) (obj b)"
    and "chunks_ok sha (part b) (u_sessions w) (u_chunks w)"
  shows "J (w\<lparr>u_s3 := b\<rparr>)"
  using assms digest by (auto simp: up_inv_def intro: core_inv_objs)

lemma chunks_ok_le:
  assumes "J w" "\<And>s u n x. s \<in> set (u_sessions w) \<Longrightarrow> part b (ss_StagingKey s) u n = Some x \<Longrightarrow> part (u_s3 w) (ss_StagingKey s) u n = Some x"
  shows "chunks_ok sha (part b) (u_sessions w) (u_chunks w)"
  unfolding chunks_ok_def done_ok_def
proof (intro ballI impI allI conjI)
  fix s c body
  assume a: "s \<in> set (u_sessions w)" "c \<in> set (u_chunks w)" "ck_Session c = ss_ID s" "ck_State c = ChunkDone"
  then have d: "done_ok sha (part (u_s3 w)) s c" using assms(1) by (simp add: up_inv_def core_inv_def chunks_ok_def)
  then show "ck_SizeBytes c = expected_size s (ck_Index c)" using a by (simp add: done_ok_def)
  assume "part b (ss_StagingKey s) (ss_S3UploadID s) (ck_Index c + 1) = Some (ck_ETag c, body)"
  then show "verified sha c body" using d a assms(2) by (simp add: done_ok_def)
qed

lemma J_parts_le: "J w \<Longrightarrow> obj b = obj (u_s3 w) \<Longrightarrow> parts_le part (u_s3 w) b \<Longrightarrow> J (w\<lparr>u_s3 := b\<rparr>)"
  by (rule J_s3) (auto simp: objs_step_def parts_le_def intro: chunks_ok_le)

text \<open>A staging object goes away, or is replaced by one built from the same chunks.\<close>

lemma J_staging:
  assumes "J w" "others_same obj (staging_key i) (u_s3 w) b" "parts_le part (u_s3 w) b"
    and "\<And>x. obj b (staging_key i) = Some x \<Longrightarrow> i \<in> ss_ID ` set (u_sessions w) \<and> built sha (chunks_of i (u_chunks w)) x"
  shows "J (w\<lparr>u_s3 := b\<rparr>)"
proof (rule J_s3)
  show "objs_step sha (u_sessions w) (u_chunks w) (obj (u_s3 w)) (obj b)"
    unfolding objs_step_def using assms(2,4) by (metis others_same_def)
qed (use assms in \<open>auto simp: parts_le_def intro: chunks_ok_le\<close>)

subsection \<open>Database statements\<close>

lemma exec_sessions_J:
  assumes keep: "\<And>s. (ss_ID (g s), ss_SizeBytes (g s), ss_ChunkSizeBytes (g s), ss_ChunkCount (g s),
         ss_StagingKey (g s), ss_S3UploadID (g s), ss_Mime (g s)) =
       (ss_ID s, ss_SizeBytes s, ss_ChunkSizeBytes s, ss_ChunkCount s, ss_StagingKey s, ss_S3UploadID s, ss_Mime s)"
    and new: "\<And>w s. P w \<Longrightarrow> s \<in> set (u_sessions w) \<Longrightarrow> R s \<Longrightarrow> session_landed (obj (u_s3 w)) (g s)"
    and inv: "\<And>w. P w \<Longrightarrow> J w \<and> F (u_s3 w)" and io: "\<And>w os. P w \<Longrightarrow> P (w\<lparr>io_script := os\<rparr>)"
  shows "valid P (exec_sessions R g) (\<lambda>_ w. J w \<and> F (u_s3 w))"
  unfolding exec_sessions_def
proof (rule valid_with_io)
  show "valid P (\<lambda>w. (Inr (rows_affected R (u_sessions w)), w\<lparr>u_sessions := update_where R g (u_sessions w)\<rparr>))
     (\<lambda>_ w. J w \<and> F (u_s3 w))"
  proof (rule validI)
    fix w r w'
    assume p: "P w" and "(Inr (rows_affected R (u_sessions w)), w\<lparr>u_sessions := update_where R g (u_sessions w)\<rparr>) = (r, w')"
    then have w': "w' = w\<lparr>u_sessions := update_where R g (u_sessions w)\<rparr>" by simp
    have "core_inv sha (obj (u_s3 w)) (part (u_s3 w)) (update_where R g (u_sessions w)) (u_chunks w) (u_events w)"
      by (rule core_inv_sessions [OF _ keep]) (use inv [OF p] new [OF p] in \<open>simp_all add: up_inv_def\<close>)
    then show "J w' \<and> F (u_s3 w')" using inv [OF p] w' by (simp add: up_inv_def)
  qed
qed (use inv io in auto)

lemma set_state_J:
  assumes "\<And>w. P w \<Longrightarrow> J w \<and> F (u_s3 w)" "\<And>w os. P w \<Longrightarrow> P (w\<lparr>io_script := os\<rparr>)"
    and "\<And>w s. P w \<Longrightarrow> s \<in> set (u_sessions w) \<Longrightarrow> ss_ID s = i \<Longrightarrow> session_landed (obj (u_s3 w)) (s\<lparr>ss_State := st\<rparr>)"
  shows "valid P (SetSessionState i st) (\<lambda>_ w. J w \<and> F (u_s3 w))"
  unfolding SetSessionState_def
  by (rule valid_and_then [of _ _ "\<lambda>_ w. J w \<and> F (u_s3 w)"], rule exec_sessions_J) (use assms in \<open>auto intro: valid_ret\<close>)

lemma exec_chunks_J:
  assumes keep: "\<And>c. ck_Session (f c) = ck_Session c" "\<And>c. ck_Index (f c) = ck_Index c"
    and opn: "\<And>w c. P w \<Longrightarrow> c \<in> set (u_chunks w) \<Longrightarrow> R c \<Longrightarrow> ck_State c \<noteq> ChunkDone"
    and new: "\<And>w c s. P w \<Longrightarrow> c \<in> set (u_chunks w) \<Longrightarrow> R c \<Longrightarrow> s \<in> set (u_sessions w) \<Longrightarrow> ck_Session c = ss_ID s \<Longrightarrow>
      done_ok sha (part (u_s3 w)) s (f c)"
    and inv: "\<And>w. P w \<Longrightarrow> J w" and io: "\<And>w os. P w \<Longrightarrow> P (w\<lparr>io_script := os\<rparr>)"
  shows "valid P (exec_chunks R f) (\<lambda>_. J)"
  unfolding exec_chunks_def
proof (rule valid_with_io)
  show "valid P (\<lambda>w. (Inr (rows_affected R (u_chunks w)), w\<lparr>u_chunks := update_where R f (u_chunks w)\<rparr>)) (\<lambda>_. J)"
  proof (rule validI)
    fix w r w'
    assume p: "P w" and "(Inr (rows_affected R (u_chunks w)), w\<lparr>u_chunks := update_where R f (u_chunks w)\<rparr>) = (r, w')"
    then have w': "w' = w\<lparr>u_chunks := update_where R f (u_chunks w)\<rparr>" by simp
    have "core_inv sha (obj (u_s3 w)) (part (u_s3 w)) (u_sessions w) (update_where R f (u_chunks w)) (u_events w)"
      by (rule core_inv_chunks [OF _ keep]) (use inv [OF p] opn [OF p] new [OF p] in \<open>simp_all add: up_inv_def\<close>)
    then show "J w'" using w' by (simp add: up_inv_def)
  qed
qed (use inv io in auto)

lemma retry_J: "valid J (retry_chunk i n resp) (\<lambda>_. J)"
  unfolding retry_chunk_def MarkChunkRetry_def
  by (intro valid_and_then [of _ _ "\<lambda>_. J"] exec_chunks_J valid_ret) (auto simp: done_ok_def)

subsection \<open>Publishing\<close>

lemma publish_loop_J:
  "valid (\<lambda>w. J w \<and> event_landed (obj (u_s3 w)) ev \<and> F (u_sessions w) (u_s3 w)) (publish_loop k res t ev)
     (\<lambda>_ w. J w \<and> F (u_sessions w) (u_s3 w))"
proof (induction k arbitrary: res)
  case 0
  then show ?case by (auto intro: valid_ret)
next
  case (Suc k)
  let ?P = "\<lambda>w. J w \<and> event_landed (obj (u_s3 w)) ev \<and> F (u_sessions w) (u_s3 w)"
  have pub: "valid ?P (JetStream_Publish t ev) (\<lambda>_. ?P)"
    unfolding JetStream_Publish_def
    by (rule valid_with_io [of ?P _ "\<lambda>_. ?P"]) (auto simp: valid_def up_inv_def intro: core_inv_event)
  have wait: "valid ?P pause (\<lambda>_. ?P)"
    unfolding pause_def by (rule valid_with_io [of ?P _ "\<lambda>_. ?P"]) (auto simp: valid_def)
  show ?case
    unfolding publish_loop.simps
    by (intro valid_and_then [OF pub] valid_sum_case valid_and_then [OF wait] Suc.IH) (auto intro!: valid_ret)
qed

lemma metering_J:
  "valid (\<lambda>w. J w \<and> F (u_sessions w) (u_s3 w)) (publishMetering sv i kind bytes job) (\<lambda>_ w. J w \<and> F (u_sessions w) (u_s3 w))"
proof -
  let ?P = "\<lambda>w. J w \<and> F (u_sessions w) (u_s3 w)"
  have "valid ?P new_id (\<lambda>_. ?P)" by (rule valid_new_id) auto
  moreover have "valid ?P (\<lambda>w. publishJSON sv SubjectMetering (EvMetering (e w)) w) (\<lambda>_. ?P)" for e
  proof (rule validI)
    fix w r w' assume "?P w" "publishJSON sv SubjectMetering (EvMetering (e w)) w = (r, w')"
    moreover have "event_landed (obj (u_s3 w)) (EvMetering (e w))" by (simp add: event_landed_def)
    ultimately show "?P w'"
      using validD [OF publish_loop_J [of "EvMetering (e w)" F "sv_publishRetries sv" "Inr ()" SubjectMetering], of w r w']
      unfolding publishJSON_def by blast
  qed
  ultimately show ?thesis
    unfolding publishMetering_def
    by (intro valid_and_then [of _ _ "\<lambda>_. ?P"] valid_sum_case) (auto intro: valid_ret)
qed

subsection \<open>The handlers\<close>

lemma load_valid:
  assumes io: "\<And>w os. P w \<Longrightarrow> P (w\<lparr>io_script := os\<rparr>)"
    and err: "\<And>st code msg w. st \<noteq> 200 \<Longrightarrow> P w \<Longrightarrow> Q (uerr st code msg) w"
    and k: "\<And>i s. ident = Some i \<Longrightarrow> uuid_parse path = Some (ss_ID s) \<Longrightarrow>
      valid (\<lambda>w. P w \<and> s \<in> set (u_sessions w) \<and> ss_WorkspaceID s = ui_WorkspaceID i) (k i s) Q"
  shows "valid P (loadOwnedSession uuid_parse ident path k) Q"
proof -
  have get: "valid P (GetSession sid) (\<lambda>r w. P w \<and> (\<forall>s. r = Inr s \<longrightarrow> s \<in> set (u_sessions w) \<and> ss_ID s = sid))" for sid
    unfolding GetSession_def
    by (rule valid_with_io [of P _ "\<lambda>r w. P w \<and> (\<forall>s. r = Inr s \<longrightarrow> s \<in> set (u_sessions w) \<and> ss_ID s = sid)"])
      (auto simp: valid_def io split: option.splits dest: find_mem)
  have rest: "valid (\<lambda>w. P w \<and> (\<forall>s. r = Inr s \<longrightarrow> s \<in> set (u_sessions w) \<and> ss_ID s = sid))
      (case r of Inl ErrNotFound \<Rightarrow> ret (uerr 404 c1 m1) | Inl _ \<Rightarrow> ret (uerr 500 c2 m2)
       | Inr s \<Rightarrow> if ss_WorkspaceID s \<noteq> ui_WorkspaceID i then ret (uerr 404 c1 m1) else k i s) Q"
    if "ident = Some i" "uuid_parse path = Some sid" for r i sid c1 m1 c2 m2
  proof (cases r)
    case (Inl e)
    then show ?thesis by (cases e) (auto intro!: valid_ret err)
  next
    case (Inr s)
    show ?thesis
    proof (cases "ss_ID s = sid \<and> ss_WorkspaceID s = ui_WorkspaceID i")
      case True
      then show ?thesis using Inr that by (auto intro: valid_pre [OF k [of i s]])
    next
      case False
      then show ?thesis using Inr by (auto simp: valid_def ret_def err)
    qed
  qed
  show ?thesis
    unfolding loadOwnedSession_def
    by (intro valid_option_case valid_and_then [OF get] valid_ret rest err) auto
qed

lemma load_J:
  assumes "\<And>i s. valid (\<lambda>w. J w \<and> s \<in> set (u_sessions w) \<and> ss_WorkspaceID s = ui_WorkspaceID i) (k i s) (\<lambda>_. J)"
  shows "valid J (loadOwnedSession uuid_parse ident path k) (\<lambda>_. J)"
  by (rule load_valid) (use assms in auto)

lemma get_J: "valid J (handleGet uuid_parse ident path) (\<lambda>_. J)"
proof -
  have "valid J (GetChunks sid) (\<lambda>_. J)" for sid
    unfolding GetChunks_def by (rule valid_with_io [of J _ "\<lambda>_. J"]) (auto simp: valid_def)
  then show ?thesis
    unfolding handleGet_def
    by (intro load_J valid_pre [OF valid_and_then [of J _ "\<lambda>_. J"]] valid_sum_case) (auto intro: valid_ret)
qed

lemma abort_J: "valid J (s3op (AbortMultipart (sv_blobs sv) k u)) (\<lambda>_. J)"
  by (rule valid_s3op) (use blob_abort J_parts_le in blast)

lemma cancel_state_J: "valid J (SetSessionState i SessionCancelled) (\<lambda>_. J)"
  using set_state_J [of J "\<lambda>_. True" i SessionCancelled] by (simp add: session_landed_def)

lemma rollback_J: "valid J (rollback sv sid s3id) (\<lambda>_. J)"
  unfolding rollback_def
  by (intro valid_and_then [OF cancel_state_J] valid_sum_case valid_and_then [OF abort_J] valid_ret) auto

lemma new_session_shape:
  assumes v: "validateCreate req (sv_maxObjectBytes sv) = None"
    and chk: "session_checks (new_session i req (sv_chunkSize sv) sid s3id) ss"
  shows "session_shape (new_session i req (sv_chunkSize sv) sid s3id)"
proof -
  have mime: "mimePattern (cq_Mime req)" using v by (auto simp: validateCreate_def split: if_splits)
  have sz: "0 < cq_SizeBytes req" "in_i64 (cq_SizeBytes req)"
    using v max_object by (auto simp: validateCreate_def in_i64_def split: if_splits)
  then show ?thesis
    using chunk_count_exact [OF sz chunk_size] chk chunk_size mime
    by (simp add: session_shape_def new_session_def session_checks_def)
qed

lemma open_session_J:
  assumes "validateCreate req (sv_maxObjectBytes sv) = None"
  shows "valid J (open_session sv i req sid s3id) (\<lambda>_. J)"
proof -
  let ?s = "new_session i req (sv_chunkSize sv) sid s3id"
  have "valid J (CreateSession ?s) (\<lambda>_. J)"
    unfolding CreateSession_def
  proof (rule valid_with_io [of J _ "\<lambda>_. J"])
    show "valid J (\<lambda>w. if session_checks ?s (u_sessions w)
      then (Inr (), w\<lparr>u_sessions := u_sessions w @ [?s],
                     u_chunks := u_chunks w @ map (pending_chunk (ss_ID ?s)) [0..ss_ChunkCount ?s - 1]\<rparr>)
      else (Inl ErrIO, w)) (\<lambda>_. J)"
      using new_session_shape [OF assms]
      by (auto simp: valid_def up_inv_def new_session_def intro!: core_inv_new_session [of _ _ _ _ _ _ ?s, simplified new_session_def, simplified])
  qed auto
  moreover have "valid J (publishMetering sv i kind bytes job) (\<lambda>_. J)" for kind bytes job
    using metering_J [of "\<lambda>_ _. True"] by simp
  ultimately show ?thesis
    unfolding open_session_def Let_def
    by (intro valid_and_then [of J _ "\<lambda>_. J"] valid_sum_case abort_J rollback_J valid_ret)
qed

lemma create_J: "valid J (handleCreate sv ident body) (\<lambda>_. J)"
proof -
  have quota: "valid J (sv_quota sv ws n) (\<lambda>_. J)" for ws n
    unfolding valid_def using quota_reads up_inv_view by metis
  have ids: "valid J new_id (\<lambda>_. J)" by (rule valid_new_id) auto
  have crt: "valid J (s3op (CreateMultipart (sv_blobs sv) k m)) (\<lambda>_. J)" for k m
    by (rule valid_s3op) (use blob_create J_parts_le in blast)
  show ?thesis
    unfolding handleCreate_def
    by (intro valid_option_case valid_sum_case valid_if valid_and_then [OF quota] valid_and_then [OF ids]
        valid_and_then [OF crt] open_session_J valid_ret)
qed

text \<open>A claimed chunk is not done.\<close>

lemma claim_J:
  "valid (\<lambda>w. J w \<and> s \<in> set (u_sessions w)) (ClaimChunk (ss_ID s) n)
     (\<lambda>r w. J w \<and> s \<in> set (u_sessions w) \<and>
        (r = Inr ClaimAcquired \<longrightarrow> (\<forall>c \<in> set (u_chunks w). chunk_at (ss_ID s) n c \<longrightarrow> ck_State c \<noteq> ChunkDone)))"
proof -
  let ?P = "\<lambda>w. J w \<and> s \<in> set (u_sessions w)"
  let ?open = "\<lambda>c. chunk_at (ss_ID s) n c \<and> ck_State c \<noteq> ChunkDone" and ?f = "\<lambda>c. c\<lparr>ck_State := ChunkInflight\<rparr>"
  let ?free = "\<lambda>w. \<forall>c \<in> set (u_chunks w). chunk_at (ss_ID s) n c \<longrightarrow> ck_State c \<noteq> ChunkDone"
  have j: "valid ?P (exec_chunks ?open ?f) (\<lambda>_. J)"
    by (rule exec_chunks_J) (auto simp: done_ok_def)
  have fr: "valid ?P (exec_chunks ?open ?f) (\<lambda>r w. s \<in> set (u_sessions w) \<and> (r = Inr 1 \<longrightarrow> ?free w))"
    unfolding exec_chunks_def
  proof (rule valid_with_io)
    show "valid ?P (\<lambda>w. (Inr (rows_affected ?open (u_chunks w)), w\<lparr>u_chunks := update_where ?open ?f (u_chunks w)\<rparr>))
       (\<lambda>r w. s \<in> set (u_sessions w) \<and> (r = Inr 1 \<longrightarrow> ?free w))"
    proof (rule validI)
      fix w r w'
      assume p: "?P w" and e: "(Inr (rows_affected ?open (u_chunks w)), w\<lparr>u_chunks := update_where ?open ?f (u_chunks w)\<rparr>) = (r, w')"
      have "?free w'" if one: "rows_affected ?open (u_chunks w) = 1"
      proof -
        have "filter ?open (u_chunks w) \<noteq> []" using one by (auto simp: rows_affected_def)
        then obtain c0 where c0: "c0 \<in> set (u_chunks w)" "?open c0" by (auto simp: filter_empty_conv)
        have "?open c" if "c \<in> set (u_chunks w)" "chunk_at (ss_ID s) n c" for c
          using inv_chunk_unique [of sha obj part w s c n c0] p that c0 by simp
        then show ?thesis using e by (auto simp: set_update_where)
      qed
      then show "s \<in> set (u_sessions w') \<and> (r = Inr 1 \<longrightarrow> ?free w')" using p e by auto
    qed
  qed auto
  have look: "valid (\<lambda>w. J w \<and> s \<in> set (u_sessions w) \<and> (r = Inr 1 \<longrightarrow> ?free w))
      (case r of Inl e \<Rightarrow> ret (Inl e)
       | Inr k \<Rightarrow> if k = 1 then ret (Inr ClaimAcquired)
           else with_io (\<lambda>w. (case List.find (chunk_at (ss_ID s) n) (u_chunks w) of
                 None \<Rightarrow> Inl ErrNotFound
               | Some c \<Rightarrow> if ck_State c = ChunkDone then Inr ClaimAlreadyDone else Inl ErrConflict, w)))
      (\<lambda>r w. J w \<and> s \<in> set (u_sessions w) \<and> (r = Inr ClaimAcquired \<longrightarrow> ?free w))" for r
    by (intro valid_sum_case valid_if valid_ret valid_with_io [of _ _ "\<lambda>r w. J w \<and> s \<in> set (u_sessions w) \<and> r \<noteq> Inr ClaimAcquired"])
      (auto simp: valid_def split: option.splits)
  show ?thesis
    unfolding ClaimChunk_def
    by (rule valid_and_then [OF valid_conj [OF j fr]]) (rule look)
qed

lemma upload_part_J:
  assumes "0 \<le> n" "n < ss_ChunkCount s"
  defines "free \<equiv> \<lambda>w. \<forall>c \<in> set (u_chunks w). chunk_at (ss_ID s) n c \<longrightarrow> ck_State c \<noteq> ChunkDone"
  shows "valid (\<lambda>w. J w \<and> s \<in> set (u_sessions w) \<and> free w)
    (s3op (UploadPart (sv_blobs sv) (ss_StagingKey s) (ss_S3UploadID s) (wrap32 (n + 1)) body))
    (\<lambda>r w. J w \<and> s \<in> set (u_sessions w) \<and> free w \<and>
       (\<forall>e. r = Inr e \<longrightarrow> part (u_s3 w) (ss_StagingKey s) (ss_S3UploadID s) (n + 1) = Some (e, body)))"
proof (rule valid_s3op)
  fix w r b
  assume p: "J w \<and> s \<in> set (u_sessions w) \<and> free w"
    and run: "UploadPart (sv_blobs sv) (ss_StagingKey s) (ss_S3UploadID s) (wrap32 (n + 1)) body (u_s3 w) = (r, b)"
  have "ss_ChunkCount s < 2 ^ 31" using p inv_session by blast
  then have n: "wrap32 (n + 1) = n + 1" using assms(1,2) by (simp add: wrap32_def mod_pos_pos_trivial)
  note law = blob_part [OF run, unfolded n]
  have "chunks_ok sha (part b) (u_sessions w) (u_chunks w)"
    unfolding chunks_ok_def
  proof (intro ballI impI)
    fix t c assume t: "t \<in> set (u_sessions w)" "c \<in> set (u_chunks w)" "ck_Session c = ss_ID t"
    have old: "done_ok sha (part (u_s3 w)) t c" using p t by (simp add: up_inv_def core_inv_def chunks_ok_def)
    show "done_ok sha (part b) t c"
    proof (cases "ck_State c = ChunkDone")
      case True
      have "(ss_StagingKey t, ss_S3UploadID t, ck_Index c + 1) \<noteq> (ss_StagingKey s, ss_S3UploadID s, n + 1)"
      proof
        assume e: "(ss_StagingKey t, ss_S3UploadID t, ck_Index c + 1) = (ss_StagingKey s, ss_S3UploadID s, n + 1)"
        then have "ss_ID t = ss_ID s" using p t inv_session by (metis Pair_inject staging_key_inject)
        then have "chunk_at (ss_ID s) n c" using e t by (simp add: chunk_at_def)
        then show False using p t True by (auto simp: free_def)
      qed
      then show ?thesis using old law by (simp add: done_ok_def others_part_def)
    qed (simp add: done_ok_def)
  qed
  then have "J (w\<lparr>u_s3 := b\<rparr>)"
    by (rule J_s3 [rotated 2]) (use p law in \<open>auto simp: objs_step_def\<close>)
  then show "J (w\<lparr>u_s3 := b\<rparr>) \<and> s \<in> set (u_sessions (w\<lparr>u_s3 := b\<rparr>)) \<and> free (w\<lparr>u_s3 := b\<rparr>) \<and>
      (\<forall>e. r = Inr e \<longrightarrow> part (u_s3 (w\<lparr>u_s3 := b\<rparr>)) (ss_StagingKey s) (ss_S3UploadID s) (n + 1) = Some (e, body))"
    using p law by (simp add: free_def)
qed

lemma mark_done_J:
  "valid (\<lambda>w. J w \<and> s \<in> set (u_sessions w) \<and>
      (\<forall>c \<in> set (u_chunks w). chunk_at (ss_ID s) n c \<longrightarrow> ck_State c \<noteq> ChunkDone) \<and>
      part (u_s3 w) (ss_StagingKey s) (ss_S3UploadID s) (n + 1) = Some (e, body) \<and>
      int (length body) = expected_size s n)
    (MarkChunkDone (ss_ID s) n (sha body) e (expected_size s n)) (\<lambda>_. J)"
  unfolding MarkChunkDone_def
proof (rule valid_and_then [of _ _ "\<lambda>_. J"])
  show "valid (\<lambda>w. J w \<and> s \<in> set (u_sessions w) \<and>
      (\<forall>c \<in> set (u_chunks w). chunk_at (ss_ID s) n c \<longrightarrow> ck_State c \<noteq> ChunkDone) \<and>
      part (u_s3 w) (ss_StagingKey s) (ss_S3UploadID s) (n + 1) = Some (e, body) \<and>
      int (length body) = expected_size s n)
    (exec_chunks (chunk_at (ss_ID s) n)
       (\<lambda>c. c\<lparr>ck_State := ChunkDone, ck_SHA256 := sha body, ck_ETag := e, ck_SizeBytes := expected_size s n\<rparr>)) (\<lambda>_. J)"
  proof (rule exec_chunks_J)
    fix w c t
    assume p: "J w \<and> s \<in> set (u_sessions w) \<and>
      (\<forall>c \<in> set (u_chunks w). chunk_at (ss_ID s) n c \<longrightarrow> ck_State c \<noteq> ChunkDone) \<and>
      part (u_s3 w) (ss_StagingKey s) (ss_S3UploadID s) (n + 1) = Some (e, body) \<and>
      int (length body) = expected_size s n"
      and c: "chunk_at (ss_ID s) n c" and t: "t \<in> set (u_sessions w)" "ck_Session c = ss_ID t"
    have "t = s" using inv_session_unique p t c by (auto simp: chunk_at_def)
    then show "done_ok sha (part (u_s3 w)) t
       (c\<lparr>ck_State := ChunkDone, ck_SHA256 := sha body, ck_ETag := e, ck_SizeBytes := expected_size s n\<rparr>)"
      using p c by (simp add: done_ok_def verified_def chunk_at_def)
  qed auto
qed (auto intro: valid_ret)

lemma store_chunk_J:
  assumes n: "0 \<le> n" "n < ss_ChunkCount s"
  shows "valid (\<lambda>w. J w \<and> s \<in> set (u_sessions w)) (store_chunk sv sha s n want (expected_size s n) q) (\<lambda>_. J)"
proof -
  let ?free = "\<lambda>w. \<forall>c \<in> set (u_chunks w). chunk_at (ss_ID s) n c \<longrightarrow> ck_State c \<noteq> ChunkDone"
  let ?Q = "\<lambda>w. J w \<and> s \<in> set (u_sessions w) \<and> ?free w"
  have rs: "valid J (reset_session i) (\<lambda>_. J)" for i by (simp add: valid_def reset_session_def)
  have rt: "valid ?Q (retry_chunk (ss_ID s) n resp) (\<lambda>_. J)" for resp
    by (rule valid_pre [OF retry_J]) simp
  have fin: "valid J (case r of Inl _ \<Rightarrow> ret x | Inr _ \<Rightarrow> and_then (reset_session (ss_ID s)) (\<lambda>_. ret y)) (\<lambda>_. J)"
    for r :: "store_err + unit" and x y :: up_resp
    by (intro valid_sum_case valid_and_then [OF rs] valid_ret)
  have put: "valid ?Q (and_then (s3op (UploadPart (sv_blobs sv) (ss_StagingKey s) (ss_S3UploadID s) (wrap32 (n + 1)) body))
      (\<lambda>r. case r of Inl _ \<Rightarrow> retry_chunk (ss_ID s) n z
       | Inr etag \<Rightarrow> and_then (MarkChunkDone (ss_ID s) n (sha body) etag (expected_size s n))
           (\<lambda>r. case r of Inl _ \<Rightarrow> ret x | Inr _ \<Rightarrow> and_then (reset_session (ss_ID s)) (\<lambda>_. ret y)))) (\<lambda>_. J)"
    if len: "int (length body) = expected_size s n" for body and x y z :: up_resp
  proof (rule valid_and_then [OF upload_part_J [OF n]], rule valid_sum_case)
    fix r :: "s3_err + string" and e
    assume "r = Inr e"
    then show "valid (\<lambda>w. J w \<and> s \<in> set (u_sessions w) \<and> ?free w \<and>
        (\<forall>e. r = Inr e \<longrightarrow> part (u_s3 w) (ss_StagingKey s) (ss_S3UploadID s) (n + 1) = Some (e, body)))
      (and_then (MarkChunkDone (ss_ID s) n (sha body) e (expected_size s n))
         (\<lambda>r. case r of Inl _ \<Rightarrow> ret x | Inr _ \<Rightarrow> and_then (reset_session (ss_ID s)) (\<lambda>_. ret y))) (\<lambda>_. J)"
      using len by (intro valid_pre [OF valid_and_then [OF mark_done_J [of s n e body] fin]]) simp
  qed (auto intro: valid_pre [OF rt])
  show ?thesis
    unfolding store_chunk_def
  proof (rule valid_and_then [OF claim_J], goal_cases)
    case (1 r)
    then show ?case
    proof (cases r)
      case (Inl e)
      then show ?thesis by (auto intro: valid_ret)
    next
      case (Inr x)
      show ?thesis
      proof (cases x)
        case ClaimAlreadyDone
        then show ?thesis using Inr by (auto intro: valid_ret)
      next
        case ClaimAcquired
        show ?thesis
          unfolding Inr ClaimAcquired sum.case ClaimResult.case Let_def simp_thms
          by (intro valid_if rt put) simp
      qed
    qed
  qed
qed

lemma put_chunk_J: "valid J (handlePutChunk sv sha uuid_parse ident path q) (\<lambda>_. J)"
proof -
  have acq: "valid (\<lambda>w. J w \<and> s \<in> set (u_sessions w)) (acquire k) (\<lambda>_ w. J w \<and> s \<in> set (u_sessions w))" for k s
    by (simp add: valid_def acquire_def split: prod.splits)
  have den: "valid (\<lambda>w. J w \<and> s \<in> set (u_sessions w)) (deny_session i) (\<lambda>_. J)" for i s
    by (simp add: valid_def deny_session_def split: prod.splits)
  have rel: "valid J (release_bytes k) (\<lambda>_. J)" for k
    by (simp add: valid_def release_bytes_def)
  show ?thesis
    unfolding handlePutChunk_def Let_def
  proof (rule load_J, goal_cases)
    case (1 i s)
    show ?case
      by (rule valid_pre [of "\<lambda>w. J w \<and> s \<in> set (u_sessions w)"],
          intro valid_option_case valid_if valid_and_then [OF acq] valid_and_then [OF den]
            valid_and_then [OF store_chunk_J] valid_and_then [OF rel] valid_ret) auto
  qed
qed

subsection \<open>Assembly\<close>

text \<open>The content that \<open>assemble\<close> hashes is built from the verified chunks.\<close>

lemma complete_multipart_J:
  "valid (\<lambda>w. J w \<and> s \<in> set (u_sessions w) \<and> u_chunks w = C \<and>
       list_all (\<lambda>c. ck_State c = ChunkDone) (chunks_of (ss_ID s) C))
     (s3op (CompleteMultipart (sv_blobs sv) (ss_StagingKey s) (ss_S3UploadID s) (map part_of (chunks_of (ss_ID s) C))))
     (\<lambda>_ w. J w \<and> s \<in> set (u_sessions w) \<and> u_chunks w = C)"
proof (rule valid_s3op)
  fix w r b
  assume p: "J w \<and> s \<in> set (u_sessions w) \<and> u_chunks w = C \<and>
      list_all (\<lambda>c. ck_State c = ChunkDone) (chunks_of (ss_ID s) C)"
    and run: "CompleteMultipart (sv_blobs sv) (ss_StagingKey s) (ss_S3UploadID s)
      (map part_of (chunks_of (ss_ID s) C)) (u_s3 w) = (r, b)"
  have k: "ss_StagingKey s = staging_key (ss_ID s)" using p inv_session by blast
  have srt: "sort_key cp_PartNumber (map part_of (chunks_of (ss_ID s) C)) = map part_of (chunks_of (ss_ID s) C)"
    using p parts_sorted by blast
  note law = blob_complete [OF run, unfolded srt]
  have "J (w\<lparr>u_s3 := b\<rparr>)"
  proof (rule J_staging)
    show "J w" "others_same obj (staging_key (ss_ID s)) (u_s3 w) b" "parts_le part (u_s3 w) b"
      using p law k by auto
    fix x assume x: "obj b (staging_key (ss_ID s)) = Some x"
    then consider "obj (u_s3 w) (staging_key (ss_ID s)) = Some x"
      | "assembled part (u_s3 w) (ss_StagingKey s) (ss_S3UploadID s) (map part_of (chunks_of (ss_ID s) (u_chunks w))) x"
      using law k p by auto
    then have "built sha (chunks_of (ss_ID s) (u_chunks w)) x"
    proof cases
      case 1
      then show ?thesis using p inv_staging by blast
    next
      case 2
      then show ?thesis using p assembled_built by blast
    qed
    then show "ss_ID s \<in> ss_ID ` set (u_sessions w) \<and> built sha (chunks_of (ss_ID s) (u_chunks w)) x" using p by simp
  qed
  then show "J (w\<lparr>u_s3 := b\<rparr>) \<and> s \<in> set (u_sessions (w\<lparr>u_s3 := b\<rparr>)) \<and> u_chunks (w\<lparr>u_s3 := b\<rparr>) = C"
    using p by simp
qed

text \<open>
  What \<open>assemble\<close> promises of the session it returns: its object is in the bucket under the key of
  its digest, it is built from the chunks, and its row may be completed.
\<close>

abbreviation lands :: "Session \<Rightarrow> Chunk list \<Rightarrow> 'b \<Rightarrow> Session \<Rightarrow> bool" where
  "lands s C b t \<equiv>
     (\<exists>x d. t = s\<lparr>ss_State := SessionAssembled, ss_SHA256 := d, ss_ObjectKey := asset_path (ss_WorkspaceID s) d\<rparr> \<and>
        d = sha x \<and> obj b (asset_path (ss_WorkspaceID s) d) = Some x \<and>
        built sha (chunks_of (ss_ID s) C) x \<and> int (length x) = ss_SizeBytes s)"

lemma copy_J:
  assumes "int (length x) = ss_SizeBytes s"
  shows "valid (\<lambda>w. J w \<and> s \<in> set (u_sessions w) \<and> obj (u_s3 w) (ss_StagingKey s) = Some x \<and> u_chunks w = C)
    (s3op (CopyBlob (sv_blobs sv) (ss_StagingKey s) (asset_path (ss_WorkspaceID s) (sha x)) (ss_SizeBytes s)))
    (\<lambda>r w. J w \<and> s \<in> set (u_sessions w) \<and> u_chunks w = C \<and> built sha (chunks_of (ss_ID s) C) x \<and>
       (r = Inr () \<longrightarrow> obj (u_s3 w) (asset_path (ss_WorkspaceID s) (sha x)) = Some x))"
proof (rule valid_s3op)
  fix w r b
  let ?k = "asset_path (ss_WorkspaceID s) (sha x)"
  assume p: "J w \<and> s \<in> set (u_sessions w) \<and> obj (u_s3 w) (ss_StagingKey s) = Some x \<and> u_chunks w = C"
    and run: "CopyBlob (sv_blobs sv) (ss_StagingKey s) ?k (ss_SizeBytes s) (u_s3 w) = (r, b)"
  have st: "ss_StagingKey t = staging_key (ss_ID t)" if "t \<in> set (u_sessions w)" for t
    using p that inv_session by blast
  have law: "others_same obj ?k (u_s3 w) b \<and>
      (\<forall>k' u n y. k' \<noteq> ?k \<longrightarrow> part b k' u n = Some y \<longrightarrow> part (u_s3 w) k' u n = Some y) \<and>
      (obj b ?k = obj (u_s3 w) ?k \<and> r \<noteq> Inr () \<or> obj b ?k = Some x)"
    by (rule blob_copy [OF run]) (use p assms st in auto)
  have "J (w\<lparr>u_s3 := b\<rparr>)"
  proof (rule J_s3)
    show "objs_step sha (u_sessions w) (u_chunks w) (obj (u_s3 w)) (obj b)"
      unfolding objs_step_def
    proof
      fix k
      show "obj b k = obj (u_s3 w) k \<or>
        (\<exists>i. k = staging_key i \<and> (\<forall>x. obj b k = Some x \<longrightarrow> i \<in> ss_ID ` set (u_sessions w) \<and> built sha (chunks_of i (u_chunks w)) x)) \<or>
        (\<exists>ws x. k = asset_path ws (sha x) \<and> obj b k = Some x)"
        using law by (cases "k = ?k") (auto simp: others_same_def)
    qed
    show "chunks_ok sha (part b) (u_sessions w) (u_chunks w)"
      by (rule chunks_ok_le) (use p law st in auto)
  qed (use p in simp)
  moreover have "built sha (chunks_of (ss_ID s) C) x" using p st inv_staging by metis
  ultimately show "J (w\<lparr>u_s3 := b\<rparr>) \<and> s \<in> set (u_sessions (w\<lparr>u_s3 := b\<rparr>)) \<and> u_chunks (w\<lparr>u_s3 := b\<rparr>) = C \<and>
      built sha (chunks_of (ss_ID s) C) x \<and> (r = Inr () \<longrightarrow> obj (u_s3 (w\<lparr>u_s3 := b\<rparr>)) ?k = Some x)"
    using p law by auto
qed

lemma delete_staging_J:
  "valid (\<lambda>w. J w \<and> s \<in> set (u_sessions w) \<and> F (\<lambda>k. obj (u_s3 w) (asset_path (ss_WorkspaceID s) k)))
     (s3op (DeleteBlob (sv_blobs sv) (ss_StagingKey s)))
     (\<lambda>_ w. J w \<and> s \<in> set (u_sessions w) \<and> F (\<lambda>k. obj (u_s3 w) (asset_path (ss_WorkspaceID s) k)))"
proof (rule valid_s3op)
  fix w r b
  assume p: "J w \<and> s \<in> set (u_sessions w) \<and> F (\<lambda>k. obj (u_s3 w) (asset_path (ss_WorkspaceID s) k))"
    and run: "DeleteBlob (sv_blobs sv) (ss_StagingKey s) (u_s3 w) = (r, b)"
  have k: "ss_StagingKey s = staging_key (ss_ID s)" using p inv_session by blast
  note law = blob_delete [OF run]
  have "J (w\<lparr>u_s3 := b\<rparr>)"
  proof (rule J_staging)
    show "J w" "others_same obj (staging_key (ss_ID s)) (u_s3 w) b" "parts_le part (u_s3 w) b"
      using p law k by (auto simp: parts_le_def)
    fix x assume "obj b (staging_key (ss_ID s)) = Some x"
    then have "obj (u_s3 w) (staging_key (ss_ID s)) = Some x" using law k by auto
    then show "ss_ID s \<in> ss_ID ` set (u_sessions w) \<and> built sha (chunks_of (ss_ID s) (u_chunks w)) x"
      using p inv_staging by auto
  qed
  moreover have "(\<lambda>k. obj b (asset_path (ss_WorkspaceID s) k)) = (\<lambda>k. obj (u_s3 w) (asset_path (ss_WorkspaceID s) k))"
    using law k by (auto simp: others_same_def)
  ultimately show "J (w\<lparr>u_s3 := b\<rparr>) \<and> s \<in> set (u_sessions (w\<lparr>u_s3 := b\<rparr>)) \<and>
      F (\<lambda>k. obj (u_s3 (w\<lparr>u_s3 := b\<rparr>)) (asset_path (ss_WorkspaceID s) k))"
    using p by simp
qed

lemma set_assembled_J:
  "valid (\<lambda>w. J w \<and> s \<in> set (u_sessions w) \<and> F (u_s3 w) \<and>
       landed_at (obj (u_s3 w)) (ss_WorkspaceID s) d k)
     (SetSessionAssembled (ss_ID s) d k)
     (\<lambda>r w. (J w \<and> F (u_s3 w)) \<and>
        (r = Inr () \<longrightarrow> (\<forall>t \<in> set (u_sessions w). ss_ID t = ss_ID s \<longrightarrow> ss_State t = SessionAssembled)))"
proof -
  let ?P = "\<lambda>w. J w \<and> s \<in> set (u_sessions w) \<and> F (u_s3 w) \<and> landed_at (obj (u_s3 w)) (ss_WorkspaceID s) d k"
  let ?g = "\<lambda>t. t\<lparr>ss_State := SessionAssembled, ss_SHA256 := d, ss_ObjectKey := k\<rparr>"
  have one: "valid ?P (exec_sessions (\<lambda>t. ss_ID t = ss_ID s) ?g) (\<lambda>_ w. J w \<and> F (u_s3 w))"
  proof (rule exec_sessions_J)
    fix w t assume p: "?P w" and "t \<in> set (u_sessions w)" "ss_ID t = ss_ID s"
    then have "t = s" using inv_session_unique by blast
    then show "session_landed (obj (u_s3 w)) (?g t)" using p by (simp add: session_landed_def)
  qed auto
  have two: "valid ?P (exec_sessions (\<lambda>t. ss_ID t = ss_ID s) ?g)
      (\<lambda>r w. \<forall>n. r = Inr n \<longrightarrow> (\<forall>t \<in> set (u_sessions w). ss_ID t = ss_ID s \<longrightarrow> ss_State t = SessionAssembled))"
    unfolding exec_sessions_def
    by (rule valid_with_io [of _ _ "\<lambda>r w. \<forall>t \<in> set (u_sessions w). ss_ID t = ss_ID s \<longrightarrow> ss_State t = SessionAssembled"])
      (auto simp: valid_def set_update_where)
  show ?thesis
    unfolding SetSessionAssembled_def
    by (rule valid_and_then [OF valid_conj [OF one two]])
      (auto simp: one_row_def valid_def ret_def split: sum.splits if_splits)
qed

lemma land_J:
  assumes "int (length x) = ss_SizeBytes s"
  shows "valid (\<lambda>w. J w \<and> s \<in> set (u_sessions w) \<and> obj (u_s3 w) (ss_StagingKey s) = Some x \<and> u_chunks w = C)
    (land sv sha s x)
    (\<lambda>r w. J w \<and> (\<forall>t. r = Some t \<longrightarrow> lands s C (u_s3 w) t \<and>
       (\<forall>t' \<in> set (u_sessions w). ss_ID t' = ss_ID t \<longrightarrow> ss_State t' = SessionAssembled)))"
proof -
  let ?d = "sha x" let ?k = "asset_path (ss_WorkspaceID s) ?d"
  let ?F = "\<lambda>o1. o1 ?d = Some x \<and> built sha (chunks_of (ss_ID s) C) x"
  let ?G = "\<lambda>b. obj b ?k = Some x \<and> built sha (chunks_of (ss_ID s) C) x"
  have fin: "valid (\<lambda>w. J w \<and> s \<in> set (u_sessions w) \<and> ?F (\<lambda>k. obj (u_s3 w) (asset_path (ss_WorkspaceID s) k)))
      (and_then (SetSessionAssembled (ss_ID s) ?d ?k) (\<lambda>r. case r of
         Inl _ \<Rightarrow> ret None
       | Inr _ \<Rightarrow> ret (Some (s\<lparr>ss_State := SessionAssembled, ss_SHA256 := ?d, ss_ObjectKey := ?k\<rparr>))))
      (\<lambda>r w. J w \<and> (\<forall>t. r = Some t \<longrightarrow> lands s C (u_s3 w) t \<and>
         (\<forall>t' \<in> set (u_sessions w). ss_ID t' = ss_ID t \<longrightarrow> ss_State t' = SessionAssembled)))"
  proof (rule valid_pre [OF valid_and_then [OF set_assembled_J [of s ?G ?d ?k]]])
    fix r :: "store_err + unit"
    show "valid (\<lambda>w. (J w \<and> ?G (u_s3 w)) \<and>
        (r = Inr () \<longrightarrow> (\<forall>t \<in> set (u_sessions w). ss_ID t = ss_ID s \<longrightarrow> ss_State t = SessionAssembled)))
      (case r of Inl _ \<Rightarrow> ret None
       | Inr _ \<Rightarrow> ret (Some (s\<lparr>ss_State := SessionAssembled, ss_SHA256 := ?d, ss_ObjectKey := ?k\<rparr>)))
      (\<lambda>r w. J w \<and> (\<forall>t. r = Some t \<longrightarrow> lands s C (u_s3 w) t \<and>
         (\<forall>t' \<in> set (u_sessions w). ss_ID t' = ss_ID t \<longrightarrow> ss_State t' = SessionAssembled)))"
      using assms by (cases r) (auto simp: valid_def ret_def)
  qed (auto simp: landed_at_def digest)
  have del: "valid (\<lambda>w. J w \<and> s \<in> set (u_sessions w) \<and> ?F (\<lambda>k. obj (u_s3 w) (asset_path (ss_WorkspaceID s) k)))
      (and_then (s3op (DeleteBlob (sv_blobs sv) (ss_StagingKey s))) (\<lambda>_.
        and_then (SetSessionAssembled (ss_ID s) ?d ?k) (\<lambda>r. case r of
         Inl _ \<Rightarrow> ret None
       | Inr _ \<Rightarrow> ret (Some (s\<lparr>ss_State := SessionAssembled, ss_SHA256 := ?d, ss_ObjectKey := ?k\<rparr>)))))
      (\<lambda>r w. J w \<and> (\<forall>t. r = Some t \<longrightarrow> lands s C (u_s3 w) t \<and>
         (\<forall>t' \<in> set (u_sessions w). ss_ID t' = ss_ID t \<longrightarrow> ss_State t' = SessionAssembled)))"
    by (rule valid_and_then [OF delete_staging_J [of s ?F]]) (rule fin)
  show ?thesis
    unfolding land_def Let_def
  proof (rule valid_and_then [OF copy_J [OF assms]], rule valid_sum_case)
    fix r :: "s3_err + unit" and u
    assume "r = Inr u"
    then show "valid (\<lambda>w. J w \<and> s \<in> set (u_sessions w) \<and> u_chunks w = C \<and> built sha (chunks_of (ss_ID s) C) x \<and>
         (r = Inr () \<longrightarrow> obj (u_s3 w) ?k = Some x))
      (and_then (s3op (DeleteBlob (sv_blobs sv) (ss_StagingKey s))) (\<lambda>_.
        and_then (SetSessionAssembled (ss_ID s) ?d ?k) (\<lambda>r. case r of
         Inl _ \<Rightarrow> ret None
       | Inr _ \<Rightarrow> ret (Some (s\<lparr>ss_State := SessionAssembled, ss_SHA256 := ?d, ss_ObjectKey := ?k\<rparr>)))))
      (\<lambda>r w. J w \<and> (\<forall>t. r = Some t \<longrightarrow> lands s C (u_s3 w) t \<and>
         (\<forall>t' \<in> set (u_sessions w). ss_ID t' = ss_ID t \<longrightarrow> ss_State t' = SessionAssembled)))"
      by (intro valid_pre [OF del]) auto
  qed (auto intro: valid_ret)
qed

lemma hash_J:
  "valid (\<lambda>w. J w \<and> s \<in> set (u_sessions w) \<and> u_chunks w = C) (hash_staging sv s (land sv sha s))
    (\<lambda>r w. J w \<and> (\<forall>t. r = Some t \<longrightarrow> lands s C (u_s3 w) t \<and>
       (\<forall>t' \<in> set (u_sessions w). ss_ID t' = ss_ID t \<longrightarrow> ss_State t' = SessionAssembled)))"
proof -
  have get: "valid (\<lambda>w. J w \<and> s \<in> set (u_sessions w) \<and> u_chunks w = C)
      (s3op (GetObject (sv_blobs sv) (ss_StagingKey s)))
      (\<lambda>r w. J w \<and> s \<in> set (u_sessions w) \<and> u_chunks w = C \<and>
         (\<forall>x. r = Inr (Some x) \<longrightarrow> obj (u_s3 w) (ss_StagingKey s) = Some x))"
    by (rule valid_s3op) (auto dest!: blob_get intro!: J_parts_le simp: parts_le_def)
  show ?thesis
    unfolding hash_staging_def
    by (rule valid_and_then [OF get], intro valid_sum_case valid_option_case valid_if valid_pre [OF land_J])
      (auto intro: valid_ret)
qed

lemma assemble_J:
  "valid (\<lambda>w. J w \<and> s \<in> set (u_sessions w) \<and> u_chunks w = C \<and>
       list_all (\<lambda>c. ck_State c = ChunkDone) (chunks_of (ss_ID s) C))
    (assemble sv sha s (map part_of (chunks_of (ss_ID s) C)))
    (\<lambda>r w. J w \<and> (\<forall>t. r = Some t \<longrightarrow> lands s C (u_s3 w) t \<and>
       (\<forall>t' \<in> set (u_sessions w). ss_ID t' = ss_ID t \<longrightarrow> ss_State t' = SessionAssembled)))"
proof -
  have head: "valid (\<lambda>w. J w \<and> s \<in> set (u_sessions w) \<and> u_chunks w = C)
      (s3op (HeadObject (sv_blobs sv) (ss_StagingKey s))) (\<lambda>_ w. J w \<and> s \<in> set (u_sessions w) \<and> u_chunks w = C)"
    by (rule valid_s3op) (auto dest!: blob_head intro!: J_parts_le simp: parts_le_def)
  have pair: "(case q of (a, b) \<Rightarrow> f a b) = f (fst q) (snd q)" for q :: "int \<times> bool" and f :: "int \<Rightarrow> bool \<Rightarrow> 'z"
    by (cases q) simp
  show ?thesis
    unfolding assemble_def pair
    by (rule valid_and_then [OF complete_multipart_J], intro valid_sum_case valid_and_then [OF head] valid_if hash_J)
      (auto intro: valid_ret)
qed

lemma announce_J:
  "valid (\<lambda>w. J w \<and> (\<forall>t \<in> set (u_sessions w). ss_ID t = ss_ID s \<longrightarrow> ss_State t = SessionAssembled) \<and>
       landed_at (obj (u_s3 w)) (ss_WorkspaceID s) (ss_SHA256 s) (ss_ObjectKey s) \<and> session_shape s \<and> F (u_s3 w))
     (announce_landed sv s)
     (\<lambda>r w. J w \<and> F (u_s3 w) \<and> (\<forall>t. r = (200, UComplete t) \<longrightarrow> t = s\<lparr>ss_State := SessionCompleted\<rparr>))"
proof -
  let ?row = "\<lambda>ss. \<forall>t \<in> set ss. ss_ID t = ss_ID s \<longrightarrow> ss_State t = SessionAssembled"
  let ?land = "\<lambda>b. landed_at (obj b) (ss_WorkspaceID s) (ss_SHA256 s) (ss_ObjectKey s)"
  let ?G = "\<lambda>ss b. ?row ss \<and> ?land b \<and> session_shape s \<and> F b"
  let ?P = "\<lambda>w. J w \<and> ?G (u_sessions w) (u_s3 w)"
  have pub: "valid ?P (\<lambda>w. publishJSON sv SubjectUploadLanded (EvLanded (landed_event s (clock w))) w) (\<lambda>_. ?P)"
  proof (rule validI)
    fix w r w'
    assume p: "?P w" and run: "publishJSON sv SubjectUploadLanded (EvLanded (landed_event s (clock w))) w = (r, w')"
    have "event_landed (obj (u_s3 w)) (EvLanded (landed_event s (clock w)))"
      using p by (simp add: event_landed_def landed_event_def session_shape_def)
    then show "?P w'"
      using validD [OF publish_loop_J [of "EvLanded (landed_event s (clock w))" ?G "sv_publishRetries sv" "Inr ()" SubjectUploadLanded], of w r w']
        p run unfolding publishJSON_def by blast
  qed
  have set: "valid ?P (SetSessionState (ss_ID s) SessionCompleted) (\<lambda>_ w. J w \<and> F (u_s3 w))"
  proof (rule set_state_J)
    fix w t assume p: "?P w" and t: "t \<in> set (u_sessions w)" "ss_ID t = ss_ID s"
    then have "ss_State t = SessionAssembled" "session_landed (obj (u_s3 w)) t"
      by (auto simp: up_inv_def core_inv_def)
    then show "session_landed (obj (u_s3 w)) (t\<lparr>ss_State := SessionCompleted\<rparr>)"
      by (simp add: session_landed_def)
  qed auto
  have met: "valid ?P (publishMetering sv i kind bytes job) (\<lambda>_. ?P)" for i kind bytes job
    using metering_J [of ?G i kind bytes job] by simp
  show ?thesis
    unfolding announce_landed_def
    by (intro valid_pre [OF valid_and_then [OF pub]] valid_sum_case)
      (auto intro!: valid_and_then [OF met] valid_and_then [OF set] valid_sum_case valid_ret)
qed

text \<open>A 200 for an active session is a landed object built from its chunks.\<close>

lemma complete_valid:
  "valid (\<lambda>w. J w \<and> u_chunks w = C \<and> u_sessions w = S) (handleComplete sv sha uuid_parse ident path)
     (\<lambda>r w. J w \<and> (\<forall>t s. r = (200, UComplete t) \<longrightarrow> s \<in> set S \<longrightarrow> uuid_parse path = Some (ss_ID s) \<longrightarrow>
        ss_State s = SessionActive \<longrightarrow> lands s C (u_s3 w) (t\<lparr>ss_State := SessionAssembled\<rparr>)))"
  unfolding handleComplete_def
proof (rule load_valid, goal_cases)
  case (3 i s)
  note path = 3
  let ?P = "\<lambda>w. J w \<and> u_chunks w = C \<and> u_sessions w = S \<and> s \<in> set S"
  let ?Q = "\<lambda>r w. J w \<and> (\<forall>t s. r = (200, UComplete t) \<longrightarrow> s \<in> set S \<longrightarrow> uuid_parse path = Some (ss_ID s) \<longrightarrow>
        ss_State s = SessionActive \<longrightarrow> lands s C (u_s3 w) (t\<lparr>ss_State := SessionAssembled\<rparr>))"
  have get: "valid ?P (GetChunks (ss_ID s)) (\<lambda>r w. ?P w \<and> (\<forall>cs. r = Inr cs \<longrightarrow> cs = chunks_of (ss_ID s) C))"
    unfolding GetChunks_def
    by (rule valid_with_io [of ?P _ "\<lambda>r w. ?P w \<and> (\<forall>cs. r = Inr cs \<longrightarrow> cs = chunks_of (ss_ID s) C)"]) (auto simp: valid_def)
  have body: "valid ?P (if ss_State s = SessionCancelled then ret (uerr 409 c1 m1)
      else if ss_State s = SessionCompleted then ret (200, UComplete s)
      else and_then (GetChunks (ss_ID s)) (\<lambda>r. case r of Inl _ \<Rightarrow> ret (uerr 500 c2 m2) | Inr cs \<Rightarrow> K cs)) ?Q"
    if K: "ss_State s \<noteq> SessionCancelled \<Longrightarrow> ss_State s \<noteq> SessionCompleted \<Longrightarrow> valid ?P (K (chunks_of (ss_ID s) C)) ?Q"
      and uniq: "\<And>s'. s' \<in> set S \<Longrightarrow> ss_ID s' = ss_ID s \<Longrightarrow> s' = s"
    for K c1 m1 c2 m2
  proof (intro valid_if valid_ret)
    show "?P w \<Longrightarrow> ?Q (200, UComplete s) w" if "ss_State s = SessionCompleted" for w
      using that uniq 3 by force
    show "valid ?P (and_then (GetChunks (ss_ID s)) (\<lambda>r. case r of Inl _ \<Rightarrow> ret (uerr 500 c2 m2) | Inr cs \<Rightarrow> K cs)) ?Q"
      if st: "ss_State s \<noteq> SessionCancelled" "ss_State s \<noteq> SessionCompleted"
    proof (rule valid_and_then [OF get], rule valid_sum_case)
      fix r :: "store_err + Chunk list" and cs
      assume r: "r = Inr cs"
      show "valid (\<lambda>w. ?P w \<and> (\<forall>cs. r = Inr cs \<longrightarrow> cs = chunks_of (ss_ID s) C)) (K cs) ?Q"
        by (cases "cs = chunks_of (ss_ID s) C") (use K [OF st] r in \<open>auto simp: valid_def\<close>)
    qed (auto intro: valid_ret)
  qed simp
  have ann: "valid (\<lambda>w. J w \<and> lands s C (u_s3 w) t \<and>
        (\<forall>t' \<in> set (u_sessions w). ss_ID t' = ss_ID t \<longrightarrow> ss_State t' = SessionAssembled)) (announce_landed sv t) ?Q"
    if uniq: "\<And>s'. s' \<in> set S \<Longrightarrow> ss_ID s' = ss_ID s \<Longrightarrow> s' = s"
      and shape: "session_shape s" for t
  proof (rule valid_weaken [OF announce_J [of t "\<lambda>b. lands s C b t"]])
    fix r w
    assume "J w \<and> lands s C (u_s3 w) t \<and> (\<forall>ta. r = (200, UComplete ta) \<longrightarrow> ta = t\<lparr>ss_State := SessionCompleted\<rparr>)"
    then show "?Q r w" using uniq 3 by force
  qed (use shape in \<open>auto simp: landed_at_def digest session_shape_def\<close>)
  show ?case
  proof (rule valid_assume, goal_cases)
    case p0: (1 w0)
    have shape: "session_shape s" using p0 inv_shape by blast
    have uniq: "s' = s" if "s' \<in> set S" "ss_ID s' = ss_ID s" for s'
      using p0 that inv_session_unique [of sha obj part w0 s s'] by blast
    show ?case
    proof (rule valid_pre [OF body [OF _ uniq]], goal_cases)
      case 1
      let ?cs = "chunks_of (ss_ID s) C"
      show ?case
        unfolding Let_def
      proof (intro valid_if valid_ret, goal_cases)
        case (2)
        then have all: "list_all (\<lambda>c. ck_State c = ChunkDone) ?cs"
          by (auto simp: filter_empty_conv list_all_iff)
        then have flt: "filter (\<lambda>c. ck_State c = ChunkDone) ?cs = ?cs" by (simp add: list_all_iff)
        show ?case
          unfolding flt
        proof (rule valid_and_then [OF valid_pre [OF assemble_J]], goal_cases)
          case (1 w)
          then show ?case using all by simp
        next
          case (2 r)
          show ?case
          proof (rule valid_option_case)
            fix t assume "r = Some t"
            then show "valid (\<lambda>w. J w \<and> (\<forall>t. r = Some t \<longrightarrow> lands s C (u_s3 w) t \<and>
                (\<forall>t' \<in> set (u_sessions w). ss_ID t' = ss_ID t \<longrightarrow> ss_State t' = SessionAssembled))) (announce_landed sv t) ?Q"
              by (intro valid_pre [OF ann [OF uniq shape]]) blast+
          qed (auto intro: valid_ret)
        qed
      next
        case 3
        then have st: "ss_State s = SessionAssembled" using 1 by (cases "ss_State s") auto
        show ?case
        proof (rule valid_weaken [OF announce_J [of s "\<lambda>_. True"]])
          fix w assume p: "?P w"
          then have "session_landed (obj (u_s3 w)) s" by (simp add: up_inv_def core_inv_def)
          then show "J w \<and> (\<forall>t \<in> set (u_sessions w). ss_ID t = ss_ID s \<longrightarrow> ss_State t = SessionAssembled) \<and>
              landed_at (obj (u_s3 w)) (ss_WorkspaceID s) (ss_SHA256 s) (ss_ObjectKey s) \<and> session_shape s \<and> True"
            using p st uniq inv_shape by (auto simp: session_landed_def)
        qed (use st uniq path in fastforce)
      qed auto
    qed auto
  qed
qed auto

lemma complete_J: "valid J (handleComplete sv sha uuid_parse ident path) (\<lambda>_. J)"
proof (rule validI)
  fix w r w' assume "J w" "handleComplete sv sha uuid_parse ident path w = (r, w')"
  then show "J w'" using validD [OF complete_valid [of "u_chunks w" "u_sessions w"], of w] by blast
qed

lemma cancel_J: "valid J (handleCancel sv uuid_parse ident path) (\<lambda>_. J)"
proof -
  have rc: "valid J (record_cancel s) (\<lambda>_. J)" for s
    unfolding record_cancel_def by (intro valid_and_then [OF cancel_state_J] valid_sum_case valid_ret)
  have ab: "valid (\<lambda>w. J w \<and> s \<in> set (u_sessions w)) (s3op (AbortMultipart (sv_blobs sv) k u)) (\<lambda>_ w. J w \<and> s \<in> set (u_sessions w))" for s k u
    by (rule valid_s3op) (auto dest!: blob_abort intro: J_parts_le)
  have hd: "valid (\<lambda>w. J w \<and> s \<in> set (u_sessions w)) (s3op (HeadObject (sv_blobs sv) k)) (\<lambda>_ w. J w \<and> s \<in> set (u_sessions w))" for s k
    by (rule valid_s3op) (auto dest!: blob_head intro!: J_parts_le simp: parts_le_def)
  have de: "valid (\<lambda>w. J w \<and> s \<in> set (u_sessions w)) (s3op (DeleteBlob (sv_blobs sv) (ss_StagingKey s))) (\<lambda>_. J)" for s
    by (rule valid_weaken [OF delete_staging_J [of s "\<lambda>_. True"]]) auto
  have rest: "valid (\<lambda>w. J w \<and> s \<in> set (u_sessions w))
      (case r of Inr (_, True) \<Rightarrow>
         and_then (s3op (DeleteBlob (sv_blobs sv) (ss_StagingKey s))) (\<lambda>r. case r of Inl _ \<Rightarrow> ret x | Inr _ \<Rightarrow> record_cancel s)
       | _ \<Rightarrow> record_cancel s) (\<lambda>_. J)" for r :: "s3_err + int \<times> bool" and s x
    by (auto split: sum.splits bool.splits intro!: valid_pre [OF rc] valid_and_then [OF de] valid_sum_case valid_ret)
  show ?thesis
    unfolding handleCancel_def
  proof (rule load_J, goal_cases)
    case (1 i s)
    show ?case
      by (rule valid_pre [of "\<lambda>w. J w \<and> s \<in> set (u_sessions w)"],
          intro valid_if valid_and_then [OF ab] valid_and_then [OF hd] valid_sum_case rest valid_ret) auto
  qed
qed

end

section \<open>Runs of the service\<close>

text \<open>Any sequence of requests, each with any identity and any content.\<close>

inductive upload_step ::
  "'b Server \<Rightarrow> (string \<Rightarrow> string) \<Rightarrow> (string \<Rightarrow> string option) \<Rightarrow> 'b upl \<Rightarrow> 'b upl \<Rightarrow> bool"
  for sv sha uuid_parse where
  create: "upload_step sv sha uuid_parse w (snd (handleCreate sv ident body w))"
| get: "upload_step sv sha uuid_parse w (snd (handleGet uuid_parse ident path w))"
| put: "upload_step sv sha uuid_parse w (snd (handlePutChunk sv sha uuid_parse ident path q w))"
| complete: "upload_step sv sha uuid_parse w (snd (handleComplete sv sha uuid_parse ident path w))"
| cancel: "upload_step sv sha uuid_parse w (snd (handleCancel sv uuid_parse ident path w))"

definition fresh_upload :: "('b \<Rightarrow> string \<Rightarrow> string option) \<Rightarrow> 'b upl \<Rightarrow> bool" where
  "fresh_upload obj w \<longleftrightarrow>
     u_sessions w = [] \<and> u_chunks w = [] \<and> u_events w = [] \<and> obj (u_s3 w) = (\<lambda>_. None)"

context upload_service
begin

lemma fresh_J: "fresh_upload obj w \<Longrightarrow> J w"
  by (simp add: fresh_upload_def up_inv_def core_inv_def tables_ok_def chunks_ok_def staging_ok_def addressed_def unique_keys_def)

lemma step_J: "upload_step sv sha uuid_parse w w' \<Longrightarrow> J w \<Longrightarrow> J w'"
  by (induction rule: upload_step.induct)
    (auto intro: validD_snd [OF create_J] validD_snd [OF get_J] validD_snd [OF put_chunk_J] validD_snd [OF complete_J]
      validD_snd [OF cancel_J])

lemma run_J: "(upload_step sv sha uuid_parse)\<^sup>*\<^sup>* w w' \<Longrightarrow> fresh_upload obj w \<Longrightarrow> J w'"
  by (induction rule: rtranclp_induct) (auto intro: fresh_J step_J)

end

section \<open>The deployed service\<close>

text \<open>
  What \<open>main.go\<close> wires together: the S3 blob store on a client library, the file-configured quota
  and the configured size limit.
\<close>

definition deployed_upload ::
  "'b s3_client \<Rightarrow> string \<Rightarrow> QuotaConfigFile \<Rightarrow> int \<Rightarrow> 'b Server" where
  "deployed_upload cl bucket cfg maxObject =
     NewServer (NewS3BlobStore cl bucket) (\<lambda>ws n w. (ConfigQuota_CheckUploadSession cfg False ws n, w)) maxObject"

locale deployed_service = s3_service obj part cl bucket
  for obj :: "'b \<Rightarrow> string \<Rightarrow> string option"
    and part :: "'b \<Rightarrow> string \<Rightarrow> string \<Rightarrow> int \<Rightarrow> (string \<times> string) option"
    and cl :: "'b s3_client" and bucket :: string +
  fixes sha :: "string \<Rightarrow> string" and cfg :: QuotaConfigFile and maxObject :: int
  assumes sha_hex: "hex64 (sha x)" and max_int64: "in_i64 maxObject"

sublocale deployed_service \<subseteq> up: upload_service obj part "deployed_upload cl bucket cfg maxObject" sha
proof -
  have "blob_store obj part (NewS3BlobStore cl bucket)" by (rule s3.blob_store_axioms)
  then have "blob_store obj part (sv_blobs (deployed_upload cl bucket cfg maxObject))"
    by (simp add: deployed_upload_def NewServer_def)
  then show "upload_service obj part (deployed_upload cl bucket cfg maxObject) sha"
    by (rule upload_service.intro)
      (unfold_locales, use max_int64 in \<open>simp_all add: sha_hex deployed_upload_def NewServer_def ChunkSizeBytes_def in_i64_def up_view_def\<close>)
qed

context deployed_service
begin

lemma landing: "upload_service obj part (deployed_upload cl bucket cfg maxObject) sha"
  by (rule up.upload_service_axioms)

end

lemma deployed_upload_service:
  assumes "s3_service obj part cl bucket" "\<forall>x. hex64 (sha x)" "in_i64 maxObject"
  shows "upload_service obj part (deployed_upload cl bucket cfg maxObject) sha"
proof -
  have "deployed_service obj part cl bucket sha maxObject"
    using assms by (simp add: deployed_service_def deployed_service_axioms_def)
  then show ?thesis by (rule deployed_service.landing)
qed

text \<open>A digest for examples: 64 lower case hexadecimal digits that depend on the length only.\<close>

definition ex_sha :: "string \<Rightarrow> string" where
  "ex_sha x = replicate 63 CHR ''0'' @ [''0123456789abcdef'' ! (length x mod 16)]"

lemma ex_sha_hex: "hex64 (ex_sha x)"
proof -
  have "list_all is_hex ''0123456789abcdef''" by (simp add: is_hex_def is_digit_def between_def)
  then have "is_hex (''0123456789abcdef'' ! n)" if "n < 16" for n using that by (simp add: list_all_length)
  moreover have "length x mod 16 < 16" by simp
  moreover have "is_hex CHR ''0''" by (simp add: is_hex_def is_digit_def between_def)
  ultimately show ?thesis
    unfolding hex64_def match_class_def ex_sha_def by (simp add: list_all_iff)
qed

interpretation mem_up: deployed_service m_objects m_parts "mem_client bucket" bucket ex_sha cfg "2 ^ 40" for bucket cfg
  by unfold_locales (simp_all add: ex_sha_hex in_i64_def)

end
