(* ===== verification/UploadProps.thy ===== *)
theory UploadProps
  imports UploadLifecycle
begin

text \<open>
  The properties of the upload service as deployed, for every client library that does what S3
  documents, with an example run of the whole service on a storage held in memory.
\<close>

section \<open>An example run\<close>

definition ex_quota :: QuotaConfigFile where
  "ex_quota = \<lparr>qc_DenyUnknownWorkspaces = False,
     qc_Defaults = \<lparr>wq_MaxUploadBytes = None, wq_AllowUploads = Some True, wq_AllowJobs = None\<rparr>, qc_Workspaces = []\<rparr>"

definition ex_server :: "mem Server" where
  "ex_server = deployed_upload (mem_client ''b'') ''b'' ex_quota (2 ^ 40)"

definition ex_caller :: UpIdentity where
  "ex_caller = \<lparr>ui_WorkspaceID = ''ws'', ui_UserID = ''u''\<rparr>"

definition ex_empty :: "mem upl" where
  "ex_empty = \<lparr>io_script = [], id_supply = [''s1'', ''e1'', ''e2''], clock = 7, u_sessions = [], u_chunks = [], u_events = [],
     u_gauge = NewInflightGauge (2 ^ 30), u_backoff = NewBackoffDirector 1000000000 60000000000,
     u_s3 = \<lparr>m_objects = (\<lambda>_. None), m_parts = (\<lambda>_ _ _. None)\<rparr>\<rparr>"

definition ex_created :: "mem upl" where
  "ex_created = snd (handleCreate ex_server (Some ex_caller)
     (JsonValue \<lparr>cq_Filename = ''f'', cq_SizeBytes = 2, cq_Mime = ''v/m''\<rparr> []) ex_empty)"

definition ex_put :: chunkRequest where
  "ex_put = \<lparr>kq_Index = ''0'', kq_ContentLength = 2, kq_Sha = ex_sha ''hi'', kq_Bytes = ''hi'', kq_Broken = False\<rparr>"

definition ex_uploaded :: "mem upl" where
  "ex_uploaded = snd (handlePutChunk ex_server ex_sha Some (Some ex_caller) ''s1'' ex_put ex_created)"

lemmas up_eval = and_then_def ret_def with_io_def next_io_def new_id_def s3op_def

definition ex_session :: Session where
  "ex_session = \<lparr>ss_ID = ''s1'', ss_WorkspaceID = ''ws'', ss_UserID = ''u'', ss_Filename = ''f'', ss_SizeBytes = 2,
     ss_Mime = ''v/m'', ss_ChunkSizeBytes = ChunkSizeBytes, ss_ChunkCount = 1, ss_State = SessionActive,
     ss_S3UploadID = ''ustaging/s1'', ss_StagingKey = staging_key ''s1'', ss_SHA256 = [], ss_ObjectKey = []\<rparr>"

definition ex_metered :: MeteringEvent where
  "ex_metered = \<lparr>me_EventID = ''e1'', me_WorkspaceID = ''ws'', me_UserID = ''u'', me_Kind = MeteringUploadSessionCreated,
     me_Bytes = Some 2, me_EncodeSeconds = None, me_JobID = [], me_At = 7\<rparr>"

lemma ex_valid: "validateCreate \<lparr>cq_Filename = ''f'', cq_SizeBytes = 2, cq_Mime = ''v/m''\<rparr> (2 ^ 40) = None"
  by code_simp

lemma ex_new_session: "new_session ex_caller \<lparr>cq_Filename = ''f'', cq_SizeBytes = 2, cq_Mime = ''v/m''\<rparr> ChunkSizeBytes ''s1'' ''ustaging/s1'' = ex_session"
  unfolding ex_session_def new_session_def ex_caller_def
  by (simp add: chunk_count_def ChunkSizeBytes_def add64_def sub64_def wrap64_def go_div_def)

lemma ex_created_eq:
  "ex_created = ex_empty\<lparr>id_supply := [''e2''], u_sessions := [ex_session], u_chunks := [pending_chunk ''s1'' 0],
     u_events := [(SubjectMetering, EvMetering ex_metered)]\<rparr>"
proof -
  let ?req = "\<lparr>cq_Filename = ''f'', cq_SizeBytes = 2, cq_Mime = ''v/m''\<rparr>"
  have q: "ConfigQuota_CheckUploadSession ex_quota False ''ws'' 2 = Inr allow"
    by (simp add: ConfigQuota_CheckUploadSession_def effective_def ex_quota_def)
  have d: "decodeCreate (JsonValue ?req []) = Inr ?req" by (simp add: decodeCreate_def dec_More_def)
  have s: "session_checks ex_session []" by (simp add: session_checks_def ex_session_def has_key_def ChunkSizeBytes_def)
  have n: "ss_ID ex_session = ''s1''" "ss_ChunkCount ex_session = 1" by (simp_all add: ex_session_def)
  have sv: "sv_quota ex_server ''ws'' 2 = (\<lambda>w. (Inr allow, w))" "sv_maxObjectBytes ex_server = 2 ^ 40"
    "sv_chunkSize ex_server = ChunkSizeBytes" "sv_publishRetries ex_server = 3"
    "CreateMultipart (sv_blobs ex_server) k m = (\<lambda>b. (Inr (''u'' @ k), b))" for k m
    by (simp_all add: ex_server_def deployed_upload_def NewServer_def q NewS3BlobStore_def S3_CreateMultipart_def mem_client_def)
  have r3: "(3::nat) = Suc (Suc (Suc 0))" by simp
  have k: "''u'' @ staging_key ''s1'' = ''ustaging/s1''" by (simp add: staging_key_def)
  have c: "new_session \<lparr>ui_WorkspaceID = ''ws'', ui_UserID = ''u''\<rparr> ?req ChunkSizeBytes ''s1'' ''ustaging/s1'' = ex_session"
    using ex_new_session by (simp add: ex_caller_def)
  have o: "open_session ex_server ex_caller ?req ''s1'' ''ustaging/s1'' (ex_empty\<lparr>id_supply := [''e1'', ''e2'']\<rparr>)
    = ((201, UCreated ''s1'' ChunkSizeBytes 1), ex_empty\<lparr>id_supply := [''e2''], u_sessions := [ex_session], u_chunks := [pending_chunk ''s1'' 0],
     u_events := [(SubjectMetering, EvMetering ex_metered)]\<rparr>)"
    unfolding open_session_def Let_def sv ex_new_session
    by (simp add: CreateSession_def publishMetering_def publishJSON_def JetStream_Publish_def up_eval s n sv r3 ex_empty_def
        ex_metered_def ex_caller_def)
  have "handleCreate ex_server (Some ex_caller) (JsonValue ?req []) ex_empty
    = open_session ex_server ex_caller ?req ''s1'' ''ustaging/s1'' (ex_empty\<lparr>id_supply := [''e1'', ''e2'']\<rparr>)"
    unfolding handleCreate_def option.case d sum.case sv ex_valid
    by (simp add: sv up_eval ex_caller_def k [simplified] ex_empty_def)
  then show ?thesis unfolding ex_created_def o by simp
qed

definition ex_chunk :: Chunk where
  "ex_chunk = \<lparr>ck_Session = ''s1'', ck_Index = 0, ck_State = ChunkDone, ck_SHA256 = ex_sha ''hi'', ck_ETag = ''ehi'', ck_SizeBytes = 2\<rparr>"

definition ex_stored :: mem where
  "ex_stored = snd (mem_put (staging_key ''s1'') ''ustaging/s1'' 1 ''hi'' (u_s3 ex_empty))"

lemma ex_server_fields:
  "sv_chunkSize ex_server = ChunkSizeBytes" "sv_publishRetries ex_server = 3"
  "sv_blobs ex_server = NewS3BlobStore (mem_client ''b'') ''b''"
  by (simp_all add: ex_server_def deployed_upload_def NewServer_def)

lemma ex_session_fields:
  "ss_ID ex_session = ''s1''" "ss_WorkspaceID ex_session = ''ws''" "ss_ChunkCount ex_session = 1"
  "ss_State ex_session = SessionActive" "ss_StagingKey ex_session = staging_key ''s1''"
  "ss_S3UploadID ex_session = ''ustaging/s1''" "expected_size ex_session 0 = 2" "ss_SizeBytes ex_session = 2" "ss_UserID ex_session = ''u''"
  by (simp_all add: ex_session_def expected_size_def sub64_def mul64_def wrap64_def)

lemma ex_load:
  "io_script w = [] \<Longrightarrow> u_sessions w = [ex_session] \<Longrightarrow>
   loadOwnedSession Some (Some ex_caller) ''s1'' k w = k ex_caller ex_session w"
  by (simp add: loadOwnedSession_def GetSession_def up_eval ex_session_fields ex_caller_def)

lemma ex_uploaded_eq:
  "ex_uploaded = ex_created\<lparr>u_chunks := [ex_chunk], u_s3 := ex_stored\<rparr>"
proof -
  have io: "io_script ex_created = []" "u_sessions ex_created = [ex_session]" "u_chunks ex_created = [pending_chunk ''s1'' 0]"
    "u_s3 ex_created = u_s3 ex_empty" "u_gauge ex_created = NewInflightGauge (2 ^ 30)"
    "u_backoff ex_created = NewBackoffDirector 1000000000 60000000000"
    by (simp_all add: ex_created_eq ex_empty_def)
  have low: "to_lower (ex_sha ''hi'') = ex_sha ''hi''" by (simp add: ex_sha_def to_lower_def to_lower_char_def between_def)
  have zero: "ParseInt ''0'' = Some 0" by code_simp
  have b: "read_limited 3 ''hi'' False = Some ''hi''" by (simp add: read_limited_def)
  have st: "store_chunk ex_server ex_sha ex_session 0 (ex_sha ''hi'') 2 ex_put (ex_created\<lparr>u_gauge := \<lparr>g_ceiling = 2 ^ 30, g_current = 2\<rparr>\<rparr>)
    = ((200, UChunk 0 False), ex_created\<lparr>u_gauge := \<lparr>g_ceiling = 2 ^ 30, g_current = 2\<rparr>, u_chunks := [ex_chunk], u_s3 := ex_stored\<rparr>)"
    unfolding store_chunk_def ex_server_fields
    by (simp add: up_eval ClaimChunk_def exec_chunks_def MarkChunkDone_def one_row_def io rows_affected_def update_where_def
        pending_chunk_def chunk_at_def ex_session_fields ex_put_def b wrap32_def NewS3BlobStore_def S3_UploadPart_def mem_client_def
        mem_put_def ex_stored_def ex_chunk_def reset_session_def Reset_def NewBackoffDirector_def)
  have q: "kq_Index ex_put = ''0''" "kq_ContentLength ex_put = 2" "kq_Sha ex_put = ex_sha ''hi''" by (simp_all add: ex_put_def)
  have "handlePutChunk ex_server ex_sha Some (Some ex_caller) ''s1'' ex_put ex_created
    = ((200, UChunk 0 False), ex_created\<lparr>u_gauge := \<lparr>g_ceiling = 2 ^ 30, g_current = 0\<rparr>, u_chunks := [ex_chunk], u_s3 := ex_stored\<rparr>)"
    unfolding handlePutChunk_def ex_load [OF io(1,2)] Let_def
    by (simp add: low zero q ex_sha_hex ex_session_fields and_then_def acquire_def TryAcquire_def io NewInflightGauge_def
        add64_def wrap64_def st [simplified] release_bytes_def Release_def ret_def)
  then show ?thesis by (simp add: ex_uploaded_def ex_created_eq ex_empty_def NewInflightGauge_def)
qed

definition ex_landed_session :: Session where
  "ex_landed_session = ex_session\<lparr>ss_State := SessionCompleted, ss_SHA256 := ex_sha ''hi'', ss_ObjectKey := asset_path ''ws'' (ex_sha ''hi'')\<rparr>"

lemma ex_completed:
  "\<exists>w'. handleComplete ex_server ex_sha Some (Some ex_caller) ''s1'' ex_uploaded = ((200, UComplete ex_landed_session), w') \<and>
     (SubjectUploadLanded, EvLanded (landed_event ex_landed_session 7)) \<in> set (u_events w')"
proof -
  have io: "io_script ex_uploaded = []" "u_sessions ex_uploaded = [ex_session]" "u_chunks ex_uploaded = [ex_chunk]"
    "u_s3 ex_uploaded = ex_stored" "id_supply ex_uploaded = [''e2'']" "clock ex_uploaded = 7"
    by (simp_all add: ex_uploaded_eq ex_created_eq ex_empty_def)
  have c: "chunks_of ''s1'' [ex_chunk] = [ex_chunk]" "ck_State ex_chunk = ChunkDone" "part_of ex_chunk = \<lparr>cp_PartNumber = 1, cp_ETag = ''ehi''\<rparr>"
    by (simp_all add: chunks_of_def ex_chunk_def part_of_def wrap32_def)
  have j: "m_parts ex_stored (staging_key ''s1'') ''ustaging/s1'' 1 = Some (''ehi'', ''hi'')"
    by (simp add: ex_stored_def mem_put_def)
  have sl: "sort_key cp_PartNumber [p] = [p]" for p by simp
  have lim: "2 \<le> singleCopyLimit" by (simp add: singleCopyLimit_def)
  have a: "\<exists>w'. assemble ex_server ex_sha ex_session [\<lparr>cp_PartNumber = 1, cp_ETag = ''ehi''\<rparr>] ex_uploaded
     = (Some (ex_session\<lparr>ss_State := SessionAssembled, ss_SHA256 := ex_sha ''hi'', ss_ObjectKey := asset_path ''ws'' (ex_sha ''hi'')\<rparr>), w')
     \<and> io_script w' = [] \<and> id_supply w' = [''e2''] \<and> clock w' = 7 \<and> (\<exists>s. u_sessions w' = [s] \<and> ss_ID s = ''s1'')"
    unfolding assemble_def ex_server_fields hash_staging_def land_def Let_def
    by (simp add: s3op_def and_then_def ret_def NewS3BlobStore_def S3_CompleteMultipart_def S3_GetObject_def S3_Copy_def S3_Delete_def
        mem_client_def sl j io ex_session_fields lim Let_def mem_source [of "''b''", simplified] SetSessionAssembled_def exec_sessions_def with_io_def next_io_def
        rows_affected_def update_where_def one_row_def)
  then obtain w' where w': "assemble ex_server ex_sha ex_session [\<lparr>cp_PartNumber = 1, cp_ETag = ''ehi''\<rparr>] ex_uploaded
     = (Some (ex_session\<lparr>ss_State := SessionAssembled, ss_SHA256 := ex_sha ''hi'', ss_ObjectKey := asset_path ''ws'' (ex_sha ''hi'')\<rparr>), w')"
    "io_script w' = []" "id_supply w' = [''e2'']" "clock w' = 7" "\<exists>s. u_sessions w' = [s] \<and> ss_ID s = ''s1''" by blast
  have r3: "(3::nat) = Suc (Suc (Suc 0))" by simp
  have "\<exists>w''. announce_landed ex_server (ex_session\<lparr>ss_State := SessionAssembled, ss_SHA256 := ex_sha ''hi'',
      ss_ObjectKey := asset_path ''ws'' (ex_sha ''hi'')\<rparr>) w' = ((200, UComplete ex_landed_session), w'') \<and>
      (SubjectUploadLanded, EvLanded (landed_event ex_landed_session 7)) \<in> set (u_events w'')"
    unfolding announce_landed_def publishMetering_def publishJSON_def ex_server_fields r3
    using w'(2-5) by (auto simp: up_eval JetStream_Publish_def SetSessionState_def exec_sessions_def rows_affected_def one_row_def
        ex_session_fields ex_landed_session_def landed_event_def)
  then show ?thesis
    unfolding handleComplete_def ex_load [OF io(1,2)] Let_def
    using w'(1) by (simp add: ex_session_fields GetChunks_def up_eval io c)
qed

lemma ex_run: "(upload_step ex_server ex_sha Some)\<^sup>*\<^sup>* ex_empty ex_uploaded" "fresh_upload m_objects ex_empty"
proof -
  have "upload_step ex_server ex_sha Some ex_empty ex_created"
    unfolding ex_created_def by (rule upload_step.create)
  moreover have "upload_step ex_server ex_sha Some ex_created ex_uploaded"
    unfolding ex_uploaded_def by (rule upload_step.put)
  ultimately show "(upload_step ex_server ex_sha Some)\<^sup>*\<^sup>* ex_empty ex_uploaded" by simp
  show "fresh_upload m_objects ex_empty" by (simp add: fresh_upload_def ex_empty_def)
qed

section \<open>Properties\<close>

text \<open>
  C16. Content addressing. Start from an empty database and an empty bucket and serve any
  requests, while the database, the broker and the storage fail in any way: every object under an
  asset key has the digest its key names, and for every landed event ever published the object is
  in the bucket, under the key of its workspace and digest, with the announced digest.
\<close>

theorem landed_objects_content_addressed:
  assumes "s3_service obj part cl bucket" "\<forall>x. hex64 (sha x)" "in_i64 maxObject"
    and "(upload_step (deployed_upload cl bucket cfg maxObject) sha uuid_parse)\<^sup>*\<^sup>* w0 w" "fresh_upload obj w0"
  shows "(\<forall>ws d x. hex64 d \<and> obj (u_s3 w) (asset_path ws d) = Some x \<longrightarrow> sha x = d) \<and>
    (\<forall>t e. (t, EvLanded e) \<in> set (u_events w) \<longrightarrow>
       le_ObjectKey e = asset_path (le_WorkspaceID e) (le_SHA256 e) \<and>
       (\<exists>x. obj (u_s3 w) (le_ObjectKey e) = Some x \<and> sha x = le_SHA256 e))"
proof -
  note s = deployed_upload_service [OF assms(1-3), of cfg]
  have inv: "up_inv sha obj part w" by (rule upload_service.run_J [OF s assms(4,5)])
  have ad: "sha x = d" if "hex64 d" "obj (u_s3 w) (asset_path ws d) = Some x" for ws d x
    using inv that by (simp add: up_inv_def core_inv_def addressed_def hex64_def match_class_def)
  moreover have "landed_at (obj (u_s3 w)) (le_WorkspaceID e) (le_SHA256 e) (le_ObjectKey e)"
    if "(t, EvLanded e) \<in> set (u_events w)" for t e
    using inv that by (force simp: up_inv_def core_inv_def event_landed_def)
  ultimately show ?thesis by (force simp: landed_at_def)
qed

theorem landed_objects_content_addressed_witness:
  "s3_service m_objects m_parts (mem_client ''b'') ''b'' \<and>
   (\<exists>w. (upload_step ex_server ex_sha Some)\<^sup>*\<^sup>* ex_empty w \<and> u_events w \<noteq> [] \<and>
     \<not> (\<exists>ws d x. hex64 d \<and> m_objects (u_s3 w) (asset_path ws d) = Some x \<and> ex_sha x \<noteq> d))"
proof -
  have m: "in_i64 (2 ^ 40)" by (simp add: in_i64_def)
  have h: "\<forall>x. hex64 (ex_sha x)" by (simp add: ex_sha_hex)
  have e: "u_events ex_uploaded \<noteq> []" by (simp add: ex_uploaded_eq ex_created_eq)
  note r = landed_objects_content_addressed [OF mem.s3_service_axioms h m ex_run(1) [unfolded ex_server_def] ex_run(2)]
  show ?thesis using mem.s3_service_axioms r e ex_run(1) unfolding ex_server_def by blast
qed

text \<open>
  C15. What a finished upload is. When a session that still was active answers a complete request
  with 200, the object under the returned key is the concatenation, in order, of bodies that have
  the digests recorded for the chunks; its length is the declared size, and the returned digest
  and key are those of its content. No chunk is missing, repeated, truncated or out of place.
\<close>

theorem complete_lands_verified_object:
  assumes "s3_service obj part cl bucket" "\<forall>x. hex64 (sha x)" "in_i64 maxObject"
    and "(upload_step (deployed_upload cl bucket cfg maxObject) sha uuid_parse)\<^sup>*\<^sup>* w0 w" "fresh_upload obj w0"
    and "s \<in> set (u_sessions w)" "ss_State s = SessionActive" "uuid_parse path = Some (ss_ID s)"
    and "handleComplete (deployed_upload cl bucket cfg maxObject) sha uuid_parse ident path w = ((200, UComplete t), w')"
  shows "\<exists>bodies.
    map sha bodies = map ck_SHA256 (chunks_of (ss_ID s) (u_chunks w)) \<and>
    map (int \<circ> length) bodies = map (expected_size s) [0..ss_ChunkCount s - 1] \<and>
    obj (u_s3 w') (ss_ObjectKey t) = Some (concat bodies) \<and>
    int (length (concat bodies)) = ss_SizeBytes s \<and>
    ss_SHA256 t = sha (concat bodies) \<and> ss_ObjectKey t = asset_path (ss_WorkspaceID s) (ss_SHA256 t)"
proof -
  note sv = deployed_upload_service [OF assms(1-3), of cfg]
  have inv: "up_inv sha obj part w" by (rule upload_service.run_J [OF sv assms(4,5)])
  let ?cs = "chunks_of (ss_ID s) (u_chunks w)"
  obtain x where t: "t\<lparr>ss_State := SessionAssembled\<rparr> = s\<lparr>ss_State := SessionAssembled, ss_SHA256 := sha x,
      ss_ObjectKey := asset_path (ss_WorkspaceID s) (sha x)\<rparr>"
    and x: "obj (u_s3 w') (asset_path (ss_WorkspaceID s) (sha x)) = Some x" "built sha ?cs x" "int (length x) = ss_SizeBytes s"
    using validD [OF upload_service.complete_valid [OF sv, of "u_chunks w" "u_sessions w" uuid_parse ident path] _ assms(9)] inv assms(6-8)
    by blast
  have k: "ss_SHA256 t = sha x" "ss_ObjectKey t = asset_path (ss_WorkspaceID s) (sha x)"
    using arg_cong [OF t, of ss_SHA256] arg_cong [OF t, of ss_ObjectKey] by simp_all
  obtain bodies where b: "x = concat bodies" "list_all2 (verified sha) ?cs bodies"
    and fin: "list_all (\<lambda>c. ck_State c = ChunkDone) ?cs" using x(2) by (auto simp: built_def)
  have sha: "map sha bodies = map ck_SHA256 ?cs"
    using b(2) by (induction rule: list_all2_induct) (auto simp: verified_def)
  have "map (int \<circ> length) bodies = map ck_SizeBytes ?cs"
    using b(2) by (induction rule: list_all2_induct) (auto simp: verified_def)
  also have "\<dots> = map (expected_size s) (map ck_Index ?cs)"
    using inv assms(6) fin by (auto simp: up_inv_def core_inv_def chunks_ok_def done_ok_def list_all_iff)
  also have "\<dots> = map (expected_size s) [0..ss_ChunkCount s - 1]" using inv_indices [OF inv assms(6)] by simp
  finally show ?thesis using sha b(1) x(1,3) k by auto
qed

theorem complete_lands_verified_object_witness:
  "\<exists>w' bodies.
     handleComplete ex_server ex_sha Some (Some ex_caller) ''s1'' ex_uploaded = ((200, UComplete ex_landed_session), w') \<and>
     m_objects (u_s3 w') (ss_ObjectKey ex_landed_session) = Some (concat bodies) \<and> length (concat bodies) = 2"
proof -
  have m: "in_i64 (2 ^ 40)" by (simp add: in_i64_def)
  have h: "\<forall>x. hex64 (ex_sha x)" by (simp add: ex_sha_hex)
  obtain w' where w': "handleComplete ex_server ex_sha Some (Some ex_caller) ''s1'' ex_uploaded = ((200, UComplete ex_landed_session), w')"
    using ex_completed by blast
  have s: "ex_session \<in> set (u_sessions ex_uploaded)" "ss_State ex_session = SessionActive" "Some ''s1'' = Some (ss_ID ex_session)"
    by (simp_all add: ex_uploaded_eq ex_created_eq ex_session_fields)
  from complete_lands_verified_object [OF mem.s3_service_axioms h m ex_run(1) [unfolded ex_server_def] ex_run(2) s w' [unfolded ex_server_def]]
  show ?thesis using w' by (auto simp: ex_session_fields)
qed

text \<open>
  The chunk plan. In every reachable state each session's chunk map has exactly the indices
  \<open>0 .. chunkCount - 1\<close>, every chunk asks for between one byte and the chunk size, and the sizes
  add up to the declared size: 64 bit overflow in the rounding never gets past the table's checks.
\<close>

theorem chunk_plan_tiles_object:
  assumes "s3_service obj part cl bucket" "\<forall>x. hex64 (sha x)" "in_i64 maxObject"
    and "(upload_step (deployed_upload cl bucket cfg maxObject) sha uuid_parse)\<^sup>*\<^sup>* w0 w" "fresh_upload obj w0"
    and "s \<in> set (u_sessions w)"
  shows "map ck_Index (chunks_of (ss_ID s) (u_chunks w)) = [0..ss_ChunkCount s - 1] \<and>
    (\<forall>n. 0 < expected_size s n \<and> expected_size s n \<le> ss_ChunkSizeBytes s) \<and>
    sum_list (map (expected_size s) [0..ss_ChunkCount s - 1]) = ss_SizeBytes s"
proof -
  have inv: "up_inv sha obj part w"
    by (rule upload_service.run_J [OF deployed_upload_service [OF assms(1-3), of cfg] assms(4,5)])
  note shape = inv_shape [OF inv assms(6)]
  show ?thesis using inv_indices [OF inv assms(6)] expected_size_range [OF shape] expected_sizes_sum [OF shape] by simp
qed

theorem chunk_plan_tiles_object_witness:
  "ex_session \<in> set (u_sessions ex_uploaded) \<and>
   sum_list (map (expected_size ex_session) [0..ss_ChunkCount ex_session - 1]) = 2"
proof -
  have m: "in_i64 (2 ^ 40)" by (simp add: in_i64_def)
  have h: "\<forall>x. hex64 (ex_sha x)" by (simp add: ex_sha_hex)
  have s: "ex_session \<in> set (u_sessions ex_uploaded)" by (simp add: ex_uploaded_eq ex_created_eq)
  from chunk_plan_tiles_object [OF mem.s3_service_axioms h m ex_run(1) [unfolded ex_server_def] ex_run(2) s] s
  show ?thesis by (simp add: ex_session_fields)
qed

end
