(* ===== verification/UploadScope.thy ===== *)
theory UploadScope
  imports UploadProps
begin

text \<open>
  Isolation of workspaces in the upload service: a request leaves the session row and the chunk
  map of every session of another workspace as they are, and never returns such a session.
\<close>

section \<open>The frame of a session\<close>

text \<open>\<open>spares s w w'\<close>: the row and the chunk map of \<open>s\<close> are in \<open>w'\<close> what they were in \<open>w\<close>.\<close>

definition spares :: "Session \<Rightarrow> 'b upl \<Rightarrow> 'b upl \<Rightarrow> bool" where
  "spares s w w' \<longleftrightarrow>
     (s \<in> set (u_sessions w) \<longrightarrow>
        s \<in> set (u_sessions w') \<and> chunks_of (ss_ID s) (u_chunks w') = chunks_of (ss_ID s) (u_chunks w))"

interpretation spare: step_rel "spares s" for s
  by unfold_locales (auto simp: spares_def)

lemma spares_same: "u_sessions w' = u_sessions w \<Longrightarrow> u_chunks w' = u_chunks w \<Longrightarrow> spares s w w'"
  by (simp add: spares_def)

lemma keeps_s3op: "keeps (spares s) (s3op f)"
  by (rule keepsI) (auto simp: s3op_def intro: spares_same split: prod.splits)

lemma keeps_exec_sessions: "i \<noteq> ss_ID s \<Longrightarrow> keeps (spares s) (exec_sessions (\<lambda>t. ss_ID t = i) g)"
  unfolding exec_sessions_def
  by (rule spare.keeps_with_io) (auto simp: keeps_def spares_def set_update_where)

lemma keeps_exec_chunks:
  assumes "i \<noteq> ss_ID s" "\<And>c. P c \<Longrightarrow> ck_Session c = i"
    and "\<And>c. ck_Session (f c) = ck_Session c" "\<And>c. ck_Index (f c) = ck_Index c"
  shows "keeps (spares s) (exec_chunks P f)"
proof -
  have "update_where P f (chunks_of (ss_ID s) rows) = chunks_of (ss_ID s) rows" for rows
    using assms(1,2) by (auto simp: update_where_def intro!: map_idI)
  then show ?thesis
    unfolding exec_chunks_def
    by (intro spare.keeps_with_io) (auto simp: keeps_def spares_def chunks_of_update [OF assms(3,4)])
qed

lemma keeps_select: "keeps (spares s) (with_io (\<lambda>w. (f w, w)))"
  by (rule spare.keeps_with_io) (simp add: keeps_def spares_def)

lemma keeps_statements:
  assumes "i \<noteq> ss_ID s"
  shows "keeps (spares s) (SetSessionState i st)" "keeps (spares s) (SetSessionAssembled i d k)"
    "keeps (spares s) (MarkChunkDone i n d e z)" "keeps (spares s) (MarkChunkRetry i n)"
    "keeps (spares s) (ClaimChunk i n)" "keeps (spares s) (GetChunks j)"
  unfolding SetSessionState_def SetSessionAssembled_def MarkChunkDone_def MarkChunkRetry_def ClaimChunk_def GetChunks_def
  by (intro spare.keeps_intros keeps_exec_sessions keeps_exec_chunks [OF assms] keeps_select assms; simp add: chunk_at_def)+

lemma keeps_create_session: "keeps (spares s) (CreateSession t)"
  unfolding CreateSession_def
proof (rule spare.keeps_with_io, rule keepsI)
  fix w
  show "spares s w (snd (if session_checks t (u_sessions w)
     then (Inr (), w\<lparr>u_sessions := u_sessions w @ [t],
                     u_chunks := u_chunks w @ map (pending_chunk (ss_ID t)) [0..ss_ChunkCount t - 1]\<rparr>)
     else (Inl ErrIO, w)))"
  proof (cases "session_checks t (u_sessions w) \<and> s \<in> set (u_sessions w)")
    case True
    then have "ss_ID t \<noteq> ss_ID s" unfolding session_checks_def has_key_def by (metis imageI)
    then have "chunks_of (ss_ID s) (u_chunks w @ map (pending_chunk (ss_ID t)) [0..ss_ChunkCount t - 1]) = chunks_of (ss_ID s) (u_chunks w)"
      by (intro chunks_of_append_other) (auto simp: pending_chunk_def)
    then show ?thesis using True by (simp add: spares_def)
  qed (auto simp: spares_def)
qed

lemma keeps_memory:
  "keeps (spares s) (acquire n)" "keeps (spares s) (release_bytes n)" "keeps (spares s) (deny_session i)"
  "keeps (spares s) (reset_session i)"
  by (auto simp: keeps_def acquire_def release_bytes_def deny_session_def reset_session_def spares_def split: prod.splits)

lemma keeps_publish_loop: "keeps (spares s) (publish_loop k res t ev)"
proof (induction k arbitrary: res)
  case (Suc k)
  have "keeps (spares s) (JetStream_Publish t ev)"
    unfolding JetStream_Publish_def by (rule spare.keeps_with_io) (simp add: keeps_def spares_def)
  then show ?case
    unfolding publish_loop.simps pause_def by (intro spare.keeps_intros keeps_select Suc.IH)
qed (simp add: spare.keeps_ret)

lemma keeps_publishJSON: "keeps (spares s) (\<lambda>w. publishJSON sv t (ev w) w)"
  using keeps_publish_loop unfolding publishJSON_def keeps_def by blast

lemma keeps_publish_metering: "keeps (spares s) (publishMetering sv i kind bytes job)"
  unfolding publishMetering_def by (intro spare.keeps_intros keeps_publishJSON)

section \<open>The handlers\<close>

lemmas keeps_calls = keeps_statements keeps_s3op keeps_memory keeps_publish_metering keeps_publishJSON keeps_create_session

lemma keeps_bool_case: "keeps R f \<Longrightarrow> keeps R g \<Longrightarrow> keeps R (case b of True \<Rightarrow> f | False \<Rightarrow> g)"
  by (cases b) simp_all

lemma keeps_pair_case: "(\<And>a b. keeps R (f a b)) \<Longrightarrow> keeps R (case q of (a, b) \<Rightarrow> f a b)"
  by (cases q) simp_all

lemma keeps_store_chunk:
  assumes "ss_ID t \<noteq> ss_ID s"
  shows "keeps (spares s) (store_chunk sv sha t n want sz q)"
proof -
  have rt: "keeps (spares s) (retry_chunk (ss_ID t) n resp)" for resp
    unfolding retry_chunk_def by (intro spare.keeps_intros keeps_calls assms)
  have claim: "keeps R (case x of ClaimAcquired \<Rightarrow> f | ClaimAlreadyDone \<Rightarrow> g)" if "keeps R f" "keeps R g"
    for R :: "'c upl \<Rightarrow> 'c upl \<Rightarrow> bool" and f g :: "'c upl \<Rightarrow> up_resp \<times> 'c upl" and x
    using that by (cases x) simp_all
  show ?thesis
    unfolding store_chunk_def Let_def
    by (intro spare.keeps_intros keeps_calls rt claim assms)
qed

lemma keeps_landing:
  assumes "ss_ID t \<noteq> ss_ID s"
  shows "keeps (spares s) (land sv sha t x)" "keeps (spares s) (assemble sv sha t ps)"
proof -
  show l: "keeps (spares s) (land sv sha t x)" for x
    unfolding land_def Let_def by (intro spare.keeps_intros keeps_calls assms)
  show "keeps (spares s) (assemble sv sha t ps)"
    unfolding assemble_def hash_staging_def
    by (intro spare.keeps_intros keeps_calls keeps_pair_case l)
qed

lemma keeps_announce: "ss_ID t \<noteq> ss_ID s \<Longrightarrow> keeps (spares s) (announce_landed sv t)"
  unfolding announce_landed_def by (intro spare.keeps_intros keeps_calls)

lemma keeps_cancel: "ss_ID t \<noteq> ss_ID s \<Longrightarrow> keeps (spares s) (record_cancel t)"
  unfolding record_cancel_def by (intro spare.keeps_intros keeps_calls)

text \<open>The row a rollback cancels is the one just inserted, whose identifier was new.\<close>

lemma keeps_open: "keeps (spares s) (open_session sv i req sid s3id)"
proof (rule keepsI)
  fix w
  let ?t = "new_session i req (sv_chunkSize sv) sid s3id"
  have id: "ss_ID ?t = sid" by (simp add: new_session_def)
  show "spares s w (snd (open_session sv i req sid s3id w))"
  proof (cases "sid = ss_ID s")
    case False
    then have "keeps (spares s) (open_session sv i req sid s3id)"
      unfolding open_session_def rollback_def Let_def by (intro spare.keeps_intros keeps_calls)
    then show ?thesis by (simp add: keeps_def)
  next
    case True
    show ?thesis
    proof (cases "s \<in> set (u_sessions w)")
      case s: True
      then have no: "\<not> session_checks ?t (u_sessions w')" if "u_sessions w' = u_sessions w" for w' :: "'a upl"
        using True id that by (auto simp: session_checks_def has_key_def)
      obtain e w1 where c: "CreateSession ?t w = (Inl e, w1)" "u_sessions w1 = u_sessions w" "u_chunks w1 = u_chunks w"
        unfolding CreateSession_def
        by (cases rule: with_io_cases [of w "\<lambda>w. if session_checks ?t (u_sessions w)
           then (Inr (), w\<lparr>u_sessions := u_sessions w @ [?t],
                 u_chunks := u_chunks w @ map (pending_chunk (ss_ID ?t)) [0..ss_ChunkCount ?t - 1]\<rparr>)
           else (Inl ErrIO, w)"]) (auto simp: no dest!: next_io_update)
      have "open_session sv i req sid s3id w =
          and_then (s3op (AbortMultipart (sv_blobs sv) (staging_key sid) s3id))
            (\<lambda>_. ret (uerr 500 ''store_error'' ''could not persist session'')) w1"
        unfolding open_session_def Let_def by (simp add: and_then_def c)
      moreover have "keeps (spares s) (and_then (s3op (AbortMultipart (sv_blobs sv) (staging_key sid) s3id))
            (\<lambda>_. ret (uerr 500 ''store_error'' ''could not persist session'')))"
        by (intro spare.keeps_intros keeps_calls)
      ultimately have "spares s w1 (snd (open_session sv i req sid s3id w))" by (simp add: keeps_def)
      with spares_same [OF c(2,3)] show ?thesis by (rule spare.trans)
    qed (simp add: spares_def)
  qed
qed

lemma keeps_create:
  assumes "\<And>ws n w. up_view (snd (sv_quota sv ws n w)) = up_view w"
  shows "keeps (spares s) (handleCreate sv ident body)"
proof -
  have q: "keeps (spares s) (sv_quota sv ws n)" for ws n
    using assms by (auto simp: keeps_def spares_def up_view_def)
  show ?thesis
    unfolding handleCreate_def by (intro spare.keeps_intros q keeps_open keeps_calls)
qed

section \<open>Responses\<close>

fun shows_session :: "up_resp \<Rightarrow> Session option" where
  "shows_session (_, UStatus s _ _) = Some s"
| "shows_session (_, UComplete s) = Some s"
| "shows_session _ = None"

text \<open>Whatever session the response of \<open>f\<close> shows is one of workspace \<open>ws\<close>.\<close>

definition speaks :: "string \<Rightarrow> ('b upl \<Rightarrow> up_resp \<times> 'b upl) \<Rightarrow> bool" where
  "speaks ws f \<longleftrightarrow> valid (\<lambda>_. True) f (\<lambda>r _. \<forall>t. shows_session r = Some t \<longrightarrow> ss_WorkspaceID t = ws)"

lemma speaks_ret: "(\<And>t. shows_session r = Some t \<Longrightarrow> ss_WorkspaceID t = ws) \<Longrightarrow> speaks ws (ret r)"
  by (simp add: speaks_def valid_def ret_def)

lemma speaks_quiet: "shows_session r = None \<Longrightarrow> speaks ws (ret r)"
  by (rule speaks_ret) simp

lemma speaks_and_then: "(\<And>r. speaks ws (g r)) \<Longrightarrow> speaks ws (and_then f g)"
  unfolding speaks_def by (rule valid_and_then [of _ _ "\<lambda>_ _. True"]) (auto simp: valid_def)

lemma speaks_and_then_with:
  "valid (\<lambda>_. True) f (\<lambda>r _. P r) \<Longrightarrow> (\<And>r. P r \<Longrightarrow> speaks ws (g r)) \<Longrightarrow> speaks ws (and_then f g)"
  unfolding speaks_def valid_def and_then_result by blast

lemma speaks_then_ret: "speaks ws f \<Longrightarrow> speaks ws (and_then f (\<lambda>r. and_then g (\<lambda>_. ret r)))"
  unfolding speaks_def valid_def and_then_result ret_def by simp

lemma speaks_cases:
  "(\<And>e. speaks ws (h e)) \<Longrightarrow> (\<And>x. speaks ws (k x)) \<Longrightarrow> speaks ws (case y of Inl e \<Rightarrow> h e | Inr x \<Rightarrow> k x)"
  "speaks ws f \<Longrightarrow> speaks ws g \<Longrightarrow> speaks ws (if b then f else g)"
  "speaks ws f \<Longrightarrow> (\<And>x. speaks ws (l x)) \<Longrightarrow> speaks ws (case z of None \<Rightarrow> f | Some x \<Rightarrow> l x)"
  "speaks ws f \<Longrightarrow> speaks ws g \<Longrightarrow> speaks ws (case q of ClaimAcquired \<Rightarrow> f | ClaimAlreadyDone \<Rightarrow> g)"
  by (auto split: sum.splits option.splits ClaimResult.splits)

lemma speaks_pairs:
  "(\<And>a b. speaks ws (f a b)) \<Longrightarrow> speaks ws (case q of (a, b) \<Rightarrow> f a b)"
  "speaks ws g \<Longrightarrow> speaks ws h \<Longrightarrow> speaks ws (case b of True \<Rightarrow> g | False \<Rightarrow> h)"
  by (auto split: prod.splits bool.splits)

lemmas speaks_intros = speaks_cases speaks_and_then speaks_quiet

lemma announce_speaks: "ss_WorkspaceID s = ws \<Longrightarrow> speaks ws (announce_landed sv s)"
  unfolding announce_landed_def by (intro speaks_cases speaks_and_then speaks_ret) auto

lemma assemble_workspace:
  "valid (\<lambda>_. True) (assemble sv sha s ps) (\<lambda>r _. \<forall>t. r = Some t \<longrightarrow> ss_WorkspaceID t = ss_WorkspaceID s \<and> ss_ID t = ss_ID s)"
proof -
  let ?Q = "\<lambda>r _. \<forall>t. r = Some t \<longrightarrow> ss_WorkspaceID t = ss_WorkspaceID s \<and> ss_ID t = ss_ID s"
  have any: "valid (\<lambda>_. True) f (\<lambda>_ _. True)" for f :: "'x \<Rightarrow> 'y \<times> 'x" by (simp add: valid_def)
  have l: "valid (\<lambda>_. True) (land sv sha s x) ?Q" for x
    unfolding land_def Let_def by (intro valid_and_then [OF any] valid_sum_case valid_ret) auto
  have h: "valid (\<lambda>_. True) (hash_staging sv s (land sv sha s)) ?Q"
    unfolding hash_staging_def by (intro valid_and_then [OF any] valid_sum_case valid_option_case valid_if valid_ret l) auto
  have pair: "(case q of (a, b) \<Rightarrow> f a b) = f (fst q) (snd q)" for q :: "int \<times> bool" and f :: "int \<Rightarrow> bool \<Rightarrow> 'z"
    by (cases q) simp
  show ?thesis
    unfolding assemble_def pair by (intro valid_and_then [OF any] valid_sum_case valid_if valid_ret h) auto
qed

lemma complete_speaks:
  "ss_WorkspaceID s = ws \<Longrightarrow>
   speaks ws (and_then (assemble sv sha s ps) (\<lambda>r. case r of None \<Rightarrow> ret (uerr 502 c m) | Some s' \<Rightarrow> announce_landed sv s'))"
  by (rule speaks_and_then_with [OF assemble_workspace]) (auto intro: announce_speaks speaks_quiet split: option.splits)

lemma keeps_assemble_announce:
  assumes "ss_ID t \<noteq> ss_ID s"
  shows "keeps (spares s) (and_then (assemble sv sha t ps)
    (\<lambda>r. case r of None \<Rightarrow> ret (uerr 502 c m) | Some s' \<Rightarrow> announce_landed sv s'))"
proof (rule keepsI)
  fix w
  obtain r w1 where a: "assemble sv sha t ps w = (r, w1)" by fastforce
  have "spares s w w1" using keepsD [OF keeps_landing(2) [OF assms] a] .
  moreover have "keeps (spares s) (case r of None \<Rightarrow> ret (uerr 502 c m) | Some s' \<Rightarrow> announce_landed sv s')"
    using validD [OF assemble_workspace TrueI a] assms
    by (auto intro: spare.keeps_ret keeps_announce split: option.splits)
  then have "spares s w1 (snd ((case r of None \<Rightarrow> ret (uerr 502 c m) | Some s' \<Rightarrow> announce_landed sv s') w1))"
    by (simp add: keeps_def)
  ultimately show "spares s w (snd (and_then (assemble sv sha t ps)
      (\<lambda>r. case r of None \<Rightarrow> ret (uerr 502 c m) | Some s' \<Rightarrow> announce_landed sv s') w))"
    unfolding and_then_def a by (simp add: spare.trans)
qed

lemma spares_valid:
  assumes "keeps (spares s) f" "speaks ws f"
  shows "valid (\<lambda>w. P w \<and> s \<in> set (u_sessions w) \<and> chunks_of (ss_ID s) (u_chunks w) = C) f
    (\<lambda>r w. (s \<in> set (u_sessions w) \<and> chunks_of (ss_ID s) (u_chunks w) = C) \<and>
       (\<forall>t. shows_session r = Some t \<longrightarrow> ss_WorkspaceID t = ws))"
proof (rule validI, intro conjI)
  fix w r w'
  assume p: "P w \<and> s \<in> set (u_sessions w) \<and> chunks_of (ss_ID s) (u_chunks w) = C" and f: "f w = (r, w')"
  show "s \<in> set (u_sessions w')" "chunks_of (ss_ID s) (u_chunks w') = C"
    using keepsD [OF assms(1) f] p by (simp_all add: spares_def)
  show "\<forall>t. shows_session r = Some t \<longrightarrow> ss_WorkspaceID t = ws"
    using validD [OF assms(2) [unfolded speaks_def] TrueI f] .
qed

section \<open>Isolation\<close>

lemma store_chunk_speaks: "speaks ws (store_chunk sv sha t n want sz q)"
  unfolding store_chunk_def retry_chunk_def Let_def by (intro speaks_intros) simp_all

lemma cancel_speaks: "speaks ws (record_cancel t)"
  unfolding record_cancel_def by (intro speaks_intros) simp_all

context upload_service
begin

lemma load_spares:
  assumes "\<And>t. ss_ID t \<noteq> ss_ID s \<Longrightarrow> keeps (spares s) (k t)" "\<And>t. speaks (ss_WorkspaceID t) (k t)"
    and "ui_WorkspaceID i \<noteq> ss_WorkspaceID s"
  shows "valid (\<lambda>w. J w \<and> s \<in> set (u_sessions w) \<and> chunks_of (ss_ID s) (u_chunks w) = C)
    (loadOwnedSession uuid_parse (Some i) path (\<lambda>_. k))
    (\<lambda>r w. (s \<in> set (u_sessions w) \<and> chunks_of (ss_ID s) (u_chunks w) = C) \<and>
       (\<forall>t. shows_session r = Some t \<longrightarrow> ss_WorkspaceID t = ui_WorkspaceID i))"
proof (rule load_valid, goal_cases)
  case (3 j t)
  show ?case
  proof (rule valid_assume, goal_cases)
    case (1 w0)
    then have ws: "ss_WorkspaceID t = ui_WorkspaceID i" using 3 by simp
    have "ss_ID t \<noteq> ss_ID s" using 1 ws assms(3) inv_session_unique [of sha obj part w0 s t] by auto
    then have "keeps (spares s) (k t)" by (rule assms(1))
    moreover have "speaks (ui_WorkspaceID i) (k t)" using assms(2) [of t] ws by simp
    ultimately have "valid (\<lambda>w. J w \<and> s \<in> set (u_sessions w) \<and> chunks_of (ss_ID s) (u_chunks w) = C) (k t)
      (\<lambda>r w. (s \<in> set (u_sessions w) \<and> chunks_of (ss_ID s) (u_chunks w) = C) \<and>
         (\<forall>t. shows_session r = Some t \<longrightarrow> ss_WorkspaceID t = ui_WorkspaceID i))"
      by (rule spares_valid)
    then show ?case by (rule valid_pre) simp
  qed
qed auto


lemma get_spares:
  assumes "ui_WorkspaceID i \<noteq> ss_WorkspaceID s"
  shows "valid (\<lambda>w. J w \<and> s \<in> set (u_sessions w) \<and> chunks_of (ss_ID s) (u_chunks w) = C)
    (handleGet uuid_parse (Some i) path)
    (\<lambda>r w. (s \<in> set (u_sessions w) \<and> chunks_of (ss_ID s) (u_chunks w) = C) \<and>
       (\<forall>t. shows_session r = Some t \<longrightarrow> ss_WorkspaceID t = ui_WorkspaceID i))"
  unfolding handleGet_def
proof (rule load_spares [OF _ _ assms], goal_cases)
  case (1 t)
  then show ?case
    by (intro spare.keeps_intros keeps_calls)
next
  case (2 t)
  show ?case
    by (intro speaks_cases speaks_and_then speaks_ret) simp_all
qed

lemma put_spares:
  assumes "ui_WorkspaceID i \<noteq> ss_WorkspaceID s"
  shows "valid (\<lambda>w. J w \<and> s \<in> set (u_sessions w) \<and> chunks_of (ss_ID s) (u_chunks w) = C)
    (handlePutChunk sv sha uuid_parse (Some i) path q)
    (\<lambda>r w. (s \<in> set (u_sessions w) \<and> chunks_of (ss_ID s) (u_chunks w) = C) \<and>
       (\<forall>t. shows_session r = Some t \<longrightarrow> ss_WorkspaceID t = ui_WorkspaceID i))"
  unfolding handlePutChunk_def Let_def
proof (rule load_spares [OF _ _ assms], goal_cases)
  case (1 t)
  then show ?case
    by (intro spare.keeps_intros keeps_calls keeps_store_chunk)
next
  case (2 t)
  show ?case
    by (intro speaks_cases speaks_quiet speaks_then_ret store_chunk_speaks speaks_and_then [of _ _ "acquire _"]
        speaks_and_then [of _ _ "deny_session _"]) simp_all
qed

lemma complete_spares:
  assumes "ui_WorkspaceID i \<noteq> ss_WorkspaceID s"
  shows "valid (\<lambda>w. J w \<and> s \<in> set (u_sessions w) \<and> chunks_of (ss_ID s) (u_chunks w) = C)
    (handleComplete sv sha uuid_parse (Some i) path)
    (\<lambda>r w. (s \<in> set (u_sessions w) \<and> chunks_of (ss_ID s) (u_chunks w) = C) \<and>
       (\<forall>t. shows_session r = Some t \<longrightarrow> ss_WorkspaceID t = ui_WorkspaceID i))"
  unfolding handleComplete_def Let_def
proof (rule load_spares [OF _ _ assms], goal_cases)
  case (1 t)
  then show ?case
    by (intro spare.keeps_ret spare.keeps_if keeps_assemble_announce keeps_announce spare.keeps_sum_case
        spare.keeps_and_then [of _ "GetChunks _"] keeps_calls)
next
  case (2 t)
  show ?case
    by (intro speaks_cases(1,2) complete_speaks announce_speaks refl speaks_and_then [of _ _ "GetChunks _"] speaks_ret) simp_all
qed

lemma cancel_spares:
  assumes "ui_WorkspaceID i \<noteq> ss_WorkspaceID s"
  shows "valid (\<lambda>w. J w \<and> s \<in> set (u_sessions w) \<and> chunks_of (ss_ID s) (u_chunks w) = C)
    (handleCancel sv uuid_parse (Some i) path)
    (\<lambda>r w. (s \<in> set (u_sessions w) \<and> chunks_of (ss_ID s) (u_chunks w) = C) \<and>
       (\<forall>t. shows_session r = Some t \<longrightarrow> ss_WorkspaceID t = ui_WorkspaceID i))"
  unfolding handleCancel_def
proof (rule load_spares [OF _ _ assms], goal_cases)
  case (1 t)
  then show ?case
    by (intro spare.keeps_intros keeps_calls keeps_cancel keeps_pair_case keeps_bool_case)
next
  case (2 t)
  show ?case
    by (intro speaks_intros speaks_pairs cancel_speaks) simp_all
qed

end

text \<open>
  Workspaces do not see each other's uploads. In every reachable state, whatever a caller of
  one workspace requests about whatever upload id, the row and the chunk map of each session of
  another workspace stay as they are, and no response shows such a session.
\<close>

theorem uploads_isolate_workspaces:
  assumes "s3_service obj part cl bucket" "\<forall>x. hex64 (sha x)" "in_i64 maxObject"
    and "(upload_step (deployed_upload cl bucket cfg maxObject) sha uuid_parse)\<^sup>*\<^sup>* w0 w" "fresh_upload obj w0"
    and "s \<in> set (u_sessions w)" "ui_WorkspaceID i \<noteq> ss_WorkspaceID s"
    and "f = handleCreate (deployed_upload cl bucket cfg maxObject) (Some i) body \<or>
      f = handleGet uuid_parse (Some i) path \<or>
      f = handlePutChunk (deployed_upload cl bucket cfg maxObject) sha uuid_parse (Some i) path q \<or>
      f = handleComplete (deployed_upload cl bucket cfg maxObject) sha uuid_parse (Some i) path \<or>
      f = handleCancel (deployed_upload cl bucket cfg maxObject) uuid_parse (Some i) path"
  shows "s \<in> set (u_sessions (snd (f w))) \<and>
    chunks_of (ss_ID s) (u_chunks (snd (f w))) = chunks_of (ss_ID s) (u_chunks w) \<and>
    (\<forall>t. shows_session (fst (f w)) = Some t \<longrightarrow> ss_WorkspaceID t = ui_WorkspaceID i)"
proof -
  let ?sv = "deployed_upload cl bucket cfg maxObject" and ?C = "chunks_of (ss_ID s) (u_chunks w)"
  note sv = deployed_upload_service [OF assms(1-3), of cfg]
  have inv: "up_inv sha obj part w" by (rule upload_service.run_J [OF sv assms(4,5)])
  have create: "keeps (spares s) (handleCreate ?sv (Some i) body)"
    by (rule keeps_create) (simp add: deployed_upload_def NewServer_def)
  have speaks: "speaks (ui_WorkspaceID i) (handleCreate ?sv (Some i) body)"
    unfolding handleCreate_def open_session_def rollback_def Let_def by (intro speaks_intros) simp_all
  have "valid (\<lambda>w. up_inv sha obj part w \<and> s \<in> set (u_sessions w) \<and> chunks_of (ss_ID s) (u_chunks w) = ?C) f
    (\<lambda>r w. (s \<in> set (u_sessions w) \<and> chunks_of (ss_ID s) (u_chunks w) = ?C) \<and>
       (\<forall>t. shows_session r = Some t \<longrightarrow> ss_WorkspaceID t = ui_WorkspaceID i))"
    using assms(8)
    by (elim disjE; simp only:; intro spares_valid [OF create speaks] upload_service.get_spares [OF sv assms(7)]
        upload_service.put_spares [OF sv assms(7)] upload_service.complete_spares [OF sv assms(7)] upload_service.cancel_spares [OF sv assms(7)])
  from validD_snd [OF this, of w] show ?thesis using inv assms(6) by simp
qed

theorem uploads_isolate_workspaces_witness:
  "ex_session \<in> set (u_sessions (snd (handleCancel ex_server Some (Some \<lparr>ui_WorkspaceID = ''other'', ui_UserID = ''v''\<rparr>) ''s1'' ex_uploaded)))"
proof -
  have m: "in_i64 (2 ^ 40)" by (simp add: in_i64_def)
  have h: "\<forall>x. hex64 (ex_sha x)" by (simp add: ex_sha_hex)
  have s: "ex_session \<in> set (u_sessions ex_uploaded)" by (simp add: ex_uploaded_eq ex_created_eq)
  have i: "ui_WorkspaceID \<lparr>ui_WorkspaceID = ''other'', ui_UserID = ''v''\<rparr> \<noteq> ss_WorkspaceID ex_session"
    by (simp add: ex_session_fields)
  show ?thesis
    using uploads_isolate_workspaces [OF mem.s3_service_axioms h m ex_run(1) [unfolded ex_server_def] ex_run(2) s i,
        of "handleCancel ex_server Some (Some \<lparr>ui_WorkspaceID = ''other'', ui_UserID = ''v''\<rparr>) ''s1''" _ "''s1''"]
    unfolding ex_server_def by blast
qed

end
