(* ===== verification/JobModel.thy ===== *)
theory JobModel
  imports GoText
begin

text \<open>
  The job domain model of the orchestrator, \<open>services/orchestrator/internal/jobs\<close>:
  the four job states and the transition table (\<open>job.go\<close>), the error taxonomy, the job
  row, and the preset with its validator (\<open>preset.go\<close>). Go's string types are datatypes
  with one constructor per declared constant and one for every other string.
\<close>

section \<open>Job states and the error taxonomy (job.go)\<close>

datatype State = StateQueued | StateRunning | StateCompleted | StateFailed | StateOther string

definition State_of_string :: "string \<Rightarrow> State" where
  "State_of_string s =
     (if s = ''queued'' then StateQueued
      else if s = ''running'' then StateRunning
      else if s = ''completed'' then StateCompleted
      else if s = ''failed'' then StateFailed
      else StateOther s)"

fun string_of_State :: "State \<Rightarrow> string" where
  "string_of_State StateQueued = ''queued''"
| "string_of_State StateRunning = ''running''"
| "string_of_State StateCompleted = ''completed''"
| "string_of_State StateFailed = ''failed''"
| "string_of_State (StateOther s) = s"

fun ValidState :: "State \<Rightarrow> bool" where
  "ValidState (StateOther _) = False"
| "ValidState _ = True"

datatype ErrorClass =
  ErrorValidation | ErrorAsset | ErrorDecode | ErrorEncode | ErrorInternal | ErrorOther string

definition ErrorClass_of_string :: "string \<Rightarrow> ErrorClass" where
  "ErrorClass_of_string s =
     (if s = ''validation'' then ErrorValidation
      else if s = ''asset'' then ErrorAsset
      else if s = ''decode'' then ErrorDecode
      else if s = ''encode'' then ErrorEncode
      else if s = ''internal'' then ErrorInternal
      else ErrorOther s)"

fun ValidErrorClass :: "ErrorClass \<Rightarrow> bool" where
  "ValidErrorClass (ErrorOther _) = False"
| "ValidErrorClass _ = True"

fun CanTransition :: "State \<Rightarrow> State \<Rightarrow> bool" where
  "CanTransition StateQueued to = (to = StateRunning \<or> to = StateFailed)"
| "CanTransition StateRunning to = (to = StateCompleted \<or> to = StateFailed)"
| "CanTransition StateFailed to = (to = StateQueued)"
| "CanTransition StateCompleted to = False"
| "CanTransition (StateOther _) to = False"

datatype transition_err = UnknownState State State | IllegalTransition State State

definition Transition :: "State \<Rightarrow> State \<Rightarrow> transition_err + unit" where
  "Transition from to =
     (if \<not> ValidState from \<or> \<not> ValidState to then Inl (UnknownState from to)
      else if \<not> CanTransition from to then Inl (IllegalTransition from to)
      else Inr ())"

definition CanRetry :: "State \<Rightarrow> bool" where
  "CanRetry s \<longleftrightarrow> s = StateFailed"

definition CanCancel :: "State \<Rightarrow> bool" where
  "CanCancel s \<longleftrightarrow> s = StateQueued \<or> s = StateRunning"

text \<open>
  The job row. Progress figures are Go \<open>float64\<close> values, modelled as real numbers;
  times are integers; an absent error class is \<open>None\<close> (SQL NULL, Go's empty class).
\<close>

record OutputProgress =
  o_Name :: string
  o_ObjectKey :: string
  o_State :: string
  o_ProgressPct :: real

record Job =
  j_ID :: string
  j_WorkspaceID :: string
  j_UserID :: string
  j_PresetID :: string
  j_SourceObjectKey :: string
  j_SourceSHA256 :: string
  j_State :: State
  j_ErrorClass :: "ErrorClass option"
  j_ErrorMessage :: string
  j_Attempts :: int
  j_ProgressPct :: real
  j_FPS :: real
  j_SpeedX :: real
  j_ETASeconds :: real
  j_Outputs :: "OutputProgress list"
  j_CreatedAt :: int
  j_QueuedAt :: int
  j_StartedAt :: "int option"
  j_FinishedAt :: "int option"
  j_UpdatedAt :: int

section \<open>Presets (preset.go)\<close>

definition rungNamePattern :: "string \<Rightarrow> bool" where
  "rungNamePattern s \<longleftrightarrow>
     (case s of
        [] \<Rightarrow> False
      | c # cs \<Rightarrow> is_alnum c \<and>
          match_class (\<lambda>c. is_alnum c \<or> c = CHR ''.'' \<or> c = CHR ''_'' \<or> c = CHR ''-'') 0 31 cs)"

datatype Container =
  ContainerMP4 | ContainerMOV | ContainerHLS | ContainerDASH | ContainerWebM | ContainerOther string

definition Container_of_string :: "string \<Rightarrow> Container" where
  "Container_of_string s =
     (if s = ''mp4'' then ContainerMP4
      else if s = ''mov'' then ContainerMOV
      else if s = ''hls'' then ContainerHLS
      else if s = ''dash'' then ContainerDASH
      else if s = ''webm'' then ContainerWebM
      else ContainerOther s)"

fun string_of_Container :: "Container \<Rightarrow> string" where
  "string_of_Container ContainerMP4 = ''mp4''"
| "string_of_Container ContainerMOV = ''mov''"
| "string_of_Container ContainerHLS = ''hls''"
| "string_of_Container ContainerDASH = ''dash''"
| "string_of_Container ContainerWebM = ''webm''"
| "string_of_Container (ContainerOther s) = s"

fun ValidContainer :: "Container \<Rightarrow> bool" where
  "ValidContainer (ContainerOther _) = False"
| "ValidContainer _ = True"

datatype RateControlMode = RateControlCRF | RateControlVBR | RateControlCBR | RateControlOther string

definition RateControlMode_of_string :: "string \<Rightarrow> RateControlMode" where
  "RateControlMode_of_string s =
     (if s = ''crf'' then RateControlCRF
      else if s = ''vbr'' then RateControlVBR
      else if s = ''cbr'' then RateControlCBR
      else RateControlOther s)"

fun string_of_RateControlMode :: "RateControlMode \<Rightarrow> string" where
  "string_of_RateControlMode RateControlCRF = ''crf''"
| "string_of_RateControlMode RateControlVBR = ''vbr''"
| "string_of_RateControlMode RateControlCBR = ''cbr''"
| "string_of_RateControlMode (RateControlOther s) = s"

fun ValidRateControlMode :: "RateControlMode \<Rightarrow> bool" where
  "ValidRateControlMode (RateControlOther _) = False"
| "ValidRateControlMode _ = True"

datatype VideoCodec = CodecH264 | CodecHEVC | CodecAV1 | CodecOther string

definition VideoCodec_of_string :: "string \<Rightarrow> VideoCodec" where
  "VideoCodec_of_string s =
     (if s = ''h264'' then CodecH264
      else if s = ''hevc'' then CodecHEVC
      else if s = ''av1'' then CodecAV1
      else CodecOther s)"

fun string_of_VideoCodec :: "VideoCodec \<Rightarrow> string" where
  "string_of_VideoCodec CodecH264 = ''h264''"
| "string_of_VideoCodec CodecHEVC = ''hevc''"
| "string_of_VideoCodec CodecAV1 = ''av1''"
| "string_of_VideoCodec (CodecOther s) = s"

fun ValidVideoCodec :: "VideoCodec \<Rightarrow> bool" where
  "ValidVideoCodec (CodecOther _) = False"
| "ValidVideoCodec _ = True"

definition ValidSpeedPreset :: "string \<Rightarrow> bool" where
  "ValidSpeedPreset s \<longleftrightarrow> s \<in> set [''p1'', ''p2'', ''p3'', ''p4'', ''p5'', ''p6'', ''p7'']"

record Rung =
  r_Name :: string
  r_Width :: int
  r_Height :: int

record Preset =
  p_ID :: string
  p_WorkspaceID :: string
  p_Name :: string
  p_Container :: Container
  p_VideoCodec :: VideoCodec
  p_RateControl :: RateControlMode
  p_CRF :: int
  p_BitrateKbps :: int
  p_MaxBitrateKbps :: int
  p_GOPLength :: int
  p_SpeedPreset :: string
  p_Ladder :: "Rung list"
  p_CreatedAt :: int
  p_UpdatedAt :: int

datatype preset_err =
  BadName | BadContainer | BadVideoCodec | WebmNeedsAV1 | BadRateControl
  | CrfRange | CrfBitrateSet | VbrBitrate | VbrMaxBitrate | VbrCrfSet
  | CbrBitrate | CbrOtherSet | BadGOP | BadSpeedPreset | BadLadderSize
  | RungName nat | RungDuplicate string | RungDimensions nat | RungOdd nat

text \<open>
  The rate control switch of \<open>Validate\<close>; the branches follow its order. \<open>None\<close> is
  Go's nil error.
\<close>

definition check_rate :: "Preset \<Rightarrow> preset_err option" where
  "check_rate p =
     (case p_RateControl p of
        RateControlCRF \<Rightarrow>
          if p_CRF p < 0 \<or> p_CRF p > 51 then Some CrfRange
          else if p_BitrateKbps p \<noteq> 0 \<or> p_MaxBitrateKbps p \<noteq> 0 then Some CrfBitrateSet
          else None
      | RateControlVBR \<Rightarrow>
          if p_BitrateKbps p < 1 then Some VbrBitrate
          else if p_MaxBitrateKbps p \<noteq> 0 \<and> p_MaxBitrateKbps p < p_BitrateKbps p
          then Some VbrMaxBitrate
          else if p_CRF p \<noteq> 0 then Some VbrCrfSet
          else None
      | RateControlCBR \<Rightarrow>
          if p_BitrateKbps p < 1 then Some CbrBitrate
          else if p_CRF p \<noteq> 0 \<or> p_MaxBitrateKbps p \<noteq> 0 then Some CbrOtherSet
          else None
      | RateControlOther _ \<Rightarrow> None)"

text \<open>The ladder loop: \<open>i\<close> is the loop index, \<open>seen\<close> the map of names already met.\<close>

fun check_ladder :: "nat \<Rightarrow> string list \<Rightarrow> Rung list \<Rightarrow> preset_err option" where
  "check_ladder i seen [] = None"
| "check_ladder i seen (r # rs) =
     (if \<not> rungNamePattern (r_Name r) then Some (RungName i)
      else if r_Name r \<in> set seen then Some (RungDuplicate (r_Name r))
      else if r_Width r < 16 \<or> r_Width r > 8192 \<or> r_Height r < 16 \<or> r_Height r > 8192
      then Some (RungDimensions i)
      else if r_Width r mod 2 \<noteq> 0 \<or> r_Height r mod 2 \<noteq> 0 then Some (RungOdd i)
      else check_ladder (Suc i) (r_Name r # seen) rs)"

definition Validate :: "Preset \<Rightarrow> preset_err option" where
  "Validate p =
     (if p_Name p = [] \<or> length (p_Name p) > 128 then Some BadName
      else if \<not> ValidContainer (p_Container p) then Some BadContainer
      else if \<not> ValidVideoCodec (p_VideoCodec p) then Some BadVideoCodec
      else if p_Container p = ContainerWebM \<and> p_VideoCodec p \<noteq> CodecAV1 then Some WebmNeedsAV1
      else if \<not> ValidRateControlMode (p_RateControl p) then Some BadRateControl
      else (case check_rate p of
              Some e \<Rightarrow> Some e
            | None \<Rightarrow>
                if p_GOPLength p < 1 \<or> p_GOPLength p > 600 then Some BadGOP
                else if \<not> ValidSpeedPreset (p_SpeedPreset p) then Some BadSpeedPreset
                else if length (p_Ladder p) = 0 \<or> length (p_Ladder p) > 8 then Some BadLadderSize
                else check_ladder 0 [] (p_Ladder p)))"

section \<open>The state machine\<close>

lemma State_round_trip: "string_of_State (State_of_string s) = s"
  by (simp add: State_of_string_def)

lemma wire_round_trips:
  "string_of_Container (Container_of_string s) = s"
  "string_of_RateControlMode (RateControlMode_of_string s) = s"
  "string_of_VideoCodec (VideoCodec_of_string s) = s"
  by (simp_all add: Container_of_string_def RateControlMode_of_string_def VideoCodec_of_string_def)

lemma Transition_ok_iff: "Transition a b = Inr () \<longleftrightarrow> CanTransition a b"
  by (cases a; cases b) (auto simp: Transition_def)

lemma CanTransition_valid: "CanTransition a b \<Longrightarrow> ValidState a \<and> ValidState b"
  by (cases a; cases b) auto

lemma completed_terminal: "\<not> CanTransition StateCompleted b"
  by simp

lemma CanRetry_iff: "CanRetry s \<longleftrightarrow> CanTransition s StateQueued"
  by (cases s) (auto simp: CanRetry_def)

lemma CanCancel_iff: "CanCancel s \<longleftrightarrow> CanTransition s StateFailed"
  by (cases s) (auto simp: CanCancel_def)

section \<open>What a valid preset is\<close>

definition rung_ok :: "Rung \<Rightarrow> bool" where
  "rung_ok r \<longleftrightarrow> rungNamePattern (r_Name r) \<and>
     16 \<le> r_Width r \<and> r_Width r \<le> 8192 \<and> even (r_Width r) \<and>
     16 \<le> r_Height r \<and> r_Height r \<le> 8192 \<and> even (r_Height r)"

lemma check_ladder_None:
  "check_ladder i seen rs = None \<longleftrightarrow>
     list_all rung_ok rs \<and> distinct (map r_Name rs) \<and> set seen \<inter> r_Name ` set rs = {}"
  by (induction i seen rs rule: check_ladder.induct)
    (auto simp: rung_ok_def even_iff_mod_2_eq_zero)

text \<open>The rate control fields a mode requires, as the API documents them.\<close>

definition rate_ok :: "Preset \<Rightarrow> bool" where
  "rate_ok p \<longleftrightarrow>
     (case p_RateControl p of
        RateControlCRF \<Rightarrow> 0 \<le> p_CRF p \<and> p_CRF p \<le> 51 \<and> p_BitrateKbps p = 0 \<and> p_MaxBitrateKbps p = 0
      | RateControlVBR \<Rightarrow> 1 \<le> p_BitrateKbps p \<and> p_CRF p = 0 \<and>
          (p_MaxBitrateKbps p = 0 \<or> p_BitrateKbps p \<le> p_MaxBitrateKbps p)
      | RateControlCBR \<Rightarrow> 1 \<le> p_BitrateKbps p \<and> p_CRF p = 0 \<and> p_MaxBitrateKbps p = 0
      | RateControlOther _ \<Rightarrow> False)"

lemma check_rate_None:
  "ValidRateControlMode (p_RateControl p) \<Longrightarrow> check_rate p = None \<longleftrightarrow> rate_ok p"
  by (cases "p_RateControl p") (auto simp: check_rate_def rate_ok_def)

definition preset_ok :: "Preset \<Rightarrow> bool" where
  "preset_ok p \<longleftrightarrow>
     1 \<le> length (p_Name p) \<and> length (p_Name p) \<le> 128 \<and>
     ValidContainer (p_Container p) \<and> ValidVideoCodec (p_VideoCodec p) \<and>
     (p_Container p = ContainerWebM \<longrightarrow> p_VideoCodec p = CodecAV1) \<and>
     rate_ok p \<and> 1 \<le> p_GOPLength p \<and> p_GOPLength p \<le> 600 \<and>
     ValidSpeedPreset (p_SpeedPreset p) \<and>
     1 \<le> length (p_Ladder p) \<and> length (p_Ladder p) \<le> 8 \<and>
     list_all rung_ok (p_Ladder p) \<and> distinct (map r_Name (p_Ladder p))"

lemma rate_ok_valid_mode: "rate_ok p \<Longrightarrow> ValidRateControlMode (p_RateControl p)"
  by (cases "p_RateControl p") (auto simp: rate_ok_def)

lemma length_pos_iff: "Suc 0 \<le> length xs \<longleftrightarrow> xs \<noteq> []"
  by (cases xs) auto

lemma Validate_accepts_iff: "Validate p = None \<longleftrightarrow> preset_ok p"
proof (cases "ValidRateControlMode (p_RateControl p)")
  case True
  then show ?thesis
    by (auto simp: Validate_def preset_ok_def check_ladder_None length_pos_iff
        simp flip: check_rate_None split: option.splits)
next
  case False
  then show ?thesis
    using rate_ok_valid_mode [of p] by (auto simp: Validate_def preset_ok_def)
qed

section \<open>Properties\<close>

text \<open>
  C5. \<open>Preset.Validate\<close> accepts exactly the documented presets, no more and no fewer.
\<close>

theorem preset_validate_exact: "Validate p = None \<longleftrightarrow> preset_ok p"
  by (rule Validate_accepts_iff)

lemma rungName_chars:
  assumes "rungNamePattern s"
  shows "1 \<le> length s \<and> length s \<le> 32 \<and> CHR ''/'' \<notin> set s \<and> is_alnum (hd s)"
proof (cases s)
  case Nil
  then show ?thesis using assms by (simp add: rungNamePattern_def)
next
  case (Cons c cs)
  then have c: "is_alnum c"
    and cs: "match_class (\<lambda>c. is_alnum c \<or> c = CHR ''.'' \<or> c = CHR ''_'' \<or> c = CHR ''-'') 0 31 cs"
    using assms by (simp_all add: rungNamePattern_def)
  from c have "c \<noteq> CHR ''/''" by auto
  moreover have "CHR ''/'' \<notin> set cs"
    by (rule match_class_notin [OF cs]) simp
  moreover have "length cs \<le> 31" using cs by (simp add: match_class_def)
  ultimately show ?thesis using Cons c by simp
qed

lemma alnum_head_not_dots: "is_alnum (hd s) \<Longrightarrow> s \<noteq> ''.'' \<and> s \<noteq> ''..''"
  by auto

text \<open>
  The rung names of an accepted preset are safe path segments: 1 to 32 bytes, without a
  slash, and neither \<open>.\<close> nor \<open>..\<close>.
\<close>

theorem valid_preset_rungs_safe:
  assumes "Validate p = None" "r \<in> set (p_Ladder p)"
  shows "1 \<le> length (r_Name r) \<and> length (r_Name r) \<le> 32 \<and> CHR ''/'' \<notin> set (r_Name r) \<and>
    r_Name r \<noteq> ''.'' \<and> r_Name r \<noteq> ''..''"
proof -
  have "rungNamePattern (r_Name r)"
    using assms by (auto simp: Validate_accepts_iff preset_ok_def list_all_iff rung_ok_def)
  then show ?thesis using rungName_chars alnum_head_not_dots by blast
qed

definition example_preset :: Preset where
  "example_preset = \<lparr>p_ID = ''p'', p_WorkspaceID = ''ws'', p_Name = ''web'',
     p_Container = ContainerMP4, p_VideoCodec = CodecH264, p_RateControl = RateControlVBR,
     p_CRF = 0, p_BitrateKbps = 4000, p_MaxBitrateKbps = 6000, p_GOPLength = 60,
     p_SpeedPreset = ''p4'',
     p_Ladder = [\<lparr>r_Name = ''720p'', r_Width = 1280, r_Height = 720\<rparr>],
     p_CreatedAt = 0, p_UpdatedAt = 0\<rparr>"

theorem valid_preset_rungs_safe_witness:
  "Validate example_preset = None \<and> CHR ''/'' \<notin> set ''720p''"
proof -
  have v: "Validate example_preset = None" by code_simp
  have "\<lparr>r_Name = ''720p'', r_Width = 1280, r_Height = 720\<rparr> \<in> set (p_Ladder example_preset)"
    by (simp add: example_preset_def)
  from valid_preset_rungs_safe [OF v this] v show ?thesis by simp
qed

end
