(* ===== verification/OrchStore.thy ===== *)
theory OrchStore
  imports JobModel Contracts "HOL-Library.Product_Lexorder" "HOL-Library.List_Lexorder"
    "HOL-Library.Char_ord"
begin

text \<open>
  The orchestrator's Postgres store, \<open>services/orchestrator/internal/store/store.go\<close>:
  the three tables, one definition per method, each SQL statement one atomic step wrapped
  in \<open>with_io\<close>. The state also carries what the process keeps outside the database: the
  metering and progress messages it has published, the scheduler's wake channel, its table
  of cancel functions (\<open>cancels\<close>, with the ids whose job context is cancelled in
  \<open>canceled\<close>), whether the process context is done (\<open>stopping\<close>), what other goroutines are
  about to do, and the keys of the objects in the S3 bucket.
\<close>

section \<open>State\<close>

record MediaInfo =
  mi_Container :: string
  mi_DurationSeconds :: real
  mi_VideoCodec :: string
  mi_AudioCodec :: string
  mi_Width :: int
  mi_Height :: int
  mi_ChromaSubsampling :: string
  mi_SourceBitrateBps :: int
  mi_VideoStreams :: int
  mi_AudioStreams :: int
  mi_SubtitleStreams :: int

record Source =
  s_ObjectKey :: string
  s_WorkspaceID :: string
  s_SHA256 :: string
  s_SizeBytes :: int
  s_Mime :: string
  s_MediaInfo :: MediaInfo
  s_ProbedAt :: int

record JobProgress =
  jp_JobID :: string
  jp_State :: string
  jp_FPS :: real
  jp_SpeedX :: real
  jp_ETASeconds :: real
  jp_ProgressPct :: real

text \<open>
  What other goroutines of the process do to the shared state while one of them runs: a user
  cancels a running job, the process is told to stop, or another handler or job runner issues
  a store call.
\<close>

datatype arrival =
  Quiet | UserCancel string | Shutdown | CreateCall Job | ClaimCall | RetryCall string string
| CancelCall string string | CompleteCall string "OutputProgress list"
| FailCall string ErrorClass string | PresetCall Preset | NewPresetCall Preset | SourceCall Source
| ProgressCall string real real real real "OutputProgress list"

record orch = env +
  t_sources :: "Source list"
  t_presets :: "Preset list"
  t_jobs :: "Job list"
  published_metering :: "MeteringEvent list"
  published_progress :: "JobProgress list"
  wake_pending :: bool
  cancels :: "string list"
  canceled :: "string list"
  stopping :: bool
  arrivals :: "arrival list"
  bucket :: "string list"

section \<open>Sources\<close>

definition UpsertSource :: "Source \<Rightarrow> (orch, unit) op" where
  "UpsertSource s = with_io (\<lambda>w.
     (Inr (),
      if has_key s_ObjectKey (s_ObjectKey s) (t_sources w)
      then w\<lparr>t_sources := update_where (\<lambda>r. s_ObjectKey r = s_ObjectKey s)
               (\<lambda>r. r\<lparr>s_SHA256 := s_SHA256 s, s_SizeBytes := s_SizeBytes s, s_Mime := s_Mime s,
                      s_MediaInfo := s_MediaInfo s, s_ProbedAt := clock w\<rparr>) (t_sources w)\<rparr>
      else w\<lparr>t_sources := t_sources w @ [s\<lparr>s_ProbedAt := clock w\<rparr>]\<rparr>))"

definition select_row :: "('r \<Rightarrow> bool) \<Rightarrow> 'r list \<Rightarrow> store_err + 'r" where
  "select_row P rows = (case List.find P rows of None \<Rightarrow> Inl ErrNotFound | Some r \<Rightarrow> Inr r)"

definition GetSource :: "string \<Rightarrow> string \<Rightarrow> (orch, Source) op" where
  "GetSource ws key = with_io (\<lambda>w.
     (select_row (\<lambda>s. s_WorkspaceID s = ws \<and> s_ObjectKey s = key) (t_sources w), w))"

section \<open>Presets\<close>

text \<open>
  The table constraints of migration 0001: enumerated columns, 32-bit integer columns and
  the two unique keys (the primary key and \<open>(workspace_id, name)\<close>). A violation is an
  ordinary statement error.
\<close>

definition in_i32 :: "int \<Rightarrow> bool" where
  "in_i32 x \<longleftrightarrow> - (2 ^ 31) \<le> x \<and> x < 2 ^ 31"

definition preset_columns_ok :: "Preset \<Rightarrow> bool" where
  "preset_columns_ok p \<longleftrightarrow>
     ValidContainer (p_Container p) \<and> ValidVideoCodec (p_VideoCodec p) \<and>
     ValidRateControlMode (p_RateControl p) \<and> ValidSpeedPreset (p_SpeedPreset p) \<and>
     in_i32 (p_CRF p) \<and> in_i32 (p_BitrateKbps p) \<and> in_i32 (p_MaxBitrateKbps p) \<and>
     in_i32 (p_GOPLength p)"

definition preset_name_taken :: "Preset \<Rightarrow> Preset list \<Rightarrow> bool" where
  "preset_name_taken p rows \<longleftrightarrow>
     (\<exists>r \<in> set rows. p_ID r \<noteq> p_ID p \<and> p_WorkspaceID r = p_WorkspaceID p \<and> p_Name r = p_Name p)"

definition CreatePreset :: "Preset \<Rightarrow> (orch, Preset) op" where
  "CreatePreset pr w =
     (case new_id w of
        (Inl e, w') \<Rightarrow> (Inl e, w')
      | (Inr i, w') \<Rightarrow> with_io (\<lambda>w.
          let row = pr\<lparr>p_ID := i, p_CreatedAt := clock w, p_UpdatedAt := clock w\<rparr> in
          if has_key p_ID i (t_presets w) \<or> preset_name_taken row (t_presets w)
             \<or> \<not> preset_columns_ok row
          then (Inl ErrIO, w)
          else (Inr row, w\<lparr>t_presets := t_presets w @ [row]\<rparr>)) w')"

definition GetPreset :: "string \<Rightarrow> string \<Rightarrow> (orch, Preset) op" where
  "GetPreset ws i = with_io (\<lambda>w.
     (select_row (\<lambda>p. p_WorkspaceID p = ws \<and> p_ID p = i) (t_presets w), w))"

definition DefaultPreset :: "string \<Rightarrow> (orch, Preset) op" where
  "DefaultPreset ws = with_io (\<lambda>w.
     (case first_least (\<lambda>p. (p_CreatedAt p, p_ID p)) (filter (\<lambda>p. p_WorkspaceID p = ws) (t_presets w)) of
        None \<Rightarrow> (Inl ErrNotFound, w)
      | Some p \<Rightarrow> (Inr p, w)))"

definition ListPresets :: "string \<Rightarrow> (orch, Preset list) op" where
  "ListPresets ws = with_io (\<lambda>w.
     (Inr (sort_key (\<lambda>p. - p_CreatedAt p) (filter (\<lambda>p. p_WorkspaceID p = ws) (t_presets w))), w))"

definition preset_set :: "Preset \<Rightarrow> int \<Rightarrow> Preset \<Rightarrow> Preset" where
  "preset_set pr now r =
     pr\<lparr>p_ID := p_ID r, p_WorkspaceID := p_WorkspaceID r, p_CreatedAt := p_CreatedAt r,
        p_UpdatedAt := now\<rparr>"

definition UpdatePreset :: "Preset \<Rightarrow> (orch, Preset) op" where
  "UpdatePreset pr = with_io (\<lambda>w.
     let P = (\<lambda>r. p_WorkspaceID r = p_WorkspaceID pr \<and> p_ID r = p_ID pr) in
     (case List.find P (t_presets w) of
        None \<Rightarrow> (Inl ErrNotFound, w)
      | Some r \<Rightarrow>
          if preset_name_taken pr (t_presets w) \<or> \<not> preset_columns_ok pr then (Inl ErrIO, w)
          else (Inr (preset_set pr (clock w) r),
                w\<lparr>t_presets := update_where P (preset_set pr (clock w)) (t_presets w)\<rparr>)))"

section \<open>Jobs\<close>

text \<open>\<open>UPDATE jobs SET ... WHERE ... RETURNING\<close>, scanned into one job.\<close>

definition update_job :: "(Job \<Rightarrow> bool) \<Rightarrow> (int \<Rightarrow> Job \<Rightarrow> Job) \<Rightarrow> (orch, Job) op" where
  "update_job P f w =
     (case List.find P (t_jobs w) of
        None \<Rightarrow> (Inl ErrNotFound, w)
      | Some j \<Rightarrow> (Inr (f (clock w) j),
                    w\<lparr>t_jobs := update_where P (f (clock w)) (t_jobs w)\<rparr>))"

definition CreateJob :: "Job \<Rightarrow> (orch, Job) op" where
  "CreateJob j w =
     (case new_id w of
        (Inl e, w') \<Rightarrow> (Inl e, w')
      | (Inr i, w') \<Rightarrow> with_io (\<lambda>w.
          let row = \<lparr>j_ID = i, j_WorkspaceID = j_WorkspaceID j, j_UserID = j_UserID j,
                     j_PresetID = j_PresetID j, j_SourceObjectKey = j_SourceObjectKey j,
                     j_SourceSHA256 = j_SourceSHA256 j, j_State = StateQueued,
                     j_ErrorClass = None, j_ErrorMessage = [], j_Attempts = 0,
                     j_ProgressPct = 0, j_FPS = 0, j_SpeedX = 0, j_ETASeconds = 0,
                     j_Outputs = j_Outputs j, j_CreatedAt = clock w, j_QueuedAt = clock w,
                     j_StartedAt = None, j_FinishedAt = None, j_UpdatedAt = clock w\<rparr> in
          if has_key j_ID i (t_jobs w) \<or> \<not> has_key p_ID (j_PresetID j) (t_presets w)
          then (Inl ErrIO, w)
          else (Inr row, w\<lparr>t_jobs := t_jobs w @ [row]\<rparr>)) w')"

definition HasActiveJobForSource :: "string \<Rightarrow> string \<Rightarrow> string \<Rightarrow> (orch, bool) op" where
  "HasActiveJobForSource ws key preset = with_io (\<lambda>w.
     (Inr (\<exists>j \<in> set (t_jobs w). j_WorkspaceID j = ws \<and> j_SourceObjectKey j = key \<and>
             j_PresetID j = preset \<and> j_State j \<noteq> StateFailed), w))"

definition GetJob :: "string \<Rightarrow> string \<Rightarrow> (orch, Job) op" where
  "GetJob ws i = with_io (\<lambda>w.
     (select_row (\<lambda>j. j_WorkspaceID j = ws \<and> j_ID j = i) (t_jobs w), w))"

definition ListJobs :: "string \<Rightarrow> State option \<Rightarrow> nat \<Rightarrow> (orch, Job list) op" where
  "ListJobs ws st limit = with_io (\<lambda>w.
     (Inr (take limit (sort_key (\<lambda>j. - j_CreatedAt j)
        (filter (\<lambda>j. j_WorkspaceID j = ws \<and> (case st of None \<Rightarrow> True | Some s \<Rightarrow> j_State j = s))
          (t_jobs w)))), w))"

definition is_active :: "Job \<Rightarrow> bool" where
  "is_active j \<longleftrightarrow> j_State j = StateQueued \<or> j_State j = StateRunning"

definition count_active :: "string \<Rightarrow> orch \<Rightarrow> nat" where
  "count_active ws w = length (filter (\<lambda>j. j_WorkspaceID j = ws \<and> is_active j) (t_jobs w))"

definition CountActiveJobs :: "string \<Rightarrow> (orch, int) op" where
  "CountActiveJobs ws = with_io (\<lambda>w. (Inr (int (count_active ws w)), w))"

definition claim_set :: "int \<Rightarrow> Job \<Rightarrow> Job" where
  "claim_set now j =
     j\<lparr>j_State := StateRunning, j_StartedAt := Some now, j_UpdatedAt := now,
       j_ErrorClass := None, j_ErrorMessage := [], j_Attempts := j_Attempts j + 1\<rparr>"

definition oldest_queued :: "orch \<Rightarrow> Job option" where
  "oldest_queued w = first_least j_QueuedAt (filter (\<lambda>j. j_State j = StateQueued) (t_jobs w))"

definition ClaimNextQueued :: "(orch, Job) op" where
  "ClaimNextQueued = with_io (\<lambda>w.
     (case oldest_queued w of
        None \<Rightarrow> (Inl ErrNotFound, w)
      | Some q \<Rightarrow> update_job (\<lambda>j. j_ID j = j_ID q) claim_set w))"

definition UpdateProgress ::
  "string \<Rightarrow> real \<Rightarrow> real \<Rightarrow> real \<Rightarrow> real \<Rightarrow> OutputProgress list \<Rightarrow> (orch, unit) op" where
  "UpdateProgress i pct fps speedX eta outputs = with_io (\<lambda>w.
     (Inr (), w\<lparr>t_jobs := update_where (\<lambda>j. j_ID j = i \<and> j_State j = StateRunning)
        (\<lambda>j. j\<lparr>j_ProgressPct := pct, j_FPS := fps, j_SpeedX := speedX, j_ETASeconds := eta,
               j_Outputs := outputs, j_UpdatedAt := clock w\<rparr>) (t_jobs w)\<rparr>))"

definition not_found_is_conflict :: "(store_err + 'a) \<times> 's \<Rightarrow> (store_err + 'a) \<times> 's" where
  "not_found_is_conflict r = (case r of (Inl ErrNotFound, w) \<Rightarrow> (Inl ErrConflict, w) | _ \<Rightarrow> r)"

definition complete_set :: "OutputProgress list \<Rightarrow> int \<Rightarrow> Job \<Rightarrow> Job" where
  "complete_set outputs now j =
     j\<lparr>j_State := StateCompleted, j_ProgressPct := 100, j_ETASeconds := 0,
       j_Outputs := outputs, j_FinishedAt := Some now, j_UpdatedAt := now\<rparr>"

definition MarkCompleted :: "string \<Rightarrow> OutputProgress list \<Rightarrow> (orch, Job) op" where
  "MarkCompleted i outputs w =
     not_found_is_conflict (with_io
       (update_job (\<lambda>j. j_ID j = i \<and> j_State j = StateRunning) (complete_set outputs)) w)"

definition fail_set :: "ErrorClass \<Rightarrow> string \<Rightarrow> int \<Rightarrow> Job \<Rightarrow> Job" where
  "fail_set cls msg now j =
     j\<lparr>j_State := StateFailed, j_ErrorClass := Some cls, j_ErrorMessage := msg,
       j_FinishedAt := Some now, j_UpdatedAt := now\<rparr>"

definition MarkFailed :: "string \<Rightarrow> ErrorClass \<Rightarrow> string \<Rightarrow> (orch, Job) op" where
  "MarkFailed i cls msg w =
     (if \<not> ValidErrorClass cls then (Inl ErrIO, w)
      else not_found_is_conflict (with_io
        (update_job (\<lambda>j. j_ID j = i \<and> is_active j) (fail_set cls msg)) w))"

text \<open>
  Retry and cancel tell a missing job from one in the wrong state with a second query; only
  a definite \<open>ErrNotFound\<close> of that query is reported as such.
\<close>

definition missing_or_conflict ::
  "string \<Rightarrow> string \<Rightarrow> (store_err + Job) \<times> orch \<Rightarrow> (store_err + Job) \<times> orch" where
  "missing_or_conflict ws i r =
     (case r of
        (Inl ErrNotFound, w) \<Rightarrow>
          (case GetJob ws i w of
             (Inl ErrNotFound, w') \<Rightarrow> (Inl ErrNotFound, w')
           | (_, w') \<Rightarrow> (Inl ErrConflict, w'))
      | _ \<Rightarrow> r)"

definition retry_set :: "int \<Rightarrow> Job \<Rightarrow> Job" where
  "retry_set now j =
     j\<lparr>j_State := StateQueued, j_ErrorClass := None, j_ErrorMessage := [],
       j_ProgressPct := 0, j_FPS := 0, j_SpeedX := 0, j_ETASeconds := 0, j_Outputs := [],
       j_QueuedAt := now, j_StartedAt := None, j_FinishedAt := None, j_UpdatedAt := now\<rparr>"

definition RetryJob :: "string \<Rightarrow> string \<Rightarrow> (orch, Job) op" where
  "RetryJob ws i w =
     missing_or_conflict ws i (with_io
       (update_job (\<lambda>j. j_WorkspaceID j = ws \<and> j_ID j = i \<and> j_State j = StateFailed) retry_set) w)"

definition CancelQueued :: "string \<Rightarrow> string \<Rightarrow> (orch, Job) op" where
  "CancelQueued ws i w =
     missing_or_conflict ws i (with_io
       (update_job (\<lambda>j. j_WorkspaceID j = ws \<and> j_ID j = i \<and> j_State j = StateQueued)
         (fail_set ErrorInternal ''canceled by user'')) w)"

end
