(* ===== verification/ObjectKeys.thy ===== *)
theory ObjectKeys
  imports OrchStore Boundary
begin

text \<open>
  Object keys. The frozen key shape and the landed-object event of
  \<open>services/orchestrator/internal/events/events.go\<close>, the key validator and the object
  store of \<open>services/orchestrator/internal/objstore/s3.go\<close>. The bucket is the list of
  stored keys in the orchestrator's state; an S3 request is one call that may fail.
\<close>

section \<open>The landed-object event (events.go)\<close>

definition SubjectJobProgress :: string where
  "SubjectJobProgress = ''aether.ft.jobs.progress.v1''"

definition ws_class :: "char \<Rightarrow> bool" where
  "ws_class c \<longleftrightarrow> is_alnum c \<or> c = CHR ''_'' \<or> c = CHR ''-''"

text \<open>
  \<open>^assets/([A-Za-z0-9_-]{1,64})/sha256/([0-9a-f]{64})$\<close>: the two submatches. Neither
  class contains a slash, so the split at the first slash after the prefix is the only match.
\<close>

definition ObjectKeyPattern :: "string \<Rightarrow> (string \<times> string) option" where
  "ObjectKeyPattern s =
     (if has_prefix ''assets/'' s then
        (case cut CHR ''/'' (drop 7 s) of
           None \<Rightarrow> None
         | Some (ws, rest) \<Rightarrow>
             if match_class ws_class 1 64 ws \<and> has_prefix ''sha256/'' rest \<and> hex64 (drop 7 rest)
             then Some (ws, drop 7 rest) else None)
      else None)"

datatype landed_err =
  LandedDecode string | LandedUploadId | LandedWorkspaceId | LandedUserId | LandedObjectKey
| LandedKeyWorkspace | LandedKeySha | LandedSize | LandedMime | LandedAtRequired

text \<open>
  \<open>uuid_ok\<close> is whether \<open>uuid.Parse\<close> accepts a string. A time is the number of
  nanoseconds since Go's zero time.
\<close>

definition ParseUploadLanded ::
  "(string \<Rightarrow> bool) \<Rightarrow> LandedObjectEvent json_in \<Rightarrow> landed_err + LandedObjectEvent" where
  "ParseUploadLanded uuid_ok data =
     (case strictUnmarshal data of
        Inl err \<Rightarrow> Inl (LandedDecode err)
      | Inr e \<Rightarrow>
          if \<not> uuid_ok (le_UploadID e) then Inl LandedUploadId
          else if le_WorkspaceID e = [] \<or> length (le_WorkspaceID e) > 64 then Inl LandedWorkspaceId
          else if le_UserID e = [] \<or> length (le_UserID e) > 128 then Inl LandedUserId
          else (case ObjectKeyPattern (le_ObjectKey e) of
                  None \<Rightarrow> Inl LandedObjectKey
                | Some (ws, sha) \<Rightarrow>
                    if ws \<noteq> le_WorkspaceID e then Inl LandedKeyWorkspace
                    else if sha \<noteq> le_SHA256 e then Inl LandedKeySha
                    else if le_SizeBytes e \<le> 0 then Inl LandedSize
                    else if le_Mime e = [] \<or> length (le_Mime e) > 255 then Inl LandedMime
                    else if le_LandedAt e = 0 then Inl LandedAtRequired
                    else Inr e))"

section \<open>The object store (s3.go)\<close>

definition keySegment :: "string \<Rightarrow> bool" where
  "keySegment s \<longleftrightarrow>
     match_class (\<lambda>c. is_alnum c \<or> c = CHR ''.'' \<or> c = CHR ''_'' \<or> c = CHR ''$'' \<or> c = CHR ''%'' \<or> c = CHR ''-'')
       1 128 s"

datatype key_err = KeyLength | KeySlash | KeySegment string

definition segment_bad :: "string \<Rightarrow> bool" where
  "segment_bad seg \<longleftrightarrow> seg = ''.'' \<or> seg = ''..'' \<or> \<not> keySegment seg"

definition validateKey :: "string \<Rightarrow> key_err option" where
  "validateKey key =
     (if key = [] \<or> length key > 512 then Some KeyLength
      else if has_prefix ''/'' key \<or> has_suffix ''/'' key then Some KeySlash
      else map_option KeySegment (List.find segment_bad (split_on CHR ''/'' key)))"

definition Exists :: "string \<Rightarrow> (orch, bool) op" where
  "Exists key w =
     (if validateKey key \<noteq> None then (Inl ErrIO, w)
      else with_io (\<lambda>w. (Inr (key \<in> set (bucket w)), w)) w)"

text \<open>A step on the local file system: it may fail and touches none of the modelled state.\<close>

definition local_io :: "(orch, unit) op" where
  "local_io = with_io (\<lambda>w. (Inr (), w))"

definition Download :: "string \<Rightarrow> (orch, unit) op" where
  "Download key w =
     (if validateKey key \<noteq> None then (Inl ErrIO, w)
      else and_then
        (with_io (\<lambda>w. (if key \<in> set (bucket w) then Inr () else Inl ErrIO, w)))
        (\<lambda>r. case r of Inl e \<Rightarrow> ret (Inl e) | Inr _ \<Rightarrow> local_io) w)"

definition put_key :: "string \<Rightarrow> orch \<Rightarrow> orch" where
  "put_key key w = w\<lparr>bucket := List.insert key (bucket w)\<rparr>"

definition PutFile :: "string \<Rightarrow> (orch, unit) op" where
  "PutFile key w =
     (if validateKey key \<noteq> None then (Inl ErrIO, w)
      else and_then local_io
        (\<lambda>r. case r of Inl e \<Rightarrow> ret (Inl e)
             | Inr _ \<Rightarrow> with_io (\<lambda>w. (Inr (), put_key key w))) w)"

text \<open>
  \<open>PutDir\<close> walks the directory; \<open>rels\<close> are the slash-separated relative paths of its
  regular files in the order of the walk. The first failing file ends the walk.
\<close>

fun put_files :: "string \<Rightarrow> string list \<Rightarrow> (orch, string list) op" where
  "put_files prefix [] w = (Inr [], w)"
| "put_files prefix (rel # rels) w =
     (case PutFile (prefix @ ''/'' @ rel) w of
        (Inl e, w') \<Rightarrow> (Inl e, w')
      | (Inr _, w') \<Rightarrow>
          (case put_files prefix rels w' of
             (Inl e, w'') \<Rightarrow> (Inl e, w'')
           | (Inr keys, w'') \<Rightarrow> (Inr ((prefix @ ''/'' @ rel) # keys), w'')))"

definition PutDir :: "string \<Rightarrow> string list \<Rightarrow> (orch, string list) op" where
  "PutDir prefix rels w =
     (if validateKey prefix \<noteq> None then (Inl ErrIO, w) else put_files prefix rels w)"

section \<open>Facts about keys\<close>

lemma ws_class_slash [simp]: "\<not> ws_class CHR ''/''"
  by (simp add: ws_class_def)

lemma ObjectKeyPattern_iff:
  "ObjectKeyPattern s = Some (ws, h) \<longleftrightarrow>
     s = ''assets/'' @ ws @ ''/sha256/'' @ h \<and> match_class ws_class 1 64 ws \<and> hex64 h"
proof
  assume m: "ObjectKeyPattern s = Some (ws, h)"
  then have "has_prefix ''assets/'' s"
    by (simp add: ObjectKeyPattern_def split: if_splits)
  then obtain t where t: "s = ''assets/'' @ t" by (auto simp: has_prefix_iff)
  with m obtain rest where r: "cut CHR ''/'' t = Some (ws, rest)" "has_prefix ''sha256/'' rest"
      "match_class ws_class 1 64 ws" "hex64 (drop 7 rest)" "h = drop 7 rest"
    by (auto simp: ObjectKeyPattern_def split: if_splits option.splits prod.splits)
  from r(2) obtain u where "rest = ''sha256/'' @ u" by (auto simp: has_prefix_iff)
  with t r show "s = ''assets/'' @ ws @ ''/sha256/'' @ h \<and> match_class ws_class 1 64 ws \<and> hex64 h"
    by (auto dest!: cut_SomeD)
next
  assume s: "s = ''assets/'' @ ws @ ''/sha256/'' @ h \<and> match_class ws_class 1 64 ws \<and> hex64 h"
  then have "CHR ''/'' \<notin> set ws" by (intro match_class_notin [of ws_class 1 64]) simp_all
  then have "cut CHR ''/'' (ws @ ''/sha256/'' @ h) = Some (ws, ''sha256/'' @ h)"
    using cut_append [of "CHR ''/''" ws "''sha256/'' @ h"] by simp
  with s show "ObjectKeyPattern s = Some (ws, h)"
    by (simp add: ObjectKeyPattern_def has_prefix_def)
qed

text \<open>The key of an asset, as the upload service writes it and the pattern reads it.\<close>

definition asset_key :: "string \<Rightarrow> string \<Rightarrow> string" where
  "asset_key ws h = ''assets/'' @ ws @ ''/sha256/'' @ h"

definition output_prefix :: "string \<Rightarrow> string \<Rightarrow> string \<Rightarrow> string" where
  "output_prefix ws job rung = ''outputs/'' @ ws @ ''/'' @ job @ ''/'' @ rung"

lemma validateKey_None:
  "validateKey key = None \<longleftrightarrow>
     key \<noteq> [] \<and> length key \<le> 512 \<and> \<not> has_prefix ''/'' key \<and> \<not> has_suffix ''/'' key \<and>
     (\<forall>seg \<in> set (split_on CHR ''/'' key). seg \<noteq> ''.'' \<and> seg \<noteq> ''..'' \<and> keySegment seg)"
  by (auto simp: validateKey_def find_None_iff segment_bad_def split: if_splits)

text \<open>A key is fine when it is the join of one or more good segments and short enough.\<close>

fun join_slash :: "string list \<Rightarrow> string" where
  "join_slash [] = []"
| "join_slash [s] = s"
| "join_slash (s # t # ss) = s @ CHR ''/'' # join_slash (t # ss)"

lemma keySegment_no_slash: "keySegment s \<Longrightarrow> CHR ''/'' \<notin> set s"
  unfolding keySegment_def by (erule match_class_notin) simp

lemma keySegment_nonempty: "keySegment s \<Longrightarrow> s \<noteq> []"
  by (auto simp: keySegment_def match_class_def)

lemma split_join:
  "segs \<noteq> [] \<Longrightarrow> (\<And>s. s \<in> set segs \<Longrightarrow> CHR ''/'' \<notin> set s) \<Longrightarrow>
   split_on CHR ''/'' (join_slash segs) = segs"
  by (induction segs rule: join_slash.induct) (auto simp: split_on_no_sep split_on_append)

lemma join_slash_ends:
  assumes "segs \<noteq> []" "\<And>s. s \<in> set segs \<Longrightarrow> s \<noteq> [] \<and> CHR ''/'' \<notin> set s"
  shows "join_slash segs \<noteq> [] \<and> hd (join_slash segs) \<noteq> CHR ''/'' \<and> last (join_slash segs) \<noteq> CHR ''/''"
  using assms
proof (induction segs rule: join_slash.induct)
  case (2 s)
  then have "s \<noteq> []" "CHR ''/'' \<notin> set s" by simp_all
  then show ?case by (metis hd_in_set join_slash.simps(2) last_in_set)
next
  case (3 s t ss)
  then have "s \<noteq> []" "CHR ''/'' \<notin> set s" by simp_all
  then have "hd s \<noteq> CHR ''/''" by (metis hd_in_set)
  moreover have "join_slash (t # ss) \<noteq> [] \<and> last (join_slash (t # ss)) \<noteq> CHR ''/''"
    using 3 by simp
  ultimately show ?case using \<open>s \<noteq> []\<close> by simp
qed simp

lemma has_prefix_slash: "has_prefix ''/'' s \<longleftrightarrow> s \<noteq> [] \<and> hd s = CHR ''/''"
  by (cases s) (auto simp: has_prefix_def)

lemma has_suffix_slash: "has_suffix ''/'' s \<longleftrightarrow> s \<noteq> [] \<and> last s = CHR ''/''"
  by (auto simp: has_suffix_def has_prefix_slash hd_rev)

lemma validateKey_join:
  assumes "segs \<noteq> []" "length (join_slash segs) \<le> 512"
    and seg: "\<And>s. s \<in> set segs \<Longrightarrow> keySegment s \<and> s \<noteq> ''.'' \<and> s \<noteq> ''..''"
  shows "validateKey (join_slash segs) = None"
proof -
  have s: "\<And>s. s \<in> set segs \<Longrightarrow> s \<noteq> [] \<and> CHR ''/'' \<notin> set s"
    using seg keySegment_no_slash keySegment_nonempty by blast
  with assms(1) have "split_on CHR ''/'' (join_slash segs) = segs" by (intro split_join) auto
  then show ?thesis
    using join_slash_ends [OF assms(1) s] assms(2) seg
    by (auto simp: validateKey_None has_prefix_slash has_suffix_slash)
qed

lemma ws_segment:
  assumes "match_class ws_class 1 64 ws"
  shows "keySegment ws \<and> ws \<noteq> ''.'' \<and> ws \<noteq> ''..'' \<and> length ws \<le> 64"
proof -
  have "keySegment ws"
    unfolding keySegment_def by (rule match_class_mono [OF assms]) (auto simp: ws_class_def)
  moreover have "CHR ''.'' \<notin> set ws"
    by (rule match_class_notin [OF assms]) (simp add: ws_class_def)
  ultimately show ?thesis using assms by (auto simp: match_class_def)
qed

lemma hex_segment:
  assumes "hex64 h"
  shows "keySegment h \<and> h \<noteq> ''.'' \<and> h \<noteq> ''..'' \<and> length h = 64"
proof -
  have "match_class is_hex 64 64 h" using assms by (simp add: hex64_def)
  then have "keySegment h"
    unfolding keySegment_def by (rule match_class_mono) (auto simp: is_hex_alnum)
  then show ?thesis using assms by (auto simp: hex64_def match_class_def)
qed

lemma literal_segments:
  "keySegment ''assets''" "keySegment ''sha256''" "keySegment ''outputs''"
  by (simp_all add: keySegment_def match_class_def is_alnum_def between_def is_digit_def)

lemma asset_key_valid:
  assumes "match_class ws_class 1 64 ws" "hex64 h"
  shows "validateKey (asset_key ws h) = None"
proof -
  have "asset_key ws h = join_slash [''assets'', ws, ''sha256'', h]"
    by (simp add: asset_key_def)
  then show ?thesis
    using validateKey_join [of "[''assets'', ws, ''sha256'', h]"] ws_segment [OF assms(1)]
      hex_segment [OF assms(2)] literal_segments by auto
qed

text \<open>The segments of an output prefix: a workspace, a job id of the identifier library, a rung.\<close>

definition uuid_shape :: "string \<Rightarrow> bool" where
  "uuid_shape s \<longleftrightarrow> match_class (\<lambda>c. is_hex c \<or> c = CHR ''-'') 36 36 s"

lemma uuid_segment:
  assumes "uuid_shape s"
  shows "keySegment s \<and> s \<noteq> ''.'' \<and> s \<noteq> ''..'' \<and> length s = 36"
proof -
  have "keySegment s"
    unfolding keySegment_def
    by (rule match_class_mono [OF assms [unfolded uuid_shape_def]]) (auto simp: is_hex_alnum)
  then show ?thesis using assms by (auto simp: uuid_shape_def match_class_def)
qed

lemma rung_segment:
  assumes "rungNamePattern s"
  shows "keySegment s \<and> s \<noteq> ''.'' \<and> s \<noteq> ''..'' \<and> length s \<le> 32"
proof -
  obtain c cs where s: "s = c # cs" "is_alnum c"
    and cs: "match_class (\<lambda>c. is_alnum c \<or> c = CHR ''.'' \<or> c = CHR ''_'' \<or> c = CHR ''-'') 0 31 cs"
    using assms by (auto simp: rungNamePattern_def split: list.splits)
  then show ?thesis by (auto simp: keySegment_def match_class_def list_all_iff)
qed

lemma output_key_valid:
  assumes "match_class ws_class 1 64 ws" "uuid_shape job" "rungNamePattern rung"
    and "keySegment file" "file \<noteq> ''.''" "file \<noteq> ''..''"
  shows "validateKey (output_prefix ws job rung) = None \<and>
    validateKey (output_prefix ws job rung @ ''/'' @ file) = None"
proof -
  have len: "length file \<le> 128" using assms(4) by (simp add: keySegment_def match_class_def)
  have eq: "output_prefix ws job rung = join_slash [''outputs'', ws, job, rung]"
    "output_prefix ws job rung @ ''/'' @ file = join_slash [''outputs'', ws, job, rung, file]"
    by (simp_all add: output_prefix_def)
  have seg: "keySegment s \<and> s \<noteq> ''.'' \<and> s \<noteq> ''..''"
    if "s \<in> set [''outputs'', ws, job, rung, file]" for s
    using that ws_segment [OF assms(1)] uuid_segment [OF assms(2)] rung_segment [OF assms(3)] assms(4-6)
      literal_segments by auto
  have sub: "set [''outputs'', ws, job, rung] \<subseteq> set [''outputs'', ws, job, rung, file]" by auto
  have l: "length (join_slash [''outputs'', ws, job, rung]) \<le> 512"
    "length (join_slash [''outputs'', ws, job, rung, file]) \<le> 512"
    using ws_segment [OF assms(1)] uuid_segment [OF assms(2)] rung_segment [OF assms(3)] len by simp_all
  have "validateKey (join_slash [''outputs'', ws, job, rung]) = None"
    by (rule validateKey_join [OF list.discI l(1) seg [OF subsetD [OF sub]]]) simp_all
  moreover have "validateKey (join_slash [''outputs'', ws, job, rung, file]) = None"
    by (rule validateKey_join [OF list.discI l(2) seg]) simp_all
  ultimately show ?thesis using eq by metis
qed

section \<open>Properties\<close>

lemma ParseUploadLanded_iff:
  "ParseUploadLanded uuid_ok data = Inr e \<longleftrightarrow>
     (\<exists>rest. data = JsonValue e rest \<and> \<not> dec_More rest) \<and> uuid_ok (le_UploadID e) \<and>
     match_class ws_class 1 64 (le_WorkspaceID e) \<and>
     1 \<le> length (le_UserID e) \<and> length (le_UserID e) \<le> 128 \<and>
     hex64 (le_SHA256 e) \<and> le_ObjectKey e = asset_key (le_WorkspaceID e) (le_SHA256 e) \<and>
     0 < le_SizeBytes e \<and> 1 \<le> length (le_Mime e) \<and> length (le_Mime e) \<le> 255 \<and> le_LandedAt e \<noteq> 0"
proof -
  have key: "ObjectKeyPattern (le_ObjectKey e) = Some (ws, sha) \<longleftrightarrow>
      le_ObjectKey e = asset_key ws sha \<and> match_class ws_class 1 64 ws \<and> hex64 sha" for ws sha
    by (simp add: ObjectKeyPattern_iff asset_key_def)
  have len: "match_class ws_class 1 64 ws \<Longrightarrow> ws \<noteq> [] \<and> length ws \<le> 64" for ws
    by (auto simp: match_class_def)
  have "ParseUploadLanded uuid_ok data = Inr e \<longleftrightarrow>
     strictUnmarshal data = Inr e \<and> uuid_ok (le_UploadID e) \<and> le_WorkspaceID e \<noteq> [] \<and>
     length (le_WorkspaceID e) \<le> 64 \<and> le_UserID e \<noteq> [] \<and> length (le_UserID e) \<le> 128 \<and>
     ObjectKeyPattern (le_ObjectKey e) = Some (le_WorkspaceID e, le_SHA256 e) \<and>
     0 < le_SizeBytes e \<and> le_Mime e \<noteq> [] \<and> length (le_Mime e) \<le> 255 \<and> le_LandedAt e \<noteq> 0"
    by (auto simp: ParseUploadLanded_def split: sum.splits option.splits prod.splits if_splits)
  then show ?thesis
    using len [of "le_WorkspaceID e"] unfolding key strictUnmarshal_Inr by (auto simp: Suc_le_eq)
qed

text \<open>
  C12. What \<open>ParseUploadLanded\<close> accepts, exactly: a JSON value that decodes into the event, whose
  upload id is a UUID, whose identifiers and MIME type are within their lengths, whose size is
  positive and time set, and whose object key is the key of its own workspace and digest. In two
  points this is more than the contract admits: after the value there may be white space, and then
  either nothing or anything that begins with a closing bracket or brace, where the comment says
  that trailing data is rejected; and any UUID passes as upload id, not only one of version 7.
\<close>

theorem landed_event_accepted_iff:
  "ParseUploadLanded uuid_ok data = Inr e \<longleftrightarrow>
     (\<exists>rest. data = JsonValue e rest \<and>
        (case dropWhile is_json_space rest of [] \<Rightarrow> True | c # _ \<Rightarrow> c = CHR '']'' \<or> c = CHR ''}'')) \<and>
     uuid_ok (le_UploadID e) \<and>
     match_class ws_class 1 64 (le_WorkspaceID e) \<and>
     1 \<le> length (le_UserID e) \<and> length (le_UserID e) \<le> 128 \<and>
     hex64 (le_SHA256 e) \<and> le_ObjectKey e = asset_key (le_WorkspaceID e) (le_SHA256 e) \<and>
     0 < le_SizeBytes e \<and> 1 \<le> length (le_Mime e) \<and> length (le_Mime e) \<le> 255 \<and> le_LandedAt e \<noteq> 0"
proof -
  have "\<not> dec_More rest \<longleftrightarrow>
      (case dropWhile is_json_space rest of [] \<Rightarrow> True | c # _ \<Rightarrow> c = CHR '']'' \<or> c = CHR ''}'')" for rest
    by (auto simp add: dec_More_def simp del: dropWhile_eq_Nil_conv split: list.splits)
  then show ?thesis using ParseUploadLanded_iff [of uuid_ok data e] by simp
qed

text \<open>
  No key the services derive is refused or escapes its place: the key of an accepted landed
  event, and every output key of a job of that workspace under a valid preset's rung, passes
  \<open>validateKey\<close>; and a key that passes has no empty, \<open>.\<close> or \<open>..\<close> segment.
\<close>

theorem derived_keys_valid:
  assumes "ParseUploadLanded uuid_ok data = Inr e" "uuid_shape job"
    and "Validate preset = None" "r \<in> set (p_Ladder preset)"
    and "keySegment file" "file \<noteq> ''.''" "file \<noteq> ''..''"
  shows "validateKey (le_ObjectKey e) = None \<and>
    validateKey (output_prefix (le_WorkspaceID e) job (r_Name r) @ ''/'' @ file) = None \<and>
    (\<forall>key. validateKey key = None \<longrightarrow> {[], ''.'', ''..''} \<inter> set (split_on CHR ''/'' key) = {})"
proof -
  have "ObjectKeyPattern (le_ObjectKey e) = Some (le_WorkspaceID e, le_SHA256 e)"
    using assms(1) by (auto simp: ParseUploadLanded_def split: sum.splits option.splits prod.splits if_splits)
  then have e: "le_ObjectKey e = asset_key (le_WorkspaceID e) (le_SHA256 e)"
    "match_class ws_class 1 64 (le_WorkspaceID e)" "hex64 (le_SHA256 e)"
    by (simp_all add: ObjectKeyPattern_iff asset_key_def)
  have "rungNamePattern (r_Name r)"
    using assms(3,4) by (auto simp: Validate_accepts_iff preset_ok_def list_all_iff rung_ok_def)
  then have "validateKey (output_prefix (le_WorkspaceID e) job (r_Name r) @ ''/'' @ file) = None"
    using output_key_valid [OF e(2) assms(2) _ assms(5-7)] by blast
  moreover have "{[], ''.'', ''..''} \<inter> set (split_on CHR ''/'' key) = {}" if "validateKey key = None" for key
    using that keySegment_nonempty unfolding validateKey_None by blast
  ultimately show ?thesis using asset_key_valid [OF e(2,3)] unfolding e(1) by blast
qed

definition ex_landed :: LandedObjectEvent where
  "ex_landed = \<lparr>le_UploadID = ''u1'', le_WorkspaceID = ''ws'', le_UserID = ''user'',
     le_ObjectKey = asset_key ''ws'' (replicate 64 CHR ''a''), le_SHA256 = replicate 64 CHR ''a'',
     le_SizeBytes = 5, le_Mime = ''video/mp4'', le_LandedAt = 9\<rparr>"

definition ex_ladder_preset :: Preset where
  "ex_ladder_preset = \<lparr>p_ID = ''p'', p_WorkspaceID = ''ws'', p_Name = ''web'', p_Container = ContainerMP4,
     p_VideoCodec = CodecH264, p_RateControl = RateControlCRF, p_CRF = 23, p_BitrateKbps = 0,
     p_MaxBitrateKbps = 0, p_GOPLength = 60, p_SpeedPreset = ''p4'',
     p_Ladder = [\<lparr>r_Name = ''720p'', r_Width = 1280, r_Height = 720\<rparr>], p_CreatedAt = 0, p_UpdatedAt = 0\<rparr>"

theorem derived_keys_valid_witness:
  "validateKey (le_ObjectKey ex_landed) = None \<and>
   validateKey (output_prefix ''ws'' (replicate 36 CHR ''0'') ''720p'' @ ''/'' @ ''720p.mp4'') = None"
proof -
  have 1: "ParseUploadLanded (\<lambda>_. True) (JsonValue ex_landed []) = Inr ex_landed" by code_simp
  have 2: "uuid_shape (replicate 36 CHR ''0'')" by code_simp
  have 3: "Validate ex_ladder_preset = None" by code_simp
  have 4: "\<lparr>r_Name = ''720p'', r_Width = 1280, r_Height = 720\<rparr> \<in> set (p_Ladder ex_ladder_preset)"
    by (simp add: ex_ladder_preset_def)
  have 5: "keySegment ''720p.mp4''" by code_simp
  show ?thesis
    using derived_keys_valid [OF 1 2 3 4 5] by (simp add: ex_landed_def)
qed

end
