(* ===== verification/UploadToOrch.thy ===== *)
theory UploadToOrch
  imports UploadScope ObjectKeys
begin

text \<open>
  Where the upload service meets the orchestrator: the landed events the one publishes, read by the
  parser of the other. The last section is about a completion that can no longer succeed.
\<close>

lemma asset_path_key: "asset_path ws d = asset_key ws d"
  by (simp add: asset_path_def asset_key_def)

lemma mimePattern_length: "mimePattern m \<Longrightarrow> 1 \<le> length m \<and> length m \<le> 255"
proof -
  assume "mimePattern m"
  then obtain a b where c: "cut CHR ''/'' m = Some (a, b)" and "match_class mime_class 1 127 a" "match_class mime_class 1 127 b"
    by (auto simp: mimePattern_def split: option.splits)
  moreover have "m = a @ CHR ''/'' # b" using cut_SomeD [OF c] by simp
  ultimately show ?thesis by (simp add: match_class_def)
qed

text \<open>
  C18. Every landed event the upload service ever publishes meets the orchestrator's contract in
  its digest, key, size and media type. What the parser may still refuse it for is only what the
  upload service takes unchecked from the bearer token: it is accepted exactly when the workspace
  is 1 to 64 characters of the key alphabet and the user id 1 to 128 characters.
\<close>

theorem landed_events_reach_orchestrator:
  assumes "s3_service obj part cl bkt" "\<forall>x. hex64 (sha x)" "in_i64 maxObject"
    and "(upload_step (deployed_upload cl bkt cfg maxObject) sha uuid_parse)\<^sup>*\<^sup>* w0 w" "fresh_upload obj w0"
    and "(topic, EvLanded e) \<in> set (u_events w)" "uuid_ok (le_UploadID e)" "le_LandedAt e \<noteq> 0"
  shows "ParseUploadLanded uuid_ok (JsonValue e []) = Inr e \<longleftrightarrow>
    match_class ws_class 1 64 (le_WorkspaceID e) \<and> 1 \<le> length (le_UserID e) \<and> length (le_UserID e) \<le> 128"
proof -
  have inv: "up_inv sha obj part w"
    by (rule upload_service.run_J [OF deployed_upload_service [OF assms(1-3), of cfg] assms(4,5)])
  have "landed_at (obj (u_s3 w)) (le_WorkspaceID e) (le_SHA256 e) (le_ObjectKey e) \<and> 0 < le_SizeBytes e \<and> mimePattern (le_Mime e)"
    using inv assms(6) by (force simp: up_inv_def core_inv_def event_landed_def)
  then show ?thesis
    using mimePattern_length assms(7,8)
    unfolding ParseUploadLanded_iff by (auto simp: landed_at_def asset_path_key dec_More_def)
qed

definition ex_announced :: "mem upl" where
  "ex_announced = snd (handleComplete ex_server ex_sha Some (Some ex_caller) ''s1'' ex_uploaded)"

lemma ex_announced_event:
  "(SubjectUploadLanded, EvLanded (landed_event ex_landed_session 7)) \<in> set (u_events ex_announced)"
  using ex_completed unfolding ex_announced_def by (metis snd_conv)

theorem landed_events_reach_orchestrator_witness:
  "ParseUploadLanded (\<lambda>_. True) (JsonValue (landed_event ex_landed_session 7) []) = Inr (landed_event ex_landed_session 7)"
proof -
  have m: "in_i64 (2 ^ 40)" by (simp add: in_i64_def)
  have h: "\<forall>x. hex64 (ex_sha x)" by (simp add: ex_sha_hex)
  have "upload_step ex_server ex_sha Some ex_uploaded ex_announced"
    unfolding ex_announced_def by (rule upload_step.complete)
  with ex_run(1) have run: "(upload_step ex_server ex_sha Some)\<^sup>*\<^sup>* ex_empty ex_announced" by simp
  have f: "le_WorkspaceID (landed_event ex_landed_session 7) = ''ws''" "le_UserID (landed_event ex_landed_session 7) = ''u''"
    "le_LandedAt (landed_event ex_landed_session 7) = 7"
    by (simp_all add: landed_event_def ex_landed_session_def ex_session_def)
  have "match_class ws_class 1 64 ''ws''" by (simp add: match_class_def ws_class_def is_alnum_def between_def is_digit_def)
  then show ?thesis
    using landed_events_reach_orchestrator [OF mem.s3_service_axioms h m run [unfolded ex_server_def] ex_run(2) ex_announced_event,
        of "\<lambda>_. True"] f by simp
qed

section \<open>A completion that cannot be retried\<close>

text \<open>
  The staging object is deleted before the assembled state is written. If that write fails, the
  session is still active, but neither its parts nor its staging object exist any more.
\<close>

definition emptied ::
  "('b \<Rightarrow> string \<Rightarrow> string option) \<Rightarrow> ('b \<Rightarrow> string \<Rightarrow> string \<Rightarrow> int \<Rightarrow> (string \<times> string) option) \<Rightarrow> Session \<Rightarrow> 'b \<Rightarrow> bool" where
  "emptied obj part s b \<longleftrightarrow> obj b (ss_StagingKey s) = None \<and> part b (ss_StagingKey s) (ss_S3UploadID s) 1 = None"

context upload_service
begin

lemma assemble_emptied:
  assumes "J w" "s \<in> set (u_sessions w)" "emptied obj part s (u_s3 w)"
    and cs: "cs = chunks_of (ss_ID s) (u_chunks w)"
  shows "fst (assemble sv sha s (map part_of cs) w) = None"
proof -
  obtain r b where run: "CompleteMultipart (sv_blobs sv) (ss_StagingKey s) (ss_S3UploadID s) (map part_of cs) (u_s3 w) = (r, b)"
    by fastforce
  have idx: "map ck_Index cs = [0..ss_ChunkCount s - 1]" using inv_indices [OF assms(1,2)] cs by simp
  have pos: "0 < ss_ChunkCount s" using shape_bounds(1) [OF inv_shape [OF assms(1,2)]] .
  obtain c cs' where c: "cs = c # cs'" "ck_Index c = 0"
    using idx upto_rec1 [of 0 "ss_ChunkCount s - 1"] pos by (cases cs) auto
  have p1: "part_of c = \<lparr>cp_PartNumber = 1, cp_ETag = ck_ETag c\<rparr>" using c by (simp add: part_of_def wrap32_def)
  have "\<not> assembled part (u_s3 w) (ss_StagingKey s) (ss_S3UploadID s) (map part_of cs) x" for x
    using assms(3) by (auto simp: assembled_def c p1 list_all2_Cons1 emptied_def)
  moreover have "sort_key cp_PartNumber (map part_of cs) = map part_of cs" using parts_sorted [OF assms(1,2)] cs by simp
  ultimately have no: "r \<noteq> Inr ()" "obj b (ss_StagingKey s) = None"
    using blob_complete [OF run] assms(3) by (auto simp: emptied_def)
  obtain r3 b3 where hd: "HeadObject (sv_blobs sv) (ss_StagingKey s) b = (r3, b3)" by fastforce
  have "r3 \<noteq> Inr (n, True)" for n using blob_head [OF hd] no(2) by auto
  then show ?thesis
    using no(1) run hd unfolding assemble_def
    by (auto simp: and_then_def s3op_def ret_def split: sum.splits prod.splits)
qed

lemma complete_emptied:
  "valid (\<lambda>w. J w \<and> s \<in> set (u_sessions w) \<and> emptied obj part s (u_s3 w))
    (handleComplete sv sha uuid_parse ident path)
    (\<lambda>r _. uuid_parse path = Some (ss_ID s) \<longrightarrow> ss_State s = SessionActive \<longrightarrow> fst r \<noteq> 200)"
  unfolding handleComplete_def
proof (rule load_valid, goal_cases)
  case (3 i t)
  let ?P = "\<lambda>w. J w \<and> s \<in> set (u_sessions w) \<and> emptied obj part s (u_s3 w)"
  show ?case
  proof (rule valid_assume, goal_cases)
    case (1 w0)
    show ?case
    proof (cases "uuid_parse path = Some (ss_ID s) \<and> ss_State s = SessionActive")
      case True
      then have t: "t = s" using 1 3 inv_session_unique [of sha obj part w0 s t] by auto
      have get: "valid ?P (GetChunks (ss_ID s)) (\<lambda>r w. ?P w \<and> (\<forall>cs. r = Inr cs \<longrightarrow> cs = chunks_of (ss_ID s) (u_chunks w)))"
        unfolding GetChunks_def
        by (rule valid_with_io [of ?P _ "\<lambda>r w. ?P w \<and> (\<forall>cs. r = Inr cs \<longrightarrow> cs = chunks_of (ss_ID s) (u_chunks w))"])
          (auto simp: valid_def)
      have asm: "valid (\<lambda>w. ?P w \<and> cs = chunks_of (ss_ID s) (u_chunks w)) (assemble sv sha s (map part_of cs)) (\<lambda>r _. r = None)" for cs
        unfolding valid_def using assemble_emptied [of _ s cs] by simp
      show ?thesis
        unfolding t using True
        apply simp
        apply (rule valid_and_then [OF valid_pre [OF get]], simp)
        subgoal for r
          unfolding Let_def
          apply (rule valid_sum_case)
           apply (rule valid_ret, simp)
          subgoal for cs
            apply (rule valid_if)
             apply (rule valid_ret, simp)
            apply (simp add: filter_id_conv [THEN iffD2] filter_empty_conv)
            apply (rule valid_and_then [OF valid_pre [OF asm]], simp)
            apply (auto simp: valid_def ret_def)
            done
          done
        done
    qed (auto simp: valid_def)
  qed
qed auto

end

text \<open>
  A complete request whose last write failed cannot be retried. In every state of the service in
  which a session is still active but its first part and its staging object are gone, no complete
  request for it succeeds, whatever the storage, the database and the broker do; the service
  nevertheless answers that the caller should retry.
\<close>

theorem emptied_session_never_completes:
  assumes "s3_service obj part cl bkt" "\<forall>x. hex64 (sha x)" "in_i64 maxObject" "up_inv sha obj part w"
    and "s \<in> set (u_sessions w)" "ss_State s = SessionActive" "emptied obj part s (u_s3 w)" "uuid_parse path = Some (ss_ID s)"
  shows "fst (fst (handleComplete (deployed_upload cl bkt cfg maxObject) sha uuid_parse ident path w)) \<noteq> 200"
  using validD_snd [OF upload_service.complete_emptied [OF deployed_upload_service [OF assms(1-3)]]] assms(4-8) by blast

definition ex_failed :: "mem upl" where
  "ex_failed = snd (handleComplete ex_server ex_sha Some (Some ex_caller) ''s1'' (ex_uploaded\<lparr>io_script := [IoOk, IoOk, IoFail]\<rparr>))"

lemma ex_failed_state:
  "u_sessions ex_failed = [ex_session]" "emptied m_objects m_parts ex_session (u_s3 ex_failed)"
proof -
  let ?w = "ex_uploaded\<lparr>io_script := [IoOk, IoOk, IoFail]\<rparr>" and ?w2 = "ex_uploaded\<lparr>io_script := [IoFail]\<rparr>"
  have io: "u_sessions ex_uploaded = [ex_session]" "u_chunks ex_uploaded = [ex_chunk]" "u_s3 ex_uploaded = ex_stored"
    by (simp_all add: ex_uploaded_eq ex_created_eq ex_empty_def)
  have c: "chunks_of ''s1'' [ex_chunk] = [ex_chunk]" "ck_State ex_chunk = ChunkDone" "part_of ex_chunk = \<lparr>cp_PartNumber = 1, cp_ETag = ''ehi''\<rparr>"
    by (simp_all add: chunks_of_def ex_chunk_def part_of_def wrap32_def)
  have j: "m_parts ex_stored (staging_key ''s1'') ''ustaging/s1'' 1 = Some (''ehi'', ''hi'')"
    by (simp add: ex_stored_def mem_put_def)
  have ne: "asset_path ''ws'' d \<noteq> staging_key ''s1''" for d by (simp add: asset_path_def staging_key_def)
  have sl: "sort_key cp_PartNumber [p] = [p]" for p by simp
  have lim: "2 \<le> singleCopyLimit" by (simp add: singleCopyLimit_def)
  have a: "\<exists>w'. assemble ex_server ex_sha ex_session [\<lparr>cp_PartNumber = 1, cp_ETag = ''ehi''\<rparr>] ?w2 = (None, w') \<and>
      u_sessions w' = [ex_session] \<and> emptied m_objects m_parts ex_session (u_s3 w')"
    unfolding assemble_def ex_server_fields hash_staging_def land_def Let_def
    by (simp add: s3op_def and_then_def ret_def NewS3BlobStore_def S3_CompleteMultipart_def S3_GetObject_def S3_Copy_def S3_Delete_def
        mem_client_def sl j io ex_session_fields lim Let_def mem_source [of "''b''", simplified] SetSessionAssembled_def exec_sessions_def
        with_io_def next_io_def rows_affected_def update_where_def one_row_def emptied_def)
  have l: "loadOwnedSession Some (Some ex_caller) ''s1'' k ?w = k ex_caller ex_session (ex_uploaded\<lparr>io_script := [IoOk, IoFail]\<rparr>)" for k
    by (simp add: loadOwnedSession_def GetSession_def and_then_def ret_def with_io_def next_io_def io ex_session_fields ex_caller_def)
  from a have "u_sessions ex_failed = [ex_session] \<and> emptied m_objects m_parts ex_session (u_s3 ex_failed)"
    unfolding ex_failed_def handleComplete_def l Let_def
    by (auto simp: ex_session_fields GetChunks_def and_then_def ret_def with_io_def next_io_def io c)
  then show "u_sessions ex_failed = [ex_session]" "emptied m_objects m_parts ex_session (u_s3 ex_failed)" by auto
qed

theorem emptied_session_never_completes_witness:
  "fst (fst (handleComplete ex_server ex_sha Some (Some ex_caller) ''s1'' ex_failed)) \<noteq> 200"
proof -
  have m: "in_i64 (2 ^ 40)" by (simp add: in_i64_def)
  have h: "\<forall>x. hex64 (ex_sha x)" by (simp add: ex_sha_hex)
  have sv: "upload_service m_objects m_parts ex_server ex_sha"
    unfolding ex_server_def by (rule deployed_upload_service [OF mem.s3_service_axioms h m])
  have "up_inv ex_sha m_objects m_parts ex_uploaded" by (rule upload_service.run_J [OF sv ex_run])
  then have "up_inv ex_sha m_objects m_parts ex_failed"
    unfolding ex_failed_def by (intro validD_snd [OF upload_service.complete_J [OF sv]]) (simp add: up_inv_def)
  then show ?thesis
    using emptied_session_never_completes [OF mem.s3_service_axioms [of "''b''"] h m, of ex_failed ex_session Some "''s1''" ex_quota "Some ex_caller"] ex_failed_state
    by (simp add: ex_session_fields ex_server_def)
qed

end
