(* ===== verification/TenStore.thy ===== *)
theory TenStore
  imports Contracts
begin

text \<open>
  The tenancy service's data, \<open>services/tenancy/store.go\<close>, and its Postgres store,
  \<open>services/tenancy/postgres.go\<close>: the eight tables of migration 000001 with their key, foreign
  key and check constraints, one definition per method, each statement or transaction one atomic
  step wrapped in \<open>with_io\<close>. Times are nanoseconds since Go's zero time (1 January of year 1, UTC),
  so \<open>IsZero\<close> is \<open>t = 0\<close>; the state also holds the bytes the entropy source will return.
\<close>

section \<open>Data (store.go)\<close>

definition RoleOwner :: string where "RoleOwner = ''owner''"

definition RoleAdmin :: string where "RoleAdmin = ''admin''"

definition RoleMember :: string where "RoleMember = ''member''"

definition validRole :: "string \<Rightarrow> bool" where
  "validRole r \<longleftrightarrow> r = RoleOwner \<or> r = RoleAdmin \<or> r = RoleMember"

record User =
  us_ID :: string
  us_GoogleSub :: string
  us_Email :: string
  us_Name :: string
  us_ActiveWorkspaceID :: string
  us_CreatedAt :: int
  us_LastLoginAt :: int

record Workspace =
  ws_ID :: string
  ws_Name :: string
  ws_PlanTier :: string
  ws_CreatedBy :: string
  ws_CreatedAt :: int

record Membership =
  mb_WorkspaceID :: string
  mb_UserID :: string
  mb_Role :: string
  mb_CreatedAt :: int

record WorkspaceWithRole =
  wr_Workspace :: Workspace
  wr_Role :: string

record MemberWithUser =
  mu_Membership :: Membership
  mu_Email :: string
  mu_Name :: string

record RefreshToken =
  rt_ID :: string
  rt_UserID :: string
  rt_FamilyID :: string
  rt_TokenHash :: string
  rt_CreatedAt :: int
  rt_ExpiresAt :: int
  rt_UsedAt :: "int option"
  rt_RevokedAt :: "int option"

record LoginState =
  ls_State :: string
  ls_Nonce :: string
  ls_PKCEVerifier :: string
  ls_CreatedAt :: int
  ls_ExpiresAt :: int

record APIKey =
  ak_ID :: string
  ak_WorkspaceID :: string
  ak_Name :: string
  ak_SecretHash :: string
  ak_CreatedBy :: string
  ak_CreatedAt :: int
  ak_LastUsedAt :: "int option"
  ak_RevokedAt :: "int option"

record UsageRollup =
  ur_WorkspaceID :: string
  ur_Month :: string
  ur_BytesUploaded :: int
  ur_EncodeSeconds :: real
  ur_UploadSessions :: int
  ur_UploadsCompleted :: int
  ur_JobsQueued :: int
  ur_JobsStarted :: int
  ur_JobsCompleted :: int
  ur_JobsFailed :: int
  ur_UpdatedAt :: int

text \<open>The zero value of the struct.\<close>

definition zero_rollup :: UsageRollup where
  "zero_rollup = \<lparr>ur_WorkspaceID = [], ur_Month = [], ur_BytesUploaded = 0, ur_EncodeSeconds = 0,
     ur_UploadSessions = 0, ur_UploadsCompleted = 0, ur_JobsQueued = 0, ur_JobsStarted = 0,
     ur_JobsCompleted = 0, ur_JobsFailed = 0, ur_UpdatedAt = 0\<rparr>"

record ten = env +
  t_users :: "User list"
  t_workspaces :: "Workspace list"
  t_members :: "Membership list"
  t_refresh :: "RefreshToken list"
  t_logins :: "LoginState list"
  t_apikeys :: "APIKey list"
  t_metered :: "MeteringEvent list"
  t_rollups :: "UsageRollup list"
  entropy :: string

text \<open>\<open>s.now()\<close>, for the rest of a handler.\<close>

definition at_clock :: "(int \<Rightarrow> ten \<Rightarrow> 'a \<times> ten) \<Rightarrow> ten \<Rightarrow> 'a \<times> ten" where
  "at_clock k w = k (clock w) w"

text \<open>A single row by its key, \<open>QueryRow ... Scan\<close>: no row is \<open>ErrNotFound\<close>.\<close>

definition query_row :: "('r \<Rightarrow> bool) \<Rightarrow> 'r list \<Rightarrow> store_err + 'r" where
  "query_row P rows = (case List.find P rows of None \<Rightarrow> Inl ErrNotFound | Some r \<Rightarrow> Inr r)"

text \<open>An \<open>UPDATE\<close> or \<open>DELETE\<close> that must affect a row.\<close>

definition affected :: "('r \<Rightarrow> bool) \<Rightarrow> 'r list \<Rightarrow> store_err + unit" where
  "affected P rows = (if rows_affected P rows = 0 then Inl ErrNotFound else Inr ())"

section \<open>Login states\<close>

definition SaveLoginState :: "LoginState \<Rightarrow> (ten, unit) op" where
  "SaveLoginState ls = with_io (\<lambda>w.
     if has_key ls_State (ls_State ls) (t_logins w) then (Inl ErrIO, w)
     else (Inr (), w\<lparr>t_logins := t_logins w @ [ls]\<rparr>))"

definition TakeLoginState :: "string \<Rightarrow> int \<Rightarrow> (ten, LoginState) op" where
  "TakeLoginState st now w =
     (case with_io (\<lambda>w. (query_row (\<lambda>l. ls_State l = st) (t_logins w),
                         w\<lparr>t_logins := delete_where (\<lambda>l. ls_State l = st) (t_logins w)\<rparr>)) w of
        (Inl e, w') \<Rightarrow> (Inl e, w')
      | (Inr ls, w') \<Rightarrow> (if now > ls_ExpiresAt ls then Inl ErrNotFound else Inr ls, w'))"

section \<open>Users\<close>

definition email_taken :: "string \<Rightarrow> string \<Rightarrow> User list \<Rightarrow> bool" where
  "email_taken i email rows \<longleftrightarrow> (\<exists>u \<in> set rows. us_ID u \<noteq> i \<and> to_lower (us_Email u) = to_lower email)"

definition UpsertUserByGoogleSub :: "string \<Rightarrow> string \<Rightarrow> string \<Rightarrow> int \<Rightarrow> (ten, User) op" where
  "UpsertUserByGoogleSub sub email name now w =
     (case new_id w of
        (Inl e, w') \<Rightarrow> (Inl e, w')
      | (Inr i, w') \<Rightarrow> with_io (\<lambda>w.
          let email = to_lower email in
          case List.find (\<lambda>u. us_GoogleSub u = sub) (t_users w) of
            None \<Rightarrow>
              (let u = \<lparr>us_ID = i, us_GoogleSub = sub, us_Email = email, us_Name = name,
                        us_ActiveWorkspaceID = [], us_CreatedAt = now, us_LastLoginAt = now\<rparr> in
               if has_key us_ID i (t_users w) \<or> email_taken i email (t_users w) then (Inl ErrIO, w)
               else (Inr u, w\<lparr>t_users := t_users w @ [u]\<rparr>))
          | Some u \<Rightarrow>
              (let f = (\<lambda>u. u\<lparr>us_Email := email, us_Name := name, us_LastLoginAt := now\<rparr>) in
               if email_taken (us_ID u) email (t_users w) then (Inl ErrIO, w)
               else (Inr (f u), w\<lparr>t_users := update_where (\<lambda>u. us_GoogleSub u = sub) f (t_users w)\<rparr>))) w')"

definition GetUser :: "string \<Rightarrow> (ten, User) op" where
  "GetUser i = with_io (\<lambda>w. (query_row (\<lambda>u. us_ID u = i) (t_users w), w))"

definition GetUserByEmail :: "string \<Rightarrow> (ten, User) op" where
  "GetUserByEmail email = with_io (\<lambda>w. (query_row (\<lambda>u. to_lower (us_Email u) = to_lower email) (t_users w), w))"

definition SetActiveWorkspace :: "string \<Rightarrow> string \<Rightarrow> (ten, unit) op" where
  "SetActiveWorkspace user wsid = with_io (\<lambda>w.
     (affected (\<lambda>u. us_ID u = user) (t_users w),
      w\<lparr>t_users := update_where (\<lambda>u. us_ID u = user) (\<lambda>u. u\<lparr>us_ActiveWorkspaceID := wsid\<rparr>) (t_users w)\<rparr>))"

section \<open>Workspaces and membership\<close>

definition member_key :: "Membership \<Rightarrow> string \<times> string" where
  "member_key m = (mb_WorkspaceID m, mb_UserID m)"

definition member_at :: "string \<Rightarrow> string \<Rightarrow> Membership \<Rightarrow> bool" where
  "member_at wsid user m \<longleftrightarrow> mb_WorkspaceID m = wsid \<and> mb_UserID m = user"

definition is_owner :: "string \<Rightarrow> Membership \<Rightarrow> bool" where
  "is_owner wsid m \<longleftrightarrow> mb_WorkspaceID m = wsid \<and> mb_Role m = RoleOwner"

text \<open>One transaction: a failure of either insert rolls both back.\<close>

definition CreateWorkspace :: "Workspace \<Rightarrow> string \<Rightarrow> (ten, unit) op" where
  "CreateWorkspace wk owner = with_io (\<lambda>w.
     let m = \<lparr>mb_WorkspaceID = ws_ID wk, mb_UserID = owner, mb_Role = RoleOwner, mb_CreatedAt = ws_CreatedAt wk\<rparr> in
     if has_key ws_ID (ws_ID wk) (t_workspaces w) then (Inl ErrDuplicate, w)
     else if \<not> has_key us_ID (ws_CreatedBy wk) (t_users w) \<or> \<not> has_key us_ID owner (t_users w) \<or>
             has_key member_key (member_key m) (t_members w) then (Inl ErrIO, w)
     else (Inr (), w\<lparr>t_workspaces := t_workspaces w @ [wk], t_members := t_members w @ [m]\<rparr>))"

definition GetWorkspace :: "string \<Rightarrow> (ten, Workspace) op" where
  "GetWorkspace i = with_io (\<lambda>w. (query_row (\<lambda>k. ws_ID k = i) (t_workspaces w), w))"

definition ListWorkspacesForUser :: "string \<Rightarrow> (ten, WorkspaceWithRole list) op" where
  "ListWorkspacesForUser user = with_io (\<lambda>w.
     (Inr (sort_key (\<lambda>r. ws_CreatedAt (wr_Workspace r))
        (concat (map (\<lambda>m. map (\<lambda>k. \<lparr>wr_Workspace = k, wr_Role = mb_Role m\<rparr>)
            (filter (\<lambda>k. ws_ID k = mb_WorkspaceID m) (t_workspaces w)))
          (filter (\<lambda>m. mb_UserID m = user) (t_members w))))), w))"

definition GetMembership :: "string \<Rightarrow> string \<Rightarrow> (ten, Membership) op" where
  "GetMembership wsid user = with_io (\<lambda>w. (query_row (member_at wsid user) (t_members w), w))"

definition ListMembers :: "string \<Rightarrow> (ten, MemberWithUser list) op" where
  "ListMembers wsid = with_io (\<lambda>w.
     (Inr (concat (map (\<lambda>m. map (\<lambda>u. \<lparr>mu_Membership = m, mu_Email = us_Email u, mu_Name = us_Name u\<rparr>)
            (filter (\<lambda>u. us_ID u = mb_UserID m) (t_users w)))
          (sort_key mb_CreatedAt (filter (\<lambda>m. mb_WorkspaceID m = wsid) (t_members w))))), w))"

definition AddMember :: "Membership \<Rightarrow> (ten, unit) op" where
  "AddMember m = with_io (\<lambda>w.
     if \<not> validRole (mb_Role m) then (Inl ErrIO, w)
     else if has_key member_key (member_key m) (t_members w) then (Inl ErrDuplicate, w)
     else if \<not> has_key ws_ID (mb_WorkspaceID m) (t_workspaces w) \<or> \<not> has_key us_ID (mb_UserID m) (t_users w)
     then (Inl ErrIO, w)
     else (Inr (), w\<lparr>t_members := t_members w @ [m]\<rparr>))"

definition UpdateMemberRole :: "string \<Rightarrow> string \<Rightarrow> string \<Rightarrow> (ten, unit) op" where
  "UpdateMemberRole wsid user role = with_io (\<lambda>w.
     if rows_affected (member_at wsid user) (t_members w) \<noteq> 0 \<and> \<not> validRole role then (Inl ErrIO, w)
     else (affected (member_at wsid user) (t_members w),
           w\<lparr>t_members := update_where (member_at wsid user) (\<lambda>m. m\<lparr>mb_Role := role\<rparr>) (t_members w)\<rparr>))"

definition RemoveMember :: "string \<Rightarrow> string \<Rightarrow> (ten, unit) op" where
  "RemoveMember wsid user = with_io (\<lambda>w.
     (affected (member_at wsid user) (t_members w),
      w\<lparr>t_members := delete_where (member_at wsid user) (t_members w)\<rparr>))"

definition CountOwners :: "string \<Rightarrow> (ten, int) op" where
  "CountOwners wsid = with_io (\<lambda>w. (Inr (int (rows_affected (is_owner wsid) (t_members w))), w))"

section \<open>Refresh tokens\<close>

definition CreateRefreshToken :: "RefreshToken \<Rightarrow> (ten, unit) op" where
  "CreateRefreshToken rt = with_io (\<lambda>w.
     if has_key rt_ID (rt_ID rt) (t_refresh w) \<or> has_key rt_TokenHash (rt_TokenHash rt) (t_refresh w) \<or>
        \<not> has_key us_ID (rt_UserID rt) (t_users w) then (Inl ErrIO, w)
     else (Inr (), w\<lparr>t_refresh := t_refresh w @ [rt\<lparr>rt_UsedAt := None, rt_RevokedAt := None\<rparr>]\<rparr>))"

definition GetRefreshTokenByHash :: "string \<Rightarrow> (ten, RefreshToken) op" where
  "GetRefreshTokenByHash h = with_io (\<lambda>w. (query_row (\<lambda>t. rt_TokenHash t = h) (t_refresh w), w))"

definition MarkRefreshTokenUsed :: "string \<Rightarrow> int \<Rightarrow> (ten, unit) op" where
  "MarkRefreshTokenUsed i now = with_io (\<lambda>w.
     let P = (\<lambda>t. rt_ID t = i \<and> rt_UsedAt t = None) in
     (affected P (t_refresh w), w\<lparr>t_refresh := update_where P (\<lambda>t. t\<lparr>rt_UsedAt := Some now\<rparr>) (t_refresh w)\<rparr>))"

definition RevokeRefreshFamily :: "string \<Rightarrow> int \<Rightarrow> (ten, unit) op" where
  "RevokeRefreshFamily fam now = with_io (\<lambda>w.
     (Inr (), w\<lparr>t_refresh := update_where (\<lambda>t. rt_FamilyID t = fam \<and> rt_RevokedAt t = None)
        (\<lambda>t. t\<lparr>rt_RevokedAt := Some now\<rparr>) (t_refresh w)\<rparr>))"

section \<open>API keys\<close>

definition CreateAPIKey :: "APIKey \<Rightarrow> (ten, unit) op" where
  "CreateAPIKey k = with_io (\<lambda>w.
     if has_key ak_ID (ak_ID k) (t_apikeys w) \<or> \<not> has_key ws_ID (ak_WorkspaceID k) (t_workspaces w) \<or>
        \<not> has_key us_ID (ak_CreatedBy k) (t_users w) then (Inl ErrIO, w)
     else (Inr (), w\<lparr>t_apikeys := t_apikeys w @ [k\<lparr>ak_LastUsedAt := None, ak_RevokedAt := None\<rparr>]\<rparr>))"

definition GetAPIKey :: "string \<Rightarrow> (ten, APIKey) op" where
  "GetAPIKey i = with_io (\<lambda>w. (query_row (\<lambda>k. ak_ID k = i) (t_apikeys w), w))"

definition ListAPIKeys :: "string \<Rightarrow> (ten, APIKey list) op" where
  "ListAPIKeys wsid = with_io (\<lambda>w.
     (Inr (sort_key ak_CreatedAt (filter (\<lambda>k. ak_WorkspaceID k = wsid) (t_apikeys w))), w))"

definition RevokeAPIKey :: "string \<Rightarrow> string \<Rightarrow> int \<Rightarrow> (ten, unit) op" where
  "RevokeAPIKey wsid i now = with_io (\<lambda>w.
     let P = (\<lambda>k. ak_ID k = i \<and> ak_WorkspaceID k = wsid \<and> ak_RevokedAt k = None) in
     (affected P (t_apikeys w), w\<lparr>t_apikeys := update_where P (\<lambda>k. k\<lparr>ak_RevokedAt := Some now\<rparr>) (t_apikeys w)\<rparr>))"

definition TouchAPIKey :: "string \<Rightarrow> int \<Rightarrow> (ten, unit) op" where
  "TouchAPIKey i now = with_io (\<lambda>w.
     (Inr (), w\<lparr>t_apikeys := update_where (\<lambda>k. ak_ID k = i) (\<lambda>k. k\<lparr>ak_LastUsedAt := Some now\<rparr>) (t_apikeys w)\<rparr>))"

section \<open>Metering\<close>

definition rollup_key :: "UsageRollup \<Rightarrow> string \<times> string" where
  "rollup_key r = (ur_WorkspaceID r, ur_Month r)"

text \<open>The sums of \<open>ON CONFLICT ... DO UPDATE\<close>; \<open>bigint\<close> columns out of range are a statement error.\<close>

definition add_rollup :: "UsageRollup \<Rightarrow> UsageRollup \<Rightarrow> UsageRollup" where
  "add_rollup d r = r\<lparr>
     ur_BytesUploaded := ur_BytesUploaded r + ur_BytesUploaded d,
     ur_EncodeSeconds := ur_EncodeSeconds r + ur_EncodeSeconds d,
     ur_UploadSessions := ur_UploadSessions r + ur_UploadSessions d,
     ur_UploadsCompleted := ur_UploadsCompleted r + ur_UploadsCompleted d,
     ur_JobsQueued := ur_JobsQueued r + ur_JobsQueued d,
     ur_JobsStarted := ur_JobsStarted r + ur_JobsStarted d,
     ur_JobsCompleted := ur_JobsCompleted r + ur_JobsCompleted d,
     ur_JobsFailed := ur_JobsFailed r + ur_JobsFailed d,
     ur_UpdatedAt := ur_UpdatedAt d\<rparr>"

definition bigints_ok :: "UsageRollup \<Rightarrow> bool" where
  "bigints_ok r \<longleftrightarrow> in_i64 (ur_BytesUploaded r) \<and> in_i64 (ur_UploadSessions r) \<and> in_i64 (ur_UploadsCompleted r) \<and>
     in_i64 (ur_JobsQueued r) \<and> in_i64 (ur_JobsStarted r) \<and> in_i64 (ur_JobsCompleted r) \<and> in_i64 (ur_JobsFailed r)"

definition upsert_rollup :: "UsageRollup \<Rightarrow> UsageRollup list \<Rightarrow> UsageRollup list" where
  "upsert_rollup d rows =
     (if has_key rollup_key (rollup_key d) rows
      then update_where (\<lambda>r. rollup_key r = rollup_key d) (add_rollup d) rows
      else rows @ [d])"

definition ApplyMetering :: "MeteringEvent \<Rightarrow> string \<Rightarrow> UsageRollup \<Rightarrow> (ten, bool) op" where
  "ApplyMetering ev month delta = with_io (\<lambda>w.
     let d = delta\<lparr>ur_Month := month, ur_UpdatedAt := clock w\<rparr> in
     if has_key me_EventID (me_EventID ev) (t_metered w) then (Inr False, w)
     else if \<not> list_all bigints_ok (upsert_rollup d (t_rollups w)) then (Inl ErrIO, w)
     else (Inr True, w\<lparr>t_metered := t_metered w @ [ev], t_rollups := upsert_rollup d (t_rollups w)\<rparr>))"

definition GetRollup :: "string \<Rightarrow> string \<Rightarrow> (ten, UsageRollup) op" where
  "GetRollup wsid month = with_io (\<lambda>w.
     (query_row (\<lambda>r. ur_WorkspaceID r = wsid \<and> ur_Month r = month) (t_rollups w), w))"

text \<open>The sum is a \<open>numeric\<close>; one outside \<open>int64\<close> cannot be scanned.\<close>

definition SumStorageBytes :: "string \<Rightarrow> (ten, int) op" where
  "SumStorageBytes wsid = with_io (\<lambda>w.
     let n = sum_list (map ur_BytesUploaded (filter (\<lambda>r. ur_WorkspaceID r = wsid) (t_rollups w))) in
     (if in_i64 n then Inr n else Inl ErrIO, w))"

end
