(* ===== verification/Base64.thy ===== *)
theory Base64
  imports GoText
begin

text \<open>
  Unpadded base64 as Go's \<open>encoding/base64\<close> implements it (\<open>RawStdEncoding\<close>, \<open>RawURLEncoding\<close>),
  used for token segments, opaque tokens, keys and password hash strings. The decoder skips line
  breaks, refuses every other byte outside the alphabet, refuses a single left-over character and
  ignores the unused low bits of the last one.
\<close>

definition std_alphabet :: string where
  "std_alphabet = ''ABCDEFGHIJKLMNOPQRSTUVWXYZabcdefghijklmnopqrstuvwxyz0123456789+/''"

definition url_alphabet :: string where
  "url_alphabet = ''ABCDEFGHIJKLMNOPQRSTUVWXYZabcdefghijklmnopqrstuvwxyz0123456789-_''"

fun sextets :: "nat list \<Rightarrow> nat list" where
  "sextets (a # b # c # rest) =
     (a div 4) # ((a mod 4) * 16 + b div 16) # ((b mod 16) * 4 + c div 64) # (c mod 64) # sextets rest"
| "sextets [a, b] = [a div 4, (a mod 4) * 16 + b div 16, (b mod 16) * 4]"
| "sextets [a] = [a div 4, (a mod 4) * 16]"
| "sextets [] = []"

fun octets :: "nat list \<Rightarrow> nat list option" where
  "octets (s # t # u # v # rest) =
     (case octets rest of
        None \<Rightarrow> None
      | Some bs \<Rightarrow> Some ((s * 4 + t div 16) # ((t mod 16) * 16 + u div 4) # ((u mod 4) * 64 + v) # bs))"
| "octets [s, t, u] = Some [s * 4 + t div 16, (t mod 16) * 16 + u div 4]"
| "octets [s, t] = Some [s * 4 + t div 16]"
| "octets [s] = None"
| "octets [] = Some []"

definition char_index :: "string \<Rightarrow> char \<Rightarrow> nat option" where
  "char_index alphabet c = map_of (zip alphabet [0..<64]) c"

definition EncodeToString :: "string \<Rightarrow> string \<Rightarrow> string" where
  "EncodeToString alphabet bytes = map (\<lambda>n. alphabet ! n) (sextets (map of_char bytes))"

definition is_newline :: "char \<Rightarrow> bool" where
  "is_newline c \<longleftrightarrow> c = CHR 0x0A \<or> c = CHR 0x0D"

definition DecodeString :: "string \<Rightarrow> string \<Rightarrow> string option" where
  "DecodeString alphabet s =
     (case those (map (char_index alphabet) (filter (\<lambda>c. \<not> is_newline c) s)) of
        None \<Rightarrow> None
      | Some ns \<Rightarrow> (case octets ns of None \<Rightarrow> None | Some bs \<Rightarrow> Some (map char_of bs)))"

section \<open>Decoding inverts encoding\<close>

lemma sextets_bound: "list_all (\<lambda>b. b < 256) bs \<Longrightarrow> list_all (\<lambda>s. s < 64) (sextets bs)"
proof (induction bs rule: sextets.induct)
  case (1 a b c rest)
  then have "a div 4 < 64" "b div 16 < 16" "c div 64 < 4" "list_all (\<lambda>s. s < 64) (sextets rest)" by auto
  moreover have "a mod 4 * 16 + x < 64" if "x < 16" for x using mod_less_divisor [of 4 a] that by linarith
  moreover have "b mod 16 * 4 + x < 64" if "x < 4" for x using mod_less_divisor [of 16 b] that by linarith
  ultimately show ?case by simp
next
  case (2 a b)
  then have "a div 4 < 64" "b div 16 < 16" by auto
  moreover have "a mod 4 * 16 + x < 64" if "x < 16" for x using mod_less_divisor [of 4 a] that by linarith
  moreover have "b mod 16 * 4 < 64" using mod_less_divisor [of 16 b] by linarith
  ultimately show ?case by simp
next
  case (3 a)
  then have "a div 4 < 64" by auto
  moreover have "a mod 4 * 16 < 64" using mod_less_divisor [of 4 a] by linarith
  ultimately show ?case by simp
qed simp

lemma octets_sextets: "list_all (\<lambda>b. b < 256) bs \<Longrightarrow> octets (sextets bs) = Some bs"
proof (induction bs rule: sextets.induct)
  case (1 a b c rest)
  then have "b div 16 < 16" "c div 64 < 4" by auto
  then have "a div 4 * 4 + (a mod 4 * 16 + b div 16) div 16 = a"
    "(a mod 4 * 16 + b div 16) mod 16 * 16 + (b mod 16 * 4 + c div 64) div 4 = b"
    "(b mod 16 * 4 + c div 64) mod 4 * 64 + c mod 64 = c"
    by simp_all
  with 1 show ?case by simp
next
  case (2 a b)
  then have "b div 16 < 16" by auto
  then have "a div 4 * 4 + (a mod 4 * 16 + b div 16) div 16 = a"
    "(a mod 4 * 16 + b div 16) mod 16 * 16 + (b mod 16 * 4) div 4 = b" by simp_all
  then show ?case by simp
next
  case (3 a)
  have "a div 4 * 4 + (a mod 4 * 16) div 16 = a" by simp
  then show ?case by simp
qed simp

definition good_alphabet :: "string \<Rightarrow> bool" where
  "good_alphabet al \<longleftrightarrow> length al = 64 \<and> distinct al \<and> list_all (\<lambda>c. \<not> is_newline c) al"

lemma good_alphabets: "good_alphabet std_alphabet" "good_alphabet url_alphabet"
  by code_simp+

lemma char_index_nth: "good_alphabet al \<Longrightarrow> n < 64 \<Longrightarrow> char_index al (al ! n) = Some n"
  unfolding good_alphabet_def char_index_def
  by (intro map_of_is_SomeI) (auto simp: in_set_zip)

lemma those_map_Some: "(\<And>x. x \<in> set xs \<Longrightarrow> f (g x) = Some x) \<Longrightarrow> those (map f (map g xs)) = Some xs"
  by (induction xs) auto

lemma encode_set: "good_alphabet al \<Longrightarrow> set (EncodeToString al bytes) \<subseteq> set al"
proof -
  assume g: "good_alphabet al"
  have "list_all (\<lambda>b. b < 256) (map of_char bytes :: nat list)" by (simp add: list_all_iff)
  from sextets_bound [OF this] g show ?thesis
    by (auto simp: EncodeToString_def list_all_iff good_alphabet_def)
qed

lemma decode_encode:
  assumes "good_alphabet al"
  shows "DecodeString al (EncodeToString al bytes) = Some bytes"
proof -
  let ?bs = "map of_char bytes :: nat list"
  have b: "list_all (\<lambda>b. b < 256) ?bs" by (simp add: list_all_iff)
  have s: "n < 64" if "n \<in> set (sextets ?bs)" for n using sextets_bound [OF b] that by (simp add: list_all_iff)
  have "\<not> is_newline c" if "c \<in> set (EncodeToString al bytes)" for c
    using encode_set [OF assms] that assms by (auto simp: good_alphabet_def list_all_iff)
  then have "filter (\<lambda>c. \<not> is_newline c) (EncodeToString al bytes) = EncodeToString al bytes" by (simp add: filter_id_conv)
  moreover have "those (map (char_index al) (EncodeToString al bytes)) = Some (sextets ?bs)"
    unfolding EncodeToString_def by (rule those_map_Some) (use char_index_nth [OF assms] s in simp)
  ultimately show ?thesis
    using octets_sextets [OF b] by (simp add: DecodeString_def o_def)
qed

end
