(* ===== verification/TenKeys.thy ===== *)
theory TenKeys
  imports TenStore Base64
begin

text \<open>
  Credentials of the tenancy service: access tokens and opaque tokens
  (\<open>services/tenancy/tokens.go\<close>) and API keys with their password hash strings
  (\<open>services/tenancy/apikeys.go\<close>). The JWT library, argon2 and SHA-256 are parameters; the
  formats, the parser and the store protocol around them are modelled.
\<close>

section \<open>Libraries\<close>

record accessClaims =
  ac_WorkspaceID :: string
  ac_Issuer :: string
  ac_Subject :: string
  ac_IssuedAt :: int
  ac_NotBefore :: int
  ac_ExpiresAt :: int
  ac_ID :: string

text \<open>
  \<open>jwt_sign key claims\<close> is \<open>SignedString\<close> of an HS256 token; \<open>jwt_parse key now token\<close> is
  \<open>ParseWithClaims\<close> restricted to HS256 with a required expiry, at Unix time \<open>now\<close> in seconds.
  \<open>IDKey password salt time memory threads keyLen\<close> is argon2id, \<open>argon_version\<close> its version number.
  \<open>sha256_hex\<close> is the hexadecimal SHA-256 digest.
\<close>

record crypto_lib =
  jwt_sign :: "string \<Rightarrow> accessClaims \<Rightarrow> string option"
  jwt_parse :: "string \<Rightarrow> int \<Rightarrow> string \<Rightarrow> accessClaims option"
  IDKey :: "string \<Rightarrow> string \<Rightarrow> int \<Rightarrow> int \<Rightarrow> int \<Rightarrow> int \<Rightarrow> string"
  argon_version :: int
  sha256_hex :: "string \<Rightarrow> string"

section \<open>Tokens (tokens.go)\<close>

definition tokenIssuer :: string where
  "tokenIssuer = ''aether-tenancy''"

record TenIdentity =
  tn_UserID :: string
  tn_WorkspaceID :: string

definition newHS256Signer :: "string \<Rightarrow> string option" where
  "newHS256Signer key = (if length key < 32 then None else Some key)"

text \<open>
  In this file a panic of \<open>uuid.NewString\<close> (no entropy) counts as an error of the function that calls it.
\<close>

text \<open>Unix time in seconds, to which \<open>jwt.NewNumericDate\<close> truncates.\<close>

definition unix_seconds :: "int \<Rightarrow> int" where
  "unix_seconds t = t div 1000000000 - 62135596800"

definition Mint :: "crypto_lib \<Rightarrow> string \<Rightarrow> string \<Rightarrow> string \<Rightarrow> int \<Rightarrow> int \<Rightarrow> (ten, string) op" where
  "Mint lib key user wsid now ttl =
     (if user = [] \<or> wsid = [] then ret (Inl ErrIO)
      else and_then new_id (\<lambda>r. case r of
        Inl e \<Rightarrow> ret (Inl e)
      | Inr i \<Rightarrow>
          ret (case jwt_sign lib key \<lparr>ac_WorkspaceID = wsid, ac_Issuer = tokenIssuer, ac_Subject = user,
                 ac_IssuedAt = unix_seconds now, ac_NotBefore = unix_seconds now, ac_ExpiresAt = unix_seconds (now + ttl),
                 ac_ID = i\<rparr> of
               None \<Rightarrow> Inl ErrIO | Some s \<Rightarrow> Inr s)))"

definition Ten_Verify :: "crypto_lib \<Rightarrow> string \<Rightarrow> string \<Rightarrow> int \<Rightarrow> TenIdentity option" where
  "Ten_Verify lib key token now =
     (case jwt_parse lib key (unix_seconds now) token of
        None \<Rightarrow> None
      | Some c \<Rightarrow>
          if ac_Subject c = [] \<or> ac_WorkspaceID c = [] then None
          else Some \<lparr>tn_UserID = ac_Subject c, tn_WorkspaceID = ac_WorkspaceID c\<rparr>)"

text \<open>\<open>rand.Read\<close>: the next bytes of the entropy source.\<close>

definition rand_Read :: "nat \<Rightarrow> (ten, string) op" where
  "rand_Read n w =
     (if length (entropy w) < n then (Inl ErrIO, w)
      else (Inr (take n (entropy w)), w\<lparr>entropy := drop n (entropy w)\<rparr>))"

definition newOpaqueToken :: "nat \<Rightarrow> (ten, string) op" where
  "newOpaqueToken n = and_then (rand_Read n) (\<lambda>r. case r of
     Inl e \<Rightarrow> ret (Inl e)
   | Inr buf \<Rightarrow> ret (Inr (EncodeToString url_alphabet buf)))"

definition hashOpaqueToken :: "crypto_lib \<Rightarrow> string \<Rightarrow> string" where
  "hashOpaqueToken lib raw = sha256_hex lib raw"

section \<open>Password hash strings (apikeys.go)\<close>

definition argonTime :: int where "argonTime = 2"

definition argonMemory :: int where "argonMemory = 19456"

definition argonThreads :: int where "argonThreads = 1"

definition argonKeyLen :: int where "argonKeyLen = 32"

definition argonSaltLen :: nat where "argonSaltLen = 16"

definition phc_string :: "crypto_lib \<Rightarrow> string \<Rightarrow> string \<Rightarrow> string" where
  "phc_string lib secret salt =
     ''$argon2id$v='' @ show_int (argon_version lib) @ ''$m='' @ show_int argonMemory @ '',t='' @ show_int argonTime @
     '',p='' @ show_int argonThreads @ ''$'' @ EncodeToString std_alphabet salt @ ''$'' @
     EncodeToString std_alphabet (IDKey lib secret salt argonTime argonMemory argonThreads argonKeyLen)"

definition hashAPIKeySecret :: "crypto_lib \<Rightarrow> string \<Rightarrow> (ten, string) op" where
  "hashAPIKeySecret lib secret = and_then (rand_Read argonSaltLen) (\<lambda>r. case r of
     Inl e \<Rightarrow> ret (Inl e)
   | Inr salt \<Rightarrow> ret (Inr (phc_string lib secret salt)))"

text \<open>
  \<open>fmt.Sscanf\<close> with literals and \<open>%d\<close>: literals match byte by byte, a number skips spaces (a line
  break is an error), takes digits as far as they go and must fit its type; what follows the last
  verb is ignored. Only the signed verb takes a sign.
\<close>

definition scan_literal :: "string \<Rightarrow> string \<Rightarrow> string option" where
  "scan_literal p s = (if has_prefix p s then Some (drop (length p) s) else None)"

definition skip_space :: "string \<Rightarrow> string option" where
  "skip_space s =
     (let t = dropWhile (\<lambda>c. is_space c \<and> c \<noteq> CHR 0x0A) s in
      case t of c # _ \<Rightarrow> if c = CHR 0x0A then None else Some t | [] \<Rightarrow> None)"

definition scan_uint :: "nat \<Rightarrow> string \<Rightarrow> (int \<times> string) option" where
  "scan_uint bits s =
     (case skip_space s of
        None \<Rightarrow> None
      | Some t \<Rightarrow>
          (case read_nat (takeWhile is_digit t) of
             None \<Rightarrow> None
           | Some n \<Rightarrow> if n < 2 ^ bits then Some (int n, dropWhile is_digit t) else None))"

definition scan_int :: "string \<Rightarrow> (int \<times> string) option" where
  "scan_int s =
     (case skip_space s of
        None \<Rightarrow> None
      | Some t \<Rightarrow>
          (let signed = (case t of c # _ \<Rightarrow> c = CHR ''-'' \<or> c = CHR ''+'' | [] \<Rightarrow> False);
               u = (if signed then tl t else t)
           in case ParseInt ((if signed then [hd t] else []) @ takeWhile is_digit u) of
                None \<Rightarrow> None
              | Some i \<Rightarrow> Some (i, dropWhile is_digit u)))"

datatype phc_err = NotArgon | BadVersion | UnsupportedVersion int | BadParams | BadSalt | BadDigest | ArgonPanic

definition scan_params :: "string \<Rightarrow> (int \<times> int \<times> int) option" where
  "scan_params s =
     Option.bind (scan_literal ''m='' s) (\<lambda>s. Option.bind (scan_uint 32 s) (\<lambda>(m, s).
     Option.bind (scan_literal '',t='' s) (\<lambda>s. Option.bind (scan_uint 32 s) (\<lambda>(t, s).
     Option.bind (scan_literal '',p='' s) (\<lambda>s. Option.bind (scan_uint 8 s) (\<lambda>(p, s). Some (m, t, p)))))))"

text \<open>argon2 panics on a round or thread count of zero. The key length is taken modulo \<open>2 ^ 32\<close>.\<close>

definition verifyAPIKeySecret :: "crypto_lib \<Rightarrow> string \<Rightarrow> string \<Rightarrow> phc_err + bool" where
  "verifyAPIKeySecret lib secret phc =
     (case split_on CHR ''$'' phc of
        [_, alg, version, params, salt64, digest64] \<Rightarrow>
          if alg \<noteq> ''argon2id'' then Inl NotArgon
          else (case Option.bind (scan_literal ''v='' version) scan_int of
            None \<Rightarrow> Inl BadVersion
          | Some (v, _) \<Rightarrow>
              if v \<noteq> argon_version lib then Inl (UnsupportedVersion v)
              else (case scan_params params of
                None \<Rightarrow> Inl BadParams
              | Some (m, t, p) \<Rightarrow>
                  (case DecodeString std_alphabet salt64 of
                     None \<Rightarrow> Inl BadSalt
                   | Some salt \<Rightarrow>
                       (case DecodeString std_alphabet digest64 of
                          None \<Rightarrow> Inl BadDigest
                        | Some want \<Rightarrow>
                            if t < 1 \<or> p < 1 then Inl ArgonPanic
                            else Inr (IDKey lib secret salt t m p (int (length want) mod 2 ^ 32) = want)))))
      | _ \<Rightarrow> Inl NotArgon)"

section \<open>API keys (apikeys.go)\<close>

definition apiKeyPrefix :: string where
  "apiKeyPrefix = ''aek_''"

definition mintAPIKey :: "(ten, string \<times> string \<times> string) op" where
  "mintAPIKey = and_then new_id (\<lambda>r. case r of
     Inl e \<Rightarrow> ret (Inl e)
   | Inr i \<Rightarrow> and_then (newOpaqueToken 32) (\<lambda>r. case r of
       Inl e \<Rightarrow> ret (Inl e)
     | Inr secret \<Rightarrow> ret (Inr (i, apiKeyPrefix @ i @ ''_'' @ secret, secret))))"

definition splitAPIKey :: "string \<Rightarrow> (string \<times> string) option" where
  "splitAPIKey raw =
     (if \<not> has_prefix apiKeyPrefix raw then None
      else case cut CHR ''_'' (trim_prefix apiKeyPrefix raw) of
             None \<Rightarrow> None
           | Some (i, secret) \<Rightarrow> if i = [] \<or> secret = [] then None else Some (i, secret))"

text \<open>A hash that cannot be checked is an error; the time of last use is recorded on a best effort.\<close>

definition verifyAPIKeyString :: "crypto_lib \<Rightarrow> string \<Rightarrow> (ten, APIKey) op" where
  "verifyAPIKeyString lib raw =
     (case splitAPIKey raw of
        None \<Rightarrow> ret (Inl ErrNotFound)
      | Some (i, secret) \<Rightarrow>
          and_then (GetAPIKey i) (\<lambda>r. case r of
            Inl e \<Rightarrow> ret (Inl e)
          | Inr key \<Rightarrow>
              if ak_RevokedAt key \<noteq> None then ret (Inl ErrNotFound)
              else (case verifyAPIKeySecret lib secret (ak_SecretHash key) of
                      Inl _ \<Rightarrow> ret (Inl ErrIO)
                    | Inr ok \<Rightarrow>
                        if \<not> ok then ret (Inl ErrNotFound)
                        else and_then (at_clock (TouchAPIKey (ak_ID key))) (\<lambda>_. ret (Inr key)))))"

section \<open>Round trips\<close>

text \<open>argon2 returns as many bytes as it is asked for; the version is a non-negative \<open>int\<close>.\<close>

definition argon_ok :: "crypto_lib \<Rightarrow> bool" where
  "argon_ok lib \<longleftrightarrow> (\<forall>pw salt. length (IDKey lib pw salt argonTime argonMemory argonThreads argonKeyLen) = nat argonKeyLen) \<and>
     0 \<le> argon_version lib \<and> in_i64 (argon_version lib)"

lemma digit_not_space: "is_digit c \<Longrightarrow> \<not> is_space c \<and> c \<noteq> CHR 0x0A \<and> c \<noteq> CHR ''-'' \<and> c \<noteq> CHR ''+'' \<and> c \<noteq> CHR ''$''"
  by (auto simp: is_digit_def is_space_def between_def)

lemma show_nat_head: "\<exists>c cs. show_nat n = c # cs \<and> is_digit c"
  using show_nat_digits [of n] by (cases "show_nat n") auto

lemma read_show: "read_nat (show_nat n) = Some n"
  using show_nat_digits [of n] read_show_nat [of n] by (simp add: read_nat_def)

lemma show_then:
  assumes "rest = [] \<or> \<not> is_digit (hd rest)"
  shows "takeWhile is_digit (show_nat n @ rest) = show_nat n" "dropWhile is_digit (show_nat n @ rest) = rest"
    "skip_space (show_nat n @ rest) = Some (show_nat n @ rest)"
proof -
  have d: "list_all is_digit (show_nat n)" using show_nat_digits by blast
  have t: "takeWhile is_digit rest = []" "dropWhile is_digit rest = rest" using assms by (cases rest; simp)+
  show "takeWhile is_digit (show_nat n @ rest) = show_nat n" "dropWhile is_digit (show_nat n @ rest) = rest"
    using d t by (simp_all add: list_all_iff takeWhile_append dropWhile_append)
  obtain c cs where "show_nat n = c # cs" "is_digit c" using show_nat_head by blast
  then show "skip_space (show_nat n @ rest) = Some (show_nat n @ rest)"
    using digit_not_space [of c] by (simp add: skip_space_def)
qed

lemma scan_uint_show:
  assumes "0 \<le> i" "i < 2 ^ bits" "rest = [] \<or> \<not> is_digit (hd rest)"
  shows "scan_uint bits (show_int i @ rest) = Some (i, rest)"
proof -
  have "show_int i = show_nat (nat i)" "nat i < 2 ^ bits" using assms(1,2) by (auto simp: show_int_def nat_less_iff)
  then show ?thesis using assms(1) by (simp add: scan_uint_def show_then [OF assms(3)] read_show)
qed

lemma scan_int_show:
  assumes "0 \<le> i" "in_i64 i"
  shows "scan_int (show_int i) = Some (i, [])"
proof -
  obtain c cs where c: "show_nat (nat i) = c # cs" "is_digit c" using show_nat_head by blast
  have s: "show_int i = show_nat (nat i)" using assms(1) by (simp add: show_int_def)
  have "ParseInt (show_nat (nat i)) = Some i" using ParseInt_show [OF assms(2)] s by simp
  then show ?thesis
    using show_then [of "[]" "nat i"] digit_not_space [OF c(2)] c(1) unfolding scan_int_def s by (simp add: Let_def)
qed

lemma scan_literal_append: "scan_literal p (p @ s) = Some s"
  by (simp add: scan_literal_def)

lemma scan_params_show:
  "scan_params (''m='' @ show_int argonMemory @ '',t='' @ show_int argonTime @ '',p='' @ show_int argonThreads)
    = Some (argonMemory, argonTime, argonThreads)"
proof -
  have m: "scan_uint 32 (show_int argonMemory @ '',t='' @ s) = Some (argonMemory, '',t='' @ s)" for s
    by (rule scan_uint_show) (simp_all add: argonMemory_def is_digit_def between_def)
  have t: "scan_uint 32 (show_int argonTime @ '',p='' @ s) = Some (argonTime, '',p='' @ s)" for s
    by (rule scan_uint_show) (simp_all add: argonTime_def is_digit_def between_def)
  have p: "scan_uint 8 (show_int argonThreads) = Some (argonThreads, [])"
    using scan_uint_show [of argonThreads 8 "[]"] by (simp add: argonThreads_def)
  show ?thesis unfolding scan_params_def scan_literal_append bind.simps m prod.case t p ..
qed

lemma no_dollar: "CHR ''$'' \<notin> set (show_int i)" "CHR ''$'' \<notin> set (EncodeToString std_alphabet x)"
proof -
  have d: "CHR ''$'' \<notin> set (show_nat n)" for n
    using show_nat_digits [of n] digit_not_space by (auto simp: list_all_iff)
  show "CHR ''$'' \<notin> set (show_int i)" using d by (auto simp: show_int_def)
  have "CHR ''$'' \<notin> set std_alphabet" by code_simp
  then show "CHR ''$'' \<notin> set (EncodeToString std_alphabet x)" using encode_set [OF good_alphabets(1)] by blast
qed

lemma phc_fields:
  "split_on CHR ''$'' (phc_string lib secret salt) =
     [[], ''argon2id'', ''v='' @ show_int (argon_version lib),
      ''m='' @ show_int argonMemory @ '',t='' @ show_int argonTime @ '',p='' @ show_int argonThreads,
      EncodeToString std_alphabet salt,
      EncodeToString std_alphabet (IDKey lib secret salt argonTime argonMemory argonThreads argonKeyLen)]"
proof -
  let ?v = "''v='' @ show_int (argon_version lib)"
    and ?p = "''m='' @ show_int argonMemory @ '',t='' @ show_int argonTime @ '',p='' @ show_int argonThreads"
    and ?s = "EncodeToString std_alphabet salt"
    and ?d = "EncodeToString std_alphabet (IDKey lib secret salt argonTime argonMemory argonThreads argonKeyLen)"
  have e: "phc_string lib secret salt = [] @ CHR ''$'' # ''argon2id'' @ CHR ''$'' # ?v @ CHR ''$'' # ?p @ CHR ''$'' # ?s @ CHR ''$'' # ?d"
    by (simp add: phc_string_def)
  have n: "CHR ''$'' \<notin> set ?v" "CHR ''$'' \<notin> set ?p" "CHR ''$'' \<notin> set ?s" "CHR ''$'' \<notin> set ?d" "CHR ''$'' \<notin> set ''argon2id''"
    using no_dollar by simp_all
  have z: "CHR ''$'' \<notin> set []" by simp
  show ?thesis
    unfolding e
    by (simp only: split_on_append [OF z] split_on_append [OF n(1)] split_on_append [OF n(2)] split_on_append [OF n(3)]
        split_on_append [OF n(5)] split_on_no_sep [OF n(4)])
qed

lemma verify_phc:
  assumes "argon_ok lib"
  shows "verifyAPIKeySecret lib s (phc_string lib secret salt) =
    Inr (IDKey lib s salt argonTime argonMemory argonThreads argonKeyLen
       = IDKey lib secret salt argonTime argonMemory argonThreads argonKeyLen)"
proof -
  have v: "Option.bind (scan_literal ''v='' (''v='' @ show_int (argon_version lib))) scan_int = Some (argon_version lib, [])"
    unfolding scan_literal_append bind.simps using assms by (intro scan_int_show) (auto simp: argon_ok_def)
  have d: "DecodeString std_alphabet (EncodeToString std_alphabet x) = Some x" for x by (rule decode_encode [OF good_alphabets(1)])
  have "int (length (IDKey lib secret salt argonTime argonMemory argonThreads argonKeyLen)) mod 2 ^ 32 = argonKeyLen"
    using assms by (simp add: argon_ok_def argonKeyLen_def)
  then show ?thesis
    unfolding verifyAPIKeySecret_def phc_fields list.case v option.case prod.case scan_params_show d
    by (simp add: argonTime_def argonThreads_def)
qed

lemma split_minted:
  assumes "CHR ''_'' \<notin> set i" "i \<noteq> []" "secret \<noteq> []"
  shows "splitAPIKey (apiKeyPrefix @ i @ ''_'' @ secret) = Some (i, secret)"
  using assms cut_append [of "CHR ''_''" i secret] by (simp add: splitAPIKey_def)

lemma opaque_nonempty:
  assumes "0 < n" "newOpaqueToken n w = (Inr s, w')"
  shows "s \<noteq> []"
proof -
  let ?buf = "take n (entropy w)"
  have b: "length ?buf = n" "s = EncodeToString url_alphabet ?buf"
    using assms(2) by (auto simp: newOpaqueToken_def and_then_def rand_Read_def ret_def split: if_splits)
  then obtain c cs where "?buf = c # cs" using assms(1) by (cases ?buf) auto
  then show ?thesis using b(2) by (cases cs rule: remdups_adj.cases) (auto simp: EncodeToString_def)
qed

end
