(* ===== verification/TenMetering.thy ===== *)
theory TenMetering
  imports TenStore
begin

text \<open>
  Usage metering, \<open>services/tenancy/metering.go\<close>: the translation of an event into rollup
  increments, the consumer's handling of one delivery, and the month keys of
  \<open>services/tenancy/quota.go\<close>. The rollup table is shown to be, row by row, the usage recomputed
  from the recorded events.
\<close>

section \<open>Month keys\<close>

text \<open>
  \<open>t.UTC().Format("2006-01")\<close> by the calendar arithmetic of the \<open>time\<close> package: 400, 100, 4 and
  1 year cycles counted from 1 January of year 1, then the day of the year.
\<close>

definition year_day :: "int \<Rightarrow> int \<times> int" where
  "year_day d =
     (let n400 = d div 146097; d1 = d mod 146097;
          c = d1 div 36524; n100 = c - c div 4; d2 = d1 - 36524 * n100;
          n4 = d2 div 1461; d3 = d2 - 1461 * n4;
          q = d3 div 365; n1 = q - q div 4
      in (1 + 400 * n400 + 100 * n100 + 4 * n4 + n1, d3 - 365 * n1))"

definition is_leap :: "int \<Rightarrow> bool" where
  "is_leap y \<longleftrightarrow> y mod 4 = 0 \<and> (y mod 100 \<noteq> 0 \<or> y mod 400 = 0)"

definition days_before :: "int list" where
  "days_before = [0, 31, 59, 90, 120, 151, 181, 212, 243, 273, 304, 334, 365]"

definition month_index :: "int \<Rightarrow> int \<Rightarrow> nat" where
  "month_index y yday =
     (if is_leap y \<and> yday = 59 then 2
      else let k = if is_leap y \<and> yday > 59 then yday - 1 else yday;
               m = nat (k div 31)
           in if k \<ge> days_before ! (m + 1) then m + 2 else m + 1)"

definition zero_pad :: "nat \<Rightarrow> string \<Rightarrow> string" where
  "zero_pad n s = replicate (n - length s) CHR ''0'' @ s"

definition show_year :: "int \<Rightarrow> string" where
  "show_year y = (if y < 0 then ''-'' @ zero_pad 4 (show_nat (nat (- y))) else zero_pad 4 (show_nat (nat y)))"

definition nanos_per_day :: int where
  "nanos_per_day = 86400000000000"

definition monthOf :: "int \<Rightarrow> string" where
  "monthOf t = (let (y, k) = year_day (t div nanos_per_day) in show_year y @ ''-'' @ zero_pad 2 (show_nat (month_index y k)))"

section \<open>Applying an event\<close>

datatype metering_err = MissingIds | MissingAt | NegativeBytes | NegativeSeconds | UnknownKind string

definition rollupDelta :: "MeteringEvent \<Rightarrow> metering_err + UsageRollup" where
  "rollupDelta ev =
     (if me_EventID ev = [] \<or> me_WorkspaceID ev = [] then Inl MissingIds
      else if me_At ev = 0 then Inl MissingAt
      else if (case me_Bytes ev of Some b \<Rightarrow> b < 0 | None \<Rightarrow> False) then Inl NegativeBytes
      else if (case me_EncodeSeconds ev of Some x \<Rightarrow> x < 0 | None \<Rightarrow> False) then Inl NegativeSeconds
      else
        let d = zero_rollup\<lparr>ur_WorkspaceID := me_WorkspaceID ev, ur_Month := monthOf (me_At ev)\<rparr> in
        case me_Kind ev of
          MeteringUploadSessionCreated \<Rightarrow> Inr (d\<lparr>ur_UploadSessions := 1\<rparr>)
        | MeteringUploadCompleted \<Rightarrow>
            Inr (d\<lparr>ur_UploadsCompleted := 1, ur_BytesUploaded := (case me_Bytes ev of Some b \<Rightarrow> b | None \<Rightarrow> 0)\<rparr>)
        | MeteringJobQueued \<Rightarrow> Inr (d\<lparr>ur_JobsQueued := 1\<rparr>)
        | MeteringJobStarted \<Rightarrow> Inr (d\<lparr>ur_JobsStarted := 1\<rparr>)
        | MeteringJobCompleted \<Rightarrow>
            Inr (d\<lparr>ur_JobsCompleted := 1, ur_EncodeSeconds := (case me_EncodeSeconds ev of Some x \<Rightarrow> x | None \<Rightarrow> 0)\<rparr>)
        | MeteringJobFailed \<Rightarrow>
            Inr (d\<lparr>ur_JobsFailed := 1, ur_EncodeSeconds := (case me_EncodeSeconds ev of Some x \<Rightarrow> x | None \<Rightarrow> 0)\<rparr>)
        | MeteringOther k \<Rightarrow> Inl (UnknownKind k))"

text \<open>
  A payload is what \<open>json.Unmarshal\<close> makes of the message: an event, or \<open>None\<close> when it refuses it.
\<close>

datatype consume_err = BadPayload | BadEvent metering_err | ApplyFailed store_err

definition consumeMeteringPayload :: "MeteringEvent option \<Rightarrow> ten \<Rightarrow> (consume_err + bool) \<times> ten" where
  "consumeMeteringPayload data =
     (case data of
        None \<Rightarrow> ret (Inl BadPayload)
      | Some ev \<Rightarrow>
          (case rollupDelta ev of
             Inl e \<Rightarrow> ret (Inl (BadEvent e))
           | Inr delta \<Rightarrow>
               and_then (ApplyMetering ev (ur_Month delta) delta) (\<lambda>r. case r of
                 Inl e \<Rightarrow> ret (Inl (ApplyFailed e))
               | Inr applied \<Rightarrow> ret (Inr applied))))"

definition isTerminalMeteringErr :: "MeteringEvent option \<Rightarrow> bool" where
  "isTerminalMeteringErr data =
     (case data of None \<Rightarrow> True | Some ev \<Rightarrow> (case rollupDelta ev of Inl _ \<Rightarrow> True | Inr _ \<Rightarrow> False))"

datatype verdict = MsgAck | MsgNakWithDelay | MsgTerm

definition metering_handle :: "MeteringEvent option \<Rightarrow> ten \<Rightarrow> verdict \<times> ten" where
  "metering_handle data =
     and_then (consumeMeteringPayload data) (\<lambda>r. case r of
       Inl _ \<Rightarrow> ret (if isTerminalMeteringErr data then MsgTerm else MsgNakWithDelay)
     | Inr _ \<Rightarrow> ret MsgAck)"

section \<open>Usage recomputed from the recorded events\<close>

definition billed_to :: "string \<Rightarrow> string \<Rightarrow> MeteringEvent \<Rightarrow> bool" where
  "billed_to wsid month e \<longleftrightarrow> me_WorkspaceID e = wsid \<and> monthOf (me_At e) = month"

definition of_kind :: "MeteringKind \<Rightarrow> MeteringEvent list \<Rightarrow> MeteringEvent list" where
  "of_kind k = filter (\<lambda>e. me_Kind e = k)"

definition event_bytes :: "MeteringEvent \<Rightarrow> int" where
  "event_bytes e = (case me_Bytes e of Some b \<Rightarrow> b | None \<Rightarrow> 0)"

definition event_seconds :: "MeteringEvent \<Rightarrow> real" where
  "event_seconds e = (case me_EncodeSeconds e of Some x \<Rightarrow> x | None \<Rightarrow> 0)"

definition usage_of :: "string \<Rightarrow> string \<Rightarrow> MeteringEvent list \<Rightarrow> UsageRollup" where
  "usage_of wsid month evs =
     (let es = filter (billed_to wsid month) evs in
      \<lparr>ur_WorkspaceID = wsid, ur_Month = month,
       ur_BytesUploaded = sum_list (map event_bytes (of_kind MeteringUploadCompleted es)),
       ur_EncodeSeconds = sum_list (map event_seconds (of_kind MeteringJobCompleted es))
         + sum_list (map event_seconds (of_kind MeteringJobFailed es)),
       ur_UploadSessions = int (length (of_kind MeteringUploadSessionCreated es)),
       ur_UploadsCompleted = int (length (of_kind MeteringUploadCompleted es)),
       ur_JobsQueued = int (length (of_kind MeteringJobQueued es)),
       ur_JobsStarted = int (length (of_kind MeteringJobStarted es)),
       ur_JobsCompleted = int (length (of_kind MeteringJobCompleted es)),
       ur_JobsFailed = int (length (of_kind MeteringJobFailed es)), ur_UpdatedAt = 0\<rparr>)"

definition row_exact :: "MeteringEvent list \<Rightarrow> UsageRollup \<Rightarrow> bool" where
  "row_exact evs r \<longleftrightarrow> r\<lparr>ur_UpdatedAt := 0\<rparr> = usage_of (ur_WorkspaceID r) (ur_Month r) evs"

text \<open>
  The invariant: event ids are recorded once, every recorded event is well-formed, and the row of
  a workspace and month is the usage of its events (there is a row exactly when there is an event).
\<close>

definition metering_inv :: "ten \<Rightarrow> bool" where
  "metering_inv w \<longleftrightarrow>
     unique_keys me_EventID (t_metered w) \<and> list_all (\<lambda>e. \<exists>d. rollupDelta e = Inr d) (t_metered w) \<and>
     unique_keys rollup_key (t_rollups w) \<and>
     (\<forall>wsid month. (\<exists>e \<in> set (t_metered w). billed_to wsid month e) \<longleftrightarrow> has_key rollup_key (wsid, month) (t_rollups w)) \<and>
     list_all (row_exact (t_metered w)) (t_rollups w)"

lemma rollupDelta_key: "rollupDelta e = Inr d \<Longrightarrow> rollup_key d = (me_WorkspaceID e, monthOf (me_At e))"
  by (auto simp: rollupDelta_def rollup_key_def zero_rollup_def Let_def split: if_splits MeteringKind.splits)

text \<open>One more event adds its increments to the usage of its own workspace and month.\<close>

lemma usage_append:
  assumes "rollupDelta e = Inr d"
  shows "usage_of (me_WorkspaceID e) (monthOf (me_At e)) (evs @ [e])
    = (add_rollup d (usage_of (me_WorkspaceID e) (monthOf (me_At e)) evs))\<lparr>ur_UpdatedAt := 0\<rparr>"
  using assms
  by (auto simp: rollupDelta_def usage_of_def add_rollup_def billed_to_def of_kind_def event_bytes_def event_seconds_def
      zero_rollup_def Let_def split: if_splits MeteringKind.splits)

lemma usage_append_other:
  "\<not> billed_to wsid month e \<Longrightarrow> usage_of wsid month (evs @ [e]) = usage_of wsid month evs"
  by (simp add: usage_of_def)

lemma usage_none: "\<not> (\<exists>e \<in> set evs. billed_to wsid month e) \<Longrightarrow>
    usage_of wsid month evs = zero_rollup\<lparr>ur_WorkspaceID := wsid, ur_Month := month\<rparr>"
proof -
  assume "\<not> (\<exists>e \<in> set evs. billed_to wsid month e)"
  then have "filter (billed_to wsid month) evs = []" by (simp add: filter_empty_conv)
  then show ?thesis by (simp add: usage_of_def of_kind_def zero_rollup_def)
qed

lemma add_rollup_key [simp]:
  "rollup_key (add_rollup x r) = rollup_key r" "ur_WorkspaceID (add_rollup x r) = ur_WorkspaceID r"
  "ur_Month (add_rollup x r) = ur_Month r"
  by (simp_all add: add_rollup_def rollup_key_def)

lemma upsert_keys: "rollup_key ` set (upsert_rollup d rows) = insert (rollup_key d) (rollup_key ` set rows)"
proof -
  have "map rollup_key (update_where P (add_rollup d) rows) = map rollup_key rows" for P
    by (rule map_update_where) simp
  then have "rollup_key ` set (update_where P (add_rollup d) rows) = rollup_key ` set rows" for P
    by (metis set_map)
  then show ?thesis by (auto simp: upsert_rollup_def has_key_def)
qed

lemma upsert_row_exact:
  assumes delta: "rollupDelta e = Inr d" and rows: "\<And>r. r \<in> set rows \<Longrightarrow> row_exact evs r"
    and keys: "(\<exists>x \<in> set evs. billed_to (me_WorkspaceID e) (monthOf (me_At e)) x) \<longleftrightarrow> has_key rollup_key (rollup_key d) rows"
    and r: "r \<in> set (upsert_rollup (d\<lparr>ur_UpdatedAt := now\<rparr>) rows)"
  shows "row_exact (evs @ [e]) r"
proof -
  let ?d = "d\<lparr>ur_UpdatedAt := now\<rparr>"
  have dk: "ur_WorkspaceID d = me_WorkspaceID e" "ur_Month d = monthOf (me_At e)" "rollup_key ?d = rollup_key d"
    using rollupDelta_key [OF delta] by (simp_all add: rollup_key_def)
  consider (other) "r \<in> set rows" "rollup_key r \<noteq> rollup_key d"
    | (old) q where "q \<in> set rows" "rollup_key q = rollup_key d" "r = add_rollup ?d q"
    | (new) "r = ?d" "\<not> has_key rollup_key (rollup_key d) rows"
  proof (cases "has_key rollup_key (rollup_key d) rows")
    case True
    then have "r \<in> {x \<in> set rows. rollup_key x \<noteq> rollup_key d} \<union> add_rollup ?d ` {x \<in> set rows. rollup_key x = rollup_key d}"
      using r dk(3) by (simp add: upsert_rollup_def set_update_where)
    then show ?thesis using that by blast
  next
    case False
    then have "r \<in> set rows \<or> r = ?d" using r dk(3) by (auto simp: upsert_rollup_def)
    moreover have "rollup_key r \<noteq> rollup_key d" if "r \<in> set rows" using False that by (metis has_key_def imageI)
    ultimately show ?thesis using that False by blast
  qed
  then show ?thesis
  proof cases
    case other
    then have "\<not> billed_to (ur_WorkspaceID r) (ur_Month r) e" using dk by (auto simp: billed_to_def rollup_key_def)
    then show ?thesis using rows other by (simp add: row_exact_def usage_append_other)
  next
    case old
    have "r\<lparr>ur_UpdatedAt := 0\<rparr> = (add_rollup d (q\<lparr>ur_UpdatedAt := 0\<rparr>))\<lparr>ur_UpdatedAt := 0\<rparr>"
      by (simp add: old(3) add_rollup_def)
    also have "\<dots> = usage_of (ur_WorkspaceID r) (ur_Month r) (evs @ [e])"
      using rows [OF old(1)] old(2,3) dk by (simp add: row_exact_def usage_append [OF delta] rollup_key_def)
    finally show ?thesis by (simp add: row_exact_def)
  next
    case new
    then have "usage_of (me_WorkspaceID e) (monthOf (me_At e)) evs = zero_rollup\<lparr>ur_WorkspaceID := me_WorkspaceID e, ur_Month := monthOf (me_At e)\<rparr>"
      using keys by (intro usage_none) simp
    then show ?thesis
      using dk new(1) by (simp add: row_exact_def usage_append [OF delta] add_rollup_def zero_rollup_def)
  qed
qed

lemma metering_inv_step:
  assumes inv: "metering_inv w" and delta: "rollupDelta e = Inr d" and new: "\<not> has_key me_EventID (me_EventID e) (t_metered w)"
    and w': "t_metered w' = t_metered w @ [e]" "t_rollups w' = upsert_rollup (d\<lparr>ur_UpdatedAt := now\<rparr>) (t_rollups w)"
  shows "metering_inv w'"
proof -
  have k: "rollup_key (d\<lparr>ur_UpdatedAt := now\<rparr>) = (me_WorkspaceID e, monthOf (me_At e))"
    using rollupDelta_key [OF delta] by (simp add: rollup_key_def)
  have uq: "unique_keys rollup_key (t_rollups w)"
    and keys: "\<And>wsid month. (\<exists>e \<in> set (t_metered w). billed_to wsid month e) \<longleftrightarrow> has_key rollup_key (wsid, month) (t_rollups w)"
    using inv by (auto simp: metering_inv_def)
  have "unique_keys rollup_key (upsert_rollup (d\<lparr>ur_UpdatedAt := now\<rparr>) (t_rollups w))"
    unfolding upsert_rollup_def using uq by (auto simp: unique_keys_update unique_keys_insert)
  moreover have "row_exact (t_metered w @ [e]) r" if "r \<in> set (upsert_rollup (d\<lparr>ur_UpdatedAt := now\<rparr>) (t_rollups w))" for r
  proof (rule upsert_row_exact [OF delta _ _ that])
    show "(\<exists>x \<in> set (t_metered w). billed_to (me_WorkspaceID e) (monthOf (me_At e)) x) \<longleftrightarrow> has_key rollup_key (rollup_key d) (t_rollups w)"
      using keys rollupDelta_key [OF delta] by simp
  qed (use inv in \<open>auto simp: metering_inv_def list_all_iff\<close>)
  moreover have "(\<exists>x \<in> set (t_metered w @ [e]). billed_to wsid month x) \<longleftrightarrow>
      has_key rollup_key (wsid, month) (upsert_rollup (d\<lparr>ur_UpdatedAt := now\<rparr>) (t_rollups w))" for wsid month
    unfolding has_key_def upsert_keys k using keys [of wsid month] by (auto simp: billed_to_def has_key_def)
  ultimately show ?thesis
    unfolding metering_inv_def w'
    using inv new delta by (auto simp: metering_inv_def unique_keys_insert list_all_iff)
qed


lemma metering_inv_tables:
  "t_metered w' = t_metered w \<Longrightarrow> t_rollups w' = t_rollups w \<Longrightarrow> metering_inv w' = metering_inv w"
  by (simp add: metering_inv_def)

lemma ApplyMetering_inv:
  assumes "rollupDelta ev = Inr d" "metering_inv w"
  shows "metering_inv (snd (ApplyMetering ev (ur_Month d) d w))"
  unfolding ApplyMetering_def Let_def
proof (rule with_io_inv [of metering_inv])
  fix w :: ten
  assume "metering_inv w"
  then show "metering_inv (snd (if has_key me_EventID (me_EventID ev) (t_metered w) then (Inr False, w)
      else if \<not> list_all bigints_ok (upsert_rollup (d\<lparr>ur_Month := ur_Month d, ur_UpdatedAt := clock w\<rparr>) (t_rollups w)) then (Inl ErrIO, w)
      else (Inr True, w\<lparr>t_metered := t_metered w @ [ev],
              t_rollups := upsert_rollup (d\<lparr>ur_Month := ur_Month d, ur_UpdatedAt := clock w\<rparr>) (t_rollups w)\<rparr>)))"
    by (auto intro: metering_inv_step [OF _ assms(1)])
qed (use assms(2) in \<open>simp_all add: metering_inv_def\<close>)

lemma metering_handle_inv: "metering_inv w \<Longrightarrow> metering_inv (snd (metering_handle data w))"
  by (auto simp: metering_handle_def consumeMeteringPayload_def snd_and_then ret_def ApplyMetering_inv
      split: option.splits sum.splits)

section \<open>What becomes of a delivery\<close>

definition ex_metering :: MeteringEvent where
  "ex_metering = \<lparr>me_EventID = ''e1'', me_WorkspaceID = ''w1'', me_UserID = ''u'', me_Kind = MeteringUploadCompleted,
     me_Bytes = Some 7, me_EncodeSeconds = None, me_JobID = [], me_At = 1\<rparr>"

lemma ApplyMetering_Inr:
  assumes "ApplyMetering ev m d w = (Inr b, w')"
  shows "has_key me_EventID (me_EventID ev) (t_metered w')"
  using assms unfolding ApplyMetering_def
  by (auto simp: Let_def has_key_def split: if_splits elim!: with_io_Inr)

text \<open>
  C27. No metering event is lost and none is dropped by mistake. A delivery is terminated exactly
  when its payload can never be counted; it is acknowledged only once its event id is recorded;
  and a countable event is acknowledged as soon as the database answers, unless its sums leave the
  range of a bigint column.
\<close>

theorem metering_verdicts:
  assumes "metering_handle data w = (v, w')"
  shows "(v = MsgTerm \<longleftrightarrow> (\<nexists>e d. data = Some e \<and> rollupDelta e = Inr d)) \<and>
    (v = MsgAck \<longrightarrow> (\<exists>e. data = Some e \<and> has_key me_EventID (me_EventID e) (t_metered w'))) \<and>
    (\<forall>e d. data = Some e \<longrightarrow> rollupDelta e = Inr d \<longrightarrow> healthy w \<longrightarrow>
       list_all bigints_ok (upsert_rollup (d\<lparr>ur_UpdatedAt := clock w\<rparr>) (t_rollups w)) \<longrightarrow> v = MsgAck)"
proof (cases "\<exists>e d. data = Some e \<and> rollupDelta e = Inr d")
  case False
  then show ?thesis
    using assms by (auto simp: metering_handle_def consumeMeteringPayload_def isTerminalMeteringErr_def and_then_def ret_def
        split: option.splits sum.splits)
next
  case True
  then obtain e d where e: "data = Some e" "rollupDelta e = Inr d" by blast
  obtain r w1 where run: "ApplyMetering e (ur_Month d) d w = (r, w1)" by fastforce
  have v: "v = (case r of Inl _ \<Rightarrow> MsgNakWithDelay | Inr _ \<Rightarrow> MsgAck)" "w' = w1"
    using assms e run by (auto simp: metering_handle_def consumeMeteringPayload_def isTerminalMeteringErr_def and_then_def ret_def
        split: sum.splits)
  have "\<exists>b. r = Inr b" if "healthy w" "list_all bigints_ok (upsert_rollup (d\<lparr>ur_UpdatedAt := clock w\<rparr>) (t_rollups w))"
    using run that by (auto simp: ApplyMetering_def with_io_healthy Let_def split: if_splits)
  with v e show ?thesis using ApplyMetering_Inr run by (auto split: sum.splits)
qed

definition ex_no_usage :: ten where
  "ex_no_usage = \<lparr>io_script = [], id_supply = [], clock = 5, t_users = [], t_workspaces = [], t_members = [],
     t_refresh = [], t_logins = [], t_apikeys = [], t_metered = [], t_rollups = [], entropy = []\<rparr>"

theorem metering_verdicts_witness:
  "fst (metering_handle (Some ex_metering) ex_no_usage) = MsgAck"
proof -
  obtain v w' where run: "metering_handle (Some ex_metering) ex_no_usage = (v, w')" by fastforce
  obtain d where d: "rollupDelta ex_metering = Inr d" "bigints_ok (d\<lparr>ur_UpdatedAt := 5\<rparr>)"
    by (simp add: rollupDelta_def ex_metering_def zero_rollup_def bigints_ok_def in_i64_def)
  have "healthy ex_no_usage" "list_all bigints_ok (upsert_rollup (d\<lparr>ur_UpdatedAt := clock ex_no_usage\<rparr>) (t_rollups ex_no_usage))"
    using d(2) by (simp_all add: healthy_def ex_no_usage_def upsert_rollup_def has_key_def)
  then show ?thesis using metering_verdicts [OF run] d(1) run by simp
qed

end
