(* ===== verification/TenQuota.thy ===== *)
theory TenQuota
  imports TenMetering
begin

text \<open>
  Plan tiers, \<open>services/tenancy/tiers.go\<close>, and the metered quota checker,
  \<open>services/tenancy/quota.go\<close>: the second implementation of the contracts' quota hook. Its
  answers are related to the recorded metering events through the invariant of the rollups.
\<close>

section \<open>Plan tiers (tiers.go)\<close>

record Tier =
  ti_EncodeHoursPerMonth :: real
  ti_StorageBytes :: int
  ti_MaxUploadBytes :: int
  ti_AllowUploads :: bool
  ti_AllowJobs :: bool

record TierConfig =
  tg_DefaultTier :: string
  tg_Tiers :: "(string \<times> Tier) list"

datatype tier_err =
  TierFileUnreadable | TierFileUndecodable | NoTiers | NoDefaultTier | DefaultTierUndefined | EmptyTierName
| NegativeEncodeHours | NegativeStorage | NegativeMaxUpload

fun check_tiers :: "(string \<times> Tier) list \<Rightarrow> tier_err option" where
  "check_tiers [] = None"
| "check_tiers ((name, t) # rest) =
     (if name = [] then Some EmptyTierName
      else if ti_EncodeHoursPerMonth t < 0 then Some NegativeEncodeHours
      else if ti_StorageBytes t < 0 then Some NegativeStorage
      else if ti_MaxUploadBytes t < 0 then Some NegativeMaxUpload
      else check_tiers rest)"

definition Lookup :: "TierConfig \<Rightarrow> string \<Rightarrow> Tier option" where
  "Lookup c name = map_of (tg_Tiers c) name"

definition tiers_validate :: "TierConfig \<Rightarrow> tier_err option" where
  "tiers_validate c =
     (if tg_Tiers c = [] then Some NoTiers
      else if tg_DefaultTier c = [] then Some NoDefaultTier
      else if Lookup c (tg_DefaultTier c) = None then Some DefaultTierUndefined
      else check_tiers (tg_Tiers c))"

text \<open>The file system and the strict YAML decoder are parameters.\<close>

definition LoadTierConfig ::
  "(string \<Rightarrow> string option) \<Rightarrow> (string \<Rightarrow> TierConfig option) \<Rightarrow> string \<Rightarrow> tier_err + TierConfig" where
  "LoadTierConfig read_file yaml_decode path =
     (case read_file path of
        None \<Rightarrow> Inl TierFileUnreadable
      | Some raw \<Rightarrow>
          (case yaml_decode raw of
             None \<Rightarrow> Inl TierFileUndecodable
           | Some cfg \<Rightarrow> (case tiers_validate cfg of Some e \<Rightarrow> Inl e | None \<Rightarrow> Inr cfg)))"

lemma check_tiers_None:
  "check_tiers ts = None \<Longrightarrow> (name, t) \<in> set ts \<Longrightarrow>
   0 \<le> ti_EncodeHoursPerMonth t \<and> 0 \<le> ti_StorageBytes t \<and> 0 \<le> ti_MaxUploadBytes t"
  by (induction ts rule: check_tiers.induct) (auto split: if_splits)

lemma valid_tier_limits:
  assumes "tiers_validate c = None" "Lookup c name = Some t"
  shows "0 \<le> ti_EncodeHoursPerMonth t" "0 \<le> ti_StorageBytes t" "0 \<le> ti_MaxUploadBytes t"
  using assms check_tiers_None [of "tg_Tiers c" name t]
  by (auto simp: tiers_validate_def Lookup_def dest: map_of_SomeD split: if_splits)

section \<open>The checker (quota.go)\<close>

definition ReasonStorageExceeded :: string where
  "ReasonStorageExceeded = ''quota_storage_exceeded''"

definition ReasonEncodeHoursExhausted :: string where
  "ReasonEncodeHoursExhausted = ''quota_encode_hours_exhausted''"

definition ReasonTierUnknown :: string where
  "ReasonTierUnknown = ''quota_tier_unknown''"

lemmas metered_reasons = quota_reasons ReasonStorageExceeded_def ReasonEncodeHoursExhausted_def ReasonTierUnknown_def

text \<open>Either the tier, or the denial to answer with.\<close>

definition resolveTier :: "TierConfig \<Rightarrow> string \<Rightarrow> (ten, QuotaDecision + Tier) op" where
  "resolveTier tiers wsid =
     and_then (GetWorkspace wsid) (\<lambda>r. case r of
       Inl e \<Rightarrow> ret (if e = ErrNotFound then Inr (Inl (deny ReasonWorkspaceUnknown)) else Inl e)
     | Inr k \<Rightarrow>
         ret (case Lookup tiers (ws_PlanTier k) of
                None \<Rightarrow> Inr (Inl (deny ReasonTierUnknown))
              | Some t \<Rightarrow> Inr (Inr t)))"

definition Metered_CheckUploadSession :: "TierConfig \<Rightarrow> string \<Rightarrow> int \<Rightarrow> (ten, QuotaDecision) op" where
  "Metered_CheckUploadSession tiers wsid sizeHint =
     (if wsid = [] then ret (Inr (deny ReasonWorkspaceUnknown))
      else if sizeHint < 0 then ret (Inl ErrIO)
      else and_then (resolveTier tiers wsid) (\<lambda>r. case r of
        Inl e \<Rightarrow> ret (Inl e)
      | Inr (Inl d) \<Rightarrow> ret (Inr d)
      | Inr (Inr tier) \<Rightarrow>
          if \<not> ti_AllowUploads tier then ret (Inr (deny ReasonUploadsDisabled))
          else if ti_MaxUploadBytes tier > 0 \<and> sizeHint > ti_MaxUploadBytes tier
          then ret (Inr (deny ReasonUploadSizeExceeded))
          else if ti_StorageBytes tier > 0
          then and_then (SumStorageBytes wsid) (\<lambda>r. case r of
                 Inl e \<Rightarrow> ret (Inl e)
               | Inr used \<Rightarrow>
                   if add64 used sizeHint > ti_StorageBytes tier then ret (Inr (deny ReasonStorageExceeded))
                   else ret (Inr allow))
          else ret (Inr allow)))"

definition encode_decision :: "Tier \<Rightarrow> UsageRollup \<Rightarrow> QuotaDecision" where
  "encode_decision tier rollup =
     (if ur_EncodeSeconds rollup \<ge> ti_EncodeHoursPerMonth tier * 3600 then deny ReasonEncodeHoursExhausted else allow)"

text \<open>A month without a row has the zero rollup.\<close>

definition Metered_CheckJobAdmission :: "TierConfig \<Rightarrow> string \<Rightarrow> (ten, QuotaDecision) op" where
  "Metered_CheckJobAdmission tiers wsid =
     (if wsid = [] then ret (Inr (deny ReasonWorkspaceUnknown))
      else and_then (resolveTier tiers wsid) (\<lambda>r. case r of
        Inl e \<Rightarrow> ret (Inl e)
      | Inr (Inl d) \<Rightarrow> ret (Inr d)
      | Inr (Inr tier) \<Rightarrow>
          if \<not> ti_AllowJobs tier then ret (Inr (deny ReasonJobsDisabled))
          else if ti_EncodeHoursPerMonth tier > 0
          then and_then (at_clock (\<lambda>now. GetRollup wsid (monthOf now))) (\<lambda>r. case r of
                 Inl e \<Rightarrow> ret (if e = ErrNotFound then Inr (encode_decision tier zero_rollup) else Inl e)
               | Inr rollup \<Rightarrow> ret (Inr (encode_decision tier rollup)))
          else ret (Inr allow)))"

section \<open>The checks as quota checkers\<close>

text \<open>All that a check consumes is the failure script.\<close>

definition but_script :: "ten \<Rightarrow> ten" where
  "but_script w = w\<lparr>io_script := []\<rparr>"

definition reads :: "(ten \<Rightarrow> 'a \<times> ten) \<Rightarrow> bool" where
  "reads f \<longleftrightarrow> (\<forall>w. but_script (snd (f w)) = but_script w)"

lemma reads_ret: "reads (ret x)"
  by (simp add: reads_def ret_def)

lemma reads_and_then: "reads f \<Longrightarrow> (\<And>r. reads (g r)) \<Longrightarrow> reads (and_then f g)"
  by (simp add: reads_def snd_and_then)

lemma reads_with_io:
  assumes "\<And>w. snd (f w) = w"
  shows "reads (with_io f)"
  unfolding reads_def
proof
  fix w :: ten
  show "but_script (snd (with_io f w)) = but_script w"
    by (cases rule: with_io_cases [of w f]) (auto simp: assms but_script_def dest: next_io_update)
qed

lemma reads_queries:
  "reads (GetWorkspace i)" "reads (SumStorageBytes i)" "reads (at_clock (\<lambda>now. GetRollup i (monthOf now)))"
proof -
  have "reads (GetRollup i m)" for m unfolding GetRollup_def by (rule reads_with_io) simp
  then show "reads (at_clock (\<lambda>now. GetRollup i (monthOf now)))" by (simp add: reads_def at_clock_def)
qed (auto simp: GetWorkspace_def SumStorageBytes_def Let_def intro!: reads_with_io)

lemma reads_upload_check: "reads (Metered_CheckUploadSession tiers wsid n)"
  unfolding Metered_CheckUploadSession_def resolveTier_def
  by (auto split: sum.splits intro!: reads_and_then reads_ret reads_queries)

lemma reads_job_check: "reads (Metered_CheckJobAdmission tiers wsid)"
  unfolding Metered_CheckJobAdmission_def resolveTier_def Let_def
  by (auto split: sum.splits intro!: reads_and_then reads_ret reads_queries)

text \<open>Every answer is an admission or a denial with its reason.\<close>

definition decides :: "(ten, QuotaDecision) op \<Rightarrow> bool" where
  "decides f \<longleftrightarrow> (\<forall>w d. fst (f w) = Inr d \<longrightarrow> decision_ok d)"

lemma decides_ret: "(\<And>d. r = Inr d \<Longrightarrow> decision_ok d) \<Longrightarrow> decides (ret r)"
  by (simp add: decides_def ret_def)

lemma decides_and_then: "(\<And>r w. f w = (r, snd (f w)) \<Longrightarrow> decides (g r)) \<Longrightarrow> decides (and_then f g)"
  unfolding decides_def and_then_result by (metis prod.collapse)

lemma resolve_decision: "resolveTier tiers wsid w = (Inr (Inl d), w') \<Longrightarrow> decision_ok d"
  by (auto simp: resolveTier_def and_then_def ret_def decision_ok_def metered_reasons
      split: prod.splits sum.splits if_splits option.splits)

lemma decides_upload_check: "decides (Metered_CheckUploadSession tiers wsid n)"
  unfolding Metered_CheckUploadSession_def
  by (auto simp: decision_ok_def metered_reasons split: sum.splits intro!: decides_and_then decides_ret)
    (auto dest!: resolve_decision simp: decision_ok_def)

lemma decides_job_check: "decides (Metered_CheckJobAdmission tiers wsid)"
  unfolding Metered_CheckJobAdmission_def
  by (auto simp: decision_ok_def metered_reasons encode_decision_def split: sum.splits if_splits intro!: decides_and_then decides_ret)
    (auto dest!: resolve_decision simp: decision_ok_def)

interpretation metered_upload: quota_checker "Metered_CheckUploadSession tiers wsid n" but_script
  using reads_upload_check decides_upload_check by unfold_locales (auto simp: reads_def decides_def)

interpretation metered_jobs: quota_checker "Metered_CheckJobAdmission tiers wsid" but_script
  using reads_job_check decides_job_check by unfold_locales (auto simp: reads_def decides_def)

section \<open>Admission and the recorded events\<close>

definition landed_bytes :: "string \<Rightarrow> MeteringEvent list \<Rightarrow> int" where
  "landed_bytes wsid evs = sum_list (map event_bytes (of_kind MeteringUploadCompleted (filter (\<lambda>e. me_WorkspaceID e = wsid) evs)))"

definition encoded_seconds :: "string \<Rightarrow> string \<Rightarrow> MeteringEvent list \<Rightarrow> real" where
  "encoded_seconds wsid month evs = ur_EncodeSeconds (usage_of wsid month evs)"

text \<open>Summing group by group, when every element has its group in the list.\<close>

lemma sum_list_groups:
  fixes g :: "'e \<Rightarrow> 'n::comm_monoid_add"
  assumes "distinct ks" "\<And>e. e \<in> set es \<Longrightarrow> k e \<in> set ks"
  shows "sum_list (map (\<lambda>x. sum_list (map g (filter (\<lambda>e. k e = x) es))) ks) = sum_list (map g es)"
  using assms(2)
proof (induction es)
  case (Cons e es)
  let ?s = "\<lambda>x. sum_list (map g (filter (\<lambda>e. k e = x) es))"
  have one: "sum_list (map (\<lambda>x. if k e = x then g e else 0) ks) = g e"
    using assms(1) Cons.prems by (simp add: sum_list_distinct_conv_sum_set)
  have "sum_list (map (\<lambda>x. sum_list (map g (filter (\<lambda>e. k e = x) (e # es)))) ks)
      = sum_list (map (\<lambda>x. (if k e = x then g e else 0) + ?s x) ks)"
    by (intro arg_cong [where f = sum_list] map_cong) auto
  also have "\<dots> = sum_list (map (\<lambda>x. if k e = x then g e else 0) ks) + sum_list (map ?s ks)" by (simp add: sum_list_addf)
  finally show ?case using Cons one by simp
qed (simp add: sum_list_0)

lemma storage_is_landed_bytes:
  assumes "metering_inv w"
  shows "sum_list (map ur_BytesUploaded (filter (\<lambda>r. ur_WorkspaceID r = wsid) (t_rollups w))) = landed_bytes wsid (t_metered w)"
proof -
  let ?rows = "filter (\<lambda>r. ur_WorkspaceID r = wsid) (t_rollups w)"
    and ?es = "of_kind MeteringUploadCompleted (filter (\<lambda>e. me_WorkspaceID e = wsid) (t_metered w))"
  have "inj_on ur_Month (set ?rows)" and "distinct ?rows"
    using assms by (auto simp: metering_inv_def unique_keys_def rollup_key_def distinct_map inj_on_def intro: distinct_filter)
  then have d: "distinct (map ur_Month ?rows)" by (simp add: distinct_map)
  have m: "monthOf (me_At e) \<in> set (map ur_Month ?rows)" if "e \<in> set ?es" for e
  proof -
    have "has_key rollup_key (wsid, monthOf (me_At e)) (t_rollups w)"
      using assms that unfolding metering_inv_def by (auto simp: of_kind_def billed_to_def)
    then show ?thesis by (force simp: has_key_def rollup_key_def)
  qed
  have "ur_BytesUploaded r = sum_list (map event_bytes (filter (\<lambda>e. monthOf (me_At e) = ur_Month r) ?es))" if r: "r \<in> set ?rows" for r
  proof -
    have "r\<lparr>ur_UpdatedAt := 0\<rparr> = usage_of wsid (ur_Month r) (t_metered w)"
      using assms r by (auto simp: metering_inv_def list_all_iff row_exact_def)
    then have "ur_BytesUploaded r = ur_BytesUploaded (usage_of wsid (ur_Month r) (t_metered w))"
      by (metis (no_types, lifting) UsageRollup.select_convs(3) UsageRollup.surjective UsageRollup.update_convs(11))
    also have "\<dots> = sum_list (map event_bytes (filter (\<lambda>e. monthOf (me_At e) = ur_Month r) ?es))"
      by (simp add: usage_of_def of_kind_def billed_to_def conj_commute conj_left_commute)
    finally show ?thesis .
  qed
  then have eq: "map ur_BytesUploaded ?rows
      = map (\<lambda>x. sum_list (map event_bytes (filter (\<lambda>e. monthOf (me_At e) = x) ?es))) (map ur_Month ?rows)" by simp
  show ?thesis
    unfolding landed_bytes_def eq by (rule sum_list_groups [OF d m])
qed

lemma month_seconds:
  assumes "metering_inv w"
  shows "(case query_row (\<lambda>r. ur_WorkspaceID r = wsid \<and> ur_Month r = month) (t_rollups w) of
      Inl _ \<Rightarrow> 0 | Inr r \<Rightarrow> ur_EncodeSeconds r) = encoded_seconds wsid month (t_metered w)"
proof (cases "List.find (\<lambda>r. ur_WorkspaceID r = wsid \<and> ur_Month r = month) (t_rollups w)")
  case None
  then have "\<not> has_key rollup_key (wsid, month) (t_rollups w)" by (auto simp: find_None_all has_key_def rollup_key_def)
  then have "\<not> (\<exists>e \<in> set (t_metered w). billed_to wsid month e)" using assms by (simp add: metering_inv_def)
  with None show ?thesis by (simp add: query_row_def encoded_seconds_def usage_none zero_rollup_def)
next
  case (Some r)
  then have "r\<lparr>ur_UpdatedAt := 0\<rparr> = usage_of wsid month (t_metered w)"
    using assms find_mem [OF Some] by (auto simp: metering_inv_def list_all_iff row_exact_def)
  then have "ur_EncodeSeconds (r\<lparr>ur_UpdatedAt := 0\<rparr>) = encoded_seconds wsid month (t_metered w)" by (simp add: encoded_seconds_def)
  with Some show ?thesis by (simp add: query_row_def)
qed

text \<open>The checks, when the database answers.\<close>

lemma resolve_eq:
  assumes "healthy w"
  shows "resolveTier tiers wsid w =
    (case List.find (\<lambda>k. ws_ID k = wsid) (t_workspaces w) of
       None \<Rightarrow> Inr (Inl (deny ReasonWorkspaceUnknown))
     | Some k \<Rightarrow> (case Lookup tiers (ws_PlanTier k) of None \<Rightarrow> Inr (Inl (deny ReasonTierUnknown)) | Some t \<Rightarrow> Inr (Inr t)), w)"
  using assms
  by (auto simp: resolveTier_def and_then_def ret_def GetWorkspace_def with_io_healthy query_row_def split: option.splits)

lemma upload_check_eq:
  assumes "healthy w" "metering_inv w" "wsid \<noteq> []" "0 \<le> n" "tiers_validate tiers = None"
    and "in_i64 (landed_bytes wsid (t_metered w) + n)" "in_i64 (landed_bytes wsid (t_metered w))"
  shows "fst (Metered_CheckUploadSession tiers wsid n w) = Inr allow \<longleftrightarrow>
    (\<exists>k t. List.find (\<lambda>k. ws_ID k = wsid) (t_workspaces w) = Some k \<and> Lookup tiers (ws_PlanTier k) = Some t \<and>
       ti_AllowUploads t \<and> (ti_MaxUploadBytes t = 0 \<or> n \<le> ti_MaxUploadBytes t) \<and>
       (ti_StorageBytes t = 0 \<or> landed_bytes wsid (t_metered w) + n \<le> ti_StorageBytes t))"
proof -
  have sum: "SumStorageBytes wsid w = (Inr (landed_bytes wsid (t_metered w)), w)"
    using assms by (simp add: SumStorageBytes_def with_io_healthy storage_is_landed_bytes)
  have add: "add64 (landed_bytes wsid (t_metered w)) n = landed_bytes wsid (t_metered w) + n"
    using assms(6) by (simp add: add64_def wrap64_id)
  have pos: "ti_MaxUploadBytes t > 0 \<longleftrightarrow> ti_MaxUploadBytes t \<noteq> 0" "ti_StorageBytes t > 0 \<longleftrightarrow> ti_StorageBytes t \<noteq> 0"
    if "Lookup tiers name = Some t" for name t
    using valid_tier_limits [OF assms(5) that] by auto
  show ?thesis
    using assms(3,4)
    by (auto simp: Metered_CheckUploadSession_def and_then_result resolve_eq [OF assms(1)] ret_def sum add pos split: option.splits)
qed

lemma job_check_eq:
  assumes "healthy w" "metering_inv w" "wsid \<noteq> []" "tiers_validate tiers = None"
  shows "fst (Metered_CheckJobAdmission tiers wsid w) = Inr allow \<longleftrightarrow>
    (\<exists>k t. List.find (\<lambda>k. ws_ID k = wsid) (t_workspaces w) = Some k \<and> Lookup tiers (ws_PlanTier k) = Some t \<and> ti_AllowJobs t \<and>
       (ti_EncodeHoursPerMonth t = 0 \<or>
        encoded_seconds wsid (monthOf (clock w)) (t_metered w) < ti_EncodeHoursPerMonth t * 3600))"
proof -
  let ?q = "query_row (\<lambda>r. ur_WorkspaceID r = wsid \<and> ur_Month r = monthOf (clock w)) (t_rollups w)"
  have row: "GetRollup wsid (monthOf (clock w)) w = (?q, w)"
    using assms(1) by (simp add: GetRollup_def with_io_healthy)
  have nf: "e = ErrNotFound" if "?q = Inl e" for e using that by (auto simp: query_row_def split: option.splits)
  have secs: "(case ?q of Inl _ \<Rightarrow> 0 | Inr r \<Rightarrow> ur_EncodeSeconds r) = encoded_seconds wsid (monthOf (clock w)) (t_metered w)"
    by (rule month_seconds [OF assms(2)])
  have gate: "fst (and_then (at_clock (\<lambda>now. GetRollup wsid (monthOf now))) (\<lambda>r. case r of
        Inl e \<Rightarrow> ret (if e = ErrNotFound then Inr (encode_decision t zero_rollup) else Inl e)
      | Inr rollup \<Rightarrow> ret (Inr (encode_decision t rollup))) w) = Inr allow \<longleftrightarrow>
      encoded_seconds wsid (monthOf (clock w)) (t_metered w) < ti_EncodeHoursPerMonth t * 3600" for t
    using secs nf by (cases ?q) (auto simp: and_then_def ret_def at_clock_def row encode_decision_def zero_rollup_def)
  have pos: "0 < ti_EncodeHoursPerMonth t \<longleftrightarrow> ti_EncodeHoursPerMonth t \<noteq> 0" if "Lookup tiers name = Some t" for name t
    using valid_tier_limits(1) [OF assms(4) that] by auto
  show ?thesis
    using assms(3)
    by (auto simp: Metered_CheckJobAdmission_def and_then_result [where f = "resolveTier tiers wsid"] resolve_eq [OF assms(1)] ret_def gate pos
        split: option.splits)
qed

end
