(* ===== verification/TenServer.thy ===== *)
theory TenServer
  imports TenKeys TenQuota Boundary ServeMux
begin

text \<open>
  The tenancy service's HTTP surface: the middleware and helpers of
  \<open>services/tenancy/server.go\<close>, the workspace and membership handlers of \<open>workspaces.go\<close>, the API
  key handlers of \<open>apikeys.go\<close>, the usage handler of \<open>metering.go\<close> and the internal quota endpoints
  of \<open>quota.go\<close>. A handler returns a status and a body; \<open>Routes\<close> mounts the handlers.
\<close>

section \<open>Responses\<close>

record userView =
  uv_ID :: string
  uv_Email :: string
  uv_Name :: string

record workspaceView =
  wv_ID :: string
  wv_Name :: string
  wv_PlanTier :: string
  wv_CreatedAt :: int
  wv_Role :: string
  wv_Active :: bool

record memberView =
  mv_UserID :: string
  mv_Email :: string
  mv_Name :: string
  mv_Role :: string
  mv_CreatedAt :: int

record apiKeyView =
  kv_ID :: string
  kv_WorkspaceID :: string
  kv_Name :: string
  kv_CreatedBy :: string
  kv_CreatedAt :: int
  kv_LastUsedAt :: "int option"
  kv_RevokedAt :: "int option"

record usageResponse =
  ux_WorkspaceID :: string
  ux_PlanTier :: string
  ux_Month :: string
  ux_EncodeSecondsUsed :: real
  ux_EncodeHoursUsed :: real
  ux_EncodeHoursLimit :: real
  ux_StorageBytesUsed :: int
  ux_StorageBytesLimit :: int
  ux_UploadSessions :: int
  ux_UploadsCompleted :: int
  ux_JobsQueued :: int
  ux_JobsStarted :: int
  ux_JobsCompleted :: int
  ux_JobsFailed :: int

record sessionResponse =
  sr_AccessToken :: string
  sr_ExpiresIn :: int
  sr_RefreshToken :: string
  sr_User :: userView
  sr_ActiveWorkspaceID :: string

text \<open>\<open>TAbort\<close> is a handler that panicked: the connection ends without a response.\<close>

datatype ten_body =
  TErr string string
| TNoContent
| TAbort
| TMe userView "workspaceView option"
| TWorkspace workspaceView
| TWorkspaces "workspaceView list"
| TSwitched string int workspaceView
| TMembers "memberView list"
| TMember memberView
| TRoleSet string string
| TKeyCreated string apiKeyView
| TKeys "apiKeyView list"
| TUsage usageResponse
| TDecision bool string
| TRedirect string
| TSession sessionResponse int
| TKeyToken string int string
| TOk
| TMux mux_reply

type_synonym ten_resp = "int \<times> ten_body"

abbreviation terr :: "int \<Rightarrow> string \<Rightarrow> string \<Rightarrow> ten_resp" where
  "terr status code msg \<equiv> (status, TErr code msg)"

definition internalError :: ten_resp where
  "internalError = terr 500 ''internal'' ''internal error''"

record TenServer =
  ts_lib :: crypto_lib
  ts_key :: string
  ts_AuthCodeURL :: "string \<Rightarrow> string \<Rightarrow> string \<Rightarrow> string"
  ts_tiers :: TierConfig
  ts_accessTokenTTL :: int
  ts_refreshTokenTTL :: int
  ts_internalToken :: string
  ts_cookieSecure :: bool

definition Ten_NewServer ::
  "crypto_lib \<Rightarrow> string \<Rightarrow> (string \<Rightarrow> string \<Rightarrow> string \<Rightarrow> string) \<Rightarrow> TierConfig \<Rightarrow> int \<Rightarrow> int \<Rightarrow> string \<Rightarrow> bool \<Rightarrow> TenServer" where
  "Ten_NewServer lib key url tiers attl rttl tok secure =
     \<lparr>ts_lib = lib, ts_key = key, ts_AuthCodeURL = url, ts_tiers = tiers, ts_accessTokenTTL = attl,
      ts_refreshTokenTTL = rttl, ts_internalToken = tok, ts_cookieSecure = secure\<rparr>"

section \<open>Middleware and helpers (server.go)\<close>

definition apiKeyUserPrefix :: string where
  "apiKeyUserPrefix = ''apikey:''"

text \<open>An absent header is the empty string.\<close>

definition bearer_or_key :: "string \<Rightarrow> string \<Rightarrow> string" where
  "bearer_or_key authorization xkey =
     (if has_prefix ''Bearer '' authorization then trim_prefix ''Bearer '' authorization else xkey)"

definition authMiddleware :: "TenServer \<Rightarrow> string \<Rightarrow> string \<Rightarrow> ten \<Rightarrow> (ten_resp + TenIdentity) \<times> ten" where
  "authMiddleware sv authorization xkey =
     (let token = bearer_or_key authorization xkey in
      if token = [] then ret (Inl (terr 401 ''unauthorized'' ''missing bearer token or api key''))
      else if has_prefix apiKeyPrefix token
      then and_then (verifyAPIKeyString (ts_lib sv) token) (\<lambda>r. case r of
             Inl e \<Rightarrow> ret (Inl (if e = ErrNotFound then terr 401 ''unauthorized'' ''invalid api key'' else internalError))
           | Inr key \<Rightarrow> ret (Inr \<lparr>tn_UserID = apiKeyUserPrefix @ ak_ID key, tn_WorkspaceID = ak_WorkspaceID key\<rparr>))
      else at_clock (\<lambda>now. ret (case Ten_Verify (ts_lib sv) (ts_key sv) token now of
             None \<Rightarrow> Inl (terr 401 ''unauthorized'' ''invalid bearer token'')
           | Some i \<Rightarrow> Inr i)))"

definition internalAuthMiddleware :: "TenServer \<Rightarrow> string \<Rightarrow> (ten \<Rightarrow> ten_resp \<times> ten) \<Rightarrow> ten \<Rightarrow> ten_resp \<times> ten" where
  "internalAuthMiddleware sv got handler =
     (if got \<noteq> ts_internalToken sv then ret (terr 401 ''unauthorized'' ''missing or invalid internal token'') else handler)"

definition requireIdentity :: "TenIdentity option \<Rightarrow> (TenIdentity \<Rightarrow> ten \<Rightarrow> ten_resp \<times> ten) \<Rightarrow> ten \<Rightarrow> ten_resp \<times> ten" where
  "requireIdentity ident k = (case ident of None \<Rightarrow> ret (terr 401 ''unauthorized'' ''no identity'') | Some i \<Rightarrow> k i)"

definition requireUser :: "TenIdentity option \<Rightarrow> (TenIdentity \<Rightarrow> ten \<Rightarrow> ten_resp \<times> ten) \<Rightarrow> ten \<Rightarrow> ten_resp \<times> ten" where
  "requireUser ident k = requireIdentity ident (\<lambda>i.
     if has_prefix apiKeyUserPrefix (tn_UserID i)
     then ret (terr 403 ''user_required'' ''this endpoint requires a user session, not an api key'') else k i)"

definition roleRank :: "string \<Rightarrow> nat" where
  "roleRank r = (if r = RoleOwner then 3 else if r = RoleAdmin then 2 else if r = RoleMember then 1 else 0)"

definition requireRole :: "string \<Rightarrow> string \<Rightarrow> string \<Rightarrow> (ten \<Rightarrow> ten_resp \<times> ten) \<Rightarrow> ten \<Rightarrow> ten_resp \<times> ten" where
  "requireRole wsid user minRole k =
     and_then (GetMembership wsid user) (\<lambda>r. case r of
       Inl e \<Rightarrow> ret (if e = ErrNotFound then terr 403 ''not_a_member'' ''caller is not a member of this workspace'' else internalError)
     | Inr m \<Rightarrow>
         if roleRank (mb_Role m) < roleRank minRole
         then ret (terr 403 ''insufficient_role'' (''this action requires the '' @ minRole @ '' role or better''))
         else k)"

definition decodeJSONBody :: "'a json_in \<Rightarrow> ten_resp + 'a" where
  "decodeJSONBody b =
     (case b of
        JsonValue v rest \<Rightarrow>
          if at_eof rest then Inr v else Inl (terr 400 ''invalid_body'' ''request body must contain a single JSON object'')
      | _ \<Rightarrow> Inl (terr 400 ''invalid_body'' ''request body must be valid JSON with known fields only''))"

definition with_body :: "'a json_in \<Rightarrow> ('a \<Rightarrow> ten \<Rightarrow> ten_resp \<times> ten) \<Rightarrow> ten \<Rightarrow> ten_resp \<times> ten" where
  "with_body b k = (case decodeJSONBody b of Inl resp \<Rightarrow> ret resp | Inr v \<Rightarrow> k v)"

text \<open>\<open>or_500\<close>: go on with the value of a store call, or log and answer 500.\<close>

definition or_500 :: "('a \<Rightarrow> ten \<Rightarrow> ten_resp \<times> ten) \<Rightarrow> store_err + 'a \<Rightarrow> ten \<Rightarrow> ten_resp \<times> ten" where
  "or_500 k r = (case r of Inl _ \<Rightarrow> ret internalError | Inr x \<Rightarrow> k x)"

text \<open>\<open>or_else resp\<close>: the same, with a dedicated answer for a missing row.\<close>

definition or_else :: "ten_resp \<Rightarrow> ('a \<Rightarrow> ten \<Rightarrow> ten_resp \<times> ten) \<Rightarrow> store_err + 'a \<Rightarrow> ten \<Rightarrow> ten_resp \<times> ten" where
  "or_else resp k r = (case r of Inl e \<Rightarrow> ret (if e = ErrNotFound then resp else internalError) | Inr x \<Rightarrow> k x)"

text \<open>\<open>uuid.NewString\<close> panics when the entropy source fails.\<close>

definition with_uuid :: "(string \<Rightarrow> ten \<Rightarrow> ten_resp \<times> ten) \<Rightarrow> ten \<Rightarrow> ten_resp \<times> ten" where
  "with_uuid k = and_then new_id (\<lambda>r. case r of Inl _ \<Rightarrow> ret (0, TAbort) | Inr i \<Rightarrow> k i)"

section \<open>Workspaces and members (workspaces.go)\<close>

definition view_workspace :: "Workspace \<Rightarrow> string \<Rightarrow> bool \<Rightarrow> workspaceView" where
  "view_workspace k role active =
     \<lparr>wv_ID = ws_ID k, wv_Name = ws_Name k, wv_PlanTier = ws_PlanTier k, wv_CreatedAt = ws_CreatedAt k,
      wv_Role = role, wv_Active = active\<rparr>"

definition view_user :: "User \<Rightarrow> userView" where
  "view_user u = \<lparr>uv_ID = us_ID u, uv_Email = us_Email u, uv_Name = us_Name u\<rparr>"

definition handleMe :: "TenIdentity option \<Rightarrow> ten \<Rightarrow> ten_resp \<times> ten" where
  "handleMe ident = requireUser ident (\<lambda>i.
     and_then (GetUser (tn_UserID i)) (or_500 (\<lambda>user.
       and_then (GetMembership (tn_WorkspaceID i) (tn_UserID i)) (\<lambda>r. case r of
         Inl _ \<Rightarrow> ret (200, TMe (view_user user) None)
       | Inr m \<Rightarrow> and_then (GetWorkspace (tn_WorkspaceID i)) (\<lambda>r. case r of
           Inl _ \<Rightarrow> ret (200, TMe (view_user user) None)
         | Inr k \<Rightarrow> ret (200, TMe (view_user user) (Some (view_workspace k (mb_Role m) True))))))))"

text \<open>A name for a workspace or a key: trimmed, 1 to 128 bytes.\<close>

definition with_name :: "string \<Rightarrow> (string \<Rightarrow> ten \<Rightarrow> ten_resp \<times> ten) \<Rightarrow> ten \<Rightarrow> ten_resp \<times> ten" where
  "with_name raw k =
     (let name = trim_space raw in
      if name = [] \<or> length name > 128
      then ret (terr 400 ''invalid_name'' ''name is required and at most 128 characters'') else k name)"

definition handleCreateWorkspace :: "TenServer \<Rightarrow> TenIdentity option \<Rightarrow> string json_in \<Rightarrow> ten \<Rightarrow> ten_resp \<times> ten" where
  "handleCreateWorkspace sv ident body = requireUser ident (\<lambda>i. with_body body (\<lambda>req. with_name req (\<lambda>name.
     with_uuid (\<lambda>wsid. at_clock (\<lambda>now.
       let k = \<lparr>ws_ID = wsid, ws_Name = name, ws_PlanTier = tg_DefaultTier (ts_tiers sv), ws_CreatedBy = tn_UserID i,
                ws_CreatedAt = now\<rparr> in
       and_then (CreateWorkspace k (tn_UserID i)) (or_500 (\<lambda>_. ret (201, TWorkspace (view_workspace k RoleOwner False)))))))))"

definition handleListWorkspaces :: "TenIdentity option \<Rightarrow> ten \<Rightarrow> ten_resp \<times> ten" where
  "handleListWorkspaces ident = requireUser ident (\<lambda>i.
     and_then (GetUser (tn_UserID i)) (or_500 (\<lambda>user.
       and_then (ListWorkspacesForUser (tn_UserID i)) (or_500 (\<lambda>list.
         ret (200, TWorkspaces (map (\<lambda>r. view_workspace (wr_Workspace r) (wr_Role r)
           (ws_ID (wr_Workspace r) = us_ActiveWorkspaceID user)) list)))))))"

definition handleActiveWorkspace :: "TenIdentity option \<Rightarrow> ten \<Rightarrow> ten_resp \<times> ten" where
  "handleActiveWorkspace ident = requireUser ident (\<lambda>i.
     and_then (GetMembership (tn_WorkspaceID i) (tn_UserID i))
       (or_else (terr 403 ''not_a_member'' ''caller is no longer a member of the token workspace'') (\<lambda>m.
       and_then (GetWorkspace (tn_WorkspaceID i)) (or_500 (\<lambda>k. ret (200, TWorkspace (view_workspace k (mb_Role m) True)))))))"

definition whole_seconds :: "int \<Rightarrow> int" where
  "whole_seconds d = go_div d 1000000000"

definition handleSwitchWorkspace :: "TenServer \<Rightarrow> TenIdentity option \<Rightarrow> string json_in \<Rightarrow> ten \<Rightarrow> ten_resp \<times> ten" where
  "handleSwitchWorkspace sv ident body = requireUser ident (\<lambda>i. with_body body (\<lambda>wsid.
     if wsid = [] then ret (terr 400 ''invalid_workspace_id'' ''workspaceId is required'')
     else and_then (GetMembership wsid (tn_UserID i))
       (or_else (terr 403 ''not_a_member'' ''caller is not a member of that workspace'') (\<lambda>m.
       and_then (SetActiveWorkspace (tn_UserID i) wsid) (or_500 (\<lambda>_.
       and_then (at_clock (\<lambda>now. Mint (ts_lib sv) (ts_key sv) (tn_UserID i) wsid now (ts_accessTokenTTL sv))) (or_500 (\<lambda>access.
       and_then (GetWorkspace wsid) (or_500 (\<lambda>k.
         ret (200, TSwitched access (whole_seconds (ts_accessTokenTTL sv)) (view_workspace k (mb_Role m) True))))))))))))"

definition handleListMembers :: "TenIdentity option \<Rightarrow> string \<Rightarrow> ten \<Rightarrow> ten_resp \<times> ten" where
  "handleListMembers ident wsid = requireUser ident (\<lambda>i. requireRole wsid (tn_UserID i) RoleMember (
     and_then (ListMembers wsid) (or_500 (\<lambda>ms.
       ret (200, TMembers (map (\<lambda>m. \<lparr>mv_UserID = mb_UserID (mu_Membership m), mv_Email = mu_Email m, mv_Name = mu_Name m,
         mv_Role = mb_Role (mu_Membership m), mv_CreatedAt = mb_CreatedAt (mu_Membership m)\<rparr>) ms))))))"

record addMemberRequest =
  am_Email :: string
  am_Role :: string

definition handleAddMember :: "TenIdentity option \<Rightarrow> string \<Rightarrow> addMemberRequest json_in \<Rightarrow> ten \<Rightarrow> ten_resp \<times> ten" where
  "handleAddMember ident wsid body = requireUser ident (\<lambda>i. with_body body (\<lambda>req.
     let email = trim_space (to_lower (am_Email req)); role = am_Role req in
     if email = [] \<or> CHR ''@'' \<notin> set email then ret (terr 400 ''invalid_email'' ''a valid email is required'')
     else if \<not> validRole role then ret (terr 400 ''invalid_role'' ''role must be owner, admin, or member'')
     else requireRole wsid (tn_UserID i) (if role \<noteq> RoleMember then RoleOwner else RoleAdmin) (
       and_then (GetUserByEmail email)
         (or_else (terr 404 ''user_not_found'' ''no user with that email has signed in yet'') (\<lambda>target. at_clock (\<lambda>now.
         let m = \<lparr>mb_WorkspaceID = wsid, mb_UserID = us_ID target, mb_Role = role, mb_CreatedAt = now\<rparr> in
         and_then (AddMember m) (\<lambda>r. case r of
           Inl e \<Rightarrow> ret (if e = ErrDuplicate then terr 409 ''already_member'' ''user is already a member of this workspace'' else internalError)
         | Inr _ \<Rightarrow> ret (201, TMember \<lparr>mv_UserID = us_ID target, mv_Email = us_Email target, mv_Name = us_Name target,
               mv_Role = role, mv_CreatedAt = mb_CreatedAt m\<rparr>))))))))"

text \<open>The guard of demotions and removals: an owner is touched only while there is another one.\<close>

definition unless_last_owner :: "string \<Rightarrow> bool \<Rightarrow> string \<Rightarrow> (ten \<Rightarrow> ten_resp \<times> ten) \<Rightarrow> ten \<Rightarrow> ten_resp \<times> ten" where
  "unless_last_owner wsid touches_owner msg k =
     (if touches_owner
      then and_then (CountOwners wsid) (or_500 (\<lambda>owners.
             if owners \<le> 1 then ret (terr 409 ''last_owner'' msg) else k))
      else k)"

definition handleUpdateMemberRole :: "TenIdentity option \<Rightarrow> string \<Rightarrow> string \<Rightarrow> string json_in \<Rightarrow> ten \<Rightarrow> ten_resp \<times> ten" where
  "handleUpdateMemberRole ident wsid targetID body = requireUser ident (\<lambda>i. requireRole wsid (tn_UserID i) RoleOwner (
     with_body body (\<lambda>role.
       if \<not> validRole role then ret (terr 400 ''invalid_role'' ''role must be owner, admin, or member'')
       else and_then (GetMembership wsid targetID)
         (or_else (terr 404 ''member_not_found'' ''no such member in this workspace'') (\<lambda>current.
         unless_last_owner wsid (mb_Role current = RoleOwner \<and> role \<noteq> RoleOwner) ''cannot demote the last owner'' (
           and_then (UpdateMemberRole wsid targetID role) (or_500 (\<lambda>_. ret (200, TRoleSet targetID role)))))))))"

definition handleRemoveMember :: "TenIdentity option \<Rightarrow> string \<Rightarrow> string \<Rightarrow> ten \<Rightarrow> ten_resp \<times> ten" where
  "handleRemoveMember ident wsid targetID = requireUser ident (\<lambda>i.
     and_then (GetMembership wsid targetID)
       (or_else (terr 404 ''member_not_found'' ''no such member in this workspace'') (\<lambda>current.
       requireRole wsid (tn_UserID i)
         (if targetID \<noteq> tn_UserID i then (if mb_Role current \<noteq> RoleMember then RoleOwner else RoleAdmin) else RoleMember) (
         unless_last_owner wsid (mb_Role current = RoleOwner) ''cannot remove the last owner'' (
           and_then (RemoveMember wsid targetID) (or_500 (\<lambda>_. ret (204, TNoContent))))))))"

section \<open>API keys (apikeys.go)\<close>

definition viewAPIKey :: "APIKey \<Rightarrow> apiKeyView" where
  "viewAPIKey k =
     \<lparr>kv_ID = ak_ID k, kv_WorkspaceID = ak_WorkspaceID k, kv_Name = ak_Name k, kv_CreatedBy = ak_CreatedBy k,
      kv_CreatedAt = ak_CreatedAt k, kv_LastUsedAt = ak_LastUsedAt k, kv_RevokedAt = ak_RevokedAt k\<rparr>"

definition handleCreateAPIKey :: "TenServer \<Rightarrow> TenIdentity option \<Rightarrow> string json_in \<Rightarrow> ten \<Rightarrow> ten_resp \<times> ten" where
  "handleCreateAPIKey sv ident body = requireUser ident (\<lambda>i. requireRole (tn_WorkspaceID i) (tn_UserID i) RoleAdmin (
     with_body body (\<lambda>req. with_name req (\<lambda>name.
       and_then mintAPIKey (or_500 (\<lambda>(keyID, raw, secret).
       and_then (hashAPIKeySecret (ts_lib sv) secret) (or_500 (\<lambda>hash. at_clock (\<lambda>now.
         let k = \<lparr>ak_ID = keyID, ak_WorkspaceID = tn_WorkspaceID i, ak_Name = name, ak_SecretHash = hash,
                  ak_CreatedBy = tn_UserID i, ak_CreatedAt = now, ak_LastUsedAt = None, ak_RevokedAt = None\<rparr> in
         and_then (CreateAPIKey k) (or_500 (\<lambda>_. ret (201, TKeyCreated raw (viewAPIKey k)))))))))))))"

definition handleListAPIKeys :: "TenIdentity option \<Rightarrow> ten \<Rightarrow> ten_resp \<times> ten" where
  "handleListAPIKeys ident = requireUser ident (\<lambda>i. requireRole (tn_WorkspaceID i) (tn_UserID i) RoleMember (
     and_then (ListAPIKeys (tn_WorkspaceID i)) (or_500 (\<lambda>ks. ret (200, TKeys (map viewAPIKey ks))))))"

definition handleRevokeAPIKey :: "TenIdentity option \<Rightarrow> string \<Rightarrow> ten \<Rightarrow> ten_resp \<times> ten" where
  "handleRevokeAPIKey ident keyID = requireUser ident (\<lambda>i. requireRole (tn_WorkspaceID i) (tn_UserID i) RoleAdmin (
     if keyID = [] then ret (terr 400 ''invalid_key_id'' ''key id is required'')
     else and_then (at_clock (RevokeAPIKey (tn_WorkspaceID i) keyID))
       (or_else (terr 404 ''key_not_found'' ''no such api key in this workspace'') (\<lambda>_. ret (204, TNoContent)))))"

section \<open>Usage and quota endpoints (metering.go, quota.go)\<close>

definition isAPIKeyIdentity :: "TenIdentity \<Rightarrow> bool" where
  "isAPIKeyIdentity i \<longleftrightarrow> length (tn_UserID i) > length apiKeyUserPrefix \<and>
     take (length apiKeyUserPrefix) (tn_UserID i) = apiKeyUserPrefix"

definition usage_response :: "string \<Rightarrow> Workspace \<Rightarrow> Tier option \<Rightarrow> string \<Rightarrow> UsageRollup \<Rightarrow> int \<Rightarrow> usageResponse" where
  "usage_response wsid k tier month rollup storage =
     \<lparr>ux_WorkspaceID = wsid, ux_PlanTier = ws_PlanTier k, ux_Month = month,
      ux_EncodeSecondsUsed = ur_EncodeSeconds rollup, ux_EncodeHoursUsed = ur_EncodeSeconds rollup / 3600,
      ux_EncodeHoursLimit = (case tier of Some t \<Rightarrow> ti_EncodeHoursPerMonth t | None \<Rightarrow> 0),
      ux_StorageBytesUsed = storage, ux_StorageBytesLimit = (case tier of Some t \<Rightarrow> ti_StorageBytes t | None \<Rightarrow> 0),
      ux_UploadSessions = ur_UploadSessions rollup, ux_UploadsCompleted = ur_UploadsCompleted rollup,
      ux_JobsQueued = ur_JobsQueued rollup, ux_JobsStarted = ur_JobsStarted rollup,
      ux_JobsCompleted = ur_JobsCompleted rollup, ux_JobsFailed = ur_JobsFailed rollup\<rparr>"

definition report_usage :: "TenServer \<Rightarrow> string \<Rightarrow> ten \<Rightarrow> ten_resp \<times> ten" where
  "report_usage sv wsid =
     and_then (GetWorkspace wsid) (or_else (terr 404 ''workspace_not_found'' ''token workspace no longer exists'') (\<lambda>k. at_clock (\<lambda>now.
       let month = monthOf now; tier = Lookup (ts_tiers sv) (ws_PlanTier k) in
       and_then (GetRollup wsid month) (\<lambda>r. case r of
         Inl e \<Rightarrow>
           if e \<noteq> ErrNotFound then ret internalError
           else and_then (SumStorageBytes wsid) (or_500 (\<lambda>n. ret (200, TUsage (usage_response wsid k tier month zero_rollup n))))
       | Inr rollup \<Rightarrow>
           and_then (SumStorageBytes wsid) (or_500 (\<lambda>n. ret (200, TUsage (usage_response wsid k tier month rollup n))))))))"

definition handleUsage :: "TenServer \<Rightarrow> TenIdentity option \<Rightarrow> ten \<Rightarrow> ten_resp \<times> ten" where
  "handleUsage sv ident = requireIdentity ident (\<lambda>i.
     if \<not> isAPIKeyIdentity i then requireRole (tn_WorkspaceID i) (tn_UserID i) RoleMember (report_usage sv (tn_WorkspaceID i))
     else report_usage sv (tn_WorkspaceID i))"

record quotaUploadRequest =
  qu_WorkspaceID :: string
  qu_SizeHintBytes :: int

definition handleQuotaCheckUpload :: "TenServer \<Rightarrow> quotaUploadRequest json_in \<Rightarrow> ten \<Rightarrow> ten_resp \<times> ten" where
  "handleQuotaCheckUpload sv body = with_body body (\<lambda>req.
     if qu_WorkspaceID req = [] then ret (terr 400 ''invalid_workspace_id'' ''workspaceId is required'')
     else if qu_SizeHintBytes req < 0 then ret (terr 400 ''invalid_size_hint'' ''sizeHintBytes must not be negative'')
     else and_then (Metered_CheckUploadSession (ts_tiers sv) (qu_WorkspaceID req) (qu_SizeHintBytes req))
       (or_500 (\<lambda>d. ret (200, TDecision (qd_Allowed d) (qd_Reason d)))))"

definition handleQuotaCheckJob :: "TenServer \<Rightarrow> string json_in \<Rightarrow> ten \<Rightarrow> ten_resp \<times> ten" where
  "handleQuotaCheckJob sv body = with_body body (\<lambda>wsid.
     if wsid = [] then ret (terr 400 ''invalid_workspace_id'' ''workspaceId is required'')
     else and_then (Metered_CheckJobAdmission (ts_tiers sv) wsid)
       (or_500 (\<lambda>d. ret (200, TDecision (qd_Allowed d) (qd_Reason d)))))"

end
