(* ===== verification/TenAuth.thy ===== *)
theory TenAuth
  imports TenServer
begin

text \<open>
  Sign-in and sessions, \<open>services/tenancy/authflow.go\<close>: the OIDC redirect with its single-use
  state, the first-login workspace, refresh-token rotation with reuse detection, logout and the
  exchange of an API key for an access token. What the identity provider says to a code is a
  parameter of the callback.
\<close>

definition loginStateTTL :: int where
  "loginStateTTL = 600000000000"

record OIDCVerifiedIdentity =
  oi_Subject :: string
  oi_Email :: string
  oi_Name :: string

text \<open>
  The outcome of \<open>Exchange\<close> followed by \<open>VerifyIDToken\<close>, given the code, the PKCE verifier, the
  nonce and the time.
\<close>

datatype provider_answer = ExchangeFailed | TokenInvalid | Verified OIDCVerifiedIdentity

type_synonym provider = "string \<Rightarrow> string \<Rightarrow> string \<Rightarrow> int \<Rightarrow> provider_answer"

section \<open>Sign-in\<close>

definition handleLogin :: "TenServer \<Rightarrow> ten \<Rightarrow> ten_resp \<times> ten" where
  "handleLogin sv =
     and_then (newOpaqueToken 32) (or_500 (\<lambda>state.
     and_then (newOpaqueToken 32) (or_500 (\<lambda>nonce.
     and_then (newOpaqueToken 48) (or_500 (\<lambda>verifier. at_clock (\<lambda>now.
       and_then (SaveLoginState \<lparr>ls_State = state, ls_Nonce = nonce, ls_PKCEVerifier = verifier, ls_CreatedAt = now,
           ls_ExpiresAt = now + loginStateTTL\<rparr>)
         (or_500 (\<lambda>_. ret (302, TRedirect (ts_AuthCodeURL sv state nonce verifier)))))))))))"

text \<open>The name of a first workspace: the part before the at sign when the name is just the address.\<close>

definition workspace_name :: "User \<Rightarrow> string" where
  "workspace_name u =
     (case cut CHR ''@'' (us_Email u) of
        Some (local_part, _) \<Rightarrow>
          if us_Name u = us_Email u \<and> local_part \<noteq> [] then local_part else us_Name u
      | None \<Rightarrow> us_Name u) @ CHR 0x27 # ''s workspace''"

definition bootstrapWorkspace :: "TenServer \<Rightarrow> User \<Rightarrow> (ten, Workspace) op" where
  "bootstrapWorkspace sv user = and_then new_id (\<lambda>r. case r of
     Inl e \<Rightarrow> ret (Inl e)
   | Inr wsid \<Rightarrow> at_clock (\<lambda>now.
       let k = \<lparr>ws_ID = wsid, ws_Name = workspace_name user, ws_PlanTier = tg_DefaultTier (ts_tiers sv), ws_CreatedBy = us_ID user,
                ws_CreatedAt = now\<rparr> in
       and_then (CreateWorkspace k (us_ID user)) (\<lambda>r. case r of
         Inl e \<Rightarrow> ret (Inl e)
       | Inr _ \<Rightarrow> and_then (SetActiveWorkspace (us_ID user) wsid) (\<lambda>r. case r of
           Inl e \<Rightarrow> ret (Inl e)
         | Inr _ \<Rightarrow> ret (Inr k)))))"

text \<open>An empty family starts a new one.\<close>

definition new_family :: "string \<Rightarrow> (ten, string) op" where
  "new_family fam = (if fam = [] then new_id else ret (Inr fam))"

definition store_refresh :: "TenServer \<Rightarrow> User \<Rightarrow> string \<Rightarrow> string \<Rightarrow> string \<Rightarrow> int \<Rightarrow> (ten, sessionResponse) op" where
  "store_refresh sv user access raw fam now = and_then new_id (\<lambda>r. case r of
     Inl e \<Rightarrow> ret (Inl e)
   | Inr i \<Rightarrow>
       and_then (CreateRefreshToken \<lparr>rt_ID = i, rt_UserID = us_ID user, rt_FamilyID = fam,
           rt_TokenHash = hashOpaqueToken (ts_lib sv) raw, rt_CreatedAt = now, rt_ExpiresAt = now + ts_refreshTokenTTL sv,
           rt_UsedAt = None, rt_RevokedAt = None\<rparr>) (\<lambda>r. case r of
         Inl e \<Rightarrow> ret (Inl e)
       | Inr _ \<Rightarrow>
           ret (Inr \<lparr>sr_AccessToken = access, sr_ExpiresIn = whole_seconds (ts_accessTokenTTL sv), sr_RefreshToken = raw,
                sr_User = view_user user, sr_ActiveWorkspaceID = us_ActiveWorkspaceID user\<rparr>)))"

definition issueSession :: "TenServer \<Rightarrow> User \<Rightarrow> string \<Rightarrow> (ten, sessionResponse) op" where
  "issueSession sv user fam = at_clock (\<lambda>now.
      if us_ActiveWorkspaceID user = [] then ret (Inl ErrIO)
      else and_then (GetMembership (us_ActiveWorkspaceID user) (us_ID user)) (\<lambda>r. case r of
        Inl e \<Rightarrow> ret (Inl e)
      | Inr _ \<Rightarrow> and_then (Mint (ts_lib sv) (ts_key sv) (us_ID user) (us_ActiveWorkspaceID user) now (ts_accessTokenTTL sv)) (\<lambda>r. case r of
          Inl e \<Rightarrow> ret (Inl e)
        | Inr access \<Rightarrow> and_then (newOpaqueToken 32) (\<lambda>r. case r of
            Inl e \<Rightarrow> ret (Inl e)
          | Inr raw \<Rightarrow> and_then (new_family fam) (\<lambda>r. case r of
              Inl e \<Rightarrow> ret (Inl e)
            | Inr fam' \<Rightarrow> store_refresh sv user access raw fam' now)))))"

text \<open>The answer carries the session and the expiry of the refresh cookie.\<close>

definition open_user_session :: "TenServer \<Rightarrow> User \<Rightarrow> string \<Rightarrow> int \<Rightarrow> ten \<Rightarrow> ten_resp \<times> ten" where
  "open_user_session sv user fam now =
     and_then (issueSession sv user fam) (or_500 (\<lambda>resp. ret (200, TSession resp (now + ts_refreshTokenTTL sv))))"

record callback_query =
  cq_error :: string
  cq_state :: string
  cq_code :: string

definition sign_in :: "TenServer \<Rightarrow> OIDCVerifiedIdentity \<Rightarrow> int \<Rightarrow> ten \<Rightarrow> ten_resp \<times> ten" where
  "sign_in sv v now =
     and_then (UpsertUserByGoogleSub (oi_Subject v) (oi_Email v) (oi_Name v) now) (or_500 (\<lambda>user.
       if us_ActiveWorkspaceID user = []
       then and_then (bootstrapWorkspace sv user) (or_500 (\<lambda>k.
              open_user_session sv (user\<lparr>us_ActiveWorkspaceID := ws_ID k\<rparr>) [] now))
       else open_user_session sv user [] now))"

definition handleCallback :: "TenServer \<Rightarrow> provider \<Rightarrow> callback_query \<Rightarrow> ten \<Rightarrow> ten_resp \<times> ten" where
  "handleCallback sv prov q =
     (if cq_error q \<noteq> [] then ret (terr 400 ''oidc_error'' (''identity provider returned error '' @ CHR 0x22 # cq_error q @ [CHR 0x22]))
      else if cq_state q = [] \<or> cq_code q = [] then ret (terr 400 ''invalid_callback'' ''state and code are required'')
      else at_clock (\<lambda>now.
        and_then (TakeLoginState (cq_state q) now)
          (or_else (terr 400 ''invalid_state'' ''unknown, expired, or already used state'') (\<lambda>ls.
          case prov (cq_code q) (ls_PKCEVerifier ls) (ls_Nonce ls) now of
            ExchangeFailed \<Rightarrow> ret (terr 401 ''oidc_exchange_failed'' ''authorization code exchange failed'')
          | TokenInvalid \<Rightarrow> ret (terr 401 ''oidc_token_invalid'' ''id token verification failed'')
          | Verified v \<Rightarrow> sign_in sv v now))))"

section \<open>Refresh and logout\<close>

text \<open>An optional JSON body: \<open>None\<close> is a blank body.\<close>

definition readOptionalJSONBody :: "'a json_in option \<Rightarrow> ten_resp + 'a option" where
  "readOptionalJSONBody b =
     (case b of
        None \<Rightarrow> Inr None
      | Some JsonUnreadable \<Rightarrow> Inl (terr 400 ''invalid_body'' ''request body unreadable or too large'')
      | Some (JsonBad _) \<Rightarrow> Inl (terr 400 ''invalid_body'' ''request body must be valid JSON with known fields only'')
      | Some (JsonValue v rest) \<Rightarrow>
          if at_eof rest then Inr (Some v)
          else Inl (terr 400 ''invalid_body'' ''request body must contain a single JSON object''))"

definition takeRefreshToken :: "string json_in option \<Rightarrow> string \<Rightarrow> ten_resp + string" where
  "takeRefreshToken body cookie =
     (case readOptionalJSONBody body of
        Inl resp \<Rightarrow> Inl resp
      | Inr present \<Rightarrow>
          (case present of
             Some tok \<Rightarrow>
               if tok \<noteq> [] then Inr tok
               else if cookie \<noteq> [] then Inr cookie
               else Inl (terr 400 ''missing_refresh_token'' ''refresh token required in body or cookie'')
           | None \<Rightarrow>
               if cookie \<noteq> [] then Inr cookie
               else Inl (terr 400 ''missing_refresh_token'' ''refresh token required in body or cookie'')))"

definition rotate :: "TenServer \<Rightarrow> RefreshToken \<Rightarrow> int \<Rightarrow> ten \<Rightarrow> ten_resp \<times> ten" where
  "rotate sv rt now =
     and_then (MarkRefreshTokenUsed (rt_ID rt) now) (or_500 (\<lambda>_.
     and_then (GetUser (rt_UserID rt)) (or_500 (\<lambda>user.
       open_user_session sv user (rt_FamilyID rt) now))))"

definition judge_refresh :: "TenServer \<Rightarrow> RefreshToken \<Rightarrow> int \<Rightarrow> ten \<Rightarrow> ten_resp \<times> ten" where
  "judge_refresh sv rt now =
     (if rt_RevokedAt rt \<noteq> None then ret (terr 401 ''refresh_revoked'' ''refresh token has been revoked'')
      else if rt_UsedAt rt \<noteq> None
      then and_then (RevokeRefreshFamily (rt_FamilyID rt) now) (or_500 (\<lambda>_.
             ret (terr 401 ''refresh_reused'' ''refresh token reuse detected; session revoked'')))
      else if now > rt_ExpiresAt rt then ret (terr 401 ''refresh_expired'' ''refresh token expired'')
      else rotate sv rt now)"

definition handleRefresh :: "TenServer \<Rightarrow> string json_in option \<Rightarrow> string \<Rightarrow> ten \<Rightarrow> ten_resp \<times> ten" where
  "handleRefresh sv body cookie =
     (case takeRefreshToken body cookie of
        Inl resp \<Rightarrow> ret resp
      | Inr raw \<Rightarrow> at_clock (\<lambda>now.
          and_then (GetRefreshTokenByHash (hashOpaqueToken (ts_lib sv) raw))
            (or_else (terr 401 ''invalid_refresh_token'' ''unknown refresh token'') (\<lambda>rt. judge_refresh sv rt now))))"

definition handleLogout :: "TenServer \<Rightarrow> string json_in option \<Rightarrow> string \<Rightarrow> ten \<Rightarrow> ten_resp \<times> ten" where
  "handleLogout sv body cookie =
     (case takeRefreshToken body cookie of
        Inl resp \<Rightarrow> ret resp
      | Inr raw \<Rightarrow>
          and_then (GetRefreshTokenByHash (hashOpaqueToken (ts_lib sv) raw)) (\<lambda>r. case r of
            Inl e \<Rightarrow> ret (if e = ErrNotFound then (204, TNoContent) else internalError)
          | Inr rt \<Rightarrow>
              and_then (at_clock (RevokeRefreshFamily (rt_FamilyID rt))) (or_500 (\<lambda>_. ret (204, TNoContent)))))"

section \<open>Tokens for API keys\<close>

definition handleAPIKeyToken :: "TenServer \<Rightarrow> string \<Rightarrow> string json_in option \<Rightarrow> ten \<Rightarrow> ten_resp \<times> ten" where
  "handleAPIKeyToken sv header body =
     (let raw = (if header \<noteq> [] then Inr header
                 else case readOptionalJSONBody body of Inl resp \<Rightarrow> Inl resp | Inr None \<Rightarrow> Inr [] | Inr (Some k) \<Rightarrow> Inr k) in
      case raw of
        Inl resp \<Rightarrow> ret resp
      | Inr raw \<Rightarrow>
          if raw = [] then ret (terr 400 ''missing_api_key'' ''api key required in X-API-Key header or body'')
          else and_then (verifyAPIKeyString (ts_lib sv) raw)
            (or_else (terr 401 ''unauthorized'' ''invalid api key'') (\<lambda>key.
            and_then (at_clock (\<lambda>now. Mint (ts_lib sv) (ts_key sv) (apiKeyUserPrefix @ ak_ID key) (ak_WorkspaceID key) now
                (ts_accessTokenTTL sv))) (or_500 (\<lambda>access.
              ret (200, TKeyToken access (whole_seconds (ts_accessTokenTTL sv)) (ak_WorkspaceID key)))))))"

section \<open>Runs of the service\<close>

text \<open>
  Any sequence of requests, authentications and metering deliveries; every request with any
  identity, any content and any answer of the identity provider. Time passes between them.
\<close>

inductive ten_step :: "TenServer \<Rightarrow> ten \<Rightarrow> ten \<Rightarrow> bool" for sv where
  me: "ten_step sv w (snd (handleMe ident w))"
| create_workspace: "ten_step sv w (snd (handleCreateWorkspace sv ident name w))"
| list_workspaces: "ten_step sv w (snd (handleListWorkspaces ident w))"
| active_workspace: "ten_step sv w (snd (handleActiveWorkspace ident w))"
| switch_workspace: "ten_step sv w (snd (handleSwitchWorkspace sv ident body w))"
| list_members: "ten_step sv w (snd (handleListMembers ident wsid w))"
| add_member: "ten_step sv w (snd (handleAddMember ident wsid req w))"
| update_role: "ten_step sv w (snd (handleUpdateMemberRole ident wsid target role w))"
| remove_member: "ten_step sv w (snd (handleRemoveMember ident wsid target w))"
| create_key: "ten_step sv w (snd (handleCreateAPIKey sv ident name w))"
| list_keys: "ten_step sv w (snd (handleListAPIKeys ident w))"
| revoke_key: "ten_step sv w (snd (handleRevokeAPIKey ident keyID w))"
| usage: "ten_step sv w (snd (handleUsage sv ident w))"
| quota_upload: "ten_step sv w (snd (handleQuotaCheckUpload sv qbody w))"
| quota_job: "ten_step sv w (snd (handleQuotaCheckJob sv body w))"
| auth: "ten_step sv w (snd (authMiddleware sv authorization xkey w))"
| login: "ten_step sv w (snd (handleLogin sv w))"
| callback: "ten_step sv w (snd (handleCallback sv prov q w))"
| refresh: "ten_step sv w (snd (handleRefresh sv obody cookie w))"
| logout: "ten_step sv w (snd (handleLogout sv obody cookie w))"
| key_token: "ten_step sv w (snd (handleAPIKeyToken sv header obody w))"
| metering: "ten_step sv w (snd (metering_handle data w))"
| time: "clock w \<le> now \<Longrightarrow> ten_step sv w (w\<lparr>clock := now\<rparr>)"

text \<open>The requests behind the authentication middleware, with the identity it found.\<close>

inductive api_request :: "TenServer \<Rightarrow> TenIdentity \<Rightarrow> ten \<Rightarrow> ten \<Rightarrow> bool" for sv i where
  me_request: "api_request sv i w (snd (handleMe (Some i) w))"
| create_request: "api_request sv i w (snd (handleCreateWorkspace sv (Some i) name w))"
| list_request: "api_request sv i w (snd (handleListWorkspaces (Some i) w))"
| active_request: "api_request sv i w (snd (handleActiveWorkspace (Some i) w))"
| switch_request: "api_request sv i w (snd (handleSwitchWorkspace sv (Some i) body w))"
| members_request: "api_request sv i w (snd (handleListMembers (Some i) wsid w))"
| add_request: "api_request sv i w (snd (handleAddMember (Some i) wsid req w))"
| role_request: "api_request sv i w (snd (handleUpdateMemberRole (Some i) wsid target role w))"
| remove_request: "api_request sv i w (snd (handleRemoveMember (Some i) wsid target w))"
| create_key_request: "api_request sv i w (snd (handleCreateAPIKey sv (Some i) name w))"
| keys_request: "api_request sv i w (snd (handleListAPIKeys (Some i) w))"
| revoke_key_request: "api_request sv i w (snd (handleRevokeAPIKey (Some i) keyID w))"
| usage_request: "api_request sv i w (snd (handleUsage sv (Some i) w))"

end
