(* ===== verification/TenFrame.thy ===== *)
theory TenFrame
  imports TenAuth Triples
begin

text \<open>
  Relations that every request of the tenancy service keeps. A relation on states that ignores
  time, entropy and login states and is kept by the store's own writes is kept by every handler
  composed of them; the handlers whose guards matter (an addition, change or removal of a member, the issue
  of a refresh token, a metering delivery) are left to the user of the locale.
\<close>

text \<open>An invariant as a relation between the states before and after.\<close>

definition kept :: "('s \<Rightarrow> bool) \<Rightarrow> 's \<Rightarrow> 's \<Rightarrow> bool" where
  "kept I w w' \<longleftrightarrow> (I w \<longrightarrow> I w')"

lemma keeps_kept_io:
  assumes "\<And>w. I w \<Longrightarrow> I (snd (f w))" "\<And>w os. I w \<Longrightarrow> I (w\<lparr>io_script := os\<rparr>)"
  shows "keeps (kept I) (with_io f)"
  unfolding keeps_def kept_def using with_io_inv [of I _ f] assms by blast

locale ten_frame = step_rel R for R :: "ten \<Rightarrow> ten \<Rightarrow> bool" +
  assumes bytes: "R w (w\<lparr>entropy := e\<rparr>)"
    and time_passes: "R w (w\<lparr>clock := c\<rparr>)"
    and logins: "R w (w\<lparr>t_logins := l\<rparr>)"
    and users: "R w (w\<lparr>t_users := us\<rparr>)"
    and create_workspace: "keeps R (CreateWorkspace k owner)"
    and mark_used: "keeps R (MarkRefreshTokenUsed i now)"
    and revoke_family: "keeps R (RevokeRefreshFamily fam now)"
    and create_key: "keeps R (CreateAPIKey ak)"
    and revoke_key: "keeps R (RevokeAPIKey wsid i now)"
    and touch_key: "keeps R (TouchAPIKey i now)"
begin

lemma keeps_read: "(\<And>w. snd (f w) = w) \<Longrightarrow> keeps R (with_io f)"
  by (intro keeps_with_io keepsI) (simp add: refl)

lemma set_active: "keeps R (SetActiveWorkspace user wsid)"
  unfolding SetActiveWorkspace_def by (intro keeps_with_io keepsI) (simp add: users)

lemma upsert: "keeps R (UpsertUserByGoogleSub sub email name now)"
  unfolding UpsertUserByGoogleSub_def [abs_def]
  by (rule keeps_new_id_case, rule keeps_with_io, rule keepsI) (auto simp: Let_def refl users split: option.splits)

lemma keeps_queries:
  "keeps R (GetUser i)" "keeps R (GetUserByEmail email)" "keeps R (GetWorkspace i)" "keeps R (ListWorkspacesForUser i)"
  "keeps R (GetMembership i j)" "keeps R (ListMembers i)" "keeps R (CountOwners i)" "keeps R (GetRefreshTokenByHash h)"
  "keeps R (GetAPIKey i)" "keeps R (ListAPIKeys i)" "keeps R (GetRollup i m)" "keeps R (SumStorageBytes i)"
  unfolding GetUser_def GetUserByEmail_def GetWorkspace_def ListWorkspacesForUser_def GetMembership_def ListMembers_def CountOwners_def
    GetRefreshTokenByHash_def GetAPIKey_def ListAPIKeys_def GetRollup_def SumStorageBytes_def Let_def
  by (rule keeps_read; simp)+

lemma keeps_at_clock: "(\<And>c. keeps R (f c)) \<Longrightarrow> keeps R (at_clock f)"
  by (simp add: keeps_def at_clock_def)

lemma keeps_or_500: "(\<And>x. keeps R (k x)) \<Longrightarrow> keeps R (or_500 k r)"
  unfolding or_500_def by (intro keeps_intros)

lemma keeps_or_else: "(\<And>x. keeps R (k x)) \<Longrightarrow> keeps R (or_else resp k r)"
  unfolding or_else_def by (intro keeps_intros)

lemma keeps_requireUser: "(\<And>i. keeps R (k i)) \<Longrightarrow> keeps R (requireUser ident k)"
  unfolding requireUser_def requireIdentity_def by (intro keeps_intros)

lemma keeps_requireRole: "keeps R k \<Longrightarrow> keeps R (requireRole wsid user role k)"
  unfolding requireRole_def by (intro keeps_intros keeps_queries)

lemma keeps_with_body: "(\<And>v. keeps R (k v)) \<Longrightarrow> keeps R (with_body b k)"
  unfolding with_body_def by (intro keeps_intros)

lemma keeps_with_name: "(\<And>v. keeps R (k v)) \<Longrightarrow> keeps R (with_name b k)"
  unfolding with_name_def Let_def by (intro keeps_intros)

lemma keeps_with_uuid: "(\<And>v. keeps R (k v)) \<Longrightarrow> keeps R (with_uuid k)"
  unfolding with_uuid_def by (intro keeps_intros)

lemma keeps_rand: "keeps R (rand_Read n)"
  by (rule keepsI) (simp add: rand_Read_def refl bytes)

lemma keeps_opaque: "keeps R (newOpaqueToken n)"
  unfolding newOpaqueToken_def by (intro keeps_intros keeps_rand)

lemma keeps_mint: "keeps R (Mint lib key user wsid now ttl)"
  unfolding Mint_def by (intro keeps_intros)

lemma keeps_verify_key: "keeps R (verifyAPIKeyString lib raw)"
  unfolding verifyAPIKeyString_def by (intro keeps_intros keeps_queries keeps_at_clock touch_key)

lemmas keeps_helpers = keeps_at_clock keeps_intros keeps_queries keeps_or_500 keeps_or_else keeps_requireUser keeps_requireRole keeps_with_body
  keeps_with_name keeps_with_uuid keeps_opaque keeps_mint keeps_verify_key

lemma keeps_reading_handlers:
  "keeps R (handleMe ident)" "keeps R (handleListWorkspaces ident)" "keeps R (handleActiveWorkspace ident)"
  "keeps R (handleListMembers ident wsid)" "keeps R (handleListAPIKeys ident)"
  unfolding handleMe_def handleListWorkspaces_def handleActiveWorkspace_def handleListMembers_def handleListAPIKeys_def
  by (intro keeps_helpers)+

lemma keeps_usage: "keeps R (handleUsage sv ident)"
proof -
  have "keeps R (report_usage sv wsid)" for wsid
    unfolding report_usage_def Let_def by (intro keeps_helpers)
  then show ?thesis unfolding handleUsage_def requireIdentity_def by (intro keeps_helpers)
qed

lemma keeps_quota: "keeps R (handleQuotaCheckUpload sv qb)" "keeps R (handleQuotaCheckJob sv b)"
proof -
  have t: "keeps R (resolveTier tiers wsid)" for tiers wsid unfolding resolveTier_def by (intro keeps_helpers)
  have u: "keeps R (Metered_CheckUploadSession tiers wsid n)" for tiers wsid n
    unfolding Metered_CheckUploadSession_def by (intro keeps_helpers t)
  have j: "keeps R (Metered_CheckJobAdmission tiers wsid)" for tiers wsid
    unfolding Metered_CheckJobAdmission_def by (intro keeps_helpers t)
  show "keeps R (handleQuotaCheckUpload sv qb)" unfolding handleQuotaCheckUpload_def by (intro keeps_helpers u)
  show "keeps R (handleQuotaCheckJob sv b)" unfolding handleQuotaCheckJob_def by (intro keeps_helpers j)
qed

lemma keeps_workspace_handlers:
  "keeps R (handleCreateWorkspace sv ident name)" "keeps R (handleSwitchWorkspace sv ident body)"
  unfolding handleCreateWorkspace_def handleSwitchWorkspace_def Let_def
  by (intro keeps_helpers create_workspace set_active)+

lemma keeps_add_member:
  assumes "\<And>m. keeps R (AddMember m)"
  shows "keeps R (handleAddMember ident wsid req)"
  unfolding handleAddMember_def Let_def by (intro keeps_helpers assms)

lemma keeps_key_handlers:
  "keeps R (handleCreateAPIKey sv ident name)" "keeps R (handleRevokeAPIKey ident keyID)"
  "keeps R (authMiddleware sv authorization xkey)" "keeps R (handleAPIKeyToken sv header obody)"
proof -
  have m: "keeps R mintAPIKey" unfolding mintAPIKey_def by (intro keeps_helpers)
  have h: "keeps R (hashAPIKeySecret lib secret)" for lib secret unfolding hashAPIKeySecret_def by (intro keeps_helpers keeps_rand)
  show "keeps R (handleCreateAPIKey sv ident name)"
    unfolding handleCreateAPIKey_def Let_def by (intro keeps_helpers m h create_key)
  show "keeps R (handleRevokeAPIKey ident keyID)" unfolding handleRevokeAPIKey_def by (intro keeps_helpers revoke_key)
  show "keeps R (authMiddleware sv authorization xkey)" unfolding authMiddleware_def Let_def by (intro keeps_helpers)
  show "keeps R (handleAPIKeyToken sv header obody)" unfolding handleAPIKeyToken_def Let_def by (intro keeps_helpers)
qed

lemma keeps_logins: "keeps R (SaveLoginState ls)" "keeps R (TakeLoginState st now)" "keeps R (handleLogin sv)"
proof -
  show s: "keeps R (SaveLoginState ls)" for ls
    unfolding SaveLoginState_def by (intro keeps_with_io keepsI) (simp add: refl logins)
  show "keeps R (TakeLoginState st now)"
  proof (rule keepsI)
    fix w :: ten
    let ?f = "with_io (\<lambda>w :: ten. (query_row (\<lambda>l. ls_State l = st) (t_logins w),
        w\<lparr>t_logins := delete_where (\<lambda>l. ls_State l = st) (t_logins w)\<rparr>))"
    have "keeps R ?f" by (intro keeps_with_io keepsI) (simp add: logins)
    moreover obtain r w' where "?f w = (r, w')" by fastforce
    ultimately show "R w (snd (TakeLoginState st now w))"
      using keepsD [of R ?f w r w'] by (cases r) (simp_all add: TakeLoginState_def)
  qed
  show "keeps R (handleLogin sv)" unfolding handleLogin_def by (intro keeps_helpers s)
qed

lemma keeps_logout: "keeps R (handleLogout sv obody cookie)"
  unfolding handleLogout_def by (intro keeps_helpers revoke_family)

lemma keeps_bootstrap: "keeps R (bootstrapWorkspace sv user)"
  unfolding bootstrapWorkspace_def Let_def by (intro keeps_helpers create_workspace set_active)

text \<open>Sessions, given that the last step of issuing one keeps the relation.\<close>

lemma keeps_issue:
  assumes "\<And>access raw fam' now. keeps R (store_refresh sv user access raw fam' now)"
  shows "keeps R (issueSession sv user fam)"
  unfolding issueSession_def new_family_def by (intro keeps_helpers assms)

lemma keeps_callback:
  assumes "\<And>user access raw fam' now. keeps R (store_refresh sv user access raw fam' now)"
  shows "keeps R (handleCallback sv prov q)"
proof -
  have "keeps R (open_user_session sv user fam now)" for user fam now
    unfolding open_user_session_def by (intro keeps_helpers keeps_issue assms)
  then have s: "keeps R (sign_in sv v now)" for v now
    unfolding sign_in_def by (intro keeps_helpers upsert keeps_bootstrap)
  have "keeps R (case a of ExchangeFailed \<Rightarrow> ret x | TokenInvalid \<Rightarrow> ret y | Verified v \<Rightarrow> sign_in sv v now)" for a x y now
    by (cases a) (simp_all add: s keeps_ret)
  then show ?thesis unfolding handleCallback_def by (intro keeps_helpers keeps_logins)
qed

lemma keeps_refresh:
  assumes "\<And>user access raw fam' now. keeps R (store_refresh sv user access raw fam' now)"
  shows "keeps R (handleRefresh sv obody cookie)"
proof -
  have "keeps R (rotate sv rt now)" for rt now
    unfolding rotate_def open_user_session_def by (intro keeps_helpers keeps_issue assms mark_used)
  then show ?thesis
    unfolding handleRefresh_def judge_refresh_def by (intro keeps_helpers revoke_family)
qed

lemma keeps_store_refresh:
  assumes "\<And>rt. keeps R (CreateRefreshToken rt)"
  shows "keeps R (store_refresh sv user access raw fam' now)"
  unfolding store_refresh_def by (intro keeps_helpers assms)

lemma keeps_members:
  assumes "\<And>wsid user role. keeps R (UpdateMemberRole wsid user role)" "\<And>wsid user. keeps R (RemoveMember wsid user)"
  shows "keeps R (handleUpdateMemberRole ident wsid target role)" "keeps R (handleRemoveMember ident wsid target)"
  unfolding handleUpdateMemberRole_def handleRemoveMember_def unless_last_owner_def
  by (intro keeps_helpers assms)+

lemma keeps_metering:
  assumes "\<And>ev d. rollupDelta ev = Inr d \<Longrightarrow> keeps R (ApplyMetering ev (ur_Month d) d)"
  shows "keeps R (metering_handle data)"
  unfolding metering_handle_def consumeMeteringPayload_def by (intro keeps_helpers assms)

lemmas keeps_plain = keeps_reading_handlers keeps_usage keeps_quota keeps_workspace_handlers keeps_key_handlers keeps_logins keeps_logout

text \<open>A step keeps the relation as soon as the six guarded handlers do.\<close>

lemma step_keeps:
  assumes "ten_step sv w w'"
    and "\<And>ident wsid target role. keeps R (handleUpdateMemberRole ident wsid target role)"
    and "\<And>ident wsid target. keeps R (handleRemoveMember ident wsid target)"
    and "\<And>ident wsid req. keeps R (handleAddMember ident wsid req)"
    and "\<And>prov q. keeps R (handleCallback sv prov q)" "\<And>obody cookie. keeps R (handleRefresh sv obody cookie)"
    and "\<And>data. keeps R (metering_handle data)"
  shows "R w w'"
proof -
  have k: "keeps R f \<Longrightarrow> R w (snd (f w))" for f :: "ten \<Rightarrow> 'x \<times> ten" and w by (simp add: keeps_def)
  from assms(1) show ?thesis
    by cases (auto intro!: k keeps_plain assms(2-7) time_passes)
qed

end

section \<open>Triples for guarded handlers\<close>

text \<open>Preconditions that ignore the failure script.\<close>

definition stable :: "(ten \<Rightarrow> bool) \<Rightarrow> bool" where
  "stable P \<longleftrightarrow> (\<forall>w os. P w \<longrightarrow> P (w\<lparr>io_script := os\<rparr>))"

lemma kept_valid: "keeps (kept I) f \<longleftrightarrow> valid I f (\<lambda>_. I)"
  by (simp add: keeps_def kept_def valid_def)

lemma valid_query:
  assumes "stable P" "\<And>w. snd (f w) = w"
  shows "valid P (with_io f) (\<lambda>r w. P w \<and> (r = Inl ErrIO \<or> r = fst (f w)))"
  by (rule valid_with_io [where R = "\<lambda>r w. P w \<and> r = fst (f w)"])
    (use assms in \<open>auto simp: valid_def stable_def\<close>)

lemma valid_GetMembership:
  assumes "stable P"
  shows "valid P (GetMembership wsid user)
    (\<lambda>r w. P w \<and> (\<forall>m. r = Inr m \<longrightarrow> List.find (member_at wsid user) (t_members w) = Some m))"
  unfolding GetMembership_def
  by (rule valid_weaken [OF valid_query [OF assms]]) (auto simp: query_row_def split: option.splits)

lemma valid_at_clock: "(\<And>now. valid P (f now) Q) \<Longrightarrow> valid P (at_clock f) Q"
  by (simp add: valid_def at_clock_def)

lemma valid_requireUser:
  assumes "\<And>c s m w. P w \<Longrightarrow> Q (terr c s m) w"
    and "\<And>i. ident = Some i \<Longrightarrow> \<not> has_prefix apiKeyUserPrefix (tn_UserID i) \<Longrightarrow> valid P (k i) Q"
  shows "valid P (requireUser ident k) Q"
  unfolding requireUser_def requireIdentity_def
  by (rule valid_option_case, rule valid_ret, erule assms(1), rule valid_if, rule valid_ret, erule assms(1), rule assms(2))

lemma valid_requireRole:
  assumes "stable P" "\<And>c s m w. P w \<Longrightarrow> Q (terr c s m) w"
    and "\<And>m. valid (\<lambda>w. P w \<and> List.find (member_at wsid user) (t_members w) = Some m \<and> roleRank minRole \<le> roleRank (mb_Role m)) k Q"
  shows "valid P (requireRole wsid user minRole k) Q"
  unfolding requireRole_def
proof (rule valid_and_then [OF valid_GetMembership [OF assms(1)]], rule valid_sum_case, goal_cases)
  case (1 r e)
  show ?case by (rule valid_ret) (simp add: assms(2) internalError_def)
next
  case (2 r m)
  show ?case
    by (rule valid_if, rule valid_ret, rule assms(2), simp, rule valid_pre [OF assms(3) [of m]]) (use 2 in auto)
qed

lemma valid_with_body:
  assumes "\<And>c s m w. P w \<Longrightarrow> Q (terr c s m) w" "\<And>v. valid P (k v) Q"
  shows "valid P (with_body b k) Q"
proof -
  have "decodeJSONBody b = Inl resp \<Longrightarrow> \<exists>c s m. resp = terr c s m" for resp
    by (auto simp: decodeJSONBody_def split: json_in.splits if_splits)
  then show ?thesis
    unfolding with_body_def by (intro valid_sum_case valid_ret assms(2)) (use assms(1) in blast)
qed

lemma valid_or_500:
  assumes "\<And>c s m w. P w \<Longrightarrow> Q (terr c s m) w" "\<And>x. r = Inr x \<Longrightarrow> valid P (k x) Q"
  shows "valid P (or_500 k r) Q"
  unfolding or_500_def internalError_def by (rule valid_sum_case, rule valid_ret, erule assms(1), erule assms(2))

lemma valid_500:
  assumes "\<And>w. P w \<Longrightarrow> Q internalError w" "\<And>x. r = Inr x \<Longrightarrow> valid P (k x) Q"
  shows "valid P (or_500 k r) Q"
  unfolding or_500_def by (rule valid_sum_case, rule valid_ret, erule assms(1), erule assms(2))

lemma valid_missing:
  assumes "\<And>w. P w \<Longrightarrow> Q internalError w" "\<And>w. P w \<Longrightarrow> Q resp w" "\<And>x. r = Inr x \<Longrightarrow> valid P (k x) Q"
  shows "valid P (or_else resp k r) Q"
  unfolding or_else_def by (rule valid_sum_case, rule valid_ret) (simp_all add: assms)

lemma valid_or_else:
  assumes "\<And>r w. P w \<Longrightarrow> Q r w" "\<And>x. r = Inr x \<Longrightarrow> valid P (k x) Q"
  shows "valid P (or_else resp k r) Q"
  by (rule valid_missing) (simp_all add: assms)

lemma valid_unless_last_owner:
  assumes "stable P" "\<And>c s m w. P w \<Longrightarrow> Q (terr c s m) w"
    and "valid (\<lambda>w. P w \<and> (touches \<longrightarrow> 1 < rows_affected (is_owner wsid) (t_members w))) k Q"
  shows "valid P (unless_last_owner wsid touches msg k) Q"
proof (cases touches)
  case True
  have c: "valid P (CountOwners wsid) (\<lambda>r w. P w \<and> (\<forall>n. r = Inr n \<longrightarrow> n = int (rows_affected (is_owner wsid) (t_members w))))"
    unfolding CountOwners_def by (rule valid_weaken [OF valid_query [OF assms(1)]]) auto
  show ?thesis
    unfolding unless_last_owner_def using True
    apply simp
    apply (rule valid_and_then [OF c], rule valid_or_500, erule conjE, erule assms(2))
    apply (rule valid_if, rule valid_ret, erule conjE, erule assms(2))
    apply (rule valid_pre [OF assms(3)], simp)
    done
next
  case False
  then show ?thesis unfolding unless_last_owner_def using assms(3) by simp
qed

end
