(* ===== verification/TenSessions.thy ===== *)
theory TenSessions
  imports TenFrame
begin

text \<open>
  Refresh-token sessions of \<open>services/tenancy/authflow.go\<close> over whole runs of the service: a token
  is good for one rotation, rows are never forgotten, and the tokens of one family are revoked
  together, so that a replayed token ends its session for good.
\<close>

section \<open>Rows last\<close>

definition later_row :: "RefreshToken \<Rightarrow> RefreshToken \<Rightarrow> bool" where
  "later_row t u \<longleftrightarrow> rt_ID u = rt_ID t \<and> rt_UserID u = rt_UserID t \<and> rt_FamilyID u = rt_FamilyID t \<and>
     rt_TokenHash u = rt_TokenHash t \<and> rt_ExpiresAt u = rt_ExpiresAt t \<and>
     (rt_UsedAt t \<noteq> None \<longrightarrow> rt_UsedAt u \<noteq> None) \<and> (rt_RevokedAt t \<noteq> None \<longrightarrow> rt_RevokedAt u \<noteq> None)"

definition sessions_last :: "ten \<Rightarrow> ten \<Rightarrow> bool" where
  "sessions_last w w' \<longleftrightarrow> (\<forall>t \<in> set (t_refresh w). \<exists>u \<in> set (t_refresh w'). later_row t u)"

lemma later_refl [simp]: "later_row t t"
  by (simp add: later_row_def)

lemma later_trans: "later_row t u \<Longrightarrow> later_row u v \<Longrightarrow> later_row t v"
  by (simp add: later_row_def)

lemma sessions_last_same: "t_refresh w' = t_refresh w \<Longrightarrow> sessions_last w w'"
  by (auto simp: sessions_last_def intro: later_refl)

lemma sessions_last_trans: "sessions_last w w' \<Longrightarrow> sessions_last w' w'' \<Longrightarrow> sessions_last w w''"
  unfolding sessions_last_def by (meson later_trans)

lemma sessions_last_io:
  assumes "\<And>w. sessions_last w (snd (f w))"
  shows "keeps sessions_last (with_io f)"
proof (rule keepsI)
  fix w :: ten
  have n: "sessions_last w s" if "next_io w = (x, s)" for x s
    using next_io_update [OF that] by (intro sessions_last_same) simp
  show "sessions_last w (snd (with_io f w))"
    by (cases rule: with_io_cases [of w f]) (use n assms in \<open>auto intro: sessions_last_trans\<close>)
qed

lemma sessions_last_update:
  assumes "t_refresh w' = update_where P f (t_refresh w)" "\<And>t. P t \<Longrightarrow> later_row t (f t)"
  shows "sessions_last w w'"
  unfolding sessions_last_def assms(1) set_update_where using assms(2) later_refl by blast

lemma sessions_last_writes:
  "keeps sessions_last (MarkRefreshTokenUsed i now)" "keeps sessions_last (RevokeRefreshFamily fam now)"
  "keeps sessions_last (CreateRefreshToken rt)"
proof -
  show "keeps sessions_last (MarkRefreshTokenUsed i now)"
    unfolding MarkRefreshTokenUsed_def Let_def
    by (rule sessions_last_io, rule sessions_last_update [where P = "\<lambda>t. rt_ID t = i \<and> rt_UsedAt t = None"])
      (auto simp: later_row_def)
  show "keeps sessions_last (RevokeRefreshFamily fam now)"
    unfolding RevokeRefreshFamily_def
    by (rule sessions_last_io, rule sessions_last_update [where P = "\<lambda>t. rt_FamilyID t = fam \<and> rt_RevokedAt t = None"])
      (auto simp: later_row_def)
  show "keeps sessions_last (CreateRefreshToken rt)"
    unfolding CreateRefreshToken_def
    by (rule sessions_last_io) (auto simp: sessions_last_def intro: later_refl)
qed

lemma rows_frame:
  "keeps sessions_last (CreateWorkspace k owner)" "keeps sessions_last (CreateAPIKey ak)"
  "keeps sessions_last (RevokeAPIKey wsid i now)" "keeps sessions_last (TouchAPIKey i now)"
  unfolding CreateWorkspace_def CreateAPIKey_def RevokeAPIKey_def TouchAPIKey_def Let_def
  by (rule sessions_last_io, simp add: sessions_last_same)+

interpretation rows: ten_frame sessions_last
  by unfold_locales
    (auto intro: sessions_last_same sessions_last_writes rows_frame sessions_last_trans)

lemma rows_store: "keeps sessions_last (store_refresh sv user access raw fam now)"
  by (rule rows.keeps_store_refresh) (rule sessions_last_writes)

lemma rows_members:
  "keeps sessions_last (UpdateMemberRole wsid user role)" "keeps sessions_last (RemoveMember wsid user)"
  "keeps sessions_last (AddMember m)" "keeps sessions_last (ApplyMetering ev month d)"
  unfolding UpdateMemberRole_def RemoveMember_def AddMember_def ApplyMetering_def Let_def
  by (rule sessions_last_io, simp add: sessions_last_same)+

lemma rows_step: "ten_step sv w w' \<Longrightarrow> sessions_last w w'"
  by (rule rows.step_keeps) (intro rows.keeps_members rows.keeps_add_member rows.keeps_callback rows.keeps_refresh rows.keeps_metering
      rows_store rows_members | assumption)+

lemma rows_run: "(ten_step sv)\<^sup>*\<^sup>* w w' \<Longrightarrow> sessions_last w w'"
  by (induction rule: rtranclp_induct) (auto intro: sessions_last_same sessions_last_trans rows_step)

section \<open>Families\<close>

text \<open>
  Token ids and hashes are unique, the tokens of a family are revoked together, and no id still to
  be drawn names a family.
\<close>

definition uniform :: "RefreshToken list \<Rightarrow> bool" where
  "uniform rows \<longleftrightarrow> (\<forall>t \<in> set rows. \<forall>u \<in> set rows. rt_FamilyID t = rt_FamilyID u \<longrightarrow>
     (rt_RevokedAt t = None \<longleftrightarrow> rt_RevokedAt u = None))"

definition sessions_ok :: "ten \<Rightarrow> bool" where
  "sessions_ok w \<longleftrightarrow> unique_keys rt_ID (t_refresh w) \<and> unique_keys rt_TokenHash (t_refresh w) \<and> distinct (id_supply w) \<and>
     rt_FamilyID ` set (t_refresh w) \<inter> set (id_supply w) = {} \<and> uniform (t_refresh w)"

lemma uniformD:
  "uniform rows \<Longrightarrow> t \<in> set rows \<Longrightarrow> u \<in> set rows \<Longrightarrow> rt_FamilyID t = rt_FamilyID u \<Longrightarrow>
   rt_RevokedAt t = None \<Longrightarrow> rt_RevokedAt u = None"
  unfolding uniform_def by blast

lemma uniform_mark:
  assumes "uniform rows"
  shows "uniform (update_where P (\<lambda>t. t\<lparr>rt_UsedAt := x\<rparr>) rows)"
  using assms unfolding uniform_def set_update_where by fastforce

lemma uniform_revoke:
  assumes "uniform rows"
  shows "uniform (update_where (\<lambda>t. rt_FamilyID t = fam \<and> rt_RevokedAt t = None) (\<lambda>t. t\<lparr>rt_RevokedAt := Some now\<rparr>) rows)"
  using assms unfolding uniform_def set_update_where by fastforce

lemma uniform_insert:
  assumes "uniform rows" "\<And>t. t \<in> set rows \<Longrightarrow> rt_FamilyID t = rt_FamilyID u \<Longrightarrow> rt_RevokedAt t = None" "rt_RevokedAt u = None"
  shows "uniform (rows @ [u])"
  unfolding uniform_def
proof (intro ballI impI)
  fix a b assume "a \<in> set (rows @ [u])" "b \<in> set (rows @ [u])" "rt_FamilyID a = rt_FamilyID b"
  then show "rt_RevokedAt a = None \<longleftrightarrow> rt_RevokedAt b = None"
    using assms(2) [of a] assms(2) [of b] assms(3) uniformD [OF assms(1), of a b] uniformD [OF assms(1), of b a] by auto
qed

lemma families_update:
  assumes "\<And>t. rt_FamilyID (f t) = rt_FamilyID t"
  shows "rt_FamilyID ` set (update_where P f rows) = rt_FamilyID ` set rows"
proof -
  have "map rt_FamilyID (update_where P f rows) = map rt_FamilyID rows" by (rule map_update_where) (rule assms)
  then show ?thesis by (metis set_map)
qed

text \<open>A family that may still get a token.\<close>

definition family_open :: "string \<Rightarrow> ten \<Rightarrow> bool" where
  "family_open fam w \<longleftrightarrow> sessions_ok w \<and> fam \<notin> set (id_supply w) \<and>
     (\<forall>t \<in> set (t_refresh w). rt_FamilyID t = fam \<longrightarrow> rt_RevokedAt t = None)"

lemma sessions_ok_same:
  "sessions_ok w \<Longrightarrow> t_refresh w' = t_refresh w \<Longrightarrow> id_supply w' = id_supply w \<Longrightarrow> sessions_ok w'"
  by (simp add: sessions_ok_def)

lemma sessions_ok_ids: "sessions_ok w \<Longrightarrow> id_supply w = i # is \<Longrightarrow> sessions_ok (w\<lparr>id_supply := is\<rparr>)"
  by (simp add: sessions_ok_def)

lemma sessions_ok_mark: "keeps (kept sessions_ok) (MarkRefreshTokenUsed i now)"
  unfolding MarkRefreshTokenUsed_def Let_def
  by (rule keeps_kept_io) (simp_all add: sessions_ok_def unique_keys_update families_update uniform_mark)

lemma sessions_ok_revoke: "keeps (kept sessions_ok) (RevokeRefreshFamily fam now)"
  unfolding RevokeRefreshFamily_def
  by (rule keeps_kept_io) (simp_all add: sessions_ok_def unique_keys_update families_update uniform_revoke)

interpretation sess: ten_frame "kept sessions_ok"
proof unfold_locales
  show "keeps (kept sessions_ok) (MarkRefreshTokenUsed i now)" for i now by (rule sessions_ok_mark)
  show "keeps (kept sessions_ok) (RevokeRefreshFamily fam now)" for fam now by (rule sessions_ok_revoke)
  show "id_supply s = i # is \<Longrightarrow> kept sessions_ok s (s\<lparr>id_supply := is\<rparr>)" for s :: ten and i "is"
    by (simp add: kept_def sessions_ok_ids)
  show "keeps (kept sessions_ok) (CreateWorkspace k owner)" for k owner
    unfolding CreateWorkspace_def Let_def by (rule keeps_kept_io) (auto elim!: sessions_ok_same)
  show "keeps (kept sessions_ok) (CreateAPIKey ak)" for ak
    unfolding CreateAPIKey_def by (rule keeps_kept_io) (auto elim!: sessions_ok_same)
  show "keeps (kept sessions_ok) (RevokeAPIKey wsid i now)" for wsid i now
    unfolding RevokeAPIKey_def Let_def by (rule keeps_kept_io) (auto elim!: sessions_ok_same)
  show "keeps (kept sessions_ok) (TouchAPIKey i now)" for i now
    unfolding TouchAPIKey_def by (rule keeps_kept_io) (auto elim!: sessions_ok_same)
qed (auto simp: kept_def elim!: sessions_ok_same)

lemma family_ids: "family_open fam w \<Longrightarrow> id_supply w = i # is \<Longrightarrow> family_open fam (w\<lparr>id_supply := is\<rparr>)"
  using sessions_ok_ids [of w] by (simp add: family_open_def)

lemma family_stable: "stable (family_open fam)" "stable sessions_ok"
  by (simp_all add: stable_def family_open_def sessions_ok_def)

lemma family_fresh: "sessions_ok w \<Longrightarrow> id_supply w = fam # is \<Longrightarrow> family_open fam (w\<lparr>id_supply := is\<rparr>)"
  using sessions_ok_ids [of w fam "is"] by (auto simp: family_open_def sessions_ok_def)

text \<open>The family a session is issued for: an empty one is replaced by a fresh one.\<close>

definition issuable :: "string \<Rightarrow> ten \<Rightarrow> bool" where
  "issuable fam w \<longleftrightarrow> sessions_ok w \<and> (fam \<noteq> [] \<longrightarrow> family_open fam w)"

lemma issuable_stable: "stable (issuable fam)"
  using family_stable [unfolded stable_def] by (simp add: stable_def issuable_def)

lemma issuable_ids: "issuable fam w \<Longrightarrow> id_supply w = i # is \<Longrightarrow> issuable fam (w\<lparr>id_supply := is\<rparr>)"
  using sessions_ok_ids [of w] family_ids [of fam w] by (simp add: issuable_def)

lemma issuable_mint: "valid (issuable fam) (Mint lib key user wsid now ttl) (\<lambda>_. issuable fam)"
  unfolding Mint_def
  by (rule valid_if, rule valid_ret, assumption,
      rule valid_and_then [OF valid_new_id [where Q = "\<lambda>_. issuable fam"]], erule (1) issuable_ids, assumption,
      rule valid_sum_case, (rule valid_ret, assumption)+)

lemma issuable_opaque: "valid (issuable fam) (newOpaqueToken n) (\<lambda>_. issuable fam)"
proof -
  have "valid (issuable fam) (rand_Read n) (\<lambda>_. issuable fam)"
    by (simp add: valid_def rand_Read_def issuable_def family_open_def sessions_ok_def)
  then show ?thesis unfolding newOpaqueToken_def
    by (rule valid_and_then) (rule valid_sum_case, (rule valid_ret, assumption)+)
qed

lemma issuable_family: "valid (issuable fam) (new_family fam)
    (\<lambda>r w. sessions_ok w \<and> (\<forall>fam'. r = Inr fam' \<longrightarrow> family_open fam' w))"
  unfolding new_family_def
  by (rule valid_if, rule valid_new_id) (auto simp: issuable_def valid_def ret_def intro: family_fresh sessions_ok_ids)

lemma family_create:
  "valid (family_open fam) (CreateRefreshToken \<lparr>rt_ID = i, rt_UserID = user, rt_FamilyID = fam, rt_TokenHash = h, rt_CreatedAt = now,
      rt_ExpiresAt = expires, rt_UsedAt = None, rt_RevokedAt = None\<rparr>) (\<lambda>_. sessions_ok)"
  unfolding CreateRefreshToken_def
proof (rule valid_with_io [where R = "\<lambda>_. sessions_ok"])
  let ?t = "\<lparr>rt_ID = i, rt_UserID = user, rt_FamilyID = fam, rt_TokenHash = h, rt_CreatedAt = now,
      rt_ExpiresAt = expires, rt_UsedAt = None, rt_RevokedAt = None\<rparr>"
  have "sessions_ok (w\<lparr>t_refresh := t_refresh w @ [?t]\<rparr>)"
    if "family_open fam w" "\<not> has_key rt_ID i (t_refresh w)" "\<not> has_key rt_TokenHash h (t_refresh w)" for w
    using that uniform_insert [of "t_refresh w" ?t] by (simp add: family_open_def sessions_ok_def unique_keys_insert)
  then show "valid (family_open fam) (\<lambda>w. if has_key rt_ID (rt_ID ?t) (t_refresh w) \<or> has_key rt_TokenHash (rt_TokenHash ?t) (t_refresh w) \<or>
        \<not> has_key us_ID (rt_UserID ?t) (t_users w) then (Inl ErrIO, w)
      else (Inr (), w\<lparr>t_refresh := t_refresh w @ [?t\<lparr>rt_UsedAt := None, rt_RevokedAt := None\<rparr>]\<rparr>)) (\<lambda>_. sessions_ok)"
    by (simp add: valid_def family_open_def)
qed (simp_all add: family_open_def sessions_ok_def)

lemma sess_store: "valid (family_open fam) (store_refresh sv user access raw fam now) (\<lambda>_. sessions_ok)"
  unfolding store_refresh_def
proof (rule valid_and_then [OF valid_new_id [where Q = "\<lambda>_. family_open fam"]])
  show "valid (family_open fam) (case r of Inl e \<Rightarrow> ret (Inl e) | Inr i \<Rightarrow>
       and_then (CreateRefreshToken \<lparr>rt_ID = i, rt_UserID = us_ID user, rt_FamilyID = fam,
           rt_TokenHash = hashOpaqueToken (ts_lib sv) raw, rt_CreatedAt = now, rt_ExpiresAt = now + ts_refreshTokenTTL sv,
           rt_UsedAt = None, rt_RevokedAt = None\<rparr>) (\<lambda>r. case r of Inl e \<Rightarrow> ret (Inl e) | Inr _ \<Rightarrow> ret (Inr x)))
       (\<lambda>_. sessions_ok)" for r and x :: sessionResponse
    by (rule valid_sum_case, rule valid_ret, simp add: family_open_def,
        rule valid_and_then [OF family_create], rule valid_sum_case, (rule valid_ret, assumption)+)
qed (erule (1) family_ids, assumption)

lemma sess_issue: "valid (issuable fam) (issueSession sv user fam) (\<lambda>_. sessions_ok)"
proof -
  have i: "issuable fam w \<Longrightarrow> sessions_ok w" for w by (simp add: issuable_def)
  have last: "valid (\<lambda>w. sessions_ok w \<and> (\<forall>fam'. r = Inr fam' \<longrightarrow> family_open fam' w))
      (case r of Inl e \<Rightarrow> ret (Inl e) | Inr fam' \<Rightarrow> store_refresh sv user access raw fam' now) (\<lambda>_. sessions_ok)" for r access raw now
    by (rule valid_sum_case, rule valid_ret, erule conjunct1, rule valid_pre [OF sess_store]) simp
  show ?thesis
    unfolding issueSession_def
    by (rule valid_at_clock, rule valid_if, rule valid_ret, erule i,
        rule valid_and_then [OF valid_GetMembership [OF issuable_stable]], rule valid_sum_case, rule valid_ret, (drule conjunct1, erule i),
        rule valid_pre [of "issuable fam"], rule valid_and_then [OF issuable_mint], rule valid_sum_case, rule valid_ret, erule i,
        rule valid_and_then [OF issuable_opaque], rule valid_sum_case, rule valid_ret, erule i,
        rule valid_and_then [OF issuable_family last], erule conjunct1)
qed

lemma sess_open: "valid (issuable fam) (open_user_session sv user fam now) (\<lambda>_. sessions_ok)"
  unfolding open_user_session_def
  by (rule valid_and_then [OF sess_issue], rule valid_or_500, assumption, rule valid_ret)

lemma sess_sign_in: "valid sessions_ok (sign_in sv v now) (\<lambda>_. sessions_ok)"
proof -
  have o: "valid sessions_ok (open_user_session sv user [] now) (\<lambda>_. sessions_ok)" for user
    by (rule valid_pre [OF sess_open]) (simp add: issuable_def)
  have u: "valid sessions_ok (UpsertUserByGoogleSub a b c now) (\<lambda>_. sessions_ok)" for a b c
    using sess.upsert by (simp add: kept_valid)
  have b: "valid sessions_ok (bootstrapWorkspace sv user) (\<lambda>_. sessions_ok)" for user
    using sess.keeps_bootstrap by (simp add: kept_valid)
  show ?thesis
    unfolding sign_in_def
    by (rule valid_and_then [OF u], rule valid_or_500, assumption, rule valid_if,
        rule valid_and_then [OF b], rule valid_or_500, assumption, rule o, rule o)
qed

lemma sess_callback: "keeps (kept sessions_ok) (handleCallback sv prov q)"
proof -
  have t: "valid sessions_ok (TakeLoginState st now) (\<lambda>_. sessions_ok)" for st now
    using sess.keeps_logins(2) by (simp add: kept_valid)
  have a: "valid sessions_ok (case a of ExchangeFailed \<Rightarrow> ret x | TokenInvalid \<Rightarrow> ret y | Verified v \<Rightarrow> sign_in sv v now) (\<lambda>_. sessions_ok)"
    for a x y now by (cases a) (simp_all add: sess_sign_in valid_ret)
  show ?thesis
    unfolding kept_valid handleCallback_def
    by (rule valid_if, rule valid_ret, assumption, rule valid_if, rule valid_ret, assumption, rule valid_at_clock,
        rule valid_and_then [OF t], rule valid_or_else, assumption, rule a)
qed

text \<open>A live token leaves its family open.\<close>

lemma live_open: "sessions_ok w \<Longrightarrow> t \<in> set (t_refresh w) \<Longrightarrow> rt_RevokedAt t = None \<Longrightarrow> family_open (rt_FamilyID t) w"
  unfolding family_open_def sessions_ok_def using uniformD [of "t_refresh w" t] by (metis disjoint_iff imageI)

lemma family_mark: "valid (family_open fam) (MarkRefreshTokenUsed i now) (\<lambda>_. family_open fam)"
proof -
  let ?upd = "\<lambda>w. w\<lparr>t_refresh := update_where (\<lambda>t. rt_ID t = i \<and> rt_UsedAt t = None) (\<lambda>t. t\<lparr>rt_UsedAt := Some now\<rparr>) (t_refresh w)\<rparr>"
  have "family_open fam (?upd w)" if "family_open fam w" for w :: ten
    using that by (auto simp: family_open_def sessions_ok_def unique_keys_update families_update uniform_mark set_update_where)
  then show ?thesis
    unfolding MarkRefreshTokenUsed_def Let_def
    by (intro valid_with_io [where R = "\<lambda>_. family_open fam"]) (simp_all add: valid_def family_open_def sessions_ok_def)
qed

lemma sess_rotate: "valid (family_open (rt_FamilyID rt)) (rotate sv rt now) (\<lambda>_. sessions_ok)"
proof -
  have f: "family_open fam w \<Longrightarrow> sessions_ok w" for fam w by (simp add: family_open_def)
  have o: "valid (family_open fam) (open_user_session sv user fam now) (\<lambda>_. sessions_ok)" for user fam
    by (rule valid_pre [OF sess_open]) (simp add: issuable_def f)
  have u: "valid (family_open fam) (GetUser i) (\<lambda>_. family_open fam)" for fam i
    unfolding GetUser_def by (rule valid_weaken [OF valid_query [OF family_stable(1)]]) auto
  show ?thesis
    unfolding rotate_def
    by (rule valid_and_then [OF family_mark], rule valid_or_500, erule f, rule valid_and_then [OF u], rule valid_or_500, erule f, rule o)
qed

text \<open>What a lookup by hash finds.\<close>

lemma sess_lookup: "valid sessions_ok (GetRefreshTokenByHash h)
    (\<lambda>r w. sessions_ok w \<and> (\<forall>t. r = Inr t \<longrightarrow> t \<in> set (t_refresh w) \<and> rt_TokenHash t = h))"
  unfolding GetRefreshTokenByHash_def
  by (rule valid_weaken [OF valid_query [OF family_stable(2)]]) (auto simp: query_row_def dest: find_mem split: option.splits)

lemma sess_refresh: "keeps (kept sessions_ok) (handleRefresh sv obody cookie)"
proof -
  have r: "valid sessions_ok (RevokeRefreshFamily fam now) (\<lambda>_. sessions_ok)" for fam now
    using sessions_ok_revoke by (simp add: kept_valid)
  have j: "valid (\<lambda>w. sessions_ok w \<and> rt \<in> set (t_refresh w)) (judge_refresh sv rt now) (\<lambda>_. sessions_ok)" for rt now
    unfolding judge_refresh_def
    by (rule valid_if, rule valid_ret, erule conjunct1, rule valid_if, rule valid_pre [of sessions_ok], rule valid_and_then [OF r],
        rule valid_or_500, assumption, rule valid_ret, assumption, erule conjunct1, rule valid_if, rule valid_ret, erule conjunct1,
        rule valid_pre [OF sess_rotate], erule conjE, rule live_open) simp_all
  show ?thesis
    unfolding kept_valid handleRefresh_def
    by (rule valid_sum_case, rule valid_ret, assumption, rule valid_at_clock, rule valid_and_then [OF sess_lookup], rule valid_or_else,
        erule conjunct1, rule valid_pre [OF j]) simp
qed

lemma sess_frame:
  "keeps (kept sessions_ok) (UpdateMemberRole wsid user role)" "keeps (kept sessions_ok) (RemoveMember wsid user)"
  "keeps (kept sessions_ok) (AddMember m)" "keeps (kept sessions_ok) (ApplyMetering ev month d)"
  unfolding UpdateMemberRole_def RemoveMember_def AddMember_def ApplyMetering_def Let_def
  by (rule keeps_kept_io; simp add: sessions_ok_def)+

lemma sess_step: "ten_step sv w w' \<Longrightarrow> sessions_ok w \<Longrightarrow> sessions_ok w'"
proof -
  assume "ten_step sv w w'" "sessions_ok w"
  then have "kept sessions_ok w w'"
    by (intro sess.step_keeps sess.keeps_members sess.keeps_add_member sess.keeps_metering sess_callback sess_refresh sess_frame)
  with \<open>sessions_ok w\<close> show ?thesis by (simp add: kept_def)
qed

lemma sess_run: "(ten_step sv)\<^sup>*\<^sup>* w w' \<Longrightarrow> sessions_ok w \<Longrightarrow> sessions_ok w'"
  by (induction rule: rtranclp_induct) (auto intro: sess_step)

section \<open>Used and revoked tokens\<close>

definition used_up :: "string \<Rightarrow> ten \<Rightarrow> bool" where
  "used_up h w \<longleftrightarrow> (\<exists>t \<in> set (t_refresh w). rt_TokenHash t = h \<and> rt_UsedAt t \<noteq> None)"

definition dead_family :: "string \<Rightarrow> ten \<Rightarrow> bool" where
  "dead_family fam w \<longleftrightarrow> (\<exists>t \<in> set (t_refresh w). rt_FamilyID t = fam \<and> rt_RevokedAt t \<noteq> None)"

lemma used_up_last: "sessions_last w w' \<Longrightarrow> used_up h w \<Longrightarrow> used_up h w'"
  unfolding sessions_last_def used_up_def later_row_def by metis

lemma dead_family_last: "sessions_last w w' \<Longrightarrow> dead_family fam w \<Longrightarrow> dead_family fam w'"
  unfolding sessions_last_def dead_family_def later_row_def by metis

lemma used_up_keeps: "keeps sessions_last f \<Longrightarrow> valid (used_up h) f (\<lambda>_. used_up h)"
  unfolding keeps_def valid_def by (blast intro: used_up_last)

text \<open>Marking a token that was looked up, with its row still there, uses it up.\<close>

lemma mark_uses_up:
  "valid (\<lambda>w. sessions_ok w \<and> rt \<in> set (t_refresh w)) (MarkRefreshTokenUsed (rt_ID rt) now)
     (\<lambda>r w. r = Inr () \<longrightarrow> used_up (rt_TokenHash rt) w)"
  unfolding MarkRefreshTokenUsed_def Let_def
proof (rule valid_with_io [where R = "\<lambda>r w. r = Inr () \<longrightarrow> used_up (rt_TokenHash rt) w"], rule validI)
  fix w :: ten and r :: "store_err + unit" and w'
  let ?P = "\<lambda>t. rt_ID t = rt_ID rt \<and> rt_UsedAt t = None"
  assume ok: "sessions_ok w \<and> rt \<in> set (t_refresh w)"
    and run: "(affected ?P (t_refresh w), w\<lparr>t_refresh := update_where ?P (\<lambda>t. t\<lparr>rt_UsedAt := Some now\<rparr>) (t_refresh w)\<rparr>) = (r, w')"
  show "r = Inr () \<longrightarrow> used_up (rt_TokenHash rt) w'"
  proof
    assume "r = Inr ()"
    then obtain t where t: "t \<in> set (t_refresh w)" "?P t"
      using run by (auto simp: affected_def rows_affected_def filter_empty_conv split: if_splits)
    have "t = rt" using unique_keys_eq [of rt_ID "t_refresh w" t rt] ok t by (simp add: sessions_ok_def)
    then have "rt\<lparr>rt_UsedAt := Some now\<rparr> \<in> set (t_refresh w')" using t run by (auto simp: set_update_where)
    then show "used_up (rt_TokenHash rt) w'" unfolding used_up_def by (rule bexI [rotated]) simp
  qed
qed (simp_all add: sessions_ok_def)

lemma refresh_uses_up:
  assumes "takeRefreshToken body cookie = Inr raw"
  shows "valid sessions_ok (handleRefresh sv body cookie) (\<lambda>r w. fst r = 200 \<longrightarrow> used_up (hashOpaqueToken (ts_lib sv) raw) w)"
proof -
  let ?h = "hashOpaqueToken (ts_lib sv) raw"
  let ?Q = "\<lambda>r w. fst r = 200 \<longrightarrow> used_up ?h w"
  have e: "?Q internalError w" "?Q (terr 401 a b) w" for w a b by (simp_all add: internalError_def)
  have rest: "valid (used_up ?h) (and_then (GetUser i) (or_500 (\<lambda>user. open_user_session sv user fam now))) ?Q" for i fam now
  proof (rule valid_weaken [OF used_up_keeps], unfold open_user_session_def)
    show "keeps sessions_last (and_then (GetUser i) (or_500 (\<lambda>user.
        and_then (issueSession sv user fam) (or_500 (\<lambda>resp. ret (200, TSession resp (now + ts_refreshTokenTTL sv)))))))"
      by (intro rows.keeps_helpers rows.keeps_issue rows_store)
  qed auto
  have rot: "valid (\<lambda>w. sessions_ok w \<and> rt \<in> set (t_refresh w) \<and> rt_TokenHash rt = ?h) (rotate sv rt now) ?Q" for rt now
  proof (rule valid_assume)
    fix w assume h: "sessions_ok w \<and> rt \<in> set (t_refresh w) \<and> rt_TokenHash rt = ?h"
    show "valid (\<lambda>w. sessions_ok w \<and> rt \<in> set (t_refresh w) \<and> rt_TokenHash rt = ?h) (rotate sv rt now) ?Q"
      unfolding rotate_def
      by (rule valid_pre [where P' = "\<lambda>w. sessions_ok w \<and> rt \<in> set (t_refresh w)"], rule valid_and_then [OF mark_uses_up],
          rule valid_500, rule e, rule valid_pre [OF rest]) (use h in auto)
  qed
  have j: "valid (\<lambda>w. sessions_ok w \<and> rt \<in> set (t_refresh w) \<and> rt_TokenHash rt = ?h) (judge_refresh sv rt now) ?Q" for rt now
  proof -
    have "valid P (and_then f (or_500 (\<lambda>_. ret (terr 401 a b)))) ?Q" for P a b and f :: "(ten, unit) op"
      by (rule valid_and_then [of _ _ "\<lambda>_ _. True"], simp add: valid_def, rule valid_500, rule e, rule valid_ret, rule e)
    then show ?thesis unfolding judge_refresh_def
      by (intro valid_if rot) ((rule valid_ret, rule e) | assumption)+
  qed
  show ?thesis
    unfolding handleRefresh_def assms sum.case
    by (rule valid_at_clock, rule valid_and_then [OF sess_lookup], rule valid_missing [where Q = ?Q], rule e, rule e, rule valid_pre [OF j]) simp
qed

text \<open>The answer to a token whose row is known.\<close>

lemma lookup_exact:
  "valid (\<lambda>w. sessions_ok w \<and> t \<in> set (t_refresh w) \<and> P t) (GetRefreshTokenByHash (rt_TokenHash t))
     (\<lambda>r w. (sessions_ok w \<and> t \<in> set (t_refresh w) \<and> P t) \<and> (r = Inl ErrIO \<or> r = Inr t))"
proof -
  have f: "query_row (\<lambda>u. rt_TokenHash u = rt_TokenHash t) (t_refresh w) = Inr t" if "sessions_ok w" "t \<in> set (t_refresh w)" for w
    using find_unique [of rt_TokenHash "t_refresh w" t] that by (simp add: sessions_ok_def query_row_def)
  show ?thesis
    unfolding GetRefreshTokenByHash_def
    by (rule valid_weaken [OF valid_query [where P = "\<lambda>w. sessions_ok w \<and> t \<in> set (t_refresh w) \<and> P t"]])
      (use f in \<open>auto simp: stable_def sessions_ok_def\<close>)
qed

lemma revoke_kills:
  "valid (\<lambda>w. sessions_ok w \<and> t \<in> set (t_refresh w)) (RevokeRefreshFamily (rt_FamilyID t) now)
     (\<lambda>r w. r = Inr () \<longrightarrow> dead_family (rt_FamilyID t) w)"
  unfolding RevokeRefreshFamily_def
proof (rule valid_with_io [where R = "\<lambda>r w. dead_family (rt_FamilyID t) w"])
  let ?P = "\<lambda>u. rt_FamilyID u = rt_FamilyID t \<and> rt_RevokedAt u = None"
  have "dead_family (rt_FamilyID t) (w\<lparr>t_refresh := update_where ?P (\<lambda>t. t\<lparr>rt_RevokedAt := Some now\<rparr>) (t_refresh w)\<rparr>)"
    if "t \<in> set (t_refresh w)" for w :: ten
    using that unfolding dead_family_def
    by (intro bexI [of _ "if ?P t then t\<lparr>rt_RevokedAt := Some now\<rparr> else t"]) (auto simp: update_where_def)
  then show "valid (\<lambda>w. sessions_ok w \<and> t \<in> set (t_refresh w))
    (\<lambda>w. (Inr (), w\<lparr>t_refresh := update_where ?P (\<lambda>t. t\<lparr>rt_RevokedAt := Some now\<rparr>) (t_refresh w)\<rparr>))
    (\<lambda>r w. dead_family (rt_FamilyID t) w)" by (simp add: valid_def)
qed (simp_all add: sessions_ok_def)

lemma refresh_spent:
  assumes "takeRefreshToken body cookie = Inr raw" "hashOpaqueToken (ts_lib sv) raw = rt_TokenHash t"
    and "rt_UsedAt t \<noteq> None \<or> rt_RevokedAt t \<noteq> None"
  shows "valid (\<lambda>w. sessions_ok w \<and> t \<in> set (t_refresh w)) (handleRefresh sv body cookie)
    (\<lambda>r w. r = internalError \<or> fst r = 401 \<and> dead_family (rt_FamilyID t) w)"
proof -
  let ?Q = "\<lambda>r w. r = internalError \<or> fst r = 401 \<and> dead_family (rt_FamilyID t) w"
  have j: "valid (\<lambda>w. sessions_ok w \<and> t \<in> set (t_refresh w)) (judge_refresh sv t now) ?Q" for now
  proof (cases "rt_RevokedAt t = None")
    case True
    then have "judge_refresh sv t now = and_then (RevokeRefreshFamily (rt_FamilyID t) now) (or_500 (\<lambda>_.
        ret (terr 401 ''refresh_reused'' ''refresh token reuse detected; session revoked'')))"
      using assms(3) by (simp add: judge_refresh_def)
    then show ?thesis
      by (simp only:) (rule valid_and_then [OF revoke_kills], rule valid_500, simp, rule valid_ret, simp)
  next
    case False
    then have "judge_refresh sv t now = ret (terr 401 ''refresh_revoked'' ''refresh token has been revoked'')"
      by (simp add: judge_refresh_def)
    then show ?thesis
      by (simp only:) (rule valid_ret, use False in \<open>auto simp: dead_family_def\<close>)
  qed
  have l: "valid (\<lambda>w. (sessions_ok w \<and> t \<in> set (t_refresh w) \<and> True) \<and> (r = Inl ErrIO \<or> r = Inr t))
      (or_else resp (\<lambda>rt. judge_refresh sv rt now) r) ?Q" for resp r now
  proof (rule valid_assume)
    fix w assume "(sessions_ok w \<and> t \<in> set (t_refresh w) \<and> True) \<and> (r = Inl ErrIO \<or> r = Inr t)"
    then consider "r = Inl ErrIO" | "r = Inr t" by blast
    then show "valid (\<lambda>w. (sessions_ok w \<and> t \<in> set (t_refresh w) \<and> True) \<and> (r = Inl ErrIO \<or> r = Inr t))
      (or_else resp (\<lambda>rt. judge_refresh sv rt now) r) ?Q"
    proof cases
      case 1
      then show ?thesis by (simp add: or_else_def) (rule valid_ret, simp)
    next
      case 2
      then show ?thesis by (simp add: or_else_def) (rule valid_pre [OF j], simp)
    qed
  qed
  show ?thesis
    unfolding handleRefresh_def assms(1,2) sum.case
    by (rule valid_at_clock, rule valid_pre [OF valid_and_then [OF lookup_exact [where P = "\<lambda>_. True"] l]]) simp
qed

text \<open>The database answering, so does the service.\<close>

lemma refresh_spent_healthy:
  assumes "takeRefreshToken body cookie = Inr raw" "hashOpaqueToken (ts_lib sv) raw = rt_TokenHash t"
    and "rt_UsedAt t \<noteq> None \<or> rt_RevokedAt t \<noteq> None" "sessions_ok w" "t \<in> set (t_refresh w)" "healthy w"
  shows "fst (fst (handleRefresh sv body cookie w)) = 401"
proof -
  have "query_row (\<lambda>u. rt_TokenHash u = rt_TokenHash t) (t_refresh w) = Inr t"
    using find_unique [of rt_TokenHash "t_refresh w" t] assms(4,5) by (simp add: sessions_ok_def query_row_def)
  then show ?thesis
    using assms(3,6)
    by (simp add: handleRefresh_def assms(1,2) at_clock_def and_then_def GetRefreshTokenByHash_def with_io_healthy or_else_def
        judge_refresh_def ret_def RevokeRefreshFamily_def or_500_def) auto
qed

section \<open>Sessions over runs of the service\<close>

lemma sessions_start: "t_refresh w = [] \<Longrightarrow> distinct (id_supply w) \<Longrightarrow> sessions_ok w"
  by (simp add: sessions_ok_def unique_keys_def uniform_def)

definition ex_lib :: crypto_lib where
  "ex_lib = \<lparr>jwt_sign = (\<lambda>_ _. Some ''jwt''), jwt_parse = (\<lambda>_ _ _. None), IDKey = (\<lambda>pw salt _ _ _ n. take (nat n) (pw @ replicate (nat n) CHR ''.'')),
     argon_version = 19, sha256_hex = (\<lambda>s. s)\<rparr>"

definition ex_ten_server :: TenServer where
  "ex_ten_server = \<lparr>ts_lib = ex_lib, ts_key = ''k'', ts_AuthCodeURL = (\<lambda>_ _ _. ''url''),
     ts_tiers = \<lparr>tg_DefaultTier = ''free'', tg_Tiers = []\<rparr>, ts_accessTokenTTL = 900, ts_refreshTokenTTL = 9000,
     ts_internalToken = ''t'', ts_cookieSecure = True\<rparr>"

definition ex_provider :: provider where
  "ex_provider = (\<lambda>_ _ _ _. Verified \<lparr>oi_Subject = ''sub'', oi_Email = ''a@b'', oi_Name = ''a''\<rparr>)"

definition ex_signing_in :: ten where
  "ex_signing_in = \<lparr>io_script = [], id_supply = [''u'', ''w'', ''j1'', ''f'', ''t1'', ''j2'', ''t2''], clock = 5, t_users = [],
     t_workspaces = [], t_members = [], t_refresh = [],
     t_logins = [\<lparr>ls_State = ''st'', ls_Nonce = ''n'', ls_PKCEVerifier = ''v'', ls_CreatedAt = 1, ls_ExpiresAt = 9\<rparr>],
     t_apikeys = [], t_metered = [], t_rollups = [], entropy = replicate 32 CHR ''k'' @ replicate 32 CHR ''l''\<rparr>"

definition ex_session :: ten where
  "ex_session = snd (handleCallback ex_ten_server ex_provider \<lparr>cq_error = [], cq_state = ''st'', cq_code = ''c''\<rparr> ex_signing_in)"

definition ex_refresh_token :: string where
  "ex_refresh_token = EncodeToString url_alphabet (replicate 32 CHR ''k'')"

text \<open>
  C22. A refresh token is good for one rotation. Start the service without refresh tokens and with
  distinct identifiers to draw, let any requests and failures happen, and let a token be accepted.
  However the service goes on, presenting the same token again never yields a second session: the
  answer is 401 as soon as the database answers. Requests are handled one after the other.
\<close>

theorem refresh_token_single_use:
  assumes start: "t_refresh w0 = []" "distinct (id_supply w0)" "(ten_step sv)\<^sup>*\<^sup>* w0 w"
    and first: "takeRefreshToken body cookie = Inr raw" "handleRefresh sv body cookie w = ((200, x), w1)"
    and after: "(ten_step sv)\<^sup>*\<^sup>* w1 w2" "takeRefreshToken body' cookie' = Inr raw" "handleRefresh sv body' cookie' w2 = (r, w3)"
  shows "(r = internalError \<or> fst r = 401) \<and> (healthy w2 \<longrightarrow> fst r = 401)"
proof -
  have ok: "sessions_ok w" by (rule sess_run [OF start(3) sessions_start [OF start(1,2)]])
  have "used_up (hashOpaqueToken (ts_lib sv) raw) w1"
    using validD [OF refresh_uses_up [OF first(1)] ok first(2)] by simp
  then obtain t where t: "t \<in> set (t_refresh w2)" "rt_TokenHash t = hashOpaqueToken (ts_lib sv) raw" "rt_UsedAt t \<noteq> None"
    using used_up_last [OF rows_run [OF after(1)]] by (auto simp: used_up_def)
  have ok2: "sessions_ok w2"
    using sess_run [OF after(1)] sess_step [OF ten_step.refresh ok, of sv body cookie] first(2) by simp
  show ?thesis
    using validD [OF refresh_spent [OF after(2) t(2) [symmetric]] conjI [OF ok2 t(1)] after(3)]
      refresh_spent_healthy [OF after(2) t(2) [symmetric] _ ok2 t(1)] t(3) after(3) by auto
qed

theorem refresh_token_single_use_witness:
  "fst (fst (handleRefresh ex_ten_server None ex_refresh_token
     (snd (handleRefresh ex_ten_server None ex_refresh_token ex_session)))) = 401"
proof -
  let ?r = "handleRefresh ex_ten_server None ex_refresh_token"
  have run: "(ten_step ex_ten_server)\<^sup>*\<^sup>* ex_signing_in ex_session"
    unfolding ex_session_def by (rule r_into_rtranclp, rule ten_step.callback)
  have ok: "fst (fst (?r ex_session)) = 200" "healthy (snd (?r ex_session))" unfolding healthy_def by code_simp+
  have tok: "takeRefreshToken None ex_refresh_token = Inr ex_refresh_token" by code_simp
  obtain r w3 where second: "?r (snd (?r ex_session)) = (r, w3)" by fastforce
  have first: "?r ex_session = ((200, snd (fst (?r ex_session))), snd (?r ex_session))" using ok(1) by (metis prod.collapse)
  have "t_refresh ex_signing_in = []" "distinct (id_supply ex_signing_in)" by (simp_all add: ex_signing_in_def)
  from refresh_token_single_use [OF this run tok first rtranclp.rtrancl_refl tok second]
  show ?thesis using ok(2) second by simp
qed

text \<open>
  C23. A replayed or revoked token ends its session for good, as long as requests are handled one
  after the other. Once the service has answered 401 to a token that was used or revoked before, no
  token of the same family, issued before or after, is accepted by any request of the sequence that
  follows, whatever the requests and failures are. (When the steps of two requests interleave this
  fails: \<open>TenRaces.rotation_races_logout\<close> is a rotation that passes its check before the family is
  revoked and stores its new token afterwards.)
\<close>

theorem replay_ends_the_session:
  assumes start: "t_refresh w0 = []" "distinct (id_supply w0)" "(ten_step sv)\<^sup>*\<^sup>* w0 w"
    and token: "t \<in> set (t_refresh w)" "rt_UsedAt t \<noteq> None \<or> rt_RevokedAt t \<noteq> None" "rt_TokenHash t = hashOpaqueToken (ts_lib sv) raw"
    and replay: "takeRefreshToken body cookie = Inr raw" "handleRefresh sv body cookie w = ((401, x), w1)"
    and after: "(ten_step sv)\<^sup>*\<^sup>* w1 w2" "u \<in> set (t_refresh w2)" "rt_FamilyID u = rt_FamilyID t"
      "rt_TokenHash u = hashOpaqueToken (ts_lib sv) raw'" "takeRefreshToken body' cookie' = Inr raw'"
  shows "fst (fst (handleRefresh sv body' cookie' w2)) \<in> {401, 500}"
proof -
  have ok: "sessions_ok w" by (rule sess_run [OF start(3) sessions_start [OF start(1,2)]])
  have "dead_family (rt_FamilyID t) w1"
    using validD [OF refresh_spent [OF replay(1) token(3) [symmetric] token(2)] conjI [OF ok token(1)] replay(2)]
    by (auto simp: internalError_def)
  then have dead: "dead_family (rt_FamilyID u) w2"
    using dead_family_last [OF rows_run [OF after(1)]] after(3) by simp
  have ok2: "sessions_ok w2"
    using sess_run [OF after(1)] sess_step [OF ten_step.refresh ok, of sv body cookie] replay(2) by simp
  have "rt_RevokedAt u \<noteq> None"
  proof
    assume "rt_RevokedAt u = None"
    then have "family_open (rt_FamilyID u) w2" by (rule live_open [OF ok2 after(2)])
    moreover from dead obtain v where "v \<in> set (t_refresh w2)" "rt_FamilyID v = rt_FamilyID u" "rt_RevokedAt v \<noteq> None"
      unfolding dead_family_def by (elim bexE conjE)
    ultimately show False by (simp add: family_open_def)
  qed
  then show ?thesis
    using validD_snd [OF refresh_spent [OF after(5) after(4) [symmetric]] conjI [OF ok2 after(2)]]
    by (auto simp: internalError_def)
qed

definition ex_next_token :: string where
  "ex_next_token = EncodeToString url_alphabet (replicate 32 CHR ''l'')"

theorem replay_ends_the_session_witness:
  "fst (fst (handleRefresh ex_ten_server None ex_next_token
     (snd (handleRefresh ex_ten_server None ex_refresh_token (snd (handleRefresh ex_ten_server None ex_refresh_token ex_session)))))) = 401"
proof -
  let ?r = "handleRefresh ex_ten_server None ex_refresh_token"
  let ?w = "snd (?r ex_session)" and ?w1 = "snd (?r (snd (?r ex_session)))"
  have "(ten_step ex_ten_server)\<^sup>*\<^sup>* ex_signing_in ex_session"
    unfolding ex_session_def by (rule r_into_rtranclp, rule ten_step.callback)
  then have run: "(ten_step ex_ten_server)\<^sup>*\<^sup>* ex_signing_in ?w" by (rule rtranclp.rtrancl_into_rtrancl) (rule ten_step.refresh)
  let ?t = "t_refresh ?w ! 0" and ?u = "t_refresh ?w1 ! 1"
  have len: "0 < length (t_refresh ?w)" "1 < length (t_refresh ?w1)" by code_simp+
  have t: "rt_UsedAt ?t \<noteq> None \<or> rt_RevokedAt ?t \<noteq> None"
    "rt_TokenHash ?t = hashOpaqueToken (ts_lib ex_ten_server) ex_refresh_token"
    by code_simp+
  have u: "rt_FamilyID ?u = rt_FamilyID ?t"
    "rt_TokenHash ?u = hashOpaqueToken (ts_lib ex_ten_server) ex_next_token"
    by code_simp+
  have tok: "takeRefreshToken None ex_refresh_token = Inr ex_refresh_token" "takeRefreshToken None ex_next_token = Inr ex_next_token" by code_simp+
  have "fst (fst (?r ?w)) = 401" by code_simp
  then have replay: "?r ?w = ((401, snd (fst (?r ?w))), ?w1)" by (metis prod.collapse)
  have start: "t_refresh ex_signing_in = []" "distinct (id_supply ex_signing_in)" by (simp_all add: ex_signing_in_def)
  have "fst (fst (handleRefresh ex_ten_server None ex_next_token ?w1)) \<noteq> 500" by code_simp
  then show ?thesis
    using replay_ends_the_session [OF start run nth_mem [OF len(1)] t tok(1) replay
      rtranclp.rtrancl_refl nth_mem [OF len(2)] u tok(2)] by simp
qed

end
