(* ===== verification/TenOwners.thy ===== *)
theory TenOwners
  imports TenFrame
begin

text \<open>
  Membership: in every run every workspace keeps an owner, and a membership changes only by the
  hand of someone entitled to change it.
\<close>

section \<open>Every workspace has an owner\<close>

definition owners_ok :: "ten \<Rightarrow> bool" where
  "owners_ok w \<longleftrightarrow> unique_keys member_key (t_members w) \<and>
     list_all (\<lambda>k. list_ex (is_owner (ws_ID k)) (t_members w)) (t_workspaces w)"

lemma owners_ok_tables:
  "t_members w' = t_members w \<Longrightarrow> t_workspaces w' = t_workspaces w \<Longrightarrow> owners_ok w' = owners_ok w"
  by (simp add: owners_ok_def)

lemma owners_writes:
  "keeps (kept owners_ok) (MarkRefreshTokenUsed i now)"
  "keeps (kept owners_ok) (RevokeRefreshFamily fam now)" "keeps (kept owners_ok) (CreateAPIKey ak)"
  "keeps (kept owners_ok) (RevokeAPIKey wsid i now)" "keeps (kept owners_ok) (TouchAPIKey i now)"
  "keeps (kept owners_ok) (CreateRefreshToken rt)"
  unfolding MarkRefreshTokenUsed_def RevokeRefreshFamily_def CreateAPIKey_def RevokeAPIKey_def TouchAPIKey_def
    CreateRefreshToken_def Let_def
  by (rule keeps_kept_io; simp add: owners_ok_def)+

lemma owners_create: "keeps (kept owners_ok) (CreateWorkspace k owner)"
  unfolding CreateWorkspace_def Let_def
  by (rule keeps_kept_io) (auto simp: owners_ok_def unique_keys_insert is_owner_def list_all_iff list_ex_iff)

lemma owners_add: "keeps (kept owners_ok) (AddMember m)"
  unfolding AddMember_def
  by (rule keeps_kept_io) (auto simp: owners_ok_def unique_keys_insert list_all_iff list_ex_iff)

lemma owners_apply: "keeps (kept owners_ok) (ApplyMetering ev m d)"
  unfolding ApplyMetering_def Let_def by (rule keeps_kept_io) (simp_all add: owners_ok_def)

interpretation owners: ten_frame "kept owners_ok"
  by unfold_locales (auto simp: kept_def owners_ok_def intro: owners_writes owners_create)

text \<open>A row that is not the only owner of its workspace may go, or lose the role.\<close>

lemma owners_remove:
  assumes "owners_ok w" "List.find (member_at wsid user) (t_members w) = Some m"
    and "mb_Role m = RoleOwner \<Longrightarrow> 1 < rows_affected (is_owner wsid) (t_members w)"
    and "t_workspaces w' = t_workspaces w" "unique_keys member_key (t_members w')"
    and others: "\<And>x. x \<in> set (t_members w) \<Longrightarrow> x \<noteq> m \<Longrightarrow> x \<in> set (t_members w')"
  shows "owners_ok w'"
proof -
  have m: "m \<in> set (t_members w)" "member_at wsid user m" using find_mem [OF assms(2)] by auto
  have "list_ex (is_owner (ws_ID k)) (t_members w')" if k: "k \<in> set (t_workspaces w)" for k
  proof -
    obtain x where x: "x \<in> set (t_members w)" "is_owner (ws_ID k) x"
      using assms(1) k by (auto simp: owners_ok_def list_all_iff list_ex_iff)
    show ?thesis
    proof (cases "x = m")
      case False
      then show ?thesis using others x by (auto simp: list_ex_iff)
    next
      case True
      then have "wsid = ws_ID k" "mb_Role m = RoleOwner" using m(2) x(2) by (auto simp: member_at_def is_owner_def)
      then have many: "1 < length (filter (is_owner (ws_ID k)) (t_members w))" using assms(3) by (simp add: rows_affected_def)
      have "distinct (filter (is_owner (ws_ID k)) (t_members w))"
        using assms(1) by (auto simp: owners_ok_def unique_keys_def distinct_map)
      then obtain y where "y \<in> set (filter (is_owner (ws_ID k)) (t_members w))" "y \<noteq> m"
        using many by (metis One_nat_def Suc_lessD card_le_Suc0_iff_eq distinct_card finite_set leD le_less_linear less_one linorder_not_le mem_Collect_eq set_filter)
      then show ?thesis using others by (auto simp: list_ex_iff)
    qed
  qed
  then show ?thesis using assms(4,5) by (simp add: owners_ok_def list_all_iff)
qed

lemma owners_stable: "stable (\<lambda>w. owners_ok w \<and> List.find (member_at wsid user) (t_members w) = Some m)" "stable owners_ok"
  by (simp_all add: stable_def owners_ok_def)

lemma owners_update_row:
  "valid (\<lambda>w. (owners_ok w \<and> List.find (member_at wsid user) (t_members w) = Some m) \<and>
      (mb_Role m = RoleOwner \<and> role \<noteq> RoleOwner \<longrightarrow> 1 < rows_affected (is_owner wsid) (t_members w)))
    (UpdateMemberRole wsid user role) (\<lambda>_. owners_ok)"
  unfolding UpdateMemberRole_def
proof (rule valid_with_io [where R = "\<lambda>_. owners_ok"], rule validI)
  fix w r w'
  let ?f = "\<lambda>x. x\<lparr>mb_Role := role\<rparr>"
  assume P: "(owners_ok w \<and> List.find (member_at wsid user) (t_members w) = Some m) \<and>
      (mb_Role m = RoleOwner \<and> role \<noteq> RoleOwner \<longrightarrow> 1 < rows_affected (is_owner wsid) (t_members w))"
    and run: "(if rows_affected (member_at wsid user) (t_members w) \<noteq> 0 \<and> \<not> validRole role then (Inl ErrIO, w)
      else (affected (member_at wsid user) (t_members w), w\<lparr>t_members := update_where (member_at wsid user) ?f (t_members w)\<rparr>)) = (r, w')"
  have m: "m \<in> set (t_members w)" "member_at wsid user m" using P find_mem by fastforce+
  have uq: "unique_keys member_key (t_members w)" using P by (simp add: owners_ok_def)
  have only: "x = m" if "x \<in> set (t_members w)" "member_at wsid user x" for x
    using unique_keys_eq [OF uq that(1) m(1)] that(2) m(2) by (simp add: member_key_def member_at_def)
  show "owners_ok w'"
  proof (cases "w' = w")
    case False
    then have w': "w' = w\<lparr>t_members := update_where (member_at wsid user) ?f (t_members w)\<rparr>" using run by (auto split: if_splits)
    have uq': "unique_keys member_key (t_members w')" using uq by (simp add: w' unique_keys_update member_key_def)
    show ?thesis
    proof (cases "mb_Role m = RoleOwner \<and> role = RoleOwner")
      case True
      then have "?f m = m" by simp
      then have "t_members w' = t_members w" using only by (auto simp: w' update_where_def intro!: map_idI)
      then show ?thesis using P by (simp add: owners_ok_def w')
    next
      case False
      show ?thesis
        by (rule owners_remove [of w wsid user m, OF _ _ _ _ uq'])
          (use P False only in \<open>auto simp: w' set_update_where\<close>)
    qed
  qed (use P in simp)
qed (auto simp: owners_ok_def)

lemma owners_remove_row:
  "valid (\<lambda>w. (owners_ok w \<and> List.find (member_at wsid user) (t_members w) = Some m) \<and>
      (mb_Role m = RoleOwner \<longrightarrow> 1 < rows_affected (is_owner wsid) (t_members w)))
    (RemoveMember wsid user) (\<lambda>_. owners_ok)"
  unfolding RemoveMember_def
proof (rule valid_with_io [where R = "\<lambda>_. owners_ok"], rule validI)
  fix w r w'
  assume P: "(owners_ok w \<and> List.find (member_at wsid user) (t_members w) = Some m) \<and>
      (mb_Role m = RoleOwner \<longrightarrow> 1 < rows_affected (is_owner wsid) (t_members w))"
    and run: "(affected (member_at wsid user) (t_members w), w\<lparr>t_members := delete_where (member_at wsid user) (t_members w)\<rparr>) = (r, w')"
  have uq: "unique_keys member_key (t_members w)" using P by (simp add: owners_ok_def)
  have m: "m \<in> set (t_members w)" "member_at wsid user m" using P find_mem by fastforce+
  have only: "x = m" if "x \<in> set (t_members w)" "member_at wsid user x" for x
    using unique_keys_eq [OF uq that(1) m(1)] that(2) m(2) by (simp add: member_key_def member_at_def)
  have w': "w' = w\<lparr>t_members := delete_where (member_at wsid user) (t_members w)\<rparr>" using run by simp
  have uq': "unique_keys member_key (t_members w')" using uq by (simp add: w' unique_keys_delete)
  show "owners_ok w'"
    by (rule owners_remove [of w wsid user m, OF _ _ _ _ uq']) (use P only in \<open>auto simp: w' delete_where_def\<close>)
qed (auto simp: owners_ok_def)

lemma owners_update: "keeps (kept owners_ok) (handleUpdateMemberRole ident wsid target role)"
  unfolding kept_valid handleUpdateMemberRole_def
proof (rule valid_requireUser, assumption, rule valid_requireRole [OF owners_stable(2)], assumption,
    rule valid_pre [of owners_ok], rule valid_with_body, assumption, rule valid_if)
  fix v :: string
  show "valid owners_ok (ret x) (\<lambda>_. owners_ok)" for x :: ten_resp by (rule valid_ret)
  have end_ok: "valid owners_ok (or_500 (\<lambda>_. ret (200, TRoleSet target v)) r) (\<lambda>_. owners_ok)" for r :: "store_err + unit"
    by (rule valid_or_500, assumption, rule valid_ret)
  show "valid owners_ok (and_then (GetMembership wsid target) (or_else resp (\<lambda>current.
      unless_last_owner wsid (mb_Role current = RoleOwner \<and> v \<noteq> RoleOwner) msg
        (and_then (UpdateMemberRole wsid target v) (or_500 (\<lambda>_. ret (200, TRoleSet target v))))))) (\<lambda>_. owners_ok)" for resp msg
  proof (rule valid_and_then [OF valid_GetMembership [OF owners_stable(2)]], rule valid_or_else, erule conjunct1)
    fix r :: "store_err + Membership" and m assume r: "r = Inr m"
    show "valid (\<lambda>w. owners_ok w \<and> (\<forall>m. r = Inr m \<longrightarrow> List.find (member_at wsid target) (t_members w) = Some m))
      (unless_last_owner wsid (mb_Role m = RoleOwner \<and> v \<noteq> RoleOwner) msg
        (and_then (UpdateMemberRole wsid target v) (or_500 (\<lambda>_. ret (200, TRoleSet target v))))) (\<lambda>_. owners_ok)"
      by (rule valid_pre [OF valid_unless_last_owner [OF owners_stable(1) [of wsid target m]]],
          erule conjunct1, rule valid_and_then [OF owners_update_row end_ok]) (use r in simp)
  qed
qed simp

lemma owners_remove_member: "keeps (kept owners_ok) (handleRemoveMember ident wsid target)"
  unfolding kept_valid handleRemoveMember_def
proof (rule valid_requireUser, assumption, rule valid_and_then [OF valid_GetMembership [OF owners_stable(2)]],
    rule valid_or_else, erule conjunct1)
  fix i and r :: "store_err + Membership" and m assume r: "r = Inr m"
  have end_ok: "valid owners_ok (or_500 (\<lambda>_. ret (204, TNoContent)) r) (\<lambda>_. owners_ok)" for r :: "store_err + unit"
    by (rule valid_or_500, assumption, rule valid_ret)
  let ?P = "\<lambda>w. owners_ok w \<and> List.find (member_at wsid target) (t_members w) = Some m"
  have rest: "valid ?P (unless_last_owner wsid (mb_Role m = RoleOwner) msg
      (and_then (RemoveMember wsid target) (or_500 (\<lambda>_. ret (204, TNoContent))))) (\<lambda>_. owners_ok)" for msg
    by (rule valid_unless_last_owner [OF owners_stable(1)], erule conjunct1, rule valid_and_then [OF owners_remove_row end_ok])
  show "valid (\<lambda>w. owners_ok w \<and> (\<forall>m. r = Inr m \<longrightarrow> List.find (member_at wsid target) (t_members w) = Some m))
    (requireRole wsid (tn_UserID i) role (unless_last_owner wsid (mb_Role m = RoleOwner) msg
      (and_then (RemoveMember wsid target) (or_500 (\<lambda>_. ret (204, TNoContent)))))) (\<lambda>_. owners_ok)" for role msg
    by (rule valid_pre [of ?P], rule valid_requireRole [OF owners_stable(1)], erule conjunct1, rule valid_pre [OF rest])
      (use r in auto)
qed

text \<open>The invariant over runs.\<close>

lemma owners_step: "ten_step sv w w' \<Longrightarrow> owners_ok w \<Longrightarrow> owners_ok w'"
proof -
  assume "ten_step sv w w'" "owners_ok w"
  moreover have c: "keeps (kept owners_ok) (store_refresh sv user access raw fam now)" for user access raw fam now
    by (rule owners.keeps_store_refresh) (rule owners_writes)
  ultimately have "kept owners_ok w w'"
    by (intro owners.step_keeps owners_update owners_remove_member owners.keeps_add_member owners_add owners.keeps_callback owners.keeps_refresh owners.keeps_metering
        owners_apply)
  with \<open>owners_ok w\<close> show ?thesis by (simp add: kept_def)
qed

lemma owners_run: "(ten_step sv)\<^sup>*\<^sup>* w w' \<Longrightarrow> owners_ok w \<Longrightarrow> owners_ok w'"
  by (induction rule: rtranclp_induct) (auto intro: owners_step)

section \<open>Who may change a membership\<close>

definition role_of :: "ten \<Rightarrow> string \<Rightarrow> string \<Rightarrow> string option" where
  "role_of w wsid user = map_option mb_Role (List.find (member_at wsid user) (t_members w))"

text \<open>
  A change of the membership of \<open>target\<close> by the hand of \<open>user\<close> is lawful when the user is an owner,
  leaves, or is an admin and the target neither was nor becomes more than a plain member.
\<close>

definition lawful :: "string \<Rightarrow> (string \<Rightarrow> string \<Rightarrow> string option) \<Rightarrow> (string \<Rightarrow> string \<Rightarrow> string option) \<Rightarrow> string \<Rightarrow> string \<Rightarrow> bool" where
  "lawful user old new wsid target \<longleftrightarrow>
     new wsid target = old wsid target \<or>
     old wsid user = Some RoleOwner \<or>
     target = user \<and> new wsid target = None \<or>
     old wsid user = Some RoleAdmin \<and>
       old wsid target \<in> {None, Some RoleMember} \<and> new wsid target \<in> {None, Some RoleMember}"

text \<open>The memberships of the workspaces there were.\<close>

definition same_roles :: "ten \<Rightarrow> ten \<Rightarrow> bool" where
  "same_roles w w' \<longleftrightarrow> (\<forall>wsid. has_key ws_ID wsid (t_workspaces w) \<longrightarrow>
     has_key ws_ID wsid (t_workspaces w') \<and> (\<forall>user. role_of w' wsid user = role_of w wsid user))"

lemma find_append_new: "(\<not> P x) \<Longrightarrow> List.find P (xs @ [x]) = List.find P xs"
  by (induction xs) auto

lemma find_append_hit: "List.find P xs = None \<Longrightarrow> P x \<Longrightarrow> List.find P (xs @ [x]) = Some x"
  by (induction xs) (auto split: if_splits)

lemma role_tables: "t_members w' = t_members w \<Longrightarrow> role_of w' = role_of w"
  by (intro ext) (simp add: role_of_def)

lemma same_roles_io: "(\<And>w. same_roles w (snd (f w))) \<Longrightarrow> keeps same_roles (with_io f)"
proof -
  assume f: "\<And>w. same_roles w (snd (f w))"
  have "same_roles w (snd (with_io f w))" for w
    by (cases rule: with_io_cases [of w f])
      (use f in \<open>auto simp: same_roles_def role_of_def dest!: next_io_update\<close>)
  then show ?thesis by (simp add: keeps_def)
qed

lemma role_append:
  assumes "t_members w' = t_members w @ [m]" "\<not> member_at wsid user m"
  shows "role_of w' wsid user = role_of w wsid user"
  using assms by (simp add: role_of_def find_append_new)

lemma same_roles_create: "keeps same_roles (CreateWorkspace k owner)"
  unfolding CreateWorkspace_def Let_def
proof (rule same_roles_io)
  fix w :: ten
  let ?m = "\<lparr>mb_WorkspaceID = ws_ID k, mb_UserID = owner, mb_Role = RoleOwner, mb_CreatedAt = ws_CreatedAt k\<rparr>"
  let ?w' = "w\<lparr>t_workspaces := t_workspaces w @ [k], t_members := t_members w @ [?m]\<rparr>"
  have "same_roles w ?w'" if "\<not> has_key ws_ID (ws_ID k) (t_workspaces w)"
    unfolding same_roles_def
  proof (intro allI impI conjI)
    fix wsid user assume h: "has_key ws_ID wsid (t_workspaces w)"
    then show "has_key ws_ID wsid (t_workspaces ?w')" by (auto simp: has_key_def)
    have "\<not> member_at wsid user ?m" using h that by (auto simp: member_at_def)
    then show "role_of ?w' wsid user = role_of w wsid user" by (rule role_append [rotated]) simp
  qed
  then show "same_roles w (snd (if has_key ws_ID (ws_ID k) (t_workspaces w) then (Inl ErrDuplicate, w)
      else if \<not> has_key us_ID (ws_CreatedBy k) (t_users w) \<or> \<not> has_key us_ID owner (t_users w) \<or>
              has_key member_key (member_key ?m) (t_members w) then (Inl ErrIO, w) else (Inr (), ?w')))"
    by (simp add: same_roles_def)
qed

interpretation roles: ten_frame same_roles
  by unfold_locales
    (auto simp: same_roles_def role_of_def MarkRefreshTokenUsed_def RevokeRefreshFamily_def CreateAPIKey_def RevokeAPIKey_def
      TouchAPIKey_def Let_def intro!: same_roles_create same_roles_io)

text \<open>What the three writes do to the roles.\<close>

lemma find_update_role:
  "map_option mb_Role (List.find (member_at x y) (update_where (member_at a b) (\<lambda>m. m\<lparr>mb_Role := r\<rparr>) ms)) =
     (if x = a \<and> y = b then map_option (\<lambda>_. r) (List.find (member_at x y) ms) else map_option mb_Role (List.find (member_at x y) ms))"
  by (induction ms) (auto simp: update_where_def member_at_def [abs_def])

lemma find_delete_role:
  "List.find (member_at x y) (delete_where (member_at a b) ms) = (if x = a \<and> y = b then None else List.find (member_at x y) ms)"
  by (induction ms) (auto simp: delete_where_def member_at_def [abs_def])

text \<open>\<open>only_at a b R\<close>: all roles are as they were, except that those of \<open>b\<close> in \<open>a\<close> are related by \<open>R\<close>.\<close>

definition only_at :: "string \<Rightarrow> string \<Rightarrow> (string option \<Rightarrow> string option \<Rightarrow> bool) \<Rightarrow> (string \<Rightarrow> string \<Rightarrow> string option) \<Rightarrow> ten \<Rightarrow> bool" where
  "only_at a b R old w \<longleftrightarrow> (\<forall>x y. role_of w x y = old x y \<or> x = a \<and> y = b \<and> R (old x y) (role_of w x y))"

lemma roles_stable: "stable (\<lambda>w. role_of w = old)"
  by (simp add: stable_def role_of_def fun_eq_iff)

lemma role_write:
  assumes "\<And>w. role_of w = old \<Longrightarrow> only_at a b R old (snd (f w))"
  shows "valid (\<lambda>w. role_of w = old) (with_io f) (\<lambda>_. only_at a b R old)"
  by (rule valid_with_io [where R = "\<lambda>_. only_at a b R old"])
    (use assms in \<open>auto simp: valid_def only_at_def role_of_def fun_eq_iff\<close>)

lemma role_update: "valid (\<lambda>w. role_of w = old) (UpdateMemberRole a b r) (\<lambda>_. only_at a b (\<lambda>_ _. True) old)"
  unfolding UpdateMemberRole_def
  by (rule role_write) (auto simp: only_at_def role_of_def find_update_role fun_eq_iff)

lemma role_remove: "valid (\<lambda>w. role_of w = old) (RemoveMember a b) (\<lambda>_. only_at a b (\<lambda>_ new. new = None) old)"
  unfolding RemoveMember_def
  by (rule role_write) (auto simp: only_at_def role_of_def find_delete_role fun_eq_iff)

lemma role_add: "valid (\<lambda>w. role_of w = old) (AddMember m)
    (\<lambda>_. only_at (mb_WorkspaceID m) (mb_UserID m) (\<lambda>o1 new. o1 = None \<and> new = Some (mb_Role m)) old)"
  unfolding AddMember_def
proof (rule role_write)
  fix w assume old: "role_of w = old"
  have "role_of (w\<lparr>t_members := t_members w @ [m]\<rparr>) x y = old x y \<or>
      x = mb_WorkspaceID m \<and> y = mb_UserID m \<and> old x y = None \<and> role_of (w\<lparr>t_members := t_members w @ [m]\<rparr>) x y = Some (mb_Role m)"
    if "\<not> has_key member_key (member_key m) (t_members w)" for x y
  proof (cases "member_at x y m")
    case True
    have "\<not> member_at x y n" if "n \<in> set (t_members w)" for n
      using that True \<open>\<not> has_key _ _ _\<close> unfolding has_key_def
      by (metis imageI member_at_def member_key_def)
    then have "List.find (member_at x y) (t_members w) = None" by (simp add: find_None_all)
    moreover from this have "List.find (member_at x y) (t_members w @ [m]) = Some m"
      by (rule find_append_hit [where P = "member_at x y"]) (rule True)
    ultimately show ?thesis using True old by (auto simp: role_of_def member_at_def)
  qed (use old role_append in auto)
  then show "only_at (mb_WorkspaceID m) (mb_UserID m) (\<lambda>o1 new. o1 = None \<and> new = Some (mb_Role m)) old
      (snd (if \<not> validRole (mb_Role m) then (Inl ErrIO, w)
        else if has_key member_key (member_key m) (t_members w) then (Inl ErrDuplicate, w)
        else if \<not> has_key ws_ID (mb_WorkspaceID m) (t_workspaces w) \<or> \<not> has_key us_ID (mb_UserID m) (t_users w) then (Inl ErrIO, w)
        else (Inr (), w\<lparr>t_members := t_members w @ [m]\<rparr>)))"
    using old by (simp add: only_at_def)
qed

lemma rank_owner: "roleRank RoleOwner \<le> roleRank r \<Longrightarrow> r = RoleOwner"
  by (auto simp: roleRank_def RoleOwner_def RoleAdmin_def RoleMember_def split: if_splits)

lemma rank_admin: "roleRank RoleAdmin \<le> roleRank r \<Longrightarrow> r = RoleOwner \<or> r = RoleAdmin"
  by (auto simp: roleRank_def RoleOwner_def RoleAdmin_def RoleMember_def split: if_splits)

abbreviation lawful_end :: "string \<Rightarrow> (string \<Rightarrow> string \<Rightarrow> string option) \<Rightarrow> ten \<Rightarrow> bool" where
  "lawful_end u old w \<equiv> (\<forall>x y. lawful u old (role_of w) x y)"

lemma lawful_same: "role_of w = old \<Longrightarrow> lawful_end u old w"
  by (simp add: lawful_def)

lemma lawful_only:
  assumes "only_at a b R old w" "R (old a b) (role_of w a b) \<Longrightarrow> lawful u old (role_of w) a b"
  shows "lawful_end u old w"
proof (intro allI)
  fix x y
  show "lawful u old (role_of w) x y"
  proof (cases "role_of w x y = old x y")
    case False
    then have "x = a \<and> y = b \<and> R (old a b) (role_of w a b)" using assms(1) by (auto simp: only_at_def)
    then show ?thesis using assms(2) by blast
  qed (simp add: lawful_def)
qed

lemma lawful_role:
  assumes "\<And>role. old wsid u = Some role \<Longrightarrow> roleRank minRole \<le> roleRank role \<Longrightarrow>
      valid (\<lambda>w. role_of w = old) k (\<lambda>_. lawful_end u old)"
  shows "valid (\<lambda>w. role_of w = old) (requireRole wsid u minRole k) (\<lambda>_. lawful_end u old)"
proof (rule valid_requireRole [OF roles_stable lawful_same], assumption)
  fix m
  show "valid (\<lambda>w. role_of w = old \<and> List.find (member_at wsid u) (t_members w) = Some m \<and> roleRank minRole \<le> roleRank (mb_Role m)) k
    (\<lambda>_. lawful_end u old)"
  proof (rule valid_assume)
    fix w assume w: "role_of w = old \<and> List.find (member_at wsid u) (t_members w) = Some m \<and> roleRank minRole \<le> roleRank (mb_Role m)"
    then have "old wsid u = Some (mb_Role m)" by (auto simp: role_of_def)
    with w show "valid (\<lambda>w. role_of w = old \<and> List.find (member_at wsid u) (t_members w) = Some m \<and>
        roleRank minRole \<le> roleRank (mb_Role m)) k (\<lambda>_. lawful_end u old)"
      by (intro valid_pre [OF assms [of "mb_Role m"]]) simp_all
  qed
qed

lemma lawful_tail: "(\<And>w. P w \<Longrightarrow> lawful_end u old w) \<Longrightarrow> valid P (or_500 (\<lambda>_. ret resp) r) (\<lambda>_. lawful_end u old)"
  by (rule valid_or_500, blast, rule valid_ret, blast)

lemma update_lawful:
  "valid (\<lambda>w. role_of w = old) (handleUpdateMemberRole (Some i) wsid target body) (\<lambda>_. lawful_end (tn_UserID i) old)"
  unfolding handleUpdateMemberRole_def
proof (rule valid_requireUser, erule lawful_same, clarsimp, rule lawful_role)
  fix role assume "old wsid (tn_UserID i) = Some role" "roleRank RoleOwner \<le> roleRank role"
  then have own: "old wsid (tn_UserID i) = Some RoleOwner" using rank_owner by blast
  have w: "lawful_end (tn_UserID i) old w" if "only_at wsid target (\<lambda>_ _. True) old w" for w
    using that by (rule lawful_only) (simp add: lawful_def own)
  have tail: "valid (\<lambda>w. role_of w = old) (unless_last_owner wsid b msg (and_then (UpdateMemberRole wsid target v) (or_500 (\<lambda>_. ret resp))))
      (\<lambda>_. lawful_end (tn_UserID i) old)" for b msg v resp
    by (rule valid_unless_last_owner [OF roles_stable lawful_same], assumption, rule valid_pre [of "\<lambda>w. role_of w = old"],
        rule valid_and_then [OF role_update lawful_tail [OF w]]) auto
  show "valid (\<lambda>w. role_of w = old)
     (with_body body (\<lambda>role. if \<not> validRole role then ret (terr 400 ''invalid_role'' ''role must be owner, admin, or member'')
       else and_then (GetMembership wsid target)
         (or_else (terr 404 ''member_not_found'' ''no such member in this workspace'') (\<lambda>current.
         unless_last_owner wsid (mb_Role current = RoleOwner \<and> role \<noteq> RoleOwner) ''cannot demote the last owner'' (
           and_then (UpdateMemberRole wsid target role) (or_500 (\<lambda>_. ret (200, TRoleSet target role))))))))
     (\<lambda>_. lawful_end (tn_UserID i) old)"
    by (rule valid_with_body, erule lawful_same, rule valid_if, rule valid_ret, erule lawful_same,
        rule valid_and_then [OF valid_GetMembership [OF roles_stable]], rule valid_or_else, (drule conjunct1, erule lawful_same),
        rule valid_pre [OF tail], erule conjunct1)
qed

lemma remove_lawful:
  "valid (\<lambda>w. role_of w = old) (handleRemoveMember (Some i) wsid target) (\<lambda>_. lawful_end (tn_UserID i) old)"
  unfolding handleRemoveMember_def
proof (rule valid_requireUser, erule lawful_same, clarsimp,
    rule valid_and_then [OF valid_GetMembership [OF roles_stable]], rule valid_or_else, (drule conjunct1, erule lawful_same))
  fix r :: "store_err + Membership" and m
  assume r: "r = Inr m"
  let ?P = "\<lambda>w. role_of w = old \<and> (\<forall>m. r = Inr m \<longrightarrow> List.find (member_at wsid target) (t_members w) = Some m)"
  let ?min = "if target \<noteq> tn_UserID i then if mb_Role m \<noteq> RoleMember then RoleOwner else RoleAdmin else RoleMember"
  show "valid ?P (requireRole wsid (tn_UserID i) ?min (unless_last_owner wsid (mb_Role m = RoleOwner) ''cannot remove the last owner''
      (and_then (RemoveMember wsid target) (or_500 (\<lambda>_. ret (204, TNoContent)))))) (\<lambda>_. lawful_end (tn_UserID i) old)"
  proof (rule valid_assume)
    fix w0 assume "?P w0"
    then have m: "old wsid target = Some (mb_Role m)" using r by (auto simp: role_of_def)
    have "valid (\<lambda>w. role_of w = old) (requireRole wsid (tn_UserID i) ?min (unless_last_owner wsid (mb_Role m = RoleOwner)
        ''cannot remove the last owner'' (and_then (RemoveMember wsid target) (or_500 (\<lambda>_. ret (204, TNoContent))))))
        (\<lambda>_. lawful_end (tn_UserID i) old)"
    proof (rule lawful_role)
      fix role assume role: "old wsid (tn_UserID i) = Some role" "roleRank ?min \<le> roleRank role"
      have w: "lawful_end (tn_UserID i) old w" if "only_at wsid target (\<lambda>_ new. new = None) old w" for w
        using that by (rule lawful_only)
          (use role m rank_owner [of role] rank_admin [of role] in \<open>auto simp: lawful_def split: if_splits\<close>)
      show "valid (\<lambda>w. role_of w = old) (unless_last_owner wsid (mb_Role m = RoleOwner) ''cannot remove the last owner''
          (and_then (RemoveMember wsid target) (or_500 (\<lambda>_. ret (204, TNoContent))))) (\<lambda>_. lawful_end (tn_UserID i) old)"
        by (rule valid_unless_last_owner [OF roles_stable lawful_same], assumption, rule valid_pre [of "\<lambda>w. role_of w = old"],
            rule valid_and_then [OF role_remove lawful_tail [OF w]]) auto
    qed
    then show "valid ?P (requireRole wsid (tn_UserID i) ?min (unless_last_owner wsid (mb_Role m = RoleOwner) ''cannot remove the last owner''
      (and_then (RemoveMember wsid target) (or_500 (\<lambda>_. ret (204, TNoContent)))))) (\<lambda>_. lawful_end (tn_UserID i) old)"
      by (rule valid_pre) (erule conjunct1)
  qed
qed

lemma add_lawful:
  "valid (\<lambda>w. role_of w = old) (handleAddMember (Some i) wsid body) (\<lambda>_. lawful_end (tn_UserID i) old)"
  unfolding handleAddMember_def Let_def
proof (rule valid_requireUser, erule lawful_same, clarsimp, rule valid_with_body, erule lawful_same,
    rule valid_if, rule valid_ret, erule lawful_same, rule valid_if, rule valid_ret, erule lawful_same, rule lawful_role)
  fix v role
  let ?min = "if am_Role v \<noteq> RoleMember then RoleOwner else RoleAdmin"
  assume role: "old wsid (tn_UserID i) = Some role" "roleRank ?min \<le> roleRank role"
  have w: "lawful_end (tn_UserID i) old w" if "only_at wsid t (\<lambda>o1 new. o1 = None \<and> new = Some (am_Role v)) old w" for w t
    using that by (rule lawful_only)
      (use role rank_owner [of role] rank_admin [of role] in \<open>auto simp: lawful_def split: if_splits\<close>)
  have q: "valid (\<lambda>w. role_of w = old) (GetUserByEmail e) (\<lambda>_ w. role_of w = old)" for e
    unfolding GetUserByEmail_def by (rule valid_weaken [OF valid_query [OF roles_stable]]) auto
  have "valid (\<lambda>w. role_of w = old) (and_then (AddMember \<lparr>mb_WorkspaceID = wsid, mb_UserID = t, mb_Role = am_Role v, mb_CreatedAt = now\<rparr>)
      (\<lambda>r. case r of Inl e \<Rightarrow> ret (f e) | Inr _ \<Rightarrow> ret x)) (\<lambda>_. lawful_end (tn_UserID i) old)" for t now f x
    by (rule valid_and_then [OF role_add], rule valid_sum_case; rule valid_ret, rule w, simp)
  then have a: "valid (\<lambda>w. role_of w = old) (at_clock (\<lambda>now. and_then (AddMember \<lparr>mb_WorkspaceID = wsid, mb_UserID = t, mb_Role = am_Role v,
      mb_CreatedAt = now\<rparr>) (\<lambda>r. case r of Inl e \<Rightarrow> ret (f e) | Inr _ \<Rightarrow> ret (g now)))) (\<lambda>_. lawful_end (tn_UserID i) old)" for t f g
    by (intro valid_at_clock)
  show "valid (\<lambda>w. role_of w = old) (and_then (GetUserByEmail e) (or_else resp (\<lambda>target. at_clock (\<lambda>now.
      and_then (AddMember \<lparr>mb_WorkspaceID = wsid, mb_UserID = us_ID target, mb_Role = am_Role v, mb_CreatedAt = now\<rparr>)
        (\<lambda>r. case r of Inl e \<Rightarrow> ret (f e) | Inr _ \<Rightarrow> ret (g target now)))))) (\<lambda>_. lawful_end (tn_UserID i) old)" for e resp f g
    by (rule valid_and_then [OF q], rule valid_or_else, erule lawful_same, rule a)
qed

lemma requireUser_key: "has_prefix apiKeyUserPrefix (tn_UserID i) \<Longrightarrow> snd (requireUser (Some i) k w) = w"
  by (simp add: requireUser_def requireIdentity_def ret_def)

lemma request_roles:
  assumes "api_request sv i w w'"
  shows "same_roles w w' \<or> \<not> has_prefix apiKeyUserPrefix (tn_UserID i) \<and> lawful_end (tn_UserID i) (role_of w) w'"
proof -
  have k: "same_roles w (snd (f w))" if "keeps same_roles f" for f :: "ten \<Rightarrow> ten_resp \<times> ten" and w using that by (simp add: keeps_def)
  have g: "same_roles w (snd (requireUser (Some i) h w)) \<or>
      \<not> has_prefix apiKeyUserPrefix (tn_UserID i) \<and> lawful_end (tn_UserID i) (role_of w) (snd (requireUser (Some i) h w))"
    if "valid (\<lambda>x. role_of x = role_of w) (requireUser (Some i) h) (\<lambda>_. lawful_end (tn_UserID i) (role_of w))" for h w
  proof (cases "has_prefix apiKeyUserPrefix (tn_UserID i)")
    case True
    then show ?thesis by (simp add: requireUser_key same_roles_def)
  qed (use validD_snd [OF that] in blast)
  from assms show ?thesis
  proof cases
    case (add_request wsid req)
    then show ?thesis using g [OF add_lawful [unfolded handleAddMember_def]] unfolding handleAddMember_def by blast
  next
    case (role_request wsid target role)
    then show ?thesis using g [OF update_lawful [unfolded handleUpdateMemberRole_def]] unfolding handleUpdateMemberRole_def by blast
  next
    case (remove_request wsid target)
    then show ?thesis using g [OF remove_lawful [unfolded handleRemoveMember_def]] unfolding handleRemoveMember_def by blast
  qed (use k [OF roles.keeps_plain(1)] k [OF roles.keeps_plain(2)] k [OF roles.keeps_plain(3)] k [OF roles.keeps_plain(4)]
      k [OF roles.keeps_plain(5)] k [OF roles.keeps_usage] k [OF roles.keeps_workspace_handlers(1)] k [OF roles.keeps_workspace_handlers(2)]
      k [OF roles.keeps_key_handlers(1)] k [OF roles.keeps_key_handlers(2)] in \<open>simp_all\<close>)
qed

section \<open>Properties\<close>

definition ex_team :: ten where
  "ex_team = \<lparr>io_script = [], id_supply = [''w2''], clock = 5,
     t_users = map (\<lambda>u. \<lparr>us_ID = u, us_GoogleSub = u, us_Email = u, us_Name = u, us_ActiveWorkspaceID = ''w1'',
       us_CreatedAt = 1, us_LastLoginAt = 1\<rparr>) [''o'', ''a'', ''m''],
     t_workspaces = [\<lparr>ws_ID = ''w1'', ws_Name = ''one'', ws_PlanTier = ''free'', ws_CreatedBy = ''o'', ws_CreatedAt = 1\<rparr>],
     t_members = map (\<lambda>(u, r). \<lparr>mb_WorkspaceID = ''w1'', mb_UserID = u, mb_Role = r, mb_CreatedAt = 1\<rparr>)
       [(''o'', RoleOwner), (''a'', RoleAdmin), (''m'', RoleMember)],
     t_refresh = [], t_logins = [], t_apikeys = [], t_metered = [], t_rollups = [], entropy = []\<rparr>"

definition ex_admin :: TenIdentity where
  "ex_admin = \<lparr>tn_UserID = ''a'', tn_WorkspaceID = ''w1''\<rparr>"

lemmas ten_eval = and_then_def ret_def with_io_def next_io_def query_row_def or_500_def or_else_def requireUser_def requireIdentity_def
  requireRole_def GetMembership_def member_at_def has_prefix_def apiKeyUserPrefix_def

text \<open>
  Memberships change only lawfully. Whatever a request behind the authentication middleware
  does, and however the database fails, the role of every user in every workspace there was
  stays as it is, unless the caller is not an API key and is an owner of that workspace, or
  leaves it, or is an admin of it and the other party neither was nor becomes more than a member.
\<close>

theorem membership_changes_lawful:
  assumes "api_request sv i w w'" "has_key ws_ID wsid (t_workspaces w)"
  shows "role_of w' wsid target = role_of w wsid target \<or>
    \<not> has_prefix apiKeyUserPrefix (tn_UserID i) \<and>
    (role_of w wsid (tn_UserID i) = Some RoleOwner \<or>
     target = tn_UserID i \<and> role_of w' wsid target = None \<or>
     role_of w wsid (tn_UserID i) = Some RoleAdmin \<and>
       role_of w wsid target \<in> {None, Some RoleMember} \<and> role_of w' wsid target \<in> {None, Some RoleMember})"
  using request_roles [OF assms(1)] assms(2) unfolding same_roles_def lawful_def by blast

theorem membership_changes_lawful_witness:
  "role_of (snd (handleRemoveMember (Some ex_admin) ''w1'' ''m'' ex_team)) ''w1'' ''m'' = None \<and>
   role_of (snd (handleRemoveMember (Some ex_admin) ''w1'' ''o'' ex_team)) ''w1'' ''o'' = Some RoleOwner"
proof -
  have h: "has_key ws_ID ''w1'' (t_workspaces ex_team)" by (simp add: has_key_def ex_team_def)
  have r: "role_of ex_team ''w1'' ''a'' = Some RoleAdmin" "role_of ex_team ''w1'' ''o'' = Some RoleOwner"
    by (simp_all add: role_of_def ex_team_def member_at_def)
  have "role_of (snd (handleRemoveMember (Some ex_admin) ''w1'' ''m'' ex_team)) ''w1'' ''m'' = None"
    by (simp add: handleRemoveMember_def ten_eval role_of_def ex_team_def ex_admin_def roleRank_def RoleOwner_def RoleAdmin_def RoleMember_def
        unless_last_owner_def RemoveMember_def delete_where_def affected_def rows_affected_def)
  then show ?thesis
    using membership_changes_lawful [OF remove_request [of undefined ex_admin ex_team "''w1''" "''o''"] h, of "''o''"] r
    by (auto simp: ex_admin_def RoleOwner_def RoleAdmin_def RoleMember_def)
qed

text \<open>
  C21. No orphaned workspace. Start from a database without workspaces and let any requests,
  sign-ins and deliveries happen one after the other, with any failures: every workspace has an
  owner.
\<close>

theorem workspaces_keep_an_owner:
  assumes "(ten_step sv)\<^sup>*\<^sup>* w0 w" "t_workspaces w0 = []" "t_members w0 = []" "k \<in> set (t_workspaces w)"
  shows "\<exists>m \<in> set (t_members w). mb_WorkspaceID m = ws_ID k \<and> mb_Role m = RoleOwner"
proof -
  have "owners_ok w0" using assms(2,3) by (simp add: owners_ok_def unique_keys_def)
  then have "owners_ok w" by (rule owners_run [OF assms(1)])
  then show ?thesis using assms(4) by (auto simp: owners_ok_def list_all_iff list_ex_iff is_owner_def)
qed

definition ex_empty_ten :: ten where
  "ex_empty_ten = ex_team\<lparr>t_workspaces := [], t_members := []\<rparr>"

theorem workspaces_keep_an_owner_witness:
  "\<exists>sv w k. (ten_step sv)\<^sup>*\<^sup>* ex_empty_ten w \<and> t_workspaces w = [k] \<and>
     (\<exists>m. m \<in> set (t_members w) \<and> mb_WorkspaceID m = ws_ID k \<and> mb_Role m = RoleOwner)"
proof -
  fix sv :: TenServer
  let ?w = "snd (handleCreateWorkspace sv (Some ex_admin) (JsonValue ''two'' []) ex_empty_ten)"
  have s: "(ten_step sv)\<^sup>*\<^sup>* ex_empty_ten ?w" using ten_step.create_workspace by blast
  have "\<exists>k. t_workspaces ?w = [k]"
    by (simp add: handleCreateWorkspace_def ten_eval ex_empty_ten_def ex_team_def ex_admin_def with_body_def decodeJSONBody_def at_eof_def
        with_name_def trim_space_def is_space_def between_def with_uuid_def new_id_def at_clock_def CreateWorkspace_def has_key_def Let_def)
  then obtain k where k: "t_workspaces ?w = [k]" by blast
  then have "\<exists>m \<in> set (t_members ?w). mb_WorkspaceID m = ws_ID k \<and> mb_Role m = RoleOwner"
    by (intro workspaces_keep_an_owner [OF s]) (simp_all add: ex_empty_ten_def)
  with s k show ?thesis by blast
qed

end
