(* ===== verification/TenAccess.thy ===== *)
theory TenAccess
  imports TenSessions TenOwners
begin

text \<open>
  API keys of \<open>services/tenancy/apikeys.go\<close> over whole runs: a key as it was handed out opens its
  workspace until it is revoked, and never afterwards.
\<close>

section \<open>Key rows last\<close>

definition later_key :: "APIKey \<Rightarrow> APIKey \<Rightarrow> bool" where
  "later_key k l \<longleftrightarrow> ak_ID l = ak_ID k \<and> ak_WorkspaceID l = ak_WorkspaceID k \<and> ak_SecretHash l = ak_SecretHash k \<and>
     (ak_RevokedAt k \<noteq> None \<longrightarrow> ak_RevokedAt l \<noteq> None)"

definition keys_last :: "ten \<Rightarrow> ten \<Rightarrow> bool" where
  "keys_last w w' \<longleftrightarrow> (\<forall>k \<in> set (t_apikeys w). \<exists>l \<in> set (t_apikeys w'). later_key k l) \<and>
     (unique_keys ak_ID (t_apikeys w) \<longrightarrow> unique_keys ak_ID (t_apikeys w'))"

lemma later_key_refl [simp]: "later_key k k"
  by (simp add: later_key_def)

lemma later_key_trans: "later_key k l \<Longrightarrow> later_key l m \<Longrightarrow> later_key k m"
  by (simp add: later_key_def)

lemma keys_last_same: "t_apikeys w' = t_apikeys w \<Longrightarrow> keys_last w w'"
  by (auto simp: keys_last_def intro: later_key_refl)

lemma keys_last_trans: "keys_last w w' \<Longrightarrow> keys_last w' w'' \<Longrightarrow> keys_last w w''"
  unfolding keys_last_def by (meson later_key_trans)

lemma keys_last_io:
  assumes "\<And>w. keys_last w (snd (f w))"
  shows "keeps keys_last (with_io f)"
proof (rule keepsI)
  fix w :: ten
  have n: "keys_last w s" if "next_io w = (x, s)" for x s
    using next_io_update [OF that] by (intro keys_last_same) simp
  show "keys_last w (snd (with_io f w))"
    by (cases rule: with_io_cases [of w f]) (use n assms in \<open>auto intro: keys_last_trans\<close>)
qed

lemma keys_last_update:
  assumes "t_apikeys w' = update_where P f (t_apikeys w)" "\<And>k. P k \<Longrightarrow> later_key k (f k)" "\<And>k. ak_ID (f k) = ak_ID k"
  shows "keys_last w w'"
proof -
  have "\<exists>l \<in> set (t_apikeys w'). later_key k l" if "k \<in> set (t_apikeys w)" for k
    using that assms(2) [of k] by (intro bexI [of _ "if P k then f k else k"]) (simp_all add: assms(1) update_where_def)
  then show ?thesis using assms(3) by (simp add: keys_last_def assms(1) unique_keys_update)
qed

lemma keys_writes:
  "keeps keys_last (CreateAPIKey ak)" "keeps keys_last (RevokeAPIKey wsid i now)" "keeps keys_last (TouchAPIKey i now)"
proof -
  show "keeps keys_last (CreateAPIKey ak)"
    unfolding CreateAPIKey_def
    by (rule keys_last_io) (auto simp: keys_last_def unique_keys_insert intro: later_key_refl)
  show "keeps keys_last (RevokeAPIKey wsid i now)"
    unfolding RevokeAPIKey_def Let_def
    by (rule keys_last_io, rule keys_last_update [where P = "\<lambda>k. ak_ID k = i \<and> ak_WorkspaceID k = wsid \<and> ak_RevokedAt k = None"
          and f = "\<lambda>k. k\<lparr>ak_RevokedAt := Some now\<rparr>"])
      (auto simp: later_key_def)
  show "keeps keys_last (TouchAPIKey i now)"
    unfolding TouchAPIKey_def
    by (rule keys_last_io, rule keys_last_update [where P = "\<lambda>k. ak_ID k = i" and f = "\<lambda>k. k\<lparr>ak_LastUsedAt := Some now\<rparr>"]) (auto simp: later_key_def)
qed

lemma keys_frame:
  "keeps keys_last (CreateWorkspace k owner)" "keeps keys_last (MarkRefreshTokenUsed i now)" "keeps keys_last (RevokeRefreshFamily fam now)"
  "keeps keys_last (CreateRefreshToken rt)" "keeps keys_last (AddMember m)" "keeps keys_last (UpdateMemberRole wsid user role)"
  "keeps keys_last (RemoveMember wsid user)" "keeps keys_last (ApplyMetering ev month d)"
  unfolding CreateWorkspace_def MarkRefreshTokenUsed_def RevokeRefreshFamily_def CreateRefreshToken_def AddMember_def UpdateMemberRole_def
    RemoveMember_def ApplyMetering_def Let_def
  by (rule keys_last_io, simp add: keys_last_same)+

interpretation keys: ten_frame keys_last
  by unfold_locales (auto intro: keys_last_same keys_writes keys_frame keys_last_trans)

lemma keys_step: "ten_step sv w w' \<Longrightarrow> keys_last w w'"
  by (rule keys.step_keeps) (intro keys.keeps_members keys.keeps_add_member keys.keeps_callback keys.keeps_refresh keys.keeps_metering
      keys.keeps_store_refresh keys_frame | assumption)+

lemma keys_run: "(ten_step sv)\<^sup>*\<^sup>* w w' \<Longrightarrow> keys_last w w'"
  by (induction rule: rtranclp_induct) (auto intro: keys_last_same keys_last_trans keys_step)

lemma keys_unique_run: "(ten_step sv)\<^sup>*\<^sup>* w w' \<Longrightarrow> unique_keys ak_ID (t_apikeys w) \<Longrightarrow> unique_keys ak_ID (t_apikeys w')"
  using keys_run unfolding keys_last_def by blast

section \<open>Handing out a key\<close>

text \<open>Identifiers as \<open>uuid.NewString\<close> makes them: not empty and without underscores.\<close>

definition uuids :: "ten \<Rightarrow> bool" where
  "uuids w \<longleftrightarrow> (\<forall>i \<in> set (id_supply w). i \<noteq> [] \<and> CHR ''_'' \<notin> set i)"

definition handed_out :: "crypto_lib \<Rightarrow> string \<Rightarrow> string \<Rightarrow> string \<Rightarrow> ten \<Rightarrow> bool" where
  "handed_out lib raw i wsid w \<longleftrightarrow> (\<exists>k \<in> set (t_apikeys w). \<exists>secret salt. ak_ID k = i \<and> ak_WorkspaceID k = wsid \<and>
     ak_SecretHash k = phc_string lib secret salt \<and> splitAPIKey raw = Some (i, secret) \<and> has_prefix apiKeyPrefix raw)"

lemma handed_out_last: "keys_last w w' \<Longrightarrow> handed_out lib raw i wsid w \<Longrightarrow> handed_out lib raw i wsid w'"
  unfolding keys_last_def handed_out_def later_key_def by metis

lemma uuids_stable: "stable uuids"
  by (simp add: stable_def uuids_def)

lemma mint_parts: "valid uuids mintAPIKey (\<lambda>r w. \<forall>i raw secret. r = Inr (i, raw, secret) \<longrightarrow>
    splitAPIKey raw = Some (i, secret) \<and> has_prefix apiKeyPrefix raw)"
proof -
  have "valid uuids new_id (\<lambda>r w. \<forall>i. r = Inr i \<longrightarrow> i \<noteq> [] \<and> CHR ''_'' \<notin> set i)"
    by (rule valid_new_id) (auto simp: uuids_def)
  moreover have "valid (\<lambda>w. \<forall>j. r = Inr j \<longrightarrow> j \<noteq> [] \<and> CHR ''_'' \<notin> set j) (case r of
      Inl e \<Rightarrow> ret (Inl e)
    | Inr i \<Rightarrow> and_then (newOpaqueToken 32) (\<lambda>r. case r of
        Inl e \<Rightarrow> ret (Inl e) | Inr secret \<Rightarrow> ret (Inr (i, apiKeyPrefix @ i @ ''_'' @ secret, secret))))
    (\<lambda>r w. \<forall>i raw secret. r = Inr (i, raw, secret) \<longrightarrow> splitAPIKey raw = Some (i, secret) \<and> has_prefix apiKeyPrefix raw)"
    for r :: "store_err + string"
  proof (cases r)
    case (Inr i)
    have "valid (\<lambda>w. i \<noteq> [] \<and> CHR ''_'' \<notin> set i) (newOpaqueToken 32)
        (\<lambda>r w. (i \<noteq> [] \<and> CHR ''_'' \<notin> set i) \<and> (\<forall>s. r = Inr s \<longrightarrow> s \<noteq> []))"
      by (rule validI) (use opaque_nonempty [of 32] in auto)
    then have "valid (\<lambda>w. i \<noteq> [] \<and> CHR ''_'' \<notin> set i) (and_then (newOpaqueToken 32) (\<lambda>r. case r of
        Inl e \<Rightarrow> ret (Inl e) | Inr secret \<Rightarrow> ret (Inr (i, apiKeyPrefix @ i @ ''_'' @ secret, secret))))
      (\<lambda>r w. \<forall>i raw secret. r = Inr (i, raw, secret) \<longrightarrow> splitAPIKey raw = Some (i, secret) \<and> has_prefix apiKeyPrefix raw)"
      by (rule valid_and_then, intro valid_sum_case valid_ret) (use split_minted in \<open>auto simp: has_prefix_def\<close>)
    then show ?thesis unfolding Inr sum.case by (rule valid_pre) simp
  qed (simp add: valid_def ret_def)
  ultimately show ?thesis unfolding mintAPIKey_def by (rule valid_and_then)
qed

lemma hash_form: "valid P (hashAPIKeySecret lib secret) (\<lambda>r w. \<forall>h. r = Inr h \<longrightarrow> (\<exists>salt. h = phc_string lib secret salt))"
  unfolding hashAPIKeySecret_def by (rule validI) (auto simp: and_then_def ret_def split: prod.splits sum.splits)

lemma create_stores: "valid P (CreateAPIKey k) (\<lambda>r w. r = Inr () \<longrightarrow> k\<lparr>ak_LastUsedAt := None, ak_RevokedAt := None\<rparr> \<in> set (t_apikeys w))"
proof (rule valid_pre [where P' = "\<lambda>_. True"])
  show "valid (\<lambda>_. True) (CreateAPIKey k) (\<lambda>r w. r = Inr () \<longrightarrow> k\<lparr>ak_LastUsedAt := None, ak_RevokedAt := None\<rparr> \<in> set (t_apikeys w))"
    unfolding CreateAPIKey_def
    by (rule valid_with_io [where R = "\<lambda>r w. r = Inr () \<longrightarrow> k\<lparr>ak_LastUsedAt := None, ak_RevokedAt := None\<rparr> \<in> set (t_apikeys w)"])
      (auto simp: valid_def)
qed simp

definition key_answer :: "crypto_lib \<Rightarrow> ten_resp \<Rightarrow> ten \<Rightarrow> bool" where
  "key_answer lib r w \<longleftrightarrow> (\<forall>raw view. snd r = TKeyCreated raw view \<longrightarrow> handed_out lib raw (kv_ID view) (kv_WorkspaceID view) w)"

lemma key_answer_err [simp]: "key_answer lib (terr c s m) w" "key_answer lib internalError w"
  by (simp_all add: key_answer_def internalError_def)

text \<open>The tail of the handler, from a key that splits into its id and a secret that matches its hash.\<close>

lemma create_tail:
  assumes "splitAPIKey raw = Some (i, secret)" "has_prefix apiKeyPrefix raw"
  shows "valid P (and_then (hashAPIKeySecret lib secret) (or_500 (\<lambda>hash. at_clock (\<lambda>now.
     let k = \<lparr>ak_ID = i, ak_WorkspaceID = wsid, ak_Name = name, ak_SecretHash = hash, ak_CreatedBy = user, ak_CreatedAt = now,
              ak_LastUsedAt = None, ak_RevokedAt = None\<rparr> in
     and_then (CreateAPIKey k) (or_500 (\<lambda>_. ret (201, TKeyCreated raw (viewAPIKey k)))))))) (key_answer lib)"
proof (rule valid_and_then [OF hash_form], rule valid_500, simp, rule valid_at_clock, unfold Let_def)
  fix r :: "store_err + string" and hash now
  assume r: "r = Inr hash"
  let ?k = "\<lparr>ak_ID = i, ak_WorkspaceID = wsid, ak_Name = name, ak_SecretHash = hash, ak_CreatedBy = user, ak_CreatedAt = now,
              ak_LastUsedAt = None, ak_RevokedAt = None\<rparr>"
  show "valid (\<lambda>w. \<forall>h. r = Inr h \<longrightarrow> (\<exists>salt. h = phc_string lib secret salt))
    (and_then (CreateAPIKey ?k) (or_500 (\<lambda>_. ret (201, TKeyCreated raw (viewAPIKey ?k))))) (key_answer lib)"
  proof (rule valid_assume)
    fix w :: ten assume "\<forall>h. r = Inr h \<longrightarrow> (\<exists>salt. h = phc_string lib secret salt)"
    then obtain salt where "hash = phc_string lib secret salt" using r by blast
    then have "key_answer lib (201, TKeyCreated raw (viewAPIKey ?k)) w" if "?k \<in> set (t_apikeys w)" for w
      using assms that unfolding key_answer_def handed_out_def viewAPIKey_def
      by (auto intro!: bexI [of _ ?k])
    then show "valid (\<lambda>w. \<forall>h. r = Inr h \<longrightarrow> (\<exists>salt. h = phc_string lib secret salt))
      (and_then (CreateAPIKey ?k) (or_500 (\<lambda>_. ret (201, TKeyCreated raw (viewAPIKey ?k))))) (key_answer lib)"
      by (intro valid_and_then [OF create_stores] valid_500 valid_ret) simp_all
  qed
qed

lemma create_hands_out: "valid uuids (handleCreateAPIKey sv ident body) (key_answer (ts_lib sv))"
proof -
  have m: "valid (\<lambda>w. \<forall>i raw secret. r = Inr (i, raw, secret) \<longrightarrow> splitAPIKey raw = Some (i, secret) \<and> has_prefix apiKeyPrefix raw)
      (or_500 (\<lambda>(i, raw, secret). k i raw secret) r) (key_answer (ts_lib sv))"
    if "\<And>i raw secret P. splitAPIKey raw = Some (i, secret) \<Longrightarrow> has_prefix apiKeyPrefix raw \<Longrightarrow> valid P (k i raw secret) (key_answer (ts_lib sv))"
    for k and r :: "store_err + string \<times> string \<times> string"
  proof (rule valid_500, simp, rule valid_assume)
    fix w :: ten and x
    assume "r = Inr x" "\<forall>i raw secret. r = Inr (i, raw, secret) \<longrightarrow> splitAPIKey raw = Some (i, secret) \<and> has_prefix apiKeyPrefix raw"
    then show "valid (\<lambda>w. \<forall>i raw secret. r = Inr (i, raw, secret) \<longrightarrow> splitAPIKey raw = Some (i, secret) \<and> has_prefix apiKeyPrefix raw)
        (case x of (i, raw, secret) \<Rightarrow> k i raw secret) (key_answer (ts_lib sv))"
      using that by (cases x) auto
  qed
  have n: "valid uuids (with_name v k) (key_answer (ts_lib sv))" if "\<And>name. valid uuids (k name) (key_answer (ts_lib sv))" for v k
    unfolding with_name_def Let_def by (rule valid_if, rule valid_ret, simp, rule that)
  show ?thesis
    unfolding handleCreateAPIKey_def
    by (rule valid_requireUser, simp, rule valid_requireRole [OF uuids_stable], simp, rule valid_pre [of uuids],
        rule valid_with_body, simp, rule n, rule valid_and_then [OF mint_parts], rule m, erule (1) create_tail, simp)
qed

section \<open>Checking a key\<close>

lemma verify_handed_out:
  assumes "argon_ok lib" "healthy w" "unique_keys ak_ID (t_apikeys w)" "handed_out lib raw i wsid w"
  obtains k where "k \<in> set (t_apikeys w)" "ak_ID k = i" "ak_WorkspaceID k = wsid"
    "fst (verifyAPIKeyString lib raw w) = (if ak_RevokedAt k = None then Inr k else Inl ErrNotFound)"
proof -
  from assms(4) obtain k secret salt where k: "k \<in> set (t_apikeys w)" "ak_ID k = i" "ak_WorkspaceID k = wsid"
    "ak_SecretHash k = phc_string lib secret salt" "splitAPIKey raw = Some (i, secret)"
    unfolding handed_out_def by blast
  have q: "query_row (\<lambda>k. ak_ID k = i) (t_apikeys w) = Inr k"
    using find_unique [OF assms(3) k(1), of "\<lambda>k. ak_ID k = i"] k(2) by (simp add: query_row_def)
  have "fst (verifyAPIKeyString lib raw w) = (if ak_RevokedAt k = None then Inr k else Inl ErrNotFound)"
    unfolding verifyAPIKeyString_def k(5) option.case prod.case GetAPIKey_def and_then_result with_io_healthy [OF assms(2)] fst_conv snd_conv q sum.case
    by (simp add: k(4) verify_phc [OF assms(1)] ret_def and_then_result)
  then show thesis by (rule that [OF k(1-3)])
qed

text \<open>A key id whose row is revoked opens nothing, with whatever secret.\<close>

definition revoked_key :: "string \<Rightarrow> ten \<Rightarrow> bool" where
  "revoked_key i w \<longleftrightarrow> (\<exists>k \<in> set (t_apikeys w). ak_ID k = i \<and> ak_RevokedAt k \<noteq> None)"

lemma revoked_key_last: "keys_last w w' \<Longrightarrow> revoked_key i w \<Longrightarrow> revoked_key i w'"
  unfolding keys_last_def revoked_key_def later_key_def by metis

lemma verify_revoked:
  assumes "unique_keys ak_ID (t_apikeys w)" "revoked_key i w" "splitAPIKey raw = Some (i, secret)"
  shows "\<exists>e. fst (verifyAPIKeyString lib raw w) = Inl e"
proof -
  obtain k where k: "k \<in> set (t_apikeys w)" "ak_ID k = i" "ak_RevokedAt k \<noteq> None" using assms(2) unfolding revoked_key_def by blast
  have q: "query_row (\<lambda>k. ak_ID k = i) (t_apikeys w) = Inr k"
    using find_unique [OF assms(1) k(1), of "\<lambda>k. ak_ID k = i"] k(2) by (simp add: query_row_def)
  let ?P = "\<lambda>v :: ten. t_apikeys v = t_apikeys w"
  have "valid ?P (GetAPIKey i) (\<lambda>r v. r = Inl ErrIO \<or> r = Inr k)"
    unfolding GetAPIKey_def
    by (rule valid_weaken [OF valid_query [where P = ?P]]) (use q in \<open>auto simp: stable_def\<close>)
  then have "fst (GetAPIKey i w) = Inl ErrIO \<or> fst (GetAPIKey i w) = Inr k" using validD_snd by fastforce
  then show ?thesis
    using k(3) unfolding verifyAPIKeyString_def assms(3) option.case prod.case and_then_result by (auto simp: ret_def)
qed

lemma revoke_row: "valid (\<lambda>_. True) (RevokeAPIKey wsid i now) (\<lambda>r w. r = Inr () \<longrightarrow> revoked_key i w)"
  unfolding RevokeAPIKey_def Let_def
proof (rule valid_with_io [where R = "\<lambda>r w. r = Inr () \<longrightarrow> revoked_key i w"], rule validI, rule impI)
  fix w :: ten and r :: "store_err + unit" and w'
  let ?P = "\<lambda>k. ak_ID k = i \<and> ak_WorkspaceID k = wsid \<and> ak_RevokedAt k = None"
  assume "(affected ?P (t_apikeys w), w\<lparr>t_apikeys := update_where ?P (\<lambda>k. k\<lparr>ak_RevokedAt := Some now\<rparr>) (t_apikeys w)\<rparr>) = (r, w')" "r = Inr ()"
  then obtain k where k: "k \<in> set (t_apikeys w)" "?P k" "t_apikeys w' = update_where ?P (\<lambda>k. k\<lparr>ak_RevokedAt := Some now\<rparr>) (t_apikeys w)"
    by (auto simp: affected_def rows_affected_def filter_empty_conv split: if_splits)
  then have "k\<lparr>ak_RevokedAt := Some now\<rparr> \<in> set (t_apikeys w')" by (simp add: set_update_where)
  then show "revoked_key i w'" unfolding revoked_key_def using k(2) by (intro bexI [of _ "k\<lparr>ak_RevokedAt := Some now\<rparr>"]) simp_all
qed simp_all

lemma revoke_marks: "valid (\<lambda>_. True) (handleRevokeAPIKey ident i) (\<lambda>r w. snd r = TNoContent \<longrightarrow> revoked_key i w)"
proof -
  have s: "stable (\<lambda>_. True)" by (simp add: stable_def)
  have c: "valid (\<lambda>_. True) (at_clock (RevokeAPIKey wsid i)) (\<lambda>r w. r = Inr () \<longrightarrow> revoked_key i w)" for wsid
    by (rule valid_at_clock) (rule revoke_row)
  show ?thesis
    unfolding handleRevokeAPIKey_def
    by (rule valid_requireUser, simp, rule valid_requireRole [OF s], simp, rule valid_if, rule valid_ret, simp,
        rule valid_pre [OF valid_and_then [OF c]], rule valid_missing, simp add: internalError_def, simp, rule valid_ret, simp, rule TrueI)
qed

section \<open>The life of a key\<close>

lemma prefixed_nonempty: "has_prefix apiKeyPrefix raw \<Longrightarrow> raw \<noteq> []"
  by (auto simp: has_prefix_def apiKeyPrefix_def)

lemma auth_by_key:
  assumes "bearer_or_key authorization xkey = raw" "has_prefix apiKeyPrefix raw"
  shows "fst (authMiddleware sv authorization xkey w) = (case fst (verifyAPIKeyString (ts_lib sv) raw w) of
      Inl e \<Rightarrow> Inl (if e = ErrNotFound then terr 401 ''unauthorized'' ''invalid api key'' else internalError)
    | Inr key \<Rightarrow> Inr \<lparr>tn_UserID = apiKeyUserPrefix @ ak_ID key, tn_WorkspaceID = ak_WorkspaceID key\<rparr>)"
  using prefixed_nonempty [OF assms(2)] assms(2) unfolding authMiddleware_def assms(1) Let_def
  by (simp add: and_then_result ret_def split: sum.splits)

text \<open>
  C26. An API key opens its workspace from the moment it is handed out until it is revoked, and
  never afterwards. Let a key be created, in any run, by a server whose argon2 returns digests of
  the requested length and whose identifiers are UUIDs. Presented as a bearer token or in its
  header, at any later time at which the database answers, exactly the key as it was shown to the
  user authenticates as itself for the workspace it was created in, as long as its row is not
  revoked; and once a request to revoke it has been answered with success, no request presenting
  its id is authenticated any more, with whatever secret and whatever fails.
\<close>

theorem api_key_life:
  assumes lib: "argon_ok (ts_lib sv)" and start: "t_apikeys w0 = []" "(ten_step sv)\<^sup>*\<^sup>* w0 w"
    and create: "uuids w" "handleCreateAPIKey sv ident body w = ((201, TKeyCreated raw view), w1)"
    and run: "(ten_step sv)\<^sup>*\<^sup>* w1 w2"
  shows "(healthy w2 \<longrightarrow> bearer_or_key authorization xkey = raw \<longrightarrow>
      (\<exists>k \<in> set (t_apikeys w2). ak_ID k = kv_ID view \<and>
        fst (authMiddleware sv authorization xkey w2) =
          (if ak_RevokedAt k = None then Inr \<lparr>tn_UserID = apiKeyUserPrefix @ kv_ID view, tn_WorkspaceID = kv_WorkspaceID view\<rparr>
           else Inl (terr 401 ''unauthorized'' ''invalid api key'')))) \<and>
    (\<forall>ident' w3 w4 raw' secret'. handleRevokeAPIKey ident' (kv_ID view) w2 = ((204, TNoContent), w3) \<longrightarrow> (ten_step sv)\<^sup>*\<^sup>* w3 w4 \<longrightarrow>
      bearer_or_key authorization xkey = raw' \<longrightarrow> splitAPIKey raw' = Some (kv_ID view, secret') \<longrightarrow>
      fst (authMiddleware sv authorization xkey w4) \<in> {Inl (terr 401 ''unauthorized'' ''invalid api key''), Inl internalError})"
proof (intro conjI impI allI)
  let ?lib = "ts_lib sv" and ?i = "kv_ID view"
  have u: "unique_keys ak_ID (t_apikeys w)" using keys_unique_run [OF start(2)] start(1) by (simp add: unique_keys_def)
  have c: "keys_last w w1" using keys_step [OF ten_step.create_key, of w sv ident body] create(2) by simp
  then have u2: "unique_keys ak_ID (t_apikeys w2)" using keys_unique_run [OF run] u by (simp add: keys_last_def)
  have "handed_out ?lib raw ?i (kv_WorkspaceID view) w1"
    using validD [OF create_hands_out create] by (simp add: key_answer_def)
  then have out: "handed_out ?lib raw ?i (kv_WorkspaceID view) w2" by (rule handed_out_last [OF keys_run [OF run]])
  then have p: "has_prefix apiKeyPrefix raw" unfolding handed_out_def by blast
  {
    assume h: "healthy w2" and key: "bearer_or_key authorization xkey = raw"
    obtain k where k: "k \<in> set (t_apikeys w2)" "ak_ID k = ?i" "ak_WorkspaceID k = kv_WorkspaceID view"
      "fst (verifyAPIKeyString ?lib raw w2) = (if ak_RevokedAt k = None then Inr k else Inl ErrNotFound)"
      by (rule verify_handed_out [OF lib h u2 out])
    show "\<exists>k \<in> set (t_apikeys w2). ak_ID k = ?i \<and> fst (authMiddleware sv authorization xkey w2) =
        (if ak_RevokedAt k = None then Inr \<lparr>tn_UserID = apiKeyUserPrefix @ ?i, tn_WorkspaceID = kv_WorkspaceID view\<rparr>
         else Inl (terr 401 ''unauthorized'' ''invalid api key''))"
      by (rule bexI [OF _ k(1)]) (simp add: auth_by_key [OF key p] k(2-4))
  next
    fix ident' w3 w4 raw' secret'
    assume revoke: "handleRevokeAPIKey ident' ?i w2 = ((204, TNoContent), w3)" and later: "(ten_step sv)\<^sup>*\<^sup>* w3 w4"
      and key: "bearer_or_key authorization xkey = raw'" and split: "splitAPIKey raw' = Some (?i, secret')"
    have "revoked_key ?i w3" using validD [OF revoke_marks TrueI revoke] by simp
    then have dead: "revoked_key ?i w4" by (rule revoked_key_last [OF keys_run [OF later]])
    have "keys_last w2 w3" using keys_step [OF ten_step.revoke_key, of w2 ident' ?i] revoke by simp
    then have "unique_keys ak_ID (t_apikeys w4)" using keys_unique_run [OF later] u2 by (simp add: keys_last_def)
    then obtain e where "fst (verifyAPIKeyString ?lib raw' w4) = Inl e" using verify_revoked [OF _ dead split] by blast
    moreover have "has_prefix apiKeyPrefix raw'" using split by (auto simp: splitAPIKey_def split: if_splits)
    ultimately show "fst (authMiddleware sv authorization xkey w4) \<in> {Inl (terr 401 ''unauthorized'' ''invalid api key''), Inl internalError}"
      by (simp add: auth_by_key [OF key])
  }
qed

definition ex_owner :: TenIdentity where
  "ex_owner = \<lparr>tn_UserID = ''o'', tn_WorkspaceID = ''w1''\<rparr>"

definition ex_key_team :: ten where
  "ex_key_team = \<lparr>io_script = [], id_supply = [''k1''], clock = 5,
     t_users = [\<lparr>us_ID = ''o'', us_GoogleSub = ''o'', us_Email = ''o'', us_Name = ''o'', us_ActiveWorkspaceID = ''w1'',
       us_CreatedAt = 1, us_LastLoginAt = 1\<rparr>],
     t_workspaces = [\<lparr>ws_ID = ''w1'', ws_Name = ''one'', ws_PlanTier = ''free'', ws_CreatedBy = ''o'', ws_CreatedAt = 1\<rparr>],
     t_members = [\<lparr>mb_WorkspaceID = ''w1'', mb_UserID = ''o'', mb_Role = RoleOwner, mb_CreatedAt = 1\<rparr>],
     t_refresh = [], t_logins = [], t_apikeys = [], t_metered = [], t_rollups = [], entropy = replicate 48 CHR ''k''\<rparr>"

definition ex_key_made :: "ten_resp \<times> ten" where
  "ex_key_made = handleCreateAPIKey ex_ten_server (Some ex_owner) (JsonValue ''ci'' []) ex_key_team"

definition ex_key :: string where
  "ex_key = apiKeyPrefix @ ''k1'' @ ''_'' @ EncodeToString url_alphabet (replicate 32 CHR ''k'')"

lemma ex_argon: "argon_ok (ts_lib ex_ten_server)"
  by (auto simp: argon_ok_def ex_ten_server_def ex_lib_def argonKeyLen_def in_i64_def min_def)

definition ex_key_row :: APIKey where
  "ex_key_row = \<lparr>ak_ID = ''k1'', ak_WorkspaceID = ''w1'', ak_Name = ''ci'',
     ak_SecretHash = phc_string ex_lib (EncodeToString url_alphabet (replicate 32 CHR ''k'')) (replicate 16 CHR ''k''),
     ak_CreatedBy = ''o'', ak_CreatedAt = 5, ak_LastUsedAt = None, ak_RevokedAt = None\<rparr>"

lemma ex_key_made_eq:
  "ex_key_made = ((201, TKeyCreated ex_key (viewAPIKey ex_key_row)),
     ex_key_team\<lparr>id_supply := [], entropy := [], t_apikeys := [ex_key_row]\<rparr>)"
  by (simp add: ex_key_made_def handleCreateAPIKey_def ten_eval ex_key_team_def ex_owner_def roleRank_def with_body_def decodeJSONBody_def
      at_eof_def with_name_def trim_space_def is_space_def between_def mintAPIKey_def new_id_def newOpaqueToken_def rand_Read_def
      hashAPIKeySecret_def argonSaltLen_def at_clock_def CreateAPIKey_def has_key_def ex_key_row_def ex_key_def ex_ten_server_def Let_def)

theorem api_key_life_witness:
  "fst (authMiddleware ex_ten_server [] ex_key (snd ex_key_made)) = Inr \<lparr>tn_UserID = ''apikey:k1'', tn_WorkspaceID = ''w1''\<rparr> \<and>
   fst (authMiddleware ex_ten_server [] ex_key (snd (handleRevokeAPIKey (Some ex_owner) ''k1'' (snd ex_key_made))))
     \<in> {Inl (terr 401 ''unauthorized'' ''invalid api key''), Inl internalError}"
proof -
  let ?w1 = "snd ex_key_made" and ?view = "viewAPIKey ex_key_row"
  have start: "t_apikeys ex_key_team = []" "uuids ex_key_team" by (simp_all add: ex_key_team_def uuids_def)
  have made: "handleCreateAPIKey ex_ten_server (Some ex_owner) (JsonValue ''ci'' []) ex_key_team = ((201, TKeyCreated ex_key ?view), ?w1)"
    using ex_key_made_eq unfolding ex_key_made_def by simp
  have v: "kv_ID ?view = ''k1''" "kv_WorkspaceID ?view = ''w1''" by (simp_all add: viewAPIKey_def ex_key_row_def)
  have h: "healthy ?w1" "t_apikeys ?w1 = [ex_key_row]" by (simp_all add: healthy_def ex_key_made_eq ex_key_team_def)
  have key: "bearer_or_key [] ex_key = ex_key" by (simp add: bearer_or_key_def has_prefix_def)
  have "EncodeToString url_alphabet (replicate 32 CHR ''k'') \<noteq> []" by code_simp
  then have split: "\<exists>s. splitAPIKey ex_key = Some (''k1'', s)"
    unfolding ex_key_def by (rule_tac exI, rule_tac split_minted) simp_all
  have rev: "handleRevokeAPIKey (Some ex_owner) ''k1'' ?w1 = ((204, TNoContent), snd (handleRevokeAPIKey (Some ex_owner) ''k1'' ?w1))"
    by (simp add: ex_key_made_eq handleRevokeAPIKey_def ten_eval ex_key_team_def ex_owner_def roleRank_def at_clock_def RevokeAPIKey_def
        ex_key_row_def affected_def rows_affected_def Let_def)
  note life = api_key_life [OF ex_argon start(1) rtranclp.rtrancl_refl start(2) made rtranclp.rtrancl_refl, of "[]" ex_key]
  have "fst (authMiddleware ex_ten_server [] ex_key ?w1) = Inr \<lparr>tn_UserID = ''apikey:k1'', tn_WorkspaceID = ''w1''\<rparr>"
    using life [THEN conjunct1, rule_format, OF h(1) key] unfolding v h(2) by (simp add: ex_key_row_def apiKeyUserPrefix_def)
  moreover have "fst (authMiddleware ex_ten_server [] ex_key (snd (handleRevokeAPIKey (Some ex_owner) ''k1'' ?w1)))
     \<in> {Inl (terr 401 ''unauthorized'' ''invalid api key''), Inl internalError}"
    using split by (elim exE) (rule life [THEN conjunct2, rule_format, unfolded v, OF rev rtranclp.rtrancl_refl key])
  ultimately show ?thesis ..
qed

end
