(* ===== verification/TenUsage.thy ===== *)
theory TenUsage
  imports TenSessions
begin

text \<open>
  Usage over whole runs of the tenancy service: the rollups are the recorded events summed up, and
  the metered quota checks decide by them.
\<close>

section \<open>The rollups\<close>

lemma usage_frame:
  "keeps (kept metering_inv) (CreateWorkspace k owner)" "keeps (kept metering_inv) (CreateAPIKey ak)"
  "keeps (kept metering_inv) (RevokeAPIKey wsid i now)" "keeps (kept metering_inv) (TouchAPIKey i now)"
  "keeps (kept metering_inv) (MarkRefreshTokenUsed i now)" "keeps (kept metering_inv) (RevokeRefreshFamily fam now)"
  "keeps (kept metering_inv) (CreateRefreshToken rt)" "keeps (kept metering_inv) (AddMember m)"
  "keeps (kept metering_inv) (UpdateMemberRole wsid user role)" "keeps (kept metering_inv) (RemoveMember wsid user)"
  unfolding CreateWorkspace_def CreateAPIKey_def RevokeAPIKey_def TouchAPIKey_def MarkRefreshTokenUsed_def RevokeRefreshFamily_def
    CreateRefreshToken_def AddMember_def UpdateMemberRole_def RemoveMember_def Let_def
  by (rule keeps_kept_io; simp add: metering_inv_def)+

interpretation usage: ten_frame "kept metering_inv"
  by unfold_locales (simp_all add: kept_def metering_inv_def usage_frame)

lemma usage_step: "ten_step sv w w' \<Longrightarrow> metering_inv w \<Longrightarrow> metering_inv w'"
proof -
  assume "ten_step sv w w'" "metering_inv w"
  moreover have a: "keeps (kept metering_inv) (ApplyMetering ev (ur_Month d) d)" if "rollupDelta ev = Inr d" for ev d
    using ApplyMetering_inv [OF that] by (simp add: keeps_def kept_def)
  ultimately have "kept metering_inv w w'"
    by (intro usage.step_keeps usage.keeps_members usage.keeps_add_member usage.keeps_callback usage.keeps_refresh usage.keeps_metering
        usage.keeps_store_refresh usage_frame a)
  with \<open>metering_inv w\<close> show ?thesis by (simp add: kept_def)
qed

lemma usage_run: "(ten_step sv)\<^sup>*\<^sup>* w w' \<Longrightarrow> metering_inv w \<Longrightarrow> metering_inv w'"
  by (induction rule: rtranclp_induct) (auto intro: usage_step)

lemma usage_start: "t_metered w = [] \<Longrightarrow> t_rollups w = [] \<Longrightarrow> metering_inv w"
  by (simp add: metering_inv_def unique_keys_def has_key_def)

lemma find_rollup:
  assumes "metering_inv w"
  shows "(case List.find (\<lambda>r. ur_WorkspaceID r = wsid \<and> ur_Month r = month) (t_rollups w) of
      None \<Rightarrow> zero_rollup\<lparr>ur_WorkspaceID := wsid, ur_Month := month\<rparr> | Some r \<Rightarrow> r\<lparr>ur_UpdatedAt := 0\<rparr>)
    = usage_of wsid month (t_metered w)"
proof (cases "List.find (\<lambda>r. ur_WorkspaceID r = wsid \<and> ur_Month r = month) (t_rollups w)")
  case None
  then have "\<not> has_key rollup_key (wsid, month) (t_rollups w)" by (auto simp: find_None_all has_key_def rollup_key_def)
  then have "\<not> (\<exists>e \<in> set (t_metered w). billed_to wsid month e)" using assms by (simp add: metering_inv_def)
  with None show ?thesis by (simp add: usage_none)
next
  case (Some r)
  then show ?thesis using assms find_mem [OF Some] by (auto simp: metering_inv_def list_all_iff row_exact_def)
qed

text \<open>
  C24. Usage is exactly what was recorded. Start with empty metering tables and let any deliveries,
  redeliveries, requests and failures happen. Every event id is counted at most once, and the row
  of every workspace and month (absent: all zero) holds the sums over the recorded events of that
  workspace and month: bytes landed, seconds encoded, and the number of events of each kind.
\<close>

theorem rollups_are_exact:
  assumes "t_metered w0 = []" "t_rollups w0 = []" "(ten_step sv)\<^sup>*\<^sup>* w0 w"
  shows "distinct (map me_EventID (t_metered w)) \<and>
    (\<forall>wsid month. (case List.find (\<lambda>r. ur_WorkspaceID r = wsid \<and> ur_Month r = month) (t_rollups w) of
        None \<Rightarrow> zero_rollup\<lparr>ur_WorkspaceID := wsid, ur_Month := month\<rparr> | Some r \<Rightarrow> r\<lparr>ur_UpdatedAt := 0\<rparr>)
      = usage_of wsid month (t_metered w))"
proof -
  have inv: "metering_inv w" by (rule usage_run [OF assms(3) usage_start [OF assms(1,2)]])
  then show ?thesis using find_rollup [OF inv] by (simp add: metering_inv_def unique_keys_def)
qed

theorem rollups_are_exact_witness:
  "ur_BytesUploaded (case List.find (\<lambda>r. ur_WorkspaceID r = ''w1'' \<and> ur_Month r = monthOf 1)
       (t_rollups (snd (metering_handle (Some ex_metering) (snd (metering_handle (Some ex_metering) ex_no_usage))))) of
     None \<Rightarrow> zero_rollup | Some r \<Rightarrow> r) = 7"
proof -
  let ?w = "snd (metering_handle (Some ex_metering) (snd (metering_handle (Some ex_metering) ex_no_usage)))"
  let ?f = "List.find (\<lambda>r. ur_WorkspaceID r = ''w1'' \<and> ur_Month r = monthOf 1) (t_rollups ?w)"
  have "(ten_step ex_ten_server)\<^sup>*\<^sup>* ex_no_usage (snd (metering_handle (Some ex_metering) ex_no_usage))"
    by (rule r_into_rtranclp, rule ten_step.metering)
  then have run: "(ten_step ex_ten_server)\<^sup>*\<^sup>* ex_no_usage ?w" by (rule rtranclp.rtrancl_into_rtrancl) (rule ten_step.metering)
  have start: "t_metered ex_no_usage = []" "t_rollups ex_no_usage = []" by (simp_all add: ex_no_usage_def)
  have rec: "t_metered ?w = [ex_metering]"
    by (simp add: metering_handle_def consumeMeteringPayload_def and_then_def ret_def ApplyMetering_def with_io_def next_io_def Let_def
        rollupDelta_def ex_metering_def ex_no_usage_def zero_rollup_def upsert_rollup_def has_key_def bigints_ok_def in_i64_def)
  have "(case ?f of None \<Rightarrow> zero_rollup\<lparr>ur_WorkspaceID := ''w1'', ur_Month := monthOf 1\<rparr> | Some r \<Rightarrow> r\<lparr>ur_UpdatedAt := 0\<rparr>)
      = usage_of ''w1'' (monthOf 1) [ex_metering]"
    using rollups_are_exact [OF start run] unfolding rec by blast
  moreover have "ur_BytesUploaded (usage_of ''w1'' (monthOf 1) [ex_metering]) = 7"
    by (simp add: usage_of_def billed_to_def of_kind_def event_bytes_def ex_metering_def)
  ultimately have "ur_BytesUploaded (case ?f of None \<Rightarrow> zero_rollup\<lparr>ur_WorkspaceID := ''w1'', ur_Month := monthOf 1\<rparr>
      | Some r \<Rightarrow> r\<lparr>ur_UpdatedAt := 0\<rparr>) = 7" by simp
  then show ?thesis by (simp split: option.splits)
qed

section \<open>Admission\<close>

text \<open>
  C25. Metered admission is exact. In every run, whenever the database answers and the byte sums
  fit an \<open>int64\<close>: an upload session is admitted exactly when the workspace exists, its tier is
  configured and allows uploads, the size is within the tier's upload limit, and the bytes of all
  uploads recorded for the workspace plus this one stay within the tier's storage; a job is
  admitted exactly when the tier allows jobs and the seconds encoded this month are below the
  tier's hours. A limit of zero means no limit.
\<close>

theorem metered_admission_exact:
  assumes "t_metered w0 = []" "t_rollups w0 = []" "(ten_step sv)\<^sup>*\<^sup>* w0 w"
    and "healthy w" "tiers_validate tiers = None" "wsid \<noteq> []" "0 \<le> n"
    and "in_i64 (landed_bytes wsid (t_metered w))" "in_i64 (landed_bytes wsid (t_metered w) + n)"
  shows "(fst (Metered_CheckUploadSession tiers wsid n w) = Inr allow \<longleftrightarrow>
      (\<exists>k t. List.find (\<lambda>k. ws_ID k = wsid) (t_workspaces w) = Some k \<and> Lookup tiers (ws_PlanTier k) = Some t \<and>
         ti_AllowUploads t \<and> (ti_MaxUploadBytes t = 0 \<or> n \<le> ti_MaxUploadBytes t) \<and>
         (ti_StorageBytes t = 0 \<or> landed_bytes wsid (t_metered w) + n \<le> ti_StorageBytes t))) \<and>
    (fst (Metered_CheckJobAdmission tiers wsid w) = Inr allow \<longleftrightarrow>
      (\<exists>k t. List.find (\<lambda>k. ws_ID k = wsid) (t_workspaces w) = Some k \<and> Lookup tiers (ws_PlanTier k) = Some t \<and> ti_AllowJobs t \<and>
         (ti_EncodeHoursPerMonth t = 0 \<or>
          encoded_seconds wsid (monthOf (clock w)) (t_metered w) < ti_EncodeHoursPerMonth t * 3600)))"
proof -
  have inv: "metering_inv w" by (rule usage_run [OF assms(3) usage_start [OF assms(1,2)]])
  show ?thesis
    using upload_check_eq [OF assms(4) inv assms(6,7,5,9,8)] job_check_eq [OF assms(4) inv assms(6,5)] by (rule conjI)
qed

definition ex_tier :: Tier where
  "ex_tier = \<lparr>ti_EncodeHoursPerMonth = 1, ti_StorageBytes = 10, ti_MaxUploadBytes = 0, ti_AllowUploads = True, ti_AllowJobs = True\<rparr>"

definition ex_tiers :: TierConfig where
  "ex_tiers = \<lparr>tg_DefaultTier = ''free'', tg_Tiers = [(''free'', ex_tier)]\<rparr>"

definition ex_no_usage_team :: ten where
  "ex_no_usage_team = ex_no_usage\<lparr>t_workspaces := [\<lparr>ws_ID = ''w1'', ws_Name = ''one'', ws_PlanTier = ''free'', ws_CreatedBy = ''o'', ws_CreatedAt = 1\<rparr>]\<rparr>"

definition ex_used :: ten where
  "ex_used = snd (metering_handle (Some ex_metering) ex_no_usage_team)"

lemma ex_used_tables: "t_metered ex_used = [ex_metering]" "t_workspaces ex_used = t_workspaces ex_no_usage_team" "healthy ex_used"
  by (simp_all add: ex_used_def ex_no_usage_team_def metering_handle_def consumeMeteringPayload_def and_then_def ret_def ApplyMetering_def
      with_io_def next_io_def Let_def healthy_def
      rollupDelta_def ex_metering_def ex_no_usage_def zero_rollup_def upsert_rollup_def has_key_def bigints_ok_def in_i64_def)

lemma ex_used_bytes: "landed_bytes ''w1'' [ex_metering] = 7"
  by (simp add: landed_bytes_def of_kind_def ex_metering_def event_bytes_def)

theorem metered_admission_exact_witness:
  "fst (Metered_CheckUploadSession ex_tiers ''w1'' 3 ex_used) = Inr allow \<and>
   fst (Metered_CheckUploadSession ex_tiers ''w1'' 4 ex_used) \<noteq> Inr allow"
proof -
  have run: "(ten_step ex_ten_server)\<^sup>*\<^sup>* ex_no_usage_team ex_used"
    unfolding ex_used_def by (rule r_into_rtranclp, rule ten_step.metering)
  have start: "t_metered ex_no_usage_team = []" "t_rollups ex_no_usage_team = []" by (simp_all add: ex_no_usage_team_def ex_no_usage_def)
  have tiers: "tiers_validate ex_tiers = None" "Lookup ex_tiers ''free'' = Some ex_tier"
    by (simp_all add: tiers_validate_def ex_tiers_def ex_tier_def Lookup_def)
  have ok: "in_i64 (landed_bytes ''w1'' (t_metered ex_used))" "in_i64 (landed_bytes ''w1'' (t_metered ex_used) + 3)"
    "in_i64 (landed_bytes ''w1'' (t_metered ex_used) + 4)" by (simp_all add: ex_used_tables ex_used_bytes in_i64_def)
  have ne: "''w1'' \<noteq> ([] :: string)" "(0 :: int) \<le> 3" "(0 :: int) \<le> 4" by simp_all
  note at = metered_admission_exact [OF start run ex_used_tables(3) tiers(1) ne(1), THEN conjunct1]
  show ?thesis
    unfolding at [OF ne(2) ok(1,2)] at [OF ne(3) ok(1,3)]
    using tiers(2) by (simp add: ex_used_tables ex_used_bytes ex_no_usage_team_def ex_tier_def)
qed

text \<open>
  The sum of the check wraps: with 7 of 10 bytes in use, the largest size hint there is passes.
\<close>

lemma largest_hint_is_admitted:
  "fst (Metered_CheckUploadSession ex_tiers ''w1'' (2 ^ 63 - 1) ex_used) = Inr allow"
proof -
  have inv: "metering_inv ex_used"
    unfolding ex_used_def by (rule metering_handle_inv, rule usage_start) (simp_all add: ex_no_usage_team_def ex_no_usage_def)
  have sum: "SumStorageBytes ''w1'' ex_used = (Inr 7, ex_used)"
    using ex_used_tables(3) storage_is_landed_bytes [OF inv, of "''w1''"]
    by (simp add: SumStorageBytes_def with_io_healthy ex_used_tables ex_used_bytes in_i64_def)
  have tier: "resolveTier ex_tiers ''w1'' ex_used = (Inr (Inr ex_tier), ex_used)"
    using ex_used_tables(3) by (simp add: resolve_eq ex_used_tables(2) ex_no_usage_team_def ex_tiers_def Lookup_def)
  have "add64 7 (2 ^ 63 - 1) = - (2 ^ 63) + 6" by (simp add: add64_def wrap64_def)
  then show ?thesis
    by (simp add: Metered_CheckUploadSession_def and_then_result tier sum ret_def ex_tier_def)
qed

end
