(* ===== verification/TenRaces.thy ===== *)
theory TenRaces
  imports TenAccess TenUsage
begin

text \<open>
  Two requests at once. The guarantees about owners and sessions hold for handlers that run one
  after the other; the store's statements are atomic, the handlers are not. Here two handlers
  interleave at their store calls and the guarantee is lost. The last section is about a user who
  was removed from the workspace a sign-in would open.
\<close>

definition ex_two_owners :: ten where
  "ex_two_owners = ex_team\<lparr>t_members := map (\<lambda>u. \<lparr>mb_WorkspaceID = ''w1'', mb_UserID = u, mb_Role = RoleOwner, mb_CreatedAt = 1\<rparr>) [''o'', ''a'']\<rparr>"

text \<open>
  Both owners leave. Each handler counts the owners (two), so each passes \<open>unless_last_owner\<close>;
  then each removes its own row.
\<close>

lemma last_owner_check_races:
  "fst (CountOwners ''w1'' ex_two_owners) = Inr 2 \<and> snd (CountOwners ''w1'' ex_two_owners) = ex_two_owners \<and>
   owners_ok ex_two_owners \<and>
   \<not> owners_ok (snd (RemoveMember ''w1'' ''a'' (snd (RemoveMember ''w1'' ''o'' ex_two_owners))))"
  by (simp add: CountOwners_def RemoveMember_def with_io_def next_io_def ex_two_owners_def ex_team_def rows_affected_def is_owner_def
      owners_ok_def unique_keys_def member_key_def delete_where_def member_at_def)

text \<open>
  A rotation has marked its token used; a logout of the same session revokes the family; the
  rotation goes on, and the session has a live token again.
\<close>

definition ex_rotating :: ten where
  "ex_rotating = snd (MarkRefreshTokenUsed ''t1'' 5 ex_session)"

definition ex_logged_out :: "ten_resp \<times> ten" where
  "ex_logged_out = handleLogout ex_ten_server None ex_refresh_token ex_rotating"

lemma rotation_races_logout:
  "fst ex_logged_out = (204, TNoContent) \<and> map rt_RevokedAt (t_refresh (snd ex_logged_out)) = [Some 5] \<and>
   map (\<lambda>t. (rt_FamilyID t, rt_RevokedAt t)) (t_refresh (snd (and_then (GetUser ''u'') (or_500 (\<lambda>user.
       open_user_session ex_ten_server user ''f'' 5)) (snd ex_logged_out)))) = [(''f'', Some 5), (''f'', None)]"
  by code_simp

section \<open>A removed member cannot sign in\<close>

text \<open>
  Removing a member leaves the \<open>active_workspace_id\<close> of the user as it is, and a sign-in insists on
  a membership of the active workspace.
\<close>

definition orphaned :: "string \<Rightarrow> User \<Rightarrow> ten \<Rightarrow> bool" where
  "orphaned sub u w \<longleftrightarrow> List.find (\<lambda>u. us_GoogleSub u = sub) (t_users w) = Some u \<and> us_ActiveWorkspaceID u \<noteq> [] \<and>
     List.find (member_at (us_ActiveWorkspaceID u) (us_ID u)) (t_members w) = None"

definition expelled :: "string \<Rightarrow> string \<Rightarrow> ten \<Rightarrow> bool" where
  "expelled wsid user w \<longleftrightarrow> List.find (member_at wsid user) (t_members w) = None"

lemma expelled_stable: "stable (expelled wsid user)"
  by (simp add: stable_def expelled_def)

lemma orphaned_upsert:
  "valid (orphaned sub u) (UpsertUserByGoogleSub sub email name now)
     (\<lambda>r w. expelled (us_ActiveWorkspaceID u) (us_ID u) w \<and>
        (\<forall>v. r = Inr v \<longrightarrow> us_ActiveWorkspaceID v = us_ActiveWorkspaceID u \<and> us_ID v = us_ID u))"
proof -
  let ?R = "\<lambda>r w. expelled (us_ActiveWorkspaceID u) (us_ID u) w \<and>
        (\<forall>v. r = Inr v \<longrightarrow> us_ActiveWorkspaceID v = us_ActiveWorkspaceID u \<and> us_ID v = us_ID u)"
  have i: "valid (orphaned sub u) new_id (\<lambda>_. orphaned sub u)"
    by (rule valid_new_id) (simp_all add: orphaned_def)
  have e: "UpsertUserByGoogleSub sub email name now = and_then new_id (\<lambda>r. case r of Inl e \<Rightarrow> ret (Inl e)
    | Inr i \<Rightarrow> with_io (\<lambda>w.
          let email = to_lower email in
          case List.find (\<lambda>u. us_GoogleSub u = sub) (t_users w) of
            None \<Rightarrow>
              (let u = \<lparr>us_ID = i, us_GoogleSub = sub, us_Email = email, us_Name = name,
                        us_ActiveWorkspaceID = [], us_CreatedAt = now, us_LastLoginAt = now\<rparr> in
               if has_key us_ID i (t_users w) \<or> email_taken i email (t_users w) then (Inl ErrIO, w)
               else (Inr u, w\<lparr>t_users := t_users w @ [u]\<rparr>))
          | Some u \<Rightarrow>
              (let f = (\<lambda>u. u\<lparr>us_Email := email, us_Name := name, us_LastLoginAt := now\<rparr>) in
               if email_taken (us_ID u) email (t_users w) then (Inl ErrIO, w)
               else (Inr (f u), w\<lparr>t_users := update_where (\<lambda>u. us_GoogleSub u = sub) f (t_users w)\<rparr>))))"
    by (rule ext) (simp add: UpsertUserByGoogleSub_def and_then_def ret_def split: prod.splits sum.splits)
  show ?thesis
    unfolding e
  proof (rule valid_and_then [OF i], rule valid_sum_case, rule valid_ret, simp add: orphaned_def expelled_def,
      rule valid_with_io [where R = ?R], goal_cases)
    case 1
    show ?case by (simp add: valid_def orphaned_def expelled_def Let_def)
  qed (simp add: orphaned_def, assumption, (drule conjunct1, simp), simp add: orphaned_def expelled_def)
qed

lemma expelled_session:
  assumes "us_ActiveWorkspaceID v = wsid" "us_ID v = user"
  shows "valid (expelled wsid user) (open_user_session sv v fam now) (\<lambda>r _. r = internalError)"
proof -
  have m: "valid (expelled wsid user) (GetMembership wsid user) (\<lambda>r w. \<exists>e. r = Inl e)"
    unfolding GetMembership_def
    by (rule valid_weaken [OF valid_query [OF expelled_stable]]) (auto simp: expelled_def query_row_def)
  have "valid (expelled wsid user) (issueSession sv v fam) (\<lambda>r w. \<exists>e. r = Inl e)"
    unfolding issueSession_def assms
    by (rule valid_at_clock, rule valid_if, rule valid_ret, simp, rule valid_and_then [OF m], rule valid_sum_case, rule valid_ret, simp)
      (simp add: valid_def)
  then show ?thesis
    unfolding open_user_session_def
    by (rule valid_and_then) (rule valid_500, simp, simp add: valid_def)
qed

lemma removed_member_locked_out:
  assumes "orphaned (oi_Subject v) u w" "\<And>c p n t. prov c p n t = Verified v"
  shows "fst (fst (handleCallback sv prov q w)) \<noteq> 200"
proof -
  let ?Q = "\<lambda>r w. fst r \<noteq> (200 :: int)"
  have e: "?Q internalError w" "?Q (terr 400 a b) w" "?Q (terr 401 a b) w" for w :: ten and a b by (simp_all add: internalError_def)
  have s: "valid (orphaned (oi_Subject v) u) (sign_in sv v now) ?Q" for now
    unfolding sign_in_def
  proof (rule valid_and_then [OF orphaned_upsert], rule valid_500, rule e)
    fix r :: "store_err + User" and x
    assume "r = Inr x"
    let ?P = "\<lambda>w. expelled (us_ActiveWorkspaceID u) (us_ID u) w \<and>
      (\<forall>v. r = Inr v \<longrightarrow> us_ActiveWorkspaceID v = us_ActiveWorkspaceID u \<and> us_ID v = us_ID u)"
    have u: "us_ActiveWorkspaceID u \<noteq> []" using assms(1) by (simp add: orphaned_def)
    show "valid ?P (if us_ActiveWorkspaceID x = [] then and_then (bootstrapWorkspace sv x) (or_500 (\<lambda>k.
              open_user_session sv (x\<lparr>us_ActiveWorkspaceID := ws_ID k\<rparr>) [] now)) else open_user_session sv x [] now) ?Q"
    proof (rule valid_assume)
      fix w assume "?P w"
      then have x: "us_ActiveWorkspaceID x = us_ActiveWorkspaceID u" "us_ID x = us_ID u" using \<open>r = Inr x\<close> by simp_all
      have "valid ?P (open_user_session sv x [] now) ?Q"
        by (rule valid_weaken [OF expelled_session [OF x]]) (simp_all add: internalError_def)
      then show "valid ?P (if us_ActiveWorkspaceID x = [] then and_then (bootstrapWorkspace sv x) (or_500 (\<lambda>k.
              open_user_session sv (x\<lparr>us_ActiveWorkspaceID := ws_ID k\<rparr>) [] now)) else open_user_session sv x [] now) ?Q"
        using u x by simp
    qed
  qed
  have t: "valid (orphaned (oi_Subject v) u) (TakeLoginState st now) (\<lambda>_. orphaned (oi_Subject v) u)" for st now
  proof -
    let ?f = "with_io (\<lambda>w :: ten. (query_row (\<lambda>l. ls_State l = st) (t_logins w),
        w\<lparr>t_logins := delete_where (\<lambda>l. ls_State l = st) (t_logins w)\<rparr>))"
    have f: "valid (orphaned (oi_Subject v) u) ?f (\<lambda>_. orphaned (oi_Subject v) u)"
      by (rule valid_with_io [where R = "\<lambda>_. orphaned (oi_Subject v) u"]) (simp_all add: valid_def orphaned_def)
    show ?thesis
    proof (rule validI)
      fix w r w' assume "orphaned (oi_Subject v) u w" "TakeLoginState st now w = (r, w')"
      moreover obtain r0 w0 where "?f w = (r0, w0)" by fastforce
      ultimately show "orphaned (oi_Subject v) u w'"
        using validD [OF f] by (cases r0) (auto simp: TakeLoginState_def)
    qed
  qed
  have "valid (orphaned (oi_Subject v) u) (handleCallback sv prov q) ?Q"
    unfolding handleCallback_def assms(2) provider_answer.case
    by (rule valid_if, rule valid_ret, rule e, rule valid_if, rule valid_ret, rule e, rule valid_at_clock, rule valid_and_then [OF t],
        rule valid_missing, rule e, rule e, rule s)
  from validD_snd [OF this assms(1)] show ?thesis .
qed

end
