(* ===== verification/TelHub.thy ===== *)
theory TelHub
  imports Prelude "HOL-Library.AList"
begin

text \<open>
  The event hub of the telemetry service, \<open>services/telemetry/internal/hub/hub.go\<close>: bounded
  buffers that drop the oldest event and count what they dropped, sticky events for late
  subscribers, and the goroutine that streams a subscription. The payload of an event is a type
  parameter; what \<open>json.Marshal\<close> makes of it only matters for the framing.
\<close>

section \<open>Connections\<close>

record 'd Event =
  ev_Name :: string
  ev_Data :: 'd
  ev_Tag :: string

record 'd Conn =
  cn_buf :: "'d Event list"
  cn_max :: int
  cn_dropped :: "64 word"
  cn_notify :: bool
  cn_filter :: "('d Event \<Rightarrow> bool) option"

definition accepts :: "'d Conn \<Rightarrow> 'd Event \<Rightarrow> bool" where
  "accepts c ev = (case cn_filter c of None \<Rightarrow> True | Some f \<Rightarrow> f ev)"

text \<open>The part of \<open>push\<close> under the lock, and the non-blocking send that follows it.\<close>

definition store_event :: "'d Event \<Rightarrow> 'd Conn \<Rightarrow> 'd Conn" where
  "store_event ev c =
     (let c1 = (if int (length (cn_buf c)) \<ge> cn_max c
                then c\<lparr>cn_buf := tl (cn_buf c), cn_dropped := cn_dropped c + 1\<rparr> else c)
      in c1\<lparr>cn_buf := cn_buf c1 @ [ev]\<rparr>)"

definition signal :: "'d Conn \<Rightarrow> 'd Conn" where
  "signal c = c\<lparr>cn_notify := True\<rparr>"

definition push :: "'d Event \<Rightarrow> 'd Conn \<Rightarrow> 'd Conn" where
  "push ev c = (if \<not> accepts c ev then c else signal (store_event ev c))"

definition Drain :: "'d Conn \<Rightarrow> ('d Event list \<times> 64 word) \<times> 'd Conn" where
  "Drain c = ((cn_buf c, cn_dropped c), c\<lparr>cn_buf := [], cn_dropped := 0\<rparr>)"

section \<open>The hub\<close>

text \<open>Connections are known by their address; addresses are numbered in the order of allocation.\<close>

record 'd Hub =
  hb_conns :: "(nat \<times> 'd Conn) list"
  hb_sticky :: "(string \<times> 'd Event) list"
  hb_bufSize :: int
  hb_allocated :: nat

definition Hub_New :: "int \<Rightarrow> 'd Hub" where
  "Hub_New bufSize = \<lparr>hb_conns = [], hb_sticky = [], hb_bufSize = (if bufSize < 1 then 1 else bufSize), hb_allocated = 0\<rparr>"

definition push_to :: "'d Event \<Rightarrow> nat \<times> 'd Conn \<Rightarrow> nat \<times> 'd Conn" where
  "push_to ev p = (fst p, push ev (snd p))"

definition Hub_Publish :: "'d Event \<Rightarrow> 'd Hub \<Rightarrow> 'd Hub" where
  "Hub_Publish ev h = h\<lparr>hb_conns := map (push_to ev) (hb_conns h)\<rparr>"

definition PublishSticky :: "'d Event \<Rightarrow> 'd Hub \<Rightarrow> 'd Hub" where
  "PublishSticky ev h = Hub_Publish ev (h\<lparr>hb_sticky := AList.update (ev_Name ev) ev (hb_sticky h)\<rparr>)"

text \<open>\<open>order\<close> is the order in which the sticky events are iterated: any permutation of them.\<close>

definition Subscribe :: "'d Event list \<Rightarrow> ('d Event \<Rightarrow> bool) option \<Rightarrow> 'd Hub \<Rightarrow> nat \<times> 'd Hub" where
  "Subscribe order filt h =
     (let c = \<lparr>cn_buf = [], cn_max = hb_bufSize h, cn_dropped = 0, cn_notify = False, cn_filter = filt\<rparr>;
          c = fold push order c
      in (hb_allocated h, h\<lparr>hb_conns := hb_conns h @ [(hb_allocated h, c)], hb_allocated := Suc (hb_allocated h)\<rparr>))"

definition Unsubscribe :: "nat \<Rightarrow> 'd Hub \<Rightarrow> 'd Hub" where
  "Unsubscribe i h = h\<lparr>hb_conns := delete_where (\<lambda>p. fst p = i) (hb_conns h)\<rparr>"

section \<open>Buffers keep the newest events\<close>

definition room :: "'d Conn \<Rightarrow> bool" where
  "room c \<longleftrightarrow> 1 \<le> cn_max c \<and> int (length (cn_buf c)) \<le> cn_max c"

lemma store_event_fields:
  assumes "room c"
  shows "room (store_event ev c)" "cn_max (store_event ev c) = cn_max c" "cn_filter (store_event ev c) = cn_filter c"
    "cn_buf (store_event ev c) \<noteq> []" "cn_notify (store_event ev c) = cn_notify c"
  using assms by (auto simp: store_event_def room_def Let_def)

lemma push_room: "room c \<Longrightarrow> room (push ev c)"
  using store_event_fields(1) [of c ev] by (simp add: push_def signal_def room_def)

text \<open>What was pushed is what was lost, then what is buffered.\<close>

definition holds :: "'d Event list \<Rightarrow> 'd Event list \<Rightarrow> 'd Conn \<Rightarrow> bool" where
  "holds evs lost c \<longleftrightarrow> evs = lost @ cn_buf c \<and> cn_dropped c = of_nat (length lost) \<and>
     (lost \<noteq> [] \<longrightarrow> int (length (cn_buf c)) = cn_max c)"

lemma holds_store:
  assumes "room c" "holds evs lost c"
  shows "\<exists>lost'. holds (evs @ [ev]) lost' (store_event ev c) \<and> (\<exists>more. lost' = lost @ more)"
proof (cases "int (length (cn_buf c)) \<ge> cn_max c")
  case True
  then obtain e es where b: "cn_buf c = e # es" using assms(1) by (cases "cn_buf c") (auto simp: room_def)
  have "holds (evs @ [ev]) (lost @ [e]) (store_event ev c)"
    using assms True b by (auto simp: holds_def store_event_def room_def add.commute)
  then show ?thesis by blast
next
  case False
  then have "holds (evs @ [ev]) lost (store_event ev c)"
    using assms(2) by (auto simp: holds_def store_event_def)
  then show ?thesis by blast
qed

lemma holds_push: "room c \<Longrightarrow> holds evs lost c \<Longrightarrow> \<exists>lost'. holds (evs @ filter (accepts c) [ev]) lost' (push ev c)"
  using holds_store [of c evs lost ev] by (auto simp: push_def signal_def holds_def)

lemma push_accepts [simp]: "accepts (push ev c) = accepts c"
  by (rule ext) (simp add: push_def signal_def store_event_def accepts_def Let_def)

lemma holds_fold:
  assumes "room c" "holds evs lost c"
  shows "\<exists>lost'. holds (evs @ filter (accepts c) es) lost' (fold push es c) \<and> room (fold push es c)"
  using assms
proof (induction es arbitrary: c evs lost)
  case (Cons e es)
  obtain lost' where "holds (evs @ filter (accepts c) [e]) lost' (push e c)" using holds_push [OF Cons.prems] by blast
  from Cons.IH [OF push_room [OF Cons.prems(1)] this] show ?case by (simp split: if_splits)
qed auto

text \<open>A late subscriber starts with the newest sticky events that pass its filter.\<close>

lemma subscribe_replays:
  assumes "1 \<le> hb_bufSize h" "Subscribe order filt h = (i, h')"
  obtains c lost where "hb_conns h' = hb_conns h @ [(i, c)]" "room c"
    "holds (filter (\<lambda>e. case filt of None \<Rightarrow> True | Some f \<Rightarrow> f e) order) lost c"
proof -
  let ?c = "\<lparr>cn_buf = [], cn_max = hb_bufSize h, cn_dropped = 0, cn_notify = False, cn_filter = filt\<rparr> :: 'a Conn"
  have c: "room ?c" "holds [] [] ?c" using assms(1) by (simp_all add: room_def holds_def)
  obtain lost where l: "holds ([] @ filter (accepts ?c) order) lost (fold push order ?c)" "room (fold push order ?c)"
    using holds_fold [OF c] by blast
  have "accepts ?c = (\<lambda>e. case filt of None \<Rightarrow> True | Some f \<Rightarrow> f e)" by (simp add: accepts_def fun_eq_iff)
  with l have "holds (filter (\<lambda>e. case filt of None \<Rightarrow> True | Some f \<Rightarrow> f e) order) lost (fold push order ?c)" by simp
  with l(2) show thesis using assms(2) by (intro that) (auto simp: Subscribe_def Let_def)
qed

section \<open>Streaming a subscription (ServeConn)\<close>

datatype 'd frame = Connected | Heartbeat | DroppedMark "64 word" | EventFrame "'d Event"

datatype serve_pc = AtSelect | Draining | Ended

text \<open>
  The goroutine of one connection beside the publishers. \<open>sv_signals\<close> counts the publishers that
  have stored an event and not yet sent to the notify channel; \<open>sv_accepted\<close> records every event
  stored in the buffer.
\<close>

record 'd serving =
  sv_conn :: "'d Conn"
  sv_pc :: serve_pc
  sv_signals :: nat
  sv_sent :: "'d frame list"
  sv_accepted :: "'d Event list"

definition drain_frames :: "'d Event list \<Rightarrow> 64 word \<Rightarrow> 'd frame list" where
  "drain_frames evs dropped = (if dropped > 0 then [DroppedMark dropped] else []) @ map EventFrame evs"

text \<open>One turn of the inner loop; \<open>ok\<close> is whether the flush succeeds.\<close>

definition drain_turn :: "bool \<Rightarrow> 'd serving \<Rightarrow> 'd serving" where
  "drain_turn ok s =
     (case Drain (sv_conn s) of ((evs, dropped), c) \<Rightarrow>
        if dropped = 0 \<and> evs = [] then s\<lparr>sv_conn := c, sv_pc := AtSelect\<rparr>
        else s\<lparr>sv_conn := c, sv_sent := sv_sent s @ drain_frames evs dropped, sv_pc := (if ok then Draining else Ended)\<rparr>)"

definition wake :: "'d serving \<Rightarrow> 'd serving" where
  "wake s = s\<lparr>sv_conn := (sv_conn s)\<lparr>cn_notify := False\<rparr>, sv_pc := Draining\<rparr>"

definition start_serving :: "'d Conn \<Rightarrow> 'd Event list \<Rightarrow> 'd serving" where
  "start_serving c evs = \<lparr>sv_conn = c, sv_pc = AtSelect, sv_signals = 0, sv_sent = [Connected], sv_accepted = evs\<rparr>"

inductive serve_step :: "'d serving \<Rightarrow> 'd serving \<Rightarrow> bool" where
  store: "accepts (sv_conn s) ev \<Longrightarrow>
    serve_step s (s\<lparr>sv_conn := store_event ev (sv_conn s), sv_signals := Suc (sv_signals s), sv_accepted := sv_accepted s @ [ev]\<rparr>)"
| notify: "sv_signals s = Suc n \<Longrightarrow> serve_step s (s\<lparr>sv_conn := signal (sv_conn s), sv_signals := n\<rparr>)"
| woken: "sv_pc s = AtSelect \<Longrightarrow> cn_notify (sv_conn s) \<Longrightarrow> serve_step s (wake s)"
| heartbeat: "sv_pc s = AtSelect \<Longrightarrow>
    serve_step s (s\<lparr>sv_sent := sv_sent s @ [Heartbeat], sv_pc := (if ok then AtSelect else Ended)\<rparr>)"
| drain: "sv_pc s = Draining \<Longrightarrow> serve_step s (drain_turn ok s)"
| disconnect: "sv_pc s = AtSelect \<Longrightarrow> serve_step s (s\<lparr>sv_pc := Ended\<rparr>)"

inductive_cases serve_stepE: "serve_step s s'"

text \<open>
  \<open>explains fs evs\<close>: the frames tell of exactly these events, in this order, each as itself or, in
  a run, by a marker with the length of the run.
\<close>

inductive explains :: "'d frame list \<Rightarrow> 'd Event list \<Rightarrow> bool" where
  nothing: "explains [] []"
| connected: "explains fs evs \<Longrightarrow> explains (Connected # fs) evs"
| beat: "explains fs evs \<Longrightarrow> explains (Heartbeat # fs) evs"
| told: "explains fs evs \<Longrightarrow> explains (EventFrame e # fs) (e # evs)"
| marked: "explains fs evs \<Longrightarrow> lost \<noteq> [] \<Longrightarrow> unat d = length lost \<Longrightarrow> explains (DroppedMark d # fs) (lost @ evs)"

lemma explains_append: "explains fs a \<Longrightarrow> explains gs b \<Longrightarrow> explains (fs @ gs) (a @ b)"
  by (induction rule: explains.induct) (auto intro: explains.intros)

lemma explains_events: "explains (map EventFrame evs) evs"
  by (induction evs) (auto intro: explains.intros)

lemma explains_drain:
  assumes "d = of_nat (length lost)" "length lost < 2 ^ 64"
  shows "explains (drain_frames evs d) (lost @ evs)"
proof (cases "lost = []")
  case True
  then show ?thesis using assms(1) by (simp add: drain_frames_def explains_events)
next
  case False
  have u: "unat d = length lost" using assms by (simp add: unsigned_of_nat take_bit_nat_eq_self)
  then have "d > 0" using False by (auto simp: word_gt_0)
  then show ?thesis using explains.marked [OF explains_events False u] by (simp add: drain_frames_def)
qed

text \<open>The invariant of a stream, while fewer than \<open>2 ^ 64\<close> events have been accepted.\<close>

definition stream_inv :: "'d serving \<Rightarrow> bool" where
  "stream_inv s \<longleftrightarrow> room (sv_conn s) \<and>
     (length (sv_accepted s) < 2 ^ 64 \<longrightarrow>
        (\<exists>told lost. sv_accepted s = told @ lost @ cn_buf (sv_conn s) \<and> explains (sv_sent s) told \<and>
           holds (lost @ cn_buf (sv_conn s)) lost (sv_conn s)))"

lemma serve_step_accepted: "serve_step s s' \<Longrightarrow> \<exists>more. sv_accepted s' = sv_accepted s @ more"
  by (elim serve_stepE) (auto simp: wake_def drain_turn_def Drain_def)

lemma holds_drained: "room c \<Longrightarrow> room (c\<lparr>cn_buf := [], cn_dropped := 0\<rparr>)"
  by (simp add: room_def)

text \<open>A drain moves what the buffer holds to what the client was told.\<close>

lemma stream_inv_drain:
  assumes "stream_inv s"
  shows "stream_inv (drain_turn ok s)"
proof -
  let ?c = "sv_conn s"
  have room: "room (sv_conn (drain_turn ok s))"
    using assms holds_drained [of ?c] by (simp add: stream_inv_def drain_turn_def Drain_def)
  have "\<exists>told lost. sv_accepted (drain_turn ok s) = told @ lost @ cn_buf (sv_conn (drain_turn ok s)) \<and>
      explains (sv_sent (drain_turn ok s)) told \<and>
      holds (lost @ cn_buf (sv_conn (drain_turn ok s))) lost (sv_conn (drain_turn ok s))"
    if len: "length (sv_accepted s) < 2 ^ 64"
  proof -
    obtain told lost where t: "sv_accepted s = told @ lost @ cn_buf ?c" "explains (sv_sent s) told" "cn_dropped ?c = of_nat (length lost)"
      using assms len unfolding stream_inv_def holds_def by blast
    have "length lost < 2 ^ 64" using t(1) len by simp
    then have e: "explains (drain_frames (cn_buf ?c) (cn_dropped ?c)) (lost @ cn_buf ?c)" by (rule explains_drain [OF t(3)])
    have z: "lost = []" if "cn_dropped ?c = 0"
    proof -
      have "unat (of_nat (length lost) :: 64 word) = length lost"
        using \<open>length lost < 2 ^ 64\<close> by (simp add: unsigned_of_nat take_bit_nat_eq_self)
      then show ?thesis using that t(3) by simp
    qed
    show ?thesis
    proof (cases "cn_dropped ?c = 0 \<and> cn_buf ?c = []")
      case True
      then show ?thesis using t z by (intro exI [of _ told] exI [of _ "[]"]) (simp add: drain_turn_def Drain_def holds_def)
    next
      case False
      then show ?thesis using t(1) explains_append [OF t(2) e]
        by (intro exI [of _ "told @ lost @ cn_buf ?c"] exI [of _ "[]"]) (auto simp: drain_turn_def Drain_def holds_def)
    qed
  qed
  moreover have "sv_accepted (drain_turn ok s) = sv_accepted s" by (simp add: drain_turn_def Drain_def)
  ultimately show ?thesis using room by (simp add: stream_inv_def)
qed

lemma stream_inv_store:
  assumes "stream_inv s"
  shows "stream_inv (s\<lparr>sv_conn := store_event ev (sv_conn s), sv_signals := n, sv_accepted := sv_accepted s @ [ev]\<rparr>)"
proof -
  let ?c = "sv_conn s"
  have room: "room ?c" using assms by (simp add: stream_inv_def)
  have "\<exists>told lost. sv_accepted s @ [ev] = told @ lost @ cn_buf (store_event ev ?c) \<and> explains (sv_sent s) told \<and>
      holds (lost @ cn_buf (store_event ev ?c)) lost (store_event ev ?c)" if len: "length (sv_accepted s) < 2 ^ 64"
  proof -
    obtain told lost where t: "sv_accepted s = told @ lost @ cn_buf ?c" "explains (sv_sent s) told" "holds (lost @ cn_buf ?c) lost ?c"
      using assms len unfolding stream_inv_def by blast
    obtain lost' where l: "holds ((lost @ cn_buf ?c) @ [ev]) lost' (store_event ev ?c)" using holds_store [OF room t(3)] by blast
    then have "(lost @ cn_buf ?c) @ [ev] = lost' @ cn_buf (store_event ev ?c)" by (simp add: holds_def)
    with l t show ?thesis by (intro exI [of _ told] exI [of _ lost']) simp
  qed
  then show ?thesis using room store_event_fields(1) [OF room] by (simp add: stream_inv_def)
qed

lemma stream_inv_same:
  assumes "stream_inv s" "cn_buf (sv_conn s') = cn_buf (sv_conn s)" "cn_dropped (sv_conn s') = cn_dropped (sv_conn s)"
    "cn_max (sv_conn s') = cn_max (sv_conn s)" "sv_accepted s' = sv_accepted s" "sv_sent s' = sv_sent s @ fs" "explains fs []"
  shows "stream_inv s'"
proof -
  have "\<exists>told lost. sv_accepted s' = told @ lost @ cn_buf (sv_conn s') \<and> explains (sv_sent s') told \<and>
      holds (lost @ cn_buf (sv_conn s')) lost (sv_conn s')" if len: "length (sv_accepted s) < 2 ^ 64"
  proof -
    obtain told lost where t: "sv_accepted s = told @ lost @ cn_buf (sv_conn s)" "explains (sv_sent s) told"
      "holds (lost @ cn_buf (sv_conn s)) lost (sv_conn s)"
      using assms(1) len unfolding stream_inv_def by blast
    then show ?thesis using assms explains_append [OF t(2) assms(7)] by (intro exI [of _ told] exI [of _ lost]) (simp add: holds_def)
  qed
  then show ?thesis using assms by (simp add: stream_inv_def room_def)
qed

lemma stream_inv_step: "serve_step s s' \<Longrightarrow> stream_inv s \<Longrightarrow> stream_inv s'"
proof (induction rule: serve_step.induct)
  case (store s ev)
  from store.prems show ?case by (rule stream_inv_store)
next
  case (notify s n)
  from notify.prems show ?case by (rule stream_inv_same [where fs = "[]"]) (simp_all add: signal_def explains.nothing)
next
  case (woken s)
  from woken.prems show ?case by (rule stream_inv_same [where fs = "[]"]) (simp_all add: wake_def explains.nothing)
next
  case (heartbeat s ok)
  from heartbeat.prems show ?case
    by (rule stream_inv_same [where fs = "[Heartbeat]"]) (simp_all add: explains.nothing explains.beat)
next
  case (drain s ok)
  from drain.prems show ?case by (rule stream_inv_drain)
next
  case (disconnect s)
  from disconnect.prems show ?case by (rule stream_inv_same [where fs = "[]"]) (simp_all add: explains.nothing)
qed

section \<open>No wake-up is lost\<close>

definition pending :: "'d Conn \<Rightarrow> bool" where
  "pending c \<longleftrightarrow> cn_buf c \<noteq> [] \<or> cn_dropped c \<noteq> 0"

definition awake_inv :: "'d serving \<Rightarrow> bool" where
  "awake_inv s \<longleftrightarrow> (sv_pc s = AtSelect \<and> pending (sv_conn s) \<longrightarrow> cn_notify (sv_conn s) \<or> 0 < sv_signals s)"

lemma awake_step: "serve_step s s' \<Longrightarrow> awake_inv s \<Longrightarrow> awake_inv s'"
proof (induction rule: serve_step.induct)
  case (heartbeat s ok)
  then show ?case by (cases ok) (simp_all add: awake_inv_def)
next
  case (drain s ok)
  then show ?case by (simp add: awake_inv_def drain_turn_def Drain_def pending_def)
qed (simp_all add: awake_inv_def signal_def wake_def)

lemma serve_run:
  assumes "serve_step\<^sup>*\<^sup>* s s'" "stream_inv s" "awake_inv s"
  shows "stream_inv s' \<and> awake_inv s'"
  using assms by (induction rule: rtranclp_induct) (auto intro: stream_inv_step awake_step)

lemma serve_start:
  assumes "room c" "holds evs lost c" "pending c \<longrightarrow> cn_notify c"
  shows "stream_inv (start_serving c evs)" "awake_inv (start_serving c evs)"
proof -
  have "explains [Connected :: 'a frame] []" by (intro explains.intros)
  then show "stream_inv (start_serving c evs)"
    using assms unfolding stream_inv_def start_serving_def
    by (intro conjI impI) (simp, rule exI [of _ "[]"], rule exI [of _ lost], simp add: holds_def)
  show "awake_inv (start_serving c evs)" using assms(3) by (simp add: awake_inv_def start_serving_def)
qed

text \<open>The goroutine on its own, writes succeeding: asleep, it stays as it is.\<close>

definition server_turn :: "'d serving \<Rightarrow> 'd serving" where
  "server_turn s =
     (if sv_pc s = AtSelect \<and> cn_notify (sv_conn s) then wake s else if sv_pc s = Draining then drain_turn True s else s)"

lemma server_turn_step: "server_turn s = s \<or> serve_step s (server_turn s)"
  using serve_step.woken [of s] serve_step.drain [of s True] by (simp add: server_turn_def)

text \<open>How far the goroutine is from being asleep.\<close>

definition turns_left :: "'d serving \<Rightarrow> nat" where
  "turns_left s =
     (case sv_pc s of
        AtSelect \<Rightarrow> if cn_notify (sv_conn s) then 3 else 0
      | Draining \<Rightarrow> (if cn_notify (sv_conn s) then 4 else 1) + (if pending (sv_conn s) then 1 else 0)
      | Ended \<Rightarrow> 0)"

lemma server_turn_progress:
  assumes "sv_pc s \<noteq> Ended"
  shows "sv_pc (server_turn s) \<noteq> Ended" "turns_left (server_turn s) \<le> turns_left s - 1"
proof -
  show "sv_pc (server_turn s) \<noteq> Ended"
    using assms by (simp add: server_turn_def wake_def drain_turn_def Drain_def)
  show "turns_left (server_turn s) \<le> turns_left s - 1"
  proof (cases "sv_pc s")
    case AtSelect
    then show ?thesis by (simp add: turns_left_def server_turn_def wake_def)
  next
    case Draining
    then show ?thesis by (cases "pending (sv_conn s)") (auto simp: turns_left_def server_turn_def drain_turn_def Drain_def pending_def)
  qed (use assms in simp)
qed

lemma server_turns:
  assumes "sv_pc s \<noteq> Ended" "stream_inv s" "awake_inv s" "sv_signals s = 0"
  shows "sv_pc ((server_turn ^^ k) s) \<noteq> Ended \<and> turns_left ((server_turn ^^ k) s) \<le> turns_left s - k \<and>
    stream_inv ((server_turn ^^ k) s) \<and> awake_inv ((server_turn ^^ k) s) \<and> sv_signals ((server_turn ^^ k) s) = 0 \<and>
    sv_accepted ((server_turn ^^ k) s) = sv_accepted s"
proof (induction k)
  case (Suc k)
  let ?s = "(server_turn ^^ k) s"
  have IH: "sv_pc ?s \<noteq> Ended" "turns_left ?s \<le> turns_left s - k" "stream_inv ?s" "awake_inv ?s" "sv_signals ?s = 0"
    "sv_accepted ?s = sv_accepted s" using Suc.IH by blast+
  have "stream_inv (server_turn ?s)" "awake_inv (server_turn ?s)"
    using server_turn_step [of ?s] IH(3,4) stream_inv_step awake_step by metis+
  moreover have "sv_signals (server_turn ?s) = 0" "sv_accepted (server_turn ?s) = sv_accepted s"
    using IH(5,6) by (simp_all add: server_turn_def wake_def drain_turn_def Drain_def)
  ultimately show ?case using server_turn_progress [OF IH(1)] IH(2) by simp
qed (use assms in simp)

lemma asleep_told_all:
  assumes "stream_inv s" "awake_inv s" "sv_signals s = 0" "sv_pc s = AtSelect" "\<not> cn_notify (sv_conn s)" "length (sv_accepted s) < 2 ^ 64"
  shows "explains (sv_sent s) (sv_accepted s)"
proof -
  have idle: "cn_buf (sv_conn s) = []" "cn_dropped (sv_conn s) = 0"
    using assms(2-5) by (auto simp: awake_inv_def pending_def)
  obtain told lost where t: "sv_accepted s = told @ lost @ cn_buf (sv_conn s)" "explains (sv_sent s) told"
    "cn_dropped (sv_conn s) = of_nat (length lost)" using assms(1,6) unfolding stream_inv_def holds_def by blast
  have "unat (of_nat (length lost) :: 64 word) = length lost"
    using t(1) assms(6) by (simp add: unsigned_of_nat take_bit_nat_eq_self)
  then have "lost = []" using t(3) idle(2) by simp
  with t idle show ?thesis by simp
qed

lemma push_notifies: "pending c \<longrightarrow> cn_notify c \<Longrightarrow> pending (push ev c) \<longrightarrow> cn_notify (push ev c)"
  by (simp add: push_def signal_def)

lemma fold_notifies: "pending c \<longrightarrow> cn_notify c \<Longrightarrow> pending (fold push es c) \<longrightarrow> cn_notify (fold push es c)"
proof (induction es arbitrary: c)
  case (Cons e es)
  from Cons.IH [OF push_notifies [OF Cons.prems]] show ?case by simp
qed simp

text \<open>A subscription as it is handed to its goroutine.\<close>

definition subscribed :: "'d Event list \<Rightarrow> ('d Event \<Rightarrow> bool) option \<Rightarrow> 'd Hub \<Rightarrow> 'd serving" where
  "subscribed order filt h =
     start_serving (snd (last (hb_conns (snd (Subscribe order filt h))))) (filter (\<lambda>e. case filt of None \<Rightarrow> True | Some f \<Rightarrow> f e) order)"

lemma subscribed_inv:
  fixes h :: "'d Hub"
  assumes "hb_bufSize h = hb_bufSize (Hub_New n :: 'd Hub)"
  shows "stream_inv (subscribed order filt h)" "awake_inv (subscribed order filt h)"
proof -
  let ?c0 = "\<lparr>cn_buf = [], cn_max = hb_bufSize h, cn_dropped = 0, cn_notify = False, cn_filter = filt\<rparr> :: 'd Conn"
  have b: "1 \<le> hb_bufSize h" using assms by (simp add: Hub_New_def)
  obtain i h' where sub: "Subscribe order filt h = (i, h')" by fastforce
  obtain c lost where c: "hb_conns h' = hb_conns h @ [(i, c)]" "room c"
    "holds (filter (\<lambda>e. case filt of None \<Rightarrow> True | Some f \<Rightarrow> f e) order) lost c"
    by (rule subscribe_replays [OF b sub])
  have "c = fold push order ?c0" using sub c(1) by (auto simp: Subscribe_def Let_def)
  then have "pending c \<longrightarrow> cn_notify c" using fold_notifies [of ?c0 order] by (simp add: pending_def)
  from serve_start [OF c(2,3) this] show "stream_inv (subscribed order filt h)" "awake_inv (subscribed order filt h)"
    by (simp_all add: subscribed_def sub c(1))
qed

text \<open>
  C28. Nothing is lost silently. Subscribe to a hub, with any filter and any sticky events, and let
  publishers, drains, heartbeats and failing writes interleave in any way. As long as fewer than
  \<open>2 ^ 64\<close> events passed the filter, the stream written so far tells of a prefix of them in order,
  each event as itself or a run of them by a marker with its exact length; after that come the
  lost events the next marker will count, and then the buffer, which is full whenever an event
  was lost.
\<close>

theorem hub_no_silent_loss:
  fixes h :: "'d Hub"
  assumes "hb_bufSize h = hb_bufSize (Hub_New n :: 'd Hub)" "serve_step\<^sup>*\<^sup>* (subscribed order filt h) s"
    and "length (sv_accepted s) < 2 ^ 64"
  shows "\<exists>told lost. sv_accepted s = told @ lost @ cn_buf (sv_conn s) \<and> explains (sv_sent s) told \<and>
    unat (cn_dropped (sv_conn s)) = length lost \<and> (lost = [] \<or> int (length (cn_buf (sv_conn s))) = cn_max (sv_conn s))"
proof -
  have "stream_inv s" using serve_run [OF assms(2) subscribed_inv [OF assms(1)]] by blast
  then obtain told lost where t: "sv_accepted s = told @ lost @ cn_buf (sv_conn s)" "explains (sv_sent s) told"
    "holds (lost @ cn_buf (sv_conn s)) lost (sv_conn s)" using assms(3) unfolding stream_inv_def by blast
  have "length lost < 2 ^ 64" using t(1) assms(3) by simp
  then have "unat (cn_dropped (sv_conn s)) = length lost"
    using t(3) by (simp add: holds_def unsigned_of_nat take_bit_nat_eq_self)
  moreover have "lost = [] \<or> int (length (cn_buf (sv_conn s))) = cn_max (sv_conn s)" using t(3) by (auto simp: holds_def)
  ultimately show ?thesis using t(1,2) by blast
qed

definition ex_event :: "nat \<Rightarrow> nat Event" where
  "ex_event i = \<lparr>ev_Name = ''job'', ev_Data = i, ev_Tag = []\<rparr>"

definition ex_hub :: "nat Hub" where
  "ex_hub = Hub_New 2"

definition ex_store :: "nat Event \<Rightarrow> nat serving \<Rightarrow> nat serving" where
  "ex_store ev s = s\<lparr>sv_accepted := sv_accepted s @ [ev], sv_conn := signal (store_event ev (sv_conn s))\<rparr>"

lemma ex_store_run:
  assumes "serve_step\<^sup>*\<^sup>* s0 s" "accepts (sv_conn s) ev"
  shows "serve_step\<^sup>*\<^sup>* s0 (ex_store ev s)"
proof -
  let ?m = "s\<lparr>sv_conn := store_event ev (sv_conn s), sv_signals := Suc (sv_signals s), sv_accepted := sv_accepted s @ [ev]\<rparr>"
  have "serve_step\<^sup>*\<^sup>* s0 ?m" using assms(1) serve_step.store [OF assms(2)] by (rule rtranclp.rtrancl_into_rtrancl)
  moreover have "serve_step ?m (ex_store ev s)" using serve_step.notify [of ?m "sv_signals s"] by (simp add: ex_store_def)
  ultimately show ?thesis by (rule rtranclp.rtrancl_into_rtrancl)
qed

definition ex_flooded :: "nat serving" where
  "ex_flooded = ex_store (ex_event 3) (ex_store (ex_event 2) (ex_store (ex_event 1) (subscribed [] None ex_hub)))"

lemma ex_flooded_run: "serve_step\<^sup>*\<^sup>* (subscribed [] None ex_hub) ex_flooded"
  unfolding ex_flooded_def
  by (intro ex_store_run rtranclp.rtrancl_refl)
    (simp_all add: accepts_def ex_store_def subscribed_def start_serving_def Subscribe_def signal_def store_event_def Let_def)

lemma ex_flooded_fields:
  "cn_buf (sv_conn ex_flooded) = [ex_event 2, ex_event 3]" "sv_accepted ex_flooded = map ex_event [1, 2, 3]"
  "cn_notify (sv_conn ex_flooded)" "sv_pc ex_flooded = AtSelect" "sv_signals ex_flooded = 0" "sv_sent ex_flooded = [Connected]"
  "cn_dropped (sv_conn ex_flooded) = 1"
  by (simp_all add: ex_flooded_def ex_store_def subscribed_def start_serving_def Subscribe_def signal_def store_event_def Let_def
      ex_hub_def Hub_New_def)

theorem hub_no_silent_loss_witness:
  "\<exists>lost. map ex_event [1, 2, 3] = lost @ cn_buf (sv_conn ex_flooded) \<and> length lost = 1"
proof -
  have b: "hb_bufSize ex_hub = hb_bufSize (Hub_New 2 :: nat Hub)" by (simp add: ex_hub_def)
  have "length (sv_accepted ex_flooded) < 2 ^ 64" by (simp add: ex_flooded_fields)
  from hub_no_silent_loss [OF b ex_flooded_run this]
  obtain told lost where t: "map ex_event [1, 2, 3] = told @ lost @ cn_buf (sv_conn ex_flooded)" "length lost = 1"
    unfolding ex_flooded_fields by auto
  then have "told = []" by (cases told) (simp_all add: ex_flooded_fields)
  with t show ?thesis by auto
qed

text \<open>
  C29. A stream always catches up. Whenever no publisher is between storing an event and signalling
  it, five turns of the goroutine at most (waking up and draining, the writes succeeding) bring it
  back to its select with nothing left to do, and the frames written then tell of every event that
  was accepted: no wake-up is ever lost.
\<close>

theorem stream_catches_up:
  fixes h :: "'d Hub"
  assumes "hb_bufSize h = hb_bufSize (Hub_New n :: 'd Hub)" "serve_step\<^sup>*\<^sup>* (subscribed order filt h) s"
    and "length (sv_accepted s) < 2 ^ 64" "sv_signals s = 0" "sv_pc s \<noteq> Ended"
  shows "sv_pc ((server_turn ^^ 5) s) = AtSelect \<and> server_turn ((server_turn ^^ 5) s) = (server_turn ^^ 5) s \<and>
    explains (sv_sent ((server_turn ^^ 5) s)) (sv_accepted s)"
proof -
  let ?s = "(server_turn ^^ 5) s"
  have "stream_inv s" "awake_inv s" using serve_run [OF assms(2) subscribed_inv [OF assms(1)]] by blast+
  note t = server_turns [OF assms(5) this assms(4), of 5]
  have "turns_left s \<le> 5" by (simp add: turns_left_def split: serve_pc.splits)
  then have "turns_left ?s = 0" using t by simp
  then have asleep: "sv_pc ?s = AtSelect" "\<not> cn_notify (sv_conn ?s)"
    using t by (auto simp: turns_left_def split: serve_pc.splits if_splits)
  moreover have "server_turn ?s = ?s" using asleep by (simp add: server_turn_def)
  moreover have "explains (sv_sent ?s) (sv_accepted ?s)" by (rule asleep_told_all) (use t asleep assms(3) in auto)
  ultimately show ?thesis using t by simp
qed

theorem stream_catches_up_witness:
  "explains (sv_sent ((server_turn ^^ 5) ex_flooded)) (map ex_event [1, 2, 3]) \<and>
   sv_sent ((server_turn ^^ 5) ex_flooded) = [Connected, DroppedMark 1, EventFrame (ex_event 2), EventFrame (ex_event 3)]"
proof -
  have b: "hb_bufSize ex_hub = hb_bufSize (Hub_New 2 :: nat Hub)" by (simp add: ex_hub_def)
  have f: "length (sv_accepted ex_flooded) < 2 ^ 64" "sv_signals ex_flooded = 0" "sv_pc ex_flooded \<noteq> Ended" by (simp_all add: ex_flooded_fields)
  have "sv_sent ((server_turn ^^ 5) ex_flooded) = [Connected, DroppedMark 1, EventFrame (ex_event 2), EventFrame (ex_event 3)]"
    by (simp add: numeral_eq_Suc server_turn_def wake_def drain_turn_def Drain_def drain_frames_def ex_flooded_fields)
  then show ?thesis using stream_catches_up [OF b ex_flooded_run f] by (simp add: ex_flooded_fields)
qed

end
