(* ===== verification/TelFrames.thy ===== *)
theory TelFrames
  imports TelHub GoText
begin

text \<open>
  The text of a stream: what \<open>ServeConn\<close> of \<open>services/telemetry/internal/hub/hub.go\<close> prints for a
  frame, and what a client of the server-sent-events protocol reads back.
\<close>

definition newline :: char where
  "newline = CHR 0x0A"

definition quote_mark :: char where
  "quote_mark = CHR 0x22"

definition dropped_data :: "64 word \<Rightarrow> string" where
  "dropped_data d = ''{'' @ quote_mark # ''dropped'' @ quote_mark # '':'' @ show_nat (unat d) @ ''}''"

definition event_text :: "string \<Rightarrow> string \<Rightarrow> string" where
  "event_text name data = ''event: '' @ name @ newline # ''data: '' @ data @ [newline, newline]"

fun render :: "('d \<Rightarrow> string) \<Rightarrow> 'd frame \<Rightarrow> string" where
  "render marshal Connected = '': connected'' @ [newline, newline]"
| "render marshal Heartbeat = '': hb'' @ [newline, newline]"
| "render marshal (DroppedMark d) = event_text ''dropped'' (dropped_data d)"
| "render marshal (EventFrame ev) = event_text (ev_Name ev) (marshal (ev_Data ev))"

text \<open>
  The client side of the protocol, line by line: an event name, a data line, a blank line that
  dispatches, and everything else (comments) ignored.
\<close>

fun sse_client :: "string list \<Rightarrow> string \<Rightarrow> string option \<Rightarrow> (string \<times> string) list" where
  "sse_client [] name data = []"
| "sse_client (l # ls) name data =
     (if l = [] then (case data of Some d \<Rightarrow> [(name, d)] | None \<Rightarrow> []) @ sse_client ls [] None
      else if has_prefix ''event: '' l then sse_client ls (drop 7 l) data
      else if has_prefix ''data: '' l then sse_client ls name (Some (drop 6 l))
      else sse_client ls name data)"

fun heard :: "('d \<Rightarrow> string) \<Rightarrow> 'd frame \<Rightarrow> (string \<times> string) list" where
  "heard marshal (DroppedMark d) = [(''dropped'', dropped_data d)]"
| "heard marshal (EventFrame ev) = [(ev_Name ev, marshal (ev_Data ev))]"
| "heard marshal _ = []"

text \<open>Names and payloads fit on a line: \<open>json.Marshal\<close> escapes control characters.\<close>

fun one_line :: "('d \<Rightarrow> string) \<Rightarrow> 'd frame \<Rightarrow> bool" where
  "one_line marshal (EventFrame ev) \<longleftrightarrow> newline \<notin> set (ev_Name ev) \<and> newline \<notin> set (marshal (ev_Data ev))"
| "one_line marshal _ \<longleftrightarrow> True"

lemma newline_text: "newline \<notin> set ''event: ''" "newline \<notin> set ''data: ''" "newline \<notin> set '': hb''" "newline \<notin> set '': connected''"
  "newline \<notin> set ''dropped''"
  by (simp_all add: newline_def)

lemma newline_dropped: "newline \<notin> set (dropped_data d)"
proof -
  have "newline \<notin> set (show_nat n)" for n
    using show_nat_digits [of n] by (auto simp: list_all_iff newline_def is_digit_def between_def)
  then show ?thesis by (simp add: dropped_data_def newline_def quote_mark_def)
qed

lemma client_event_text:
  assumes "newline \<notin> set name" "newline \<notin> set data"
  shows "sse_client (split_on newline (event_text name data @ rest)) [] None = (name, data) # sse_client (split_on newline rest) [] None"
proof -
  have a: "newline \<notin> set (''event: '' @ name)" "newline \<notin> set (''data: '' @ data)" "newline \<notin> set []"
    using assms newline_text by auto
  have "event_text name data @ rest = (''event: '' @ name) @ newline # (''data: '' @ data) @ newline # [] @ newline # rest"
    by (simp add: event_text_def)
  then have "split_on newline (event_text name data @ rest) = (''event: '' @ name) # (''data: '' @ data) # [] # split_on newline rest"
    by (simp only: split_on_append [OF a(1)] split_on_append [OF a(2)] split_on_append [OF a(3)])
  then show ?thesis by (simp add: has_prefix_def)
qed

lemma client_comment:
  assumes "newline \<notin> set (CHR '':'' # text)"
  shows "sse_client (split_on newline ((CHR '':'' # text) @ newline # newline # rest)) [] None = sse_client (split_on newline rest) [] None"
proof -
  have n: "newline \<notin> set []" by simp
  have "split_on newline ((CHR '':'' # text) @ newline # [] @ newline # rest) = (CHR '':'' # text) # [] # split_on newline rest"
    by (simp only: split_on_append [OF assms] split_on_append [OF n])
  then show ?thesis by (simp add: has_prefix_def)
qed

lemma client_render:
  assumes "one_line marshal f"
  shows "sse_client (split_on newline (render marshal f @ rest)) [] None = heard marshal f @ sse_client (split_on newline rest) [] None"
proof (cases f)
  case Connected
  then show ?thesis using client_comment [of "'' connected''" rest] newline_text by simp
next
  case Heartbeat
  then show ?thesis using client_comment [of "'' hb''" rest] newline_text by simp
next
  case (DroppedMark d)
  then show ?thesis using client_event_text [OF newline_text(5) newline_dropped] by simp
next
  case (EventFrame ev)
  then show ?thesis using client_event_text assms by simp
qed

text \<open>
  The stream reads back. Whatever frames a connection writes, a client reading the text gets
  exactly the events and the drop markers, in order, with their names and payloads; comments and
  heartbeats are invisible, and no payload can forge or split an event.
\<close>

theorem stream_reads_back:
  assumes "list_all (one_line marshal) fs"
  shows "sse_client (split_on newline (concat (map (render marshal) fs))) [] None = concat (map (heard marshal) fs)"
  using assms
proof (induction fs)
  case Nil
  then show ?case by (simp add: split_on_no_sep)
next
  case (Cons f fs)
  then show ?case using client_render [of marshal f "concat (map (render marshal) fs)"] by simp
qed

theorem stream_reads_back_witness:
  "sse_client (split_on newline (concat (map (render show_nat) [Connected, DroppedMark 1, EventFrame (ex_event 2)]))) [] None
    = [(''dropped'', dropped_data 1), (''job'', ''2'')]"
proof -
  have "list_all (one_line show_nat) [Connected, DroppedMark 1, EventFrame (ex_event 2)]"
    by (simp add: ex_event_def newline_def) code_simp
  from stream_reads_back [OF this] show ?thesis by (simp add: ex_event_def) code_simp
qed

end
