(* ===== verification/TenClient.thy ===== *)
theory TenClient
  imports TenServer
begin

text \<open>
  The quota client of the other services, \<open>services/tenancy/quotaclient/quotaclient.go\<close>, and its
  composition with the internal quota endpoints it calls. The client is a third implementation of
  the quota hook; the interpretations below discharge the hook's laws for it.
\<close>

section \<open>The client\<close>

record QuotaClient =
  qc_baseURL :: string
  qc_internalToken :: string
  qc_timeout :: int

datatype quota_client_err = QcBaseURL | QcInternalToken

definition trim_end_slash :: "string \<Rightarrow> string" where
  "trim_end_slash s = (if has_suffix ''/'' s then butlast s else s)"

definition QuotaClient_New :: "string \<Rightarrow> string \<Rightarrow> int \<Rightarrow> quota_client_err + QuotaClient" where
  "QuotaClient_New baseURL internalToken timeout =
     (if baseURL = [] then Inl QcBaseURL
      else if internalToken = [] then Inl QcInternalToken
      else Inr \<lparr>qc_baseURL = trim_end_slash baseURL, qc_internalToken = internalToken,
                qc_timeout = (if timeout \<le> 0 then 5000000000 else timeout)\<rparr>)"

datatype quota_req = UploadReq quotaUploadRequest | JobReq string

text \<open>
  A reply: none (the request cannot be made or times out), a body that cannot be read, or a status
  with the body as far as it decodes into a decision.
\<close>

datatype quota_reply = NoAnswer | BrokenBody | Answer int "QuotaDecision option"

text \<open>\<open>send url token req\<close> is the HTTP client.\<close>

definition client_post ::
  "(string \<Rightarrow> string \<Rightarrow> quota_req \<Rightarrow> 's \<Rightarrow> quota_reply \<times> 's) \<Rightarrow> QuotaClient \<Rightarrow> string \<Rightarrow> quota_req \<Rightarrow> ('s, QuotaDecision) op" where
  "client_post send c path req =
     and_then (send (qc_baseURL c @ path) (qc_internalToken c) req) (\<lambda>reply. ret (case reply of
       NoAnswer \<Rightarrow> Inl ErrIO
     | BrokenBody \<Rightarrow> Inl ErrIO
     | Answer code d \<Rightarrow> if code \<noteq> 200 then Inl ErrIO else case d of None \<Rightarrow> Inl ErrIO | Some d \<Rightarrow> Inr d))"

definition Client_CheckUploadSession ::
  "(string \<Rightarrow> string \<Rightarrow> quota_req \<Rightarrow> 's \<Rightarrow> quota_reply \<times> 's) \<Rightarrow> QuotaClient \<Rightarrow> string \<Rightarrow> int \<Rightarrow> ('s, QuotaDecision) op" where
  "Client_CheckUploadSession send c wsid n =
     client_post send c ''/internal/v1/quota/check-upload-session'' (UploadReq \<lparr>qu_WorkspaceID = wsid, qu_SizeHintBytes = n\<rparr>)"

definition Client_CheckJobAdmission ::
  "(string \<Rightarrow> string \<Rightarrow> quota_req \<Rightarrow> 's \<Rightarrow> quota_reply \<times> 's) \<Rightarrow> QuotaClient \<Rightarrow> string \<Rightarrow> ('s, QuotaDecision) op" where
  "Client_CheckJobAdmission send c wsid = client_post send c ''/internal/v1/quota/check-job-admission'' (JobReq wsid)"

section \<open>The tenancy service at the other end\<close>

text \<open>An error body has no decision fields and decodes into the zero decision.\<close>

definition reply_of :: "ten_resp \<Rightarrow> quota_reply" where
  "reply_of r = Answer (fst r) (Some (case snd r of TDecision a reason \<Rightarrow> \<lparr>qd_Allowed = a, qd_Reason = reason\<rparr>
     | _ \<Rightarrow> \<lparr>qd_Allowed = False, qd_Reason = []\<rparr>))"

definition quota_route :: "TenServer \<Rightarrow> string \<Rightarrow> string \<Rightarrow> string \<Rightarrow> quota_req \<Rightarrow> ten \<Rightarrow> ten_resp \<times> ten" where
  "quota_route sv base url token req =
     (case req of
        UploadReq r \<Rightarrow>
          if url = base @ ''/internal/v1/quota/check-upload-session''
          then internalAuthMiddleware sv token (handleQuotaCheckUpload sv (JsonValue r []))
          else ret (terr 404 ''not_found'' ''not found'')
      | JobReq wsid \<Rightarrow>
          if url = base @ ''/internal/v1/quota/check-job-admission''
          then internalAuthMiddleware sv token (handleQuotaCheckJob sv (JsonValue wsid []))
          else ret (terr 404 ''not_found'' ''not found''))"

text \<open>The network loses the request, the reply, or nothing.\<close>

definition deliver_to :: "TenServer \<Rightarrow> string \<Rightarrow> string \<Rightarrow> string \<Rightarrow> quota_req \<Rightarrow> ten \<Rightarrow> quota_reply \<times> ten" where
  "deliver_to sv base url token req w =
     (case next_io w of
        (IoOk, w') \<Rightarrow> (case quota_route sv base url token req w' of (r, w'') \<Rightarrow> (reply_of r, w''))
      | (IoFail, w') \<Rightarrow> (NoAnswer, w')
      | (IoLost, w') \<Rightarrow> (NoAnswer, snd (quota_route sv base url token req w')))"

section \<open>The client is transparent\<close>

definition as_client_err :: "store_err + 'a \<Rightarrow> store_err + 'a" where
  "as_client_err r = (case r of Inl _ \<Rightarrow> Inl ErrIO | Inr d \<Rightarrow> Inr d)"

lemma at_eof_Nil [simp]: "at_eof []"
  by (simp add: at_eof_def)

definition client_result :: "quota_reply \<Rightarrow> store_err + QuotaDecision" where
  "client_result reply = (case reply of
       NoAnswer \<Rightarrow> Inl ErrIO
     | BrokenBody \<Rightarrow> Inl ErrIO
     | Answer code d \<Rightarrow> if code \<noteq> 200 then Inl ErrIO else case d of None \<Rightarrow> Inl ErrIO | Some d \<Rightarrow> Inr d)"

lemma client_post_result:
  "client_post send c path req w =
   (client_result (fst (send (qc_baseURL c @ path) (qc_internalToken c) req w)), snd (send (qc_baseURL c @ path) (qc_internalToken c) req w))"
  by (simp add: client_post_def and_then_result ret_def client_result_def)

lemma upload_endpoint:
  assumes "wsid \<noteq> []" "0 \<le> n"
  shows "client_result (reply_of (fst (handleQuotaCheckUpload sv (JsonValue \<lparr>qu_WorkspaceID = wsid, qu_SizeHintBytes = n\<rparr> []) w))) =
      as_client_err (fst (Metered_CheckUploadSession (ts_tiers sv) wsid n w))"
    and "snd (handleQuotaCheckUpload sv (JsonValue \<lparr>qu_WorkspaceID = wsid, qu_SizeHintBytes = n\<rparr> []) w) =
      snd (Metered_CheckUploadSession (ts_tiers sv) wsid n w)"
  using assms
  by (auto simp: handleQuotaCheckUpload_def with_body_def decodeJSONBody_def and_then_result or_500_def internalError_def ret_def
      reply_of_def client_result_def as_client_err_def split: sum.splits)

lemma job_endpoint:
  assumes "wsid \<noteq> []"
  shows "client_result (reply_of (fst (handleQuotaCheckJob sv (JsonValue wsid []) w))) =
      as_client_err (fst (Metered_CheckJobAdmission (ts_tiers sv) wsid w))"
    and "snd (handleQuotaCheckJob sv (JsonValue wsid []) w) = snd (Metered_CheckJobAdmission (ts_tiers sv) wsid w)"
  using assms
  by (auto simp: handleQuotaCheckJob_def with_body_def decodeJSONBody_def and_then_result or_500_def internalError_def ret_def
      reply_of_def client_result_def as_client_err_def split: sum.splits)

lemma deliver_result:
  "client_result (fst (deliver_to sv base url token req w)) =
     (case next_io w of (IoOk, w') \<Rightarrow> client_result (reply_of (fst (quota_route sv base url token req w'))) | _ \<Rightarrow> Inl ErrIO)"
  by (auto simp: deliver_to_def client_result_def split: prod.splits io.splits)

text \<open>The laws of the quota hook, for any client and any service at the other end.\<close>

lemma reads_route: "reads (quota_route sv base url token req)"
proof -
  have u: "reads (handleQuotaCheckUpload sv b)" for b
    unfolding handleQuotaCheckUpload_def with_body_def or_500_def
    by (auto split: sum.splits intro!: reads_and_then reads_ret reads_upload_check)
  have j: "reads (handleQuotaCheckJob sv b)" for b
    unfolding handleQuotaCheckJob_def with_body_def or_500_def
    by (auto split: sum.splits intro!: reads_and_then reads_ret reads_job_check)
  show ?thesis unfolding quota_route_def internalAuthMiddleware_def
    by (cases req) (auto intro: u j reads_ret)
qed

lemma reads_deliver: "reads (deliver_to sv base url token req)"
  unfolding reads_def
proof
  fix w :: ten
  have n: "but_script w' = but_script w" if "next_io w = (x, w')" for x w'
    using next_io_update [OF that] by (simp add: but_script_def)
  have r: "but_script (snd (quota_route sv base url token req w')) = but_script w'" for w' using reads_route by (simp add: reads_def)
  obtain x w1 where x: "next_io w = (x, w1)" by fastforce
  show "but_script (snd (deliver_to sv base url token req w)) = but_script w"
    using n [OF x] r [of w1] by (cases x) (simp_all add: deliver_to_def x case_prod_beta)
qed

definition decisive :: "ten_resp \<Rightarrow> bool" where
  "decisive r \<longleftrightarrow> (fst r = 200 \<longrightarrow> (\<exists>d. decision_ok d \<and> snd r = TDecision (qd_Allowed d) (qd_Reason d)))"

lemma decisive_err [simp]: "c \<noteq> 200 \<Longrightarrow> decisive (terr c m n)" "decisive internalError"
  by (simp_all add: decisive_def internalError_def)

lemma decode_decisive: "decodeJSONBody b = Inl r \<Longrightarrow> decisive r"
  by (auto simp: decodeJSONBody_def split: json_in.splits if_splits)

lemma checked_decisive:
  assumes "decides f"
  shows "decisive (fst (and_then f (or_500 (\<lambda>d. ret (200, TDecision (qd_Allowed d) (qd_Reason d)))) w))"
  using assms by (cases "fst (f w)") (auto simp: and_then_result or_500_def ret_def decisive_def decides_def internalError_def)

lemma endpoints_decisive: "decisive (fst (handleQuotaCheckUpload sv b w))" "decisive (fst (handleQuotaCheckJob sv b' w))"
proof -
  show "decisive (fst (handleQuotaCheckUpload sv b w))"
    by (cases "decodeJSONBody b") (simp_all add: handleQuotaCheckUpload_def with_body_def ret_def decode_decisive
        checked_decisive [OF decides_upload_check])
  show "decisive (fst (handleQuotaCheckJob sv b' w))"
    by (cases "decodeJSONBody b'") (simp_all add: handleQuotaCheckJob_def with_body_def ret_def decode_decisive
        checked_decisive [OF decides_job_check])
qed

lemma route_decisive: "decisive (fst (quota_route sv base url token req w))"
  by (cases req) (simp_all add: quota_route_def internalAuthMiddleware_def endpoints_decisive ret_def)

lemma route_decision:
  "client_result (reply_of (fst (quota_route sv base url token req w))) = Inr d \<Longrightarrow> decision_ok d"
  using route_decisive [of sv base url token req w]
  by (auto simp: client_result_def reply_of_def decisive_def decision_ok_def split: if_splits)

lemma deliver_decision:
  assumes "client_result (fst (deliver_to sv base url token req w)) = Inr d"
  shows "decision_ok d"
proof -
  obtain x w1 where x: "next_io w = (x, w1)" by fastforce
  show ?thesis using assms route_decision [of sv base url token req w1] by (cases x) (simp_all add: deliver_result x)
qed

interpretation client_upload: quota_checker "Client_CheckUploadSession (deliver_to sv base) c wsid n" but_script
  using reads_deliver deliver_decision
  by unfold_locales (auto simp: Client_CheckUploadSession_def client_post_result reads_def)

interpretation client_jobs: quota_checker "Client_CheckJobAdmission (deliver_to sv base) c wsid" but_script
  using reads_deliver deliver_decision
  by unfold_locales (auto simp: Client_CheckJobAdmission_def client_post_result reads_def)

text \<open>
  C36. The quota client stands for the metered checks. A client built with the service's address and
  internal token answers, for a named workspace and a size hint that is not negative, exactly what
  the metered checks answer on the state the request meets, and an error whenever the network or
  the check fails; with any other token it answers an error. It changes nothing.
\<close>

theorem quota_client_refines:
  assumes "QuotaClient_New url token timeout = Inr c" "base = trim_end_slash url" "wsid \<noteq> []" "0 \<le> n"
  shows "fst (Client_CheckUploadSession (deliver_to sv base) c wsid n w) =
      (case next_io w of (IoOk, w1) \<Rightarrow> if token = ts_internalToken sv
         then as_client_err (fst (Metered_CheckUploadSession (ts_tiers sv) wsid n w1)) else Inl ErrIO | _ \<Rightarrow> Inl ErrIO) \<and>
    fst (Client_CheckJobAdmission (deliver_to sv base) c wsid w) =
      (case next_io w of (IoOk, w1) \<Rightarrow> if token = ts_internalToken sv
         then as_client_err (fst (Metered_CheckJobAdmission (ts_tiers sv) wsid w1)) else Inl ErrIO | _ \<Rightarrow> Inl ErrIO) \<and>
    but_script (snd (Client_CheckUploadSession (deliver_to sv base) c wsid n w)) = but_script w \<and>
    but_script (snd (Client_CheckJobAdmission (deliver_to sv base) c wsid w)) = but_script w"
proof -
  have c: "qc_baseURL c = base" "qc_internalToken c = token"
    using assms(1,2) by (auto simp: QuotaClient_New_def split: if_splits)
  have un: "client_result (reply_of (terr 401 a b)) = Inl ErrIO" for a b by (simp add: client_result_def reply_of_def)
  obtain x w1 where x: "next_io w = (x, w1)" by fastforce
  have "fst (Client_CheckUploadSession (deliver_to sv base) c wsid n w) =
      (case next_io w of (IoOk, w1) \<Rightarrow> if token = ts_internalToken sv
         then as_client_err (fst (Metered_CheckUploadSession (ts_tiers sv) wsid n w1)) else Inl ErrIO | _ \<Rightarrow> Inl ErrIO)"
    by (cases x) (simp_all add: Client_CheckUploadSession_def client_post_result deliver_result c x quota_route_def
        internalAuthMiddleware_def ret_def un upload_endpoint(1) [OF assms(3,4)])
  moreover have "fst (Client_CheckJobAdmission (deliver_to sv base) c wsid w) =
      (case next_io w of (IoOk, w1) \<Rightarrow> if token = ts_internalToken sv
         then as_client_err (fst (Metered_CheckJobAdmission (ts_tiers sv) wsid w1)) else Inl ErrIO | _ \<Rightarrow> Inl ErrIO)"
    by (cases x) (simp_all add: Client_CheckJobAdmission_def client_post_result deliver_result c x quota_route_def
        internalAuthMiddleware_def ret_def un job_endpoint(1) [OF assms(3)])
  ultimately show ?thesis using client_upload.check_view client_jobs.check_view by simp
qed

definition ex_quota_tiers :: TierConfig where
  "ex_quota_tiers = \<lparr>tg_DefaultTier = ''free'', tg_Tiers = [(''free'', \<lparr>ti_EncodeHoursPerMonth = 0, ti_StorageBytes = 0, ti_MaxUploadBytes = 8,
     ti_AllowUploads = True, ti_AllowJobs = True\<rparr>)]\<rparr>"

definition ex_quota_server :: TenServer where
  "ex_quota_server = \<lparr>ts_lib = \<lparr>jwt_sign = (\<lambda>_ _. None), jwt_parse = (\<lambda>_ _ _. None), IDKey = (\<lambda>_ _ _ _ _ _. []), argon_version = 19,
     sha256_hex = (\<lambda>s. s)\<rparr>, ts_key = [], ts_AuthCodeURL = (\<lambda>_ _ _. []), ts_tiers = ex_quota_tiers, ts_accessTokenTTL = 900,
     ts_refreshTokenTTL = 9000, ts_internalToken = ''internal'', ts_cookieSecure = True\<rparr>"

definition ex_quota_db :: ten where
  "ex_quota_db = \<lparr>io_script = [], id_supply = [], clock = 0, t_users = [],
     t_workspaces = [\<lparr>ws_ID = ''w1'', ws_Name = ''n'', ws_PlanTier = ''free'', ws_CreatedBy = ''u'', ws_CreatedAt = 0\<rparr>],
     t_members = [], t_refresh = [], t_logins = [], t_apikeys = [], t_metered = [], t_rollups = [], entropy = []\<rparr>"

definition ex_quota_client :: QuotaClient where
  "ex_quota_client = \<lparr>qc_baseURL = ''http://t'', qc_internalToken = ''internal'', qc_timeout = 5000000000\<rparr>"

theorem quota_client_refines_witness:
  "QuotaClient_New ''http://t/'' ''internal'' 0 = Inr ex_quota_client \<and>
   fst (Client_CheckUploadSession (deliver_to ex_quota_server ''http://t'') ex_quota_client ''w1'' 8 ex_quota_db) = Inr allow \<and>
   fst (Client_CheckUploadSession (deliver_to ex_quota_server ''http://t'') ex_quota_client ''w1'' 9 ex_quota_db) =
     Inr (deny ReasonUploadSizeExceeded)"
proof -
  have base: "''http://t'' = trim_end_slash ''http://t/''" by (simp add: trim_end_slash_def has_suffix_def has_prefix_def)
  then have c: "QuotaClient_New ''http://t/'' ''internal'' 0 = Inr ex_quota_client" by (simp add: QuotaClient_New_def ex_quota_client_def)
  have n: "next_io ex_quota_db = (IoOk, ex_quota_db)" by (simp add: next_io_def ex_quota_db_def)
  have "fst (Metered_CheckUploadSession ex_quota_tiers ''w1'' n ex_quota_db) = Inr (if n > 8 then deny ReasonUploadSizeExceeded else allow)"
    if "0 \<le> n" for n
    using that by (simp add: Metered_CheckUploadSession_def resolveTier_def GetWorkspace_def with_io_def n and_then_def ret_def query_row_def
        Lookup_def ex_quota_tiers_def ex_quota_db_def next_io_def)
  moreover have "ts_tiers ex_quota_server = ex_quota_tiers" "ts_internalToken ex_quota_server = ''internal''" by (simp_all add: ex_quota_server_def)
  ultimately show ?thesis
    using quota_client_refines [OF c base, of "''w1''" 8 ex_quota_server ex_quota_db]
      quota_client_refines [OF c base, of "''w1''" 9 ex_quota_server ex_quota_db] c
    by (simp add: n as_client_err_def)
qed

end
