(* ===== verification/JobLifecycle.thy ===== *)
theory JobLifecycle
  imports OrchStore
begin

text \<open>
  The job life cycle as the store enforces it. \<open>store_wf\<close> is the well-formedness of the
  tables, \<open>jobs_step\<close> says how a single statement may change the job table, and
  \<open>spec_step\<close> is the abstract state machine of \<open>job.go\<close> over a map from job ids to
  states. The locale \<open>store_op\<close> is the contract between the store and everything that
  calls it; every method of \<open>store.go\<close> is an interpretation of it, and the step relation
  \<open>store_step\<close> of the whole store is built from them.
\<close>

section \<open>Well-formed tables\<close>

definition job_wf :: "Job \<Rightarrow> bool" where
  "job_wf j \<longleftrightarrow>
     ValidState (j_State j) \<and> 0 \<le> j_Attempts j \<and>
     (j_State j = StateFailed \<longleftrightarrow> j_ErrorClass j \<noteq> None) \<and>
     (\<forall>c. j_ErrorClass j = Some c \<longrightarrow> ValidErrorClass c) \<and>
     (j_State j = StateQueued \<longrightarrow> j_StartedAt j = None \<and> j_FinishedAt j = None) \<and>
     (j_State j = StateRunning \<longrightarrow>
        j_StartedAt j \<noteq> None \<and> j_FinishedAt j = None \<and> 1 \<le> j_Attempts j) \<and>
     (j_State j = StateCompleted \<longrightarrow>
        j_StartedAt j \<noteq> None \<and> j_FinishedAt j \<noteq> None \<and> 1 \<le> j_Attempts j \<and>
        j_ProgressPct j = 100 \<and> j_ETASeconds j = 0) \<and>
     (j_State j = StateFailed \<longrightarrow> j_FinishedAt j \<noteq> None)"

definition store_wf :: "orch \<Rightarrow> bool" where
  "store_wf w \<longleftrightarrow>
     unique_keys j_ID (t_jobs w) \<and> unique_keys p_ID (t_presets w) \<and>
     unique_keys s_ObjectKey (t_sources w) \<and>
     (\<forall>j \<in> set (t_jobs w). job_wf j \<and> has_key p_ID (j_PresetID j) (t_presets w))"

section \<open>How one statement may change the job table\<close>

definition same_identity :: "Job \<Rightarrow> Job \<Rightarrow> bool" where
  "same_identity j j' \<longleftrightarrow>
     j_ID j' = j_ID j \<and> j_WorkspaceID j' = j_WorkspaceID j \<and> j_UserID j' = j_UserID j \<and>
     j_PresetID j' = j_PresetID j \<and> j_SourceObjectKey j' = j_SourceObjectKey j \<and>
     j_SourceSHA256 j' = j_SourceSHA256 j \<and> j_CreatedAt j' = j_CreatedAt j"

definition job_step :: "Job \<Rightarrow> Job \<Rightarrow> bool" where
  "job_step j j' \<longleftrightarrow>
     same_identity j j' \<and>
     (j_State j' = j_State j \<or> CanTransition (j_State j) (j_State j')) \<and>
     (j_State j = StateCompleted \<longrightarrow> j' = j)"

definition jobs_step :: "Job list \<Rightarrow> Job list \<Rightarrow> bool" where
  "jobs_step js js' \<longleftrightarrow>
     list_all2 job_step js (take (length js) js') \<and>
     list_all (\<lambda>j. j_State j = StateQueued) (drop (length js) js')"

lemma job_step_refl [simp]: "job_step j j"
  by (simp add: job_step_def same_identity_def)

lemma jobs_step_refl [simp]: "jobs_step js js"
  by (simp add: jobs_step_def list_all2_refl)

lemma jobs_step_insert: "j_State j = StateQueued \<Longrightarrow> jobs_step js (js @ [j])"
  by (simp add: jobs_step_def list_all2_refl)

lemma jobs_step_update:
  "(\<And>j. j \<in> set js \<Longrightarrow> P j \<Longrightarrow> job_step j (f j)) \<Longrightarrow> jobs_step js (update_where P f js)"
  by (simp add: jobs_step_def list_all2_conv_all_nth)

section \<open>The abstract state machine\<close>

type_synonym spec = "string \<rightharpoonup> State"

inductive spec_step :: "spec \<Rightarrow> spec \<Rightarrow> bool" where
  stutter: "spec_step m m"
| create: "m i = None \<Longrightarrow> spec_step m (m(i \<mapsto> StateQueued))"
| move: "m i = Some s \<Longrightarrow> CanTransition s s' \<Longrightarrow> spec_step m (m(i \<mapsto> s'))"

inductive_cases spec_stepE: "spec_step m m'"

lemma spec_step_same: "m i = Some s \<Longrightarrow> spec_step m (m(i \<mapsto> s))"
  by (simp add: fun_upd_idem spec_step.stutter)

definition abs_jobs :: "Job list \<Rightarrow> spec" where
  "abs_jobs js = map_of (map (\<lambda>j. (j_ID j, j_State j)) js)"

lemma abs_jobs_mem: "unique_keys j_ID js \<Longrightarrow> j \<in> set js \<Longrightarrow> abs_jobs js (j_ID j) = Some (j_State j)"
  by (auto simp: abs_jobs_def unique_keys_def comp_def intro!: map_of_is_SomeI)

lemma abs_jobs_None: "abs_jobs js i = None \<longleftrightarrow> \<not> has_key j_ID i js"
  by (force simp: abs_jobs_def has_key_def map_of_eq_None_iff image_iff)

lemma has_key_abs: "has_key j_ID i js \<longleftrightarrow> abs_jobs js i \<noteq> None"
  by (simp add: abs_jobs_None)

lemma abs_jobs_insert:
  "\<not> has_key j_ID (j_ID j) js \<Longrightarrow> abs_jobs (js @ [j]) = (abs_jobs js)(j_ID j \<mapsto> j_State j)"
  using abs_jobs_None [of js "j_ID j"]
  by (auto simp: abs_jobs_def map_add_def fun_eq_iff split: option.splits)

text \<open>A guarded update of the one row with a given key is a point update of the map.\<close>

lemma abs_jobs_update:
  assumes "unique_keys j_ID js" "j \<in> set js" "P j"
    and "\<And>r. r \<in> set js \<Longrightarrow> P r \<Longrightarrow> j_ID r = j_ID j" "\<And>r. j_ID (f r) = j_ID r"
  shows "abs_jobs (update_where P f js) = (abs_jobs js)(j_ID j \<mapsto> j_State (f j))"
  using assms
proof (induction js)
  case (Cons r rs)
  have uniq: "unique_keys j_ID rs" and fresh: "\<not> has_key j_ID (j_ID r) rs"
    using Cons.prems(1) by (auto simp: unique_keys_def has_key_def)
  show ?case
  proof (cases "P r")
    case True
    have id: "j_ID r = j_ID j" by (rule Cons.prems(4)) (use True in simp_all)
    have rj: "r = j"
      by (rule unique_keys_eq [OF Cons.prems(1) _ Cons.prems(2) id]) simp
    have "\<not> P x" if "x \<in> set rs" for x
    proof
      assume "P x"
      have "j_ID x = j_ID j" by (rule Cons.prems(4)) (use that \<open>P x\<close> in simp_all)
      with fresh id that show False by (metis has_key_def imageI)
    qed
    then have "update_where P f rs = rs"
      by (auto simp: update_where_def intro!: map_idI)
    then show ?thesis
      using True rj Cons.prems(5) by (simp add: update_where_def abs_jobs_def fun_eq_iff)
  next
    case False
    then have "j \<in> set rs" using Cons.prems(2,3) by auto
    moreover from this fresh have "j_ID r \<noteq> j_ID j" by (auto simp: has_key_def)
    moreover from calculation have
      "abs_jobs (update_where P f rs) = (abs_jobs rs)(j_ID j \<mapsto> j_State (f j))"
      by (intro Cons.IH [OF uniq] Cons.prems(3) Cons.prems(5)) (auto intro: Cons.prems(4))
    ultimately show ?thesis
      using False by (auto simp: update_where_def abs_jobs_def fun_eq_iff)
  qed
qed simp

section \<open>The contract of a store operation\<close>

locale store_op =
  fixes f :: "orch \<Rightarrow> (store_err + 'a) \<times> orch"
  assumes keeps_wf: "store_wf w \<Longrightarrow> store_wf (snd (f w))"
    and legal: "store_wf w \<Longrightarrow> jobs_step (t_jobs w) (t_jobs (snd (f w)))"
    and refines: "store_wf w \<Longrightarrow> spec_step (abs_jobs (t_jobs w)) (abs_jobs (t_jobs (snd (f w))))"
begin

text \<open>A caller that runs the operation sees every completed job unchanged.\<close>

lemma completed_kept:
  assumes "store_wf w" "j \<in> set (t_jobs w)" "j_State j = StateCompleted"
  shows "j \<in> set (t_jobs (snd (f w)))"
proof -
  obtain i where i: "i < length (t_jobs w)" "t_jobs w ! i = j"
    using assms(2) by (auto simp: in_set_conv_nth)
  let ?js = "t_jobs (snd (f w))"
  have "list_all2 job_step (t_jobs w) (take (length (t_jobs w)) ?js)"
    using legal [OF assms(1)] by (simp add: jobs_step_def)
  with i assms(3) have "take (length (t_jobs w)) ?js ! i = j" "i < length ?js"
    by (auto simp: list_all2_conv_all_nth job_step_def)
  then show ?thesis using i(1) by (metis nth_mem nth_take)
qed

lemma ids_kept: "store_wf w \<Longrightarrow> has_key j_ID i (t_jobs w) \<Longrightarrow> has_key j_ID i (t_jobs (snd (f w)))"
  using refines [of w] by (auto elim!: spec_stepE simp: has_key_abs)

end

text \<open>The wrapper of the storage call keeps the contract.\<close>

lemma store_wf_env [simp]:
  "store_wf (w\<lparr>io_script := os\<rparr>) = store_wf w" "store_wf (w\<lparr>id_supply := is\<rparr>) = store_wf w"
  "store_wf (w\<lparr>clock := t\<rparr>) = store_wf w"
  by (simp_all add: store_wf_def)

lemma next_io_tables [simp]:
  assumes "next_io w = (x, w')"
  shows "t_jobs w' = t_jobs w" "t_presets w' = t_presets w" "t_sources w' = t_sources w"
    "store_wf w' = store_wf w"
  using assms by (auto simp: next_io_def split: list.splits)

lemma store_op_with_io:
  assumes "store_op f"
  shows "store_op (with_io f)"
proof unfold_locales
  fix w assume wf: "store_wf w"
  have step: "store_wf (snd (f w')) \<and> jobs_step (t_jobs w) (t_jobs (snd (f w'))) \<and>
      spec_step (abs_jobs (t_jobs w)) (abs_jobs (t_jobs (snd (f w'))))"
    if "next_io w = (x, w')" for x w'
    using that wf store_op.keeps_wf [OF assms, of w'] store_op.legal [OF assms, of w']
      store_op.refines [OF assms, of w'] by auto
  show "store_wf (snd (with_io f w))"
    by (cases rule: with_io_cases [of w f]) (use step wf in auto)
  show "jobs_step (t_jobs w) (t_jobs (snd (with_io f w)))"
    by (cases rule: with_io_cases [of w f]) (use step in auto)
  show "spec_step (abs_jobs (t_jobs w)) (abs_jobs (t_jobs (snd (with_io f w))))"
    by (cases rule: with_io_cases [of w f]) (use step in \<open>auto intro: spec_step.stutter\<close>)
qed

section \<open>Every method of the store meets the contract\<close>

text \<open>An operation that leaves the three tables alone.\<close>

lemma store_op_read:
  assumes "\<And>w. t_jobs (snd (f w)) = t_jobs w" "\<And>w. t_presets (snd (f w)) = t_presets w"
    "\<And>w. t_sources (snd (f w)) = t_sources w"
  shows "store_op f"
  by unfold_locales (simp_all add: assms store_wf_def spec_step.stutter)

text \<open>An operation that writes sources or presets but no job.\<close>

lemma store_op_no_jobs:
  assumes "\<And>w. t_jobs (snd (f w)) = t_jobs w" "\<And>w. store_wf w \<Longrightarrow> store_wf (snd (f w))"
  shows "store_op f"
  by unfold_locales (simp_all add: assms spec_step.stutter)

text \<open>
  The guarded job update. \<open>P\<close> pins the key of the row, \<open>g\<close> keeps its identity, moves
  its state along \<open>CanTransition\<close> (or not at all) and keeps the row well-formed.
\<close>

lemma store_op_update_job:
  assumes key: "\<And>j j'. P j \<Longrightarrow> P j' \<Longrightarrow> j_ID j = j_ID j'"
    and step: "\<And>t j. P j \<Longrightarrow> job_wf j \<Longrightarrow> job_step j (g t j)"
    and ident: "\<And>t j. same_identity j (g t j)"
    and wf: "\<And>t j. P j \<Longrightarrow> job_wf j \<Longrightarrow> job_wf (g t j)"
  shows "store_op (update_job P g)"
proof unfold_locales
  fix w assume w: "store_wf w"
  then have uniq: "unique_keys j_ID (t_jobs w)" and jwf: "\<And>j. j \<in> set (t_jobs w) \<Longrightarrow> job_wf j"
    by (simp_all add: store_wf_def)
  have id: "\<And>t j. j_ID (g t j) = j_ID j" and pid: "\<And>t j. j_PresetID (g t j) = j_PresetID j"
    using ident by (simp_all add: same_identity_def)
  show "jobs_step (t_jobs w) (t_jobs (snd (update_job P g w)))"
    by (auto simp: update_job_def split: option.splits intro!: jobs_step_update step jwf)
  show "store_wf (snd (update_job P g w))"
    using w by (auto simp: store_wf_def update_job_def table_simps id pid split: option.splits
        intro: wf)
  show "spec_step (abs_jobs (t_jobs w)) (abs_jobs (t_jobs (snd (update_job P g w))))"
  proof (cases "List.find P (t_jobs w)")
    case None
    then show ?thesis by (simp add: update_job_def spec_step.stutter)
  next
    case (Some j)
    then have j: "j \<in> set (t_jobs w)" "P j" by (auto dest: find_mem)
    have "abs_jobs (update_where P (g (clock w)) (t_jobs w)) =
        (abs_jobs (t_jobs w))(j_ID j \<mapsto> j_State (g (clock w) j))"
      by (rule abs_jobs_update [where P = P and j = j and js = "t_jobs w"])
        (use uniq j in \<open>auto simp: id intro: key\<close>)
    moreover have "abs_jobs (t_jobs w) (j_ID j) = Some (j_State j)"
      using uniq j(1) by (rule abs_jobs_mem)
    moreover have "job_step j (g (clock w) j)" using step j jwf by blast
    ultimately show ?thesis using Some
      by (auto simp: update_job_def job_step_def intro: spec_step.move spec_step_same)
  qed
qed

lemma store_op_post:
  assumes "store_op f" "\<And>r. snd (g r) = snd r"
  shows "store_op (\<lambda>w. g (f w))"
  using assms unfolding store_op_def by simp

lemma snd_not_found_is_conflict [simp]: "snd (not_found_is_conflict r) = snd r"
  by (cases r) (auto simp: not_found_is_conflict_def split: sum.splits store_err.splits)

interpretation GetSource_op: store_op "GetSource ws key"
  unfolding GetSource_def by (intro store_op_with_io store_op_read) simp_all

interpretation GetPreset_op: store_op "GetPreset ws i"
  unfolding GetPreset_def by (intro store_op_with_io store_op_read) simp_all

interpretation DefaultPreset_op: store_op "DefaultPreset ws"
  unfolding DefaultPreset_def
  by (intro store_op_with_io store_op_read) (simp_all split: option.splits)

interpretation ListPresets_op: store_op "ListPresets ws"
  unfolding ListPresets_def by (intro store_op_with_io store_op_read) simp_all

interpretation GetJob_op: store_op "GetJob ws i"
  unfolding GetJob_def by (intro store_op_with_io store_op_read) simp_all

interpretation ListJobs_op: store_op "ListJobs ws st n"
  unfolding ListJobs_def by (intro store_op_with_io store_op_read) simp_all

interpretation CountActiveJobs_op: store_op "CountActiveJobs ws"
  unfolding CountActiveJobs_def by (intro store_op_with_io store_op_read) simp_all

interpretation HasActiveJobForSource_op: store_op "HasActiveJobForSource ws key p"
  unfolding HasActiveJobForSource_def by (intro store_op_with_io store_op_read) simp_all

lemma has_key_append [simp]: "has_key k x (rows @ [r]) \<longleftrightarrow> has_key k x rows \<or> k r = x"
  by (auto simp: has_key_def)

lemma has_key_update [simp]:
  "(\<And>r. P r \<Longrightarrow> k (f r) = k r) \<Longrightarrow> has_key k x (update_where P f rows) = has_key k x rows"
  unfolding has_key_def by (metis list.set_map map_update_where)

interpretation UpsertSource_op: store_op "UpsertSource s"
  unfolding UpsertSource_def
  by (intro store_op_with_io store_op_no_jobs) (auto simp: store_wf_def table_simps)

interpretation UpdatePreset_op: store_op "UpdatePreset pr"
  unfolding UpdatePreset_def
  by (intro store_op_with_io store_op_no_jobs)
    (auto simp: store_wf_def table_simps preset_set_def Let_def split: option.splits)

text \<open>The two inserts first draw an identifier.\<close>

lemma store_op_new_id:
  assumes "\<And>i. store_op (f i)"
  shows "store_op (\<lambda>w. case new_id w of (Inl e, w') \<Rightarrow> (Inl e, w') | (Inr i, w') \<Rightarrow> f i w')"
proof -
  have "store_wf w' = store_wf w \<and> t_jobs w' = t_jobs w" if "new_id w = (r, w')" for w r w'
    using that by (auto simp: new_id_def split: list.splits)
  then show ?thesis
    using assms unfolding store_op_def
    by (fastforce split: prod.splits sum.splits intro: spec_step.stutter)
qed

interpretation CreatePreset_op: store_op "CreatePreset pr"
  unfolding CreatePreset_def
  by (intro store_op_new_id store_op_with_io store_op_no_jobs)
    (auto simp: store_wf_def table_simps Let_def)

interpretation CreateJob_op: store_op "CreateJob j"
proof -
  have "store_op (with_io (\<lambda>w.
      if has_key j_ID i (t_jobs w) \<or> \<not> has_key p_ID (j_PresetID j) (t_presets w) then (Inl ErrIO, w)
      else (Inr (row w), w\<lparr>t_jobs := t_jobs w @ [row w]\<rparr>)))"
    if row: "\<And>w. j_ID (row w) = i \<and> j_State (row w) = StateQueued \<and> job_wf (row w) \<and>
      j_PresetID (row w) = j_PresetID j" for i row
  proof (intro store_op_with_io, unfold_locales)
    fix w :: orch
    let ?g = "\<lambda>w. if has_key j_ID i (t_jobs w) \<or> \<not> has_key p_ID (j_PresetID j) (t_presets w)
      then (Inl ErrIO, w) else (Inr (row w), w\<lparr>t_jobs := t_jobs w @ [row w]\<rparr>)"
    assume "store_wf w"
    then show "store_wf (snd (?g w))" using row by (auto simp: store_wf_def table_simps)
    show "jobs_step (t_jobs w) (t_jobs (snd (?g w)))" using row by (simp add: jobs_step_insert)
    show "spec_step (abs_jobs (t_jobs w)) (abs_jobs (t_jobs (snd (?g w))))"
      using row [of w] abs_jobs_insert [of "row w" "t_jobs w"] abs_jobs_None [of "t_jobs w" i]
      by (auto intro: spec_step.stutter spec_step.create)
  qed
  then show "store_op (CreateJob j)"
    unfolding CreateJob_def Let_def by (intro store_op_new_id) (simp add: job_wf_def)
qed

lemmas job_step_simps = job_step_def same_identity_def job_wf_def is_active_def
lemmas job_sets = claim_set_def complete_set_def fail_set_def retry_set_def

interpretation MarkCompleted_op: store_op "MarkCompleted i outputs"
  unfolding MarkCompleted_def
  by (rule store_op_post, rule store_op_with_io, rule store_op_update_job)
    (auto simp: job_step_simps job_sets)

lemma fail_set_ok:
  "job_wf j \<Longrightarrow> ValidErrorClass c \<Longrightarrow> job_wf (fail_set c m t j)"
  "is_active j \<Longrightarrow> job_step j (fail_set c m t j)"
  "same_identity j (fail_set c m t j)"
  by (auto simp: job_wf_def fail_set_def is_active_def job_step_def same_identity_def)

lemma MarkFailed_valid:
  "ValidErrorClass cls \<Longrightarrow> MarkFailed i cls msg = (\<lambda>w. not_found_is_conflict
     (with_io (update_job (\<lambda>j. j_ID j = i \<and> is_active j) (fail_set cls msg)) w))"
  by (simp add: MarkFailed_def fun_eq_iff)

lemma MarkFailed_invalid: "\<not> ValidErrorClass cls \<Longrightarrow> MarkFailed i cls msg = (\<lambda>w. (Inl ErrIO, w))"
  by (simp add: MarkFailed_def fun_eq_iff)

interpretation MarkFailed_op: store_op "MarkFailed i cls msg"
proof (cases "ValidErrorClass cls")
  case True
  show "store_op (MarkFailed i cls msg)"
    unfolding MarkFailed_valid [OF True]
    by (rule store_op_post, rule store_op_with_io, rule store_op_update_job)
      (use True in \<open>simp_all add: fail_set_ok\<close>)
next
  case False
  show "store_op (MarkFailed i cls msg)"
    unfolding MarkFailed_invalid [OF False] by (rule store_op_read) simp_all
qed

lemma GetJob_tables:
  "GetJob ws i w = (r, w') \<Longrightarrow> t_jobs w' = t_jobs w \<and> store_wf w' = store_wf w"
  by (auto simp: GetJob_def with_io_def split: prod.splits io.splits)

lemma missing_or_conflict_tables [simp]:
  "t_jobs (snd (missing_or_conflict ws i r)) = t_jobs (snd r)"
  "store_wf (snd (missing_or_conflict ws i r)) = store_wf (snd r)"
  by (cases r; auto simp: missing_or_conflict_def dest!: GetJob_tables
      split: prod.splits sum.splits store_err.splits)+

lemma store_op_missing: "store_op f \<Longrightarrow> store_op (\<lambda>w. missing_or_conflict ws i (f w))"
  unfolding store_op_def by simp

interpretation RetryJob_op: store_op "RetryJob ws i"
  unfolding RetryJob_def
  by (rule store_op_missing, rule store_op_with_io, rule store_op_update_job)
    (auto simp: job_step_simps job_sets)

interpretation CancelQueued_op: store_op "CancelQueued ws i"
  unfolding CancelQueued_def
  by (rule store_op_missing, rule store_op_with_io, rule store_op_update_job)
    (auto simp: job_step_simps job_sets)

lemma oldest_queued_SomeD:
  assumes "oldest_queued w = Some q"
  shows "q \<in> set (t_jobs w) \<and> j_State q = StateQueued \<and>
    (\<forall>j \<in> set (t_jobs w). j_State j = StateQueued \<longrightarrow> j_QueuedAt q \<le> j_QueuedAt j)"
proof -
  have "q \<in> set (filter (\<lambda>j. j_State j = StateQueued) (t_jobs w))"
    using assms unfolding oldest_queued_def by (rule first_least_mem)
  moreover have "j_QueuedAt q \<le> j_QueuedAt j"
    if "j \<in> set (filter (\<lambda>j. j_State j = StateQueued) (t_jobs w))" for j
    using assms that unfolding oldest_queued_def by (rule first_least_least)
  ultimately show ?thesis by auto
qed

lemma oldest_queued_None: "oldest_queued w = None \<longleftrightarrow> (\<forall>j \<in> set (t_jobs w). j_State j \<noteq> StateQueued)"
  by (auto simp: oldest_queued_def filter_empty_conv)

text \<open>
  With unique ids, the claim statement touches exactly the chosen queued row, so its
  \<open>WHERE id = (...)\<close> is the guard \<open>id = ... AND state = 'queued'\<close>.
\<close>

lemma update_job_cong:
  assumes "\<And>j. j \<in> set (t_jobs w) \<Longrightarrow> P j = Q j"
  shows "update_job P g w = update_job Q g w"
proof -
  have "update_where P (g (clock w)) (t_jobs w) = update_where Q (g (clock w)) (t_jobs w)"
    using assms by (simp add: update_where_def)
  moreover have "List.find P (t_jobs w) = List.find Q (t_jobs w)"
    using assms by (simp cong: find_cong)
  ultimately show ?thesis by (simp add: update_job_def split: option.splits)
qed

lemma claim_eq:
  assumes "store_wf w" "oldest_queued w = Some q"
  shows "update_job (\<lambda>j. j_ID j = j_ID q) claim_set w =
    update_job (\<lambda>j. j_ID j = j_ID q \<and> j_State j = StateQueued) claim_set w"
proof (rule update_job_cong)
  fix j assume j: "j \<in> set (t_jobs w)"
  have q: "q \<in> set (t_jobs w)" "j_State q = StateQueued"
    using oldest_queued_SomeD [OF assms(2)] by auto
  have "j_ID j = j_ID q \<Longrightarrow> j = q"
    using assms(1) j q(1) unique_keys_eq unfolding store_wf_def by metis
  with q(2) show "(j_ID j = j_ID q) = (j_ID j = j_ID q \<and> j_State j = StateQueued)" by auto
qed

lemma claim_update_op: "store_op (update_job (\<lambda>j. j_ID j = i \<and> j_State j = StateQueued) claim_set)"
  by (rule store_op_update_job) (auto simp: job_step_simps job_sets)

interpretation ClaimNextQueued_op: store_op ClaimNextQueued
proof -
  let ?c = "\<lambda>w. case oldest_queued w of None \<Rightarrow> (Inl ErrNotFound, w)
    | Some q \<Rightarrow> update_job (\<lambda>j. j_ID j = j_ID q) claim_set w"
  have "store_wf (snd (?c w)) \<and> jobs_step (t_jobs w) (t_jobs (snd (?c w))) \<and>
      spec_step (abs_jobs (t_jobs w)) (abs_jobs (t_jobs (snd (?c w))))" if "store_wf w" for w
    using that store_op.keeps_wf [OF claim_update_op] store_op.legal [OF claim_update_op]
      store_op.refines [OF claim_update_op]
    by (auto simp: claim_eq intro: spec_step.stutter split: option.splits)
  then have "store_op ?c" by unfold_locales auto
  then show "store_op ClaimNextQueued"
    unfolding ClaimNextQueued_def by (rule store_op_with_io)
qed

interpretation UpdateProgress_op: store_op "UpdateProgress i pct fps spd eta outs"
proof -
  let ?P = "\<lambda>j. j_ID j = i \<and> j_State j = StateRunning"
  let ?g = "\<lambda>t j. j\<lparr>j_ProgressPct := pct, j_FPS := fps, j_SpeedX := spd, j_ETASeconds := eta,
    j_Outputs := outs, j_UpdatedAt := t\<rparr>"
  have op: "store_op (update_job ?P ?g)"
    by (rule store_op_update_job) (auto simp: job_step_simps)
  have "snd (update_job ?P ?g w) = w\<lparr>t_jobs := update_where ?P (?g (clock w)) (t_jobs w)\<rparr>" for w
    by (cases w) (simp add: update_job_def update_where_none split: option.splits)
  then have "store_op (\<lambda>w. (Inr () :: store_err + unit, w\<lparr>t_jobs := update_where ?P (?g (clock w)) (t_jobs w)\<rparr>))"
    using op unfolding store_op_def by simp
  then show "store_op (UpdateProgress i pct fps spd eta outs)"
    unfolding UpdateProgress_def by (rule store_op_with_io)
qed

section \<open>The step relation of the store\<close>

text \<open>
  One rule per method, called by anyone with any arguments and any failure script, and one
  for the environment: time passes, identifiers and failures are drawn, and the parts of
  the process state outside the database change.
\<close>

definition same_tables :: "orch \<Rightarrow> orch \<Rightarrow> bool" where
  "same_tables w w' \<longleftrightarrow>
     t_jobs w' = t_jobs w \<and> t_presets w' = t_presets w \<and> t_sources w' = t_sources w"

inductive store_step :: "orch \<Rightarrow> orch \<Rightarrow> bool" where
  environment: "same_tables w w' \<Longrightarrow> store_step w w'"
| upsert_source: "store_step w (snd (UpsertSource s w))"
| create_preset: "store_step w (snd (CreatePreset pr w))"
| update_preset: "store_step w (snd (UpdatePreset pr w))"
| create_job: "store_step w (snd (CreateJob j w))"
| claim: "store_step w (snd (ClaimNextQueued w))"
| progress: "store_step w (snd (UpdateProgress i pct fps spd eta outs w))"
| completed: "store_step w (snd (MarkCompleted i outs w))"
| failed: "store_step w (snd (MarkFailed i cls msg w))"
| retry: "store_step w (snd (RetryJob ws i w))"
| cancel: "store_step w (snd (CancelQueued ws i w))"

definition empty_store :: "orch \<Rightarrow> bool" where
  "empty_store w \<longleftrightarrow> t_jobs w = [] \<and> t_presets w = [] \<and> t_sources w = []"

inductive store_reachable :: "orch \<Rightarrow> bool" where
  start: "empty_store w \<Longrightarrow> store_reachable w"
| step: "store_reachable w \<Longrightarrow> store_step w w' \<Longrightarrow> store_reachable w'"

lemma same_tables_wf: "same_tables w w' \<Longrightarrow> store_wf w' = store_wf w"
  by (simp add: same_tables_def store_wf_def)

lemmas op_wf = UpsertSource_op.keeps_wf CreatePreset_op.keeps_wf UpdatePreset_op.keeps_wf
  CreateJob_op.keeps_wf ClaimNextQueued_op.keeps_wf UpdateProgress_op.keeps_wf
  MarkCompleted_op.keeps_wf MarkFailed_op.keeps_wf RetryJob_op.keeps_wf CancelQueued_op.keeps_wf

lemmas op_legal = UpsertSource_op.legal CreatePreset_op.legal UpdatePreset_op.legal
  CreateJob_op.legal ClaimNextQueued_op.legal UpdateProgress_op.legal
  MarkCompleted_op.legal MarkFailed_op.legal RetryJob_op.legal CancelQueued_op.legal

lemmas op_refines = UpsertSource_op.refines CreatePreset_op.refines UpdatePreset_op.refines
  CreateJob_op.refines ClaimNextQueued_op.refines UpdateProgress_op.refines
  MarkCompleted_op.refines MarkFailed_op.refines RetryJob_op.refines CancelQueued_op.refines

lemma store_step_wf: "store_step w w' \<Longrightarrow> store_wf w \<Longrightarrow> store_wf w'"
  by (induction rule: store_step.induct) (simp_all add: same_tables_wf op_wf)

lemma store_step_jobs: "store_step w w' \<Longrightarrow> store_wf w \<Longrightarrow> jobs_step (t_jobs w) (t_jobs w')"
  by (induction rule: store_step.induct) (simp_all add: same_tables_def op_legal)

lemma store_step_spec:
  "store_step w w' \<Longrightarrow> store_wf w \<Longrightarrow> spec_step (abs_jobs (t_jobs w)) (abs_jobs (t_jobs w'))"
  by (induction rule: store_step.induct)
    (simp_all add: same_tables_def op_refines spec_step.stutter)

lemma reachable_wf: "store_reachable w \<Longrightarrow> store_wf w"
proof (induction rule: store_reachable.induct)
  case (start w)
  then show ?case by (simp add: empty_store_def store_wf_def unique_keys_def)
next
  case (step w w')
  then show ?case by (blast intro: store_step_wf)
qed

text \<open>A completed row stays as it is along every run.\<close>

lemma completed_step:
  assumes "store_step w w'" "store_wf w" "j \<in> set (t_jobs w)" "j_State j = StateCompleted"
  shows "j \<in> set (t_jobs w')"
proof -
  have js: "jobs_step (t_jobs w) (t_jobs w')" using assms(1,2) by (rule store_step_jobs)
  obtain i where i: "i < length (t_jobs w)" "t_jobs w ! i = j"
    using assms(3) by (auto simp: in_set_conv_nth)
  with js assms(4) have "take (length (t_jobs w)) (t_jobs w') ! i = j" "i < length (t_jobs w')"
    by (auto simp: jobs_step_def job_step_def list_all2_conv_all_nth)
  with i(1) show ?thesis by (metis nth_mem nth_take)
qed

lemma completed_run:
  assumes "store_step\<^sup>*\<^sup>* w w'" "store_wf w" "j \<in> set (t_jobs w)" "j_State j = StateCompleted"
  shows "store_wf w' \<and> j \<in> set (t_jobs w')"
  using assms(1)
proof (induction rule: rtranclp_induct)
  case base
  then show ?case using assms by simp
next
  case (step y z)
  then show ?case using assms(4) by (blast intro: completed_step store_step_wf)
qed

section \<open>The queue discipline\<close>

lemma claim_set_state: "j_State (claim_set t j) = StateRunning"
  by (simp add: claim_set_def)

lemma claim_result:
  assumes "ClaimNextQueued w = (Inr j, w')" "store_wf w"
  shows "\<exists>q \<in> set (t_jobs w). j_State q = StateQueued \<and> j = claim_set (clock w) q \<and>
    j \<in> set (t_jobs w') \<and>
    (\<forall>r \<in> set (t_jobs w). j_State r = StateQueued \<longrightarrow> j_QueuedAt q \<le> j_QueuedAt r) \<and>
    {r \<in> set (t_jobs w'). j_State r = StateQueued} = {r \<in> set (t_jobs w). j_State r = StateQueued} - {q}"
proof -
  obtain w0 where w0: "next_io w = (IoOk, w0)" and c: "(case oldest_queued w0 of
      None \<Rightarrow> (Inl ErrNotFound, w0) | Some q \<Rightarrow> update_job (\<lambda>j. j_ID j = j_ID q) claim_set w0) = (Inr j, w')"
    using assms(1) unfolding ClaimNextQueued_def by (rule with_io_Inr)
  obtain q where q: "oldest_queued w0 = Some q"
    using c by (cases "oldest_queued w0") auto
  have tj: "t_jobs w0 = t_jobs w" "clock w0 = clock w" using w0 by simp_all
  have qs: "q \<in> set (t_jobs w)" "j_State q = StateQueued"
    "\<forall>r \<in> set (t_jobs w). j_State r = StateQueued \<longrightarrow> j_QueuedAt q \<le> j_QueuedAt r"
    using oldest_queued_SomeD [OF q] by (auto simp: tj)
  have uniq: "unique_keys j_ID (t_jobs w)" using assms(2) by (simp add: store_wf_def)
  have "List.find (\<lambda>j. j_ID j = j_ID q) (t_jobs w) = Some q"
    by (rule find_unique [OF uniq qs(1)]) auto
  then have j: "j = claim_set (clock w) q"
    and w': "t_jobs w' = update_where (\<lambda>j. j_ID j = j_ID q) (claim_set (clock w)) (t_jobs w)"
    using c by (auto simp: q update_job_def tj)
  have only: "set (t_jobs w') = insert j (set (t_jobs w) - {q})"
    unfolding w' j by (rule set_update_unique [OF uniq qs(1)])
  have "{r \<in> set (t_jobs w'). j_State r = StateQueued} = {r \<in> set (t_jobs w). j_State r = StateQueued} - {q}"
    unfolding only using claim_set_state [of "clock w" q] j by auto
  moreover have "j \<in> set (t_jobs w')"
    unfolding only by simp
  ultimately show ?thesis using qs j by blast
qed

section \<open>A concrete run\<close>

text \<open>A small deployment: one preset, then one queued job, then the job claimed.\<close>

definition ex_preset :: Preset where
  "ex_preset = \<lparr>p_ID = [], p_WorkspaceID = ''ws'', p_Name = ''web'', p_Container = ContainerMP4,
     p_VideoCodec = CodecH264, p_RateControl = RateControlCRF, p_CRF = 23, p_BitrateKbps = 0,
     p_MaxBitrateKbps = 0, p_GOPLength = 60, p_SpeedPreset = ''p4'',
     p_Ladder = [\<lparr>r_Name = ''720p'', r_Width = 1280, r_Height = 720\<rparr>],
     p_CreatedAt = 0, p_UpdatedAt = 0\<rparr>"

definition ex_job :: Job where
  "ex_job = \<lparr>j_ID = [], j_WorkspaceID = ''ws'', j_UserID = ''u'', j_PresetID = ''p'',
     j_SourceObjectKey = ''k'', j_SourceSHA256 = ''h'', j_State = StateQueued, j_ErrorClass = None,
     j_ErrorMessage = [], j_Attempts = 0, j_ProgressPct = 0, j_FPS = 0, j_SpeedX = 0,
     j_ETASeconds = 0, j_Outputs = [], j_CreatedAt = 0, j_QueuedAt = 0, j_StartedAt = None,
     j_FinishedAt = None, j_UpdatedAt = 0\<rparr>"

definition ex_start :: orch where
  "ex_start = \<lparr>io_script = [], id_supply = [''p'', ''j'', ''j2'', ''m''], clock = 7, t_sources = [],
     t_presets = [], t_jobs = [], published_metering = [], published_progress = [],
     wake_pending = False, cancels = [], canceled = [],
     stopping = False, arrivals = [], bucket = []\<rparr>"

definition ex_with_preset :: orch where
  "ex_with_preset = snd (CreatePreset ex_preset ex_start)"

definition ex_queued :: orch where
  "ex_queued = snd (CreateJob ex_job ex_with_preset)"

definition ex_running :: orch where
  "ex_running = snd (ClaimNextQueued ex_queued)"

definition ex_completed :: orch where
  "ex_completed = snd (MarkCompleted ''j'' [] ex_running)"

definition ex_row :: Job where
  "ex_row = ex_job\<lparr>j_ID := ''j'', j_CreatedAt := 7, j_QueuedAt := 7, j_UpdatedAt := 7\<rparr>"

lemmas ex_eval = ex_start_def ex_preset_def ex_job_def with_io_def next_io_def new_id_def
  CreatePreset_def CreateJob_def preset_columns_ok_def preset_name_taken_def in_i32_def
  has_key_def ValidSpeedPreset_def Let_def

lemma ex_with_preset_eq: "ex_with_preset =
    ex_start\<lparr>id_supply := [''j'', ''j2'', ''m''],
      t_presets := [ex_preset\<lparr>p_ID := ''p'', p_CreatedAt := 7, p_UpdatedAt := 7\<rparr>]\<rparr>"
  by (simp add: ex_with_preset_def ex_eval)

lemma ex_queued_eq:
  "ex_queued = ex_with_preset\<lparr>id_supply := [''j2'', ''m''], t_jobs := [ex_row]\<rparr>"
  unfolding ex_queued_def ex_with_preset_eq by (simp add: ex_eval ex_row_def)

lemma ex_running_eq: "ex_running = ex_queued\<lparr>t_jobs := [claim_set 7 ex_row]\<rparr>"
  unfolding ex_running_def ClaimNextQueued_def ex_queued_eq ex_with_preset_eq
  by (simp add: with_io_def next_io_def ex_start_def oldest_queued_def update_job_def
      ex_row_def ex_job_def update_where_def)

lemma ex_completed_eq:
  "ex_completed = ex_running\<lparr>t_jobs := [complete_set [] 7 (claim_set 7 ex_row)]\<rparr>"
  unfolding ex_completed_def MarkCompleted_def ex_running_eq ex_queued_eq ex_with_preset_eq
  by (simp add: with_io_def next_io_def ex_start_def update_job_def ex_row_def ex_job_def
      update_where_def claim_set_def not_found_is_conflict_def)

lemma ex_reachable:
  "store_reachable ex_start" "store_reachable ex_with_preset" "store_reachable ex_queued"
  "store_reachable ex_running" "store_reachable ex_completed"
proof -
  show 0: "store_reachable ex_start"
    by (rule store_reachable.start) (simp add: empty_store_def ex_start_def)
  show 1: "store_reachable ex_with_preset"
    unfolding ex_with_preset_def by (rule store_reachable.step [OF 0 store_step.create_preset])
  show 2: "store_reachable ex_queued"
    unfolding ex_queued_def by (rule store_reachable.step [OF 1 store_step.create_job])
  show 3: "store_reachable ex_running"
    unfolding ex_running_def by (rule store_reachable.step [OF 2 store_step.claim])
  show "store_reachable ex_completed"
    unfolding ex_completed_def by (rule store_reachable.step [OF 3 store_step.completed])
qed

section \<open>Properties\<close>

lemma jobs_step_old:
  assumes "jobs_step js js'" "j \<in> set js"
  shows "\<exists>j' \<in> set js'. job_step j j'"
proof -
  obtain i where i: "i < length js" "js ! i = j" using assms(2) by (auto simp: in_set_conv_nth)
  have "list_all2 job_step js (take (length js) js')" using assms(1) by (simp add: jobs_step_def)
  with i have "i < length js'" "job_step j (js' ! i)" by (auto simp: list_all2_conv_all_nth)
  then show ?thesis by (meson nth_mem)
qed

lemma jobs_step_new:
  assumes "jobs_step js js'" "j' \<in> set js'"
  shows "(\<exists>j \<in> set js. j_ID j = j_ID j') \<or> j_State j' = StateQueued"
proof -
  have l2: "list_all2 job_step js (take (length js) js')"
    and q: "list_all (\<lambda>j. j_State j = StateQueued) (drop (length js) js')"
    using assms(1) by (simp_all add: jobs_step_def)
  have "j' \<in> set (take (length js) js') \<or> j' \<in> set (drop (length js) js')"
    using assms(2) by (metis Un_iff append_take_drop_id set_append)
  then show ?thesis
  proof
    assume "j' \<in> set (take (length js) js')"
    then obtain i where "i < length js" "j' = take (length js) js' ! i"
      by (auto simp: in_set_conv_nth)
    then have "js ! i \<in> set js" "job_step (js ! i) j'"
      using l2 by (simp_all add: list_all2_conv_all_nth)
    then show ?thesis by (force simp: job_step_def same_identity_def)
  next
    assume "j' \<in> set (drop (length js) js')"
    with q show ?thesis by (auto simp: list_all_iff)
  qed
qed

text \<open>
  C1. Whatever methods of the store run, in whatever order and with whatever failures, one
  step never loses a job, never changes its identity, and moves its state only along the
  transition table of \<open>CanTransition\<close>; a job that appears appears queued.
\<close>

theorem job_transitions_legal:
  assumes "store_reachable w" "store_step w w'"
  shows "(\<forall>j \<in> set (t_jobs w). \<exists>j' \<in> set (t_jobs w').
      same_identity j j' \<and> (j_State j' = j_State j \<or> CanTransition (j_State j) (j_State j'))) \<and>
    (\<forall>j' \<in> set (t_jobs w'). (\<exists>j \<in> set (t_jobs w). j_ID j = j_ID j') \<or> j_State j' = StateQueued)"
proof -
  have js: "jobs_step (t_jobs w) (t_jobs w')"
    using assms by (intro store_step_jobs reachable_wf)
  show ?thesis
    using jobs_step_old [OF js] jobs_step_new [OF js] unfolding job_step_def by blast
qed

theorem job_transitions_legal_witness:
  "\<exists>j' \<in> set (t_jobs ex_running). same_identity ex_row j' \<and>
     (j_State j' = StateQueued \<or> CanTransition StateQueued (j_State j'))"
proof -
  have "store_step ex_queued ex_running"
    unfolding ex_running_def by (rule store_step.claim)
  from job_transitions_legal [OF ex_reachable(3) this]
  have "\<forall>j \<in> set (t_jobs ex_queued). \<exists>j' \<in> set (t_jobs ex_running). same_identity j j' \<and>
     (j_State j' = j_State j \<or> CanTransition (j_State j) (j_State j'))" by blast
  then show ?thesis by (simp add: ex_queued_eq ex_row_def ex_job_def)
qed

text \<open>
  C2. The tables stay well-formed in every reachable state: unique keys, jobs that point to
  an existing preset, an error class exactly on the failed jobs, start and finish times that
  agree with the state, and a completed job at 100 percent.
\<close>

theorem reachable_store_wf:
  assumes "store_reachable w"
  shows "store_wf w"
  using assms by (rule reachable_wf)

theorem reachable_store_wf_witness: "store_wf ex_completed"
  by (rule reachable_store_wf) (rule ex_reachable)

text \<open>
  C3. Refinement: seen as a map from job ids to states, every step of the store is a step of
  the abstract machine, which creates a fresh queued job, moves one job along
  \<open>CanTransition\<close>, or does nothing.
\<close>

theorem store_refines_machine:
  assumes "store_reachable w" "store_step w w'"
  shows "spec_step (abs_jobs (t_jobs w)) (abs_jobs (t_jobs w'))"
  using assms by (intro store_step_spec reachable_wf)

theorem store_refines_machine_witness:
  "spec_step (abs_jobs [ex_row]) (abs_jobs [claim_set 7 ex_row])"
proof -
  have "store_step ex_queued ex_running"
    unfolding ex_running_def by (rule store_step.claim)
  from store_refines_machine [OF ex_reachable(3) this]
  show ?thesis by (simp add: ex_running_eq ex_queued_eq)
qed

text \<open>
  C4. A completed job is final: no later sequence of store calls alters any field of its row.
\<close>

theorem completed_job_final:
  assumes "store_reachable w" "store_step\<^sup>*\<^sup>* w w'" "j \<in> set (t_jobs w)" "j_State j = StateCompleted"
  shows "j \<in> set (t_jobs w')"
  using completed_run [OF assms(2) reachable_wf [OF assms(1)] assms(3,4)] by blast

theorem completed_job_final_witness:
  "complete_set [] 7 (claim_set 7 ex_row)
     \<in> set (t_jobs (snd (MarkFailed ''j'' ErrorInternal ''late'' ex_completed)))"
  by (rule completed_job_final [OF ex_reachable(5)])
    (auto simp: ex_completed_eq complete_set_def intro: store_step.failed)

text \<open>
  A successful claim takes a job that was queued longest: it returns that row moved to
  running, with its attempt counted, and removes exactly that job from the queue.
\<close>

theorem claim_takes_oldest:
  assumes "store_reachable w" "ClaimNextQueued w = (Inr j, w')"
  shows "\<exists>q \<in> set (t_jobs w). j_State q = StateQueued \<and> j = claim_set (clock w) q \<and>
    j \<in> set (t_jobs w') \<and> j_State j = StateRunning \<and> j_Attempts j = j_Attempts q + 1 \<and>
    (\<forall>r \<in> set (t_jobs w). j_State r = StateQueued \<longrightarrow> j_QueuedAt q \<le> j_QueuedAt r) \<and>
    {r \<in> set (t_jobs w'). j_State r = StateQueued} = {r \<in> set (t_jobs w). j_State r = StateQueued} - {q}"
proof -
  obtain q where "q \<in> set (t_jobs w)" "j_State q = StateQueued" "j = claim_set (clock w) q"
    "j \<in> set (t_jobs w')"
    "\<forall>r \<in> set (t_jobs w). j_State r = StateQueued \<longrightarrow> j_QueuedAt q \<le> j_QueuedAt r"
    "{r \<in> set (t_jobs w'). j_State r = StateQueued} = {r \<in> set (t_jobs w). j_State r = StateQueued} - {q}"
    using claim_result [OF assms(2) reachable_wf [OF assms(1)]] by blast
  then show ?thesis by (intro bexI [of _ q]) (simp_all add: claim_set_def)
qed

theorem claim_takes_oldest_witness:
  "\<exists>q \<in> set (t_jobs ex_queued). j_State q = StateQueued \<and>
     claim_set 7 ex_row = claim_set (clock ex_queued) q"
proof -
  have "ClaimNextQueued ex_queued = (Inr (claim_set 7 ex_row), ex_running)"
    unfolding ex_running_def ClaimNextQueued_def ex_queued_eq ex_with_preset_eq
    by (simp add: with_io_def next_io_def ex_start_def oldest_queued_def update_job_def
        ex_row_def ex_job_def)
  from claim_takes_oldest [OF ex_reachable(3) this] show ?thesis by blast
qed

end
