(* ===== verification/Handlers.thy ===== *)
theory Handlers
  imports JobLifecycle ObjectKeys
begin

text \<open>
  What the orchestrator's components share: publication of metering events
  (\<open>internal/metering/metering.go\<close>) and of job progress (\<open>internal/natsio/natsio.go\<close>),
  and the contract \<open>store_prog\<close> of a program over the store. The HTTP handlers, the
  landed-object consumer and the job runner are all such programs: whatever they do to the
  tables is a sequence of the store's own steps, so they inherit its invariants.
\<close>

section \<open>Publishing\<close>

definition Emit ::
  "string \<Rightarrow> string \<Rightarrow> MeteringKind \<Rightarrow> string \<Rightarrow> int option \<Rightarrow> real option \<Rightarrow> (orch, unit) op" where
  "Emit ws user kind job bytes secs =
     and_then new_id (\<lambda>r. case r of
       Inl e \<Rightarrow> ret (Inl e)
     | Inr i \<Rightarrow> with_io (\<lambda>w.
         (Inr (), w\<lparr>published_metering := published_metering w @
            [\<lparr>me_EventID = i, me_WorkspaceID = ws, me_UserID = user, me_Kind = kind,
              me_Bytes = bytes, me_EncodeSeconds = secs, me_JobID = job, me_At = clock w\<rparr>]\<rparr>)))"

definition Publish :: "JobProgress \<Rightarrow> (orch, unit) op" where
  "Publish ev = with_io (\<lambda>w. (Inr (), w\<lparr>published_progress := published_progress w @ [ev]\<rparr>))"

definition Wake :: "orch \<Rightarrow> unit \<times> orch" where
  "Wake w = ((), w\<lparr>wake_pending := True\<rparr>)"

section \<open>Programs over the store\<close>

locale store_prog =
  fixes f :: "orch \<Rightarrow> 'a \<times> orch"
  assumes runs: "store_step\<^sup>*\<^sup>* w (snd (f w))"
begin

lemma reachable: "store_reachable w \<Longrightarrow> store_reachable (snd (f w))"
  using runs [of w] by (rule rtranclp_induct) (auto intro: store_reachable.step)

lemma keeps_wf: "store_wf w \<Longrightarrow> store_wf (snd (f w))"
  using runs [of w] by (rule rtranclp_induct) (auto intro: store_step_wf)

lemma refines: "store_wf w \<Longrightarrow> spec_step\<^sup>*\<^sup>* (abs_jobs (t_jobs w)) (abs_jobs (t_jobs (snd (f w))))"
proof -
  assume wf: "store_wf w"
  from runs [of w]
  have "store_wf (snd (f w)) \<and> spec_step\<^sup>*\<^sup>* (abs_jobs (t_jobs w)) (abs_jobs (t_jobs (snd (f w))))"
  proof (rule rtranclp_induct)
    show "store_wf w \<and> spec_step\<^sup>*\<^sup>* (abs_jobs (t_jobs w)) (abs_jobs (t_jobs w))" using wf by simp
  next
    fix y z
    assume "store_step y z" "store_wf y \<and> spec_step\<^sup>*\<^sup>* (abs_jobs (t_jobs w)) (abs_jobs (t_jobs y))"
    then show "store_wf z \<and> spec_step\<^sup>*\<^sup>* (abs_jobs (t_jobs w)) (abs_jobs (t_jobs z))"
      using store_step_wf store_step_spec by (meson rtranclp.rtrancl_into_rtrancl)
  qed
  then show ?thesis by simp
qed

lemma completed_kept:
  "store_wf w \<Longrightarrow> j \<in> set (t_jobs w) \<Longrightarrow> j_State j = StateCompleted \<Longrightarrow> j \<in> set (t_jobs (snd (f w)))"
  using completed_run [OF runs] by blast

end

text \<open>A program that leaves the tables alone.\<close>

locale store_silent =
  fixes f :: "orch \<Rightarrow> 'a \<times> orch"
  assumes silent: "same_tables w (snd (f w))"

sublocale store_silent \<subseteq> store_prog
  by unfold_locales (intro r_into_rtranclp store_step.environment silent)

named_theorems store_progs \<open>calls that are programs over the store\<close>

lemma store_progI: "(\<And>w. store_step\<^sup>*\<^sup>* w (snd (f w))) \<Longrightarrow> store_prog f"
  by unfold_locales

lemma store_prog_step: "(\<And>w. store_step w (snd (f w))) \<Longrightarrow> store_prog f"
  by (intro store_progI r_into_rtranclp)

lemma store_prog_silent: "(\<And>w. same_tables w (snd (f w))) \<Longrightarrow> store_prog f"
  by (intro store_prog_step store_step.environment)

lemma store_prog_ret [store_progs]: "store_prog (ret a)"
  by (rule store_prog_silent) (simp add: ret_def same_tables_def)

lemma store_prog_and_then [store_progs]:
  assumes "store_prog f" "\<And>r. store_prog (g r)"
  shows "store_prog (and_then f g)"
  using assms unfolding store_prog_def snd_and_then by (blast intro: rtranclp_trans)

lemma same_tables_refl [simp]: "same_tables w w"
  by (simp add: same_tables_def)

lemma next_io_same_tables: "next_io w = (x, w') \<Longrightarrow> same_tables w w'"
  by (simp add: same_tables_def)

lemma same_tables_with_io:
  assumes "\<And>w. same_tables w (snd (f w))"
  shows "same_tables w (snd (with_io f w))"
  using assms
  by (cases rule: with_io_cases [of w f]) (auto simp: same_tables_def)

lemma same_tables_new_id [simp]: "same_tables w (snd (new_id w))"
  by (auto simp: new_id_def same_tables_def split: list.splits)

lemma new_id_tables [simp]:
  "t_jobs (snd (new_id w)) = t_jobs w" "t_presets (snd (new_id w)) = t_presets w"
  "t_sources (snd (new_id w)) = t_sources w"
  by (auto simp: new_id_def split: list.splits)

lemma store_prog_with_io: "(\<And>w. same_tables w (snd (f w))) \<Longrightarrow> store_prog (with_io f)"
  by (intro store_prog_silent same_tables_with_io)

lemma store_prog_new_id [store_progs]: "store_prog new_id"
  by (rule store_prog_silent) simp

lemma store_prog_reads [store_progs]:
  "store_prog (GetSource ws key)" "store_prog (GetPreset ws i)" "store_prog (DefaultPreset ws)"
  "store_prog (ListPresets ws)" "store_prog (GetJob ws i)" "store_prog (ListJobs ws st n)"
  "store_prog (CountActiveJobs ws)" "store_prog (HasActiveJobForSource ws key p)"
  unfolding GetSource_def GetPreset_def DefaultPreset_def ListPresets_def GetJob_def ListJobs_def
    CountActiveJobs_def HasActiveJobForSource_def
  by (auto intro!: store_prog_with_io split: option.splits)

lemma store_prog_writes [store_progs]:
  "store_prog (UpsertSource s)" "store_prog (CreatePreset pr)" "store_prog (UpdatePreset pr)"
  "store_prog (CreateJob j)" "store_prog ClaimNextQueued"
  "store_prog (UpdateProgress i pct fps spd eta outs)" "store_prog (MarkCompleted i outs)"
  "store_prog (MarkFailed i cls msg)" "store_prog (RetryJob ws i)" "store_prog (CancelQueued ws i)"
  by (intro store_prog_step store_step.intros)+

interpretation Wake: store_silent Wake
  by unfold_locales (simp add: Wake_def same_tables_def)

interpretation Publish: store_silent "Publish ev"
  unfolding Publish_def
  by (unfold_locales, rule same_tables_with_io) (simp add: same_tables_def)

lemma store_prog_Emit [store_progs]: "store_prog (Emit ws user kind job bytes secs)"
  unfolding Emit_def
  by (intro store_progs) (auto simp: same_tables_def intro!: store_progs store_prog_with_io split: sum.splits)

lemmas [store_progs] = Wake.store_prog_axioms Publish.store_prog_axioms

lemma store_prog_objects [store_progs]:
  "store_prog local_io" "store_prog (Exists key)" "store_prog (Download key)"
  "store_prog (PutFile key)"
proof -
  show l: "store_prog local_io"
    unfolding local_io_def by (rule store_prog_with_io) simp
  have e: "Exists key = (if validateKey key \<noteq> None then ret (Inl ErrIO)
      else with_io (\<lambda>w. (Inr (key \<in> set (bucket w)), w)))"
    by (simp add: fun_eq_iff Exists_def ret_def)
  show "store_prog (Exists key)"
    unfolding e by (auto intro!: store_progs store_prog_with_io)
  have d: "Download key = (if validateKey key \<noteq> None then ret (Inl ErrIO) else and_then
      (with_io (\<lambda>w. (if key \<in> set (bucket w) then Inr () else Inl ErrIO, w)))
      (\<lambda>r. case r of Inl e \<Rightarrow> ret (Inl e) | Inr _ \<Rightarrow> local_io))"
    by (simp add: fun_eq_iff Download_def ret_def)
  show "store_prog (Download key)"
    unfolding d by (auto intro!: store_progs store_prog_with_io l split: sum.splits)
  have p: "PutFile key = (if validateKey key \<noteq> None then ret (Inl ErrIO) else and_then local_io
      (\<lambda>r. case r of Inl e \<Rightarrow> ret (Inl e) | Inr _ \<Rightarrow> with_io (\<lambda>w. (Inr (), put_key key w))))"
    by (simp add: fun_eq_iff PutFile_def ret_def)
  show "store_prog (PutFile key)"
    unfolding p
    by (auto intro!: store_progs store_prog_with_io l simp: put_key_def same_tables_def split: sum.splits)
qed

end
