(* ===== verification/OrchQuota.thy ===== *)
theory OrchQuota
  imports Handlers
begin

text \<open>
  The orchestrator's quota checker, \<open>services/orchestrator/internal/quota/quota.go\<close>: limits
  from a configuration file, job admission against the number of active jobs in the store.
\<close>

section \<open>Configuration\<close>

record Limits =
  lim_MaxActiveJobs :: int
  lim_MaxUploadBytes :: int

record fileConfig =
  fc_Defaults :: Limits
  fc_Workspaces :: "(string \<times> Limits) list"

datatype checker_err =
  CheckerUnreadable | CheckerUndecodable string | CheckerNoMaxActiveJobs | CheckerNoMaxUploadBytes
| CheckerNoCounter

text \<open>
  Only the first JSON value of the file is decoded; nothing looks at what follows it.
  \<open>file\<close> is \<open>None\<close> when the file cannot be read, \<open>has_counter\<close> whether the counter is
  not nil.
\<close>

definition NewFromFile :: "fileConfig json_in option \<Rightarrow> bool \<Rightarrow> checker_err + fileConfig" where
  "NewFromFile file has_counter =
     (case file of
        None \<Rightarrow> Inl CheckerUnreadable
      | Some JsonUnreadable \<Rightarrow> Inl (CheckerUndecodable ''EOF'')
      | Some (JsonBad e) \<Rightarrow> Inl (CheckerUndecodable e)
      | Some (JsonValue cfg _) \<Rightarrow>
          if lim_MaxActiveJobs (fc_Defaults cfg) = 0 then Inl CheckerNoMaxActiveJobs
          else if lim_MaxUploadBytes (fc_Defaults cfg) = 0 then Inl CheckerNoMaxUploadBytes
          else if \<not> has_counter then Inl CheckerNoCounter
          else Inr cfg)"

definition limitsFor :: "fileConfig \<Rightarrow> string \<Rightarrow> Limits" where
  "limitsFor cfg ws =
     (case map_of (fc_Workspaces cfg) ws of
        None \<Rightarrow> fc_Defaults cfg
      | Some l \<Rightarrow>
          \<lparr>lim_MaxActiveJobs =
             (if lim_MaxActiveJobs l \<noteq> 0 then lim_MaxActiveJobs l else lim_MaxActiveJobs (fc_Defaults cfg)),
           lim_MaxUploadBytes =
             (if lim_MaxUploadBytes l \<noteq> 0 then lim_MaxUploadBytes l else lim_MaxUploadBytes (fc_Defaults cfg))\<rparr>)"

section \<open>The two checks\<close>

definition Checker_CheckJobAdmission :: "fileConfig \<Rightarrow> string \<Rightarrow> (orch, QuotaDecision) op" where
  "Checker_CheckJobAdmission cfg ws =
     (let lim = limitsFor cfg ws in
      if lim_MaxActiveJobs lim < 0 then ret (Inr allow)
      else and_then (CountActiveJobs ws) (\<lambda>r. case r of
             Inl e \<Rightarrow> ret (Inl e)
           | Inr n \<Rightarrow>
               if n \<ge> lim_MaxActiveJobs lim then
                 ret (Inr (deny (''quota_exceeded:max_active_jobs ('' @ show_int n @ '' of '' @
                   show_int (lim_MaxActiveJobs lim) @ '' active)'')))
               else ret (Inr allow)))"

definition Checker_CheckUploadSession :: "fileConfig \<Rightarrow> string \<Rightarrow> int \<Rightarrow> (orch, QuotaDecision) op" where
  "Checker_CheckUploadSession cfg ws sizeHint =
     (let lim = limitsFor cfg ws in
      if lim_MaxUploadBytes lim < 0 then ret (Inr allow)
      else if sizeHint > lim_MaxUploadBytes lim then
        ret (Inr (deny (''quota_exceeded:max_upload_bytes ('' @ show_int sizeHint @ '' over limit '' @
          show_int (lim_MaxUploadBytes lim) @ '')'')))
      else ret (Inr allow))"

section \<open>The checks implement the quota hook\<close>

text \<open>What a client sees of the state: all of it but the failure script.\<close>

definition observed :: "orch \<Rightarrow> orch" where
  "observed w = w\<lparr>io_script := []\<rparr>"

lemma observed_next_io: "next_io w = (x, w') \<Longrightarrow> observed w' = observed w"
  by (drule next_io_update) (simp add: observed_def)

lemma observed_with_io:
  assumes "\<And>w. snd (f w) = w"
  shows "observed (snd (with_io f w)) = observed w"
  using assms by (cases rule: with_io_cases [of w f]) (auto simp: observed_next_io)

lemma CountActiveJobs_observed: "observed (snd (CountActiveJobs ws w)) = observed w"
  unfolding CountActiveJobs_def by (rule observed_with_io) simp

lemma CountActiveJobs_Inr:
  assumes "CountActiveJobs ws w = (Inr n, w')"
  shows "n = int (count_active ws w)"
proof -
  obtain w0 where "next_io w = (IoOk, w0)" "(Inr (int (count_active ws w0)), w0) = (Inr n :: store_err + int, w')"
    using assms unfolding CountActiveJobs_def by (rule with_io_Inr)
  then show ?thesis by (auto simp: count_active_def)
qed

interpretation checker_jobs: quota_checker "Checker_CheckJobAdmission cfg ws" observed
proof unfold_locales
  fix w show "observed (snd (Checker_CheckJobAdmission cfg ws w)) = observed w"
    using CountActiveJobs_observed [of ws w]
    by (auto simp: Checker_CheckJobAdmission_def Let_def and_then_def ret_def split: prod.splits sum.splits)
next
  fix w d assume "fst (Checker_CheckJobAdmission cfg ws w) = Inr d"
  then show "decision_ok d"
    by (auto simp: Checker_CheckJobAdmission_def Let_def and_then_def ret_def decision_ok_def
        split: prod.splits sum.splits if_splits)
qed

interpretation checker_upload: quota_checker "Checker_CheckUploadSession cfg ws n" observed
  by unfold_locales
    (auto simp: Checker_CheckUploadSession_def Let_def ret_def decision_ok_def split: if_splits)

lemma admission_iff:
  assumes "Checker_CheckJobAdmission cfg ws w = (Inr d, w')"
  shows "qd_Allowed d \<longleftrightarrow> lim_MaxActiveJobs (limitsFor cfg ws) < 0 \<or>
    int (count_active ws w) < lim_MaxActiveJobs (limitsFor cfg ws)"
  using assms CountActiveJobs_Inr [of ws w]
  by (auto simp: Checker_CheckJobAdmission_def Let_def and_then_def ret_def
      split: prod.splits sum.splits if_splits)

text \<open>A loaded configuration never yields the meaningless limit zero.\<close>

lemma limitsFor_nonzero:
  assumes "NewFromFile file has_counter = Inr cfg"
  shows "lim_MaxActiveJobs (limitsFor cfg ws) \<noteq> 0 \<and> lim_MaxUploadBytes (limitsFor cfg ws) \<noteq> 0"
  using assms
  by (auto simp: NewFromFile_def limitsFor_def split: option.splits json_in.splits if_splits)

lemma same_tables_count: "same_tables w w' \<Longrightarrow> count_active ws w' = count_active ws w"
  by (simp add: same_tables_def count_active_def)

lemma observed_count: "observed w' = observed w \<Longrightarrow> count_active ws w' = count_active ws w"
proof -
  assume "observed w' = observed w"
  then have "t_jobs (observed w') = t_jobs (observed w)" by simp
  then show ?thesis by (simp add: observed_def count_active_def)
qed

end
