(* ===== verification/OrchApi.thy ===== *)
theory OrchApi
  imports OrchQuota ServeMux
begin

text \<open>
  The HTTP API of the orchestrator: bearer authentication
  (\<open>services/orchestrator/internal/auth/auth.go\<close>) and the handlers of
  \<open>services/orchestrator/internal/httpapi\<close> (\<open>api.go\<close>, \<open>jobs.go\<close>, \<open>presets.go\<close>).
  A handler takes the identity the middleware put into the request context, the parts of the
  request it reads, and the state; it returns the response and the new state.
\<close>

section \<open>Authentication (auth.go)\<close>

record Identity =
  id_UserID :: string
  id_WorkspaceID :: string

text \<open>
  \<open>b64\<close> is the unpadded base64url decoder. \<open>jwt_parse key token\<close> is the JWT library with
  the options the code passes (HS256 only, expiry required): the subject and workspace claims
  of a valid token.
\<close>

definition NewVerifier :: "(string \<Rightarrow> string option) \<Rightarrow> string \<Rightarrow> string option" where
  "NewVerifier b64 secret =
     (if secret = [] then None
      else case b64 secret of
             None \<Rightarrow> None
           | Some key \<Rightarrow> if length key < 32 then None else Some key)"

definition Verify ::
  "(string \<Rightarrow> string \<Rightarrow> (string \<times> string) option) \<Rightarrow> string \<Rightarrow> string \<Rightarrow> Identity option" where
  "Verify jwt_parse key token =
     (case jwt_parse key token of
        None \<Rightarrow> None
      | Some (sub, ws) \<Rightarrow>
          if sub = [] then None
          else if ws = [] then None
          else Some \<lparr>id_UserID = sub, id_WorkspaceID = ws\<rparr>)"

section \<open>Requests and responses (api.go)\<close>

datatype api_body =
  BErr string | BPresetErr preset_err | BJob Job | BJobs "Job list" | BPreset Preset
| BPresets "Preset list" | BStatus string | BMux mux_reply

type_synonym api_resp = "int \<times> api_body"

abbreviation writeError :: "int \<Rightarrow> string \<Rightarrow> api_resp" where
  "writeError code msg \<equiv> (code, BErr msg)"

definition Middleware ::
  "(string \<Rightarrow> string \<Rightarrow> (string \<times> string) option) \<Rightarrow> string \<Rightarrow> string \<Rightarrow>
   (Identity \<Rightarrow> orch \<Rightarrow> api_resp \<times> orch) \<Rightarrow> orch \<Rightarrow> api_resp \<times> orch" where
  "Middleware jwt_parse key authorization next =
     (if \<not> has_prefix ''Bearer '' authorization then ret (writeError 401 ''missing bearer token'')
      else case Verify jwt_parse key (trim_prefix ''Bearer '' authorization) of
             None \<Rightarrow> ret (writeError 401 ''invalid bearer token'')
           | Some i \<Rightarrow> next i)"

text \<open>
  The API value: the quota hook and whether the runner, the meter and the progress sink are
  present.
\<close>

record API =
  api_quota :: "string \<Rightarrow> (orch, QuotaDecision) op"
  api_runner :: bool
  api_meter :: bool
  api_progress :: bool

definition decodeStrict :: "'a json_in \<Rightarrow> api_resp + 'a" where
  "decodeStrict b =
     (case b of
        JsonUnreadable \<Rightarrow> Inl (writeError 400 ''unreadable request body'')
      | JsonBad e \<Rightarrow> Inl (writeError 400 (''invalid request body: '' @ e))
      | JsonValue v rest \<Rightarrow>
          if dec_More rest then Inl (writeError 400 ''invalid request body: trailing data'')
          else Inr v)"

definition ignore :: "('s, 'a) op \<Rightarrow> 's \<Rightarrow> unit \<times> 's" where
  "ignore f = and_then f (\<lambda>_. ret ())"

definition publishState :: "API \<Rightarrow> Job \<Rightarrow> orch \<Rightarrow> unit \<times> orch" where
  "publishState a j =
     (if \<not> api_progress a then ret ()
      else ignore (Publish \<lparr>jp_JobID = j_ID j, jp_State = string_of_State (j_State j), jp_FPS = 0,
             jp_SpeedX = 0, jp_ETASeconds = 0, jp_ProgressPct = j_ProgressPct j\<rparr>))"

definition meterEmit :: "API \<Rightarrow> Job \<Rightarrow> MeteringKind \<Rightarrow> orch \<Rightarrow> unit \<times> orch" where
  "meterEmit a j kind =
     (if \<not> api_meter a then ret ()
      else ignore (Emit (j_WorkspaceID j) (j_UserID j) kind (j_ID j) None None))"

definition wakeRunner :: "API \<Rightarrow> orch \<Rightarrow> unit \<times> orch" where
  "wakeRunner a = (if api_runner a then Wake else ret ())"

text \<open>\<open>Scheduler.Cancel\<close>: whether the job runs on this node; the cancel is delivered to it.\<close>

definition Cancel :: "string \<Rightarrow> orch \<Rightarrow> bool \<times> orch" where
  "Cancel job w =
     (if job \<in> set (cancels w) then (True, w\<lparr>canceled := List.insert job (canceled w)\<rparr>) else (False, w))"

definition identity ::
  "Identity option \<Rightarrow> (Identity \<Rightarrow> orch \<Rightarrow> api_resp \<times> orch) \<Rightarrow> orch \<Rightarrow> api_resp \<times> orch" where
  "identity ident k =
     (case ident of None \<Rightarrow> ret (writeError 500 ''missing identity'') | Some i \<Rightarrow> k i)"

section \<open>Job handlers (jobs.go)\<close>

definition listJobs :: "Identity option \<Rightarrow> string \<Rightarrow> orch \<Rightarrow> api_resp \<times> orch" where
  "listJobs ident raw = identity ident (\<lambda>i.
     if raw \<noteq> [] \<and> \<not> ValidState (State_of_string raw)
     then ret (writeError 400 ''state must be one of queued, running, completed, failed'')
     else and_then
       (ListJobs (id_WorkspaceID i) (if raw \<noteq> [] then Some (State_of_string raw) else None) 200)
       (\<lambda>r. case r of
          Inl _ \<Rightarrow> ret (writeError 500 ''list jobs failed'')
        | Inr l \<Rightarrow> ret (200, BJobs l)))"

definition getJob :: "(string \<Rightarrow> bool) \<Rightarrow> Identity option \<Rightarrow> string \<Rightarrow> orch \<Rightarrow> api_resp \<times> orch" where
  "getJob uuid_ok ident job = identity ident (\<lambda>i.
     if \<not> uuid_ok job then ret (writeError 400 ''job id must be a uuid'')
     else and_then (GetJob (id_WorkspaceID i) job) (\<lambda>r. case r of
            Inl ErrNotFound \<Rightarrow> ret (writeError 404 ''job not found'')
          | Inl _ \<Rightarrow> ret (writeError 500 ''get job failed'')
          | Inr j \<Rightarrow> ret (200, BJob j)))"

record createJobRequest =
  cr_ObjectKey :: string
  cr_PresetID :: string

definition new_job :: "Identity \<Rightarrow> createJobRequest \<Rightarrow> Source \<Rightarrow> Job" where
  "new_job i req src =
     \<lparr>j_ID = [], j_WorkspaceID = id_WorkspaceID i, j_UserID = id_UserID i,
      j_PresetID = cr_PresetID req, j_SourceObjectKey = cr_ObjectKey req,
      j_SourceSHA256 = s_SHA256 src, j_State = StateOther [], j_ErrorClass = None,
      j_ErrorMessage = [], j_Attempts = 0, j_ProgressPct = 0, j_FPS = 0, j_SpeedX = 0,
      j_ETASeconds = 0, j_Outputs = [], j_CreatedAt = 0, j_QueuedAt = 0, j_StartedAt = None,
      j_FinishedAt = None, j_UpdatedAt = 0\<rparr>"

text \<open>Meter, publish, wake, answer: the tail of create and retry.\<close>

definition enqueued :: "API \<Rightarrow> Job \<Rightarrow> int \<Rightarrow> orch \<Rightarrow> api_resp \<times> orch" where
  "enqueued a j code =
     and_then (meterEmit a j MeteringJobQueued) (\<lambda>_.
     and_then (publishState a j) (\<lambda>_.
     and_then (wakeRunner a) (\<lambda>_. ret (code, BJob j))))"

text \<open>The admission gate of create and retry in front of \<open>k\<close>.\<close>

definition admit :: "API \<Rightarrow> string \<Rightarrow> (orch \<Rightarrow> api_resp \<times> orch) \<Rightarrow> orch \<Rightarrow> api_resp \<times> orch" where
  "admit a ws k =
     and_then (api_quota a ws) (\<lambda>r. case r of
       Inl _ \<Rightarrow> ret (writeError 500 ''quota check failed'')
     | Inr d \<Rightarrow> if \<not> qd_Allowed d then ret (writeError 429 (qd_Reason d)) else k)"

definition createJob ::
  "API \<Rightarrow> (string \<Rightarrow> bool) \<Rightarrow> Identity option \<Rightarrow> createJobRequest json_in \<Rightarrow> orch \<Rightarrow> api_resp \<times> orch" where
  "createJob a uuid_ok ident body = identity ident (\<lambda>i.
     case decodeStrict body of
       Inl resp \<Rightarrow> ret resp
     | Inr req \<Rightarrow>
         (case ObjectKeyPattern (cr_ObjectKey req) of
            None \<Rightarrow> ret (writeError 400 ''objectKey must match assets/<workspaceId>/sha256/<hex64>'')
          | Some (ws, _) \<Rightarrow>
              if ws \<noteq> id_WorkspaceID i then ret (writeError 403 ''objectKey belongs to another workspace'')
              else if \<not> uuid_ok (cr_PresetID req) then ret (writeError 400 ''presetId must be a uuid'')
              else and_then (GetSource (id_WorkspaceID i) (cr_ObjectKey req)) (\<lambda>r. case r of
                Inl ErrNotFound \<Rightarrow> ret (writeError 422 ''source is not probed yet (no landed-object record)'')
              | Inl _ \<Rightarrow> ret (writeError 500 ''source lookup failed'')
              | Inr src \<Rightarrow>
                  and_then (GetPreset (id_WorkspaceID i) (cr_PresetID req)) (\<lambda>r. case r of
                    Inl ErrNotFound \<Rightarrow> ret (writeError 422 ''preset not found'')
                  | Inl _ \<Rightarrow> ret (writeError 500 ''preset lookup failed'')
                  | Inr _ \<Rightarrow>
                      admit a (id_WorkspaceID i)
                        (and_then (CreateJob (new_job i req src)) (\<lambda>r. case r of
                           Inl _ \<Rightarrow> ret (writeError 500 ''create job failed'')
                         | Inr j \<Rightarrow> enqueued a j 201))))))"

definition retryJob ::
  "API \<Rightarrow> (string \<Rightarrow> bool) \<Rightarrow> Identity option \<Rightarrow> string \<Rightarrow> orch \<Rightarrow> api_resp \<times> orch" where
  "retryJob a uuid_ok ident job = identity ident (\<lambda>i.
     if \<not> uuid_ok job then ret (writeError 400 ''job id must be a uuid'')
     else admit a (id_WorkspaceID i)
       (and_then (RetryJob (id_WorkspaceID i) job) (\<lambda>r. case r of
          Inl ErrNotFound \<Rightarrow> ret (writeError 404 ''job not found'')
        | Inl ErrConflict \<Rightarrow> ret (writeError 409 ''only failed jobs can be retried'')
        | Inl _ \<Rightarrow> ret (writeError 500 ''retry failed'')
        | Inr j \<Rightarrow> enqueued a j 200)))"

definition cancelJob ::
  "API \<Rightarrow> (string \<Rightarrow> bool) \<Rightarrow> Identity option \<Rightarrow> string \<Rightarrow> orch \<Rightarrow> api_resp \<times> orch" where
  "cancelJob a uuid_ok ident job = identity ident (\<lambda>i.
     if \<not> uuid_ok job then ret (writeError 400 ''job id must be a uuid'')
     else and_then (GetJob (id_WorkspaceID i) job) (\<lambda>r. case r of
       Inl ErrNotFound \<Rightarrow> ret (writeError 404 ''job not found'')
     | Inl _ \<Rightarrow> ret (writeError 500 ''cancel failed'')
     | Inr j \<Rightarrow>
         (case j_State j of
            StateRunning \<Rightarrow>
              and_then (if api_runner a then Cancel (j_ID j) else ret False) (\<lambda>delivered.
                if delivered then ret (202, BStatus ''cancel requested'')
                else ret (writeError 409 ''job is not cancelable right now, re-fetch its state''))
          | StateQueued \<Rightarrow>
              and_then (CancelQueued (id_WorkspaceID i) job) (\<lambda>r. case r of
                Inl ErrConflict \<Rightarrow> ret (writeError 409 ''job left queued state, re-fetch its state'')
              | Inl _ \<Rightarrow> ret (writeError 500 ''cancel failed'')
              | Inr c \<Rightarrow>
                  and_then (meterEmit a c MeteringJobFailed) (\<lambda>_.
                  and_then (publishState a c) (\<lambda>_. ret (200, BJob c))))
          | _ \<Rightarrow> ret (writeError 409 ''completed or failed jobs cannot be canceled''))))"

section \<open>Preset handlers (presets.go)\<close>

record presetBody =
  pb_Name :: string
  pb_Container :: string
  pb_VideoCodec :: string
  pb_RateControl :: string
  pb_CRF :: int
  pb_BitrateKbps :: int
  pb_MaxBitrateKbps :: int
  pb_GOPLength :: int
  pb_SpeedPreset :: string
  pb_Ladder :: "Rung list"

definition listPresets :: "Identity option \<Rightarrow> orch \<Rightarrow> api_resp \<times> orch" where
  "listPresets ident = identity ident (\<lambda>i.
     and_then (ListPresets (id_WorkspaceID i)) (\<lambda>r. case r of
       Inl _ \<Rightarrow> ret (writeError 500 ''list presets failed'')
     | Inr l \<Rightarrow> ret (200, BPresets l)))"

definition getPreset :: "(string \<Rightarrow> bool) \<Rightarrow> Identity option \<Rightarrow> string \<Rightarrow> orch \<Rightarrow> api_resp \<times> orch" where
  "getPreset uuid_ok ident preset = identity ident (\<lambda>i.
     if \<not> uuid_ok preset then ret (writeError 400 ''preset id must be a uuid'')
     else and_then (GetPreset (id_WorkspaceID i) preset) (\<lambda>r. case r of
       Inl ErrNotFound \<Rightarrow> ret (writeError 404 ''preset not found'')
     | Inl _ \<Rightarrow> ret (writeError 500 ''get preset failed'')
     | Inr p \<Rightarrow> ret (200, BPreset p)))"

definition preset_of_body :: "Identity \<Rightarrow> presetBody \<Rightarrow> Preset" where
  "preset_of_body i b =
     \<lparr>p_ID = [], p_WorkspaceID = id_WorkspaceID i, p_Name = pb_Name b,
      p_Container = Container_of_string (pb_Container b),
      p_VideoCodec = VideoCodec_of_string (pb_VideoCodec b),
      p_RateControl = RateControlMode_of_string (pb_RateControl b), p_CRF = pb_CRF b,
      p_BitrateKbps = pb_BitrateKbps b, p_MaxBitrateKbps = pb_MaxBitrateKbps b,
      p_GOPLength = pb_GOPLength b, p_SpeedPreset = pb_SpeedPreset b, p_Ladder = pb_Ladder b,
      p_CreatedAt = 0, p_UpdatedAt = 0\<rparr>"

definition createPreset :: "Identity option \<Rightarrow> presetBody json_in \<Rightarrow> orch \<Rightarrow> api_resp \<times> orch" where
  "createPreset ident body = identity ident (\<lambda>i.
     case decodeStrict body of
       Inl resp \<Rightarrow> ret resp
     | Inr b \<Rightarrow>
         (case Validate (preset_of_body i b) of
            Some e \<Rightarrow> ret (400, BPresetErr e)
          | None \<Rightarrow>
              and_then (CreatePreset (preset_of_body i b)) (\<lambda>r. case r of
                Inl _ \<Rightarrow> ret (writeError 500 ''create preset failed'')
              | Inr p \<Rightarrow> ret (201, BPreset p))))"

record presetPatch =
  pp_Name :: "string option"
  pp_Container :: "string option"
  pp_VideoCodec :: "string option"
  pp_RateControl :: "string option"
  pp_CRF :: "int option"
  pp_BitrateKbps :: "int option"
  pp_MaxBitrateKbps :: "int option"
  pp_GOPLength :: "int option"
  pp_SpeedPreset :: "string option"
  pp_Ladder :: "Rung list option"

definition given :: "'a option \<Rightarrow> 'a \<Rightarrow> 'a" where
  "given new old = (case new of None \<Rightarrow> old | Some x \<Rightarrow> x)"

definition apply_patch :: "presetPatch \<Rightarrow> Preset \<Rightarrow> Preset" where
  "apply_patch q p =
     p\<lparr>p_Name := given (pp_Name q) (p_Name p),
       p_Container := given (map_option Container_of_string (pp_Container q)) (p_Container p),
       p_VideoCodec := given (map_option VideoCodec_of_string (pp_VideoCodec q)) (p_VideoCodec p),
       p_RateControl := given (map_option RateControlMode_of_string (pp_RateControl q)) (p_RateControl p),
       p_CRF := given (pp_CRF q) (p_CRF p),
       p_BitrateKbps := given (pp_BitrateKbps q) (p_BitrateKbps p),
       p_MaxBitrateKbps := given (pp_MaxBitrateKbps q) (p_MaxBitrateKbps p),
       p_GOPLength := given (pp_GOPLength q) (p_GOPLength p),
       p_SpeedPreset := given (pp_SpeedPreset q) (p_SpeedPreset p),
       p_Ladder := given (pp_Ladder q) (p_Ladder p)\<rparr>"

definition patchPreset ::
  "(string \<Rightarrow> bool) \<Rightarrow> Identity option \<Rightarrow> string \<Rightarrow> presetPatch json_in \<Rightarrow> orch \<Rightarrow> api_resp \<times> orch" where
  "patchPreset uuid_ok ident preset body = identity ident (\<lambda>i.
     if \<not> uuid_ok preset then ret (writeError 400 ''preset id must be a uuid'')
     else case decodeStrict body of
       Inl resp \<Rightarrow> ret resp
     | Inr q \<Rightarrow>
         and_then (GetPreset (id_WorkspaceID i) preset) (\<lambda>r. case r of
           Inl ErrNotFound \<Rightarrow> ret (writeError 404 ''preset not found'')
         | Inl _ \<Rightarrow> ret (writeError 500 ''patch failed'')
         | Inr p \<Rightarrow>
             (case Validate (apply_patch q p) of
                Some e \<Rightarrow> ret (400, BPresetErr e)
              | None \<Rightarrow>
                  and_then (UpdatePreset (apply_patch q p)) (\<lambda>r. case r of
                    Inl ErrNotFound \<Rightarrow> ret (writeError 404 ''preset not found'')
                  | Inl _ \<Rightarrow> ret (writeError 500 ''patch failed'')
                  | Inr u \<Rightarrow> ret (200, BPreset u)))))"

section \<open>Every handler is a program over the store\<close>

lemma store_prog_cases [store_progs]:
  "(i = None \<Longrightarrow> store_prog f) \<Longrightarrow> (\<And>x. i = Some x \<Longrightarrow> store_prog (g x)) \<Longrightarrow>
     store_prog (case i of None \<Rightarrow> f | Some x \<Rightarrow> g x)"
  "(\<And>e. s = Inl e \<Longrightarrow> store_prog (h e)) \<Longrightarrow> (\<And>x. s = Inr x \<Longrightarrow> store_prog (k x)) \<Longrightarrow>
     store_prog (case s of Inl e \<Rightarrow> h e | Inr x \<Rightarrow> k x)"
  "(b \<Longrightarrow> store_prog u) \<Longrightarrow> (\<not> b \<Longrightarrow> store_prog v) \<Longrightarrow> store_prog (if b then u else v)"
  by (simp_all split: option.splits sum.splits)

lemma store_prog_err_case [store_progs]:
  "store_prog a \<Longrightarrow> store_prog b \<Longrightarrow> store_prog c \<Longrightarrow> store_prog d \<Longrightarrow>
   store_prog (case e of ErrNotFound \<Rightarrow> a | ErrConflict \<Rightarrow> b | ErrDuplicate \<Rightarrow> c | ErrIO \<Rightarrow> d)"
  by (cases e) simp_all

lemma store_prog_state_case [store_progs]:
  "store_prog a \<Longrightarrow> store_prog b \<Longrightarrow> store_prog c \<Longrightarrow> store_prog d \<Longrightarrow> (\<And>x. store_prog (e x)) \<Longrightarrow>
   store_prog (case s of StateQueued \<Rightarrow> a | StateRunning \<Rightarrow> b | StateCompleted \<Rightarrow> c | StateFailed \<Rightarrow> d
     | StateOther x \<Rightarrow> e x)"
  by (cases s) simp_all

lemma store_prog_prod_case [store_progs]:
  "(\<And>x y. store_prog (f x y)) \<Longrightarrow> store_prog (case p of (x, y) \<Rightarrow> f x y)"
  by (cases p) simp

lemma store_prog_ignore [store_progs]: "store_prog f \<Longrightarrow> store_prog (ignore f)"
  unfolding ignore_def by (intro store_progs)

lemma store_prog_side_effects [store_progs]:
  "store_prog (publishState a j)" "store_prog (meterEmit a j kind)" "store_prog (wakeRunner a)"
  "store_prog (enqueued a j code)" "store_prog (Cancel i)"
  unfolding publishState_def meterEmit_def wakeRunner_def enqueued_def
  by (intro store_progs store_prog_silent; simp add: Cancel_def same_tables_def)+

text \<open>
  The quota hook is any checker that leaves the tables alone; the orchestrator's own is one.
\<close>

locale api_quota_hook =
  fixes a :: API
  assumes quota_silent: "store_prog (api_quota a ws)"
begin

lemma store_prog_admit: "store_prog k \<Longrightarrow> store_prog (admit a ws k)"
  unfolding admit_def by (intro store_progs quota_silent)

lemma createJob_prog: "store_prog (createJob a uuid_ok ident body)"
  unfolding createJob_def identity_def by (intro store_progs store_prog_admit)

lemma retryJob_prog: "store_prog (retryJob a uuid_ok ident job)"
  unfolding retryJob_def identity_def by (intro store_progs store_prog_admit)

lemma cancelJob_prog: "store_prog (cancelJob a uuid_ok ident job)"
  unfolding cancelJob_def identity_def by (intro store_progs)

end

lemma store_prog_presets [store_progs]:
  "store_prog (createPreset ident pbody)" "store_prog (patchPreset uuid_ok ident preset qbody)"
  "store_prog (listPresets ident)" "store_prog (getPreset uuid_ok ident preset)"
  "store_prog (listJobs ident raw)" "store_prog (getJob uuid_ok ident job)"
  unfolding createPreset_def patchPreset_def listPresets_def getPreset_def listJobs_def getJob_def
    identity_def
  by (intro store_progs)+

text \<open>The deployed API uses the checker of \<open>quota.go\<close>.\<close>

definition deployed_api :: "fileConfig \<Rightarrow> API" where
  "deployed_api cfg =
     \<lparr>api_quota = Checker_CheckJobAdmission cfg, api_runner = True, api_meter = True, api_progress = True\<rparr>"

lemma store_prog_check [store_progs]: "store_prog (Checker_CheckJobAdmission cfg ws)"
  unfolding Checker_CheckJobAdmission_def Let_def by (intro store_progs)

interpretation deployed: api_quota_hook "deployed_api cfg"
  by (rule api_quota_hook.intro) (simp add: deployed_api_def store_progs)

section \<open>Isolation of workspaces\<close>

definition others :: "string \<Rightarrow> orch \<Rightarrow> Job list \<times> Preset list \<times> Source list" where
  "others ws w =
     (filter (\<lambda>j. j_WorkspaceID j \<noteq> ws) (t_jobs w), filter (\<lambda>p. p_WorkspaceID p \<noteq> ws) (t_presets w),
      filter (\<lambda>s. s_WorkspaceID s \<noteq> ws) (t_sources w))"

fun owned :: "string \<Rightarrow> api_body \<Rightarrow> bool" where
  "owned ws (BJob j) = (j_WorkspaceID j = ws)"
| "owned ws (BJobs js) = list_all (\<lambda>j. j_WorkspaceID j = ws) js"
| "owned ws (BPreset p) = (p_WorkspaceID p = ws)"
| "owned ws (BPresets ps) = list_all (\<lambda>p. p_WorkspaceID p = ws) ps"
| "owned ws _ = True"

definition scoped :: "string \<Rightarrow> (orch \<Rightarrow> 'a \<times> orch) \<Rightarrow> bool" where
  "scoped ws f \<longleftrightarrow> (\<forall>w. others ws (snd (f w)) = others ws w)"

definition isolated :: "string \<Rightarrow> (orch \<Rightarrow> api_resp \<times> orch) \<Rightarrow> bool" where
  "isolated ws h \<longleftrightarrow> (\<forall>w. others ws (snd (h w)) = others ws w \<and> owned ws (snd (fst (h w))))"

named_theorems isolation \<open>calls and handlers confined to one workspace\<close>

lemma others_same_tables: "same_tables w w' \<Longrightarrow> others ws w' = others ws w"
  by (simp add: same_tables_def others_def)

lemma scoped_silent: "(\<And>w. same_tables w (snd (f w))) \<Longrightarrow> scoped ws f"
  by (simp add: scoped_def others_same_tables)

lemma scoped_with_io:
  assumes "scoped ws f"
  shows "scoped ws (with_io f)"
proof -
  have *: "others ws w' = others ws w" if "next_io w = (x, w')" for w w' x
    using that by (intro others_same_tables next_io_same_tables)
  show ?thesis unfolding scoped_def
  proof
    fix w show "others ws (snd (with_io f w)) = others ws w"
      by (cases rule: with_io_cases [of w f]) (use assms * in \<open>auto simp: scoped_def\<close>)
  qed
qed

lemma scoped_and_then [isolation]:
  "scoped ws f \<Longrightarrow> (\<And>r. scoped ws (g r)) \<Longrightarrow> scoped ws (and_then f g)"
  by (simp add: scoped_def snd_and_then)

lemma isolated_ret: "owned ws (snd r) \<Longrightarrow> isolated ws (ret r)"
  by (simp add: isolated_def ret_def)

lemma isolated_error [isolation]: "isolated ws (ret (c, BErr m))" "isolated ws (ret (c, BPresetErr e))"
  "isolated ws (ret (c, BStatus m))"
  by (simp_all add: isolated_ret)

lemma isolated_and_then:
  assumes "scoped ws f" "\<And>w r w'. f w = (r, w') \<Longrightarrow> isolated ws (g r)"
  shows "isolated ws (and_then f g)"
  unfolding isolated_def and_then_result
proof
  fix w
  have "isolated ws (g (fst (f w)))" by (rule assms(2) [of w _ "snd (f w)"]) simp
  with assms(1) show "others ws (snd (g (fst (f w)) (snd (f w)))) = others ws w \<and>
      owned ws (snd (fst (g (fst (f w)) (snd (f w)))))"
    by (simp add: isolated_def scoped_def)
qed

lemma isolated_cases [isolation]:
  "(i = None \<Longrightarrow> isolated ws f) \<Longrightarrow> (\<And>x. i = Some x \<Longrightarrow> isolated ws (g x)) \<Longrightarrow>
     isolated ws (case i of None \<Rightarrow> f | Some x \<Rightarrow> g x)"
  "(\<And>e. s = Inl e \<Longrightarrow> isolated ws (h e)) \<Longrightarrow> (\<And>x. s = Inr x \<Longrightarrow> isolated ws (k x)) \<Longrightarrow>
     isolated ws (case s of Inl e \<Rightarrow> h e | Inr x \<Rightarrow> k x)"
  "(b \<Longrightarrow> isolated ws u) \<Longrightarrow> (\<not> b \<Longrightarrow> isolated ws v) \<Longrightarrow> isolated ws (if b then u else v)"
  by (simp_all split: option.splits sum.splits)

lemma isolated_err_case [isolation]:
  "isolated ws a \<Longrightarrow> isolated ws b \<Longrightarrow> isolated ws c \<Longrightarrow> isolated ws d \<Longrightarrow>
   isolated ws (case e of ErrNotFound \<Rightarrow> a | ErrConflict \<Rightarrow> b | ErrDuplicate \<Rightarrow> c | ErrIO \<Rightarrow> d)"
  by (cases e) simp_all

lemma isolated_state_case [isolation]:
  "isolated ws a \<Longrightarrow> isolated ws b \<Longrightarrow> isolated ws c \<Longrightarrow> isolated ws d \<Longrightarrow> (\<And>x. isolated ws (e x)) \<Longrightarrow>
   isolated ws (case s of StateQueued \<Rightarrow> a | StateRunning \<Rightarrow> b | StateCompleted \<Rightarrow> c | StateFailed \<Rightarrow> d
     | StateOther x \<Rightarrow> e x)"
  by (cases s) simp_all

text \<open>The store calls of the handlers.\<close>

lemma scoped_reads [isolation]:
  "scoped ws (GetSource ws' key)" "scoped ws (GetPreset ws' i)" "scoped ws (ListPresets ws')"
  "scoped ws (GetJob ws' i)" "scoped ws (ListJobs ws' st n)"
  unfolding GetSource_def GetPreset_def ListPresets_def GetJob_def ListJobs_def
  by (intro scoped_with_io scoped_silent; simp)+

lemma filter_update_where:
  "(\<And>r. r \<in> set rows \<Longrightarrow> P r \<Longrightarrow> \<not> Q r \<and> \<not> Q (f r)) \<Longrightarrow> filter Q (update_where P f rows) = filter Q rows"
  by (induction rows) (auto simp: update_where_def)

lemma scoped_update_job:
  assumes "\<And>j. P j \<Longrightarrow> j_WorkspaceID j = ws" "\<And>t j. j_WorkspaceID (g t j) = j_WorkspaceID j"
  shows "scoped ws (update_job P g)"
  using assms unfolding scoped_def
  by (auto simp: update_job_def others_def intro!: filter_update_where split: option.splits)

lemma others_missing_or_conflict [simp]: "others ws' (snd (missing_or_conflict ws i r)) = others ws' (snd r)"
proof -
  have "same_tables w w'" if "GetJob ws i w = (x, w')" for w x w'
    using that same_tables_with_io [of "\<lambda>w. (select_row (\<lambda>j. j_WorkspaceID j = ws \<and> j_ID j = i) (t_jobs w), w)" w]
    by (simp add: GetJob_def)
  then show ?thesis
    by (cases r) (auto simp: missing_or_conflict_def others_same_tables split: prod.splits sum.splits store_err.splits)
qed

lemma scoped_writes [isolation]:
  "scoped ws (RetryJob ws i)" "scoped ws (CancelQueued ws i)"
proof -
  have 1: "scoped ws (with_io (update_job (\<lambda>j. j_WorkspaceID j = ws \<and> j_ID j = i \<and> j_State j = StateFailed) retry_set))"
    by (intro scoped_with_io scoped_update_job) (auto simp: retry_set_def)
  then show "scoped ws (RetryJob ws i)" by (simp add: scoped_def RetryJob_def)
  have 2: "scoped ws (with_io (update_job (\<lambda>j. j_WorkspaceID j = ws \<and> j_ID j = i \<and> j_State j = StateQueued)
      (fail_set ErrorInternal ''canceled by user'')))"
    by (intro scoped_with_io scoped_update_job) (auto simp: fail_set_def)
  then show "scoped ws (CancelQueued ws i)" by (simp add: scoped_def CancelQueued_def)
qed

lemma others_new_id: "new_id w = (r, w') \<Longrightarrow> others ws w' = others ws w"
  by (metis others_same_tables same_tables_new_id snd_conv)

lemma scoped_new_id_case:
  assumes "\<And>i. scoped ws (f i)"
  shows "scoped ws (\<lambda>w. case new_id w of (Inl e, w') \<Rightarrow> (Inl e, w') | (Inr i, w') \<Rightarrow> f i w')"
  using assms by (auto simp: scoped_def others_new_id split: prod.splits sum.splits)

lemma scoped_CreateJob: "j_WorkspaceID j = ws \<Longrightarrow> scoped ws (CreateJob j)"
  unfolding CreateJob_def Let_def
  by (intro scoped_new_id_case scoped_with_io) (auto simp: scoped_def others_def)

lemma scoped_CreatePreset: "p_WorkspaceID p = ws \<Longrightarrow> scoped ws (CreatePreset p)"
  unfolding CreatePreset_def Let_def
  by (intro scoped_new_id_case scoped_with_io) (auto simp: scoped_def others_def)

lemma scoped_UpdatePreset: "p_WorkspaceID p = ws \<Longrightarrow> scoped ws (UpdatePreset p)"
  unfolding UpdatePreset_def Let_def
  by (intro scoped_with_io)
    (auto simp: scoped_def others_def preset_set_def intro!: filter_update_where split: option.splits)

lemma scoped_side_effects [isolation]:
  "scoped ws (publishState a j)" "scoped ws (meterEmit a j kind)" "scoped ws (wakeRunner a)"
  "scoped ws (Cancel i)" "scoped ws (ret x)"
proof -
  show r: "scoped ws (ret x)" for x :: 'x by (simp add: scoped_def ret_def)
  have p: "scoped ws (Publish ev)" for ev by (rule scoped_silent) (rule Publish.silent)
  then show "scoped ws (publishState a j)"
    by (simp add: publishState_def ignore_def r isolation)
  have "scoped ws (Emit u v k jj b s)" for u v k jj b s
    unfolding Emit_def
    by (rule scoped_and_then)
      (auto intro!: scoped_silent same_tables_with_io simp: ret_def same_tables_def split: sum.splits)
  then show "scoped ws (meterEmit a j kind)"
    by (simp add: meterEmit_def ignore_def r isolation)
  show "scoped ws (wakeRunner a)"
    by (simp add: wakeRunner_def r scoped_silent Wake.silent)
  show "scoped ws (Cancel i)"
    by (rule scoped_silent) (simp add: Cancel_def same_tables_def)
qed

text \<open>What the calls return.\<close>

lemma select_row_Inr: "select_row P rows = Inr r \<longleftrightarrow> List.find P rows = Some r"
  by (simp add: select_row_def split: option.splits)

lemma GetJob_Inr: "GetJob ws i w = (Inr j, w') \<Longrightarrow> j \<in> set (t_jobs w) \<and> j_WorkspaceID j = ws \<and> j_ID j = i"
  unfolding GetJob_def by (erule with_io_Inr) (auto simp: select_row_Inr dest: find_mem)

lemma GetPreset_Inr:
  "GetPreset ws i w = (Inr p, w') \<Longrightarrow> p \<in> set (t_presets w) \<and> p_WorkspaceID p = ws \<and> p_ID p = i"
  unfolding GetPreset_def by (erule with_io_Inr) (auto simp: select_row_Inr dest: find_mem)

lemma ListJobs_Inr: "ListJobs ws st n w = (Inr l, w') \<Longrightarrow> list_all (\<lambda>j. j_WorkspaceID j = ws) l"
  unfolding ListJobs_def
  by (erule with_io_Inr) (auto simp: list_all_iff dest!: in_set_takeD)

lemma ListPresets_Inr: "ListPresets ws w = (Inr l, w') \<Longrightarrow> list_all (\<lambda>p. p_WorkspaceID p = ws) l"
  unfolding ListPresets_def by (erule with_io_Inr) (auto simp: list_all_iff)

lemma update_job_Inr:
  "update_job P g w = (Inr j, w') \<Longrightarrow> \<exists>r \<in> set (t_jobs w). P r \<and> j = g (clock w) r"
  by (auto simp: update_job_def split: option.splits dest!: find_mem)

lemma missing_or_conflict_Inr: "missing_or_conflict ws i r = (Inr j, w') \<Longrightarrow> r = (Inr j, w')"
  by (cases r) (auto simp: missing_or_conflict_def split: sum.splits store_err.splits prod.splits)

lemma RetryJob_Inr: "RetryJob ws i w = (Inr j, w') \<Longrightarrow> j_WorkspaceID j = ws"
  unfolding RetryJob_def
  by (drule missing_or_conflict_Inr, erule with_io_Inr) (auto dest!: update_job_Inr simp: retry_set_def)

lemma CancelQueued_Inr: "CancelQueued ws i w = (Inr j, w') \<Longrightarrow> j_WorkspaceID j = ws"
  unfolding CancelQueued_def
  by (drule missing_or_conflict_Inr, erule with_io_Inr) (auto dest!: update_job_Inr simp: fail_set_def)

lemma CreateJob_Inr:
  assumes "CreateJob j w = (Inr j', w')"
  shows "j_WorkspaceID j' = j_WorkspaceID j \<and> j_State j' = StateQueued \<and> t_jobs w' = t_jobs w @ [j']"
proof -
  obtain i w0 where i: "new_id w = (Inr i, w0)"
    using assms by (auto simp: CreateJob_def split: prod.splits sum.splits)
  then have "t_jobs w0 = t_jobs w" using new_id_tables(1) [of w] by simp
  with assms i show ?thesis
    by (auto simp: CreateJob_def Let_def split: if_splits elim!: with_io_Inr)
qed

lemma CreatePreset_Inr:
  assumes "CreatePreset p w = (Inr p', w')"
  shows "p_WorkspaceID p' = p_WorkspaceID p"
proof -
  obtain i w0 where i: "new_id w = (Inr i, w0)"
    using assms by (auto simp: CreatePreset_def split: prod.splits sum.splits)
  with assms show ?thesis
    by (auto simp: CreatePreset_def Let_def split: if_splits elim!: with_io_Inr)
qed

lemma UpdatePreset_Inr: "UpdatePreset p w = (Inr p', w') \<Longrightarrow> p_WorkspaceID p' = p_WorkspaceID p"
  unfolding UpdatePreset_def Let_def
  by (erule with_io_Inr) (auto simp: preset_set_def split: option.splits if_splits dest!: find_mem)

lemma isolated_enqueued: "j_WorkspaceID j = ws \<Longrightarrow> isolated ws (enqueued a j code)"
  unfolding enqueued_def by (intro isolated_and_then isolation isolated_ret) simp

locale scoped_quota_hook = api_quota_hook +
  assumes quota_scoped: "scoped ws (api_quota a ws')"
begin

lemma isolated_admit: "isolated ws k \<Longrightarrow> isolated ws (admit a ws' k)"
  unfolding admit_def by (intro isolated_and_then isolation quota_scoped)

lemma createJob_isolated: "isolated (id_WorkspaceID i) (createJob a uuid_ok (Some i) body)"
proof -
  have inner: "isolated (id_WorkspaceID i) (and_then (CreateJob (new_job i req src)) (\<lambda>r. case r of
      Inl _ \<Rightarrow> ret (writeError 500 ''create job failed'') | Inr j \<Rightarrow> enqueued a j 201))" for req src
    by (intro isolated_and_then scoped_CreateJob isolation isolated_enqueued)
      (auto simp: new_job_def dest: CreateJob_Inr)
  have sc: "isolated (id_WorkspaceID i) (case p of (x, y) \<Rightarrow> g x y)"
    if "\<And>x y. isolated (id_WorkspaceID i) (g x y)" for p and g :: "string \<Rightarrow> string \<Rightarrow> orch \<Rightarrow> api_resp \<times> orch"
    using that by (cases p) simp
  have dec: "owned ws (snd resp)" if "decodeStrict body = Inl resp" for ws resp
    using that by (auto simp: decodeStrict_def split: json_in.splits if_splits)
  show ?thesis
    unfolding createJob_def identity_def option.case
    by (intro isolation isolated_and_then isolated_admit inner sc isolated_ret dec)
qed

lemma retryJob_isolated: "isolated (id_WorkspaceID i) (retryJob a uuid_ok (Some i) job)"
  unfolding retryJob_def identity_def option.case
  by (intro isolation isolated_and_then isolated_admit isolated_enqueued) (auto dest: RetryJob_Inr)

lemma cancelJob_isolated: "isolated (id_WorkspaceID i) (cancelJob a uuid_ok (Some i) job)"
  unfolding cancelJob_def identity_def option.case
  by (intro isolation isolated_and_then isolated_ret)
    (auto simp: isolation dest: CancelQueued_Inr)

end


lemma scoped_check: "scoped ws (Checker_CheckJobAdmission cfg ws')"
proof (rule scoped_silent)
  fix w :: orch
  have "observed (snd (Checker_CheckJobAdmission cfg ws' w)) = observed w"
    by (rule checker_jobs.check_view)
  then have "same_tables (observed w) (observed (snd (Checker_CheckJobAdmission cfg ws' w)))" by simp
  then show "same_tables w (snd (Checker_CheckJobAdmission cfg ws' w))"
    by (simp add: same_tables_def observed_def)
qed

interpretation deployed_scoped: scoped_quota_hook "deployed_api cfg"
  using deployed.api_quota_hook_axioms
  by (intro scoped_quota_hook.intro scoped_quota_hook_axioms.intro)
    (simp_all add: deployed_api_def scoped_check)

lemma decodeStrict_owned: "decodeStrict body = Inl resp \<Longrightarrow> owned ws (snd resp)"
  by (auto simp: decodeStrict_def split: json_in.splits if_splits)

lemma read_handlers_isolated:
  "isolated (id_WorkspaceID i) (listJobs (Some i) raw)"
  "isolated (id_WorkspaceID i) (getJob uuid_ok (Some i) job)"
  "isolated (id_WorkspaceID i) (listPresets (Some i))"
  "isolated (id_WorkspaceID i) (getPreset uuid_ok (Some i) preset)"
  unfolding listJobs_def getJob_def listPresets_def getPreset_def identity_def option.case
  by (intro isolation isolated_and_then isolated_ret;
      auto dest: ListJobs_Inr ListPresets_Inr GetJob_Inr GetPreset_Inr)+

lemma preset_handlers_isolated:
  "isolated (id_WorkspaceID i) (createPreset (Some i) pbody)"
  "isolated (id_WorkspaceID i) (patchPreset uuid_ok (Some i) preset qbody)"
proof -
  show "isolated (id_WorkspaceID i) (createPreset (Some i) pbody)"
    unfolding createPreset_def identity_def option.case
    by (intro isolation isolated_and_then scoped_CreatePreset isolated_ret)
      (auto simp: preset_of_body_def dest: decodeStrict_owned CreatePreset_Inr)
  have ws: "p_WorkspaceID (apply_patch q p) = p_WorkspaceID p" for q p
    by (simp add: apply_patch_def)
  show "isolated (id_WorkspaceID i) (patchPreset uuid_ok (Some i) preset qbody)"
    unfolding patchPreset_def identity_def option.case
    by (intro isolation isolated_and_then scoped_UpdatePreset isolated_ret)
      (auto simp: ws dest: decodeStrict_owned dest!: GetPreset_Inr UpdatePreset_Inr)
qed

section \<open>The admission cap\<close>

lemma length_filter_update_where:
  "length (filter Q (update_where P f rows)) \<le> length (filter Q rows) + length (filter P rows)"
  by (induction rows) (auto simp: update_where_def)

lemma length_filter_key:
  assumes "unique_keys k rows" "\<And>x y. P x \<Longrightarrow> P y \<Longrightarrow> k x = k y"
  shows "length (filter P rows) \<le> 1"
  using assms(1)
proof (induction rows)
  case (Cons r rs)
  have "filter P rs = []" if "P r"
    using Cons.prems assms(2) [OF that] by (auto simp: unique_keys_def filter_empty_conv)
  with Cons show ?case by (auto simp: unique_keys_def)
qed simp

definition grows :: "string \<Rightarrow> nat \<Rightarrow> (orch \<Rightarrow> 'a \<times> orch) \<Rightarrow> bool" where
  "grows ws n f \<longleftrightarrow> (\<forall>w. store_wf w \<longrightarrow> count_active ws (snd (f w)) \<le> count_active ws w + n)"

lemma grows_silent: "(\<And>w. same_tables w (snd (f w))) \<Longrightarrow> grows ws n f"
  unfolding grows_def using same_tables_count by (metis le_add1)

lemma grows_with_io:
  assumes "grows ws n f"
  shows "grows ws n (with_io f)"
  unfolding grows_def
proof (intro allI impI)
  fix w assume wf: "store_wf w"
  have *: "count_active ws w' = count_active ws w" "store_wf w'" if "next_io w = (x, w')" for x w'
    using that wf by (auto intro: same_tables_count next_io_same_tables)
  have step: "count_active ws (snd (f w')) \<le> count_active ws w + n" if "next_io w = (x, w')" for x w'
    using assms * [OF that] unfolding grows_def by metis
  show "count_active ws (snd (with_io f w)) \<le> count_active ws w + n"
    by (cases rule: with_io_cases [of w f]) (use step * in auto)
qed

lemma grows_update_job:
  assumes "\<And>j j'. P j \<Longrightarrow> P j' \<Longrightarrow> j_ID j = j_ID j'"
  shows "grows ws 1 (update_job P g)"
  unfolding grows_def
proof (intro allI impI)
  fix w assume "store_wf w"
  then have "length (filter P (t_jobs w)) \<le> 1"
    by (intro length_filter_key [where k = j_ID] assms) (simp_all add: store_wf_def)
  then show "count_active ws (snd (update_job P g w)) \<le> count_active ws w + 1"
    using length_filter_update_where [of "\<lambda>j. j_WorkspaceID j = ws \<and> is_active j" P "g (clock w)" "t_jobs w"]
    by (simp add: update_job_def count_active_def split: option.splits)
qed

lemma count_missing_or_conflict [simp]:
  "count_active ws' (snd (missing_or_conflict ws i r)) = count_active ws' (snd r)"
  by (simp add: count_active_def)

lemma grows_RetryJob: "grows ws 1 (RetryJob ws' i)"
proof -
  have "grows ws 1 (with_io (update_job (\<lambda>j. j_WorkspaceID j = ws' \<and> j_ID j = i \<and> j_State j = StateFailed) retry_set))"
    by (intro grows_with_io grows_update_job) auto
  then show ?thesis by (simp add: grows_def RetryJob_def)
qed

lemma new_id_count [simp]: "new_id w = (r, w') \<Longrightarrow> count_active ws w' = count_active ws w"
  using new_id_tables(1) [of w] by (simp add: count_active_def)

lemma grows_new_id_case:
  assumes "\<And>i. grows ws n (f i)"
  shows "grows ws n (\<lambda>w. case new_id w of (Inl e, w') \<Rightarrow> (Inl e, w') | (Inr i, w') \<Rightarrow> f i w')"
  unfolding grows_def
proof (intro allI impI)
  fix w assume wf: "store_wf w"
  obtain r w' where n: "new_id w = (r, w')" by (cases "new_id w")
  then have w': "store_wf w'" "count_active ws w' = count_active ws w"
    using wf new_id_tables [of w] by (simp_all add: store_wf_def)
  have "count_active ws (snd (f i w')) \<le> count_active ws w' + n" for i
    using assms [of i] w'(1) unfolding grows_def by blast
  with w'(2) show "count_active ws (snd (case new_id w of (Inl e, w') \<Rightarrow> (Inl e, w') | (Inr i, w') \<Rightarrow> f i w'))
      \<le> count_active ws w + n"
    unfolding n by (cases r) simp_all
qed

lemma grows_CreateJob: "grows ws 1 (CreateJob j)"
proof -
  have "grows ws 1 (with_io (\<lambda>w. if has_key j_ID i (t_jobs w) \<or> \<not> has_key p_ID (j_PresetID j) (t_presets w)
      then (Inl ErrIO, w) else (Inr (row w), w\<lparr>t_jobs := t_jobs w @ [row w]\<rparr>)))"
    for i and row :: "orch \<Rightarrow> Job"
    by (intro grows_with_io) (auto simp: grows_def count_active_def)
  then show ?thesis
    unfolding CreateJob_def Let_def by (intro grows_new_id_case) simp
qed

text \<open>
  A handler is capped when it cannot push the number of active jobs of the workspace above a
  limit it was within.
\<close>

definition capped :: "string \<Rightarrow> nat \<Rightarrow> (orch \<Rightarrow> 'a \<times> orch) \<Rightarrow> bool" where
  "capped ws n f \<longleftrightarrow>
     (\<forall>w. store_wf w \<and> count_active ws w \<le> n \<longrightarrow> count_active ws (snd (f w)) \<le> n)"

named_theorems caps \<open>handlers that respect the admission cap\<close>

lemma capped_silent: "(\<And>w. same_tables w (snd (f w))) \<Longrightarrow> capped ws n f"
  unfolding capped_def by (metis same_tables_count)

lemma capped_ret [caps]: "capped ws n (ret x)"
  by (simp add: capped_def ret_def)

lemma capped_and_then [caps]:
  assumes "capped ws n f" "store_prog f" "\<And>r. capped ws n (g r)"
  shows "capped ws n (and_then f g)"
  using assms store_prog.keeps_wf unfolding capped_def snd_and_then by blast

lemma capped_cases [caps]:
  "(i = None \<Longrightarrow> capped ws n f) \<Longrightarrow> (\<And>x. i = Some x \<Longrightarrow> capped ws n (g x)) \<Longrightarrow>
     capped ws n (case i of None \<Rightarrow> f | Some x \<Rightarrow> g x)"
  "(\<And>e. s = Inl e \<Longrightarrow> capped ws n (h e)) \<Longrightarrow> (\<And>x. s = Inr x \<Longrightarrow> capped ws n (k x)) \<Longrightarrow>
     capped ws n (case s of Inl e \<Rightarrow> h e | Inr x \<Rightarrow> k x)"
  "(b \<Longrightarrow> capped ws n u) \<Longrightarrow> (\<not> b \<Longrightarrow> capped ws n v) \<Longrightarrow> capped ws n (if b then u else v)"
  "capped ws n a1 \<Longrightarrow> capped ws n b1 \<Longrightarrow> capped ws n c1 \<Longrightarrow> capped ws n d1 \<Longrightarrow>
   capped ws n (case e of ErrNotFound \<Rightarrow> a1 | ErrConflict \<Rightarrow> b1 | ErrDuplicate \<Rightarrow> c1 | ErrIO \<Rightarrow> d1)"
  "(\<And>x y. capped ws n (m x y)) \<Longrightarrow> capped ws n (case p of (x, y) \<Rightarrow> m x y)"
  by (simp_all split: option.splits sum.splits store_err.splits prod.splits)

lemma capped_reads [caps]:
  "capped ws n (GetSource ws' key)" "capped ws n (GetPreset ws' i)"
  unfolding GetSource_def GetPreset_def
  by (intro capped_silent same_tables_with_io; simp)+

lemma same_tables_ignore:
  "(\<And>w. same_tables w (snd (f w))) \<Longrightarrow> same_tables w (snd (ignore f w))"
  by (simp add: ignore_def snd_and_then ret_def)

lemma same_tables_Emit: "same_tables w (snd (Emit u v k jj b s w))"
proof -
  have "same_tables w' (snd (with_io (\<lambda>w. (Inr (), w\<lparr>published_metering := x w\<rparr>)) w'))" for w' x
    by (rule same_tables_with_io) (simp add: same_tables_def)
  moreover have "same_tables w (snd (new_id w))" by simp
  ultimately show ?thesis
    by (auto simp: Emit_def snd_and_then ret_def same_tables_def split: sum.splits)
qed

lemma side_effects_silent:
  "same_tables w (snd (publishState a j w))" "same_tables w (snd (meterEmit a j kind w))"
  "same_tables w (snd (wakeRunner a w))"
  unfolding publishState_def meterEmit_def wakeRunner_def
  by (auto simp: ret_def Wake.silent intro!: same_tables_ignore Publish.silent same_tables_Emit)

lemma same_tables_trans: "same_tables w w' \<Longrightarrow> same_tables w' w'' \<Longrightarrow> same_tables w w''"
  by (simp add: same_tables_def)

lemma enqueued_silent: "same_tables w (snd (enqueued a j code w))"
  unfolding enqueued_def snd_and_then ret_def snd_conv
  by (meson same_tables_trans side_effects_silent)

lemma capped_enqueued [caps]: "capped ws n (enqueued a j code)"
  by (intro capped_silent enqueued_silent)

text \<open>Behind the gate of the deployed checker, one more job still fits.\<close>

lemma capped_admit:
  assumes "0 \<le> lim_MaxActiveJobs (limitsFor cfg ws)" "grows ws 1 k"
  shows "capped ws (nat (lim_MaxActiveJobs (limitsFor cfg ws))) (admit (deployed_api cfg) ws k)"
  unfolding capped_def
proof (intro allI impI, elim conjE)
  let ?n = "nat (lim_MaxActiveJobs (limitsFor cfg ws))"
  fix w assume wf: "store_wf w" and le: "count_active ws w \<le> ?n"
  obtain r w' where c: "Checker_CheckJobAdmission cfg ws w = (r, w')"
    by (cases "Checker_CheckJobAdmission cfg ws w")
  have "observed w' = observed w" using checker_jobs.check_view [of cfg ws w] c by simp
  then have cnt: "count_active ws w' = count_active ws w" by (rule observed_count)
  have wf': "store_wf w'" using store_prog.keeps_wf [OF store_prog_check wf, of cfg ws] c by simp
  show "count_active ws (snd (admit (deployed_api cfg) ws k w)) \<le> ?n"
  proof (cases r)
    case (Inl e)
    then show ?thesis using c cnt le by (simp add: admit_def deployed_api_def and_then_def ret_def)
  next
    case (Inr d)
    have "count_active ws w < ?n" if "qd_Allowed d"
      using admission_iff [of cfg ws w d w'] c Inr that assms(1) by simp
    moreover have "count_active ws (snd (k w')) \<le> count_active ws w' + 1"
      using assms(2) wf' by (simp add: grows_def)
    ultimately show ?thesis
      using c cnt le Inr by (auto simp: admit_def deployed_api_def and_then_def ret_def)
  qed
qed

lemma grows_tail:
  assumes "grows ws n f" "\<And>r w. same_tables w (snd (g r w))"
  shows "grows ws n (and_then f g)"
  using assms unfolding grows_def snd_and_then by (metis same_tables_count)

lemma capped_createJob:
  assumes "0 \<le> lim_MaxActiveJobs (limitsFor cfg (id_WorkspaceID i))"
  shows "capped (id_WorkspaceID i) (nat (lim_MaxActiveJobs (limitsFor cfg (id_WorkspaceID i))))
    (createJob (deployed_api cfg) uuid_ok (Some i) body)"
  unfolding createJob_def identity_def option.case
  by (intro caps capped_admit assms grows_tail grows_CreateJob store_progs)
    (auto simp: ret_def enqueued_silent split: sum.splits)

lemma capped_retryJob:
  assumes "0 \<le> lim_MaxActiveJobs (limitsFor cfg (id_WorkspaceID i))"
  shows "capped (id_WorkspaceID i) (nat (lim_MaxActiveJobs (limitsFor cfg (id_WorkspaceID i))))
    (retryJob (deployed_api cfg) uuid_ok (Some i) job)"
  unfolding retryJob_def identity_def option.case
  by (intro caps capped_admit assms grows_tail grows_RetryJob)
    (auto simp: ret_def enqueued_silent split: sum.splits store_err.splits)

section \<open>Stored presets are valid\<close>

definition presets_valid :: "orch \<Rightarrow> bool" where
  "presets_valid w \<longleftrightarrow> (\<forall>p \<in> set (t_presets w). preset_ok p)"

lemma preset_ok_meta [simp]:
  "preset_ok (p\<lparr>p_ID := i\<rparr>) = preset_ok p" "preset_ok (p\<lparr>p_CreatedAt := t\<rparr>) = preset_ok p"
  "preset_ok (p\<lparr>p_UpdatedAt := t\<rparr>) = preset_ok p" "preset_ok (p\<lparr>p_WorkspaceID := ws\<rparr>) = preset_ok p"
  by (simp_all add: preset_ok_def rate_ok_def cong: RateControlMode.case_cong)

definition keeps_presets :: "(orch \<Rightarrow> 'a \<times> orch) \<Rightarrow> bool" where
  "keeps_presets f \<longleftrightarrow> (\<forall>w. presets_valid w \<longrightarrow> presets_valid (snd (f w)))"

lemma keeps_presets_with_io:
  assumes "keeps_presets f"
  shows "keeps_presets (with_io f)"
  unfolding keeps_presets_def
proof (intro allI impI)
  fix w assume v: "presets_valid w"
  have v': "presets_valid w'" if "next_io w = (x, w')" for x w'
    using v that by (simp add: presets_valid_def)
  show "presets_valid (snd (with_io f w))"
    by (cases rule: with_io_cases [of w f]) (use assms v' in \<open>auto simp: keeps_presets_def\<close>)
qed

lemma keeps_presets_CreatePreset: "preset_ok p \<Longrightarrow> keeps_presets (CreatePreset p)"
proof -
  assume p: "preset_ok p"
  have k: "keeps_presets (with_io (\<lambda>w.
      let row = p\<lparr>p_ID := i, p_CreatedAt := clock w, p_UpdatedAt := clock w\<rparr> in
      if has_key p_ID i (t_presets w) \<or> preset_name_taken row (t_presets w) \<or> \<not> preset_columns_ok row
      then (Inl ErrIO, w) else (Inr row, w\<lparr>t_presets := t_presets w @ [row]\<rparr>)))" for i
    using p by (intro keeps_presets_with_io) (auto simp: keeps_presets_def presets_valid_def Let_def)
  show ?thesis
    unfolding keeps_presets_def
  proof (intro allI impI)
    fix w assume v: "presets_valid w"
    obtain r w' where n: "new_id w = (r, w')" by (cases "new_id w")
    then have "presets_valid w'" using v new_id_tables(2) [of w] by (simp add: presets_valid_def)
    with k show "presets_valid (snd (CreatePreset p w))"
      unfolding CreatePreset_def n keeps_presets_def by (cases r) simp_all
  qed
qed

lemma keeps_presets_UpdatePreset: "preset_ok p \<Longrightarrow> keeps_presets (UpdatePreset p)"
  unfolding UpdatePreset_def Let_def
  by (intro keeps_presets_with_io)
    (auto simp: keeps_presets_def presets_valid_def preset_set_def set_update_where split: option.splits)

lemma keeps_presets_and_then:
  "keeps_presets f \<Longrightarrow> (\<And>r. keeps_presets (g r)) \<Longrightarrow> keeps_presets (and_then f g)"
  by (simp add: keeps_presets_def snd_and_then)

lemma keeps_presets_ret: "keeps_presets (ret x)"
  by (simp add: keeps_presets_def ret_def)

lemma keeps_presets_GetPreset: "keeps_presets (GetPreset ws i)"
  unfolding GetPreset_def by (intro keeps_presets_with_io) (simp add: keeps_presets_def)

lemma keeps_presets_cases:
  "(i = None \<Longrightarrow> keeps_presets f) \<Longrightarrow> (\<And>x. i = Some x \<Longrightarrow> keeps_presets (g x)) \<Longrightarrow>
     keeps_presets (case i of None \<Rightarrow> f | Some x \<Rightarrow> g x)"
  "(\<And>e. s = Inl e \<Longrightarrow> keeps_presets (h e)) \<Longrightarrow> (\<And>x. s = Inr x \<Longrightarrow> keeps_presets (k x)) \<Longrightarrow>
     keeps_presets (case s of Inl e \<Rightarrow> h e | Inr x \<Rightarrow> k x)"
  "(b \<Longrightarrow> keeps_presets u) \<Longrightarrow> (\<not> b \<Longrightarrow> keeps_presets v) \<Longrightarrow> keeps_presets (if b then u else v)"
  "keeps_presets a1 \<Longrightarrow> keeps_presets b1 \<Longrightarrow> keeps_presets c1 \<Longrightarrow> keeps_presets d1 \<Longrightarrow>
   keeps_presets (case e of ErrNotFound \<Rightarrow> a1 | ErrConflict \<Rightarrow> b1 | ErrDuplicate \<Rightarrow> c1 | ErrIO \<Rightarrow> d1)"
  by (simp_all split: option.splits sum.splits store_err.splits)

lemmas keeps_presets_intros = keeps_presets_and_then keeps_presets_ret keeps_presets_GetPreset
  keeps_presets_CreatePreset keeps_presets_UpdatePreset keeps_presets_cases

section \<open>Properties\<close>

text \<open>
  Workspaces are isolated. Every handler of the API, run for a caller of workspace \<open>W\<close>,
  leaves the jobs, presets and sources of all other workspaces exactly as they were, and
  returns no job and no preset that is not of \<open>W\<close>, whatever the request and whichever
  storage calls fail.
\<close>

theorem handlers_isolate_workspaces:
  "isolated (id_WorkspaceID i) (createJob (deployed_api cfg) uuid_ok (Some i) body) \<and>
   isolated (id_WorkspaceID i) (retryJob (deployed_api cfg) uuid_ok (Some i) job) \<and>
   isolated (id_WorkspaceID i) (cancelJob (deployed_api cfg) uuid_ok (Some i) job) \<and>
   isolated (id_WorkspaceID i) (getJob uuid_ok (Some i) job) \<and>
   isolated (id_WorkspaceID i) (listJobs (Some i) raw) \<and>
   isolated (id_WorkspaceID i) (createPreset (Some i) pbody) \<and>
   isolated (id_WorkspaceID i) (patchPreset uuid_ok (Some i) preset qbody) \<and>
   isolated (id_WorkspaceID i) (getPreset uuid_ok (Some i) preset) \<and>
   isolated (id_WorkspaceID i) (listPresets (Some i))"
  by (intro conjI deployed_scoped.createJob_isolated deployed_scoped.retryJob_isolated
      deployed_scoped.cancelJob_isolated read_handlers_isolated preset_handlers_isolated)

text \<open>
  C9. Admission cap. A create or retry request handled on its own never pushes the number of
  queued and running jobs of the workspace above its configured limit.
\<close>

theorem admission_respects_cap:
  assumes "store_reachable w" "0 \<le> lim_MaxActiveJobs (limitsFor cfg (id_WorkspaceID i))"
    and "int (count_active (id_WorkspaceID i) w) \<le> lim_MaxActiveJobs (limitsFor cfg (id_WorkspaceID i))"
  shows "int (count_active (id_WorkspaceID i) (snd (createJob (deployed_api cfg) uuid_ok (Some i) body w)))
      \<le> lim_MaxActiveJobs (limitsFor cfg (id_WorkspaceID i)) \<and>
    int (count_active (id_WorkspaceID i) (snd (retryJob (deployed_api cfg) uuid_ok (Some i) job w)))
      \<le> lim_MaxActiveJobs (limitsFor cfg (id_WorkspaceID i))"
proof -
  have "count_active (id_WorkspaceID i) w \<le> nat (lim_MaxActiveJobs (limitsFor cfg (id_WorkspaceID i)))"
    using assms(3) by simp
  then show ?thesis
    using capped_createJob [OF assms(2), of uuid_ok body] capped_retryJob [OF assms(2), of uuid_ok job]
      reachable_wf [OF assms(1)] assms(2) unfolding capped_def by (metis nat_le_iff le_nat_iff)
qed

definition ex_limits :: fileConfig where
  "ex_limits = \<lparr>fc_Defaults = \<lparr>lim_MaxActiveJobs = 1, lim_MaxUploadBytes = -1\<rparr>, fc_Workspaces = []\<rparr>"

definition ex_user :: Identity where
  "ex_user = \<lparr>id_UserID = ''u'', id_WorkspaceID = ''ws''\<rparr>"

theorem admission_respects_cap_witness:
  "int (count_active ''ws'' (snd (retryJob (deployed_api ex_limits) (\<lambda>_. True) (Some ex_user) ''j'' ex_queued))) \<le> 1"
proof -
  have l: "lim_MaxActiveJobs (limitsFor ex_limits (id_WorkspaceID ex_user)) = 1"
    by (simp add: limitsFor_def ex_limits_def)
  have "count_active (id_WorkspaceID ex_user) ex_queued = 1"
    by (simp add: count_active_def ex_queued_eq ex_row_def ex_job_def is_active_def ex_user_def)
  then show ?thesis
    using admission_respects_cap [OF ex_reachable(3), of ex_limits ex_user "\<lambda>_. True" JsonUnreadable "''j''"] l
    by (simp add: ex_user_def)
qed

text \<open>
  The cap is not transactional. Two create requests whose admission checks both run before
  either insert are both admitted: a workspace limited to one active job ends with two.
\<close>

theorem admission_check_races:
  "\<exists>w w1 w2 w3 w4 j1 j2. store_reachable w \<and>
     lim_MaxActiveJobs (limitsFor ex_limits ''ws'') = 1 \<and> count_active ''ws'' w = 0 \<and>
     Checker_CheckJobAdmission ex_limits ''ws'' w = (Inr allow, w1) \<and>
     Checker_CheckJobAdmission ex_limits ''ws'' w1 = (Inr allow, w2) \<and>
     CreateJob ex_job w2 = (Inr j1, w3) \<and> CreateJob ex_job w3 = (Inr j2, w4) \<and>
     count_active ''ws'' w4 = 2"
proof (intro exI conjI)
  show "store_reachable ex_with_preset" by (rule ex_reachable)
  show "lim_MaxActiveJobs (limitsFor ex_limits ''ws'') = 1"
    by (simp add: limitsFor_def ex_limits_def)
  show "count_active ''ws'' ex_with_preset = 0"
    by (simp add: count_active_def ex_with_preset_eq ex_start_def)
  show "Checker_CheckJobAdmission ex_limits ''ws'' ex_with_preset = (Inr allow, ex_with_preset)"
    "Checker_CheckJobAdmission ex_limits ''ws'' ex_with_preset = (Inr allow, ex_with_preset)"
    by (simp_all add: Checker_CheckJobAdmission_def limitsFor_def ex_limits_def CountActiveJobs_def
        and_then_def with_io_def next_io_def count_active_def ex_with_preset_eq ex_start_def ret_def)
  show "CreateJob ex_job ex_with_preset = (Inr ex_row, ex_queued)"
    unfolding ex_queued_eq ex_with_preset_eq by (simp add: ex_eval ex_row_def)
  show "CreateJob ex_job ex_queued = (Inr (ex_row\<lparr>j_ID := ''j2''\<rparr>),
      ex_queued\<lparr>id_supply := [''m''], t_jobs := [ex_row, ex_row\<lparr>j_ID := ''j2''\<rparr>]\<rparr>)"
    unfolding ex_queued_eq ex_with_preset_eq by (simp add: ex_eval ex_row_def)
  show "count_active ''ws'' (ex_queued\<lparr>id_supply := [''m''], t_jobs := [ex_row, ex_row\<lparr>j_ID := ''j2''\<rparr>]\<rparr>) = 2"
    by (simp add: count_active_def ex_row_def ex_job_def is_active_def)
qed

text \<open>
  C13. Only valid presets are stored: the two handlers that write presets keep every stored
  preset within what \<open>Validate\<close> documents, on every path.
\<close>

theorem stored_presets_valid:
  assumes "\<forall>p \<in> set (t_presets w). preset_ok p"
  shows "(\<forall>p \<in> set (t_presets (snd (createPreset ident pbody w))). preset_ok p) \<and>
    (\<forall>p \<in> set (t_presets (snd (patchPreset uuid_ok ident preset qbody w))). preset_ok p)"
proof -
  have "keeps_presets (createPreset ident pbody)"
    unfolding createPreset_def identity_def
    by (intro keeps_presets_intros) (simp_all add: Validate_accepts_iff)
  moreover have "keeps_presets (patchPreset uuid_ok ident preset qbody)"
    unfolding patchPreset_def identity_def
    by (intro keeps_presets_intros) (simp_all add: Validate_accepts_iff)
  ultimately show ?thesis
    using assms unfolding keeps_presets_def presets_valid_def by blast
qed

definition ex_patch :: presetPatch where
  "ex_patch = \<lparr>pp_Name = None, pp_Container = Some ''webm'', pp_VideoCodec = None, pp_RateControl = None,
     pp_CRF = None, pp_BitrateKbps = None, pp_MaxBitrateKbps = None, pp_GOPLength = None,
     pp_SpeedPreset = None, pp_Ladder = None\<rparr>"

theorem stored_presets_valid_witness:
  "list_all preset_ok
     (t_presets (snd (patchPreset (\<lambda>_. True) (Some ex_user) ''p'' (JsonValue ex_patch []) ex_with_preset)))"
proof -
  have "preset_ok ex_preset"
    by (simp add: preset_ok_def rate_ok_def ex_preset_def ValidSpeedPreset_def rung_ok_def
        rungNamePattern_def is_alnum_def between_def is_digit_def match_class_def)
  then have "\<forall>p \<in> set (t_presets ex_with_preset). preset_ok p" by (simp add: ex_with_preset_eq)
  from stored_presets_valid [OF this, of "Some ex_user" JsonUnreadable "\<lambda>_. True" "''p''" "JsonValue ex_patch []"]
  show ?thesis unfolding list_all_iff by blast
qed

end
