(* ===== verification/OrchScheduler.thy ===== *)
theory OrchScheduler
  imports OrchApi
begin

text \<open>
  The slot scheduler and job runner, \<open>services/orchestrator/internal/scheduler/scheduler.go\<close>,
  over the codec interface of \<open>internal/engine/engine.go\<close>. \<open>runJob\<close> is the whole runner:
  every store call, object store call and engine call it makes, with its two contexts (the
  process context \<open>parent\<close> and the job context derived from it). Before each of its calls and
  before it returns the other goroutines act: \<open>tick\<close> applies the next arrivals to the shared state.
\<close>

section \<open>The codec interface (engine.go)\<close>

record RateControl =
  rc_Mode :: string
  rc_CRF :: int
  rc_BitrateKbps :: int
  rc_MaxBitrateKbps :: int

record OutputSpec =
  os_RungName :: string
  os_Width :: int
  os_Height :: int
  os_Container :: string
  os_VideoCodec :: string
  os_RateControl :: RateControl
  os_GOPLength :: int
  os_SpeedPreset :: string
  os_IncludeAudio :: bool
  os_DestDir :: string
  os_SourceDurationSeconds :: real

record Progress =
  pr_RungName :: string
  pr_FPS :: real
  pr_SpeedX :: real
  pr_OutTimeSeconds :: real
  pr_ProgressPct :: real
  pr_ETASeconds :: real

datatype ErrorStage = StageAsset | StageDecode | StageEncode | StageOther string

fun string_of_stage :: "ErrorStage \<Rightarrow> string" where
  "string_of_stage StageAsset = ''asset''"
| "string_of_stage StageDecode = ''decode''"
| "string_of_stage StageEncode = ''encode''"
| "string_of_stage (StageOther s) = s"

text \<open>An error of the engine: the typed \<open>*engine.Error\<close>, or any other error.\<close>

datatype eng_err = EngError ErrorStage string | OtherError string

fun eng_err_text :: "eng_err \<Rightarrow> string" where
  "eng_err_text (EngError st m) = ''engine '' @ string_of_stage st @ '' error: '' @ m"
| "eng_err_text (OtherError m) = m"

text \<open>
  One call of \<open>Transcode\<close>: the progress samples it reports, each with the time of its
  callback, the error it returns, and the files it leaves in the staging directory.
\<close>

record transcode_run =
  tr_samples :: "(int \<times> Progress) list"
  tr_err :: "eng_err option"
  tr_files :: "string list"

section \<open>Configuration\<close>

record SchedConfig =
  sc_Slots :: int
  sc_PollInterval :: int
  sc_StagingDir :: string
  sc_ProgressPersistEvery :: int

datatype sched_err = SlotsTooSmall | StagingDirRequired

text \<open>Durations are nanoseconds.\<close>

definition New :: "SchedConfig \<Rightarrow> sched_err + SchedConfig" where
  "New cfg =
     (if sc_Slots cfg < 1 then Inl SlotsTooSmall
      else
        let cfg1 = (if sc_PollInterval cfg \<le> 0 then cfg\<lparr>sc_PollInterval := 2000000000\<rparr> else cfg);
            cfg2 = (if sc_ProgressPersistEvery cfg1 \<le> 0 then cfg1\<lparr>sc_ProgressPersistEvery := 500000000\<rparr> else cfg1)
        in if sc_StagingDir cfg2 = [] then Inl StagingDirRequired else Inr cfg2)"

section \<open>Contexts and interference\<close>

fun arrive :: "arrival \<Rightarrow> orch \<Rightarrow> orch" where
  "arrive Quiet w = w"
| "arrive (UserCancel i) w = snd (Cancel i w)"
| "arrive Shutdown w = w\<lparr>stopping := True\<rparr>"
| "arrive (CreateCall j) w = snd (CreateJob j w)"
| "arrive ClaimCall w = snd (ClaimNextQueued w)"
| "arrive (RetryCall ws i) w = snd (RetryJob ws i w)"
| "arrive (CancelCall ws i) w = snd (CancelQueued ws i w)"
| "arrive (CompleteCall i outs) w = snd (MarkCompleted i outs w)"
| "arrive (FailCall i c m) w = snd (MarkFailed i c m w)"
| "arrive (PresetCall p) w = snd (UpdatePreset p w)"
| "arrive (NewPresetCall p) w = snd (CreatePreset p w)"
| "arrive (SourceCall s) w = snd (UpsertSource s w)"
| "arrive (ProgressCall i pct fps speedX eta outs) w = snd (UpdateProgress i pct fps speedX eta outs w)"

text \<open>
  At every point where the runner can be interleaved, any number of arrivals is applied:
  those up to the next \<open>Quiet\<close>, which marks the point at which the runner goes on.
\<close>

fun arrive_until :: "arrival list \<Rightarrow> orch \<Rightarrow> orch" where
  "arrive_until [] w = w\<lparr>arrivals := []\<rparr>"
| "arrive_until (a # as) w = (if a = Quiet then w\<lparr>arrivals := as\<rparr> else arrive_until as (arrive a w))"

definition tick :: "orch \<Rightarrow> unit \<times> orch" where
  "tick w = ((), arrive_until (arrivals w) w)"

definition job_done :: "string \<Rightarrow> orch \<Rightarrow> bool" where
  "job_done i w \<longleftrightarrow> stopping w \<or> i \<in> set (canceled w)"

text \<open>A call under the process context and a call under the job context.\<close>

definition under_parent :: "(orch, 'a) op \<Rightarrow> (orch, 'a) op" where
  "under_parent f = and_then tick (\<lambda>_ w. if stopping w then (Inl ErrIO, w) else f w)"

definition under_job :: "string \<Rightarrow> (orch, 'a) op \<Rightarrow> (orch, 'a) op" where
  "under_job i f = and_then tick (\<lambda>_ w. if job_done i w then (Inl ErrIO, w) else f w)"

definition is_done :: "string \<Rightarrow> orch \<Rightarrow> bool \<times> orch" where
  "is_done i = and_then tick (\<lambda>_ w. (job_done i w, w))"

definition cancelReason :: "orch \<Rightarrow> string" where
  "cancelReason w = (if stopping w then ''canceled by shutdown'' else ''canceled by user'')"

section \<open>Side channels\<close>

text \<open>
  Each publication is a call of its own, before which the other goroutines may act: after the
  outcome of a job is recorded it can be retried and claimed again before its runner returns.
\<close>

definition sched_publishState ::
  "Job \<Rightarrow> State \<Rightarrow> real \<Rightarrow> real \<Rightarrow> real \<Rightarrow> real \<Rightarrow> orch \<Rightarrow> unit \<times> orch" where
  "sched_publishState j st pct fps speedX eta =
     and_then tick (\<lambda>_. ignore (Publish \<lparr>jp_JobID = j_ID j, jp_State = string_of_State st, jp_FPS = fps,
       jp_SpeedX = speedX, jp_ETASeconds = eta, jp_ProgressPct = pct\<rparr>))"

text \<open>The event id is drawn before the publication under the process context is tried.\<close>

definition sched_meterEmit :: "Job \<Rightarrow> MeteringKind \<Rightarrow> real option \<Rightarrow> orch \<Rightarrow> unit \<times> orch" where
  "sched_meterEmit j kind secs =
     and_then tick (\<lambda>_ w.
       if stopping w then ignore new_id w
       else ignore (Emit (j_WorkspaceID j) (j_UserID j) kind (j_ID j) None secs) w)"

definition fail :: "Job \<Rightarrow> ErrorClass \<Rightarrow> string \<Rightarrow> orch \<Rightarrow> unit \<times> orch" where
  "fail j cls msg =
     and_then (under_parent (MarkFailed (j_ID j) cls msg)) (\<lambda>_.
     and_then (sched_publishState j StateFailed 0 0 0 0) (\<lambda>_.
     sched_meterEmit j MeteringJobFailed None))"

definition fail_canceled :: "Job \<Rightarrow> orch \<Rightarrow> unit \<times> orch" where
  "fail_canceled j w = fail j ErrorInternal (cancelReason w) w"

section \<open>One rung\<close>

definition primaryArtifact :: "string list \<Rightarrow> string \<Rightarrow> Container \<Rightarrow> string \<Rightarrow> string" where
  "primaryArtifact keys prefix container rung =
     (let want = (case container of
           ContainerMP4 \<Rightarrow> prefix @ ''/'' @ rung @ ''.mp4''
         | ContainerMOV \<Rightarrow> prefix @ ''/'' @ rung @ ''.mov''
         | ContainerWebM \<Rightarrow> prefix @ ''/'' @ rung @ ''.webm''
         | ContainerHLS \<Rightarrow> prefix @ ''/'' @ rung @ ''.m3u8''
         | ContainerDASH \<Rightarrow> prefix @ ''/'' @ rung @ ''.mpd''
         | ContainerOther _ \<Rightarrow> [])
      in if want \<in> set keys then want else case keys of [] \<Rightarrow> [] | k # _ \<Rightarrow> k)"

definition output_spec :: "SchedConfig \<Rightarrow> string \<Rightarrow> Job \<Rightarrow> Preset \<Rightarrow> Source \<Rightarrow> Rung \<Rightarrow> OutputSpec" where
  "output_spec cfg rnd j preset src rung =
     \<lparr>os_RungName = r_Name rung, os_Width = r_Width rung, os_Height = r_Height rung,
      os_Container = string_of_Container (p_Container preset),
      os_VideoCodec = string_of_VideoCodec (p_VideoCodec preset),
      os_RateControl = \<lparr>rc_Mode = string_of_RateControlMode (p_RateControl preset), rc_CRF = p_CRF preset,
        rc_BitrateKbps = p_BitrateKbps preset, rc_MaxBitrateKbps = p_MaxBitrateKbps preset\<rparr>,
      os_GOPLength = p_GOPLength preset, os_SpeedPreset = p_SpeedPreset preset,
      os_IncludeAudio = (mi_AudioStreams (s_MediaInfo src) > 0),
      os_DestDir = sc_StagingDir cfg @ ''/job-'' @ j_ID j @ ''-'' @ rnd,
      os_SourceDurationSeconds = mi_DurationSeconds (s_MediaInfo src)\<rparr>"

text \<open>
  The progress callback. \<open>lastPersist\<close> is \<open>None\<close> for Go's zero time, from which any
  current time is far away.
\<close>

definition onProgress ::
  "SchedConfig \<Rightarrow> Job \<Rightarrow> Source \<Rightarrow> nat \<Rightarrow> nat \<Rightarrow> int \<times> Progress \<Rightarrow>
   OutputProgress list \<times> int option \<Rightarrow> orch \<Rightarrow> (OutputProgress list \<times> int option) \<times> orch" where
  "onProgress cfg j src rungs_n i sample st w =
     (let (now, p) = sample; (outputs, lastPersist) = st;
          outputs' = outputs[i := (outputs ! i)\<lparr>o_ProgressPct := pr_ProgressPct p\<rparr>];
          jobPct = (real i * 100 + pr_ProgressPct p) / real rungs_n;
          eta = pr_ETASeconds p +
            (if pr_SpeedX p > 0
             then (real rungs_n - real i - 1) * (mi_DurationSeconds (s_MediaInfo src) / pr_SpeedX p) else 0);
          w1 = w\<lparr>clock := now\<rparr>
      in if (case lastPersist of None \<Rightarrow> False | Some t \<Rightarrow> now - t < sc_ProgressPersistEvery cfg)
         then ((outputs', lastPersist), w1)
         else and_then (under_parent (UpdateProgress (j_ID j) jobPct (pr_FPS p) (pr_SpeedX p) eta outputs'))
           (\<lambda>_. and_then (sched_publishState j StateRunning jobPct (pr_FPS p) (pr_SpeedX p) eta)
           (\<lambda>_. ret (outputs', Some now))) w1)"

fun progress_loop ::
  "SchedConfig \<Rightarrow> Job \<Rightarrow> Source \<Rightarrow> nat \<Rightarrow> nat \<Rightarrow> (int \<times> Progress) list \<Rightarrow>
   OutputProgress list \<times> int option \<Rightarrow> orch \<Rightarrow> (OutputProgress list \<times> int option) \<times> orch" where
  "progress_loop cfg j src rungs_n i [] st w = (st, w)"
| "progress_loop cfg j src rungs_n i (s # ss) st w =
     and_then (onProgress cfg j src rungs_n i s st) (progress_loop cfg j src rungs_n i ss) w"

definition class_of :: "eng_err \<Rightarrow> ErrorClass" where
  "class_of e = (case e of EngError st _ \<Rightarrow> ErrorClass_of_string (string_of_stage st) | OtherError _ \<Rightarrow> ErrorInternal)"

text \<open>
  The rung loop. \<open>None\<close> is the early return after \<open>fail\<close>; \<open>Some outputs\<close> means that
  every rung was encoded and stored.
\<close>

fun run_rungs ::
  "SchedConfig \<Rightarrow> (OutputSpec \<Rightarrow> transcode_run) \<Rightarrow> (store_err \<Rightarrow> string) \<Rightarrow> string \<Rightarrow> Job \<Rightarrow> Preset \<Rightarrow>
   Source \<Rightarrow> nat \<Rightarrow> Rung list \<Rightarrow> OutputProgress list \<times> int option \<Rightarrow> orch \<Rightarrow>
   OutputProgress list option \<times> orch" where
  "run_rungs cfg eng show_err rnd j preset src i [] st w = (Some (fst st), w)"
| "run_rungs cfg eng show_err rnd j preset src i (rung # rungs) st w =
     and_then (is_done (j_ID j)) (\<lambda>canceled.
       if canceled then and_then (fail_canceled j) (\<lambda>_. ret None)
       else and_then local_io (\<lambda>r. case r of
         Inl e \<Rightarrow> and_then (fail j ErrorInternal (''staging dir: '' @ show_err e)) (\<lambda>_. ret None)
       | Inr _ \<Rightarrow>
           let run = eng (output_spec cfg rnd j preset src rung);
               outputs = (fst st)[i := (fst st ! i)\<lparr>o_State := ''running''\<rparr>];
               prefix = output_prefix (j_WorkspaceID j) (j_ID j) (r_Name rung)
           in and_then (progress_loop cfg j src (length (p_Ladder preset)) i (tr_samples run) (outputs, snd st))
                (\<lambda>st'. case tr_err run of
                   Some e \<Rightarrow>
                     and_then (is_done (j_ID j)) (\<lambda>canceled.
                       if canceled then and_then (fail_canceled j) (\<lambda>_. ret None)
                       else and_then (fail j (class_of e) (''rung '' @ r_Name rung @ '': '' @ eng_err_text e))
                         (\<lambda>_. ret None))
                 | None \<Rightarrow>
                     and_then (under_job (j_ID j) (PutDir prefix (tr_files run))) (\<lambda>r. case r of
                       Inl e \<Rightarrow>
                         and_then (is_done (j_ID j)) (\<lambda>canceled.
                           if canceled then and_then (fail_canceled j) (\<lambda>_. ret None)
                           else and_then (fail j ErrorInternal
                             (''store outputs for rung '' @ r_Name rung @ '': '' @ show_err e)) (\<lambda>_. ret None))
                     | Inr keys \<Rightarrow>
                         run_rungs cfg eng show_err rnd j preset src (Suc i) rungs
                           ((fst st')[i := (fst st' ! i)\<lparr>o_State := ''completed'', o_ProgressPct := 100,
                              o_ObjectKey := primaryArtifact keys prefix (p_Container preset) (r_Name rung)\<rparr>],
                            snd st'))))) w"

section \<open>One job\<close>

definition enter :: "string \<Rightarrow> orch \<Rightarrow> unit \<times> orch" where
  "enter i w = ((), w\<lparr>cancels := List.insert i (cancels w), canceled := removeAll i (canceled w)\<rparr>)"

definition leave :: "string \<Rightarrow> orch \<Rightarrow> unit \<times> orch" where
  "leave i w = ((), w\<lparr>cancels := removeAll i (cancels w)\<rparr>)"

definition finish_job :: "Job \<Rightarrow> int \<Rightarrow> OutputProgress list \<Rightarrow> orch \<Rightarrow> unit \<times> orch" where
  "finish_job j started outputs =
     and_then (under_parent (MarkCompleted (j_ID j) outputs)) (\<lambda>r. case r of
       Inl _ \<Rightarrow> ret ()
     | Inr _ \<Rightarrow> (\<lambda>w.
         let secs = real_of_int (clock w - started) / 1000000000 in
         and_then (sched_publishState j StateCompleted 100 0 0 0) (\<lambda>_.
           sched_meterEmit j MeteringJobCompleted (Some secs)) w))"

definition pending_outputs :: "Preset \<Rightarrow> OutputProgress list" where
  "pending_outputs preset =
     map (\<lambda>r. \<lparr>o_Name = r_Name r, o_ObjectKey = [], o_State = ''pending'', o_ProgressPct = 0\<rparr>) (p_Ladder preset)"

definition run_body ::
  "SchedConfig \<Rightarrow> (OutputSpec \<Rightarrow> transcode_run) \<Rightarrow> (store_err \<Rightarrow> string) \<Rightarrow> string \<Rightarrow> Job \<Rightarrow> int \<Rightarrow>
   orch \<Rightarrow> unit \<times> orch" where
  "run_body cfg eng show_err rnd j started =
     and_then (under_job (j_ID j) (GetPreset (j_WorkspaceID j) (j_PresetID j))) (\<lambda>r. case r of
       Inl e \<Rightarrow> fail j ErrorInternal (''load preset '' @ j_PresetID j @ '': '' @ show_err e)
     | Inr preset \<Rightarrow>
     and_then (under_job (j_ID j) (GetSource (j_WorkspaceID j) (j_SourceObjectKey j))) (\<lambda>r. case r of
       Inl e \<Rightarrow> fail j ErrorAsset (''source '' @ j_SourceObjectKey j @ '' not probed: '' @ show_err e)
     | Inr src \<Rightarrow>
     and_then (under_job (j_ID j) (Exists (j_SourceObjectKey j))) (\<lambda>r.
       if r \<noteq> Inr True
       then fail j ErrorAsset (''source object '' @ j_SourceObjectKey j @ '' missing from store'')
       else
     and_then local_io (\<lambda>r. case r of
       Inl e \<Rightarrow> fail j ErrorInternal (''scratch dir: '' @ show_err e)
     | Inr _ \<Rightarrow>
     and_then (under_job (j_ID j) (Download (j_SourceObjectKey j))) (\<lambda>r. case r of
       Inl e \<Rightarrow>
         and_then (is_done (j_ID j)) (\<lambda>canceled.
           if canceled then fail_canceled j
           else fail j ErrorAsset (''download source '' @ j_SourceObjectKey j @ '': '' @ show_err e))
     | Inr _ \<Rightarrow>
     and_then (run_rungs cfg eng show_err rnd j preset src 0 (p_Ladder preset) (pending_outputs preset, None))
       (\<lambda>r. case r of None \<Rightarrow> ret () | Some outputs \<Rightarrow> finish_job j started outputs))))))"

definition runJob ::
  "SchedConfig \<Rightarrow> (OutputSpec \<Rightarrow> transcode_run) \<Rightarrow> (store_err \<Rightarrow> string) \<Rightarrow> string \<Rightarrow> Job \<Rightarrow> orch \<Rightarrow>
   unit \<times> orch" where
  "runJob cfg eng show_err rnd j w =
     and_then (enter (j_ID j)) (\<lambda>_.
     and_then (sched_publishState j StateRunning 0 0 0 0) (\<lambda>_.
     and_then (sched_meterEmit j MeteringJobStarted None) (\<lambda>_.
     and_then (run_body cfg eng show_err rnd j (clock w)) (\<lambda>_.
     and_then tick (\<lambda>_.
     leave (j_ID j)))))) w"

section \<open>The runner is a program over the store\<close>

lemma arrive_step: "store_step w (arrive a w)"
proof (cases a)
  case (UserCancel i)
  then show ?thesis by (auto simp: Cancel_def same_tables_def intro!: store_step.environment)
qed (auto intro: store_step.intros simp: same_tables_def)

lemma arrive_until_steps: "store_step\<^sup>*\<^sup>* w (arrive_until as w)"
proof (induction as arbitrary: w)
  case Nil
  show ?case by (intro r_into_rtranclp store_step.environment) (simp add: same_tables_def)
next
  case (Cons a as)
  have "store_step\<^sup>*\<^sup>* w (arrive_until as (arrive a w))"
    using arrive_step Cons by (rule converse_rtranclp_into_rtranclp)
  moreover have "store_step\<^sup>*\<^sup>* w (w\<lparr>arrivals := as\<rparr>)"
    by (intro r_into_rtranclp store_step.environment) (simp add: same_tables_def)
  ultimately show ?case by simp
qed

lemma store_prog_tick [store_progs]: "store_prog tick"
  by (rule store_progI) (simp add: tick_def arrive_until_steps)

lemma store_prog_guard: "store_prog f \<Longrightarrow> store_prog (\<lambda>w. if b w then (x, w) else f w)"
  unfolding store_prog_def by auto

lemma store_prog_ctx [store_progs]:
  "store_prog f \<Longrightarrow> store_prog (under_parent f)" "store_prog f \<Longrightarrow> store_prog (under_job i f)"
  "store_prog (is_done i)"
  unfolding under_parent_def under_job_def is_done_def
  by (intro store_progs store_prog_guard; simp add: store_prog_silent)+

lemma store_prog_sched_side [store_progs]:
  "store_prog (sched_publishState j st pct fps spd eta)" "store_prog (sched_meterEmit j k s)"
proof -
  show "store_prog (sched_publishState j st pct fps spd eta)"
    unfolding sched_publishState_def by (intro store_progs)
  have "store_prog (ignore new_id :: orch \<Rightarrow> unit \<times> orch)"
    "store_prog (ignore (Emit (j_WorkspaceID j) (j_UserID j) k (j_ID j) None s))"
    by (intro store_progs)+
  then have "store_prog (\<lambda>w. if stopping w then ignore new_id w
      else ignore (Emit (j_WorkspaceID j) (j_UserID j) k (j_ID j) None s) w)"
    unfolding store_prog_def by simp
  then show "store_prog (sched_meterEmit j k s)"
    unfolding sched_meterEmit_def by (intro store_progs)
qed

lemma store_prog_fail [store_progs]: "store_prog (fail j c m)" "store_prog (fail_canceled j)"
proof -
  show f: "store_prog (fail j c m)" for c m unfolding fail_def by (intro store_progs)
  then show "store_prog (fail_canceled j)" by (simp add: store_prog_def fail_canceled_def)
qed

lemma store_prog_put_files: "store_step\<^sup>*\<^sup>* w (snd (put_files prefix rels w))"
proof (induction prefix rels w rule: put_files.induct)
  case (2 prefix rel rels w)
  obtain r w' where p: "PutFile (prefix @ ''/'' @ rel) w = (r, w')"
    by (cases "PutFile (prefix @ ''/'' @ rel) w")
  have 1: "store_step\<^sup>*\<^sup>* w w'"
    using store_prog.runs [OF store_prog_objects(4), of w "prefix @ ''/'' @ rel"] p by simp
  show ?case
  proof (cases r)
    case (Inl e)
    then show ?thesis using p 1 by simp
  next
    case (Inr u)
    have "store_step\<^sup>*\<^sup>* w' (snd (put_files prefix rels w'))"
      using "2.IH" p Inr by simp
    then show ?thesis
      using p Inr 1 by (auto split: prod.splits sum.splits)
  qed
qed simp

lemma store_prog_PutDir [store_progs]: "store_prog (PutDir prefix rels)"
  by (rule store_progI) (simp add: PutDir_def store_prog_put_files)

lemma store_prog_onProgress [store_progs]: "store_prog (onProgress cfg j src n i s st)"
proof (rule store_progI)
  fix w
  obtain now p where s: "s = (now, p)" by (cases s)
  obtain outputs lp where st: "st = (outputs, lp)" by (cases st)
  have c: "store_step\<^sup>*\<^sup>* w (w\<lparr>clock := now\<rparr>)"
    by (intro r_into_rtranclp store_step.environment) (simp add: same_tables_def)
  have "store_prog (and_then (under_parent (UpdateProgress (j_ID j) a b cc d e))
      (\<lambda>_. and_then (sched_publishState j StateRunning a b cc d) (\<lambda>_. ret (e, Some now))))"
    for a b cc d e by (intro store_progs)
  from store_prog.runs [OF this] c show "store_step\<^sup>*\<^sup>* w (snd (onProgress cfg j src n i s st w))"
    by (auto simp: onProgress_def s st Let_def intro: rtranclp_trans)
qed

lemma store_prog_progress_loop [store_progs]: "store_prog (progress_loop cfg j src n i ss st)"
proof (induction ss arbitrary: st)
  case Nil
  show ?case by (rule store_prog_silent) simp
next
  case (Cons s ss)
  have "store_prog (and_then (onProgress cfg j src n i s st) (progress_loop cfg j src n i ss))"
    by (intro store_progs Cons)
  then show ?case by (simp add: store_prog_def)
qed

lemma store_prog_run_rungs [store_progs]:
  "store_prog (run_rungs cfg eng show_err rnd j preset src i rungs st)"
proof (induction rungs arbitrary: i st)
  case Nil
  show ?case by (rule store_prog_silent) simp
next
  case (Cons rung rungs)
  show ?case
    unfolding run_rungs.simps Let_def store_prog_def
    by (intro allI store_prog.runs store_progs Cons)
qed

lemma store_prog_runJob: "store_prog (runJob cfg eng show_err rnd j)"
proof -
  have l: "store_prog (enter i)" "store_prog (leave i)" for i
    by (rule store_prog_silent, simp add: enter_def leave_def same_tables_def)+
  have "store_prog (finish_job j t outs)" for t outs
  proof -
    have "store_prog (\<lambda>w. and_then (sched_publishState j StateCompleted 100 0 0 0) (\<lambda>_.
        sched_meterEmit j MeteringJobCompleted (Some (s w))) w)" for s :: "orch \<Rightarrow> real"
    proof (rule store_progI)
      fix w
      have "store_prog (and_then (sched_publishState j StateCompleted 100 0 0 0) (\<lambda>_.
        sched_meterEmit j MeteringJobCompleted (Some (s w))))" by (intro store_progs)
      then show "store_step\<^sup>*\<^sup>* w (snd (and_then (sched_publishState j StateCompleted 100 0 0 0) (\<lambda>_.
        sched_meterEmit j MeteringJobCompleted (Some (s w))) w))" by (rule store_prog.runs)
    qed
    then show ?thesis unfolding finish_job_def Let_def by (intro store_progs)
  qed
  then have "store_prog (run_body cfg eng show_err rnd j t)" for t
    unfolding run_body_def by (intro store_progs)
  then have "store_prog (and_then (enter (j_ID j)) (\<lambda>_. and_then (sched_publishState j StateRunning 0 0 0 0) (\<lambda>_.
     and_then (sched_meterEmit j MeteringJobStarted None) (\<lambda>_.
     and_then (run_body cfg eng show_err rnd j t) (\<lambda>_. and_then tick (\<lambda>_. leave (j_ID j)))))))" for t
    by (intro store_progs l)
  then show ?thesis unfolding runJob_def store_prog_def by blast
qed

interpretation runJob: store_prog "runJob cfg eng show_err rnd j"
  by (rule store_prog_runJob)

section \<open>The runner settles its job\<close>

text \<open>
  \<open>job_row i P\<close>: job \<open>i\<close> has one row in the table and it satisfies \<open>P\<close>. A job is
  \<open>running\<close>, or it is \<open>settled\<close>: completed or failed. Attempt \<open>n\<close> of a job is over
  when the job is not running, or runs under a later attempt number: claiming is what counts
  the attempts.
\<close>

definition job_row :: "string \<Rightarrow> (Job \<Rightarrow> bool) \<Rightarrow> orch \<Rightarrow> bool" where
  "job_row i P w \<longleftrightarrow> (case filter (\<lambda>j. j_ID j = i) (t_jobs w) of [j] \<Rightarrow> P j | _ \<Rightarrow> False)"

definition is_running :: "Job \<Rightarrow> bool" where
  "is_running j \<longleftrightarrow> j_State j = StateRunning"

definition running :: "string \<Rightarrow> orch \<Rightarrow> bool" where
  "running i = job_row i is_running"

definition is_final :: "Job \<Rightarrow> bool" where
  "is_final j \<longleftrightarrow> j_State j = StateCompleted \<or> j_State j = StateFailed"

definition settled :: "string \<Rightarrow> orch \<Rightarrow> bool" where
  "settled i = job_row i is_final"

definition past_attempt :: "int \<Rightarrow> Job \<Rightarrow> bool" where
  "past_attempt n j \<longleftrightarrow> n \<le> j_Attempts j \<and> (j_State j = StateRunning \<longrightarrow> n < j_Attempts j)"

definition attempt_over :: "string \<Rightarrow> int \<Rightarrow> orch \<Rightarrow> bool" where
  "attempt_over i n = job_row i (past_attempt n)"

text \<open>What may happen meanwhile: anything but a shutdown, or neither that nor a retry of the job.\<close>

definition no_shutdown :: "arrival \<Rightarrow> bool" where
  "no_shutdown a \<longleftrightarrow> a \<noteq> Shutdown"

definition no_retry :: "string \<Rightarrow> arrival \<Rightarrow> bool" where
  "no_retry i a \<longleftrightarrow> (case a of Shutdown \<Rightarrow> False | RetryCall _ i' \<Rightarrow> i' \<noteq> i | _ \<Rightarrow> True)"

definition good :: "(arrival \<Rightarrow> bool) \<Rightarrow> string \<Rightarrow> (Job \<Rightarrow> bool) \<Rightarrow> orch \<Rightarrow> bool" where
  "good calm i P w \<longleftrightarrow> healthy w \<and> \<not> stopping w \<and> list_all calm (arrivals w) \<and> job_row i P w"

definition upholds :: "(orch \<Rightarrow> bool) \<Rightarrow> (orch \<Rightarrow> 'a \<times> orch) \<Rightarrow> bool" where
  "upholds I f \<longleftrightarrow> (\<forall>w. I w \<longrightarrow> I (snd (f w)))"

named_theorems goods \<open>calls that keep what is known of the job and the process healthy\<close>

lemma upholdsI: "(\<And>w. I w \<Longrightarrow> I (snd (f w))) \<Longrightarrow> upholds I f"
  by (simp add: upholds_def)

lemma upholdsD: "upholds I f \<Longrightarrow> I w \<Longrightarrow> I (snd (f w))"
  by (simp add: upholds_def)

lemma good_with_io: "good calm i P w \<Longrightarrow> with_io f w = f w"
  by (simp add: good_def with_io_healthy)

lemma good_cong:
  "good calm i P w \<Longrightarrow> t_jobs w' = t_jobs w \<Longrightarrow> io_script w' = io_script w \<Longrightarrow>
   stopping w' = stopping w \<Longrightarrow> arrivals w' = arrivals w \<Longrightarrow> good calm i P w'"
  by (simp add: good_def healthy_def job_row_def)

lemma upholds_and_then [goods]:
  "upholds I f \<Longrightarrow> (\<And>r. upholds I (g r)) \<Longrightarrow> upholds I (and_then f g)"
  by (simp add: upholds_def snd_and_then)

lemma upholds_ret [goods]: "upholds I (ret x)"
  by (simp add: upholds_def ret_def)

lemma upholds_ignore [goods]: "upholds I f \<Longrightarrow> upholds I (ignore f)"
  unfolding ignore_def by (intro goods)

lemma upholds_cases [goods]:
  "(\<And>e. s = Inl e \<Longrightarrow> upholds I (h e)) \<Longrightarrow> (\<And>x. s = Inr x \<Longrightarrow> upholds I (k x)) \<Longrightarrow>
     upholds I (case s of Inl e \<Rightarrow> h e | Inr x \<Rightarrow> k x)"
  by (simp split: sum.splits)

lemma upholds_guard:
  "upholds I f \<Longrightarrow> upholds I g \<Longrightarrow> upholds I (\<lambda>w. if b w then f w else g w)"
  "upholds I g \<Longrightarrow> upholds I (\<lambda>w. if b w then (x, w) else g w)"
  by (simp_all add: upholds_def)

lemma good_io: "(\<And>w. t_jobs (snd (f w)) = t_jobs w \<and> io_script (snd (f w)) = io_script w \<and>
    stopping (snd (f w)) = stopping w \<and> arrivals (snd (f w)) = arrivals w) \<Longrightarrow>
  upholds (good calm i P) (with_io f)"
  by (rule upholdsI) (simp add: good_with_io, erule good_cong, simp_all)

lemma good_new_id [goods]: "upholds (good calm i P) new_id"
  by (rule upholdsI, erule good_cong) (simp_all add: new_id_def split: list.splits)

lemma good_calls [goods]:
  "upholds (good calm i P) (GetPreset ws p)" "upholds (good calm i P) (GetSource ws k)"
  "upholds (good calm i P) local_io" "upholds (good calm i P) (Publish ev)"
  "upholds (good calm i P) (GetJob ws k)" "upholds (good calm i P) (UpsertSource s)"
  "upholds (good calm i P) (UpdatePreset pr)"
  unfolding GetPreset_def GetSource_def local_io_def Publish_def GetJob_def UpsertSource_def UpdatePreset_def
  by (rule good_io, simp add: Let_def split: option.splits)+

lemma good_Exists [goods]: "upholds (good calm i P) (Exists k)"
  by (simp add: upholds_def Exists_def good_with_io)

lemma good_Download [goods]: "upholds (good calm i P) (Download k)"
proof -
  have "upholds (good calm i P) (and_then (with_io (\<lambda>w. (if k \<in> set (bucket w) then Inr () else Inl ErrIO, w)))
      (\<lambda>r. case r of Inl e \<Rightarrow> ret (Inl e) | Inr _ \<Rightarrow> local_io))"
    by (intro goods good_io) simp
  then show ?thesis by (simp add: upholds_def Download_def)
qed

lemma good_PutFile [goods]: "upholds (good calm i P) (PutFile k)"
proof -
  have "upholds (good calm i P) (and_then local_io
      (\<lambda>r. case r of Inl e \<Rightarrow> ret (Inl e) | Inr _ \<Rightarrow> with_io (\<lambda>w. (Inr (), put_key k w))))"
    by (intro goods good_io) (simp add: put_key_def)
  then show ?thesis by (simp add: upholds_def PutFile_def)
qed

lemma good_Emit [goods]: "upholds (good calm i P) (Emit u v k jj b s)"
  unfolding Emit_def by (intro goods good_io) simp

lemma good_CreatePreset [goods]: "upholds (good calm i P) (CreatePreset pr)"
proof (rule upholdsI)
  fix w assume g: "good calm i P w"
  obtain r w' where n: "new_id w = (r, w')" by (cases "new_id w")
  have g': "good calm i P w'" using upholdsD [OF good_new_id g] n by simp
  then show "good calm i P (snd (CreatePreset pr w))"
    by (auto simp: CreatePreset_def n good_with_io Let_def split: sum.splits elim: good_cong)
qed

lemma good_put_files: "good calm i P w \<Longrightarrow> good calm i P (snd (put_files prefix rels w))"
proof (induction prefix rels w rule: put_files.induct)
  case (2 prefix rel rels w)
  obtain r w' where p: "PutFile (prefix @ ''/'' @ rel) w = (r, w')"
    by (cases "PutFile (prefix @ ''/'' @ rel) w")
  with 2 have g: "good calm i P w'" using upholdsD [OF good_PutFile, of calm i P w] by (metis snd_conv)
  show ?case
  proof (cases r)
    case (Inr u)
    then have "good calm i P (snd (put_files prefix rels w'))" using "2.IH" p g by simp
    then show ?thesis using p Inr by (auto split: prod.splits sum.splits)
  qed (use p g in simp)
qed simp

lemma good_PutDir [goods]: "upholds (good calm i P) (PutDir prefix rels)"
  by (simp add: upholds_def PutDir_def good_put_files)

text \<open>Writes to the job table.\<close>

lemma job_row_iff: "job_row i P w \<longleftrightarrow> (\<exists>j. filter (\<lambda>j. j_ID j = i) (t_jobs w) = [j] \<and> P j)"
  by (simp add: job_row_def split: list.splits)

lemma job_rowE:
  assumes "job_row i P w"
  obtains j where "j \<in> set (t_jobs w)" "j_ID j = i" "P j" "\<And>k. k \<in> set (t_jobs w) \<Longrightarrow> j_ID k = i \<Longrightarrow> k = j"
proof -
  obtain j where j: "filter (\<lambda>j. j_ID j = i) (t_jobs w) = [j]" "P j" using assms by (auto simp: job_row_iff)
  have m: "k \<in> set (t_jobs w) \<and> j_ID k = i \<longleftrightarrow> k = j" for k
    using arg_cong [OF j(1), of "\<lambda>l. k \<in> set l"] by simp
  show thesis
  proof (rule that [of j])
    show "k \<in> set (t_jobs w) \<Longrightarrow> j_ID k = i \<Longrightarrow> k = j" for k using m [of k] by blast
  qed (use m [of j] j(2) in blast)+
qed

lemma filter_job_update:
  assumes "\<And>j. j_ID (g j) = j_ID j"
  shows "filter (\<lambda>j. j_ID j = i) (update_where Q g rows) =
    map (\<lambda>j. if Q j then g j else j) (filter (\<lambda>j. j_ID j = i) rows)"
  using assms by (induction rows) (auto simp: update_where_def)

lemma job_row_update:
  assumes "job_row i P w" "\<And>j. j_ID (g j) = j_ID j"
    "\<And>j. j \<in> set (t_jobs w) \<Longrightarrow> j_ID j = i \<Longrightarrow> P j \<Longrightarrow> P' (if Q j then g j else j)"
  shows "job_row i P' (w\<lparr>t_jobs := update_where Q g (t_jobs w)\<rparr>)"
proof -
  obtain j where j: "filter (\<lambda>j. j_ID j = i) (t_jobs w) = [j]" "P j" using assms(1) by (auto simp: job_row_iff)
  have "j \<in> set (filter (\<lambda>j. j_ID j = i) (t_jobs w))" using j(1) by simp
  then have "P' (if Q j then g j else j)" using assms(3) j(2) by simp
  then show ?thesis by (simp add: job_row_iff filter_job_update [OF assms(2)] j(1))
qed

lemma good_update:
  assumes g: "good calm i P w" and "\<And>t j. j_ID (u t j) = j_ID j"
    "\<And>t j. j \<in> set (t_jobs w) \<Longrightarrow> j_ID j = i \<Longrightarrow> P j \<Longrightarrow> P' (if Q j then u t j else j)"
  shows "good calm i P' (snd (with_io (update_job Q u) w))"
proof -
  have "job_row i P' (w\<lparr>t_jobs := update_where Q (u (clock w)) (t_jobs w)\<rparr>)"
    by (rule job_row_update [where P = P]) (use assms in \<open>simp_all add: good_def\<close>)
  moreover have "w\<lparr>t_jobs := t_jobs w\<rparr> = w" by simp
  ultimately show ?thesis unfolding good_with_io [OF g] using g
    by (auto simp: good_def healthy_def update_job_def update_where_none split: option.splits)
qed

lemma good_missing_or_conflict: "good calm i P (snd r) \<Longrightarrow> good calm i P (snd (missing_or_conflict ws k r))"
  using upholdsD [OF good_calls(5), of calm i P "snd r" ws k]
  by (cases r; cases "GetJob ws k (snd r)")
    (auto simp: missing_or_conflict_def split: prod.splits sum.splits store_err.splits)

lemma good_CreateJob [goods]: "upholds (good calm i P) (CreateJob j)"
proof (rule upholdsI)
  fix w assume g: "good calm i P w"
  obtain r w' where n: "new_id w = (r, w')" by (cases "new_id w")
  have g': "good calm i P w'" using upholdsD [OF good_new_id g] n by simp
  then have k: "has_key j_ID i (t_jobs w')" by (auto simp: good_def has_key_def elim: job_rowE)
  have "good calm i P (w'\<lparr>t_jobs := t_jobs w' @ [x]\<rparr>)" if "\<not> has_key j_ID (j_ID x) (t_jobs w')" for x
    using g' that k by (auto simp: good_def healthy_def job_row_iff)
  then show "good calm i P (snd (CreateJob j w))"
    using g' by (auto simp: CreateJob_def n good_with_io Let_def split: sum.splits)
qed

section \<open>Facts about a job that hold across interference\<close>

text \<open>
  A property of a row that every store call of the other goroutines keeps, as far as
  \<open>calm\<close> admits the call, is kept by every call of the runner that does not finalise the job.
\<close>

locale kept_row =
  fixes calm :: "arrival \<Rightarrow> bool" and i :: string and P :: "Job \<Rightarrow> bool"
  assumes calm_shutdown: "\<not> calm Shutdown"
    and keep_claim: "j_ID j = i \<Longrightarrow> j_State j = StateQueued \<Longrightarrow> P j \<Longrightarrow> P (claim_set t j)"
    and keep_fail: "j_ID j = i \<Longrightarrow> is_active j \<Longrightarrow> P j \<Longrightarrow> P (fail_set c m t j)"
    and keep_complete: "j_ID j = i \<Longrightarrow> j_State j = StateRunning \<Longrightarrow> P j \<Longrightarrow> P (complete_set outs t j)"
    and keep_retry: "calm (RetryCall ws i) \<Longrightarrow> j_ID j = i \<Longrightarrow> j_State j = StateFailed \<Longrightarrow> P j \<Longrightarrow> P (retry_set t j)"
    and keep_progress: "j_ID j = i \<Longrightarrow> P j \<Longrightarrow>
      P (j\<lparr>j_ProgressPct := pct, j_FPS := fps, j_SpeedX := spd, j_ETASeconds := eta, j_Outputs := outs, j_UpdatedAt := t\<rparr>)"
begin

lemma UpdateProgress_kept [goods]: "upholds (good calm i P) (UpdateProgress k pct fps spd eta outs)"
proof (rule upholdsI)
  fix w assume g: "good calm i P w"
  have "job_row i P (snd (UpdateProgress k pct fps spd eta outs w))"
    unfolding UpdateProgress_def good_with_io [OF g] snd_conv
    by (rule job_row_update [where P = P]) (use g keep_progress in \<open>simp_all add: good_def\<close>)
  with g show "good calm i P (snd (UpdateProgress k pct fps spd eta outs w))"
    by (simp add: good_def UpdateProgress_def with_io_healthy) (simp add: healthy_def)
qed

lemma claim_kept: "upholds (good calm i P) ClaimNextQueued"
proof (rule upholdsI)
  fix w assume g: "good calm i P w"
  have "good calm i P (snd (with_io (update_job (\<lambda>j. j_ID j = j_ID q) claim_set) w))" if q: "oldest_queued w = Some q" for q
  proof (rule good_update [OF g])
    fix t j assume j: "j \<in> set (t_jobs w)" "j_ID j = i" "P j"
    have "j_State j = StateQueued" if "j_ID j = j_ID q"
      using g j that oldest_queued_SomeD [OF q] by (metis good_def job_rowE)
    then show "P (if j_ID j = j_ID q then claim_set t j else j)" using j keep_claim by simp
  qed (simp add: claim_set_def)
  then show "good calm i P (snd (ClaimNextQueued w))"
    using g by (auto simp: ClaimNextQueued_def good_with_io split: option.splits)
qed

lemma Mark_kept:
  "upholds (good calm i P) (MarkCompleted k outs)" "upholds (good calm i P) (MarkFailed k c m)"
proof -
  show "upholds (good calm i P) (MarkCompleted k outs)"
    unfolding MarkCompleted_def
    by (rule upholdsI, simp, erule good_update) (use keep_complete in \<open>auto simp: complete_set_def\<close>)
  show "upholds (good calm i P) (MarkFailed k c m)"
    by (cases "ValidErrorClass c"; rule upholdsI; simp add: MarkFailed_valid MarkFailed_invalid; erule good_update)
      (use keep_fail in \<open>auto simp: fail_set_def\<close>)
qed

lemma arrive_kept:
  assumes g: "good calm i P w" and c: "calm a"
  shows "good calm i P (arrive a w)"
proof (cases a)
  case (RetryCall ws k)
  have "good calm i P (snd (with_io (update_job
      (\<lambda>j. j_WorkspaceID j = ws \<and> j_ID j = k \<and> j_State j = StateFailed) retry_set) w))"
    by (rule good_update [OF g]) (use c RetryCall keep_retry in \<open>auto simp: retry_set_def\<close>)
  then show ?thesis using RetryCall by (simp add: RetryJob_def good_missing_or_conflict)
next
  case (CancelCall ws k)
  have "good calm i P (snd (with_io (update_job (\<lambda>j. j_WorkspaceID j = ws \<and> j_ID j = k \<and> j_State j = StateQueued)
      (fail_set ErrorInternal ''canceled by user'')) w))"
    by (rule good_update [OF g]) (use keep_fail in \<open>auto simp: fail_set_def is_active_def\<close>)
  then show ?thesis using CancelCall by (simp add: CancelQueued_def good_missing_or_conflict)
next
  case (UserCancel k)
  then show ?thesis using g by (simp add: Cancel_def good_def healthy_def job_row_def)
qed (use g c calm_shutdown goods claim_kept Mark_kept in \<open>auto simp: upholds_def\<close>)

lemma tick_kept [goods]: "upholds (good calm i P) tick"
proof -
  have "good calm i P (arrive_until as w)" if "good calm i P w" "list_all calm as" for as w
    using that
  proof (induction as arbitrary: w)
    case (Cons a as)
    have "good calm i P (arrive_until as (arrive a w))" using Cons by (simp add: arrive_kept)
    then show ?case using Cons.prems by (auto simp: good_def healthy_def job_row_def)
  qed (simp add: good_def healthy_def job_row_def)
  then show ?thesis by (simp add: upholds_def tick_def good_def)
qed

lemma ctx_kept [goods]:
  "upholds (good calm i P) f \<Longrightarrow> upholds (good calm i P) (under_parent f)"
  "upholds (good calm i P) f \<Longrightarrow> upholds (good calm i P) (under_job k f)"
  "upholds (good calm i P) (is_done k)"
  unfolding under_parent_def under_job_def is_done_def
  by (intro goods upholds_guard; simp add: upholds_def)+

lemma side_kept [goods]:
  "upholds (good calm i P) (sched_publishState j st pct fps spd eta)"
  "upholds (good calm i P) (sched_meterEmit j kind secs)"
  unfolding sched_publishState_def sched_meterEmit_def by (intro goods upholds_guard)+

lemma onProgress_kept [goods]: "upholds (good calm i P) (onProgress cfg j src n k s st)"
proof (rule upholdsI)
  fix w assume g: "good calm i P w"
  obtain now p where s: "s = (now, p)" by (cases s)
  obtain outputs lp where st: "st = (outputs, lp)" by (cases st)
  have "good calm i P (w\<lparr>clock := now\<rparr>)" using g by (simp add: good_def healthy_def job_row_def)
  moreover have "upholds (good calm i P) (and_then (under_parent (UpdateProgress (j_ID j) a b cc d e))
      (\<lambda>_. and_then (sched_publishState j StateRunning a b cc d) (\<lambda>_. ret (e, Some now))))"
    for a b cc d e by (intro goods)
  ultimately show "good calm i P (snd (onProgress cfg j src n k s st w))"
    by (auto simp: onProgress_def s st Let_def upholds_def)
qed

lemma progress_loop_kept [goods]: "upholds (good calm i P) (progress_loop cfg j src n k ss st)"
proof (induction ss arbitrary: st)
  case (Cons s ss)
  have "upholds (good calm i P) (and_then (onProgress cfg j src n k s st) (progress_loop cfg j src n k ss))"
    by (intro goods Cons)
  then show ?case by (simp add: upholds_def)
qed (simp add: upholds_def)

end
section \<open>The outcome of a run\<close>

definition leads :: "(orch \<Rightarrow> bool) \<Rightarrow> (orch \<Rightarrow> bool) \<Rightarrow> (orch \<Rightarrow> 'a \<times> orch) \<Rightarrow> bool" where
  "leads I J f \<longleftrightarrow> (\<forall>w. I w \<longrightarrow> J (snd (f w)))"

text \<open>The rung loop either ends early, having failed the job, or returns its outputs.\<close>

definition rungs_end :: "(orch \<Rightarrow> bool) \<Rightarrow> (orch \<Rightarrow> bool) \<Rightarrow> (orch \<Rightarrow> OutputProgress list option \<times> orch) \<Rightarrow> bool" where
  "rungs_end I J f \<longleftrightarrow>
     (\<forall>w. I w \<longrightarrow> (case fst (f w) of None \<Rightarrow> J (snd (f w)) | Some _ \<Rightarrow> I (snd (f w))))"

lemma leads_and_then: "upholds I f \<Longrightarrow> (\<And>r. leads I J (g r)) \<Longrightarrow> leads I J (and_then f g)"
  by (simp add: upholds_def leads_def snd_and_then)

lemma leads_tail: "leads I J f \<Longrightarrow> (\<And>r. upholds J (g r)) \<Longrightarrow> leads I J (and_then f g)"
  by (simp add: upholds_def leads_def snd_and_then)

lemma leads_cases:
  "(\<And>e. s = Inl e \<Longrightarrow> leads I J (h e)) \<Longrightarrow> (\<And>x. s = Inr x \<Longrightarrow> leads I J (k x)) \<Longrightarrow>
     leads I J (case s of Inl e \<Rightarrow> h e | Inr x \<Rightarrow> k x)"
  "(b \<Longrightarrow> leads I J u) \<Longrightarrow> (\<not> b \<Longrightarrow> leads I J v) \<Longrightarrow> leads I J (if b then u else v)"
  by (simp_all split: sum.splits)

lemma rungs_end_and_then: "upholds I f \<Longrightarrow> (\<And>r. rungs_end I J (g r)) \<Longrightarrow> rungs_end I J (and_then f g)"
  unfolding rungs_end_def upholds_def and_then_result by blast

lemma rungs_end_fail: "leads I J f \<Longrightarrow> rungs_end I J (and_then f (\<lambda>_. ret None))"
  by (simp add: rungs_end_def leads_def and_then_result ret_def)

lemma rungs_end_cases:
  "(\<And>e. s = Inl e \<Longrightarrow> rungs_end I J (h e)) \<Longrightarrow> (\<And>x. s = Inr x \<Longrightarrow> rungs_end I J (k x)) \<Longrightarrow>
     rungs_end I J (case s of Inl e \<Rightarrow> h e | Inr x \<Rightarrow> k x)"
  "(c = None \<Longrightarrow> rungs_end I J f) \<Longrightarrow> (\<And>x. c = Some x \<Longrightarrow> rungs_end I J (g x)) \<Longrightarrow>
     rungs_end I J (case c of None \<Rightarrow> f | Some x \<Rightarrow> g x)"
  "(b \<Longrightarrow> rungs_end I J u) \<Longrightarrow> (\<not> b \<Longrightarrow> rungs_end I J v) \<Longrightarrow> rungs_end I J (if b then u else v)"
  by (simp_all split: sum.splits option.splits)

lemma leads_rungs:
  assumes "rungs_end I J f" "\<And>outs. leads I J (g outs)"
  shows "leads I J (and_then f (\<lambda>r. case r of None \<Rightarrow> ret () | Some outs \<Rightarrow> g outs))"
  unfolding leads_def and_then_result
proof (intro allI impI)
  fix w assume "I w"
  with assms show "J (snd ((case fst (f w) of None \<Rightarrow> ret () | Some outs \<Rightarrow> g outs) (snd (f w))))"
    by (cases "fst (f w)") (auto simp: rungs_end_def leads_def ret_def split: option.splits)
qed

text \<open>
  A contract for what a run achieves: while it works its job satisfies \<open>live\<close>, recording the
  outcome makes it \<open>over\<close>, and what the other goroutines do later keeps it so.
\<close>

locale run_outcome = live: kept_row calm i live + over: kept_row calm i over
  for calm :: "arrival \<Rightarrow> bool" and i :: string and live over :: "Job \<Rightarrow> bool" +
  assumes fail_over: "j_ID j = i \<Longrightarrow> is_active j \<Longrightarrow> live j \<Longrightarrow> over (fail_set c m t j)"
    and complete_over: "j_ID j = i \<Longrightarrow> j_State j = StateRunning \<Longrightarrow> live j \<Longrightarrow> over (complete_set outs t j)"
    and idle_over: "j_ID j = i \<Longrightarrow> j_State j \<noteq> StateRunning \<Longrightarrow> live j \<Longrightarrow> over j"
begin

lemma MarkFailed_over:
  assumes "ValidErrorClass c"
  shows "leads (good calm i live) (good calm i over) (MarkFailed i c m)"
  unfolding leads_def MarkFailed_valid [OF assms] snd_not_found_is_conflict
  by (intro allI impI, erule good_update)
    (use fail_over idle_over in \<open>auto simp: fail_set_def is_active_def\<close>)

lemma MarkCompleted_over: "leads (good calm i live) (good calm i over) (MarkCompleted i outs)"
  unfolding leads_def MarkCompleted_def snd_not_found_is_conflict
  by (intro allI impI, erule good_update) (use complete_over idle_over in \<open>auto simp: complete_set_def\<close>)

lemma under_parent_over:
  assumes "leads (good calm i live) (good calm i over) f"
  shows "leads (good calm i live) (good calm i over) (under_parent f)"
proof -
  have "leads (good calm i live) (good calm i over) (\<lambda>w. if stopping w then (Inl ErrIO, w) else f w)"
    using assms by (simp add: leads_def) (simp add: good_def)
  then show ?thesis unfolding under_parent_def by (intro leads_and_then goods)
qed

lemma fail_leads:
  "ValidErrorClass c \<Longrightarrow> j_ID j = i \<Longrightarrow> leads (good calm i live) (good calm i over) (fail j c m)"
  unfolding fail_def by (intro leads_tail under_parent_over goods) (simp add: MarkFailed_over)

lemma fail_canceled_leads: "j_ID j = i \<Longrightarrow> leads (good calm i live) (good calm i over) (fail_canceled j)"
  using fail_leads [of ErrorInternal j] by (simp add: leads_def fail_canceled_def)

lemma finish_job_leads:
  assumes "j_ID j = i"
  shows "leads (good calm i live) (good calm i over) (finish_job j t outs)"
proof -
  have "upholds (good calm i over) (\<lambda>w. and_then (sched_publishState j StateCompleted 100 0 0 0) (\<lambda>_.
      sched_meterEmit j MeteringJobCompleted (Some (s w))) w)" for s
    by (rule upholdsI, rule upholdsD, intro goods)
  then show ?thesis using assms MarkCompleted_over unfolding finish_job_def Let_def
    by (intro leads_tail under_parent_over goods) simp_all
qed

lemma run_rungs_ends:
  assumes stages: "\<And>spec e. tr_err (eng spec) = Some e \<Longrightarrow> ValidErrorClass (class_of e)" and j: "j_ID j = i"
  shows "rungs_end (good calm i live) (good calm i over) (run_rungs cfg eng show_err rnd j preset src k rungs st)"
proof (induction rungs arbitrary: k st)
  case Nil
  show ?case by (simp add: rungs_end_def)
next
  case (Cons rung rungs)
  let ?f = "\<lambda>w. run_rungs cfg eng show_err rnd j preset src k (rung # rungs) st w"
  have "rungs_end (good calm i live) (good calm i over) ?f"
    unfolding run_rungs.simps Let_def
    by (intro rungs_end_and_then rungs_end_fail rungs_end_cases fail_canceled_leads fail_leads
        goods Cons stages j) simp_all
  then show ?case by simp
qed

lemma run_body_leads:
  assumes "\<And>spec e. tr_err (eng spec) = Some e \<Longrightarrow> ValidErrorClass (class_of e)" "j_ID j = i"
  shows "leads (good calm i live) (good calm i over) (run_body cfg eng show_err rnd j t)"
  unfolding run_body_def
  by (intro leads_and_then leads_cases fail_leads fail_canceled_leads finish_job_leads
      leads_rungs goods run_rungs_ends assms) simp_all

lemma runJob_leads:
  assumes "\<And>spec e. tr_err (eng spec) = Some e \<Longrightarrow> ValidErrorClass (class_of e)" "j_ID j = i"
  shows "leads (good calm i live) (good calm i over) (runJob cfg eng show_err rnd j)"
proof -
  have e: "upholds (good calm i live) (enter (j_ID j))" "upholds (good calm i over) (leave (j_ID j))"
    by (auto simp: upholds_def enter_def leave_def elim!: good_cong)
  have b: "leads (good calm i live) (good calm i over)
      (and_then (run_body cfg eng show_err rnd j t) (\<lambda>_. and_then tick (\<lambda>_. leave (j_ID j))))" for t
    by (intro leads_tail run_body_leads assms goods e)
  have "leads (good calm i live) (good calm i over)
    (and_then (enter (j_ID j)) (\<lambda>_. and_then (sched_publishState j StateRunning 0 0 0 0) (\<lambda>_.
     and_then (sched_meterEmit j MeteringJobStarted None) (\<lambda>_.
     and_then (run_body cfg eng show_err rnd j t) (\<lambda>_. and_then tick (\<lambda>_. leave (j_ID j)))))))" for t
    by (rule leads_and_then [OF e(1)], rule leads_and_then [OF live.side_kept(1)],
        rule leads_and_then [OF live.side_kept(2)], rule b)
  then show ?thesis unfolding runJob_def leads_def by blast
qed

end

text \<open>
  Two contracts that hold of the runner. Without a shutdown, the attempt it was started for
  is over when it returns; if moreover nobody retries the job, the job is settled.
\<close>

interpretation attempt: run_outcome no_shutdown i "\<lambda>j. n \<le> j_Attempts j" "past_attempt n"
  by unfold_locales
    (auto simp: no_shutdown_def past_attempt_def claim_set_def fail_set_def complete_set_def retry_set_def)

interpretation verdict: run_outcome "no_retry i" i "\<lambda>j. is_running j \<or> is_final j" is_final
  by unfold_locales
    (auto simp: no_retry_def is_running_def is_final_def is_active_def claim_set_def fail_set_def
      complete_set_def retry_set_def)

text \<open>What a claim hands to the runner.\<close>

lemma filter_unique_key: "distinct (map f xs) \<Longrightarrow> x \<in> set xs \<Longrightarrow> filter (\<lambda>y. f y = f x) xs = [x]"
  by (induction xs) (auto simp: filter_empty_conv image_iff dest: sym)

lemma claimed_row:
  assumes "ClaimNextQueued w = (Inr j, w')" "healthy w" "distinct (map j_ID (t_jobs w))"
  shows "job_row (j_ID j) (\<lambda>r. r = j) w'" "is_running j" "healthy w'" "stopping w' = stopping w"
    "arrivals w' = arrivals w"
proof -
  obtain q where q: "oldest_queued w = Some q" "update_job (\<lambda>j. j_ID j = j_ID q) claim_set w = (Inr j, w')"
    using assms(1,2) by (auto simp: ClaimNextQueued_def with_io_healthy split: option.splits)
  then obtain r where r: "List.find (\<lambda>j. j_ID j = j_ID q) (t_jobs w) = Some r" "j = claim_set (clock w) r"
    "w' = w\<lparr>t_jobs := update_where (\<lambda>j. j_ID j = j_ID q) (claim_set (clock w)) (t_jobs w)\<rparr>"
    by (auto simp: update_job_def split: option.splits)
  have r': "r \<in> set (t_jobs w)" "j_ID r = j_ID q" using r(1) by (auto simp: find_Some_iff)
  have "filter (\<lambda>j. j_ID j = j_ID r) (t_jobs w) = [r]"
    by (rule filter_unique_key) (rule assms(3), rule r'(1))
  then show "job_row (j_ID j) (\<lambda>r. r = j) w'"
    using r r'(2) by (simp add: job_row_iff filter_job_update claim_set_def)
  show "is_running j" "healthy w'" "stopping w' = stopping w" "arrivals w' = arrivals w"
    using r assms(2) by (simp_all add: is_running_def claim_set_def healthy_def)
qed

lemma job_row_mono: "job_row i P w \<Longrightarrow> (\<And>j. P j \<Longrightarrow> Q j) \<Longrightarrow> job_row i Q w"
  by (auto simp: job_row_iff)

lemma runJob_outcome:
  assumes stages: "\<And>spec e. tr_err (eng spec) = Some e \<Longrightarrow> ValidErrorClass (class_of e)"
    and w: "distinct (map j_ID (t_jobs w))" "healthy w" "\<not> stopping w" "list_all no_shutdown (arrivals w)"
    and claim: "ClaimNextQueued w = (Inr j, w')"
  shows "attempt_over (j_ID j) (j_Attempts j) (snd (runJob cfg eng show_err rnd j w')) \<and>
    (list_all (no_retry (j_ID j)) (arrivals w) \<longrightarrow> settled (j_ID j) (snd (runJob cfg eng show_err rnd j w')))"
proof -
  note c = claimed_row [OF claim w(2,1)]
  have "good no_shutdown (j_ID j) (\<lambda>r. j_Attempts j \<le> j_Attempts r) w'"
    using c w by (auto simp: good_def elim: job_row_mono)
  then have 1: "attempt_over (j_ID j) (j_Attempts j) (snd (runJob cfg eng show_err rnd j w'))"
    using attempt.runJob_leads [where j = j and n = "j_Attempts j", OF stages refl]
    by (auto simp: leads_def good_def attempt_over_def)
  have "good (no_retry (j_ID j)) (j_ID j) (\<lambda>r. is_running r \<or> is_final r) w'"
    if "list_all (no_retry (j_ID j)) (arrivals w)"
    using c w that by (auto simp: good_def elim: job_row_mono)
  then show ?thesis using 1 verdict.runJob_leads [where j = j, OF stages refl]
    by (auto simp: leads_def good_def settled_def)
qed

section \<open>The claim loop and its slots (Run)\<close>

text \<open>
  \<open>Run\<close> as a step relation over the shared state. \<open>lp_sem\<close> is the number of tokens in the
  semaphore channel, \<open>lp_runners\<close> the goroutines started and not yet returned. What the
  runners and the handlers do to the store in between is \<open>others\<close>.
\<close>

datatype phase = Acquiring | Claiming | Waiting | Draining

record loop =
  lp_phase :: phase
  lp_sem :: nat
  lp_runners :: "string list"

inductive loop_step :: "SchedConfig \<Rightarrow> loop \<times> orch \<Rightarrow> loop \<times> orch \<Rightarrow> bool" for cfg where
  acquire: "lp_phase l = Acquiring \<Longrightarrow> int (lp_sem l) < sc_Slots cfg \<Longrightarrow>
    loop_step cfg (l, w) (l\<lparr>lp_phase := Claiming, lp_sem := lp_sem l + 1\<rparr>, w)"
| stop: "lp_phase l = Acquiring \<or> lp_phase l = Waiting \<Longrightarrow> stopping w \<Longrightarrow>
    loop_step cfg (l, w) (l\<lparr>lp_phase := Draining\<rparr>, w)"
| claimed: "lp_phase l = Claiming \<Longrightarrow> \<not> stopping w \<Longrightarrow> ClaimNextQueued w = (Inr j, w') \<Longrightarrow>
    loop_step cfg (l, w) (l\<lparr>lp_phase := Acquiring, lp_runners := j_ID j # lp_runners l\<rparr>, w')"
| claim_failed: "lp_phase l = Claiming \<Longrightarrow> ClaimNextQueued w = (Inl e, w') \<Longrightarrow>
    loop_step cfg (l, w) (l\<lparr>lp_phase := Waiting, lp_sem := lp_sem l - 1\<rparr>, w')"
| claim_stopped: "lp_phase l = Claiming \<Longrightarrow> stopping w \<Longrightarrow>
    loop_step cfg (l, w) (l\<lparr>lp_phase := Waiting, lp_sem := lp_sem l - 1\<rparr>, w)"
| woken: "lp_phase l = Waiting \<Longrightarrow> wake_pending w \<Longrightarrow>
    loop_step cfg (l, w) (l\<lparr>lp_phase := Acquiring\<rparr>, w\<lparr>wake_pending := False\<rparr>)"
| poll: "lp_phase l = Waiting \<Longrightarrow> loop_step cfg (l, w) (l\<lparr>lp_phase := Acquiring\<rparr>, w)"
| returned: "i \<in> set (lp_runners l) \<Longrightarrow>
    loop_step cfg (l, w) (l\<lparr>lp_runners := remove1 i (lp_runners l), lp_sem := lp_sem l - 1\<rparr>, snd (Wake w))"
| others: "store_step w w' \<Longrightarrow> loop_step cfg (l, w) (l, w')"

inductive_cases loop_stepE: "loop_step cfg s s'"

definition idle_loop :: loop where
  "idle_loop = \<lparr>lp_phase = Acquiring, lp_sem = 0, lp_runners = []\<rparr>"

definition slots_inv :: "SchedConfig \<Rightarrow> loop \<Rightarrow> bool" where
  "slots_inv cfg l \<longleftrightarrow>
     lp_sem l = length (lp_runners l) + (if lp_phase l = Claiming then 1 else 0) \<and>
     int (lp_sem l) \<le> sc_Slots cfg"

lemma loop_step_inv: "loop_step cfg s s' \<Longrightarrow> slots_inv cfg (fst s) \<Longrightarrow> slots_inv cfg (fst s')"
proof (induction rule: loop_step.induct)
  case (returned i l w)
  then have "0 < length (lp_runners l)" by (cases "lp_runners l") auto
  with returned show ?case by (auto simp: slots_inv_def length_remove1)
qed (auto simp: slots_inv_def)

lemma loop_step_store: "loop_step cfg s s' \<Longrightarrow> store_step\<^sup>*\<^sup>* (snd s) (snd s')"
proof (induction rule: loop_step.induct)
  case (claimed l w j w')
  then show ?case using store_step.claim [of w] by auto
next
  case (claim_failed l w e w')
  then show ?case using store_step.claim [of w] by auto
qed (auto simp: Wake_def same_tables_def intro!: store_step.environment)

lemma loop_run:
  assumes "(loop_step cfg)\<^sup>*\<^sup>* s s'" "slots_inv cfg (fst s)"
  shows "slots_inv cfg (fst s') \<and> store_step\<^sup>*\<^sup>* (snd s) (snd s')"
  using assms(1)
proof (induction rule: rtranclp_induct)
  case base
  then show ?case using assms(2) by simp
next
  case (step y z)
  then show ?case using loop_step_inv loop_step_store by (meson rtranclp_trans)
qed

section \<open>What a completed run has stored\<close>

definition bucket_le :: "orch \<Rightarrow> orch \<Rightarrow> bool" where
  "bucket_le w w' \<longleftrightarrow> set (bucket w) \<subseteq> set (bucket w')"

interpretation bucket_le: step_rel bucket_le
  by unfold_locales (auto simp: bucket_le_def)

named_theorems bucket_mono \<open>calls that remove no object\<close>

lemmas [bucket_mono] = bucket_le.keeps_intros

lemma bucket_same: "(\<And>w. bucket (snd (f w)) = bucket w) \<Longrightarrow> keeps bucket_le f"
  by (simp add: keeps_def bucket_le_def)

lemma bucket_update_job: "keeps bucket_le (update_job P g)"
  by (rule bucket_same) (simp add: update_job_def split: option.splits)

lemma bucket_post:
  "keeps bucket_le f \<Longrightarrow> (\<And>r. bucket (snd (g r)) = bucket (snd r)) \<Longrightarrow> keeps bucket_le (\<lambda>w. g (f w))"
  by (simp add: keeps_def bucket_le_def)

lemma bucket_GetJob: "bucket (snd (GetJob ws i w)) = bucket w"
proof (cases rule: with_io_cases [of w "\<lambda>w. (select_row (\<lambda>j. j_WorkspaceID j = ws \<and> j_ID j = i) (t_jobs w), w)"])
qed (auto simp: GetJob_def dest!: next_io_update)

lemma bucket_missing: "bucket (snd (missing_or_conflict ws i r)) = bucket (snd r)"
  using bucket_GetJob [of ws i "snd r"]
  by (cases r) (auto simp: missing_or_conflict_def split: prod.splits sum.splits store_err.splits)

lemma bucket_calls [bucket_mono]:
  "keeps bucket_le (GetPreset ws p)" "keeps bucket_le (GetSource ws k)" "keeps bucket_le local_io"
  "keeps bucket_le (UpdateProgress i pct fps spd eta outs)" "keeps bucket_le ClaimNextQueued"
  "keeps bucket_le (UpdatePreset pr)" "keeps bucket_le (Publish ev)" "keeps bucket_le (UpsertSource s)"
  unfolding UpsertSource_def GetPreset_def GetSource_def local_io_def UpdateProgress_def ClaimNextQueued_def
    UpdatePreset_def Publish_def Let_def
  by (rule bucket_le.keeps_with_io, rule bucket_same, simp add: update_job_def split: option.splits)+

lemma bucket_MarkFailed [bucket_mono]: "keeps bucket_le (MarkFailed i c m)"
proof (cases "ValidErrorClass c")
  case True
  show ?thesis unfolding MarkFailed_valid [OF True]
    by (rule bucket_post, rule bucket_le.keeps_with_io, rule bucket_update_job) simp
qed (simp add: MarkFailed_invalid bucket_same)

lemma bucket_finalise [bucket_mono]:
  "keeps bucket_le (MarkCompleted i outs)" "keeps bucket_le (RetryJob ws i)" "keeps bucket_le (CancelQueued ws i)"
proof -
  show "keeps bucket_le (MarkCompleted i outs)" unfolding MarkCompleted_def
    by (rule bucket_post, rule bucket_le.keeps_with_io, rule bucket_update_job) simp
  show "keeps bucket_le (RetryJob ws i)" unfolding RetryJob_def
    by (rule bucket_post, rule bucket_le.keeps_with_io, rule bucket_update_job) (simp add: bucket_missing)
  show "keeps bucket_le (CancelQueued ws i)" unfolding CancelQueued_def
    by (rule bucket_post, rule bucket_le.keeps_with_io, rule bucket_update_job) (simp add: bucket_missing)
qed

lemma bucket_CreateJob [bucket_mono]: "keeps bucket_le (CreateJob j)"
  unfolding CreateJob_def Let_def
  by (rule bucket_le.keeps_new_id_case, rule bucket_le.keeps_with_io, rule bucket_same) simp

lemma bucket_CreatePreset [bucket_mono]: "keeps bucket_le (CreatePreset pr)"
  unfolding CreatePreset_def Let_def
  by (rule bucket_le.keeps_new_id_case, rule bucket_le.keeps_with_io, rule bucket_same) simp

lemma bucket_arrive: "bucket_le w (arrive a w)"
  using bucket_mono by (cases a) (auto simp: keeps_def Cancel_def bucket_le_def)

lemma bucket_tick [bucket_mono]: "keeps bucket_le tick"
proof -
  have "bucket_le w (arrive_until as w)" for as w
  proof (induction as arbitrary: w)
    case (Cons a as)
    have "bucket_le w (arrive_until as (arrive a w))" using bucket_arrive Cons by (rule bucket_le.trans)
    then show ?case by (simp add: bucket_le_def)
  qed (simp add: bucket_le_def)
  then show ?thesis by (simp add: keeps_def tick_def)
qed

lemma bucket_ctx [bucket_mono]:
  "keeps bucket_le f \<Longrightarrow> keeps bucket_le (under_parent f)"
  "keeps bucket_le f \<Longrightarrow> keeps bucket_le (under_job i f)" "keeps bucket_le (is_done i)"
  unfolding under_parent_def under_job_def is_done_def
  by (intro bucket_mono; simp add: bucket_same)+

lemma bucket_PutFile [bucket_mono]: "keeps bucket_le (PutFile k)"
proof -
  have p: "keeps bucket_le (\<lambda>w. (Inr (), put_key k w))"
    by (auto simp: keeps_def bucket_le_def put_key_def)
  have "keeps bucket_le (and_then local_io
      (\<lambda>r. case r of Inl e \<Rightarrow> ret (Inl e) | Inr _ \<Rightarrow> with_io (\<lambda>w. (Inr (), put_key k w))))"
    by (intro bucket_mono p)
  then show ?thesis by (auto simp: keeps_def PutFile_def bucket_le.refl)
qed

lemma bucket_publish [bucket_mono]: "keeps bucket_le (sched_publishState j st pct fps spd eta)"
  unfolding sched_publishState_def ignore_def by (intro bucket_mono)

lemma bucket_onProgress: "keeps bucket_le (onProgress cfg j src n i s st)"
proof (rule keepsI)
  fix w
  obtain now p where s: "s = (now, p)" by (cases s)
  obtain outputs lp where st: "st = (outputs, lp)" by (cases st)
  have k: "keeps bucket_le (and_then (under_parent (UpdateProgress (j_ID j) a b cc d e))
      (\<lambda>_. and_then (sched_publishState j StateRunning a b cc d) (\<lambda>_. ret (e, Some now))))"
    for a b cc d e by (intro bucket_mono)
  have *: "bucket_le (w\<lparr>clock := now\<rparr>) (snd (and_then (under_parent (UpdateProgress (j_ID j) a b cc d e))
      (\<lambda>_. and_then (sched_publishState j StateRunning a b cc d) (\<lambda>_. ret (e, Some now))) (w\<lparr>clock := now\<rparr>)))"
    for a b cc d e using k unfolding keeps_def by blast
  moreover have "bucket_le w (w\<lparr>clock := now\<rparr>)" by (simp add: bucket_le_def)
  ultimately show "bucket_le w (snd (onProgress cfg j src n i s st w))"
    unfolding onProgress_def s st Let_def prod.case by (auto intro: bucket_le.trans)
qed


lemma bucket_progress_loop: "keeps bucket_le (progress_loop cfg j src n i ss st)"
proof (induction ss arbitrary: st)
  case (Cons s ss)
  have "keeps bucket_le (and_then (onProgress cfg j src n i s st) (progress_loop cfg j src n i ss))"
    by (intro bucket_mono bucket_onProgress Cons)
  then show ?case by (simp add: keeps_def)
qed (simp add: keeps_def bucket_le.refl)

lemma bucket_put_files: "bucket_le w (snd (put_files prefix rels w))"
proof (induction prefix rels w rule: put_files.induct)
  case (2 prefix rel rels w)
  obtain r w' where p: "PutFile (prefix @ ''/'' @ rel) w = (r, w')"
    by (cases "PutFile (prefix @ ''/'' @ rel) w")
  have 1: "bucket_le w w'" by (rule keepsD [OF bucket_PutFile p])
  show ?case
  proof (cases r)
    case (Inr u)
    then have "bucket_le w' (snd (put_files prefix rels w'))" using "2.IH" p by simp
    then show ?thesis using p Inr bucket_le.trans [OF 1] by (auto split: prod.splits sum.splits)
  qed (use p 1 in simp)
qed (simp add: bucket_le.refl)

lemma and_then_ret_None [simp]: "and_then f (\<lambda>_. ret None) w \<noteq> (Some x, w')"
  by (auto simp: ret_def elim!: and_thenE)

lemma bucket_PutDir: "keeps bucket_le (PutDir prefix rels)"
  by (rule keepsI) (simp add: PutDir_def bucket_put_files bucket_le.refl)

lemma PutFile_Inr: "PutFile k w = (Inr u, w') \<Longrightarrow> k \<in> set (bucket w')"
  by (auto simp: PutFile_def ret_def put_key_def split: if_splits sum.splits elim!: and_thenE with_io_Inr)

definition stored_keys :: "string \<Rightarrow> string list \<Rightarrow> string list" where
  "stored_keys prefix rels = map (\<lambda>rel. prefix @ ''/'' @ rel) rels"

lemma put_files_Inr:
  "put_files prefix rels w = (Inr keys, w') \<Longrightarrow> keys = stored_keys prefix rels \<and> set keys \<subseteq> set (bucket w')"
proof (induction prefix rels w arbitrary: keys w' rule: put_files.induct)
  case (2 prefix rel rels w)
  obtain u w1 where p: "PutFile (prefix @ ''/'' @ rel) w = (Inr u, w1)"
    using 2 by (auto split: prod.splits sum.splits)
  obtain ks where ks: "put_files prefix rels w1 = (Inr ks, w')" "keys = (prefix @ ''/'' @ rel) # ks"
    using "2.prems" p by (auto split: prod.splits sum.splits)
  have "prefix @ ''/'' @ rel \<in> set (bucket w')"
    using PutFile_Inr [OF p] bucket_put_files [of w1 prefix rels] ks(1) by (auto simp: bucket_le_def)
  then show ?case using "2.IH" p ks by (simp add: stored_keys_def)
qed (simp add: stored_keys_def)

lemma PutDir_Inr:
  "PutDir prefix rels w = (Inr keys, w') \<Longrightarrow> keys = stored_keys prefix rels \<and> set keys \<subseteq> set (bucket w')"
  by (auto simp: PutDir_def dest: put_files_Inr split: if_splits)

lemma under_job_Inr: "under_job i f w = (Inr x, w') \<Longrightarrow> \<exists>w1. f w1 = (Inr x, w')"
  by (auto simp: under_job_def split: if_splits elim!: and_thenE)

lemma primaryArtifact_stored: "keys \<noteq> [] \<Longrightarrow> primaryArtifact keys prefix c rung \<in> set keys"
  by (auto simp: primaryArtifact_def Let_def split: list.splits)

lemma onProgress_outputs:
  assumes "onProgress cfg j src n i s (outs, lp) w = ((outs', lp'), w')"
  shows "length outs' = length outs \<and> map o_Name outs' = map o_Name outs \<and> (\<forall>m. m \<noteq> i \<longrightarrow> outs' ! m = outs ! m)"
proof -
  obtain now p where s: "s = (now, p)" by (cases s)
  have "outs' = outs[i := (outs ! i)\<lparr>o_ProgressPct := pr_ProgressPct p\<rparr>]"
    using assms by (auto simp: onProgress_def s Let_def ret_def split: if_splits elim!: and_thenE)
  then show ?thesis
    by (cases "i < length outs") (auto simp: map_update list_update_same_conv list_update_beyond)
qed

lemma progress_loop_outputs:
  "progress_loop cfg j src n i ss (outs, lp) w = ((outs', lp'), w') \<Longrightarrow>
   length outs' = length outs \<and> map o_Name outs' = map o_Name outs \<and> (\<forall>m. m \<noteq> i \<longrightarrow> outs' ! m = outs ! m)"
proof (induction ss arbitrary: outs lp w)
  case (Cons s ss)
  obtain o1 l1 w1 where 1: "onProgress cfg j src n i s (outs, lp) w = ((o1, l1), w1)"
    and 2: "progress_loop cfg j src n i ss (o1, l1) w1 = ((outs', lp'), w')"
    using Cons.prems by (auto elim!: and_thenE)
  show ?case using onProgress_outputs [OF 1] Cons.IH [OF 2] by auto
qed simp

text \<open>
  What one rung leaves behind: the output entry recorded for it, and whether the engine
  succeeded on it with every file it left in the bucket.
\<close>

definition rung_run ::
  "SchedConfig \<Rightarrow> (OutputSpec \<Rightarrow> transcode_run) \<Rightarrow> string \<Rightarrow> Job \<Rightarrow> Preset \<Rightarrow> Source \<Rightarrow> Rung \<Rightarrow> transcode_run" where
  "rung_run cfg eng rnd j preset src rung = eng (output_spec cfg rnd j preset src rung)"

definition rung_keys ::
  "SchedConfig \<Rightarrow> (OutputSpec \<Rightarrow> transcode_run) \<Rightarrow> string \<Rightarrow> Job \<Rightarrow> Preset \<Rightarrow> Source \<Rightarrow> Rung \<Rightarrow> string list" where
  "rung_keys cfg eng rnd j preset src rung =
     stored_keys (output_prefix (j_WorkspaceID j) (j_ID j) (r_Name rung)) (tr_files (rung_run cfg eng rnd j preset src rung))"

definition rung_output ::
  "SchedConfig \<Rightarrow> (OutputSpec \<Rightarrow> transcode_run) \<Rightarrow> string \<Rightarrow> Job \<Rightarrow> Preset \<Rightarrow> Source \<Rightarrow> Rung \<Rightarrow> OutputProgress" where
  "rung_output cfg eng rnd j preset src rung =
     \<lparr>o_Name = r_Name rung,
      o_ObjectKey = primaryArtifact (rung_keys cfg eng rnd j preset src rung)
        (output_prefix (j_WorkspaceID j) (j_ID j) (r_Name rung)) (p_Container preset) (r_Name rung),
      o_State = ''completed'', o_ProgressPct = 100\<rparr>"

definition rung_stored ::
  "SchedConfig \<Rightarrow> (OutputSpec \<Rightarrow> transcode_run) \<Rightarrow> string \<Rightarrow> Job \<Rightarrow> Preset \<Rightarrow> Source \<Rightarrow> orch \<Rightarrow> Rung \<Rightarrow> bool" where
  "rung_stored cfg eng rnd j preset src w rung \<longleftrightarrow>
     tr_err (rung_run cfg eng rnd j preset src rung) = None \<and>
     set (rung_keys cfg eng rnd j preset src rung) \<subseteq> set (bucket w)"

lemma rung_stored_mono:
  "rung_stored cfg eng rnd j preset src w rung \<Longrightarrow> bucket_le w w' \<Longrightarrow> rung_stored cfg eng rnd j preset src w' rung"
  by (auto simp: rung_stored_def bucket_le_def)

text \<open>The calls of a rung that was encoded and stored.\<close>

lemma run_rungs_Some:
  assumes "run_rungs cfg eng show_err rnd j preset src k (rung # rungs) st w = (Some outs, w')"
  defines "run \<equiv> eng (output_spec cfg rnd j preset src rung)"
    and "prefix \<equiv> output_prefix (j_WorkspaceID j) (j_ID j) (r_Name rung)"
  shows "tr_err run = None \<and> (\<exists>w1 u w2 outs1 lp1 w3 keys w4.
    is_done (j_ID j) w = (False, w1) \<and> local_io w1 = (Inr u, w2) \<and>
    progress_loop cfg j src (length (p_Ladder preset)) k (tr_samples run)
      ((fst st)[k := (fst st ! k)\<lparr>o_State := ''running''\<rparr>], snd st) w2 = ((outs1, lp1), w3) \<and>
    under_job (j_ID j) (PutDir prefix (tr_files run)) w3 = (Inr keys, w4) \<and>
    run_rungs cfg eng show_err rnd j preset src (Suc k) rungs
      (outs1[k := (outs1 ! k)\<lparr>o_State := ''completed'', o_ProgressPct := 100,
         o_ObjectKey := primaryArtifact keys prefix (p_Container preset) (r_Name rung)\<rparr>], lp1) w4 = (Some outs, w'))"
  using assms(1) unfolding run_rungs.simps Let_def run_def prefix_def
  by (elim and_thenE) (fastforce split: if_splits sum.splits option.splits elim!: and_thenE)

lemma OutputProgress_eq:
  "o_Name x = n \<Longrightarrow> x\<lparr>o_State := s, o_ProgressPct := p, o_ObjectKey := k\<rparr> =
     \<lparr>o_Name = n, o_ObjectKey = k, o_State = s, o_ProgressPct = p\<rparr>"
  by (cases x) simp

lemma take_nth_eq: "length xs = length ys \<Longrightarrow> (\<And>m. m \<noteq> k \<Longrightarrow> xs ! m = ys ! m) \<Longrightarrow> take k xs = take k ys"
  by (rule nth_equalityI) simp_all

text \<open>
  The loop fills in the outputs one after the other: the entries before the current rung are
  final, the names of the later ones are those of the rungs to come.
\<close>

lemma run_rungs_done:
  "run_rungs cfg eng show_err rnd j preset src k rungs st w = (Some outs, w') \<Longrightarrow>
   k + length rungs = length (fst st) \<Longrightarrow> drop k (map o_Name (fst st)) = map r_Name rungs \<Longrightarrow>
   outs = take k (fst st) @ map (rung_output cfg eng rnd j preset src) rungs \<and>
   list_all (rung_stored cfg eng rnd j preset src w') rungs \<and> bucket_le w w'"
proof (induction rungs arbitrary: k st w)
  case (Cons rung rungs)
  define run where "run = eng (output_spec cfg rnd j preset src rung)"
  define prefix where "prefix = output_prefix (j_WorkspaceID j) (j_ID j) (r_Name rung)"
  define outs0 where "outs0 = (fst st)[k := (fst st ! k)\<lparr>o_State := ''running''\<rparr>]"
  obtain w1 u w2 outs1 lp1 w3 keys w4 where
    0: "tr_err run = None" and
    1: "is_done (j_ID j) w = (False, w1)" and 2: "local_io w1 = (Inr u, w2)" and
    3: "progress_loop cfg j src (length (p_Ladder preset)) k (tr_samples run) (outs0, snd st) w2 = ((outs1, lp1), w3)" and
    4: "under_job (j_ID j) (PutDir prefix (tr_files run)) w3 = (Inr keys, w4)" and
    5: "run_rungs cfg eng show_err rnd j preset src (Suc k) rungs
      (outs1[k := (outs1 ! k)\<lparr>o_State := ''completed'', o_ProgressPct := 100,
         o_ObjectKey := primaryArtifact keys prefix (p_Container preset) (r_Name rung)\<rparr>], lp1) w4 = (Some outs, w')"
    using run_rungs_Some [OF Cons.prems(1)] unfolding run_def prefix_def outs0_def by blast
  let ?outs2 = "outs1[k := (outs1 ! k)\<lparr>o_State := ''completed'', o_ProgressPct := 100,
         o_ObjectKey := primaryArtifact keys prefix (p_Container preset) (r_Name rung)\<rparr>]"
  have stored: "keys = stored_keys prefix (tr_files run)" "set keys \<subseteq> set (bucket w4)"
    using under_job_Inr [OF 4] PutDir_Inr by blast+
  then have keys: "keys = rung_keys cfg eng rnd j preset src rung"
    by (simp add: rung_keys_def rung_run_def run_def prefix_def)
  have k: "k < length (fst st)" using Cons.prems(2) by simp
  have outs1: "length outs1 = length (fst st)" "map o_Name outs1 = map o_Name (fst st)"
    "\<And>m. m \<noteq> k \<Longrightarrow> outs1 ! m = fst st ! m"
    using progress_loop_outputs [OF 3] k by (auto simp: outs0_def map_update list_update_same_conv)
  have nm: "map o_Name (fst st) ! k = r_Name rung"
    using Cons.prems(3) k by (metis Cons_nth_drop_Suc length_map list.inject list.simps(9))
  then have "o_Name (outs1 ! k) = r_Name rung" using outs1(1,2) k by (metis nth_map)
  then have out: "?outs2 = outs1[k := rung_output cfg eng rnd j preset src rung]"
    by (simp add: OutputProgress_eq rung_output_def keys prefix_def)
  have le: "bucket_le w w4"
    by (rule bucket_le.trans [OF keepsD [OF bucket_ctx(3) 1] bucket_le.trans [OF keepsD [OF bucket_calls(3) 2]
          bucket_le.trans [OF keepsD [OF bucket_progress_loop 3] keepsD [OF bucket_ctx(2) [OF bucket_PutDir] 4]]]])
  have "Suc k + length rungs = length (fst (?outs2, lp1))" using Cons.prems(2) outs1(1) by simp
  moreover have "drop (Suc k) (map o_Name (fst (?outs2, lp1))) = map r_Name rungs"
  proof -
    have "drop (Suc k) (map o_Name (fst (?outs2, lp1))) = drop (Suc k) (map o_Name (fst st))"
      using outs1(2) by (simp add: map_update drop_update_cancel)
    also have "\<dots> = map r_Name rungs"
      using Cons.prems(3) by (metis drop_Suc drop_tl list.sel(3) list.simps(9) tl_drop)
    finally show ?thesis .
  qed
  ultimately have IH: "outs = take (Suc k) ?outs2 @ map (rung_output cfg eng rnd j preset src) rungs"
    "list_all (rung_stored cfg eng rnd j preset src w') rungs" "bucket_le w4 w'"
    using Cons.IH [OF 5] by simp_all
  have "take (Suc k) ?outs2 = take k (fst st) @ [rung_output cfg eng rnd j preset src rung]"
    using k outs1(1) take_nth_eq [OF outs1(1,3)] by (simp add: out take_Suc_conv_app_nth)
  moreover have "rung_stored cfg eng rnd j preset src w4 rung"
    using 0 stored(2) keys by (simp add: rung_stored_def rung_run_def run_def)
  ultimately show ?case using IH rung_stored_mono bucket_le.trans [OF le] by simp
qed (simp add: bucket_le.refl)

section \<open>Shutdown\<close>

lemma tick_quiet: "arrivals w = [] \<Longrightarrow> tick w = ((), w)"
  by (cases w) (simp add: tick_def)

lemma under_ctx_stopping:
  assumes "stopping w" "arrivals w = []"
  shows "under_parent f w = (Inl ErrIO, w)" "under_job i f w = (Inl ErrIO, w)"
  using assms by (simp_all add: under_parent_def under_job_def and_then_def tick_quiet job_done_def)

text \<open>With nothing else going on the side channels change neither tables nor contexts.\<close>

definition ctx_same :: "orch \<Rightarrow> orch \<Rightarrow> bool" where
  "ctx_same w w' \<longleftrightarrow> same_tables w w' \<and> stopping w' = stopping w \<and> arrivals w' = arrivals w"

interpretation ctx_same: step_rel ctx_same
  by unfold_locales (auto simp: ctx_same_def same_tables_def)

lemma ctx_Publish: "keeps ctx_same (Publish ev)"
  unfolding Publish_def by (intro ctx_same.keeps_intros) (simp add: keeps_def ctx_same_def same_tables_def)

lemma ctx_Emit: "keeps ctx_same (Emit u v k jj b s)"
proof -
  have "keeps ctx_same (\<lambda>w. (Inr (), w\<lparr>published_metering := x w\<rparr>))" for x
    by (simp add: keeps_def ctx_same_def same_tables_def)
  then show ?thesis unfolding Emit_def by (intro ctx_same.keeps_intros)
qed

lemma ctx_side:
  assumes "arrivals w = []"
  shows "ctx_same w (snd (sched_publishState j st pct fps spd eta w))" "ctx_same w (snd (sched_meterEmit j k secs w))"
proof -
  have p: "keeps ctx_same (ignore (Publish ev))" for ev
    unfolding ignore_def by (intro ctx_same.keeps_intros ctx_Publish)
  have e: "keeps ctx_same (ignore (Emit (j_WorkspaceID j) (j_UserID j) k (j_ID j) None secs))"
    "keeps ctx_same (ignore new_id :: orch \<Rightarrow> unit \<times> orch)"
    unfolding ignore_def by (intro ctx_same.keeps_intros ctx_Emit)+
  show "ctx_same w (snd (sched_publishState j st pct fps spd eta w))"
    using p assms by (simp add: sched_publishState_def snd_and_then tick_quiet keeps_def)
  show "ctx_same w (snd (sched_meterEmit j k secs w))"
    using e assms by (simp add: sched_meterEmit_def snd_and_then tick_quiet keeps_def)
qed

lemma fail_stopping:
  assumes "stopping w" "arrivals w = []"
  shows "ctx_same w (snd (fail j c m w))"
proof -
  let ?w1 = "snd (sched_publishState j StateFailed 0 0 0 0 w)"
  have "arrivals ?w1 = []" using ctx_side(1) [OF assms(2)] assms(2) by (simp add: ctx_same_def)
  then have "ctx_same ?w1 (snd (sched_meterEmit j MeteringJobFailed None ?w1))" by (rule ctx_side)
  with ctx_side(1) [OF assms(2)] show ?thesis
    unfolding fail_def snd_and_then under_ctx_stopping(1) [OF assms] snd_conv
    by (rule ctx_same.trans)
qed

lemma runJob_start:
  assumes "arrivals w = []"
  shows "ctx_same w (snd (sched_meterEmit j MeteringJobStarted None
    (snd (sched_publishState j StateRunning 0 0 0 0 (snd (enter (j_ID j) w))))))"
proof -
  have 1: "ctx_same w (snd (enter (j_ID j) w))" by (simp add: enter_def ctx_same_def same_tables_def)
  then have a1: "arrivals (snd (enter (j_ID j) w)) = []" using assms by (simp add: ctx_same_def)
  from ctx_side(1) [OF a1] a1 have "arrivals (snd (sched_publishState j StateRunning 0 0 0 0 (snd (enter (j_ID j) w)))) = []"
    by (simp add: ctx_same_def)
  from ctx_side(2) [OF this] show ?thesis
    using ctx_same.trans [OF 1 ctx_same.trans [OF ctx_side(1) [OF a1]]] by blast
qed

section \<open>Properties\<close>

text \<open>
  C7. The runner brings its attempt to an end. Let the claim loop claim a job and run it, let
  every call on database, object store, disk and broker succeed (so that in particular the database
  accepts the failure message) and let no shutdown arrive. Then, whatever the preset and the source are, whichever samples,
  files and errors the engine produces as long as its typed errors name a declared stage, and
  however many store calls of users and other runners fall between the calls of the runner
  (also between recording the outcome and returning), the attempt is over when the runner
  returns: the job is not running, or it runs under a later attempt number because it was
  retried and claimed again. If nobody retries it meanwhile, the job is completed or failed.
\<close>

theorem runner_settles_job:
  assumes "\<And>spec st m. tr_err (eng spec) = Some (EngError st m) \<Longrightarrow> st \<in> {StageAsset, StageDecode, StageEncode}"
    and "store_wf w" "healthy w" "\<not> stopping w" "list_all no_shutdown (arrivals w)"
    and "ClaimNextQueued w = (Inr j, w')"
  shows "attempt_over (j_ID j) (j_Attempts j) (snd (runJob cfg eng show_err rnd j w')) \<and>
    (list_all (no_retry (j_ID j)) (arrivals w) \<longrightarrow> settled (j_ID j) (snd (runJob cfg eng show_err rnd j w')))"
proof -
  have "ValidErrorClass (class_of e)" if "tr_err (eng spec) = Some e" for spec e
    using assms(1) [of spec] that by (cases e) (auto simp: class_of_def ErrorClass_of_string_def)
  then show ?thesis
    by (rule runJob_outcome) (use assms in \<open>simp_all add: store_wf_def unique_keys_def\<close>)
qed

definition ex_engine :: "OutputSpec \<Rightarrow> transcode_run" where
  "ex_engine spec = \<lparr>tr_samples = [], tr_err = Some (EngError StageDecode ''bad frame''), tr_files = []\<rparr>"

definition ex_sched :: SchedConfig where
  "ex_sched = \<lparr>sc_Slots = 3, sc_PollInterval = 1, sc_StagingDir = ''/tmp'', sc_ProgressPersistEvery = 1\<rparr>"

lemma ex_running_calm: "healthy ex_running" "\<not> stopping ex_running" "arrivals ex_running = []"
  "running ''j'' ex_running"
  by (simp_all add: ex_running_eq ex_queued_eq ex_with_preset_eq ex_start_def healthy_def running_def
      job_row_def is_running_def claim_set_def ex_row_def ex_job_def)

lemma ex_claim:
  "ClaimNextQueued (ex_queued\<lparr>arrivals := as\<rparr>) = (Inr (claim_set 7 ex_row), ex_running\<lparr>arrivals := as\<rparr>)"
  "store_wf (ex_queued\<lparr>arrivals := as\<rparr>)" "healthy (ex_queued\<lparr>arrivals := as\<rparr>)"
  "\<not> stopping (ex_queued\<lparr>arrivals := as\<rparr>)"
proof -
  show "ClaimNextQueued (ex_queued\<lparr>arrivals := as\<rparr>) = (Inr (claim_set 7 ex_row), ex_running\<lparr>arrivals := as\<rparr>)"
    unfolding ex_running_eq ClaimNextQueued_def ex_queued_eq ex_with_preset_eq
    by (simp add: with_io_def next_io_def ex_start_def oldest_queued_def update_job_def ex_row_def ex_job_def
        update_where_def)
  show "store_wf (ex_queued\<lparr>arrivals := as\<rparr>)"
    using reachable_wf [OF ex_reachable(3)] by (simp add: store_wf_def)
  show "healthy (ex_queued\<lparr>arrivals := as\<rparr>)" "\<not> stopping (ex_queued\<lparr>arrivals := as\<rparr>)"
    by (simp_all add: ex_queued_eq ex_with_preset_eq ex_start_def healthy_def)
qed

text \<open>While the job runs another one is created; once it has failed it is retried and claimed again.\<close>

definition ex_meanwhile :: "arrival list" where
  "ex_meanwhile = [Quiet, CreateCall ex_job, Quiet, Quiet, Quiet, Quiet, RetryCall ''ws'' ''j'', ClaimCall]"

theorem runner_settles_job_witness:
  "attempt_over ''j'' 1 (snd (runJob ex_sched ex_engine (\<lambda>_. []) [] (claim_set 7 ex_row)
     (ex_running\<lparr>arrivals := ex_meanwhile\<rparr>))) \<and>
   settled ''j'' (snd (runJob ex_sched ex_engine (\<lambda>_. []) [] (claim_set 7 ex_row) (ex_running\<lparr>arrivals := []\<rparr>)))"
proof -
  have id: "j_ID (claim_set 7 ex_row) = ''j''" "j_Attempts (claim_set 7 ex_row) = 1"
    by (simp_all add: claim_set_def ex_row_def ex_job_def)
  have e: "tr_err (ex_engine spec) = Some (EngError st m) \<Longrightarrow> st \<in> {StageAsset, StageDecode, StageEncode}" for spec st m
    by (simp add: ex_engine_def)
  have 1: "attempt_over ''j'' 1 (snd (runJob ex_sched ex_engine (\<lambda>_. []) [] (claim_set 7 ex_row)
      (ex_running\<lparr>arrivals := ex_meanwhile\<rparr>)))"
    using runner_settles_job [OF e ex_claim(2-4) _ ex_claim(1)] unfolding id
    by (simp add: ex_meanwhile_def no_shutdown_def)
  have 2: "settled ''j'' (snd (runJob ex_sched ex_engine (\<lambda>_. []) [] (claim_set 7 ex_row) (ex_running\<lparr>arrivals := []\<rparr>)))"
    using runner_settles_job [OF e ex_claim(2-4) [of "[]"] _ ex_claim(1)] unfolding id by simp
  show ?thesis using 1 2 by (rule conjI)
qed

text \<open>
  The second case is real: the retry and the claim come after the failure was recorded, and the
  job runs again under attempt 2 when the first runner returns.
\<close>

lemma retried_before_return:
  "running ''j'' (snd (runJob ex_sched ex_engine (\<lambda>_. []) [] (claim_set 7 ex_row) (ex_running\<lparr>arrivals := ex_meanwhile\<rparr>)))"
  unfolding ex_running_eq ex_queued_eq ex_with_preset_eq
  by code_simp

text \<open>
  A shutdown strands the jobs it interrupts. Once the process context is done the runner
  can no longer write: \<open>fail\<close> uses the same context, so the row is left as it was and a
  running job stays running.
\<close>

theorem shutdown_strands_running_job:
  assumes "stopping w" "arrivals w = []" "running (j_ID j) w"
  shows "running (j_ID j) (snd (fail j c m w)) \<and> running (j_ID j) (snd (runJob cfg eng show_err rnd j w))"
proof
  show "running (j_ID j) (snd (fail j c m w))"
    using fail_stopping [OF assms(1,2), of j c m] assms(3) by (simp add: ctx_same_def same_tables_def running_def job_row_def)
  define w1 where "w1 = snd (sched_meterEmit j MeteringJobStarted None
    (snd (sched_publishState j StateRunning 0 0 0 0 (snd (enter (j_ID j) w)))))"
  have w1: "stopping w1 \<and> arrivals w1 = [] \<and> same_tables w w1"
    using runJob_start [OF assms(2), of j] assms(1,2) by (simp add: w1_def ctx_same_def)
  have "snd (run_body cfg eng show_err rnd j t w1) = snd (fail j ErrorInternal
      (''load preset '' @ j_PresetID j @ '': '' @ show_err ErrIO) w1)" for t
    using w1 by (simp add: run_body_def and_then_apply [OF under_ctx_stopping(2)])
  then have "ctx_same w1 (snd (run_body cfg eng show_err rnd j t w1))" for t
    using w1 by (simp add: fail_stopping)
  then show "running (j_ID j) (snd (runJob cfg eng show_err rnd j w))"
    using w1 assms(3)
    by (simp add: runJob_def snd_and_then flip: w1_def)
      (simp add: tick_quiet ctx_same_def leave_def same_tables_def running_def job_row_def)
qed

theorem shutdown_strands_running_job_witness:
  "running ''j'' (snd (runJob ex_sched ex_engine (\<lambda>_. []) [] (claim_set 7 ex_row) (ex_running\<lparr>stopping := True\<rparr>)))"
proof -
  have id: "j_ID (claim_set 7 ex_row) = ''j''" by (simp add: claim_set_def ex_row_def)
  show ?thesis
    using shutdown_strands_running_job [of "ex_running\<lparr>stopping := True\<rparr>" "claim_set 7 ex_row"]
      ex_running_calm unfolding id by (simp add: running_def job_row_def)
qed

text \<open>
  So does a failure message that the database refuses. The error of \<open>MarkFailed\<close> is only
  logged and the runner returns, with the job still running. The message carries the last line
  ffmpeg wrote, and a text column refuses a NUL byte and bytes that are not valid UTF-8.
\<close>

theorem refused_failure_strands_job:
  assumes "running (j_ID j) w" "arrivals w = []" "io_script w = IoFail # ios"
  shows "running (j_ID j) (snd (fail j c m w))"
proof -
  define w1 where "w1 = snd (under_parent (MarkFailed (j_ID j) c m) w)"
  have 1: "ctx_same w w1"
    using assms(2,3) unfolding w1_def under_parent_def snd_and_then
    by (cases "ValidErrorClass c") (simp_all add: tick_quiet MarkFailed_def with_io_def next_io_def
        ctx_same_def same_tables_def)
  then have a1: "arrivals w1 = []" using assms(2) by (simp add: ctx_same_def)
  have 2: "ctx_same w1 (snd (sched_publishState j StateFailed 0 0 0 0 w1))" by (rule ctx_side(1) [OF a1])
  then have "arrivals (snd (sched_publishState j StateFailed 0 0 0 0 w1)) = []" using a1 by (simp add: ctx_same_def)
  from ctx_same.trans [OF ctx_same.trans [OF 1 2] ctx_side(2) [OF this]]
  have "ctx_same w (snd (fail j c m w))" by (simp add: fail_def snd_and_then flip: w1_def)
  then show ?thesis using assms(1) by (simp add: ctx_same_def same_tables_def running_def job_row_def)
qed

theorem refused_failure_strands_job_witness:
  "running ''j'' (snd (fail (claim_set 7 ex_row) ErrorEncode ''x'' (ex_running\<lparr>io_script := [IoFail]\<rparr>)))"
proof -
  have id: "j_ID (claim_set 7 ex_row) = ''j''" by (simp add: claim_set_def ex_row_def)
  show ?thesis
    using refused_failure_strands_job [of "claim_set 7 ex_row" "ex_running\<lparr>io_script := [IoFail]\<rparr>" "[]"]
      ex_running_calm unfolding id by (simp add: running_def job_row_def)
qed

text \<open>
  C10. A run that reaches completion has done every rung. When the rung loop of a job returns its
  outputs, the engine succeeded on every rung of the preset and all files it left for a rung are
  in the bucket under the prefix of the job and the rung. The outputs are exactly one entry per
  rung, in order and with its name, marked completed at 100 percent, with the primary artifact
  among the stored keys as object key. So the object key of a rung is in the bucket whenever the
  engine left a file for it.
\<close>

theorem completed_run_stored_all_rungs:
  assumes "run_rungs cfg eng show_err rnd j preset src 0 (p_Ladder preset) (pending_outputs preset, None) w
    = (Some outputs, w')"
  shows "outputs = map (rung_output cfg eng rnd j preset src) (p_Ladder preset) \<and>
    list_all (rung_stored cfg eng rnd j preset src w') (p_Ladder preset) \<and>
    (\<forall>rung \<in> set (p_Ladder preset). tr_files (rung_run cfg eng rnd j preset src rung) \<noteq> [] \<longrightarrow>
       o_ObjectKey (rung_output cfg eng rnd j preset src rung) \<in> set (bucket w'))"
proof -
  have d: "outputs = map (rung_output cfg eng rnd j preset src) (p_Ladder preset)"
    "list_all (rung_stored cfg eng rnd j preset src w') (p_Ladder preset)"
    using run_rungs_done [OF assms] by (simp_all add: pending_outputs_def comp_def)
  have "o_ObjectKey (rung_output cfg eng rnd j preset src rung) \<in> set (bucket w')"
    if "rung_stored cfg eng rnd j preset src w' rung" "tr_files (rung_run cfg eng rnd j preset src rung) \<noteq> []" for rung
    using that primaryArtifact_stored [of "rung_keys cfg eng rnd j preset src rung"]
    by (auto simp: rung_output_def rung_stored_def) (auto simp: rung_keys_def stored_keys_def)
  with d show ?thesis by (auto simp: list_all_iff)
qed

definition ex_good_engine :: "OutputSpec \<Rightarrow> transcode_run" where
  "ex_good_engine spec = \<lparr>tr_samples = [], tr_err = None, tr_files = [os_RungName spec @ ''.mp4'']\<rparr>"

definition ex_source :: Source where
  "ex_source = \<lparr>s_ObjectKey = ''k'', s_WorkspaceID = ''ws'', s_SHA256 = ''h'', s_SizeBytes = 1, s_Mime = ''video/mp4'',
     s_MediaInfo = \<lparr>mi_Container = ''mp4'', mi_DurationSeconds = 1, mi_VideoCodec = ''h264'', mi_AudioCodec = [],
       mi_Width = 1280, mi_Height = 720, mi_ChromaSubsampling = [], mi_SourceBitrateBps = 0, mi_VideoStreams = 1,
       mi_AudioStreams = 0, mi_SubtitleStreams = 0\<rparr>, s_ProbedAt = 0\<rparr>"

definition ex_key :: string where
  "ex_key = ''outputs/ws/j/720p/720p.mp4''"

lemma ex_keys_valid: "validateKey ''outputs/ws/j/720p'' = None" "validateKey ex_key = None"
  unfolding ex_key_def by code_simp+

lemma ex_rungs_run:
  "run_rungs ex_sched ex_good_engine (\<lambda>_. []) [] (claim_set 7 ex_row) ex_preset ex_source 0 (p_Ladder ex_preset)
     (pending_outputs ex_preset, None) ex_running
   = (Some [\<lparr>o_Name = ''720p'', o_ObjectKey = ex_key, o_State = ''completed'', o_ProgressPct = 100\<rparr>],
      ex_running\<lparr>bucket := [ex_key]\<rparr>)"
proof -
  have r: "healthy ex_running" "tick ex_running = ((), ex_running)" "\<not> job_done ''j'' ex_running"
    "bucket ex_running = []"
    by (simp_all add: ex_running_eq ex_queued_eq ex_with_preset_eq ex_start_def healthy_def tick_def job_done_def)
  have j: "j_ID (claim_set 7 ex_row) = ''j''" "j_WorkspaceID (claim_set 7 ex_row) = ''ws''"
    by (simp_all add: claim_set_def ex_row_def ex_job_def)
  have put: "PutDir ''outputs/ws/j/720p'' [''720p.mp4''] ex_running = (Inr [ex_key], ex_running\<lparr>bucket := [ex_key]\<rparr>)"
    using ex_keys_valid r
    by (simp add: PutDir_def PutFile_def and_then_def local_io_def with_io_healthy put_key_def ex_key_def)
  show ?thesis
    using r put
    by (simp add: ex_preset_def pending_outputs_def and_then_def is_done_def under_job_def local_io_def
        with_io_healthy j output_prefix_def output_spec_def ex_good_engine_def primaryArtifact_def ex_key_def)
qed

theorem completed_run_stored_all_rungs_witness:
  "map (rung_output ex_sched ex_good_engine [] (claim_set 7 ex_row) ex_preset ex_source) (p_Ladder ex_preset) =
     [\<lparr>o_Name = ''720p'', o_ObjectKey = ex_key, o_State = ''completed'', o_ProgressPct = 100\<rparr>] \<and>
   ex_key \<in> set (bucket (ex_running\<lparr>bucket := [ex_key]\<rparr>))"
  using completed_run_stored_all_rungs [OF ex_rungs_run] by simp

text \<open>
  C11. Slots. Starting idle, whatever the claims, wake-ups, returns and other goroutines do, the
  number of job goroutines in flight never exceeds the configured slots, and the semaphore
  counts exactly those goroutines plus the claim in progress.
\<close>

theorem runners_within_slots:
  assumes "New cfg0 = Inr cfg" "(loop_step cfg)\<^sup>*\<^sup>* (idle_loop, w) (l, w')"
  shows "int (length (lp_runners l)) \<le> sc_Slots cfg \<and>
    lp_sem l = length (lp_runners l) + (if lp_phase l = Claiming then 1 else 0)"
proof -
  have "1 \<le> sc_Slots cfg" using assms(1) by (auto simp: New_def Let_def split: if_splits)
  then have "slots_inv cfg (fst (idle_loop, w))" by (simp add: slots_inv_def idle_loop_def)
  from loop_run [OF assms(2) this] show ?thesis by (auto simp: slots_inv_def split: if_splits)
qed

definition ex_loop :: loop where
  "ex_loop = \<lparr>lp_phase = Acquiring, lp_sem = 1, lp_runners = [''j'']\<rparr>"

theorem runners_within_slots_witness:
  "(loop_step ex_sched)\<^sup>*\<^sup>* (idle_loop, ex_queued) (ex_loop, ex_running) \<and>
   int (length (lp_runners ex_loop)) \<le> sc_Slots ex_sched"
proof -
  let ?l = "\<lparr>lp_phase = Claiming, lp_sem = 1, lp_runners = []\<rparr>"
  have 1: "loop_step ex_sched (idle_loop, ex_queued) (?l, ex_queued)"
    using loop_step.acquire [of idle_loop ex_sched ex_queued] by (simp add: idle_loop_def ex_sched_def)
  have c: "ClaimNextQueued ex_queued = (Inr (claim_set 7 ex_row), ex_running)"
    unfolding ex_running_def ClaimNextQueued_def ex_queued_eq ex_with_preset_eq
    by (simp add: with_io_def next_io_def ex_start_def oldest_queued_def update_job_def ex_row_def ex_job_def)
  have "\<not> stopping ex_queued" by (simp add: ex_queued_eq ex_with_preset_eq ex_start_def)
  then have 2: "loop_step ex_sched (?l, ex_queued) (ex_loop, ex_running)"
    using loop_step.claimed [of ?l, OF _ _ c] by (simp add: ex_loop_def claim_set_def ex_row_def)
  have run: "(loop_step ex_sched)\<^sup>*\<^sup>* (idle_loop, ex_queued) (ex_loop, ex_running)"
    by (rule converse_rtranclp_into_rtranclp [of "loop_step ex_sched", OF 1 r_into_rtranclp [of "loop_step ex_sched", OF 2]])
  have "New ex_sched = Inr ex_sched" by (simp add: New_def ex_sched_def)
  from runners_within_slots [OF this run] run show ?thesis by simp
qed

text \<open>
  Cancel functions are keyed by job id alone. When a failed job was retried and claimed
  again before its first runner left, the first runner's deferred cleanup removes the second
  runner's cancel function: the job runs, and a cancel request is answered as not delivered.
\<close>

theorem stale_cleanup_loses_cancel:
  assumes "running i w"
  shows "running i (snd (leave i (snd (enter i w)))) \<and> \<not> fst (Cancel i (snd (leave i (snd (enter i w)))))"
  using assms by (simp add: enter_def leave_def Cancel_def running_def job_row_def)

theorem stale_cleanup_loses_cancel_witness:
  "running ''j'' (snd (leave ''j'' (snd (enter ''j'' ex_running)))) \<and>
   \<not> fst (Cancel ''j'' (snd (leave ''j'' (snd (enter ''j'' ex_running)))))"
  by (rule stale_cleanup_loses_cancel) (rule ex_running_calm)

end
