(* ===== verification/OrchConsumer.thy ===== *)
theory OrchConsumer
  imports OrchScheduler
begin

text \<open>
  The landed-object consumer, \<open>services/orchestrator/internal/consumer/landed.go\<close>: one
  delivery of a message ends in its acknowledgement, its termination or a request for
  redelivery after a delay. Redelivery is what the message broker may do at any time, so the
  properties speak about sequences of deliveries.
\<close>

section \<open>Handling one message\<close>

datatype disposition = Ack | Term | NakWithDelay int

record ConsumerConfig =
  cc_AutoCreateJobs :: bool
  cc_meter :: bool
  cc_progress :: bool
  cc_runner :: bool

definition landed_source :: "LandedObjectEvent \<Rightarrow> MediaInfo \<Rightarrow> Source" where
  "landed_source ev mi =
     \<lparr>s_ObjectKey = le_ObjectKey ev, s_WorkspaceID = le_WorkspaceID ev, s_SHA256 = le_SHA256 ev,
      s_SizeBytes = le_SizeBytes ev, s_Mime = le_Mime ev, s_MediaInfo = mi, s_ProbedAt = 0\<rparr>"

definition landed_job :: "LandedObjectEvent \<Rightarrow> Preset \<Rightarrow> Job" where
  "landed_job ev preset =
     \<lparr>j_ID = [], j_WorkspaceID = le_WorkspaceID ev, j_UserID = le_UserID ev,
      j_PresetID = p_ID preset, j_SourceObjectKey = le_ObjectKey ev,
      j_SourceSHA256 = le_SHA256 ev, j_State = StateOther [], j_ErrorClass = None,
      j_ErrorMessage = [], j_Attempts = 0, j_ProgressPct = 0, j_FPS = 0, j_SpeedX = 0,
      j_ETASeconds = 0, j_Outputs = [], j_CreatedAt = 0, j_QueuedAt = 0, j_StartedAt = None,
      j_FinishedAt = None, j_UpdatedAt = 0\<rparr>"

text \<open>The side effects after an auto-created job: none of them fails the message.\<close>

definition announce :: "ConsumerConfig \<Rightarrow> Job \<Rightarrow> orch \<Rightarrow> bool \<times> orch" where
  "announce cfg j =
     and_then (if cc_meter cfg
               then ignore (Emit (j_WorkspaceID j) (j_UserID j) MeteringJobQueued (j_ID j) None None)
               else ret ()) (\<lambda>_.
     and_then (if cc_progress cfg
               then ignore (Publish \<lparr>jp_JobID = j_ID j, jp_State = string_of_State StateQueued, jp_FPS = 0,
                      jp_SpeedX = 0, jp_ETASeconds = 0, jp_ProgressPct = j_ProgressPct j\<rparr>)
               else ret ()) (\<lambda>_.
     and_then (if cc_runner cfg then Wake else ret ()) (\<lambda>_. ret True)))"

definition autoCreateJob :: "ConsumerConfig \<Rightarrow> LandedObjectEvent \<Rightarrow> orch \<Rightarrow> bool \<times> orch" where
  "autoCreateJob cfg ev =
     and_then (DefaultPreset (le_WorkspaceID ev)) (\<lambda>r. case r of
       Inl ErrNotFound \<Rightarrow> ret True
     | Inl _ \<Rightarrow> ret False
     | Inr preset \<Rightarrow>
         and_then (HasActiveJobForSource (le_WorkspaceID ev) (le_ObjectKey ev) (p_ID preset)) (\<lambda>r. case r of
           Inl _ \<Rightarrow> ret False
         | Inr active \<Rightarrow>
             if active then ret True
             else and_then (CreateJob (landed_job ev preset)) (\<lambda>r. case r of
               Inl _ \<Rightarrow> ret False
             | Inr j \<Rightarrow> announce cfg j)))"

text \<open>
  \<open>probe\<close> is the engine's \<open>Probe\<close> on the downloaded object. Delays are in seconds.
\<close>

definition handle ::
  "ConsumerConfig \<Rightarrow> (string \<Rightarrow> bool) \<Rightarrow> (string \<Rightarrow> eng_err + MediaInfo) \<Rightarrow> LandedObjectEvent json_in \<Rightarrow>
   orch \<Rightarrow> disposition \<times> orch" where
  "handle cfg uuid_ok probe data =
     (case ParseUploadLanded uuid_ok data of
        Inl _ \<Rightarrow> ret Term
      | Inr ev \<Rightarrow>
          and_then (Exists (le_ObjectKey ev)) (\<lambda>r. case r of
            Inl _ \<Rightarrow> ret (NakWithDelay 10)
          | Inr ok \<Rightarrow>
              if \<not> ok then ret (NakWithDelay 10)
              else and_then local_io (\<lambda>r. case r of
                Inl _ \<Rightarrow> ret (NakWithDelay 10)
              | Inr _ \<Rightarrow>
                  and_then (Download (le_ObjectKey ev)) (\<lambda>r. case r of
                    Inl _ \<Rightarrow> ret (NakWithDelay 10)
                  | Inr _ \<Rightarrow>
                      (case probe (le_ObjectKey ev) of
                         Inl (EngError StageAsset _) \<Rightarrow> ret Term
                       | Inl _ \<Rightarrow> ret (NakWithDelay 30)
                       | Inr mi \<Rightarrow>
                           and_then (UpsertSource (landed_source ev mi)) (\<lambda>r. case r of
                             Inl _ \<Rightarrow> ret (NakWithDelay 10)
                           | Inr _ \<Rightarrow>
                               if cc_AutoCreateJobs cfg
                               then and_then (autoCreateJob cfg ev) (\<lambda>ok.
                                 if ok then ret Ack else ret (NakWithDelay 10))
                               else ret Ack))))))"

text \<open>A broker delivers messages one after the other, the same one any number of times.\<close>

fun deliver_all ::
  "ConsumerConfig \<Rightarrow> (string \<Rightarrow> bool) \<Rightarrow> (string \<Rightarrow> eng_err + MediaInfo) \<Rightarrow> LandedObjectEvent json_in list \<Rightarrow>
   orch \<Rightarrow> orch" where
  "deliver_all cfg uuid_ok probe [] w = w"
| "deliver_all cfg uuid_ok probe (m # ms) w =
     deliver_all cfg uuid_ok probe ms (snd (handle cfg uuid_ok probe m w))"

section \<open>The handler is a program over the store\<close>

lemma store_prog_eng_case:
  assumes "store_prog a" "store_prog b" "\<And>x. store_prog (c x)"
  shows "store_prog (case r of Inl (EngError StageAsset _) \<Rightarrow> a | Inl _ \<Rightarrow> b | Inr x \<Rightarrow> c x)"
  using assms by (auto split: sum.splits eng_err.splits ErrorStage.splits)

lemma store_prog_announce: "store_prog (announce cfg j)"
  unfolding announce_def by (intro store_progs)

lemma store_prog_handle: "store_prog (handle cfg uuid_ok probe data)"
  unfolding handle_def autoCreateJob_def
  by (intro store_progs store_prog_eng_case store_prog_announce)

interpretation handle: store_prog "handle cfg uuid_ok probe data"
  by (rule store_prog_handle)

section \<open>At most one job per source and preset\<close>

text \<open>The jobs the idempotency guard looks for.\<close>

definition live_jobs :: "string \<Rightarrow> string \<Rightarrow> string \<Rightarrow> orch \<Rightarrow> nat" where
  "live_jobs ws key preset w =
     length (filter (\<lambda>j. j_WorkspaceID j = ws \<and> j_SourceObjectKey j = key \<and> j_PresetID j = preset \<and>
       j_State j \<noteq> StateFailed) (t_jobs w))"

definition at_most_one :: "string \<Rightarrow> string \<Rightarrow> string \<Rightarrow> orch \<Rightarrow> orch \<Rightarrow> bool" where
  "at_most_one ws key preset w w' \<longleftrightarrow>
     (live_jobs ws key preset w \<le> 1 \<longrightarrow> live_jobs ws key preset w' \<le> 1)"

interpretation at_most_one: step_rel "at_most_one ws key preset"
  by unfold_locales (auto simp: at_most_one_def live_jobs_def)

lemma at_most_one_same: "(\<And>w. same_tables w (snd (f w))) \<Longrightarrow> keeps (at_most_one ws key preset) f"
  by (simp add: keeps_def at_most_one_def live_jobs_def same_tables_def)

lemma at_most_one_Upsert: "keeps (at_most_one ws key preset) (UpsertSource s)"
  unfolding UpsertSource_def
  by (intro at_most_one.keeps_with_io) (simp add: keeps_def at_most_one_def live_jobs_def)

lemma silent_calls:
  "same_tables w (snd (Exists key w))" "same_tables w (snd (local_io w))"
  "same_tables w (snd (Download key w))" "same_tables w (snd (DefaultPreset ws w))"
  "same_tables w (snd (HasActiveJobForSource ws key p w))"
proof -
  have l: "same_tables w (snd (local_io w))" for w
    unfolding local_io_def by (rule same_tables_with_io) simp
  show "same_tables w (snd (local_io w))" by (rule l)
  have io: "same_tables w (snd (with_io (\<lambda>w. (g w, w)) w))" for w and g :: "orch \<Rightarrow> store_err + 'c"
    by (rule same_tables_with_io) simp
  show "same_tables w (snd (Exists key w))" by (simp add: Exists_def io)
  show "same_tables w (snd (HasActiveJobForSource ws key p w))"
    by (simp add: HasActiveJobForSource_def io)
  show "same_tables w (snd (DefaultPreset ws w))"
    unfolding DefaultPreset_def by (rule same_tables_with_io) (simp split: option.splits)
  show "same_tables w (snd (Download key w))"
    unfolding Download_def
    by (cases "validateKey key") (auto simp: snd_and_then ret_def io l split: sum.splits
        intro: same_tables_trans [OF io l])
qed

lemma announce_silent: "same_tables w (snd (announce cfg j w))"
proof -
  have "same_tables w (snd ((if cc_meter cfg then ignore (Emit u v k i None None) else ret ()) w))" for w u v k i
    by (simp add: ret_def same_tables_ignore same_tables_Emit)
  moreover have "same_tables w (snd ((if cc_progress cfg then ignore (Publish ev) else ret ()) w))" for w ev
    by (simp add: ret_def same_tables_ignore Publish.silent)
  moreover have "same_tables w (snd ((if cc_runner cfg then Wake else ret ()) w))" for w
    by (simp add: ret_def Wake.silent)
  ultimately show ?thesis
    unfolding announce_def snd_and_then ret_def snd_conv by (meson same_tables_trans)
qed

lemma HasActive_Inr:
  assumes "HasActiveJobForSource ws key p w = (Inr active, w')"
  shows "active \<longleftrightarrow> live_jobs ws key p w' \<noteq> 0"
  using assms unfolding HasActiveJobForSource_def
  by (elim with_io_Inr) (auto simp: live_jobs_def filter_empty_conv)

lemma live_CreateJob:
  "live_jobs ws key p (snd (CreateJob j w)) \<le> live_jobs ws key p w +
     (if j_WorkspaceID j = ws \<and> j_SourceObjectKey j = key \<and> j_PresetID j = p then 1 else 0)"
proof -
  have "adds (live_jobs ws key p)
      (if j_WorkspaceID j = ws \<and> j_SourceObjectKey j = key \<and> j_PresetID j = p then 1 else 0) (CreateJob j)"
    unfolding CreateJob_def Let_def
    by (intro adds_new_id_case adds_with_io) (auto simp: adds_def live_jobs_def)
  then show ?thesis by (simp add: adds_def)
qed

text \<open>Creating the job behind the guard.\<close>

lemma at_most_one_guarded_create:
  assumes g: "HasActiveJobForSource (le_WorkspaceID ev) (le_ObjectKey ev) (p_ID pr) w = (Inr False, w')"
  shows "at_most_one ws key p w (snd (CreateJob (landed_job ev pr) w'))"
proof -
  have "same_tables w w'"
    using silent_calls(5) [of w "le_WorkspaceID ev" "le_ObjectKey ev" "p_ID pr"] g by simp
  then have "live_jobs ws key p w' = live_jobs ws key p w" by (simp add: live_jobs_def same_tables_def)
  moreover have "live_jobs (le_WorkspaceID ev) (le_ObjectKey ev) (p_ID pr) w' = 0"
    using HasActive_Inr [OF g] by simp
  ultimately show ?thesis
    using live_CreateJob [of ws key p "landed_job ev pr" w'] unfolding at_most_one_def
    by (auto simp: landed_job_def split: if_splits)
qed

lemma at_most_one_autoCreate: "keeps (at_most_one ws key p) (autoCreateJob cfg ev)"
proof -
  have a: "keeps (at_most_one ws key p) (announce cfg j)" for j
    by (rule at_most_one_same) (rule announce_silent)
  have guarded: "keeps (at_most_one ws key p)
      (and_then (HasActiveJobForSource (le_WorkspaceID ev) (le_ObjectKey ev) (p_ID pr)) (\<lambda>r. case r of
           Inl _ \<Rightarrow> ret False
         | Inr active \<Rightarrow>
             if active then ret True
             else and_then (CreateJob (landed_job ev pr)) (\<lambda>r. case r of
               Inl _ \<Rightarrow> ret False
             | Inr j \<Rightarrow> announce cfg j)))" (is "keeps _ (and_then ?h ?k)") for pr
  proof (rule keepsI)
    fix w
    obtain r w' where h: "?h w = (r, w')" by (cases "?h w")
    have "keeps (at_most_one ws key p) ?h" by (rule at_most_one_same) (rule silent_calls)
    from keepsD [OF this h] have 1: "at_most_one ws key p w w'" .
    show "at_most_one ws key p w (snd (and_then ?h ?k w))"
    proof (cases "r = Inr False")
      case True
      let ?c = "CreateJob (landed_job ev pr)"
      have "keeps (at_most_one ws key p) (case x of Inl _ \<Rightarrow> ret False | Inr j \<Rightarrow> announce cfg j)" for x
        by (intro at_most_one.keeps_intros a)
      then have "at_most_one ws key p (snd (?c w')) (snd (and_then ?c (\<lambda>r. case r of Inl _ \<Rightarrow> ret False
          | Inr j \<Rightarrow> announce cfg j) w'))" unfolding snd_and_then keeps_def by blast
      with at_most_one_guarded_create [OF h [unfolded True], of ws key p] show ?thesis
        unfolding and_then_apply [of ?h, OF h] True by (auto intro: at_most_one.trans)
    next
      case False
      then show ?thesis unfolding and_then_apply [of ?h, OF h] using 1
        by (cases r) (auto simp: ret_def)
    qed
  qed
  show ?thesis
    unfolding autoCreateJob_def
    by (intro at_most_one.keeps_intros guarded at_most_one_same silent_calls)
qed

lemma keeps_eng_case:
  assumes "keeps R a" "keeps R b" "\<And>x. keeps R (c x)"
  shows "keeps R (case r of Inl (EngError StageAsset _) \<Rightarrow> a | Inl _ \<Rightarrow> b | Inr x \<Rightarrow> c x)"
  using assms by (auto split: sum.splits eng_err.splits ErrorStage.splits)

lemma at_most_one_handle: "keeps (at_most_one ws key p) (handle cfg uuid_ok probe data)"
  unfolding handle_def
  by (intro at_most_one.keeps_intros keeps_eng_case at_most_one_autoCreate at_most_one_Upsert
      at_most_one_same silent_calls)

lemma at_most_one_deliver: "at_most_one ws key p w (deliver_all cfg uuid_ok probe ms w)"
proof (induction ms arbitrary: w)
  case (Cons m ms)
  have "at_most_one ws key p w (snd (handle cfg uuid_ok probe m w))"
    using at_most_one_handle unfolding keeps_def by blast
  then show ?case using Cons at_most_one.trans by fastforce
qed (simp add: at_most_one.refl)

section \<open>Properties\<close>

text \<open>
  C8. Redelivery creates no second job. From a state with at most one live (not failed) job for
  a workspace, source and preset, any sequence of deliveries, of any messages, repeated in any
  order and with any storage failures, lost acknowledgements of the insert included, leaves at
  most one.
\<close>

theorem redelivery_creates_one_job:
  assumes "live_jobs ws key preset w \<le> 1"
  shows "live_jobs ws key preset (deliver_all cfg uuid_ok probe ms w) \<le> 1"
  using at_most_one_deliver [of ws key preset w cfg uuid_ok probe ms] assms by (simp add: at_most_one_def)

definition ex_consumer :: ConsumerConfig where
  "ex_consumer = \<lparr>cc_AutoCreateJobs = True, cc_meter = True, cc_progress = True, cc_runner = True\<rparr>"

theorem redelivery_creates_one_job_witness:
  "live_jobs ''ws'' (le_ObjectKey ex_landed) ''p''
     (deliver_all ex_consumer (\<lambda>_. True) (\<lambda>_. Inr (s_MediaInfo ex_source))
       [JsonValue ex_landed [], JsonValue ex_landed []]
       (ex_with_preset\<lparr>bucket := [le_ObjectKey ex_landed], io_script := [IoOk, IoOk, IoOk, IoOk, IoOk, IoOk, IoOk, IoLost]\<rparr>)) \<le> 1"
  by (rule redelivery_creates_one_job) (simp add: live_jobs_def ex_with_preset_eq ex_start_def)

lemma UpsertSource_stored:
  assumes "UpsertSource s w = (Inr u, w')"
  shows "has_key s_ObjectKey (s_ObjectKey s) (t_sources w')"
  using assms unfolding UpsertSource_def
  by (elim with_io_Inr) (auto split: if_splits)

definition sources_grow :: "orch \<Rightarrow> orch \<Rightarrow> bool" where
  "sources_grow w w' \<longleftrightarrow> (\<forall>k. has_key s_ObjectKey k (t_sources w) \<longrightarrow> has_key s_ObjectKey k (t_sources w'))"

interpretation sources_grow: step_rel sources_grow
  by unfold_locales (auto simp: sources_grow_def)

lemma sources_autoCreate: "keeps sources_grow (autoCreateJob cfg ev)"
proof -
  have s: "keeps sources_grow (DefaultPreset ws)" "keeps sources_grow (HasActiveJobForSource ws key p)"
    "keeps sources_grow (announce cfg j)" for ws key p j
    using silent_calls announce_silent by (simp_all add: keeps_def sources_grow_def same_tables_def)
  have "keeps sources_grow (CreateJob j)" for j
    unfolding CreateJob_def Let_def
    by (rule sources_grow.keeps_new_id_case, rule sources_grow.keeps_with_io) (simp add: keeps_def sources_grow_def)
  then show ?thesis
    unfolding autoCreateJob_def by (intro sources_grow.keeps_intros s)
qed

text \<open>
  C14. A message is terminated, and so never redelivered, only for a reason redelivery cannot
  change: the event violates the contract, or the engine found the asset itself unreadable. It
  is acknowledged only after its source was stored.
\<close>

theorem terminal_dispositions:
  "(handle cfg uuid_ok probe data w = (Term, w') \<longrightarrow>
      (\<exists>e. ParseUploadLanded uuid_ok data = Inl e) \<or>
      (\<exists>ev m. ParseUploadLanded uuid_ok data = Inr ev \<and> probe (le_ObjectKey ev) = Inl (EngError StageAsset m))) \<and>
   (handle cfg uuid_ok probe data w = (Ack, w') \<longrightarrow>
      (\<exists>ev. ParseUploadLanded uuid_ok data = Inr ev \<and> has_key s_ObjectKey (le_ObjectKey ev) (t_sources w')))"
proof (intro conjI impI)
  assume "handle cfg uuid_ok probe data w = (Term, w')"
  then show "(\<exists>e. ParseUploadLanded uuid_ok data = Inl e) \<or>
      (\<exists>ev m. ParseUploadLanded uuid_ok data = Inr ev \<and> probe (le_ObjectKey ev) = Inl (EngError StageAsset m))"
    by (auto simp: handle_def ret_def elim!: and_thenE
        split: sum.splits eng_err.splits ErrorStage.splits if_splits)
next
  assume h: "handle cfg uuid_ok probe data w = (Ack, w')"
  have stored: "has_key s_ObjectKey (le_ObjectKey ev) (t_sources w2)"
    if "UpsertSource (landed_source ev mi) w1 = (Inr u, w2)" for ev mi w1 u w2
    using UpsertSource_stored [OF that] by (simp add: landed_source_def)
  have auto: "has_key s_ObjectKey k (t_sources w3)"
    if "autoCreateJob cfg ev w2 = (ok, w3)" "has_key s_ObjectKey k (t_sources w2)" for ev w2 ok w3 k
    using keepsD [OF sources_autoCreate that(1)] that(2) by (simp add: sources_grow_def)
  from h show "\<exists>ev. ParseUploadLanded uuid_ok data = Inr ev \<and> has_key s_ObjectKey (le_ObjectKey ev) (t_sources w')"
    by (auto simp: handle_def ret_def elim!: and_thenE dest!: stored auto
        split: sum.splits eng_err.splits ErrorStage.splits if_splits)
qed

theorem terminal_dispositions_witness:
  "has_key s_ObjectKey (le_ObjectKey ex_landed)
     (t_sources (snd (handle (ex_consumer\<lparr>cc_AutoCreateJobs := False\<rparr>) (\<lambda>_. True) (\<lambda>_. Inr (s_MediaInfo ex_source))
       (JsonValue ex_landed []) (ex_start\<lparr>bucket := [le_ObjectKey ex_landed]\<rparr>))))"
proof -
  let ?w = "ex_start\<lparr>bucket := [le_ObjectKey ex_landed]\<rparr>"
  let ?h = "handle (ex_consumer\<lparr>cc_AutoCreateJobs := False\<rparr>) (\<lambda>_. True) (\<lambda>_. Inr (s_MediaInfo ex_source))
    (JsonValue ex_landed [])"
  have p: "ParseUploadLanded (\<lambda>_. True) (JsonValue ex_landed []) = Inr ex_landed" by code_simp
  have v: "validateKey (le_ObjectKey ex_landed) = None" by code_simp
  have "fst (?h ?w) = Ack"
    by (simp add: handle_def p Exists_def v local_io_def Download_def and_then_def with_io_def next_io_def
        ret_def ex_start_def UpsertSource_def ex_consumer_def)
  then have h: "?h ?w = (Ack, snd (?h ?w))" by (metis prod.collapse)
  then show ?thesis
    using terminal_dispositions [of "ex_consumer\<lparr>cc_AutoCreateJobs := False\<rparr>" "\<lambda>_. True"
        "\<lambda>_. Inr (s_MediaInfo ex_source)" "JsonValue ex_landed []" ?w "snd (?h ?w)"] p by simp
qed

end
