(* ===== verification/FfmpegAdapter.thy ===== *)
theory FfmpegAdapter
  imports OrchConsumer
begin

text \<open>
  The FFmpeg adapter of the codec interface,
  \<open>services/orchestrator/internal/engine/ffmpegadapter\<close>: the argument vectors
  (\<open>args.go\<close>), the licence gate (\<open>buildconf.go\<close>), the progress parser
  (\<open>progress.go\<close>), probing, transcoding and the classification of failures
  (\<open>adapter.go\<close>). The child process is a parameter: what a command prints and how it
  exits. White space is ASCII white space; ffmpeg and ffprobe print nothing else between
  tokens. \<open>float64\<close> values are reals and \<open>parse_float\<close> stands for
  \<open>strconv.ParseFloat\<close> on finite numbers.
\<close>

section \<open>Text helpers\<close>

definition trim_suffix :: "string \<Rightarrow> string \<Rightarrow> string" where
  "trim_suffix p s = (if has_suffix p s then take (length s - length p) s else s)"

definition RuneStart :: "char \<Rightarrow> bool" where
  "RuneStart c \<longleftrightarrow> (of_char c :: nat) div 64 \<noteq> 2"

fun cut_back :: "string \<Rightarrow> nat \<Rightarrow> nat" where
  "cut_back s 0 = 0"
| "cut_back s (Suc n) = (if RuneStart (s ! Suc n) then Suc n else cut_back s n)"

definition truncateRuneSafe :: "string \<Rightarrow> nat \<Rightarrow> string" where
  "truncateRuneSafe s m = (if length s \<le> m then s else take (cut_back s m) s)"

definition firstLine :: "string \<Rightarrow> string" where
  "firstLine b = truncateRuneSafe (takeWhile (\<lambda>c. c \<noteq> CHR 0x0A) (trim_space b)) 300"

definition firstNonEmptyTail :: "string \<Rightarrow> string" where
  "firstNonEmptyTail s =
     (case List.find (\<lambda>l. trim_space l \<noteq> []) (rev (split_on CHR 0x0A (trim_space s))) of
        None \<Rightarrow> []
      | Some l \<Rightarrow> truncateRuneSafe (trim_space l) 300)"

section \<open>Licence gate (buildconf.go)\<close>

definition forbiddenFlags :: "string list" where
  "forbiddenFlags = [''--enable-gpl'', ''--enable-nonfree'']"

definition CheckBuildconf :: "string \<Rightarrow> string option" where
  "CheckBuildconf output =
     List.find (\<lambda>tok. tok \<in> set forbiddenFlags)
       (map trim_space (concat (map Fields (split_on CHR 0x0A output))))"

datatype adapter_err = PathsRequired | BuildconfFailed string | ForbiddenBuild string

record AdapterConfig =
  ac_FFmpegPath :: string
  ac_FFprobePath :: string

text \<open>
  \<open>output name args\<close> is the result of running a command to completion: its standard output,
  its standard error, and the text of its error if it has one.
\<close>

type_synonym runner_output = "string \<Rightarrow> string list \<Rightarrow> string \<times> string \<times> string option"

definition verifyBuild :: "AdapterConfig \<Rightarrow> runner_output \<Rightarrow> adapter_err option" where
  "verifyBuild cfg output =
     (let (stdout, stderr, err) = output (ac_FFmpegPath cfg) [''-hide_banner'', ''-buildconf''] in
      case err of
        Some e \<Rightarrow> Some (BuildconfFailed (e @ '': '' @ firstLine stderr))
      | None \<Rightarrow> map_option ForbiddenBuild (CheckBuildconf (stdout @ [CHR 0x0A] @ stderr)))"

definition NewAdapter :: "AdapterConfig \<Rightarrow> runner_output \<Rightarrow> adapter_err + AdapterConfig" where
  "NewAdapter cfg output =
     (if ac_FFmpegPath cfg = [] \<or> ac_FFprobePath cfg = [] then Inl PathsRequired
      else case verifyBuild cfg output of Some e \<Rightarrow> Inl e | None \<Rightarrow> Inr cfg)"

section \<open>Argument vectors (args.go)\<close>

definition encoderFor :: "string \<Rightarrow> string option" where
  "encoderFor codec =
     (if codec = ''h264'' then Some ''h264_nvenc''
      else if codec = ''hevc'' then Some ''hevc_nvenc''
      else if codec = ''av1'' then Some ''av1_nvenc''
      else None)"

definition audioArgsFor :: "string \<Rightarrow> string list" where
  "audioArgsFor container =
     (if container = ''webm'' then [''-c:a'', ''libopus'', ''-b:a'', ''128k'']
      else [''-c:a'', ''aac'', ''-b:a'', ''192k''])"

text \<open>\<open>filepath.Join\<close> of a clean non-empty directory and a plain file name.\<close>

definition join_path :: "string \<Rightarrow> string \<Rightarrow> string" where
  "join_path dir file = dir @ ''/'' @ file"

datatype args_err = UnsupportedCodec string | UnsupportedMode string | UnsupportedContainer string

definition rate_args :: "RateControl \<Rightarrow> args_err + string list" where
  "rate_args rc =
     (if rc_Mode rc = ''crf'' then Inr [''-rc'', ''vbr'', ''-cq'', show_int (rc_CRF rc), ''-b:v'', ''0'']
      else if rc_Mode rc = ''vbr'' then
        Inr ([''-rc'', ''vbr'', ''-b:v'', show_int (rc_BitrateKbps rc) @ ''k''] @
          (if rc_MaxBitrateKbps rc > 0 then [''-maxrate'', show_int (rc_MaxBitrateKbps rc) @ ''k''] else []))
      else if rc_Mode rc = ''cbr'' then
        (let kb = show_int (rc_BitrateKbps rc) @ ''k'' in
         Inr [''-rc'', ''cbr'', ''-b:v'', kb, ''-minrate'', kb, ''-maxrate'', kb])
      else Inl (UnsupportedMode (rc_Mode rc)))"

definition container_args :: "OutputSpec \<Rightarrow> args_err + (string list \<times> string)" where
  "container_args out =
     (let c = os_Container out; file = (\<lambda>suffix. join_path (os_DestDir out) (os_RungName out @ suffix)) in
      if c = ''mp4'' then Inr ([''-movflags'', ''+faststart'', ''-f'', ''mp4'', file ''.mp4''], file ''.mp4'')
      else if c = ''mov'' then Inr ([''-f'', ''mov'', file ''.mov''], file ''.mov'')
      else if c = ''webm'' then Inr ([''-f'', ''webm'', file ''.webm''], file ''.webm'')
      else if c = ''hls'' then
        Inr ([''-f'', ''hls'', ''-hls_time'', ''6'', ''-hls_playlist_type'', ''vod'',
              ''-hls_segment_type'', ''fmp4'', ''-hls_segment_filename'', file ''_%05d.m4s'', file ''.m3u8''],
             file ''.m3u8'')
      else if c = ''dash'' then
        Inr ([''-f'', ''dash'', ''-seg_duration'', ''6'',
              ''-init_seg_name'', os_RungName out @ ''_init_$RepresentationID$.m4s'',
              ''-media_seg_name'', os_RungName out @ ''_chunk_$RepresentationID$_$Number%05d$.m4s'',
              file ''.mpd''], file ''.mpd'')
      else Inl (UnsupportedContainer c))"

definition buildTranscodeArgs :: "string \<Rightarrow> OutputSpec \<Rightarrow> args_err + (string list \<times> string)" where
  "buildTranscodeArgs inputPath out =
     (case encoderFor (os_VideoCodec out) of
        None \<Rightarrow> Inl (UnsupportedCodec (os_VideoCodec out))
      | Some enc \<Rightarrow>
          (case rate_args (os_RateControl out) of
             Inl e \<Rightarrow> Inl e
           | Inr rate \<Rightarrow>
               (case container_args out of
                  Inl e \<Rightarrow> Inl e
                | Inr (cont, artifact) \<Rightarrow>
                    Inr ([''-hide_banner'', ''-nostdin'', ''-nostats'', ''-y'', ''-progress'', ''pipe:1'',
                          ''-i'', inputPath, ''-map'', ''0:v:0''] @
                         (if os_IncludeAudio out then [''-map'', ''0:a:0''] else []) @
                         [''-vf'', ''scale='' @ show_int (os_Width out) @ '':'' @ show_int (os_Height out),
                          ''-c:v'', enc, ''-preset'', os_SpeedPreset out,
                          ''-g'', show_int (os_GOPLength out)] @
                         rate @
                         (if os_IncludeAudio out then audioArgsFor (os_Container out) else [''-an'']) @
                         cont, artifact))))"

section \<open>Progress (progress.go)\<close>

record ProgressSample =
  ps_Frame :: int
  ps_FPS :: real
  ps_OutTimeSeconds :: real
  ps_SpeedX :: real
  ps_End :: bool

definition zero_sample :: ProgressSample where
  "zero_sample = \<lparr>ps_Frame = 0, ps_FPS = 0, ps_OutTimeSeconds = 0, ps_SpeedX = 0, ps_End = False\<rparr>"

record ProgressParser =
  pp_cur :: ProgressSample
  pp_haveData :: bool
  pp_haveUS :: bool

definition zero_parser :: ProgressParser where
  "zero_parser = \<lparr>pp_cur = zero_sample, pp_haveData = False, pp_haveUS = False\<rparr>"

definition Feed :: "(string \<Rightarrow> real option) \<Rightarrow> string \<Rightarrow> ProgressParser \<Rightarrow> ProgressSample option \<times> ProgressParser" where
  "Feed parse_float line p =
     (case cut CHR ''='' (trim_space line) of
        None \<Rightarrow> (None, p)
      | Some (key, v) \<Rightarrow>
          (let val = trim_space v in
           if key = ''frame'' then
             (case ParseInt val of
                None \<Rightarrow> (None, p)
              | Some n \<Rightarrow> (None, p\<lparr>pp_cur := (pp_cur p)\<lparr>ps_Frame := n\<rparr>, pp_haveData := True\<rparr>))
           else if key = ''fps'' then
             (case parse_float val of
                None \<Rightarrow> (None, p)
              | Some f \<Rightarrow> (None, p\<lparr>pp_cur := (pp_cur p)\<lparr>ps_FPS := f\<rparr>, pp_haveData := True\<rparr>))
           else if key = ''out_time_us'' then
             (case ParseInt val of
                None \<Rightarrow> (None, p)
              | Some n \<Rightarrow>
                  if n \<ge> 0 then
                    (None, p\<lparr>pp_cur := (pp_cur p)\<lparr>ps_OutTimeSeconds := real_of_int n / 1000000\<rparr>,
                             pp_haveData := True, pp_haveUS := True\<rparr>)
                  else (None, p))
           else if key = ''out_time_ms'' then
             (if pp_haveUS p then (None, p)
              else case ParseInt val of
                None \<Rightarrow> (None, p)
              | Some n \<Rightarrow>
                  if n \<ge> 0 then
                    (None, p\<lparr>pp_cur := (pp_cur p)\<lparr>ps_OutTimeSeconds := real_of_int n / 1000000\<rparr>,
                             pp_haveData := True\<rparr>)
                  else (None, p))
           else if key = ''speed'' then
             (case parse_float (trim_suffix ''x'' val) of
                None \<Rightarrow> (None, p)
              | Some f \<Rightarrow> (None, p\<lparr>pp_cur := (pp_cur p)\<lparr>ps_SpeedX := f\<rparr>, pp_haveData := True\<rparr>))
           else if key = ''progress'' then
             (let s = (pp_cur p)\<lparr>ps_End := (val = ''end'')\<rparr> in
              (if pp_haveData p \<or> ps_End s then Some s else None, zero_parser))
           else (None, p)))"

fun ScanProgress :: "(string \<Rightarrow> real option) \<Rightarrow> ProgressParser \<Rightarrow> (int \<times> string) list \<Rightarrow> (int \<times> ProgressSample) list" where
  "ScanProgress parse_float p [] = []"
| "ScanProgress parse_float p ((t, line) # lines) =
     (case Feed parse_float line p of
        (None, p') \<Rightarrow> ScanProgress parse_float p' lines
      | (Some s, p') \<Rightarrow> (t, s) # ScanProgress parse_float p' lines)"

definition DeriveProgress :: "ProgressSample \<Rightarrow> real \<Rightarrow> real \<times> real" where
  "DeriveProgress s duration =
     (if duration \<le> 0 then (0, 0)
      else
        (let pct0 = ps_OutTimeSeconds s / duration * 100;
             pct1 = (if pct0 > 100 then 100 else pct0);
             pct2 = (if pct1 < 0 then 0 else pct1);
             pct = (if ps_End s then 100 else pct2);
             remain0 = duration - ps_OutTimeSeconds s;
             remain = (if remain0 < 0 then 0 else remain0)
         in (pct, if ps_SpeedX s > 0 then remain / ps_SpeedX s else 0)))"

section \<open>Probing and transcoding (adapter.go)\<close>

record ffprobeStream =
  st_CodecType :: string
  st_CodecName :: string
  st_Width :: int
  st_Height :: int
  st_PixFmt :: string

record ffprobeOut =
  ff_FormatName :: string
  ff_Duration :: string
  ff_BitRate :: string
  ff_Streams :: "ffprobeStream list"

definition chromaFromPixFmt :: "string \<Rightarrow> string" where
  "chromaFromPixFmt f =
     (if f = [] then []
      else if contains_sub ''444'' f then ''4:4:4''
      else if contains_sub ''422'' f then ''4:2:2''
      else if contains_sub ''420'' f then ''4:2:0''
      else if contains_sub ''gray'' f then ''4:0:0''
      else f)"

definition add_stream :: "ffprobeStream \<Rightarrow> MediaInfo \<Rightarrow> MediaInfo" where
  "add_stream s mi =
     (if st_CodecType s = ''video'' then
        (let mi' = mi\<lparr>mi_VideoStreams := mi_VideoStreams mi + 1\<rparr> in
         if mi_VideoCodec mi' = [] then
           mi'\<lparr>mi_VideoCodec := st_CodecName s, mi_Width := st_Width s, mi_Height := st_Height s,
               mi_ChromaSubsampling := chromaFromPixFmt (st_PixFmt s)\<rparr>
         else mi')
      else if st_CodecType s = ''audio'' then
        (let mi' = mi\<lparr>mi_AudioStreams := mi_AudioStreams mi + 1\<rparr> in
         if mi_AudioCodec mi' = [] then mi'\<lparr>mi_AudioCodec := st_CodecName s\<rparr> else mi')
      else if st_CodecType s = ''subtitle'' then mi\<lparr>mi_SubtitleStreams := mi_SubtitleStreams mi + 1\<rparr>
      else mi)"

definition format_info :: "(string \<Rightarrow> real option) \<Rightarrow> ffprobeOut \<Rightarrow> MediaInfo" where
  "format_info parse_float out =
     \<lparr>mi_Container = ff_FormatName out,
      mi_DurationSeconds = (if ff_Duration out \<noteq> [] then
         (case parse_float (ff_Duration out) of None \<Rightarrow> 0 | Some f \<Rightarrow> f) else 0),
      mi_VideoCodec = [], mi_AudioCodec = [], mi_Width = 0, mi_Height = 0, mi_ChromaSubsampling = [],
      mi_SourceBitrateBps = (if ff_BitRate out \<noteq> [] then
         (case ParseInt (ff_BitRate out) of None \<Rightarrow> 0 | Some n \<Rightarrow> n) else 0),
      mi_VideoStreams = 0, mi_AudioStreams = 0, mi_SubtitleStreams = 0\<rparr>"

text \<open>\<open>decode\<close> is \<open>json.Unmarshal\<close> into \<open>ffprobeOut\<close>, with the error text on the left.\<close>

definition Probe ::
  "AdapterConfig \<Rightarrow> runner_output \<Rightarrow> (string \<Rightarrow> string + ffprobeOut) \<Rightarrow> (string \<Rightarrow> real option) \<Rightarrow> string \<Rightarrow>
   eng_err + MediaInfo" where
  "Probe cfg output decode parse_float inputPath =
     (let (stdout, stderr, err) = output (ac_FFprobePath cfg)
        [''-hide_banner'', ''-v'', ''error'', ''-print_format'', ''json'', ''-show_format'', ''-show_streams'', inputPath]
      in case err of
           Some e \<Rightarrow> Inl (EngError StageDecode (''ffprobe failed: '' @ e @ '': '' @ firstLine stderr))
         | None \<Rightarrow>
             (case decode stdout of
                Inl e \<Rightarrow> Inl (EngError StageDecode (''ffprobe output parse: '' @ e))
              | Inr out \<Rightarrow>
                  (let mi = fold add_stream (ff_Streams out) (format_info parse_float out) in
                   if mi_VideoStreams mi = 0 then Inl (EngError StageAsset ''source has no video stream'')
                   else Inr mi)))"

definition classifyFailure :: "string \<Rightarrow> string \<Rightarrow> eng_err" where
  "classifyFailure stderr waitErr =
     (let text = to_lower stderr; msg = ''ffmpeg exited: '' @ waitErr @ '': '' @ firstNonEmptyTail stderr in
      if contains_sub ''no such file or directory'' text \<or>
         contains_sub ''invalid data found when processing input'' text \<or>
         contains_sub ''moov atom not found'' text \<or> contains_sub ''permission denied'' text
      then EngError StageAsset msg
      else if contains_sub ''error while decoding'' text \<or> contains_sub ''decoder'' text \<or>
              contains_sub ''could not find codec parameters'' text
      then EngError StageDecode msg
      else EngError StageEncode msg)"

text \<open>\<open>%q\<close> on text without characters to escape.\<close>

definition quoted :: "string \<Rightarrow> string" where
  "quoted s = CHR 0x22 # s @ [CHR 0x22]"

fun args_err_text :: "args_err \<Rightarrow> string" where
  "args_err_text (UnsupportedCodec c) = ''unsupported video codec '' @ quoted c"
| "args_err_text (UnsupportedMode c) = ''unsupported rate control mode '' @ quoted c"
| "args_err_text (UnsupportedContainer c) = ''unsupported container '' @ quoted c"

text \<open>A started process: its output lines with their times, the error of reading them, and its end.\<close>

record process =
  px_lines :: "(int \<times> string) list"
  px_scan_err :: "string option"
  px_stderr :: string
  px_wait_err :: "string option"
  px_files :: "string list"

definition progress_of :: "OutputSpec \<Rightarrow> ProgressSample \<Rightarrow> Progress" where
  "progress_of out s =
     (let (pct, eta) = DeriveProgress s (os_SourceDurationSeconds out) in
      \<lparr>pr_RungName = os_RungName out, pr_FPS = ps_FPS s, pr_SpeedX = ps_SpeedX s,
       pr_OutTimeSeconds = ps_OutTimeSeconds s, pr_ProgressPct = pct, pr_ETASeconds = eta\<rparr>)"

definition Transcode ::
  "(string list \<Rightarrow> string + process) \<Rightarrow> (string \<Rightarrow> real option) \<Rightarrow> bool \<Rightarrow> string \<Rightarrow> OutputSpec \<Rightarrow> transcode_run" where
  "Transcode start parse_float ctx_done inputPath out =
     (case buildTranscodeArgs inputPath out of
        Inl e \<Rightarrow> \<lparr>tr_samples = [], tr_err = Some (EngError StageEncode (args_err_text e)), tr_files = []\<rparr>
      | Inr (args, _) \<Rightarrow>
          (case start args of
             Inl e \<Rightarrow> \<lparr>tr_samples = [], tr_err = Some (EngError StageEncode (''start ffmpeg: '' @ e)), tr_files = []\<rparr>
           | Inr proc \<Rightarrow>
               \<lparr>tr_samples = map (\<lambda>(t, s). (t, progress_of out s)) (ScanProgress parse_float zero_parser (px_lines proc)),
                tr_err =
                  (if ctx_done then Some (OtherError ''context canceled'')
                   else case px_wait_err proc of
                     Some e \<Rightarrow> Some (classifyFailure (px_stderr proc) e)
                   | None \<Rightarrow>
                       (case px_scan_err proc of
                          Some e \<Rightarrow> Some (EngError StageEncode (''progress stream: '' @ e))
                        | None \<Rightarrow> None)),
                tr_files = px_files proc\<rparr>))"

section \<open>The adapter meets the codec interface\<close>

text \<open>
  What the job runner relies on: a typed engine error names one of the three declared stages.
  The runner's liveness is proved once under this contract.
\<close>

locale transcode_engine =
  fixes eng :: "OutputSpec \<Rightarrow> transcode_run"
  assumes stages: "tr_err (eng spec) = Some (EngError st m) \<Longrightarrow> st \<in> {StageAsset, StageDecode, StageEncode}"
begin

lemma class_valid: "tr_err (eng spec) = Some e \<Longrightarrow> ValidErrorClass (class_of e)"
  using stages [of spec] by (cases e) (auto simp: class_of_def ErrorClass_of_string_def)

lemmas outcome = runJob_outcome [of eng, OF class_valid]

end

lemma classifyFailure_stage: "classifyFailure se we = EngError st m \<Longrightarrow> st \<in> {StageAsset, StageDecode, StageEncode}"
  by (auto simp: classifyFailure_def Let_def split: if_splits)

interpretation ffmpeg: transcode_engine "Transcode start parse_float ctx_done inputPath"
  by unfold_locales
    (auto simp: Transcode_def dest: classifyFailure_stage split: sum.splits prod.splits option.splits if_splits)

section \<open>Facts about the text helpers\<close>

lemma fields_acc_no_space:
  "tok \<in> set (fields_acc cur s) \<Longrightarrow> list_all (\<lambda>c. \<not> is_space c) cur \<Longrightarrow> list_all (\<lambda>c. \<not> is_space c) tok"
proof (induction cur s rule: fields_acc.induct)
  case (1 cur)
  then show ?case by (simp add: list_all_rev split: if_splits)
next
  case (2 cur c cs)
  then show ?case by (cases "is_space c"; cases "cur = []") (auto simp: list_all_rev)
qed

lemma trim_space_id: "list_all (\<lambda>c. \<not> is_space c) s \<Longrightarrow> trim_space s = s"
proof -
  have d: "dropWhile is_space s = s" if "list_all (\<lambda>c. \<not> is_space c) s" for s
    using that by (cases s) auto
  assume "list_all (\<lambda>c. \<not> is_space c) s"
  then show ?thesis using d [of s] d [of "rev s"] by (simp add: trim_space_def list_all_rev)
qed

lemma trim_fields: "map trim_space (Fields s) = Fields s"
  unfolding Fields_def by (intro map_idI trim_space_id) (erule fields_acc_no_space, simp)

definition tokens :: "string \<Rightarrow> string list" where
  "tokens output = concat (map Fields (split_on CHR 0x0A output))"

lemma CheckBuildconf_None: "CheckBuildconf output = None \<longleftrightarrow> set forbiddenFlags \<inter> set (tokens output) = {}"
proof -
  have "map trim_space (tokens output) = tokens output"
    unfolding tokens_def map_concat by (simp add: comp_def trim_fields)
  then show ?thesis
    unfolding CheckBuildconf_def tokens_def [symmetric] by (auto simp: find_None_iff)
qed

lemma cut_back_le: "cut_back s n \<le> n"
  by (induction n) auto

lemma cut_back_start: "cut_back s n = 0 \<or> RuneStart (s ! cut_back s n)"
  by (induction n) auto

lemma cut_back_greatest: "cut_back s n < k \<Longrightarrow> k \<le> n \<Longrightarrow> \<not> RuneStart (s ! k)"
  by (induction n) (auto simp: le_Suc_eq split: if_splits)

lemma DeriveProgress_bounds:
  assumes "DeriveProgress s d = (pct, eta)"
  shows "0 \<le> pct \<and> pct \<le> 100 \<and> 0 \<le> eta"
  using assms by (auto simp: DeriveProgress_def Let_def split: if_splits)

lemma progress_of_pct: "0 \<le> pr_ProgressPct (progress_of out s) \<and> pr_ProgressPct (progress_of out s) \<le> 100"
  using DeriveProgress_bounds [of s "os_SourceDurationSeconds out"]
  by (cases "DeriveProgress s (os_SourceDurationSeconds out)") (simp add: progress_of_def)

lemma Transcode_pct:
  assumes "(t, p) \<in> set (tr_samples (Transcode start parse_float ctx_done inputPath out))"
  shows "0 \<le> pr_ProgressPct p \<and> pr_ProgressPct p \<le> 100"
  using assms progress_of_pct [of out]
  by (auto simp: Transcode_def split: sum.splits prod.splits)

text \<open>The overall percentage of a job from the percentage of one rung.\<close>

lemma job_pct_bounds:
  assumes "i < n" "0 \<le> p" "p \<le> 100"
  shows "0 \<le> (real i * 100 + p) / real n \<and> (real i * 100 + p) / real n \<le> 100"
proof -
  have "real i + 1 \<le> real n" using assms(1) by linarith
  then have "real i * 100 + p \<le> 100 * real n" using assms(3) by linarith
  then show ?thesis using assms by (simp add: divide_le_eq)
qed

section \<open>Properties\<close>

text \<open>
  With the FFmpeg adapter as its engine the runner brings every attempt to an end, whatever
  ffmpeg prints and however it exits: no hypothesis on the engine is left.
\<close>

theorem ffmpeg_runner_settles:
  assumes "store_wf w" "healthy w" "\<not> stopping w" "list_all no_shutdown (arrivals w)"
    and "ClaimNextQueued w = (Inr j, w')"
  shows "attempt_over (j_ID j) (j_Attempts j)
      (snd (runJob cfg (Transcode start parse_float ctx_done inputPath) show_err rnd j w')) \<and>
    (list_all (no_retry (j_ID j)) (arrivals w) \<longrightarrow> settled (j_ID j)
      (snd (runJob cfg (Transcode start parse_float ctx_done inputPath) show_err rnd j w')))"
  by (rule ffmpeg.outcome) (use assms in \<open>simp_all add: store_wf_def unique_keys_def\<close>)

theorem ffmpeg_runner_settles_witness:
  "settled ''j'' (snd (runJob ex_sched (Transcode (\<lambda>_. Inl ''no binary'') (\<lambda>_. None) False ''/tmp/source'')
     (\<lambda>_. []) [] (claim_set 7 ex_row) (ex_running\<lparr>arrivals := []\<rparr>)))"
proof -
  have id: "j_ID (claim_set 7 ex_row) = ''j''" by (simp add: claim_set_def ex_row_def)
  show ?thesis
    using ffmpeg_runner_settles [OF ex_claim(2-4) [of "[]"] _ ex_claim(1)] unfolding id by simp
qed

text \<open>
  The file ffmpeg is told to write is the file the scheduler records. For every rung of a
  valid preset the argument vector is built without error, its last element is the artifact in
  the staging directory, and of the stored keys \<open>primaryArtifact\<close> picks the key of exactly
  that file.
\<close>

theorem artifact_is_recorded:
  assumes "Validate preset = None" "r \<in> set (p_Ladder preset)"
    and spec_def: "spec = output_spec cfg rnd j preset src r"
  shows "\<exists>args file. buildTranscodeArgs input spec = Inr (args, join_path (os_DestDir spec) file) \<and>
    last args = join_path (os_DestDir spec) file \<and>
    (\<forall>keys prefix. prefix @ ''/'' @ file \<in> set keys \<longrightarrow>
       primaryArtifact keys prefix (p_Container preset) (r_Name r) = prefix @ ''/'' @ file)"
proof -
  have ok: "ValidContainer (p_Container preset)" "ValidVideoCodec (p_VideoCodec preset)"
    "ValidRateControlMode (p_RateControl preset)"
    using assms(1) rate_ok_valid_mode by (auto simp: Validate_accepts_iff preset_ok_def)
  have enc: "\<exists>e. encoderFor (os_VideoCodec spec) = Some e"
    using ok(2) by (cases "p_VideoCodec preset") (simp_all add: spec_def output_spec_def encoderFor_def)
  have rate: "\<exists>a. rate_args (os_RateControl spec) = Inr a"
    using ok(3) by (cases "p_RateControl preset") (simp_all add: spec_def output_spec_def rate_args_def Let_def)
  have cont: "\<exists>pre file. container_args spec =
        Inr (pre @ [join_path (os_DestDir spec) file], join_path (os_DestDir spec) file) \<and>
      (\<forall>keys prefix. prefix @ ''/'' @ file \<in> set keys \<longrightarrow>
        primaryArtifact keys prefix (p_Container preset) (r_Name r) = prefix @ ''/'' @ file)"
    using ok(1)
    by (cases "p_Container preset")
      (auto simp: spec_def output_spec_def container_args_def primaryArtifact_def Let_def)
  from enc rate cont show ?thesis
    by (auto simp: buildTranscodeArgs_def)
qed

theorem artifact_is_recorded_witness:
  "\<exists>args file. buildTranscodeArgs ''/tmp/in''
      (output_spec ex_sched ''x'' ex_row ex_ladder_preset ex_source \<lparr>r_Name = ''720p'', r_Width = 1280, r_Height = 720\<rparr>)
    = Inr (args, join_path ''/tmp/job-j-x'' file)"
proof -
  have "Validate ex_ladder_preset = None" by code_simp
  moreover have "\<lparr>r_Name = ''720p'', r_Width = 1280, r_Height = 720\<rparr> \<in> set (p_Ladder ex_ladder_preset)"
    by (simp add: ex_ladder_preset_def)
  ultimately show ?thesis
    using artifact_is_recorded [OF _ _ refl, of ex_ladder_preset _ "''/tmp/in''" ex_sched "''x''" ex_row ex_source]
    by (fastforce simp: output_spec_def ex_sched_def ex_row_def)
qed

text \<open>
  The licence gate is exact: with its binaries configured and the command succeeding, the
  adapter is constructed exactly when neither forbidden flag is a token of what ffmpeg printed
  on either stream.
\<close>

theorem licence_gate_exact:
  assumes "output (ac_FFmpegPath cfg) [''-hide_banner'', ''-buildconf''] = (stdout, stderr, None)"
    and "ac_FFmpegPath cfg \<noteq> []" "ac_FFprobePath cfg \<noteq> []"
  shows "NewAdapter cfg output = Inr cfg \<longleftrightarrow>
    ''--enable-gpl'' \<notin> set (tokens (stdout @ [CHR 0x0A] @ stderr)) \<and>
    ''--enable-nonfree'' \<notin> set (tokens (stdout @ [CHR 0x0A] @ stderr))"
  using assms CheckBuildconf_None [of "stdout @ [CHR 0x0A] @ stderr"]
  by (auto simp: NewAdapter_def verifyBuild_def forbiddenFlags_def split: option.splits)

theorem licence_gate_exact_witness:
  "NewAdapter \<lparr>ac_FFmpegPath = ''ffmpeg'', ac_FFprobePath = ''ffprobe''\<rparr> (\<lambda>_ _. (''--enable-gplv3'', [], None))
     = Inr \<lparr>ac_FFmpegPath = ''ffmpeg'', ac_FFprobePath = ''ffprobe''\<rparr>"
proof -
  have "''--enable-gpl'' \<notin> set (tokens (''--enable-gplv3'' @ [CHR 0x0A] @ [])) \<and>
      ''--enable-nonfree'' \<notin> set (tokens (''--enable-gplv3'' @ [CHR 0x0A] @ []))" by code_simp
  then show ?thesis
    using licence_gate_exact [of "\<lambda>_ _. (''--enable-gplv3'', [], None)"
        "\<lparr>ac_FFmpegPath = ''ffmpeg'', ac_FFprobePath = ''ffprobe''\<rparr>" "''--enable-gplv3''" "[]"] by simp
qed

text \<open>
  Reported progress stays within 0 and 100 percent, for the rung and for the job: every
  sample the adapter hands to the runner, and the overall percentage the runner derives from it
  for rung \<open>i\<close> of \<open>n\<close>.
\<close>

theorem progress_in_range:
  assumes "(t, p) \<in> set (tr_samples (Transcode start parse_float ctx_done inputPath out))" "i < n"
  shows "0 \<le> pr_ProgressPct p \<and> pr_ProgressPct p \<le> 100 \<and>
    0 \<le> (real i * 100 + pr_ProgressPct p) / real n \<and> (real i * 100 + pr_ProgressPct p) / real n \<le> 100"
  using Transcode_pct [OF assms(1)] job_pct_bounds [OF assms(2)] by blast

definition ex_process :: process where
  "ex_process = \<lparr>px_lines = [(3, ''progress=end'')], px_scan_err = None, px_stderr = [], px_wait_err = None, px_files = []\<rparr>"

definition ex_spec :: OutputSpec where
  "ex_spec = output_spec ex_sched ''x'' ex_row ex_ladder_preset ex_source \<lparr>r_Name = ''720p'', r_Width = 1280, r_Height = 720\<rparr>"

theorem progress_in_range_witness:
  "pr_ProgressPct (progress_of ex_spec (zero_sample\<lparr>ps_End := True\<rparr>)) \<le> 100 \<and>
   (real 1 * 100 + pr_ProgressPct (progress_of ex_spec (zero_sample\<lparr>ps_End := True\<rparr>))) / real 2 \<le> 100"
proof -
  have f: "Feed (\<lambda>_. None) ''progress=end'' zero_parser = (Some (zero_sample\<lparr>ps_End := True\<rparr>), zero_parser)"
    by (simp add: Feed_def trim_space_def is_space_def between_def cut_def zero_parser_def Let_def)
  have "(3, progress_of ex_spec (zero_sample\<lparr>ps_End := True\<rparr>)) \<in>
      set (tr_samples (Transcode (\<lambda>_. Inr ex_process) (\<lambda>_. None) False ''/tmp/source'' ex_spec))"
    by (simp add: Transcode_def ex_process_def f ex_spec_def output_spec_def ex_ladder_preset_def
        buildTranscodeArgs_def encoderFor_def rate_args_def container_args_def Let_def)
  from progress_in_range [OF this, of 1 2] show ?thesis by simp
qed

text \<open>
  \<open>truncateRuneSafe\<close> returns a prefix of at most \<open>max\<close> bytes, the longest that does not
  cut a UTF-8 sequence: what follows the prefix starts a rune, and no longer prefix within the
  limit has that property.
\<close>

theorem truncate_rune_safe:
  assumes "m < length s"
  shows "\<exists>k \<le> m. truncateRuneSafe s m = take k s \<and> (k = 0 \<or> RuneStart (s ! k)) \<and>
    (\<forall>k'. k < k' \<and> k' \<le> m \<longrightarrow> \<not> RuneStart (s ! k'))"
  using assms cut_back_le [of s m] cut_back_start [of s m] cut_back_greatest [of s m]
  by (intro exI [of _ "cut_back s m"]) (auto simp: truncateRuneSafe_def)

theorem truncate_rune_safe_witness:
  "\<exists>k \<le> 2. truncateRuneSafe [CHR ''a'', CHR 0xC3, CHR 0xA9, CHR ''b''] 2 = take k [CHR ''a'', CHR 0xC3, CHR 0xA9, CHR ''b'']"
  using truncate_rune_safe [of 2 "[CHR ''a'', CHR 0xC3, CHR 0xA9, CHR ''b'']"] by auto

text \<open>
  A source that ffprobe cannot read at all is retried, not terminated: the adapter reports
  every ffprobe failure as a decode error, and the consumer terminates asset errors only.
\<close>

theorem unreadable_source_is_retried:
  assumes "ParseUploadLanded uuid_ok data = Inr ev"
    and "output (ac_FFprobePath acfg) [''-hide_banner'', ''-v'', ''error'', ''-print_format'', ''json'',
      ''-show_format'', ''-show_streams'', path (le_ObjectKey ev)] = (stdout, stderr, Some err)"
  shows "fst (handle cfg uuid_ok (\<lambda>key. Probe acfg output decode parse_float (path key)) data w)
    \<in> {NakWithDelay 10, NakWithDelay 30}"
  using assms
  by (auto simp: handle_def Probe_def and_then_result ret_def split: sum.splits)

theorem unreadable_source_is_retried_witness:
  "fst (handle ex_consumer (\<lambda>_. True) (\<lambda>key. Probe \<lparr>ac_FFmpegPath = ''ffmpeg'', ac_FFprobePath = ''ffprobe''\<rparr>
       (\<lambda>_ _. ([], ''moov atom not found'', Some ''exit status 1'')) (\<lambda>_. Inl []) (\<lambda>_. None) (''/tmp/'' @ key))
     (JsonValue ex_landed []) ex_start) \<in> {NakWithDelay 10, NakWithDelay 30}"
proof -
  have "ParseUploadLanded (\<lambda>_. True) (JsonValue ex_landed []) = Inr ex_landed" by code_simp
  then show ?thesis
    by (rule unreadable_source_is_retried [where path = "\<lambda>key. ''/tmp/'' @ key"]) simp
qed

end
