(* ===== verification/TenOidc.thy ===== *)
theory TenOidc
  imports TenSessions "HOL-Library.AList"
begin

text \<open>
  The OpenID Connect client, \<open>services/tenancy/oidc.go\<close>: discovery, the authorisation redirect with
  PKCE, the code exchange, the key cache and the verification of ID tokens, and the sign-in
  callback composed with it. Replies of the provider are inputs; the JWT library, SHA-256 and the
  form encoder are parameters.
\<close>

section \<open>The provider's replies\<close>

datatype 'a http_reply = NoReply | Reply int "'a option"

record discoveryDoc =
  dd_Issuer :: string
  dd_AuthorizationEndpoint :: string
  dd_TokenEndpoint :: string
  dd_JWKSURI :: string

record jwk =
  jk_Kty :: string
  jk_Kid :: string
  jk_N :: string
  jk_E :: string

record rsaKey =
  rk_N :: nat
  rk_E :: int

record idTokenClaims =
  ic_Subject :: string
  ic_Nonce :: string
  ic_Email :: string
  ic_EmailVerified :: bool
  ic_Name :: string

datatype oidc_err = OidcRequest | OidcStatus int | OidcDecode | OidcIssuer | OidcEndpoints | OidcNoToken | OidcModulus string
| OidcExponent string | OidcExponentRange string | OidcNoKeys | OidcKid string | OidcToken | OidcNonce | OidcSub | OidcEmail

section \<open>The client\<close>

record OIDCClient =
  oc_issuer :: string
  oc_clientID :: string
  oc_clientSecret :: string
  oc_redirectURL :: string
  oc_authorizationEndpoint :: string
  oc_tokenEndpoint :: string
  oc_jwksURI :: string
  oc_keys :: "(string \<times> rsaKey) list"
  oc_keysFetched :: int

definition jwksMaxAge :: int where
  "jwksMaxAge = 3600 * 1000000000"

definition trim_slash :: "string \<Rightarrow> string" where
  "trim_slash s = (if has_suffix ''/'' s then butlast s else s)"

definition reply_value :: "'a http_reply \<Rightarrow> oidc_err + 'a" where
  "reply_value r =
     (case r of
        NoReply \<Rightarrow> Inl OidcRequest
      | Reply code body \<Rightarrow>
          if code \<noteq> 200 then Inl (OidcStatus code)
          else case body of None \<Rightarrow> Inl OidcDecode | Some v \<Rightarrow> Inr v)"

definition NewOIDCClient :: "discoveryDoc http_reply \<Rightarrow> string \<Rightarrow> string \<Rightarrow> string \<Rightarrow> string \<Rightarrow> oidc_err + OIDCClient" where
  "NewOIDCClient r issuer clientID clientSecret redirectURL =
     (case reply_value r of
        Inl e \<Rightarrow> Inl e
      | Inr doc \<Rightarrow>
          if dd_Issuer doc \<noteq> trim_slash issuer \<and> dd_Issuer doc \<noteq> issuer then Inl OidcIssuer
          else if dd_AuthorizationEndpoint doc = [] \<or> dd_TokenEndpoint doc = [] \<or> dd_JWKSURI doc = [] then Inl OidcEndpoints
          else Inr \<lparr>oc_issuer = dd_Issuer doc, oc_clientID = clientID, oc_clientSecret = clientSecret, oc_redirectURL = redirectURL,
                    oc_authorizationEndpoint = dd_AuthorizationEndpoint doc, oc_tokenEndpoint = dd_TokenEndpoint doc,
                    oc_jwksURI = dd_JWKSURI doc, oc_keys = [], oc_keysFetched = 0\<rparr>)"

text \<open>\<open>encode\<close> is \<open>url.Values.Encode\<close>, \<open>sha\<close> the bytes of SHA-256.\<close>

definition AuthCodeURL ::
  "(string \<Rightarrow> string) \<Rightarrow> ((string \<times> string) list \<Rightarrow> string) \<Rightarrow> OIDCClient \<Rightarrow> string \<Rightarrow> string \<Rightarrow> string \<Rightarrow> string" where
  "AuthCodeURL sha encode c state nonce pkceVerifier =
     (let q = [(''response_type'', ''code''), (''client_id'', oc_clientID c), (''redirect_uri'', oc_redirectURL c),
               (''scope'', ''openid email profile''), (''state'', state), (''nonce'', nonce),
               (''code_challenge'', EncodeToString url_alphabet (sha pkceVerifier)), (''code_challenge_method'', ''S256'')];
          sep = (if CHR ''?'' \<in> set (oc_authorizationEndpoint c) then ''&'' else ''?'')
      in oc_authorizationEndpoint c @ sep @ encode q)"

text \<open>\<open>post\<close> is the token endpoint: the form goes in, the decoded \<open>id_token\<close> comes out.\<close>

definition exchange_form :: "OIDCClient \<Rightarrow> string \<Rightarrow> string \<Rightarrow> (string \<times> string) list" where
  "exchange_form c code pkceVerifier =
     [(''grant_type'', ''authorization_code''), (''code'', code), (''client_id'', oc_clientID c),
      (''client_secret'', oc_clientSecret c), (''redirect_uri'', oc_redirectURL c), (''code_verifier'', pkceVerifier)]"

definition Exchange :: "((string \<times> string) list \<Rightarrow> string http_reply) \<Rightarrow> OIDCClient \<Rightarrow> string \<Rightarrow> string \<Rightarrow> oidc_err + string" where
  "Exchange post c code pkceVerifier =
     (case reply_value (post (exchange_form c code pkceVerifier)) of
        Inl e \<Rightarrow> Inl e
      | Inr tok \<Rightarrow> if tok = [] then Inl OidcNoToken else Inr tok)"

section \<open>Keys\<close>

definition big_endian :: "string \<Rightarrow> nat" where
  "big_endian bs = foldl (\<lambda>n c. 256 * n + of_char c) 0 bs"

fun jwks_keys :: "jwk list \<Rightarrow> (string \<times> rsaKey) list \<Rightarrow> oidc_err + (string \<times> rsaKey) list" where
  "jwks_keys [] ks = Inr ks"
| "jwks_keys (k # rest) ks =
     (if jk_Kty k \<noteq> ''RSA'' \<or> jk_Kid k = [] then jwks_keys rest ks
      else case DecodeString url_alphabet (jk_N k) of
        None \<Rightarrow> Inl (OidcModulus (jk_Kid k))
      | Some nBytes \<Rightarrow>
          (case DecodeString url_alphabet (jk_E k) of
             None \<Rightarrow> Inl (OidcExponent (jk_Kid k))
           | Some eBytes \<Rightarrow>
               (let e = int (big_endian eBytes) in
                if \<not> in_i64 e \<or> e \<le> 1 \<or> e > 2 ^ 31 then Inl (OidcExponentRange (jk_Kid k))
                else jwks_keys rest (AList.update (jk_Kid k) \<lparr>rk_N = big_endian nBytes, rk_E = e\<rparr> ks))))"

definition fetchJWKS :: "jwk list http_reply \<Rightarrow> int \<Rightarrow> OIDCClient \<Rightarrow> oidc_err option \<times> OIDCClient" where
  "fetchJWKS r wall c =
     (case reply_value r of
        Inl e \<Rightarrow> (Some e, c)
      | Inr doc \<Rightarrow>
          (case jwks_keys doc [] of
             Inl e \<Rightarrow> (Some e, c)
           | Inr ks \<Rightarrow> if ks = [] then (Some OidcNoKeys, c) else (None, c\<lparr>oc_keys := ks, oc_keysFetched := wall\<rparr>)))"

definition refetched_key :: "jwk list http_reply \<Rightarrow> int \<Rightarrow> string \<Rightarrow> OIDCClient \<Rightarrow> (oidc_err + rsaKey) \<times> OIDCClient" where
  "refetched_key r wall kid c =
     (case fetchJWKS r wall c of
        (Some e, c1) \<Rightarrow> (Inl e, c1)
      | (None, c1) \<Rightarrow> (case map_of (oc_keys c1) kid of None \<Rightarrow> (Inl (OidcKid kid), c1) | Some key \<Rightarrow> (Inr key, c1)))"

definition keyForKid :: "jwk list http_reply \<Rightarrow> int \<Rightarrow> string \<Rightarrow> OIDCClient \<Rightarrow> (oidc_err + rsaKey) \<times> OIDCClient" where
  "keyForKid r wall kid c =
     (let stale = wall - oc_keysFetched c > jwksMaxAge in
      case map_of (oc_keys c) kid of
        Some key \<Rightarrow> if \<not> stale then (Inr key, c) else refetched_key r wall kid c
      | None \<Rightarrow> refetched_key r wall kid c)"

section \<open>ID tokens\<close>

text \<open>
  The JWT library. \<open>header_of\<close> reads algorithm and key id of a well-formed token (a missing id is
  empty); \<open>rs256 key issuer audience now token\<close> are the claims of a token whose signature the key
  verifies, which has not expired and which names issuer and audience.
\<close>

record id_token_lib =
  header_of :: "string \<Rightarrow> (string \<times> string) option"
  rs256 :: "rsaKey \<Rightarrow> string \<Rightarrow> string \<Rightarrow> int \<Rightarrow> string \<Rightarrow> idTokenClaims option"

definition check_id_claims :: "string \<Rightarrow> idTokenClaims \<Rightarrow> oidc_err + OIDCVerifiedIdentity" where
  "check_id_claims expectedNonce cl =
     (if ic_Nonce cl = [] \<or> ic_Nonce cl \<noteq> expectedNonce then Inl OidcNonce
      else if ic_Subject cl = [] then Inl OidcSub
      else if ic_Email cl = [] \<or> \<not> ic_EmailVerified cl then Inl OidcEmail
      else Inr \<lparr>oi_Subject = ic_Subject cl, oi_Email = ic_Email cl, oi_Name = (if ic_Name cl = [] then ic_Email cl else ic_Name cl)\<rparr>)"

definition VerifyIDToken ::
  "id_token_lib \<Rightarrow> jwk list http_reply \<Rightarrow> int \<Rightarrow> string \<Rightarrow> string \<Rightarrow> int \<Rightarrow> OIDCClient \<Rightarrow> (oidc_err + OIDCVerifiedIdentity) \<times> OIDCClient" where
  "VerifyIDToken lib r wall token expectedNonce now c =
     (case header_of lib token of
        None \<Rightarrow> (Inl OidcToken, c)
      | Some (alg, kid) \<Rightarrow>
          if alg \<noteq> ''RS256'' then (Inl OidcToken, c)
          else case keyForKid r wall kid c of
            (Inl e, c1) \<Rightarrow> (Inl e, c1)
          | (Inr key, c1) \<Rightarrow>
              (case rs256 lib key (oc_issuer c) (oc_clientID c) now token of
                 None \<Rightarrow> (Inl OidcToken, c1)
               | Some cl \<Rightarrow> (check_id_claims expectedNonce cl, c1)))"

text \<open>What the callback of the sign-in flow sees of the client, and what it leaves in its cache.\<close>

record provider_net =
  pn_post :: "(string \<times> string) list \<Rightarrow> string http_reply"
  pn_jwks :: "jwk list http_reply"
  pn_wall :: int

definition oidc_answer :: "id_token_lib \<Rightarrow> provider_net \<Rightarrow> OIDCClient \<Rightarrow> provider" where
  "oidc_answer lib net c code verifier nonce now =
     (case Exchange (pn_post net) c code verifier of
        Inl _ \<Rightarrow> ExchangeFailed
      | Inr token \<Rightarrow>
          (case fst (VerifyIDToken lib (pn_jwks net) (pn_wall net) token nonce now c) of
             Inl _ \<Rightarrow> TokenInvalid
           | Inr v \<Rightarrow> Verified v))"

section \<open>The key cache\<close>

text \<open>
  \<open>cached served c\<close>: the keys in the cache are those of a document that the key endpoint served at
  the time noted. \<open>served\<close> records the documents received with their times.
\<close>

definition cached :: "(int \<times> jwk list) list \<Rightarrow> OIDCClient \<Rightarrow> bool" where
  "cached served c \<longleftrightarrow> oc_keys c = [] \<or> (\<exists>doc. (oc_keysFetched c, doc) \<in> set served \<and> jwks_keys doc [] = Inr (oc_keys c))"

definition serve_doc :: "jwk list http_reply \<Rightarrow> int \<Rightarrow> (int \<times> jwk list) list" where
  "serve_doc r wall = (case reply_value r of Inl _ \<Rightarrow> [] | Inr doc \<Rightarrow> [(wall, doc)])"

lemma fetchJWKS_cached:
  assumes "cached served c" "fetchJWKS r wall c = (e, c')"
  shows "cached (served @ serve_doc r wall) c'" "e = None \<Longrightarrow> oc_keysFetched c' = wall"
  using assms by (auto simp: fetchJWKS_def cached_def serve_doc_def split: sum.splits if_splits)

lemma cached_more: "cached served c \<Longrightarrow> cached (served @ newer) c"
  by (auto simp: cached_def)

text \<open>A key that is used comes from a document served at most an hour ago.\<close>

lemma keyForKid_fresh:
  assumes "cached served c" "keyForKid r wall kid c = (x, c')"
  shows "cached (served @ serve_doc r wall) c'"
    and "x = Inr key \<Longrightarrow> \<exists>t doc ks. (t, doc) \<in> set (served @ serve_doc r wall) \<and> wall - t \<le> jwksMaxAge \<and>
      jwks_keys doc [] = Inr ks \<and> map_of ks kid = Some key"
proof -
  have re: "cached (served @ serve_doc r wall) c' \<and> (\<forall>key. x = Inr key \<longrightarrow>
      oc_keysFetched c' = wall \<and> map_of (oc_keys c') kid = Some key)" if "refetched_key r wall kid c = (x, c')"
    using that fetchJWKS_cached [OF assms(1)] by (auto simp: refetched_key_def split: prod.splits option.splits)
  show "cached (served @ serve_doc r wall) c'"
    using assms(2) re cached_more [OF assms(1)] by (auto simp: keyForKid_def Let_def split: option.splits if_splits)
  have "map_of (oc_keys c') kid = Some key \<and> wall - oc_keysFetched c' \<le> jwksMaxAge" if "x = Inr key"
    using assms(2) re that by (auto simp: keyForKid_def Let_def jwksMaxAge_def split: option.splits if_splits)
  then show "\<exists>t doc ks. (t, doc) \<in> set (served @ serve_doc r wall) \<and> wall - t \<le> jwksMaxAge \<and>
      jwks_keys doc [] = Inr ks \<and> map_of ks kid = Some key" if "x = Inr key"
    using that \<open>cached (served @ serve_doc r wall) c'\<close> unfolding cached_def by (auto simp: that)
qed

section \<open>The sign-in\<close>

lemma valid_any: "valid (\<lambda>_. True) f (\<lambda>_ _. True)"
  by (simp add: valid_def)

lemma upsert_identity:
  "valid (\<lambda>_. True) (UpsertUserByGoogleSub sub email name now)
     (\<lambda>r _. \<forall>u. r = Inr u \<longrightarrow> us_GoogleSub u = sub \<and> us_Email u = to_lower email)"
proof (rule validI)
  fix w r w'
  assume "UpsertUserByGoogleSub sub email name now w = (r, w')"
  then show "\<forall>u. r = Inr u \<longrightarrow> us_GoogleSub u = sub \<and> us_Email u = to_lower email"
    by (auto simp: UpsertUserByGoogleSub_def Let_def dest!: find_mem elim!: with_io_Inr split: prod.splits sum.splits option.splits if_splits)
qed

lemma session_user:
  "valid (\<lambda>_. True) (store_refresh sv user access raw fam now) (\<lambda>r _. \<forall>resp. r = Inr resp \<longrightarrow> sr_User resp = view_user user)"
  "valid (\<lambda>_. True) (issueSession sv user fam) (\<lambda>r _. \<forall>resp. r = Inr resp \<longrightarrow> sr_User resp = view_user user)"
proof -
  show store: "valid (\<lambda>_. True) (store_refresh sv user access raw fam now) (\<lambda>r _. \<forall>resp. r = Inr resp \<longrightarrow> sr_User resp = view_user user)"
    for access raw fam now
    unfolding store_refresh_def by (intro valid_and_then [OF valid_any] valid_sum_case valid_ret) simp_all
  show "valid (\<lambda>_. True) (issueSession sv user fam) (\<lambda>r _. \<forall>resp. r = Inr resp \<longrightarrow> sr_User resp = view_user user)"
    unfolding issueSession_def by (intro valid_at_clock valid_if valid_and_then [OF valid_any] valid_sum_case valid_ret store) simp_all
qed

definition greets :: "(User \<Rightarrow> bool) \<Rightarrow> ten_resp \<Rightarrow> bool" where
  "greets P r \<longleftrightarrow> (\<forall>c resp expiry. r = (c, TSession resp expiry) \<longrightarrow> (\<exists>u. P u \<and> sr_User resp = view_user u))"

lemma greets_err [simp]: "greets P (terr c s m)" "greets P internalError"
  by (simp_all add: greets_def internalError_def)

lemma open_session_greets: "P user \<Longrightarrow> valid (\<lambda>_. True) (open_user_session sv user fam now) (\<lambda>r _. greets P r)"
  unfolding open_user_session_def or_500_def
  by (rule valid_and_then [OF session_user(2)], rule valid_sum_case; rule valid_ret) (auto simp: greets_def internalError_def)

lemma sign_in_greets:
  "valid (\<lambda>_. True) (sign_in sv v now) (\<lambda>r _. greets (\<lambda>u. us_GoogleSub u = oi_Subject v \<and> us_Email u = to_lower (oi_Email v)) r)"
proof -
  let ?P = "\<lambda>u. us_GoogleSub u = oi_Subject v \<and> us_Email u = to_lower (oi_Email v)"
  have go: "valid (\<lambda>_. True) (if us_ActiveWorkspaceID u = [] then and_then (bootstrapWorkspace sv u)
      (or_500 (\<lambda>k. open_user_session sv (u\<lparr>us_ActiveWorkspaceID := ws_ID k\<rparr>) [] now)) else open_user_session sv u [] now) (\<lambda>r _. greets ?P r)"
    if "?P u" for u
    unfolding or_500_def using that
    by (intro valid_if valid_and_then [OF valid_any] valid_sum_case valid_ret open_session_greets) simp_all
  show ?thesis unfolding sign_in_def
  proof (rule valid_and_then [OF upsert_identity], goal_cases)
    case (1 r)
    show ?case
    proof (cases r)
      case (Inl e)
      then show ?thesis by (simp add: or_500_def valid_def ret_def)
    next
      case (Inr u)
      have "valid (\<lambda>w. ?P u \<and> True) (or_500 (\<lambda>user. if us_ActiveWorkspaceID user = [] then and_then (bootstrapWorkspace sv user)
          (or_500 (\<lambda>k. open_user_session sv (user\<lparr>us_ActiveWorkspaceID := ws_ID k\<rparr>) [] now)) else open_user_session sv user [] now) r)
          (\<lambda>r _. greets ?P r)"
        by (rule valid_const) (use go [of u] Inr in \<open>simp add: or_500_def [of _ "Inr u"]\<close>)
      then show ?thesis using Inr by simp
    qed
  qed
qed

text \<open>A sign-in leaves the pending login states alone.\<close>

definition same_logins :: "ten \<Rightarrow> ten \<Rightarrow> bool" where
  "same_logins w w' \<longleftrightarrow> t_logins w' = t_logins w"

interpretation logins: step_rel same_logins
  by unfold_locales (simp_all add: same_logins_def)

lemma logins_store:
  "keeps same_logins (UpsertUserByGoogleSub sub email name now)" "keeps same_logins (SetActiveWorkspace user wsid)"
  "keeps same_logins (CreateWorkspace k owner)" "keeps same_logins (GetMembership i j)" "keeps same_logins (CreateRefreshToken t)"
  "keeps same_logins (newOpaqueToken n)" "keeps same_logins (Mint lib key user wsid now ttl)"
proof -
  show "keeps same_logins (UpsertUserByGoogleSub sub email name now)" unfolding UpsertUserByGoogleSub_def [abs_def]
    by (rule logins.keeps_new_id_case, rule logins.keeps_with_io, rule keepsI) (auto simp: Let_def same_logins_def split: option.splits)
  show "keeps same_logins (SetActiveWorkspace user wsid)" unfolding SetActiveWorkspace_def
    by (rule logins.keeps_with_io, rule keepsI) (simp add: same_logins_def)
  show "keeps same_logins (CreateWorkspace k owner)" unfolding CreateWorkspace_def
    by (rule logins.keeps_with_io, rule keepsI) (auto simp: same_logins_def Let_def)
  show "keeps same_logins (GetMembership i j)" unfolding GetMembership_def
    by (rule logins.keeps_with_io, rule keepsI) (simp add: same_logins_def)
  show "keeps same_logins (CreateRefreshToken t)" unfolding CreateRefreshToken_def
    by (rule logins.keeps_with_io, rule keepsI) (auto simp: same_logins_def)
  have "keeps same_logins (rand_Read n)" for n by (rule keepsI) (simp add: rand_Read_def same_logins_def)
  then show "keeps same_logins (newOpaqueToken n)" unfolding newOpaqueToken_def by (intro logins.keeps_intros)
  show "keeps same_logins (Mint lib key user wsid now ttl)" unfolding Mint_def by (intro logins.keeps_intros)
qed

lemma logins_at_clock: "(\<And>c. keeps same_logins (f c)) \<Longrightarrow> keeps same_logins (at_clock f)"
  by (simp add: keeps_def at_clock_def)

lemma logins_sign_in: "keeps same_logins (sign_in sv v now)"
  unfolding sign_in_def bootstrapWorkspace_def open_user_session_def issueSession_def store_refresh_def new_family_def or_500_def Let_def
  by (intro logins.keeps_intros logins_store logins_at_clock)

text \<open>
  A token vouches for its claims if it is an RS256 token for this client and issuer whose key the
  issuer's key endpoint served at most an hour before.
\<close>

definition vouched :: "id_token_lib \<Rightarrow> OIDCClient \<Rightarrow> (int \<times> jwk list) list \<Rightarrow> int \<Rightarrow> int \<Rightarrow> string \<Rightarrow> idTokenClaims \<Rightarrow> bool" where
  "vouched lib c served wall now token cl \<longleftrightarrow>
     (\<exists>kid key t doc ks. header_of lib token = Some (''RS256'', kid) \<and> (t, doc) \<in> set served \<and> wall - t \<le> jwksMaxAge \<and>
        jwks_keys doc [] = Inr ks \<and> map_of ks kid = Some key \<and> rs256 lib key (oc_issuer c) (oc_clientID c) now token = Some cl)"

lemma check_id_claims_Inr:
  "check_id_claims nonce cl = Inr v \<Longrightarrow> ic_Nonce cl = nonce \<and> nonce \<noteq> [] \<and> ic_Subject cl \<noteq> [] \<and> ic_EmailVerified cl \<and> ic_Email cl \<noteq> [] \<and>
     oi_Subject v = ic_Subject cl \<and> oi_Email v = ic_Email cl"
  by (auto simp: check_id_claims_def split: if_splits)

lemma VerifyIDToken_vouched:
  assumes "cached served c" "VerifyIDToken lib r wall token nonce now c = (Inr v, c')"
  obtains cl where "vouched lib c (served @ serve_doc r wall) wall now token cl" "check_id_claims nonce cl = Inr v"
proof -
  obtain kid key c1 cl where v: "header_of lib token = Some (''RS256'', kid)" "keyForKid r wall kid c = (Inr key, c1)"
    "rs256 lib key (oc_issuer c) (oc_clientID c) now token = Some cl" "check_id_claims nonce cl = Inr v"
    using assms(2) by (auto simp: VerifyIDToken_def split: option.splits prod.splits sum.splits if_splits)
  from keyForKid_fresh(2) [OF assms(1) v(2) refl] v(1,3) have "vouched lib c (served @ serve_doc r wall) wall now token cl"
    unfolding vouched_def by blast
  then show thesis using v(4) by (rule that)
qed

lemma TakeLoginState_Inr:
  assumes "TakeLoginState st now w = (Inr ls, w')"
  shows "ls \<in> set (t_logins w) \<and> ls_State ls = st \<and> now \<le> ls_ExpiresAt ls \<and> \<not> has_key ls_State st (t_logins w')"
proof -
  let ?f = "\<lambda>w. (query_row (\<lambda>l. ls_State l = st) (t_logins w), w\<lparr>t_logins := delete_where (\<lambda>l. ls_State l = st) (t_logins w)\<rparr>)"
  have "with_io ?f w = (Inr ls, w')" and e: "now \<le> ls_ExpiresAt ls"
    using assms by (auto simp: TakeLoginState_def split: prod.splits sum.splits if_splits)
  then obtain w0 where w: "next_io w = (IoOk, w0)" "?f w0 = (Inr ls, w')" by (auto elim: with_io_Inr)
  have "t_logins w0 = t_logins w" using next_io_update [OF w(1)] by simp
  then show ?thesis using w(2) e by (auto simp: query_row_def has_key_def delete_where_def dest!: find_mem split: option.splits)
qed

lemma Verified_exchange:
  assumes "oidc_answer lib net c code verifier nonce now = Verified v"
  obtains token c' where "Exchange (pn_post net) c code verifier = Inr token"
    "VerifyIDToken lib (pn_jwks net) (pn_wall net) token nonce now c = (Inr v, c')"
  using assms by (cases "Exchange (pn_post net) c code verifier")
    (auto simp: oidc_answer_def fst_def split: sum.splits prod.splits)

text \<open>
  C34. A sign-in proves the identity. Whenever the callback opens a session, the state it was
  called with was a pending, unexpired login of this service and is no longer one; the code was
  exchanged with the verifier of that login for an ID token; the token carries the RS256 signature
  of a key that the issuer's key endpoint served at most an hour before, for this client and
  issuer, unexpired, with the nonce of that login and a verified address; and the session is the
  session of the user with the subject and the address of that token.
\<close>

theorem sign_in_proves_identity:
  assumes "cached served c" "handleCallback sv (oidc_answer lib net c) q w = ((code, TSession resp expiry), w')"
  shows "\<exists>ls token cl u. ls \<in> set (t_logins w) \<and> ls_State ls = cq_state q \<and> clock w \<le> ls_ExpiresAt ls \<and>
    \<not> has_key ls_State (cq_state q) (t_logins w') \<and>
    Exchange (pn_post net) c (cq_code q) (ls_PKCEVerifier ls) = Inr token \<and>
    vouched lib c (served @ serve_doc (pn_jwks net) (pn_wall net)) (pn_wall net) (clock w) token cl \<and>
    ic_Nonce cl = ls_Nonce ls \<and> ls_Nonce ls \<noteq> [] \<and> ic_EmailVerified cl \<and> ic_Subject cl \<noteq> [] \<and>
    us_GoogleSub u = ic_Subject cl \<and> us_Email u = to_lower (ic_Email cl) \<and> sr_User resp = view_user u"
proof -
  obtain x w1 where take: "TakeLoginState (cq_state q) (clock w) w = (x, w1)" by fastforce
  obtain ls v where ls: "x = Inr ls" "oidc_answer lib net c (cq_code q) (ls_PKCEVerifier ls) (ls_Nonce ls) (clock w) = Verified v"
    and go: "sign_in sv v (clock w) w1 = ((code, TSession resp expiry), w')"
    using assms(2) take by (auto simp: handleCallback_def at_clock_def and_then_def or_else_def internalError_def ret_def
        split: if_splits sum.splits provider_answer.splits)
  note login = TakeLoginState_Inr [OF take [unfolded ls(1)]]
  obtain token c' where t: "Exchange (pn_post net) c (cq_code q) (ls_PKCEVerifier ls) = Inr token"
    "VerifyIDToken lib (pn_jwks net) (pn_wall net) token (ls_Nonce ls) (clock w) c = (Inr v, c')"
    by (rule Verified_exchange [OF ls(2)])
  obtain cl where cl: "vouched lib c (served @ serve_doc (pn_jwks net) (pn_wall net)) (pn_wall net) (clock w) token cl"
    "check_id_claims (ls_Nonce ls) cl = Inr v" by (rule VerifyIDToken_vouched [OF assms(1) t(2)])
  obtain u where u: "us_GoogleSub u = oi_Subject v" "us_Email u = to_lower (oi_Email v)" "sr_User resp = view_user u"
    using validD [OF sign_in_greets TrueI go] by (auto simp: greets_def)
  have "t_logins w' = t_logins w1" using keepsD [OF logins_sign_in go] by (simp add: same_logins_def)
  with login t(1) cl(1) check_id_claims_Inr [OF cl(2)] u show ?thesis
    by (intro exI [of _ ls] exI [of _ token] exI [of _ cl] exI [of _ u]) simp
qed

definition ex_claims :: idTokenClaims where
  "ex_claims = \<lparr>ic_Subject = ''sub'', ic_Nonce = ''n'', ic_Email = ''a@b'', ic_EmailVerified = True, ic_Name = ''a''\<rparr>"

definition ex_id_lib :: id_token_lib where
  "ex_id_lib = \<lparr>header_of = (\<lambda>_. Some (''RS256'', ''k1'')), rs256 = (\<lambda>key iss aud now tok. if rk_E key = 3 \<and> iss = ''https://idp'' then Some ex_claims else None)\<rparr>"

definition ex_net :: provider_net where
  "ex_net = \<lparr>pn_post = (\<lambda>_. Reply 200 (Some ''idt'')), pn_jwks = Reply 200 (Some [\<lparr>jk_Kty = ''RSA'', jk_Kid = ''k1'', jk_N = ''Aw'', jk_E = ''Aw''\<rparr>]), pn_wall = 7\<rparr>"

definition ex_client :: OIDCClient where
  "ex_client = \<lparr>oc_issuer = ''https://idp'', oc_clientID = ''me'', oc_clientSecret = ''s'', oc_redirectURL = ''r'',
     oc_authorizationEndpoint = ''a'', oc_tokenEndpoint = ''t'', oc_jwksURI = ''j'', oc_keys = [], oc_keysFetched = 0\<rparr>"

definition ex_query :: callback_query where
  "ex_query = \<lparr>cq_error = [], cq_state = ''st'', cq_code = ''c''\<rparr>"

fun session_of :: "ten_resp \<Rightarrow> (sessionResponse \<times> int) option" where
  "session_of (c, TSession resp expiry) = Some (resp, expiry)"
| "session_of _ = None"

lemma session_of_Some: "session_of r = Some p \<Longrightarrow> r = (fst r, TSession (fst p) (snd p))"
  by (cases r rule: session_of.cases) auto

theorem sign_in_proves_identity_witness:
  "\<exists>cl. vouched ex_id_lib ex_client (serve_doc (pn_jwks ex_net) 7) 7 5 ''idt'' cl \<and> ic_Nonce cl = ''n'' \<and> ic_EmailVerified cl"
proof -
  let ?r = "handleCallback ex_ten_server (oidc_answer ex_id_lib ex_net ex_client) ex_query ex_signing_in"
  have "session_of (fst ?r) \<noteq> None" by code_simp
  then obtain p where "session_of (fst ?r) = Some p" by blast
  then have run: "?r = ((fst (fst ?r), TSession (fst p) (snd p)), snd ?r)" using session_of_Some by (metis prod.collapse)
  have "cached [] ex_client" by (simp add: cached_def ex_client_def)
  from sign_in_proves_identity [OF this run] show ?thesis
    by (auto simp: ex_signing_in_def ex_net_def Exchange_def reply_value_def)
qed

end
