(* ===== verification/TelHardware.thy ===== *)
theory TelHardware
  imports TelHub GoText
begin

text \<open>
  The hardware stream of the telemetry service: the CPU sampler over \<open>/proc/stat\<close>
  (\<open>internal/sampler/cpu.go\<close>), the production sampler that joins it with a GPU reader
  (\<open>internal/sampler/sampler.go\<close>), and the loop that publishes samples and status changes
  (\<open>internal/pipeline/hardware.go\<close>). What the file system and the GPU backend return is an
  input of every step; \<open>float64\<close> values are reals.
\<close>

section \<open>CPU counters (cpu.go)\<close>

datatype cpu_err = CpuReadFile string | CpuMalformedLine | CpuMalformedField string | CpuNoLine | CpuNotPrimed | CpuStalled

record CPU =
  cpu_prevIdle :: "64 word"
  cpu_prevTotal :: "64 word"
  cpu_primed :: bool

fun sum_fields :: "nat \<Rightarrow> string list \<Rightarrow> 64 word \<Rightarrow> 64 word \<Rightarrow> cpu_err + (64 word \<times> 64 word)" where
  "sum_fields i [] idle tot = Inr (idle, tot)"
| "sum_fields i (f # fs) idle tot =
     (case ParseUint 64 f of
        None \<Rightarrow> Inl (CpuMalformedField f)
      | Some v \<Rightarrow> sum_fields (Suc i) fs (if i = 3 \<or> i = 4 then idle + of_nat v else idle) (tot + of_nat v))"

definition cpu_read :: "(string + string) \<Rightarrow> cpu_err + (64 word \<times> 64 word)" where
  "cpu_read file =
     (case file of
        Inl e \<Rightarrow> Inl (CpuReadFile e)
      | Inr raw \<Rightarrow>
          (case List.find (has_prefix ''cpu '') (split_on CHR 0x0A raw) of
             None \<Rightarrow> Inl CpuNoLine
           | Some line \<Rightarrow>
               (let fields = tl (Fields line)
                in if length fields < 5 then Inl CpuMalformedLine else sum_fields 0 fields 0 0)))"

definition NewCPU :: "(string + string) \<Rightarrow> cpu_err + CPU" where
  "NewCPU file =
     (case cpu_read file of
        Inl e \<Rightarrow> Inl e
      | Inr (idle, tot) \<Rightarrow> Inr \<lparr>cpu_prevIdle = idle, cpu_prevTotal = tot, cpu_primed = True\<rparr>)"

definition clamp_pct :: "real \<Rightarrow> real" where
  "clamp_pct util = (let util = (if util < 0 then 0 else util) in if util > 100 then 100 else util)"

definition CPU_Sample :: "(string + string) \<Rightarrow> CPU \<Rightarrow> (cpu_err + real) \<times> CPU" where
  "CPU_Sample file c =
     (if \<not> cpu_primed c then (Inl CpuNotPrimed, c)
      else case cpu_read file of
        Inl e \<Rightarrow> (Inl e, c)
      | Inr (idle, tot) \<Rightarrow>
          (let dIdle = idle - cpu_prevIdle c; dTotal = tot - cpu_prevTotal c;
               c1 = c\<lparr>cpu_prevIdle := idle, cpu_prevTotal := tot\<rparr>
           in if dTotal = 0 then (Inl CpuStalled, c1)
              else (Inr (clamp_pct (100 * (1 - real (unat dIdle) / real (unat dTotal)))), c1)))"

lemma clamp_pct_id: "0 \<le> u \<Longrightarrow> u \<le> 100 \<Longrightarrow> clamp_pct u = u"
  by (simp add: clamp_pct_def)

lemma CPU_Sample_range: "CPU_Sample file c = (Inr u, c') \<Longrightarrow> 0 \<le> u \<and> u \<le> 100"
  by (auto simp: CPU_Sample_def clamp_pct_def Let_def split: if_splits sum.splits)

text \<open>The numbers of the aggregate line, unbounded.\<close>

definition stat_numbers :: "string \<Rightarrow> nat list option" where
  "stat_numbers raw =
     (case List.find (has_prefix ''cpu '') (split_on CHR 0x0A raw) of
        None \<Rightarrow> None
      | Some line \<Rightarrow> those (map (ParseUint 64) (tl (Fields line))))"

lemma those_Cons_Some: "those (x # xs) = Some ns \<longleftrightarrow> (\<exists>n ms. x = Some n \<and> those xs = Some ms \<and> ns = n # ms)"
  by (auto split: option.splits)

lemma those_length: "those xs = Some ns \<Longrightarrow> length ns = length xs"
  by (induction xs arbitrary: ns) (auto simp: those_Cons_Some simp del: those.simps(2))

lemma sum_fields_rest:
  "5 \<le> i \<Longrightarrow> those (map (ParseUint 64) fs) = Some ns \<Longrightarrow>
   sum_fields i fs idle tot = Inr (idle, tot + of_nat (sum_list ns))"
  by (induction fs arbitrary: i ns tot) (auto simp: those_Cons_Some add.assoc simp del: those.simps(2))

lemma sum_fields_all:
  assumes "those (map (ParseUint 64) fs) = Some ns" "5 \<le> length ns"
  shows "sum_fields 0 fs 0 0 = Inr (of_nat (ns ! 3 + ns ! 4), of_nat (sum_list ns))"
proof -
  obtain f0 f1 f2 f3 f4 rest where fs: "fs = f0 # f1 # f2 # f3 # f4 # rest"
    using assms those_length [OF assms(1)] by (auto simp: Suc_le_length_iff numeral_eq_Suc)
  obtain a b c d e ms where ns: "ns = a # b # c # d # e # ms" "ParseUint 64 f0 = Some a" "ParseUint 64 f1 = Some b"
    "ParseUint 64 f2 = Some c" "ParseUint 64 f3 = Some d" "ParseUint 64 f4 = Some e" "those (map (ParseUint 64) rest) = Some ms"
    using assms(1) unfolding fs list.map those_Cons_Some by blast
  show ?thesis unfolding fs
    using sum_fields_rest [OF _ ns(7), of "Suc (Suc (Suc (Suc (Suc 0))))"] by (simp add: ns(2-6) ns(1) add.assoc)
qed

lemma cpu_read_exact:
  assumes "stat_numbers raw = Some ns" "5 \<le> length ns"
  shows "cpu_read (Inr raw) = Inr (of_nat (ns ! 3 + ns ! 4), of_nat (sum_list ns))"
proof -
  obtain line where l: "List.find (has_prefix ''cpu '') (split_on CHR 0x0A raw) = Some line"
    "those (map (ParseUint 64) (tl (Fields line))) = Some ns"
    using assms(1) by (auto simp: stat_numbers_def split: option.splits)
  from sum_fields_all [OF l(2) assms(2)] those_length [OF l(2)] assms(2) show ?thesis
    by (simp add: cpu_read_def l(1))
qed

lemma word_diff_nat:
  assumes "m \<le> n" "n - m < 2 ^ 64"
  shows "unat (of_nat n - of_nat m :: 64 word) = n - m"
proof -
  have "(of_nat n - of_nat m :: 64 word) = of_nat (n - m)" using assms(1) by (simp add: of_nat_diff)
  then show ?thesis using assms(2) by (simp add: unsigned_of_nat take_bit_nat_eq_self)
qed

text \<open>
  C32. The CPU utilisation is exact across counter wrap-around. Take two readings of
  \<open>/proc/stat\<close>, the first of which primed the sampler, whose numbers as unbounded integers have
  advanced, idle time by at most the total and the total by less than \<open>2 ^ 64\<close>. Whatever the
  64-bit sums wrapped to, the sample is the percentage of the interval that was not idle, and it
  lies between 0 and 100.
\<close>

theorem cpu_utilisation_exact:
  assumes "stat_numbers raw0 = Some ms" "5 \<le> length ms" "stat_numbers raw1 = Some ns" "5 \<le> length ns"
    and "NewCPU (Inr raw0) = Inr c"
    and "I = (ns ! 3 + ns ! 4) - (ms ! 3 + ms ! 4)" "ms ! 3 + ms ! 4 \<le> ns ! 3 + ns ! 4"
    and "D = sum_list ns - sum_list ms" "sum_list ms < sum_list ns" "I \<le> D" "D < 2 ^ 64"
  shows "fst (CPU_Sample (Inr raw1) c) = Inr (100 * (1 - real I / real D)) \<and>
    0 \<le> 100 * (1 - real I / real D) \<and> 100 * (1 - real I / real D) \<le> 100"
proof -
  let ?u = "100 * (1 - real I / real D)"
  have c: "c = \<lparr>cpu_prevIdle = of_nat (ms ! 3 + ms ! 4), cpu_prevTotal = of_nat (sum_list ms), cpu_primed = True\<rparr>"
    using assms(5) by (simp add: NewCPU_def cpu_read_exact [OF assms(1,2)])
  have i: "unat (of_nat (ns ! 3 + ns ! 4) - of_nat (ms ! 3 + ms ! 4) :: 64 word) = I"
    using word_diff_nat [OF assms(7)] assms(6,10,11) by simp
  have t: "unat (of_nat (sum_list ns) - of_nat (sum_list ms) :: 64 word) = D"
    using word_diff_nat [of "sum_list ms" "sum_list ns"] assms(8,9,11) by simp
  have pos: "0 < D" using assms(8,9) by simp
  then have nz: "(of_nat (sum_list ns) - of_nat (sum_list ms) :: 64 word) \<noteq> 0" using t by fastforce
  have "real I / real D \<le> 1" "0 \<le> real I / real D" using assms(10) pos by simp_all
  then have r: "0 \<le> ?u" "?u \<le> 100" by simp_all
  have "fst (CPU_Sample (Inr raw1) c) = Inr (clamp_pct (100 * (1 -
      real (unat (of_nat (ns ! 3 + ns ! 4) - of_nat (ms ! 3 + ms ! 4) :: 64 word)) /
      real (unat (of_nat (sum_list ns) - of_nat (sum_list ms) :: 64 word)))))"
    using nz by (simp add: CPU_Sample_def c cpu_read_exact [OF assms(3,4)] Let_def del: of_nat_add)
  then have "fst (CPU_Sample (Inr raw1) c) = Inr (clamp_pct ?u)" unfolding i t .
  moreover have "clamp_pct ?u = ?u" by (rule clamp_pct_id [OF r])
  ultimately show ?thesis using r by simp
qed

definition ex_stat0 :: string where
  "ex_stat0 = ''cpu  10 0 5 80 5'' @ [CHR 0x0A] @ ''cpu0 1 2 3 4 5''"

definition ex_stat1 :: string where
  "ex_stat1 = ''cpu  20 0 10 150 20'' @ [CHR 0x0A] @ ''cpu0 1 2 3 4 5''"

lemma ex_stat_lines:
  "List.find (has_prefix ''cpu '') (split_on CHR 0x0A ex_stat0) = Some ''cpu  10 0 5 80 5''"
  "List.find (has_prefix ''cpu '') (split_on CHR 0x0A ex_stat1) = Some ''cpu  20 0 10 150 20''"
  by code_simp+

lemma ex_stat_fields:
  "tl (Fields ''cpu  10 0 5 80 5'') = [''10'', ''0'', ''5'', ''80'', ''5'']"
  "tl (Fields ''cpu  20 0 10 150 20'') = [''20'', ''0'', ''10'', ''150'', ''20'']"
  by code_simp+

lemma ex_stat_numbers: "stat_numbers ex_stat0 = Some [10, 0, 5, 80, 5]" "stat_numbers ex_stat1 = Some [20, 0, 10, 150, 20]"
  by (simp_all add: stat_numbers_def ex_stat_lines ex_stat_fields ParseUint_def read_nat_def is_digit_def between_def digit_val_def)

theorem cpu_utilisation_exact_witness:
  "\<exists>c. NewCPU (Inr ex_stat0) = Inr c \<and> fst (CPU_Sample (Inr ex_stat1) c) = Inr 15"
proof -
  obtain c where c: "NewCPU (Inr ex_stat0) = Inr c"
    using cpu_read_exact [OF ex_stat_numbers(1)] by (simp add: NewCPU_def)
  have "fst (CPU_Sample (Inr ex_stat1) c) = Inr (100 * (1 - real 85 / real 100))"
    using cpu_utilisation_exact [OF ex_stat_numbers(1) _ ex_stat_numbers(2) _ c refl _ refl] by simp
  with c show ?thesis by auto
qed

section \<open>The production sampler (sampler.go)\<close>

definition GPUStateOK :: string where "GPUStateOK = ''ok''"

definition GPUStateUnavailable :: string where "GPUStateUnavailable = ''unavailable''"

definition GPUStateError :: string where "GPUStateError = ''error''"

record GPUSample =
  gp_UtilPct :: real
  gp_VRAMUsedMB :: real
  gp_VRAMTotalMB :: real
  gp_JunctionC :: real
  gp_PowerW :: real
  gp_EncoderSessions :: int

record GPUStatus =
  gs_State :: string
  gs_Reason :: string

record Sample =
  sm_CPUUtilPct :: real
  sm_CPUValid :: bool
  sm_GPU :: "GPUSample option"
  sm_GPUStatus :: GPUStatus

record System =
  sy_cpu :: CPU
  sy_gpu :: bool
  sy_gpuAbsentWhy :: string

definition NewSystem :: "CPU \<Rightarrow> bool \<Rightarrow> string \<Rightarrow> System" where
  "NewSystem cpu gpu absentReason = \<lparr>sy_cpu = cpu, sy_gpu = gpu, sy_gpuAbsentWhy = absentReason\<rparr>"

text \<open>
  \<open>ctx_err\<close> is \<open>ctx.Err()\<close>, \<open>file\<close> the outcome of reading the statistics file, \<open>reading\<close> what the
  GPU backend returns if it is asked: an error text or a sample.
\<close>

definition System_Sample :: "string option \<Rightarrow> (string + string) \<Rightarrow> (string + GPUSample) \<Rightarrow> System \<Rightarrow> (string + Sample) \<times> System" where
  "System_Sample ctx_err file reading s =
     (case ctx_err of
        Some e \<Rightarrow> (Inl e, s)
      | None \<Rightarrow>
          (let (pct, cpu) = CPU_Sample file (sy_cpu s);
               s1 = s\<lparr>sy_cpu := cpu\<rparr>;
               out = \<lparr>sm_CPUUtilPct = 0, sm_CPUValid = False, sm_GPU = None, sm_GPUStatus = \<lparr>gs_State = [], gs_Reason = []\<rparr>\<rparr>;
               out = (case pct of Inl _ \<Rightarrow> out | Inr u \<Rightarrow> out\<lparr>sm_CPUUtilPct := u, sm_CPUValid := True\<rparr>)
           in if \<not> sy_gpu s
              then (Inr (out\<lparr>sm_GPUStatus := \<lparr>gs_State = GPUStateUnavailable, gs_Reason = sy_gpuAbsentWhy s\<rparr>\<rparr>), s1)
              else case reading of
                Inl e \<Rightarrow> (Inr (out\<lparr>sm_GPUStatus := \<lparr>gs_State = GPUStateError, gs_Reason = e\<rparr>\<rparr>), s1)
              | Inr gs \<Rightarrow> (Inr (out\<lparr>sm_GPU := Some gs, sm_GPUStatus := \<lparr>gs_State = GPUStateOK, gs_Reason = []\<rparr>\<rparr>), s1)))"

text \<open>
  The GPU backend (nvml.go). The calls into the NVML library are inputs: the text of the error or
  the value. \<open>NewNVML\<close> also counts its calls of \<open>nvml.Shutdown\<close>.
\<close>

record nvml_answers =
  nv_utilization :: "string + int"
  nv_memory :: "string + int \<times> int"
  nv_temperature :: "string + int"
  nv_power :: "string + int"
  nv_sessions :: "string + int"

definition NewNVML :: "string option \<Rightarrow> string + int \<Rightarrow> string option \<Rightarrow> (string + unit) \<times> nat" where
  "NewNVML init count handle =
     (case init of
        Some e \<Rightarrow> (Inl (''nvml init: '' @ e), 0)
      | None \<Rightarrow>
          (case count of
             Inl e \<Rightarrow> (Inl (''nvml device count: '' @ e), 1)
           | Inr n \<Rightarrow>
               if n = 0 then (Inl ''no NVIDIA devices present'', 1)
               else case handle of
                 Some e \<Rightarrow> (Inl (''nvml device handle: '' @ e), 1)
               | None \<Rightarrow> (Inr (), 0)))"

definition NVML_Read :: "nvml_answers \<Rightarrow> string + GPUSample" where
  "NVML_Read a =
     (case nv_utilization a of Inl e \<Rightarrow> Inl (''nvml utilization: '' @ e) | Inr util \<Rightarrow>
     (case nv_memory a of Inl e \<Rightarrow> Inl (''nvml memory info: '' @ e) | Inr (used, tot) \<Rightarrow>
     (case nv_temperature a of Inl e \<Rightarrow> Inl (''nvml temperature: '' @ e) | Inr temp \<Rightarrow>
     (case nv_power a of Inl e \<Rightarrow> Inl (''nvml power usage: '' @ e) | Inr powerMW \<Rightarrow>
     (case nv_sessions a of Inl e \<Rightarrow> Inl (''nvml encoder stats: '' @ e) | Inr sessions \<Rightarrow>
        Inr \<lparr>gp_UtilPct = of_int util, gp_VRAMUsedMB = of_int used / (1024 * 1024), gp_VRAMTotalMB = of_int tot / (1024 * 1024),
             gp_JunctionC = of_int temp, gp_PowerW = of_int powerMW / 1000, gp_EncoderSessions = sessions\<rparr>)))))"

text \<open>An initialised library is shut down exactly when no reader is returned.\<close>

lemma NewNVML_releases: "snd (NewNVML None count handle) = (if isl (fst (NewNVML None count handle)) then 1 else 0)"
  by (simp add: NewNVML_def split: sum.splits option.splits)

section \<open>The pipeline (hardware.go)\<close>

record hardwareStatus =
  hs_Stream :: string
  hs_GPU :: string
  hs_Reason :: string

record HardwareSample =
  hw_GPUUtilPct :: "real option"
  hw_VRAMUsedMB :: "real option"
  hw_VRAMTotalMB :: "real option"
  hw_JunctionC :: "real option"
  hw_PowerW :: "real option"
  hw_EncoderSessions :: "int option"
  hw_CPUUtilPct :: "real option"

datatype hw_payload = SamplePayload HardwareSample | StatusPayload hardwareStatus

text \<open>\<open>math.Round\<close> rounds half away from zero.\<close>

definition math_Round :: "real \<Rightarrow> real" where
  "math_Round x = (if x < 0 then - of_int \<lfloor>- x + 1 / 2\<rfloor> else of_int \<lfloor>x + 1 / 2\<rfloor>)"

definition round1 :: "real \<Rightarrow> real" where
  "round1 f = math_Round (f * 10) / 10"

definition publishStatus :: "GPUStatus \<Rightarrow> string \<Rightarrow> hw_payload Hub \<Rightarrow> hw_payload Hub \<times> string" where
  "publishStatus st lastStatus h =
     (let key = gs_State st @ ''|'' @ gs_Reason st in
      if key = lastStatus then (h, lastStatus)
      else (PublishSticky
              \<lparr>ev_Name = ''status'',
               ev_Data = StatusPayload \<lparr>hs_Stream = ''hardware'', hs_GPU = gs_State st, hs_Reason = gs_Reason st\<rparr>,
               ev_Tag = []\<rparr> h, key))"

definition hardware_payload :: "Sample \<Rightarrow> HardwareSample" where
  "hardware_payload smp =
     (let payload = \<lparr>hw_GPUUtilPct = None, hw_VRAMUsedMB = None, hw_VRAMTotalMB = None, hw_JunctionC = None,
                     hw_PowerW = None, hw_EncoderSessions = None, hw_CPUUtilPct = None\<rparr>;
          payload = (if sm_CPUValid smp then payload\<lparr>hw_CPUUtilPct := Some (round1 (sm_CPUUtilPct smp))\<rparr> else payload)
      in case sm_GPU smp of
           None \<Rightarrow> payload
         | Some g \<Rightarrow> payload\<lparr>hw_GPUUtilPct := Some (round1 (gp_UtilPct g)), hw_VRAMUsedMB := Some (round1 (gp_VRAMUsedMB g)),
             hw_VRAMTotalMB := Some (round1 (gp_VRAMTotalMB g)), hw_JunctionC := Some (round1 (gp_JunctionC g)),
             hw_PowerW := Some (round1 (gp_PowerW g)), hw_EncoderSessions := Some (gp_EncoderSessions g)\<rparr>)"

record pipeline =
  pp_hub :: "hw_payload Hub"
  pp_last :: string
  pp_done :: bool

definition publish_sample :: "Sample \<Rightarrow> pipeline \<Rightarrow> pipeline" where
  "publish_sample smp p =
     (let (h, lastStatus) = publishStatus (sm_GPUStatus smp) (pp_last p) (pp_hub p);
          p1 = p\<lparr>pp_hub := h, pp_last := lastStatus\<rparr>
      in if \<not> sm_CPUValid smp \<and> sm_GPU smp = None then p1
         else p1\<lparr>pp_hub := Hub_Publish \<lparr>ev_Name = ''sample'', ev_Data = SamplePayload (hardware_payload smp), ev_Tag = []\<rparr> h\<rparr>)"

text \<open>
  The loop, turn by turn. A turn is either the end of the context or a tick of the timer with what
  the environment then returns; after the last turn of the list the loop waits.
\<close>

datatype turn = CtxDone | Tick "string option" "string + string" "string + GPUSample"

fun RunHardware :: "turn list \<Rightarrow> System \<Rightarrow> pipeline \<Rightarrow> System \<times> pipeline" where
  "RunHardware [] s p = (s, p)"
| "RunHardware (CtxDone # _) s p = (s, p\<lparr>pp_done := True\<rparr>)"
| "RunHardware (Tick ctx_err file reading # ts) s p =
     (case System_Sample ctx_err file reading s of
        (Inl e, s') \<Rightarrow> if ctx_err \<noteq> None then (s', p\<lparr>pp_done := True\<rparr>) else RunHardware ts s' p
      | (Inr smp, s') \<Rightarrow> RunHardware ts s' (publish_sample smp p))"

definition start_pipeline :: "hw_payload Hub \<Rightarrow> pipeline" where
  "start_pipeline h = \<lparr>pp_hub = h, pp_last = [], pp_done = False\<rparr>"

section \<open>Rounding\<close>

lemma math_Round_near: "\<bar>math_Round x - x\<bar> \<le> 1 / 2"
  unfolding math_Round_def by (auto simp: abs_if) linarith+

lemma math_Round_odd: "x \<noteq> 0 \<Longrightarrow> math_Round (- x) = - math_Round x"
  by (auto simp: math_Round_def)

lemma round1_near: "\<bar>round1 f - f\<bar> \<le> 1 / 20"
proof -
  have "round1 f - f = (math_Round (f * 10) - f * 10) * (1 / 10)" by (simp add: round1_def)
  then have "\<bar>round1 f - f\<bar> = \<bar>math_Round (f * 10) - f * 10\<bar> * (1 / 10)" by (simp only: abs_mult)
  then show ?thesis using mult_right_mono [OF math_Round_near [of "f * 10"], of "1 / 10"] by simp
qed

lemma math_Round_int_bounds:
  "of_int a \<le> x \<Longrightarrow> 0 \<le> a \<Longrightarrow> of_int a \<le> math_Round x" "0 \<le> x \<Longrightarrow> x \<le> of_int b \<Longrightarrow> math_Round x \<le> of_int b"
proof -
  show "of_int a \<le> math_Round x" if "of_int a \<le> x" "0 \<le> a"
  proof -
    have "0 \<le> x" using that by (meson of_int_0_le_iff order_trans)
    moreover have "a \<le> \<lfloor>x + 1 / 2\<rfloor>" using that by linarith
    ultimately show ?thesis by (simp add: math_Round_def)
  qed
  show "math_Round x \<le> of_int b" if "0 \<le> x" "x \<le> of_int b"
  proof -
    have "\<lfloor>x + 1 / 2\<rfloor> \<le> b" using that(2) by linarith
    then show ?thesis using that(1) by (simp add: math_Round_def)
  qed
qed

lemma round1_pct: "0 \<le> u \<Longrightarrow> u \<le> 100 \<Longrightarrow> 0 \<le> round1 u \<and> round1 u \<le> 100"
  using math_Round_int_bounds(1) [of 0 "u * 10"] math_Round_int_bounds(2) [of "u * 10" 1000] by (simp add: round1_def)

section \<open>What the stream says\<close>

definition gpu_fields :: "HardwareSample \<Rightarrow> bool list" where
  "gpu_fields p = [hw_GPUUtilPct p \<noteq> None, hw_VRAMUsedMB p \<noteq> None, hw_VRAMTotalMB p \<noteq> None, hw_JunctionC p \<noteq> None,
     hw_PowerW p \<noteq> None, hw_EncoderSessions p \<noteq> None]"

text \<open>
  \<open>honest st ps\<close>: read after the status \<open>st\<close>, a status differs from the one before it; a sample
  carries all GPU readings if the status is ok and none otherwise, it is never empty, and its CPU
  utilisation is a percentage.
\<close>

fun honest :: "hardwareStatus option \<Rightarrow> hw_payload list \<Rightarrow> bool" where
  "honest st [] = True"
| "honest st (StatusPayload s # ps) = (st \<noteq> Some s \<and> honest (Some s) ps)"
| "honest st (SamplePayload p # ps) =
     ((case st of None \<Rightarrow> False | Some s \<Rightarrow> gpu_fields p = replicate 6 (hs_GPU s = GPUStateOK)) \<and>
      (hw_CPUUtilPct p \<noteq> None \<or> True \<in> set (gpu_fields p)) \<and>
      (case hw_CPUUtilPct p of None \<Rightarrow> True | Some u \<Rightarrow> 0 \<le> u \<and> u \<le> 100) \<and> honest st ps)"

text \<open>The state of the pipeline stands for a status: the one last published.\<close>

definition status_of :: "GPUStatus \<Rightarrow> hardwareStatus" where
  "status_of g = \<lparr>hs_Stream = ''hardware'', hs_GPU = gs_State g, hs_Reason = gs_Reason g\<rparr>"

definition known_state :: "GPUStatus \<Rightarrow> bool" where
  "known_state g \<longleftrightarrow> gs_State g \<in> {GPUStateOK, GPUStateUnavailable, GPUStateError}"

definition stands_for :: "string \<Rightarrow> hardwareStatus option \<Rightarrow> bool" where
  "stands_for key st \<longleftrightarrow> (case st of None \<Rightarrow> key = []
     | Some s \<Rightarrow> \<exists>g. known_state g \<and> s = status_of g \<and> key = gs_State g @ ''|'' @ gs_Reason g)"

lemmas gpu_states = GPUStateOK_def GPUStateUnavailable_def GPUStateError_def

lemma key_identifies: "known_state g \<Longrightarrow> known_state g' \<Longrightarrow>
   (gs_State g @ ''|'' @ gs_Reason g = gs_State g' @ ''|'' @ gs_Reason g') = (status_of g = status_of g')"
  by (auto simp: known_state_def gpu_states status_of_def)

text \<open>
  The stream that a sequence of samples should give rise to, read after the status \<open>st\<close>: a status
  event exactly when the status of the sample, its state or its reason, differs from the one before
  it, then the readings of the sample unless it has none.
\<close>

definition status_event :: "hardwareStatus \<Rightarrow> hw_payload Event" where
  "status_event s = \<lparr>ev_Name = ''status'', ev_Data = StatusPayload s, ev_Tag = []\<rparr>"

definition sample_event :: "Sample \<Rightarrow> hw_payload Event" where
  "sample_event smp = \<lparr>ev_Name = ''sample'', ev_Data = SamplePayload (hardware_payload smp), ev_Tag = []\<rparr>"

definition sample_events :: "hardwareStatus option \<Rightarrow> Sample \<Rightarrow> hw_payload Event list" where
  "sample_events st smp =
     (if st = Some (status_of (sm_GPUStatus smp)) then [] else [status_event (status_of (sm_GPUStatus smp))]) @
     (if \<not> sm_CPUValid smp \<and> sm_GPU smp = None then [] else [sample_event smp])"

fun stream_of :: "hardwareStatus option \<Rightarrow> Sample list \<Rightarrow> hw_payload Event list" where
  "stream_of st [] = []"
| "stream_of st (smp # smps) = sample_events st smp @ stream_of (Some (status_of (sm_GPUStatus smp))) smps"

text \<open>
  The samples a run of the loop takes: those of the ticks at which sampling succeeded, up to the
  end of the context.
\<close>

fun samples_taken :: "turn list \<Rightarrow> System \<Rightarrow> Sample list" where
  "samples_taken [] s = []"
| "samples_taken (CtxDone # _) s = []"
| "samples_taken (Tick ctx_err file reading # ts) s =
     (case System_Sample ctx_err file reading s of
        (Inl e, s') \<Rightarrow> if ctx_err \<noteq> None then [] else samples_taken ts s'
      | (Inr smp, s') \<Rightarrow> smp # samples_taken ts s')"

definition status_after :: "hardwareStatus option \<Rightarrow> Sample list \<Rightarrow> hardwareStatus option" where
  "status_after st smps = (if smps = [] then st else Some (status_of (sm_GPUStatus (last smps))))"

definition receive :: "'d Event list \<Rightarrow> (nat \<times> 'd Conn) list \<Rightarrow> (nat \<times> 'd Conn) list" where
  "receive evs conns = map (\<lambda>p. (fst p, fold push evs (snd p))) conns"

lemma receive_simps [simp]: "receive [] conns = conns" "receive (a @ b) conns = receive b (receive a conns)"
  "map (push_to e) conns = receive [e] conns"
  by (simp_all add: receive_def push_to_def fun_eq_iff)

lemma publish_sample_last: "pp_last (publish_sample smp p) = gs_State (sm_GPUStatus smp) @ ''|'' @ gs_Reason (sm_GPUStatus smp)"
  by (simp add: publish_sample_def publishStatus_def Let_def)

definition sticky_status :: "hw_payload Hub \<Rightarrow> hw_payload option" where
  "sticky_status h = map_option ev_Data (map_of (hb_sticky h) ''status'')"

lemma publish_sample_sticky:
  "sticky_status (pp_hub (publish_sample smp p)) =
   (if gs_State (sm_GPUStatus smp) @ ''|'' @ gs_Reason (sm_GPUStatus smp) = pp_last p then sticky_status (pp_hub p)
    else Some (StatusPayload (status_of (sm_GPUStatus smp))))"
  by (simp add: publish_sample_def publishStatus_def Let_def sticky_status_def PublishSticky_def Hub_Publish_def update_conv' status_of_def)

text \<open>What the sampler promises.\<close>

definition sample_ok :: "Sample \<Rightarrow> bool" where
  "sample_ok smp \<longleftrightarrow> known_state (sm_GPUStatus smp) \<and> (sm_GPU smp \<noteq> None) = (gs_State (sm_GPUStatus smp) = GPUStateOK) \<and>
     (sm_CPUValid smp \<longrightarrow> 0 \<le> sm_CPUUtilPct smp \<and> sm_CPUUtilPct smp \<le> 100)"

lemma System_Sample_ok: "System_Sample ctx_err file reading s = (Inr smp, s') \<Longrightarrow> sample_ok smp"
  by (auto simp: System_Sample_def sample_ok_def known_state_def gpu_states Let_def dest: CPU_Sample_range
      split: option.splits prod.splits sum.splits if_splits)

lemma payload_ok:
  assumes "sample_ok smp" "sm_CPUValid smp \<or> sm_GPU smp \<noteq> None"
  shows "honest (Some (status_of (sm_GPUStatus smp))) [SamplePayload (hardware_payload smp)]"
  using assms round1_pct [of "sm_CPUUtilPct smp"]
  by (auto simp: sample_ok_def hardware_payload_def gpu_fields_def status_of_def Let_def numeral_eq_Suc split: option.splits)

lemma same_key:
  assumes "sample_ok smp" "stands_for key st"
  shows "(gs_State (sm_GPUStatus smp) @ ''|'' @ gs_Reason (sm_GPUStatus smp) = key) = (st = Some (status_of (sm_GPUStatus smp)))"
proof (cases st)
  case (Some s)
  then obtain g where g: "known_state g" "s = status_of g" "key = gs_State g @ ''|'' @ gs_Reason g"
    using assms(2) unfolding stands_for_def by auto
  have "known_state (sm_GPUStatus smp)" using assms(1) by (simp add: sample_ok_def)
  then show ?thesis using key_identifies [OF _ g(1)] g Some by auto
qed (use assms(2) in \<open>simp add: stands_for_def\<close>)

lemma publish_sample_conns:
  assumes "sample_ok smp" "stands_for (pp_last p) st"
  shows "hb_conns (pp_hub (publish_sample smp p)) = receive (sample_events st smp) (hb_conns (pp_hub p))"
  using same_key [OF assms]
  by (simp add: publish_sample_def publishStatus_def sample_events_def status_event_def sample_event_def status_of_def
      PublishSticky_def Hub_Publish_def Let_def)

lemma stream_honest: "list_all sample_ok smps \<Longrightarrow> honest st (map ev_Data (stream_of st smps))"
proof (induction smps arbitrary: st)
  case (Cons smp smps)
  let ?s = "Some (status_of (sm_GPUStatus smp))"
  have IH: "honest ?s (map ev_Data (stream_of ?s smps))" using Cons by simp
  have "honest ?s [SamplePayload (hardware_payload smp)]" if "sm_CPUValid smp \<or> sm_GPU smp \<noteq> None"
    by (rule payload_ok [OF _ that]) (use Cons.prems in simp)
  with IH show ?case by (auto simp: sample_events_def status_event_def sample_event_def)
qed simp

lemma samples_taken_ok: "list_all sample_ok (samples_taken ts s)"
  by (induction ts s rule: samples_taken.induct) (auto dest: System_Sample_ok split: prod.splits sum.splits)

definition shown :: "hw_payload option \<Rightarrow> hardwareStatus option \<Rightarrow> hw_payload option" where
  "shown before st = (case st of None \<Rightarrow> before | Some s \<Rightarrow> Some (StatusPayload s))"

text \<open>The loop publishes the stream of the samples it takes.\<close>

lemma run_stream:
  assumes "stands_for (pp_last p) st" "sticky_status (pp_hub p) = shown before st"
  shows "hb_conns (pp_hub (snd (RunHardware ts s p))) = receive (stream_of st (samples_taken ts s)) (hb_conns (pp_hub p)) \<and>
    sticky_status (pp_hub (snd (RunHardware ts s p))) = shown before (status_after st (samples_taken ts s))"
  using assms
proof (induction ts s p arbitrary: st rule: RunHardware.induct)
  case (3 ctx_err stat reading ts s p)
  obtain r s1 where smp: "System_Sample ctx_err stat reading s = (r, s1)" by fastforce
  show ?case
  proof (cases r)
    case (Inl e)
    then show ?thesis using "3.IH"(1) [OF smp [symmetric] Inl _ "3.prems"] "3.prems"(2) smp
      by (cases ctx_err) (simp_all add: status_after_def)
  next
    case (Inr x)
    let ?p = "publish_sample x p" and ?st = "Some (status_of (sm_GPUStatus x))"
    have ok: "sample_ok x" using System_Sample_ok smp Inr by blast
    have stands: "stands_for (pp_last ?p) ?st" using ok by (auto simp: stands_for_def publish_sample_last sample_ok_def)
    have sticky: "sticky_status (pp_hub ?p) = shown before ?st"
      using "3.prems"(2) same_key [OF ok "3.prems"(1)] by (auto simp: publish_sample_sticky shown_def)
    show ?thesis using "3.IH"(2) [OF smp [symmetric] Inr stands sticky] smp Inr
      by (simp add: publish_sample_conns [OF ok "3.prems"(1)] status_after_def)
  qed
qed (simp_all add: status_after_def)

text \<open>
  C31. The hardware stream says what was sampled. Whatever the statistics file, the GPU backend and
  the context do on each tick, the pipeline hands every connection that is open throughout exactly
  the events of the samples it took, in order: before a sample's readings a status event if and only if the state
  or the reason of the GPU status differs from the previous sample's (always for the first), then
  the readings, unless the sample has none. The sticky status for late subscribers is that of the
  last sample. In this stream every sample event carries all six GPU readings when the status before
  it is ok and none of them otherwise, none is empty and every CPU utilisation lies between 0 and 100.
\<close>

theorem hardware_stream_honest:
  "hb_conns (pp_hub (snd (RunHardware ts (NewSystem cpu gpu why) (start_pipeline h)))) =
     receive (stream_of None (samples_taken ts (NewSystem cpu gpu why))) (hb_conns h) \<and>
   sticky_status (pp_hub (snd (RunHardware ts (NewSystem cpu gpu why) (start_pipeline h)))) =
     shown (sticky_status h) (status_after None (samples_taken ts (NewSystem cpu gpu why))) \<and>
   honest None (map ev_Data (stream_of None (samples_taken ts (NewSystem cpu gpu why))))"
proof -
  have "stands_for (pp_last (start_pipeline h)) None" "sticky_status (pp_hub (start_pipeline h)) = shown (sticky_status h) None"
    by (simp_all add: stands_for_def start_pipeline_def shown_def)
  from run_stream [OF this, of ts "NewSystem cpu gpu why"] show ?thesis
    by (simp add: start_pipeline_def stream_honest samples_taken_ok)
qed

end
