(* ===== verification/TelJobs.thy ===== *)
theory TelJobs
  imports TelHub Boundary
begin

text \<open>
  The job aggregator of the telemetry service, \<open>services/telemetry/internal/jobs/aggregator.go\<close>:
  the boundary of the two job subjects, the per-job table with its four counters, and what is
  published to the jobs hub. The lemmas show that the table is the image of a small automaton
  run for each job alone, that counters and rates are exactly those of the table, and what the
  two independent subscriptions can make of them.
\<close>

section \<open>Events and state\<close>

definition TelSubjectJobState :: string where
  "TelSubjectJobState = ''aether.ft.job.state.v1''"

definition TelSubjectJobProgress :: string where
  "TelSubjectJobProgress = ''aether.ft.job.progress.v1''"

definition StateQueued :: string where "StateQueued = ''queued''"

definition StateRunning :: string where "StateRunning = ''running''"

definition StateCompleted :: string where "StateCompleted = ''completed''"

definition StateFailed :: string where "StateFailed = ''failed''"

lemmas job_states = StateQueued_def StateRunning_def StateCompleted_def StateFailed_def

text \<open>Times are nanoseconds since Go's zero time, so that \<open>IsZero\<close> is equality with 0.\<close>

record stateEvent =
  se_JobID :: string
  se_WorkspaceID :: string
  se_State :: string
  se_At :: int

record progressEvent =
  pe_JobID :: string
  pe_WorkspaceID :: string
  pe_FPS :: real
  pe_SpeedX :: real
  pe_EtaSeconds :: real
  pe_ProgressPct :: real
  pe_At :: int

record Aggregate =
  ag_Queued :: int
  ag_InFlight :: int
  ag_Completed :: int
  ag_Failed :: int
  ag_FarmFPS :: real
  ag_AggregateSpeedX :: real

record JobStreamEvent =
  je_JobID :: string
  je_State :: string
  je_FPS :: real
  je_SpeedX :: real
  je_ETASeconds :: real
  je_ProgressPct :: real

record jobState =
  jb_state :: string
  jb_fps :: real
  jb_speedX :: real
  jb_etaSeconds :: real
  jb_progressPct :: real

datatype job_payload = JobPayload JobStreamEvent | AggregatePayload Aggregate

record Aggregator =
  ar_active :: "(string \<times> jobState) list"
  ar_queued :: int
  ar_inFlight :: int
  ar_completed :: int
  ar_failed :: int
  ar_hub :: "job_payload Hub"

datatype agg_err = AggDecode string | AggMissingIds | AggMissingAt | AggUnknownState string | AggOutOfRange

definition Aggregator_New :: "job_payload Hub \<Rightarrow> Aggregator" where
  "Aggregator_New h = \<lparr>ar_active = [], ar_queued = 0, ar_inFlight = 0, ar_completed = 0, ar_failed = 0, ar_hub = h\<rparr>"

definition fresh_job :: "string \<Rightarrow> jobState" where
  "fresh_job st = \<lparr>jb_state = st, jb_fps = 0, jb_speedX = 0, jb_etaSeconds = 0, jb_progressPct = 0\<rparr>"

section \<open>Operations\<close>

definition jobEventLocked :: "string \<Rightarrow> string \<Rightarrow> Aggregator \<Rightarrow> JobStreamEvent" where
  "jobEventLocked jobID st a =
     (let out = \<lparr>je_JobID = jobID, je_State = st, je_FPS = 0, je_SpeedX = 0, je_ETASeconds = 0, je_ProgressPct = 0\<rparr>
      in case map_of (ar_active a) jobID of
           Some js \<Rightarrow> out\<lparr>je_FPS := jb_fps js, je_SpeedX := jb_speedX js, je_ETASeconds := jb_etaSeconds js,
                          je_ProgressPct := jb_progressPct js\<rparr>
         | None \<Rightarrow> if st = StateCompleted then out\<lparr>je_ProgressPct := 100\<rparr> else out)"

definition running_only :: "(string \<times> jobState) list \<Rightarrow> (string \<times> jobState) list" where
  "running_only jobs = filter (\<lambda>p. jb_state (snd p) = StateRunning) jobs"

definition aggregateLocked :: "Aggregator \<Rightarrow> Aggregate" where
  "aggregateLocked a =
     \<lparr>ag_Queued = ar_queued a, ag_InFlight = ar_inFlight a, ag_Completed = ar_completed a, ag_Failed = ar_failed a,
      ag_FarmFPS = (\<Sum>p\<leftarrow>running_only (ar_active a). jb_fps (snd p)),
      ag_AggregateSpeedX = (\<Sum>p\<leftarrow>running_only (ar_active a). jb_speedX (snd p))\<rparr>"

definition Snapshot :: "Aggregator \<Rightarrow> Aggregate" where
  "Snapshot a = aggregateLocked a"

text \<open>
  Both payloads marshal: the numbers are reals here. (A \<open>float64\<close> sum that overflows to infinity
  would not marshal, and its aggregate would be dropped.)
\<close>

definition agg_publish :: "JobStreamEvent \<Rightarrow> Aggregate \<Rightarrow> job_payload Hub \<Rightarrow> job_payload Hub" where
  "agg_publish job agg h =
     PublishSticky \<lparr>ev_Name = ''aggregate'', ev_Data = AggregatePayload agg, ev_Tag = []\<rparr>
       (Hub_Publish \<lparr>ev_Name = ''job'', ev_Data = JobPayload job, ev_Tag = []\<rparr> h)"

text \<open>The checks at the boundary, in the order of the code.\<close>

definition check_state_event :: "stateEvent json_in \<Rightarrow> agg_err + stateEvent" where
  "check_state_event data =
     (case strictUnmarshal data of
        Inl e \<Rightarrow> Inl (AggDecode e)
      | Inr ev \<Rightarrow>
          if se_JobID ev = [] \<or> se_WorkspaceID ev = [] then Inl AggMissingIds
          else if se_At ev = 0 then Inl AggMissingAt
          else if se_State ev \<notin> {StateQueued, StateRunning, StateCompleted, StateFailed}
          then Inl (AggUnknownState (se_State ev))
          else Inr ev)"

definition check_progress_event :: "progressEvent json_in \<Rightarrow> agg_err + progressEvent" where
  "check_progress_event data =
     (case strictUnmarshal data of
        Inl e \<Rightarrow> Inl (AggDecode e)
      | Inr ev \<Rightarrow>
          if pe_JobID ev = [] \<or> pe_WorkspaceID ev = [] then Inl AggMissingIds
          else if pe_At ev = 0 then Inl AggMissingAt
          else if pe_FPS ev < 0 \<or> pe_SpeedX ev < 0 \<or> pe_EtaSeconds ev < 0 \<or> pe_ProgressPct ev < 0 \<or> pe_ProgressPct ev > 100
          then Inl AggOutOfRange
          else Inr ev)"

text \<open>What the two handlers do between locking and unlocking the table.\<close>

definition start_queued :: "string \<Rightarrow> jobState \<Rightarrow> Aggregator \<Rightarrow> Aggregator" where
  "start_queued jobID js a =
     a\<lparr>ar_queued := sub64 (ar_queued a) 1, ar_inFlight := add64 (ar_inFlight a) 1,
       ar_active := AList.update jobID (js\<lparr>jb_state := StateRunning\<rparr>) (ar_active a)\<rparr>"

definition forget_job :: "string \<Rightarrow> jobState \<Rightarrow> Aggregator \<Rightarrow> Aggregator" where
  "forget_job jobID js a =
     (let a1 = (if jb_state js = StateQueued then a\<lparr>ar_queued := sub64 (ar_queued a) 1\<rparr>
                else a\<lparr>ar_inFlight := sub64 (ar_inFlight a) 1\<rparr>)
      in a1\<lparr>ar_active := AList.delete jobID (ar_active a1)\<rparr>)"

definition state_locked :: "stateEvent \<Rightarrow> Aggregator \<Rightarrow> Aggregator" where
  "state_locked ev a =
     (let jobID = se_JobID ev; js = map_of (ar_active a) jobID in
      if se_State ev = StateQueued then
        (case js of
           None \<Rightarrow> a\<lparr>ar_active := AList.update jobID (fresh_job StateQueued) (ar_active a), ar_queued := add64 (ar_queued a) 1\<rparr>
         | Some _ \<Rightarrow> a)
      else if se_State ev = StateRunning then
        (case js of
           Some j \<Rightarrow> if jb_state j = StateQueued then start_queued jobID j a else a
         | None \<Rightarrow> a\<lparr>ar_active := AList.update jobID (fresh_job StateRunning) (ar_active a),
                     ar_inFlight := add64 (ar_inFlight a) 1\<rparr>)
      else
        (let a1 = (case js of Some j \<Rightarrow> forget_job jobID j a | None \<Rightarrow> a)
         in if se_State ev = StateCompleted then a1\<lparr>ar_completed := add64 (ar_completed a1) 1\<rparr>
            else a1\<lparr>ar_failed := add64 (ar_failed a1) 1\<rparr>))"

definition with_progress :: "progressEvent \<Rightarrow> jobState \<Rightarrow> jobState" where
  "with_progress ev js =
     js\<lparr>jb_fps := pe_FPS ev, jb_speedX := pe_SpeedX ev, jb_etaSeconds := pe_EtaSeconds ev, jb_progressPct := pe_ProgressPct ev\<rparr>"

definition progress_locked :: "progressEvent \<Rightarrow> Aggregator \<Rightarrow> Aggregator" where
  "progress_locked ev a =
     (let jobID = pe_JobID ev;
          (js, a1) = (case map_of (ar_active a) jobID of
             None \<Rightarrow> (fresh_job StateRunning, a\<lparr>ar_inFlight := add64 (ar_inFlight a) 1\<rparr>)
           | Some j \<Rightarrow> if jb_state j = StateQueued then (j\<lparr>jb_state := StateRunning\<rparr>, start_queued jobID j a) else (j, a))
      in a1\<lparr>ar_active := AList.update jobID (with_progress ev js) (ar_active a1)\<rparr>)"

text \<open>A message: under the lock, then the publication of what the table was at the unlock.\<close>

definition announce_job :: "string \<Rightarrow> string \<Rightarrow> Aggregator \<Rightarrow> Aggregator" where
  "announce_job jobID st a = a\<lparr>ar_hub := agg_publish (jobEventLocked jobID st a) (aggregateLocked a) (ar_hub a)\<rparr>"

definition HandleState :: "stateEvent json_in \<Rightarrow> Aggregator \<Rightarrow> agg_err option \<times> Aggregator" where
  "HandleState data a =
     (case check_state_event data of
        Inl e \<Rightarrow> (Some e, a)
      | Inr ev \<Rightarrow> (None, announce_job (se_JobID ev) (se_State ev) (state_locked ev a)))"

text \<open>After a progress message the job is always in the table, in the state \<open>js.state\<close>.\<close>

definition HandleProgress :: "progressEvent json_in \<Rightarrow> Aggregator \<Rightarrow> agg_err option \<times> Aggregator" where
  "HandleProgress data a =
     (case check_progress_event data of
        Inl e \<Rightarrow> (Some e, a)
      | Inr ev \<Rightarrow>
          (let a1 = progress_locked ev a;
               st = (case map_of (ar_active a1) (pe_JobID ev) of Some js \<Rightarrow> jb_state js | None \<Rightarrow> [])
           in (None, announce_job (pe_JobID ev) st a1)))"

section \<open>Counting the table\<close>

lemma add64_wrap: "add64 (wrap64 x) y = wrap64 (x + y)"
  unfolding add64_def wrap64_sint by simp

lemma sub64_wrap: "sub64 (wrap64 x) y = wrap64 (x - y)"
  unfolding sub64_def wrap64_sint by simp

definition tally :: "string \<Rightarrow> (string \<times> jobState) list \<Rightarrow> int" where
  "tally st jobs = int (length (filter (\<lambda>p. jb_state (snd p) = st) jobs))"

abbreviation one_if :: "bool \<Rightarrow> int" where
  "one_if b \<equiv> (if b then 1 else 0)"

lemma tally_new: "map_of jobs j = None \<Longrightarrow> tally st (AList.update j js jobs) = tally st jobs + one_if (jb_state js = st)"
  by (induction jobs) (auto simp: tally_def split: if_splits)

lemma tally_replace:
  "map_of jobs j = Some old \<Longrightarrow>
   tally st (AList.update j js jobs) = tally st jobs + one_if (jb_state js = st) - one_if (jb_state old = st)"
  by (induction jobs) (auto simp: tally_def split: if_splits)

lemma tally_delete:
  assumes "distinct (map fst jobs)" "map_of jobs j = Some old"
  shows "tally st (AList.delete j jobs) = tally st jobs - one_if (jb_state old = st)"
  using assms
proof (induction jobs)
  case (Cons p jobs)
  show ?case
  proof (cases "fst p = j")
    case True
    with Cons.prems(1) have "j \<notin> fst ` set jobs" by auto
    then have "AList.delete j jobs = jobs" by (rule delete_id)
    with True Cons.prems(2) show ?thesis by (simp add: tally_def)
  next
    case False
    with Cons.prems Cons.IH show ?thesis by (simp add: tally_def split: if_splits)
  qed
qed simp

text \<open>The table holds queued and running jobs, once each, and the counters are its tallies.\<close>

definition table_inv :: "Aggregator \<Rightarrow> bool" where
  "table_inv a \<longleftrightarrow> distinct (map fst (ar_active a)) \<and>
     (\<forall>j js. map_of (ar_active a) j = Some js \<longrightarrow> jb_state js = StateQueued \<or> jb_state js = StateRunning) \<and>
     ar_queued a = wrap64 (tally StateQueued (ar_active a)) \<and>
     ar_inFlight a = wrap64 (tally StateRunning (ar_active a))"

lemma state_names [simp]:
  "StateQueued \<noteq> StateRunning" "StateRunning \<noteq> StateQueued" "StateCompleted \<noteq> StateQueued" "StateCompleted \<noteq> StateRunning"
  "StateFailed \<noteq> StateQueued" "StateFailed \<noteq> StateRunning" "StateFailed \<noteq> StateCompleted" "StateCompleted \<noteq> StateFailed"
  by (simp_all add: job_states)

lemma fresh_job_state [simp]: "jb_state (fresh_job st) = st"
  by (simp add: fresh_job_def)

lemma with_progress_state [simp]: "jb_state (with_progress ev js) = jb_state js"
  by (simp add: with_progress_def)

lemmas tally_simps = tally_new tally_replace tally_delete add64_wrap sub64_wrap

lemma start_queued_inv:
  "table_inv a \<Longrightarrow> map_of (ar_active a) j = Some js \<Longrightarrow> jb_state js = StateQueued \<Longrightarrow> table_inv (start_queued j js a)"
  unfolding table_inv_def start_queued_def by (auto simp: tally_simps update_conv' distinct_update)

lemma forget_job_inv:
  assumes "table_inv a" "map_of (ar_active a) j = Some js"
  shows "table_inv (forget_job j js a)"
proof -
  let ?rest = "AList.delete j (ar_active a)"
  have d: "distinct (map fst (ar_active a))" and
    st: "jb_state js = StateQueued \<or> jb_state js = StateRunning" using assms unfolding table_inv_def by blast+
  have kinds: "jb_state k = StateQueued \<or> jb_state k = StateRunning" if "map_of ?rest i = Some k" for i k
  proof -
    have "map_of (ar_active a) i = Some k" using that by (simp add: delete_conv' split: if_splits)
    then show ?thesis using assms(1) unfolding table_inv_def by blast
  qed
  note tallies = tally_delete [OF d assms(2)]
  show ?thesis
  proof (cases "jb_state js = StateQueued")
    case True
    with assms(1) kinds show ?thesis unfolding table_inv_def forget_job_def Let_def
      by (simp add: tallies sub64_wrap distinct_delete del: map_of_eq_Some_iff)
  next
    case False
    with st assms(1) kinds show ?thesis unfolding table_inv_def forget_job_def Let_def
      by (simp add: tallies sub64_wrap distinct_delete del: map_of_eq_Some_iff)
  qed
qed

lemma add_job_inv:
  assumes "table_inv a" "map_of (ar_active a) j = None"
  shows "jb_state js = StateQueued \<Longrightarrow>
      table_inv (a\<lparr>ar_active := AList.update j js (ar_active a), ar_queued := add64 (ar_queued a) 1\<rparr>)"
    and "jb_state js = StateRunning \<Longrightarrow>
      table_inv (a\<lparr>ar_active := AList.update j js (ar_active a), ar_inFlight := add64 (ar_inFlight a) 1\<rparr>)"
  using assms unfolding table_inv_def by (auto simp: tally_simps update_conv' distinct_update)

lemma table_inv_frame [simp]:
  "table_inv (a\<lparr>ar_hub := h\<rparr>) = table_inv a" "table_inv (a\<lparr>ar_completed := n\<rparr>) = table_inv a" "table_inv (a\<lparr>ar_failed := n\<rparr>) = table_inv a"
  by (simp_all add: table_inv_def)

lemma state_locked_inv: "table_inv a \<Longrightarrow> table_inv (state_locked ev a)"
  by (auto simp: state_locked_def Let_def start_queued_inv forget_job_inv add_job_inv split: option.splits)

lemma replace_running_inv:
  "table_inv a \<Longrightarrow> map_of (ar_active a) j = Some old \<Longrightarrow> jb_state old = StateRunning \<Longrightarrow> jb_state js = StateRunning \<Longrightarrow>
   table_inv (a\<lparr>ar_active := AList.update j js (ar_active a)\<rparr>)"
  unfolding table_inv_def by (auto simp: tally_simps update_conv' distinct_update)

lemma progress_locked_inv:
  assumes "table_inv a"
  shows "table_inv (progress_locked ev a)"
proof (cases "map_of (ar_active a) (pe_JobID ev)")
  case None
  let ?js = "with_progress ev (fresh_job StateRunning)"
  have "progress_locked ev a =
      a\<lparr>ar_active := AList.update (pe_JobID ev) ?js (ar_active a), ar_inFlight := add64 (ar_inFlight a) 1\<rparr>"
    using None by (simp add: progress_locked_def)
  then show ?thesis using add_job_inv(2) [OF assms None, of ?js] by simp
next
  case (Some js)
  show ?thesis
  proof (cases "jb_state js = StateQueued")
    case True
    have "table_inv ((start_queued (pe_JobID ev) js a)\<lparr>ar_active :=
        AList.update (pe_JobID ev) (with_progress ev (js\<lparr>jb_state := StateRunning\<rparr>)) (ar_active (start_queued (pe_JobID ev) js a))\<rparr>)"
      by (rule replace_running_inv [OF start_queued_inv [OF assms Some True], where old = "js\<lparr>jb_state := StateRunning\<rparr>"])
        (simp_all add: start_queued_def update_conv')
    with Some True show ?thesis by (simp add: progress_locked_def Let_def)
  next
    case False
    then have "jb_state js = StateRunning" using assms Some unfolding table_inv_def by blast
    with replace_running_inv [OF assms Some this, of "with_progress ev js"] Some False show ?thesis
      by (simp add: progress_locked_def Let_def)
  qed
qed

section \<open>One automaton per job\<close>

text \<open>
  The reference: what the messages say about one job, each job on its own. A job becomes known
  when it is queued, starts or reports progress, its first start or progress makes it running,
  and its completion or failure forgets it.
\<close>

datatype agg_msg = StateMsg "stateEvent json_in" | ProgressMsg "progressEvent json_in"

definition handle_msg :: "agg_msg \<Rightarrow> Aggregator \<Rightarrow> agg_err option \<times> Aggregator" where
  "handle_msg m a = (case m of StateMsg d \<Rightarrow> HandleState d a | ProgressMsg d \<Rightarrow> HandleProgress d a)"

definition run_msgs :: "agg_msg list \<Rightarrow> Aggregator \<Rightarrow> Aggregator" where
  "run_msgs ms a = fold (\<lambda>m a. snd (handle_msg m a)) ms a"

definition job_next :: "string \<Rightarrow> agg_msg \<Rightarrow> jobState option \<Rightarrow> jobState option" where
  "job_next j m cur =
     (case m of
        StateMsg d \<Rightarrow>
          (case check_state_event d of
             Inl e \<Rightarrow> cur
           | Inr ev \<Rightarrow>
               if se_JobID ev \<noteq> j then cur
               else if se_State ev = StateQueued then Some (case cur of None \<Rightarrow> fresh_job StateQueued | Some js \<Rightarrow> js)
               else if se_State ev = StateRunning
               then Some ((case cur of None \<Rightarrow> fresh_job StateRunning | Some js \<Rightarrow> js)\<lparr>jb_state := StateRunning\<rparr>)
               else None)
      | ProgressMsg d \<Rightarrow>
          (case check_progress_event d of
             Inl e \<Rightarrow> cur
           | Inr ev \<Rightarrow> if pe_JobID ev \<noteq> j then cur else Some (with_progress ev (fresh_job StateRunning))))"

definition job_after :: "string \<Rightarrow> agg_msg list \<Rightarrow> jobState option" where
  "job_after j ms = fold (job_next j) ms None"

definition reports :: "string \<Rightarrow> agg_msg \<Rightarrow> bool" where
  "reports st m = (case m of StateMsg d \<Rightarrow> (case check_state_event d of Inl e \<Rightarrow> False | Inr ev \<Rightarrow> se_State ev = st) | ProgressMsg d \<Rightarrow> False)"

lemma state_locked_lookup:
  assumes "table_inv a"
  shows "map_of (ar_active (state_locked ev a)) j =
    (let cur = map_of (ar_active a) j in
     if se_JobID ev \<noteq> j then cur
     else if se_State ev = StateQueued then Some (case cur of None \<Rightarrow> fresh_job StateQueued | Some js \<Rightarrow> js)
     else if se_State ev = StateRunning
     then Some ((case cur of None \<Rightarrow> fresh_job StateRunning | Some js \<Rightarrow> js)\<lparr>jb_state := StateRunning\<rparr>)
     else None)"
proof (cases "map_of (ar_active a) (se_JobID ev)")
  case None
  then show ?thesis by (auto simp: state_locked_def Let_def update_conv' fresh_job_def)
next
  case (Some js)
  have "js\<lparr>jb_state := StateRunning\<rparr> = js" if "jb_state js \<noteq> StateQueued"
    using assms Some that unfolding table_inv_def by fastforce
  with Some show ?thesis by (auto simp: state_locked_def Let_def start_queued_def forget_job_def update_conv' delete_conv')
qed

lemma progress_locked_lookup:
  assumes "table_inv a"
  shows "map_of (ar_active (progress_locked ev a)) j =
    (if pe_JobID ev \<noteq> j then map_of (ar_active a) j else Some (with_progress ev (fresh_job StateRunning)))"
proof (cases "map_of (ar_active a) (pe_JobID ev)")
  case None
  then show ?thesis by (simp add: progress_locked_def update_conv')
next
  case (Some js)
  then have "jb_state js = StateQueued \<or> jb_state js = StateRunning" using assms unfolding table_inv_def by blast
  then have "with_progress ev (js\<lparr>jb_state := StateRunning\<rparr>) = with_progress ev (fresh_job StateRunning)"
    "jb_state js \<noteq> StateQueued \<Longrightarrow> with_progress ev js = with_progress ev (fresh_job StateRunning)"
    by (auto simp: with_progress_def fresh_job_def)
  with Some show ?thesis by (auto simp: progress_locked_def Let_def start_queued_def update_conv')
qed

lemma announce_job_fields [simp]:
  "ar_active (announce_job j st a) = ar_active a" "ar_completed (announce_job j st a) = ar_completed a" "ar_failed (announce_job j st a) = ar_failed a"
  "ar_queued (announce_job j st a) = ar_queued a" "ar_inFlight (announce_job j st a) = ar_inFlight a"
  "table_inv (announce_job j st a) = table_inv a" "aggregateLocked (announce_job j st a) = aggregateLocked a"
  by (simp_all add: announce_job_def aggregateLocked_def)

lemma job_next_table:
  "table_inv a \<Longrightarrow> map_of (ar_active (snd (handle_msg m a))) j = job_next j m (map_of (ar_active a) j)"
  by (simp add: handle_msg_def HandleState_def HandleProgress_def job_next_def state_locked_lookup progress_locked_lookup Let_def
      split: agg_msg.splits sum.splits)

lemma handle_msg_inv: "table_inv a \<Longrightarrow> table_inv (snd (handle_msg m a))"
  by (simp add: handle_msg_def HandleState_def HandleProgress_def state_locked_inv progress_locked_inv Let_def
      split: agg_msg.splits sum.splits)

section \<open>Completions and failures, and the sticky aggregate\<close>

lemma forget_job_fields [simp]:
  "ar_completed (forget_job j js a) = ar_completed a" "ar_failed (forget_job j js a) = ar_failed a"
  by (simp_all add: forget_job_def Let_def)

lemma state_locked_ends:
  assumes "se_State ev \<in> {StateQueued, StateRunning, StateCompleted, StateFailed}"
  shows "ar_completed (state_locked ev a) = (if se_State ev = StateCompleted then add64 (ar_completed a) 1 else ar_completed a)"
    and "ar_failed (state_locked ev a) = (if se_State ev = StateFailed then add64 (ar_failed a) 1 else ar_failed a)"
  using assms by (auto simp: state_locked_def Let_def start_queued_def split: option.splits)

lemma progress_locked_ends:
  "ar_completed (progress_locked ev a) = ar_completed a" "ar_failed (progress_locked ev a) = ar_failed a"
  by (simp_all add: progress_locked_def Let_def start_queued_def split: option.splits)

lemma check_state_event_known:
  "check_state_event d = Inr ev \<Longrightarrow> se_State ev \<in> {StateQueued, StateRunning, StateCompleted, StateFailed}"
  by (auto simp: check_state_event_def split: sum.splits if_splits)

lemma handle_msg_ends:
  "ar_completed (snd (handle_msg m a)) = (if reports StateCompleted m then add64 (ar_completed a) 1 else ar_completed a)"
  "ar_failed (snd (handle_msg m a)) = (if reports StateFailed m then add64 (ar_failed a) 1 else ar_failed a)"
  by (auto simp: handle_msg_def HandleState_def HandleProgress_def reports_def Let_def progress_locked_ends
      state_locked_ends [OF check_state_event_known] split: agg_msg.splits sum.splits)

definition last_aggregate :: "'d Hub \<Rightarrow> 'd option" where
  "last_aggregate h = map_option ev_Data (map_of (hb_sticky h) ''aggregate'')"

lemma announce_job_sticky: "last_aggregate (ar_hub (announce_job j st a)) = Some (AggregatePayload (aggregateLocked a))"
  by (simp add: announce_job_def agg_publish_def last_aggregate_def PublishSticky_def Hub_Publish_def update_conv')

lemma handle_msg_sticky:
  "handle_msg m a = (e, a') \<Longrightarrow>
   (case e of None \<Rightarrow> last_aggregate (ar_hub a') = Some (AggregatePayload (Snapshot a')) | Some _ \<Rightarrow> a' = a)"
  by (auto simp: handle_msg_def HandleState_def HandleProgress_def Let_def announce_job_sticky Snapshot_def
      split: agg_msg.splits sum.splits)

lemma run_msgs_snoc: "run_msgs (ms @ [m]) a = snd (handle_msg m (run_msgs ms a))"
  by (simp add: run_msgs_def)

lemma run_msgs_inv: "table_inv (run_msgs ms (Aggregator_New h))"
  by (induction ms rule: rev_induct)
    (simp_all add: run_msgs_snoc handle_msg_inv, simp add: run_msgs_def Aggregator_New_def table_inv_def tally_def wrap64_def)

lemma run_msgs_table: "map_of (ar_active (run_msgs ms (Aggregator_New h))) j = job_after j ms"
  by (induction ms rule: rev_induct)
    (simp_all add: run_msgs_snoc job_next_table run_msgs_inv job_after_def, simp add: run_msgs_def Aggregator_New_def)

lemma run_msgs_ends:
  "ar_completed (run_msgs ms (Aggregator_New h)) = wrap64 (int (length (filter (reports StateCompleted) ms)))"
  "ar_failed (run_msgs ms (Aggregator_New h)) = wrap64 (int (length (filter (reports StateFailed) ms)))"
proof (induction ms rule: rev_induct)
  case Nil
  show "ar_completed (run_msgs [] (Aggregator_New h)) = wrap64 (int (length (filter (reports StateCompleted) [])))"
    "ar_failed (run_msgs [] (Aggregator_New h)) = wrap64 (int (length (filter (reports StateFailed) [])))"
    by (simp_all add: run_msgs_def Aggregator_New_def wrap64_def)
next
  case (snoc m ms)
  show "ar_completed (run_msgs (ms @ [m]) (Aggregator_New h)) = wrap64 (int (length (filter (reports StateCompleted) (ms @ [m]))))"
    "ar_failed (run_msgs (ms @ [m]) (Aggregator_New h)) = wrap64 (int (length (filter (reports StateFailed) (ms @ [m]))))"
    by (simp_all add: run_msgs_snoc handle_msg_ends snoc.IH add64_wrap algebra_simps)
qed

text \<open>Sums over the table are sums over the jobs.\<close>

lemma table_sum:
  assumes "distinct (map fst jobs)"
  shows "(\<Sum>p\<leftarrow>filter (\<lambda>p. P (snd p)) jobs. f (snd p)) = (\<Sum>j | \<exists>js. map_of jobs j = Some js \<and> P js. f (the (map_of jobs j)))"
proof -
  let ?xs = "filter (\<lambda>p. P (snd p)) jobs"
  have d: "distinct ?xs" using assms by (simp add: distinct_map)
  have m: "map_of jobs (fst p) = Some (snd p)" if "p \<in> set jobs" for p
    using assms that by (cases p) simp
  have inj: "inj_on fst (set ?xs)" using assms by (auto simp: distinct_map intro: inj_on_subset)
  have set: "fst ` set ?xs = {j. \<exists>js. map_of jobs j = Some js \<and> P js}"
    using assms by (force simp: map_of_eq_Some_iff)
  have "(\<Sum>p\<leftarrow>?xs. f (snd p)) = (\<Sum>p\<in>set ?xs. f (snd p))" by (rule sum_list_distinct_conv_sum_set [OF d])
  also have "\<dots> = (\<Sum>p\<in>set ?xs. f (the (map_of jobs (fst p))))" by (rule sum.cong) (auto simp: m)
  also have "\<dots> = (\<Sum>j\<in>fst ` set ?xs. f (the (map_of jobs j)))" by (subst sum.reindex [OF inj]) (simp add: o_def)
  finally show ?thesis by (simp only: set)
qed

lemma tally_card:
  assumes "distinct (map fst jobs)"
  shows "tally st jobs = int (card {j. \<exists>js. map_of jobs j = Some js \<and> jb_state js = st})"
  using table_sum [OF assms, where P = "\<lambda>js. jb_state js = st" and f = "\<lambda>_. 1 :: int"]
  by (simp add: tally_def sum_list_triv)

definition rejected :: "agg_msg \<Rightarrow> bool" where
  "rejected m = (case m of StateMsg d \<Rightarrow> isl (check_state_event d) | ProgressMsg d \<Rightarrow> isl (check_progress_event d))"

lemma rejected_err: "rejected m = (fst (handle_msg m a) \<noteq> None)"
  by (simp add: rejected_def handle_msg_def HandleState_def HandleProgress_def Let_def split: agg_msg.splits sum.splits)

lemma run_msgs_sticky:
  "last_aggregate (ar_hub (run_msgs ms (Aggregator_New h))) =
   (if list_all rejected ms then last_aggregate h else Some (AggregatePayload (Snapshot (run_msgs ms (Aggregator_New h)))))"
proof (induction ms rule: rev_induct)
  case Nil
  show ?case by (simp add: run_msgs_def Aggregator_New_def)
next
  case (snoc m ms)
  let ?a = "run_msgs ms (Aggregator_New h)"
  obtain e a' where m: "handle_msg m ?a = (e, a')" by fastforce
  have "rejected m \<longleftrightarrow> e \<noteq> None" using rejected_err [of m ?a] m by simp
  then show ?case using handle_msg_sticky [OF m] snoc.IH m by (cases e) (simp_all add: run_msgs_snoc)
qed

text \<open>The jobs in a given state, and the rate of all running ones, as the automata tell.\<close>

definition jobs_in :: "string \<Rightarrow> agg_msg list \<Rightarrow> string set" where
  "jobs_in st ms = {j. \<exists>js. job_after j ms = Some js \<and> jb_state js = st}"

definition rate_sum :: "(jobState \<Rightarrow> real) \<Rightarrow> agg_msg list \<Rightarrow> real" where
  "rate_sum f ms = (\<Sum>j\<in>jobs_in StateRunning ms. f (the (job_after j ms)))"

definition snapshot_of :: "agg_msg list \<Rightarrow> Aggregate" where
  "snapshot_of ms =
     \<lparr>ag_Queued = wrap64 (int (card (jobs_in StateQueued ms))),
      ag_InFlight = wrap64 (int (card (jobs_in StateRunning ms))),
      ag_Completed = wrap64 (int (length (filter (reports StateCompleted) ms))),
      ag_Failed = wrap64 (int (length (filter (reports StateFailed) ms))),
      ag_FarmFPS = rate_sum jb_fps ms, ag_AggregateSpeedX = rate_sum jb_speedX ms\<rparr>"

lemma run_msgs_snapshot: "Snapshot (run_msgs ms (Aggregator_New h)) = snapshot_of ms"
proof -
  let ?a = "run_msgs ms (Aggregator_New h)"
  have table: "map_of (ar_active ?a) = (\<lambda>j. job_after j ms)" by (rule ext) (rule run_msgs_table)
  have inv: "distinct (map fst (ar_active ?a))" "ar_queued ?a = wrap64 (tally StateQueued (ar_active ?a))"
    "ar_inFlight ?a = wrap64 (tally StateRunning (ar_active ?a))"
    using run_msgs_inv [of ms h] unfolding table_inv_def by blast+
  have sums: "(\<Sum>p\<leftarrow>running_only (ar_active ?a). f (snd p)) = rate_sum f ms" for f
    unfolding running_only_def rate_sum_def jobs_in_def using table_sum [OF inv(1), where P = "\<lambda>js. jb_state js = StateRunning" and f = f]
    by (simp add: table)
  show ?thesis
    unfolding Snapshot_def aggregateLocked_def snapshot_of_def inv(2,3) tally_card [OF inv(1)] run_msgs_ends sums
    by (simp add: table jobs_in_def)
qed

section \<open>The two subscriptions\<close>

text \<open>
  The broker client runs one goroutine per subscription, which hands it the messages of its
  subject one after the other. So at most one state and one progress handler are under way at a
  time, and they interleave at three points: the section under the mutex, which fixes what is to be
  published, and the two publications after the unlock. \<open>agg_run h ms s\<close>: from an aggregator
  over the hub \<open>h\<close> the system can reach \<open>s\<close>, where \<open>ms\<close> are the messages in the order in which
  their handlers took the mutex (or rejected them).
\<close>

datatype subscription = StateSub | ProgressSub

definition sub_of :: "agg_msg \<Rightarrow> subscription" where
  "sub_of m = (case m of StateMsg _ \<Rightarrow> StateSub | ProgressMsg _ \<Rightarrow> ProgressSub)"

datatype publication = Idle | BothLeft JobStreamEvent Aggregate | AggregateLeft Aggregate

record agg_sys =
  as_agg :: Aggregator
  as_pending :: "subscription \<Rightarrow> publication"

definition lock_msg :: "agg_msg \<Rightarrow> Aggregator \<Rightarrow> (Aggregator \<times> JobStreamEvent \<times> Aggregate) option" where
  "lock_msg m a =
     (case m of
        StateMsg d \<Rightarrow>
          (case check_state_event d of
             Inl e \<Rightarrow> None
           | Inr ev \<Rightarrow>
               let a1 = state_locked ev a
               in Some (a1, jobEventLocked (se_JobID ev) (se_State ev) a1, aggregateLocked a1))
      | ProgressMsg d \<Rightarrow>
          (case check_progress_event d of
             Inl e \<Rightarrow> None
           | Inr ev \<Rightarrow>
               let a1 = progress_locked ev a;
                   st = (case map_of (ar_active a1) (pe_JobID ev) of Some js \<Rightarrow> jb_state js | None \<Rightarrow> [])
               in Some (a1, jobEventLocked (pe_JobID ev) st a1, aggregateLocked a1)))"

definition publish_job_event :: "JobStreamEvent \<Rightarrow> Aggregator \<Rightarrow> Aggregator" where
  "publish_job_event job a = a\<lparr>ar_hub := Hub_Publish \<lparr>ev_Name = ''job'', ev_Data = JobPayload job, ev_Tag = []\<rparr> (ar_hub a)\<rparr>"

definition publish_aggregate :: "Aggregate \<Rightarrow> Aggregator \<Rightarrow> Aggregator" where
  "publish_aggregate agg a =
     a\<lparr>ar_hub := PublishSticky \<lparr>ev_Name = ''aggregate'', ev_Data = AggregatePayload agg, ev_Tag = []\<rparr> (ar_hub a)\<rparr>"

inductive agg_run :: "job_payload Hub \<Rightarrow> agg_msg list \<Rightarrow> agg_sys \<Rightarrow> bool" for h where
  start: "agg_run h [] \<lparr>as_agg = Aggregator_New h, as_pending = (\<lambda>_. Idle)\<rparr>"
| reject: "agg_run h ms s \<Longrightarrow> as_pending s (sub_of m) = Idle \<Longrightarrow> lock_msg m (as_agg s) = None \<Longrightarrow>
    agg_run h (ms @ [m]) s"
| locked: "agg_run h ms s \<Longrightarrow> as_pending s (sub_of m) = Idle \<Longrightarrow> lock_msg m (as_agg s) = Some (a, job, agg) \<Longrightarrow>
    agg_run h (ms @ [m]) \<lparr>as_agg = a, as_pending = (as_pending s)(sub_of m := BothLeft job agg)\<rparr>"
| job_published: "agg_run h ms s \<Longrightarrow> as_pending s x = BothLeft job agg \<Longrightarrow>
    agg_run h ms \<lparr>as_agg = publish_job_event job (as_agg s), as_pending = (as_pending s)(x := AggregateLeft agg)\<rparr>"
| aggregate_published: "agg_run h ms s \<Longrightarrow> as_pending s x = AggregateLeft agg \<Longrightarrow>
    agg_run h ms \<lparr>as_agg = publish_aggregate agg (as_agg s), as_pending = (as_pending s)(x := Idle)\<rparr>"

text \<open>A handler that runs alone goes through these steps.\<close>

lemma handle_msg_steps:
  "snd (handle_msg m a) = (case lock_msg m a of None \<Rightarrow> a
     | Some (a1, job, agg) \<Rightarrow> publish_aggregate agg (publish_job_event job a1))"
  by (simp add: handle_msg_def HandleState_def HandleProgress_def lock_msg_def announce_job_def agg_publish_def
      publish_aggregate_def publish_job_event_def Let_def split: agg_msg.splits sum.splits)

lemma lock_msg_rejected: "lock_msg m a = None \<longleftrightarrow> rejected m"
  by (simp add: lock_msg_def rejected_def Let_def split: agg_msg.splits sum.splits)

text \<open>The table does not depend on what was published, nor when.\<close>

definition over_hub :: "job_payload Hub \<Rightarrow> Aggregator \<Rightarrow> Aggregator" where
  "over_hub g a = a\<lparr>ar_hub := g\<rparr>"

lemma over_hub_fields [simp]:
  "ar_active (over_hub g a) = ar_active a" "ar_queued (over_hub g a) = ar_queued a" "ar_inFlight (over_hub g a) = ar_inFlight a"
  "ar_completed (over_hub g a) = ar_completed a" "ar_failed (over_hub g a) = ar_failed a" "ar_hub (over_hub g a) = g"
  "over_hub g (over_hub g' a) = over_hub g a"
  "aggregateLocked (over_hub g a) = aggregateLocked a" "jobEventLocked j st (over_hub g a) = jobEventLocked j st a"
  "over_hub g (publish_job_event job a) = over_hub g a" "over_hub g (publish_aggregate agg a) = over_hub g a"
  by (simp_all add: over_hub_def aggregateLocked_def jobEventLocked_def publish_job_event_def publish_aggregate_def Let_def)

lemma state_locked_hub: "state_locked ev (over_hub g a) = over_hub g (state_locked ev a)"
  by (simp add: state_locked_def over_hub_def start_queued_def forget_job_def Let_def split: option.splits)

lemma progress_locked_hub: "progress_locked ev (over_hub g a) = over_hub g (progress_locked ev a)"
  by (simp add: progress_locked_def over_hub_def start_queued_def Let_def split: option.splits)

lemma lock_msg_hub:
  "lock_msg m (over_hub g a) = map_option (\<lambda>(a1, job, agg). (over_hub g a1, job, agg)) (lock_msg m a)"
  by (simp add: lock_msg_def state_locked_hub progress_locked_hub Let_def split: agg_msg.splits sum.splits)

lemma run_table:
  "agg_run h ms s \<Longrightarrow> over_hub h (as_agg s) = over_hub h (run_msgs ms (Aggregator_New h))"
proof (induction rule: agg_run.induct)
  case start
  show ?case by (simp add: run_msgs_def)
next
  case (reject ms s m)
  then show ?case using lock_msg_rejected [of m] by (simp add: run_msgs_snoc handle_msg_steps)
next
  case (locked ms s m a job agg)
  have "lock_msg m (over_hub h (run_msgs ms (Aggregator_New h))) = Some (over_hub h a, job, agg)"
    using locked.hyps(3) unfolding locked.IH [symmetric] by (simp add: lock_msg_hub)
  then show ?case by (auto simp: lock_msg_hub run_msgs_snoc handle_msg_steps)
qed simp_all

lemma run_snapshot: "agg_run h ms s \<Longrightarrow> aggregateLocked (as_agg s) = snapshot_of ms"
  using arg_cong [OF run_table, of h ms s aggregateLocked] run_msgs_snapshot [of ms h] by (simp add: Snapshot_def)

text \<open>The messages up to the last accepted one of a subscription.\<close>

definition upto_last :: "subscription \<Rightarrow> agg_msg list \<Rightarrow> agg_msg list" where
  "upto_last x ms = rev (dropWhile (\<lambda>m. rejected m \<or> sub_of m \<noteq> x) (rev ms))"

lemma upto_last_snoc: "upto_last x (ms @ [m]) = (if rejected m \<or> sub_of m \<noteq> x then upto_last x ms else ms @ [m])"
  by (simp add: upto_last_def)

lemma upto_last_accepted: "upto_last x ms \<noteq> [] \<Longrightarrow> \<not> list_all rejected ms"
  by (auto simp: upto_last_def list_all_iff)

fun left_to_publish :: "publication \<Rightarrow> Aggregate option" where
  "left_to_publish Idle = None"
| "left_to_publish (BothLeft _ agg) = Some agg"
| "left_to_publish (AggregateLeft agg) = Some agg"

lemma run_pending:
  "agg_run h ms s \<Longrightarrow> left_to_publish (as_pending s x) = Some agg \<Longrightarrow>
   upto_last x ms \<noteq> [] \<and> agg = snapshot_of (upto_last x ms)"
proof (induction arbitrary: x agg rule: agg_run.induct)
  case (reject ms s m)
  then show ?case using lock_msg_rejected [of m] by (simp add: upto_last_snoc)
next
  case (locked ms s m a job g)
  have r: "\<not> rejected m" using locked.hyps(3) lock_msg_rejected [of m "as_agg s"] by simp
  have "g = aggregateLocked a" using locked.hyps(3)
    by (auto simp: lock_msg_def Let_def split: agg_msg.splits sum.splits)
  then have "g = snapshot_of (ms @ [m])" using run_snapshot [OF agg_run.locked [OF locked.hyps]] by simp
  with r locked.IH locked.prems show ?case by (auto simp: upto_last_snoc split: if_splits)
next
  case (job_published ms s y job g)
  then show ?case by (auto split: if_splits)
next
  case (aggregate_published ms s y g)
  then show ?case by (auto split: if_splits)
qed simp

lemma publish_aggregate_sticky: "last_aggregate (ar_hub (publish_aggregate agg a)) = Some (AggregatePayload agg)"
  by (simp add: publish_aggregate_def last_aggregate_def PublishSticky_def Hub_Publish_def update_conv')

lemma publish_job_event_sticky: "last_aggregate (ar_hub (publish_job_event job a)) = last_aggregate (ar_hub a)"
  by (simp add: publish_job_event_def last_aggregate_def Hub_Publish_def)

lemma lock_msg_sticky: "lock_msg m a = Some (a1, job, agg) \<Longrightarrow> ar_hub a1 = ar_hub a"
  by (auto simp: lock_msg_def Let_def state_locked_def progress_locked_def start_queued_def forget_job_def
      split: agg_msg.splits sum.splits option.splits if_splits)

text \<open>While no publication is under way, the sticky aggregate is that of the last publisher.\<close>

definition sticky_current :: "job_payload Hub \<Rightarrow> agg_msg list \<Rightarrow> job_payload option \<Rightarrow> bool" where
  "sticky_current h ms shown \<longleftrightarrow>
     (if list_all rejected ms then shown = last_aggregate h
      else \<exists>x. upto_last x ms \<noteq> [] \<and> shown = Some (AggregatePayload (snapshot_of (upto_last x ms))))"

lemma run_sticky:
  "agg_run h ms s \<Longrightarrow> \<forall>x. as_pending s x = Idle \<Longrightarrow> sticky_current h ms (last_aggregate (ar_hub (as_agg s)))"
proof (induction rule: agg_run.induct)
  case start
  show ?case by (simp add: sticky_current_def Aggregator_New_def)
next
  case (reject ms s m)
  then show ?case using lock_msg_rejected [of m] by (simp add: sticky_current_def upto_last_snoc)
next
  case (aggregate_published ms s x agg)
  have "left_to_publish (as_pending s x) = Some agg" using aggregate_published.hyps(2) by simp
  from run_pending [OF aggregate_published.hyps(1) this] show ?case
    using upto_last_accepted by (auto simp: sticky_current_def publish_aggregate_sticky)
qed (auto split: if_splits)

text \<open>
  C30. The aggregator refines one automaton per job. Let the state and the progress subscription
  deliver any messages, well formed or not, and let their handlers interleave in any way. At every
  moment the table holds for each job what the messages about that job alone say, in the order in
  which they took the mutex; the counters are the numbers of jobs queued and in flight and the
  numbers of completions and failures accepted (as 64-bit integers), and the rates are the sums over
  the running jobs. Whenever no handler is between its unlock and its publications, the sticky
  aggregate that a new subscriber receives is the one from before if every message was rejected, and
  otherwise the table as it was right after the last accepted message of one of the two
  subscriptions: it can lack later messages of the other one, as the publications are not ordered.
  When the handlers run one after the other it is the current table.
\<close>

theorem aggregator_refines_automata:
  assumes "agg_run h ms s"
  shows "map_of (ar_active (as_agg s)) = (\<lambda>j. job_after j ms) \<and> Snapshot (as_agg s) = snapshot_of ms \<and>
    ((\<forall>x. as_pending s x = Idle) \<longrightarrow> sticky_current h ms (last_aggregate (ar_hub (as_agg s)))) \<and>
    last_aggregate (ar_hub (run_msgs ms (Aggregator_New h))) =
      (if list_all rejected ms then last_aggregate h else Some (AggregatePayload (snapshot_of ms)))"
proof -
  have "ar_active (as_agg s) = ar_active (run_msgs ms (Aggregator_New h))"
    using arg_cong [OF run_table [OF assms], of ar_active] by simp
  then have "map_of (ar_active (as_agg s)) = (\<lambda>j. job_after j ms)" by (simp add: run_msgs_table fun_eq_iff)
  moreover have "(\<forall>x. as_pending s x = Idle) \<longrightarrow> sticky_current h ms (last_aggregate (ar_hub (as_agg s)))"
    using run_sticky [OF assms] by blast
  ultimately show ?thesis
    using run_snapshot [OF assms] run_msgs_sticky [of ms h] by (simp add: Snapshot_def run_msgs_snapshot flip: Snapshot_def)
qed

section \<open>What two subscriptions can do\<close>

text \<open>
  State and progress arrive on separate subscriptions, so a progress report may be handled after
  the completion of its job. It makes the job known again, and the job then counts as running
  until another completion or failure of the same job is reported.
\<close>

definition ends :: "string \<Rightarrow> agg_msg \<Rightarrow> bool" where
  "ends j m = (case m of
     StateMsg d \<Rightarrow> (case check_state_event d of Inl e \<Rightarrow> False | Inr ev \<Rightarrow> se_JobID ev = j \<and> se_State ev \<in> {StateCompleted, StateFailed})
   | ProgressMsg d \<Rightarrow> False)"

lemma running_stays:
  assumes "cur = Some js" "jb_state js = StateRunning" "\<not> ends j m"
  shows "\<exists>js'. job_next j m cur = Some js' \<and> jb_state js' = StateRunning"
proof (cases m)
  case (StateMsg d)
  show ?thesis
  proof (cases "check_state_event d")
    case (Inr ev)
    from check_state_event_known [OF this] assms StateMsg Inr show ?thesis by (auto simp: job_next_def ends_def)
  qed (use assms StateMsg in \<open>simp add: job_next_def\<close>)
qed (use assms in \<open>simp add: job_next_def split: sum.splits\<close>)

lemma late_progress_revives:
  assumes "check_progress_event q = Inr pv" "pe_JobID pv = j" "\<forall>m\<in>set rest. \<not> ends j m"
  shows "j \<in> jobs_in StateRunning (ms @ [ProgressMsg q] @ rest)"
  using assms(3)
proof (induction rest rule: rev_induct)
  case Nil
  then show ?case using assms(1,2) by (simp add: jobs_in_def job_after_def job_next_def)
next
  case (snoc m rest)
  then obtain js where "job_after j (ms @ [ProgressMsg q] @ rest) = Some js" "jb_state js = StateRunning"
    by (auto simp: jobs_in_def)
  from running_stays [OF this, of j m] snoc.prems show ?case by (simp add: jobs_in_def job_after_def)
qed

text \<open>
  The publication happens after the unlock. Two handlers may unlock in one order and publish in
  the other: the sticky aggregate is then the older one, and stays until the next message.
\<close>

definition ex_started :: stateEvent where
  "ex_started = \<lparr>se_JobID = ''j'', se_WorkspaceID = ''w'', se_State = StateRunning, se_At = 1\<rparr>"

definition ex_report :: progressEvent where
  "ex_report = \<lparr>pe_JobID = ''j'', pe_WorkspaceID = ''w'', pe_FPS = 25, pe_SpeedX = 1, pe_EtaSeconds = 9, pe_ProgressPct = 10, pe_At = 2\<rparr>"

definition ex_msgs :: "agg_msg list" where
  "ex_msgs = [StateMsg (JsonValue ex_started []), ProgressMsg (JsonValue ex_report [])]"

definition ex_overtaken :: "job_payload Hub \<Rightarrow> agg_sys" where
  "ex_overtaken h =
     (let a1 = state_locked ex_started (Aggregator_New h); a2 = progress_locked ex_report a1
      in \<lparr>as_agg = publish_aggregate (aggregateLocked a1) (publish_job_event (jobEventLocked ''j'' StateRunning a1)
            (publish_aggregate (aggregateLocked a2) (publish_job_event (jobEventLocked ''j'' StateRunning a2) a2))),
          as_pending = (\<lambda>_. Idle)\<rparr>)"

lemma ex_overtaken_run: "agg_run h ex_msgs (ex_overtaken h)"
proof -
  define a1 where "a1 = state_locked ex_started (Aggregator_New h)"
  define a2 where "a2 = progress_locked ex_report a1"
  define j1 where "j1 = jobEventLocked ''j'' StateRunning a1"
  define j2 where "j2 = jobEventLocked ''j'' StateRunning a2"
  note defs = lock_msg_def check_state_event_def check_progress_event_def strictUnmarshal_def dec_More_def sub_of_def
  have l1: "lock_msg (StateMsg (JsonValue ex_started [])) (Aggregator_New h) = Some (a1, j1, aggregateLocked a1)"
    by (simp add: defs a1_def j1_def Let_def) (simp add: ex_started_def)
  have "map_of (ar_active a2) ''j'' = Some (with_progress ex_report (fresh_job StateRunning))"
    using progress_locked_lookup [of a1 ex_report "''j''"] state_locked_inv run_msgs_inv [of "[]" h]
    by (simp add: a2_def a1_def run_msgs_def ex_report_def)
  then have l2: "lock_msg (ProgressMsg (JsonValue ex_report [])) a1 = Some (a2, j2, aggregateLocked a2)"
    by (simp add: defs a2_def j2_def Let_def) (simp add: ex_report_def)
  note run = agg_run.locked [OF agg_run.start, where m = "StateMsg (JsonValue ex_started [])", simplified, OF l1]
  note run = agg_run.locked [OF run, where m = "ProgressMsg (JsonValue ex_report [])", simplified sub_of_def, simplified, OF l2]
  note run = agg_run.job_published [OF run, where x = ProgressSub and job = j2 and agg = "aggregateLocked a2", simplified]
  note run = agg_run.aggregate_published [OF run, where x = ProgressSub and agg = "aggregateLocked a2", simplified]
  note run = agg_run.job_published [OF run, where x = StateSub and job = j1 and agg = "aggregateLocked a1", simplified]
  note run = agg_run.aggregate_published [OF run, where x = StateSub and agg = "aggregateLocked a1", simplified]
  have idle: "(\<lambda>_. Idle)(ProgressSub := Idle, StateSub := Idle) = (\<lambda>_. Idle)"
    by (rule ext) simp
  show ?thesis using run by (simp add: ex_msgs_def ex_overtaken_def Let_def a1_def a2_def j1_def j2_def idle)
qed

theorem aggregator_refines_automata_witness:
  "map_of (ar_active (as_agg (ex_overtaken (Hub_New 8)))) ''j'' = job_after ''j'' ex_msgs \<and>
   sticky_current (Hub_New 8) ex_msgs (last_aggregate (ar_hub (as_agg (ex_overtaken (Hub_New 8)))))"
  using aggregator_refines_automata [OF ex_overtaken_run [of "Hub_New 8"]] by (simp add: ex_overtaken_def Let_def)

lemma sticky_aggregate_may_be_stale:
  "agg_run h ex_msgs (ex_overtaken h) \<and> (\<forall>x. as_pending (ex_overtaken h) x = Idle) \<and>
   last_aggregate (ar_hub (as_agg (ex_overtaken h))) \<noteq> Some (AggregatePayload (Snapshot (as_agg (ex_overtaken h))))"
proof -
  have "last_aggregate (ar_hub (as_agg (ex_overtaken h))) \<noteq> Some (AggregatePayload (Snapshot (as_agg (ex_overtaken h))))"
    by (simp add: ex_overtaken_def Let_def publish_aggregate_sticky)
      (simp add: publish_aggregate_def publish_job_event_def Snapshot_def aggregateLocked_def running_only_def
        progress_locked_def state_locked_def ex_started_def ex_report_def Aggregator_New_def fresh_job_def with_progress_def Let_def)
  then show ?thesis using ex_overtaken_run by (simp add: ex_overtaken_def Let_def)
qed

end
