(* ===== verification/TelHttp.thy ===== *)
theory TelHttp
  imports TelHardware TelJobs TelFrames Base64 ServeMux
begin

text \<open>
  The boundary of the telemetry service: the log consumer (\<open>internal/logstream/logstream.go\<close>), the
  bearer-token middleware (\<open>internal/auth/auth.go\<close>), the stream endpoints
  (\<open>internal/server/server.go\<close>) and the configuration (\<open>internal/config/config.go\<close>). The JWT library
  and \<open>url.Parse\<close> are arguments.
\<close>

section \<open>Log events (logstream.go)\<close>

definition SubjectLog :: string where
  "SubjectLog = ''aether.ft.log.v1''"

record LogStreamEvent =
  ls_Line :: string
  ls_Tag :: string
  ls_Level :: string
  ls_At :: int

definition is_lower :: "char \<Rightarrow> bool" where
  "is_lower c \<longleftrightarrow> between CHR ''a'' CHR ''z'' c"

definition is_tag_char :: "char \<Rightarrow> bool" where
  "is_tag_char c \<longleftrightarrow> is_lower c \<or> is_digit c \<or> c = CHR ''_'' \<or> c = CHR ''-''"

definition TagPattern :: "string \<Rightarrow> bool" where
  "TagPattern s = (case s of [] \<Rightarrow> False | c # cs \<Rightarrow> is_lower c \<and> match_class is_tag_char 0 31 cs)"

definition levels :: "string set" where
  "levels = {''debug'', ''info'', ''warn'', ''error''}"

datatype log_err = LogDecode string | LogLineMissing | LogLineLong | LogTag string | LogLevel string | LogAtMissing | LogMarshal

text \<open>
  Times are nanoseconds since Go's zero time, January 1 of year 1; \<open>Truncate\<close> rounds down. A time
  marshals if its year in UTC lies between 0 and 9999, which the zone offset of the input can
  leave.
\<close>

definition truncate_ms :: "int \<Rightarrow> int" where
  "truncate_ms t = t - t mod 1000000"

definition marshal_year_ok :: "int \<Rightarrow> bool" where
  "marshal_year_ok t \<longleftrightarrow> - (366 * 86400 * 1000000000) \<le> t \<and> t < 3652059 * 86400 * 1000000000"

definition check_log_event :: "LogStreamEvent json_in \<Rightarrow> log_err + LogStreamEvent" where
  "check_log_event data =
     (case strictUnmarshal data of
        Inl e \<Rightarrow> Inl (LogDecode e)
      | Inr ev \<Rightarrow>
          if ls_Line ev = [] then Inl LogLineMissing
          else if length (ls_Line ev) > 8192 then Inl LogLineLong
          else if \<not> TagPattern (ls_Tag ev) then Inl (LogTag (ls_Tag ev))
          else if ls_Level ev \<notin> levels then Inl (LogLevel (ls_Level ev))
          else if ls_At ev = 0 then Inl LogAtMissing
          else let ev = ev\<lparr>ls_At := truncate_ms (ls_At ev)\<rparr>
               in if marshal_year_ok (ls_At ev) then Inr ev else Inl LogMarshal)"

definition log_event :: "LogStreamEvent \<Rightarrow> LogStreamEvent Event" where
  "log_event ev = \<lparr>ev_Name = ''log'', ev_Data = ev, ev_Tag = ls_Tag ev\<rparr>"

definition Log_Handle :: "LogStreamEvent json_in \<Rightarrow> LogStreamEvent Hub \<Rightarrow> log_err option \<times> LogStreamEvent Hub" where
  "Log_Handle data h =
     (case check_log_event data of
        Inl e \<Rightarrow> (Some e, h)
      | Inr ev \<Rightarrow> (None, Hub_Publish (log_event ev) h))"

section \<open>Bearer tokens (auth.go)\<close>

record TelIdentity =
  ti_UserID :: string
  ti_WorkspaceID :: string

definition Tel_NewVerifier :: "string \<Rightarrow> string option" where
  "Tel_NewVerifier key = (if length key < 32 then None else Some key)"

text \<open>
  \<open>parse key token\<close> is \<open>jwt.ParseWithClaims\<close> with the options the code passes (HS256 only, expiry
  required): the subject and workspace claims of a valid token.
\<close>

definition Tel_Verify :: "(string \<Rightarrow> string \<Rightarrow> (string \<times> string) option) \<Rightarrow> string \<Rightarrow> string \<Rightarrow> TelIdentity option" where
  "Tel_Verify parse key token =
     (case parse key token of
        None \<Rightarrow> None
      | Some (sub, ws) \<Rightarrow>
          if sub = [] then None
          else if ws = [] then None
          else Some \<lparr>ti_UserID = sub, ti_WorkspaceID = ws\<rparr>)"

section \<open>Endpoints (server.go)\<close>

datatype tel_resp = TelJson int "(string \<times> string) list" | SseStream nat | TelMux mux_reply

type_synonym url_query = "(string \<times> string list) list"

definition unauthorized :: tel_resp where
  "unauthorized = TelJson 401 [(''error'', ''unauthorized'')]"

definition badRequest :: "string \<Rightarrow> tel_resp" where
  "badRequest msg = TelJson 400 [(''error'', msg)]"

definition Tel_Middleware ::
  "(string \<Rightarrow> string \<Rightarrow> (string \<times> string) option) \<Rightarrow> string \<Rightarrow> string \<Rightarrow>
   (TelIdentity \<Rightarrow> 's \<Rightarrow> tel_resp \<times> 's) \<Rightarrow> 's \<Rightarrow> tel_resp \<times> 's" where
  "Tel_Middleware parse key authorization next =
     (if \<not> has_prefix ''Bearer '' authorization then ret unauthorized
      else case Tel_Verify parse key (trim_prefix ''Bearer '' authorization) of
             None \<Rightarrow> ret unauthorized
           | Some i \<Rightarrow> next i)"

text \<open>
  \<open>ServeSSE\<close> up to the first write: the subscription, and the refusal of a writer that cannot
  flush, which ends it. \<open>order\<close> is the iteration order of the sticky events.
\<close>

definition ServeSSE :: "'d Event list \<Rightarrow> bool \<Rightarrow> ('d Event \<Rightarrow> bool) option \<Rightarrow> 'd Hub \<Rightarrow> tel_resp \<times> 'd Hub" where
  "ServeSSE order flusher filt h =
     (case Subscribe order filt h of
        (i, h1) \<Rightarrow> if flusher then (SseStream i, h1)
                   else (TelJson 500 [(''error'', ''streaming unsupported'')], Unsubscribe i h1))"

definition streamHandler :: "'d Event list \<Rightarrow> bool \<Rightarrow> url_query \<Rightarrow> 'd Hub \<Rightarrow> tel_resp \<times> 'd Hub" where
  "streamHandler order flusher query h =
     (if query \<noteq> [] then (badRequest ''unexpected query parameters'', h) else ServeSSE order flusher None h)"

definition query_Get :: "string \<Rightarrow> url_query \<Rightarrow> string" where
  "query_Get k q = (case map_of q k of Some (v # _) \<Rightarrow> v | _ \<Rightarrow> [])"

text \<open>The parameters are ranged over in the order of the list: Go leaves it open.\<close>

definition logsHandler ::
  "LogStreamEvent Event list \<Rightarrow> bool \<Rightarrow> url_query \<Rightarrow> LogStreamEvent Hub \<Rightarrow> tel_resp \<times> LogStreamEvent Hub" where
  "logsHandler order flusher q h =
     (case List.find (\<lambda>p. fst p \<noteq> ''tag'') q of
        Some p \<Rightarrow> (badRequest (''unexpected query parameter '' @ fst p), h)
      | None \<Rightarrow>
          (let tag = query_Get ''tag'' q in
           if tag = [] then ServeSSE order flusher None h
           else if \<not> TagPattern tag then (badRequest ''invalid tag filter'', h)
           else ServeSSE order flusher (Some (\<lambda>ev. ev_Tag ev = tag)) h))"

record tel_hubs =
  th_hardware :: "hw_payload Hub"
  th_jobs :: "job_payload Hub"
  th_logs :: "LogStreamEvent Hub"

datatype tel_route = Healthz | StreamHardware | StreamJobs | StreamLogs

record tel_request =
  tr_authorization :: string
  tr_query :: url_query
  tr_flusher :: bool

definition healthz :: "(string \<times> string) list option \<Rightarrow> tel_resp" where
  "healthz health =
     TelJson 200 (case health of None \<Rightarrow> [(''status'', ''ok'')] | Some kvs \<Rightarrow> fold (\<lambda>(k, v) b. AList.update k v b) kvs [(''status'', ''ok'')])"

text \<open>The handler \<open>New\<close> builds, per route; \<open>order\<close> lists the sticky events of the three hubs.\<close>

definition serve ::
  "(string \<Rightarrow> string \<Rightarrow> (string \<times> string) option) \<Rightarrow> string \<Rightarrow> (string \<times> string) list option \<Rightarrow>
   hw_payload Event list \<times> job_payload Event list \<times> LogStreamEvent Event list \<Rightarrow>
   tel_route \<Rightarrow> tel_request \<Rightarrow> tel_hubs \<Rightarrow> tel_resp \<times> tel_hubs" where
  "serve parse key health order route r =
     (let protect = Tel_Middleware parse key (tr_authorization r) in
      case route of
        Healthz \<Rightarrow> ret (healthz health)
      | StreamHardware \<Rightarrow> protect (\<lambda>_ s. case streamHandler (fst order) (tr_flusher r) (tr_query r) (th_hardware s) of
                                      (resp, h) \<Rightarrow> (resp, s\<lparr>th_hardware := h\<rparr>))
      | StreamJobs \<Rightarrow> protect (\<lambda>_ s. case streamHandler (fst (snd order)) (tr_flusher r) (tr_query r) (th_jobs s) of
                                      (resp, h) \<Rightarrow> (resp, s\<lparr>th_jobs := h\<rparr>))
      | StreamLogs \<Rightarrow> protect (\<lambda>_ s. case logsHandler (snd (snd order)) (tr_flusher r) (tr_query r) (th_logs s) of
                                      (resp, h) \<Rightarrow> (resp, s\<lparr>th_logs := h\<rparr>)))"

section \<open>Configuration (config.go)\<close>

record TelConfig =
  tk_ListenAddr :: string
  tk_AuthHS256Key :: string
  tk_NATSURL :: string
  tk_StreamBufferSize :: int
  tk_HeartbeatInterval :: int
  tk_SampleInterval :: int

datatype tel_cfg_err = TcListenAddr | TcPort | TcKeyMissing | TcKeyEncoding | TcKeyShort | TcNATSURL | TcBuffer

definition getenv_or :: "(string \<Rightarrow> string) \<Rightarrow> string \<Rightarrow> string \<Rightarrow> string" where
  "getenv_or getenv key d = (if getenv key \<noteq> [] then getenv key else d)"

text \<open>\<open>url_parse\<close> gives the scheme and the host of a URL.\<close>

definition Tel_Load :: "(string \<Rightarrow> (string \<times> string) option) \<Rightarrow> (string \<Rightarrow> string) \<Rightarrow> tel_cfg_err + TelConfig" where
  "Tel_Load url_parse getenv =
     (let c = \<lparr>tk_ListenAddr = getenv_or getenv ''TELEMETRY_LISTEN_ADDR'' ''127.0.0.1:8094'', tk_AuthHS256Key = [],
               tk_NATSURL = getenv_or getenv ''TELEMETRY_NATS_URL'' ''nats://127.0.0.1:4222'',
               tk_StreamBufferSize = 256, tk_HeartbeatInterval = 15 * 1000000000, tk_SampleInterval = 1000000000\<rparr>
      in case SplitHostPort (tk_ListenAddr c) of
        None \<Rightarrow> Inl TcListenAddr
      | Some (host, port) \<Rightarrow>
          if host = [] \<or> port = [] then Inl TcListenAddr
          else if ParseUint 16 port = None then Inl TcPort
          else
            (let keyB64 = getenv ''TELEMETRY_AUTH_HS256_KEY'' in
             if keyB64 = [] then Inl TcKeyMissing
             else case DecodeString url_alphabet keyB64 of
               None \<Rightarrow> Inl TcKeyEncoding
             | Some key \<Rightarrow>
                 if length key < 32 then Inl TcKeyShort
                 else
                   (let c1 = c\<lparr>tk_AuthHS256Key := key\<rparr> in
                    case url_parse (tk_NATSURL c1) of
                      None \<Rightarrow> Inl TcNATSURL
                    | Some (scheme, h) \<Rightarrow>
                        if (scheme \<noteq> ''nats'' \<and> scheme \<noteq> ''tls'') \<or> h = [] then Inl TcNATSURL
                        else
                          (let raw = getenv ''TELEMETRY_STREAM_BUFFER'' in
                           if raw = [] then Inr c1
                           else case ParseInt raw of
                             None \<Rightarrow> Inl TcBuffer
                           | Some n \<Rightarrow> if n < 16 \<or> n > 4096 then Inl TcBuffer else Inr (c1\<lparr>tk_StreamBufferSize := n\<rparr>)))))"

lemma Tel_Load_limits:
  "Tel_Load url_parse getenv = Inr cfg \<Longrightarrow>
     32 \<le> length (tk_AuthHS256Key cfg) \<and> 16 \<le> tk_StreamBufferSize cfg \<and> tk_StreamBufferSize cfg \<le> 4096 \<and>
     Tel_NewVerifier (tk_AuthHS256Key cfg) = Some (tk_AuthHS256Key cfg)"
  by (auto simp: Tel_Load_def Let_def Tel_NewVerifier_def split: option.splits if_splits)

section \<open>Properties\<close>

text \<open>Which filter a query asks for, if the endpoint accepts it.\<close>

definition wanted :: "tel_route \<Rightarrow> url_query \<Rightarrow> string option" where
  "wanted route q =
     (if route = StreamLogs then
        (if list_all (\<lambda>p. fst p = ''tag'') q \<and> (query_Get ''tag'' q = [] \<or> TagPattern (query_Get ''tag'' q))
         then Some (query_Get ''tag'' q) else None)
      else if q = [] then Some [] else None)"

lemma find_not_tag: "List.find (\<lambda>p. fst p \<noteq> ''tag'') q = None \<longleftrightarrow> list_all (\<lambda>p. fst p = ''tag'') q"
  by (auto simp: find_None_iff list_all_iff)

lemma ServeSSE_streams: "(\<exists>i. fst (ServeSSE order flusher filt h) = SseStream i) \<longleftrightarrow> flusher"
  by (simp add: ServeSSE_def split: prod.splits)

lemma streamHandler_streams: "(\<exists>i. fst (streamHandler order flusher q h) = SseStream i) \<longleftrightarrow> flusher \<and> q = []"
  by (auto simp: streamHandler_def badRequest_def ServeSSE_streams)

lemma logsHandler_streams:
  "(\<exists>i. fst (logsHandler order flusher q h) = SseStream i) \<longleftrightarrow> flusher \<and> wanted StreamLogs q \<noteq> None"
proof (cases "List.find (\<lambda>p. fst p \<noteq> ''tag'') q")
  case None
  then show ?thesis using find_not_tag [of q] by (simp add: logsHandler_def wanted_def badRequest_def ServeSSE_streams Let_def)
next
  case (Some p)
  then have "\<not> list_all (\<lambda>p. fst p = ''tag'') q" using find_not_tag [of q] by simp
  then show ?thesis using Some by (simp add: logsHandler_def wanted_def badRequest_def)
qed

definition bearer :: "(string \<Rightarrow> string \<Rightarrow> (string \<times> string) option) \<Rightarrow> string \<Rightarrow> string \<Rightarrow> bool" where
  "bearer parse key authorization \<longleftrightarrow>
     (\<exists>token sub ws. authorization = ''Bearer '' @ token \<and> parse key token = Some (sub, ws) \<and> sub \<noteq> [] \<and> ws \<noteq> [])"

lemma bearer_iff:
  "bearer parse key a \<longleftrightarrow> has_prefix ''Bearer '' a \<and> Tel_Verify parse key (trim_prefix ''Bearer '' a) \<noteq> None"
proof -
  have split: "has_prefix ''Bearer '' a \<longleftrightarrow> (\<exists>t. a = ''Bearer '' @ t)"
    unfolding has_prefix_def by (metis append_eq_conv_conj append_take_drop_id)
  show ?thesis
  proof (cases "has_prefix ''Bearer '' a")
    case True
    then obtain t where a: "a = ''Bearer '' @ t" using split by blast
    then have "trim_prefix ''Bearer '' a = t" using True by (simp add: trim_prefix_def)
    then show ?thesis using True a by (auto simp: bearer_def Tel_Verify_def split: option.splits)
  qed (use split in \<open>auto simp: bearer_def\<close>)
qed

lemma Middleware_bearer:
  "Tel_Middleware parse key a next s =
   (if bearer parse key a then next (the (Tel_Verify parse key (trim_prefix ''Bearer '' a))) s else (unauthorized, s))"
  by (auto simp: Tel_Middleware_def bearer_iff ret_def split: option.splits)

text \<open>A response that is not a stream leaves the hub with the connections it had.\<close>

lemma fresh_connection_gone:
  assumes "\<forall>p\<in>set (hb_conns h). fst p < hb_allocated h"
  shows "hb_conns (Unsubscribe (fst (Subscribe order filt h)) (snd (Subscribe order filt h))) = hb_conns h"
  using assms by (auto simp: Unsubscribe_def Subscribe_def Let_def delete_where_def filter_id_conv)

text \<open>
  Who gets a stream. A request to a stream endpoint is answered with a stream exactly when it
  carries a bearer token that the library accepts under the service's key and that names a user
  and a workspace, its query is one the endpoint takes (none, or for logs a tag of the tag
  alphabet), and the writer can flush. Without such a token the answer is 401 and no hub changes,
  whatever the query says.
\<close>

theorem stream_admission:
  "((\<exists>i. fst (serve parse key health order route r s) = SseStream i) \<longleftrightarrow>
      route \<noteq> Healthz \<and> bearer parse key (tr_authorization r) \<and> wanted route (tr_query r) \<noteq> None \<and> tr_flusher r) \<and>
   (route = Healthz \<or> bearer parse key (tr_authorization r) \<or>
      serve parse key health order route r s = (TelJson 401 [(''error'', ''unauthorized'')], s))"
proof (cases route)
  case Healthz
  then show ?thesis by (simp add: serve_def healthz_def ret_def)
next
  case StreamHardware
  then show ?thesis using streamHandler_streams [of "fst order" "tr_flusher r" "tr_query r" "th_hardware s"]
    by (auto simp: serve_def Middleware_bearer unauthorized_def wanted_def split: prod.splits)
next
  case StreamJobs
  then show ?thesis using streamHandler_streams [of "fst (snd order)" "tr_flusher r" "tr_query r" "th_jobs s"]
    by (auto simp: serve_def Middleware_bearer unauthorized_def wanted_def split: prod.splits)
next
  case StreamLogs
  then show ?thesis using logsHandler_streams [of "snd (snd order)" "tr_flusher r" "tr_query r" "th_logs s"]
    by (auto simp: serve_def Middleware_bearer unauthorized_def split: prod.splits)
qed

text \<open>The events that a sequence of log messages adds to the stream.\<close>

definition log_events :: "LogStreamEvent json_in list \<Rightarrow> LogStreamEvent Event list" where
  "log_events ms = concat (map (\<lambda>m. case check_log_event m of Inl e \<Rightarrow> [] | Inr ev \<Rightarrow> [log_event ev]) ms)"

definition run_logs :: "LogStreamEvent json_in list \<Rightarrow> LogStreamEvent Hub \<Rightarrow> LogStreamEvent Hub" where
  "run_logs ms h = fold (\<lambda>m h. snd (Log_Handle m h)) ms h"

lemma run_logs_conns: "hb_conns (run_logs ms h) = receive (log_events ms) (hb_conns h)"
proof (induction ms arbitrary: h)
  case (Cons m ms)
  have "hb_conns (snd (Log_Handle m h)) = receive (log_events [m]) (hb_conns h)"
    by (simp add: Log_Handle_def log_events_def Hub_Publish_def split: sum.splits)
  then show ?case using Cons.IH [of "snd (Log_Handle m h)"] by (simp add: run_logs_def log_events_def)
qed (simp add: run_logs_def log_events_def)

lemma subscribe_conn:
  assumes "Subscribe [] filt h = (i, h')"
  shows "hb_conns h' = hb_conns h @
    [(i, \<lparr>cn_buf = [], cn_max = hb_bufSize h, cn_dropped = 0, cn_notify = False, cn_filter = filt\<rparr>)]"
  using assms by (auto simp: Subscribe_def Let_def)

lemma accepted_log_is_valid:
  assumes "e \<in> set (log_events ms)"
  obtains m ev where "m \<in> set ms" "check_log_event m = Inr ev" "e = log_event ev"
proof -
  from assms obtain m where m: "m \<in> set ms" "e \<in> set (case check_log_event m of Inl e \<Rightarrow> [] | Inr ev \<Rightarrow> [log_event ev])"
    by (auto simp: log_events_def)
  then show thesis by (cases "check_log_event m") (auto intro: that)
qed

lemma check_log_event_facts:
  "check_log_event m = Inr ev \<Longrightarrow>
   ls_Line ev \<noteq> [] \<and> length (ls_Line ev) \<le> 8192 \<and> TagPattern (ls_Tag ev) \<and> ls_Level ev \<in> levels \<and> ls_At ev mod 1000000 = 0"
  by (auto simp: check_log_event_def truncate_ms_def mod_diff_left_eq [symmetric] Let_def split: sum.splits if_splits)

definition log_line_ok :: "LogStreamEvent \<Rightarrow> bool" where
  "log_line_ok ev \<longleftrightarrow> ls_Line ev \<noteq> [] \<and> length (ls_Line ev) \<le> 8192 \<and> TagPattern (ls_Tag ev) \<and> ls_Level ev \<in> levels \<and>
     ls_At ev mod 1000000 = 0"

text \<open>
  C33. A log subscriber gets its tag and nothing else. Open the log stream with a query the endpoint
  takes and let any messages arrive on the log subject. The connection has then been offered
  exactly the accepted messages that carry the requested tag (all of them if no tag was given),
  in the order of their arrival: they are what it buffers, after those it counts as dropped. Each
  of them has a line of 1 to 8192 bytes, a valid tag and level and a time in whole milliseconds.
\<close>

theorem log_stream_filtered:
  fixes h :: "LogStreamEvent Hub"
  assumes "hb_bufSize h = hb_bufSize (Hub_New n :: LogStreamEvent Hub)" "logsHandler [] True q h = (SseStream i, h1)"
  shows "\<exists>c lost. last (hb_conns (run_logs ms h1)) = (i, c) \<and>
    holds (filter (\<lambda>e. query_Get ''tag'' q = [] \<or> ev_Tag e = query_Get ''tag'' q) (log_events ms)) lost c \<and>
    list_all (\<lambda>e. log_line_ok (ev_Data e) \<and> ev_Tag e = ls_Tag (ev_Data e)) (log_events ms)"
proof -
  let ?tag = "query_Get ''tag'' q"
  define filt where "filt = (if ?tag = [] then None else Some (\<lambda>ev :: LogStreamEvent Event. ev_Tag ev = ?tag))"
  let ?c = "\<lparr>cn_buf = [], cn_max = hb_bufSize h, cn_dropped = 0, cn_notify = False, cn_filter = filt\<rparr> :: LogStreamEvent Conn"
  have sub: "Subscribe [] filt h = (i, h1)"
    using assms(2) by (auto simp: logsHandler_def ServeSSE_def badRequest_def filt_def Let_def split: option.splits if_splits prod.splits)
  have acc: "accepts ?c = (\<lambda>e. ?tag = [] \<or> ev_Tag e = ?tag)" by (auto simp: accepts_def filt_def fun_eq_iff)
  have c: "room ?c" "holds [] [] ?c" using assms(1) by (simp_all add: room_def holds_def Hub_New_def)
  obtain lost where l: "holds ([] @ filter (accepts ?c) (log_events ms)) lost (fold push (log_events ms) ?c)"
    using holds_fold [OF c] by blast
  have "last (hb_conns (run_logs ms h1)) = (i, fold push (log_events ms) ?c)"
    by (simp add: run_logs_conns subscribe_conn [OF sub] receive_def)
  moreover have "list_all (\<lambda>e. log_line_ok (ev_Data e) \<and> ev_Tag e = ls_Tag (ev_Data e)) (log_events ms)"
    unfolding list_all_iff by (auto elim!: accepted_log_is_valid dest!: check_log_event_facts simp: log_event_def log_line_ok_def)
  ultimately show ?thesis using l unfolding acc by auto
qed

definition ex_log :: "string \<Rightarrow> LogStreamEvent json_in" where
  "ex_log tag = JsonValue \<lparr>ls_Line = ''started'', ls_Tag = tag, ls_Level = ''info'', ls_At = 1500000\<rparr> []"

definition ex_logged :: "string \<Rightarrow> LogStreamEvent Event" where
  "ex_logged tag = log_event \<lparr>ls_Line = ''started'', ls_Tag = tag, ls_Level = ''info'', ls_At = 1000000\<rparr>"

lemma ex_log_events: "log_events [ex_log ''upload'', ex_log ''ffmpeg''] = [ex_logged ''upload'', ex_logged ''ffmpeg'']"
  by (simp add: log_events_def ex_log_def ex_logged_def check_log_event_def strictUnmarshal_def dec_More_def TagPattern_def levels_def
      truncate_ms_def marshal_year_ok_def is_lower_def is_tag_char_def match_class_def between_def is_digit_def)

theorem log_stream_filtered_witness:
  "\<exists>c lost. last (hb_conns (run_logs [ex_log ''upload'', ex_log ''ffmpeg'']
      (snd (logsHandler [] True [(''tag'', [''ffmpeg''])] (Hub_New 16))))) = (0, c) \<and> holds [ex_logged ''ffmpeg''] lost c"
proof -
  have tag: "TagPattern ''ffmpeg''"
    by (simp add: TagPattern_def is_lower_def is_tag_char_def match_class_def between_def is_digit_def)
  have get: "query_Get ''tag'' [(''tag'', [''ffmpeg''])] = ''ffmpeg''" by (simp add: query_Get_def)
  obtain h1 where h: "logsHandler [] True [(''tag'', [''ffmpeg''])] (Hub_New 16) = (SseStream 0, h1)"
    by (simp add: logsHandler_def ServeSSE_def Subscribe_def Hub_New_def tag get Let_def)
  have "filter (\<lambda>e. ev_Tag e = ''ffmpeg'') [ex_logged ''upload'', ex_logged ''ffmpeg''] = [ex_logged ''ffmpeg'']"
    by (simp add: ex_logged_def log_event_def)
  with log_stream_filtered [OF refl h, of "[ex_log ''upload'', ex_log ''ffmpeg'']"] show ?thesis
    unfolding ex_log_events get h by auto
qed

end
