(* ===== verification/ServiceConfig.thy ===== *)
theory ServiceConfig
  imports UploadAuth Base64
begin

text \<open>
  The environment configuration of the tenancy service (\<open>services/tenancy/config.go\<close>) and of the
  orchestrator (\<open>services/orchestrator/internal/config/config.go\<close>), with \<open>time.ParseDuration\<close> as both
  use it. \<open>url_parse\<close> gives the scheme and the host of a URL.
\<close>

section \<open>Durations\<close>

definition duration_unit :: "string \<Rightarrow> int option" where
  "duration_unit u = map_of
     [(''ns'', 1), (''us'', 1000), ([CHR 0xC2, CHR 0xB5, CHR ''s''], 1000), ([CHR 0xCE, CHR 0xBC, CHR ''s''], 1000),
      (''ms'', 1000000), (''s'', 1000000000), (''m'', 60 * 1000000000), (''h'', 3600 * 1000000000)] u"

definition digits_value :: "string \<Rightarrow> int" where
  "digits_value ds = foldl (\<lambda>n c. 10 * n + int (digit_val c)) 0 ds"

text \<open>
  One component, a number and its unit: the value in nanoseconds and the rest of the text. The
  fraction is truncated to nanoseconds.
\<close>

definition duration_part :: "string \<Rightarrow> (int \<times> string) option" where
  "duration_part s =
     (let whole = takeWhile is_digit s;
          s1 = dropWhile is_digit s;
          (frac, s2) = (case s1 of c # cs \<Rightarrow> if c = CHR ''.'' then (takeWhile is_digit cs, dropWhile is_digit cs) else ([], s1)
                        | [] \<Rightarrow> ([], s1));
          u = takeWhile (\<lambda>c. c \<noteq> CHR ''.'' \<and> \<not> is_digit c) s2;
          rest = dropWhile (\<lambda>c. c \<noteq> CHR ''.'' \<and> \<not> is_digit c) s2
      in if whole = [] \<and> frac = [] then None
         else if digits_value whole > 2 ^ 63 then None
         else case duration_unit u of
           None \<Rightarrow> None
         | Some unit \<Rightarrow>
             (let v = digits_value whole * unit + digits_value frac * unit div 10 ^ length frac
              in if digits_value whole > 2 ^ 63 div unit \<or> v > 2 ^ 63 then None else Some (v, rest)))"

lemma duration_unit_nonempty: "duration_unit u = Some n \<Longrightarrow> u \<noteq> []"
  by (auto simp: duration_unit_def split: if_splits)

lemma split_shorter: "takeWhile P s \<noteq> [] \<Longrightarrow> length (dropWhile P s) < length s"
  by (cases s) (auto simp: less_Suc_eq_le length_dropWhile_le split: if_splits)

lemma duration_part_shorter:
  assumes "duration_part s = Some (v, rest)"
  shows "length rest < length s"
proof -
  let ?s1 = "dropWhile is_digit s" and ?P = "\<lambda>c. c \<noteq> CHR ''.'' \<and> \<not> is_digit c"
  let ?s2 = "snd (case ?s1 of c # cs \<Rightarrow> if c = CHR ''.'' then (takeWhile is_digit cs, dropWhile is_digit cs) else ([], ?s1) | [] \<Rightarrow> ([], ?s1))"
  have "length (snd (case t of c # cs \<Rightarrow> if c = CHR ''.'' then (takeWhile is_digit cs, dropWhile is_digit cs) else ([], t) | [] \<Rightarrow> ([], t)))
      \<le> length t" for t
    by (cases t) (auto intro: le_SucI length_dropWhile_le)
  then have "length ?s2 \<le> length ?s1" .
  then have len: "length ?s2 \<le> length s" using length_dropWhile_le [of is_digit s] by linarith
  have "rest = dropWhile ?P ?s2" "takeWhile ?P ?s2 \<noteq> []"
    using assms duration_unit_nonempty
    by (auto simp: duration_part_def Let_def case_prod_beta split: if_splits option.splits)
  then show ?thesis using split_shorter [of ?P ?s2] len by simp
qed

function duration_sum :: "string \<Rightarrow> int \<Rightarrow> int option" where
  "duration_sum s d =
     (if s = [] then Some d
      else case duration_part s of
        None \<Rightarrow> None
      | Some (v, rest) \<Rightarrow> if d + v > 2 ^ 63 then None else duration_sum rest (d + v))"
  by pat_completeness auto
termination
  by (relation "measure (\<lambda>(s, d). length s)") (auto dest: duration_part_shorter)

declare duration_sum.simps [simp del]

definition ParseDuration :: "string \<Rightarrow> int option" where
  "ParseDuration s =
     (let neg = (s \<noteq> [] \<and> hd s = CHR ''-'');
          s1 = (if s \<noteq> [] \<and> (hd s = CHR ''-'' \<or> hd s = CHR ''+'') then tl s else s)
      in if s1 = ''0'' then Some 0
         else if s1 = [] then None
         else case duration_sum s1 0 of
           None \<Rightarrow> None
         | Some d \<Rightarrow> if neg then Some (- d) else if d > 2 ^ 63 - 1 then None else Some d)"

definition hour :: int where
  "hour = 3600 * 1000000000"

section \<open>Tenancy (config.go)\<close>

record TenancyConfig =
  nc_ListenAddr :: string
  nc_DatabaseURL :: string
  nc_NATSURL :: string
  nc_AuthHS256Key :: string
  nc_AccessTokenTTL :: int
  nc_RefreshTokenTTL :: int
  nc_OIDCIssuer :: string
  nc_OIDCClientID :: string
  nc_OIDCClientSecret :: string
  nc_OIDCRedirectURL :: string
  nc_TiersConfigPath :: string
  nc_InternalToken :: string
  nc_CookieSecure :: bool

datatype tenancy_cfg_err = NcDuration string | NcBool | NcKeyMissing | NcKeyEncoding | NcKeyShort | NcMissing | NcInternalShort
| NcListenAddr | NcURL | NcAccessTTL | NcRefreshTTL

definition envDuration :: "(string \<Rightarrow> string) \<Rightarrow> string \<Rightarrow> int \<Rightarrow> tenancy_cfg_err + int" where
  "envDuration getenv name d =
     (if getenv name = [] then Inr d
      else case ParseDuration (getenv name) of None \<Rightarrow> Inl (NcDuration name) | Some n \<Rightarrow> Inr n)"

definition http_url :: "(string \<Rightarrow> (string \<times> string) option) \<Rightarrow> string \<Rightarrow> bool" where
  "http_url url_parse raw =
     (case url_parse raw of None \<Rightarrow> False | Some (scheme, host) \<Rightarrow> (scheme = ''https'' \<or> scheme = ''http'') \<and> host \<noteq> [])"

text \<open>The two loops range over Go maps: the error does not say which entry is reported.\<close>

definition Tenancy_LoadConfig :: "(string \<Rightarrow> (string \<times> string) option) \<Rightarrow> (string \<Rightarrow> string) \<Rightarrow> tenancy_cfg_err + TenancyConfig" where
  "Tenancy_LoadConfig url_parse getenv =
     (case envDuration getenv ''TENANCY_ACCESS_TOKEN_TTL'' (900 * 1000000000) of Inl e \<Rightarrow> Inl e | Inr access \<Rightarrow>
     (case envDuration getenv ''TENANCY_REFRESH_TOKEN_TTL'' (720 * hour) of Inl e \<Rightarrow> Inl e | Inr refresh \<Rightarrow>
     (case envBool getenv ''TENANCY_COOKIE_SECURE'' True of Inl _ \<Rightarrow> Inl NcBool | Inr secure \<Rightarrow>
     (let keyB64 = getenv ''TENANCY_AUTH_HS256_KEY'';
          listen = envDefault getenv ''TENANCY_LISTEN_ADDR'' ''127.0.0.1:5401'';
          issuer = envDefault getenv ''TENANCY_OIDC_ISSUER'' ''https://accounts.google.com''
      in if keyB64 = [] then Inl NcKeyMissing
      else case DecodeString url_alphabet keyB64 of
        None \<Rightarrow> Inl NcKeyEncoding
      | Some key \<Rightarrow>
          if length key < 32 then Inl NcKeyShort
          else if list_ex (\<lambda>v. getenv v = [])
            [''TENANCY_DATABASE_URL'', ''TENANCY_OIDC_CLIENT_ID'', ''TENANCY_OIDC_CLIENT_SECRET'', ''TENANCY_OIDC_REDIRECT_URL'',
             ''TENANCY_TIERS_CONFIG_PATH'', ''TENANCY_INTERNAL_TOKEN''] then Inl NcMissing
          else if length (getenv ''TENANCY_INTERNAL_TOKEN'') < 16 then Inl NcInternalShort
          else if SplitHostPort listen = None then Inl NcListenAddr
          else if \<not> http_url url_parse issuer \<or> \<not> http_url url_parse (getenv ''TENANCY_OIDC_REDIRECT_URL'') then Inl NcURL
          else if access \<le> 0 \<or> access > hour then Inl NcAccessTTL
          else if refresh \<le> access then Inl NcRefreshTTL
          else Inr
            \<lparr>nc_ListenAddr = listen, nc_DatabaseURL = getenv ''TENANCY_DATABASE_URL'',
             nc_NATSURL = envDefault getenv ''TENANCY_NATS_URL'' ''nats://127.0.0.1:4222'', nc_AuthHS256Key = key,
             nc_AccessTokenTTL = access, nc_RefreshTokenTTL = refresh, nc_OIDCIssuer = issuer,
             nc_OIDCClientID = getenv ''TENANCY_OIDC_CLIENT_ID'', nc_OIDCClientSecret = getenv ''TENANCY_OIDC_CLIENT_SECRET'',
             nc_OIDCRedirectURL = getenv ''TENANCY_OIDC_REDIRECT_URL'', nc_TiersConfigPath = getenv ''TENANCY_TIERS_CONFIG_PATH'',
             nc_InternalToken = getenv ''TENANCY_INTERNAL_TOKEN'', nc_CookieSecure = secure\<rparr>))))"

lemma Tenancy_LoadConfig_limits:
  "Tenancy_LoadConfig url_parse getenv = Inr cfg \<Longrightarrow>
     DecodeString url_alphabet (getenv ''TENANCY_AUTH_HS256_KEY'') = Some (nc_AuthHS256Key cfg) \<and> 32 \<le> length (nc_AuthHS256Key cfg) \<and>
     0 < nc_AccessTokenTTL cfg \<and> nc_AccessTokenTTL cfg \<le> hour \<and> nc_AccessTokenTTL cfg < nc_RefreshTokenTTL cfg \<and>
     16 \<le> length (nc_InternalToken cfg)"
  by (auto simp: Tenancy_LoadConfig_def Let_def split: sum.splits option.splits if_splits)

section \<open>Orchestrator (config.go)\<close>

record OrchConfig =
  gc_HTTPAddr :: string
  gc_DatabaseURL :: string
  gc_NATSURL :: string
  gc_S3Endpoint :: string
  gc_S3Region :: string
  gc_S3Bucket :: string
  gc_S3AccessKey :: string
  gc_S3SecretKey :: string
  gc_S3PathStyle :: bool
  gc_ScratchDir :: string
  gc_FFmpegPath :: string
  gc_FFprobePath :: string
  gc_SchedulerSlots :: int
  gc_SchedulerPollInterval :: int
  gc_QuotaConfigPath :: string
  gc_JWTSecret :: string
  gc_AutoCreateJobs :: bool

datatype orch_cfg_err = GcSlots | GcPoll | GcPathStyle | GcAutoCreate | GcMissing "string list"

definition env_checked :: "(string \<Rightarrow> string) \<Rightarrow> string \<Rightarrow> 'e \<Rightarrow> (string \<Rightarrow> 'a option) \<Rightarrow> 'a \<Rightarrow> 'e + 'a" where
  "env_checked getenv name e parse d =
     (if getenv name = [] then Inr d else case parse (getenv name) of None \<Rightarrow> Inl e | Some v \<Rightarrow> Inr v)"

definition required_env :: "string list" where
  "required_env = [''ORCH_DATABASE_URL'', ''ORCH_NATS_URL'', ''ORCH_S3_ENDPOINT'', ''ORCH_S3_REGION'', ''ORCH_S3_BUCKET'',
     ''ORCH_S3_ACCESS_KEY'', ''ORCH_S3_SECRET_KEY'', ''ORCH_FFMPEG_PATH'', ''ORCH_FFPROBE_PATH'', ''ORCH_QUOTA_CONFIG'', ''ORCH_JWT_SECRET'']"

definition parse_slots :: "string \<Rightarrow> int option" where
  "parse_slots v = (case ParseInt v of None \<Rightarrow> None | Some n \<Rightarrow> if n < 1 \<or> n > 64 then None else Some n)"

definition parse_poll :: "string \<Rightarrow> int option" where
  "parse_poll v = (case ParseDuration v of None \<Rightarrow> None | Some d \<Rightarrow> if d < 100 * 1000000 then None else Some d)"

definition FromEnv :: "(string \<Rightarrow> string) \<Rightarrow> orch_cfg_err + OrchConfig" where
  "FromEnv getenv =
     (case env_checked getenv ''ORCH_SCHEDULER_SLOTS'' GcSlots parse_slots 3 of Inl e \<Rightarrow> Inl e | Inr slots \<Rightarrow>
     (case env_checked getenv ''ORCH_SCHEDULER_POLL_INTERVAL'' GcPoll parse_poll (2 * 1000000000) of Inl e \<Rightarrow> Inl e | Inr poll \<Rightarrow>
     (case env_checked getenv ''ORCH_S3_PATH_STYLE'' GcPathStyle ParseBool False of Inl e \<Rightarrow> Inl e | Inr pathStyle \<Rightarrow>
     (case env_checked getenv ''ORCH_AUTOCREATE_JOBS'' GcAutoCreate ParseBool True of Inl e \<Rightarrow> Inl e | Inr auto_create \<Rightarrow>
     (let missing = filter (\<lambda>v. getenv v = []) required_env
      in if missing \<noteq> [] then Inl (GcMissing missing)
         else Inr \<lparr>gc_HTTPAddr = envDefault getenv ''ORCH_HTTP_ADDR'' ''127.0.0.1:5203'', gc_DatabaseURL = getenv ''ORCH_DATABASE_URL'',
              gc_NATSURL = getenv ''ORCH_NATS_URL'', gc_S3Endpoint = getenv ''ORCH_S3_ENDPOINT'', gc_S3Region = getenv ''ORCH_S3_REGION'',
              gc_S3Bucket = getenv ''ORCH_S3_BUCKET'', gc_S3AccessKey = getenv ''ORCH_S3_ACCESS_KEY'',
              gc_S3SecretKey = getenv ''ORCH_S3_SECRET_KEY'', gc_S3PathStyle = pathStyle,
              gc_ScratchDir = envDefault getenv ''ORCH_SCRATCH_DIR'' ''/var/tmp/aether-orchestrator'',
              gc_FFmpegPath = getenv ''ORCH_FFMPEG_PATH'', gc_FFprobePath = getenv ''ORCH_FFPROBE_PATH'',
              gc_SchedulerSlots = slots, gc_SchedulerPollInterval = poll, gc_QuotaConfigPath = getenv ''ORCH_QUOTA_CONFIG'',
              gc_JWTSecret = getenv ''ORCH_JWT_SECRET'', gc_AutoCreateJobs = auto_create\<rparr>)))))"

text \<open>Every configuration the orchestrator starts with has slots to run and a positive poll period.\<close>

lemma env_checked_range: "env_checked getenv name e parse d = Inr v \<Longrightarrow> P d \<Longrightarrow> (\<And>s x. parse s = Some x \<Longrightarrow> P x) \<Longrightarrow> P v"
  by (auto simp: env_checked_def split: if_splits option.splits)

lemma FromEnv_limits:
  assumes "FromEnv getenv = Inr cfg"
  shows "1 \<le> gc_SchedulerSlots cfg \<and> gc_SchedulerSlots cfg \<le> 64 \<and> 0 < gc_SchedulerPollInterval cfg \<and>
     gc_JWTSecret cfg = getenv ''ORCH_JWT_SECRET'' \<and> gc_JWTSecret cfg \<noteq> []"
proof -
  have s: "env_checked getenv ''ORCH_SCHEDULER_SLOTS'' GcSlots parse_slots 3 = Inr (gc_SchedulerSlots cfg)"
    and p: "env_checked getenv ''ORCH_SCHEDULER_POLL_INTERVAL'' GcPoll parse_poll (2 * 1000000000) = Inr (gc_SchedulerPollInterval cfg)"
    and f: "filter (\<lambda>v. getenv v = []) required_env = []" and j: "gc_JWTSecret cfg = getenv ''ORCH_JWT_SECRET''"
    using assms by (auto simp: FromEnv_def Let_def split: sum.splits if_splits)
  have "1 \<le> gc_SchedulerSlots cfg \<and> gc_SchedulerSlots cfg \<le> 64"
    by (rule env_checked_range [OF s]) (auto simp: parse_slots_def split: option.splits if_splits)
  moreover have "0 < gc_SchedulerPollInterval cfg"
    by (rule env_checked_range [OF p]) (auto simp: parse_poll_def split: option.splits if_splits)
  moreover have "''ORCH_JWT_SECRET'' \<in> set required_env" by (simp add: required_env_def)
  then have "getenv ''ORCH_JWT_SECRET'' \<noteq> []" using f [unfolded filter_empty_conv] by (rule bspec [rotated])
  ultimately show ?thesis using j by simp
qed

end
