(* ===== verification/SharedTokens.thy ===== *)
theory SharedTokens
  imports OrchApi TelHttp TenKeys ServiceConfig
begin

text \<open>
  One signing key for four services. The tenancy service signs access tokens; the orchestrator, the
  upload service and telemetry verify them, the upload service with code of its own. The
  development's four verifiers meet here, configured from their environments as the services are.
\<close>

section \<open>The token format\<close>

text \<open>
  A compact token as RFC 7515 defines it: the encoded header and payload and the encoded
  authentication code of both.
\<close>

definition compact :: "(string \<Rightarrow> string \<Rightarrow> string) \<Rightarrow> string \<Rightarrow> string \<Rightarrow> string \<Rightarrow> string" where
  "compact mac key header payload =
     (let p0 = EncodeToString url_alphabet header; p1 = EncodeToString url_alphabet payload
      in p0 @ ''.'' @ p1 @ ''.'' @ EncodeToString url_alphabet (mac key (p0 @ ''.'' @ p1)))"

text \<open>
  What the services rely on. The library signs compact tokens whose header names HS256 and whose
  payload is the JSON of the claims; it parses such a token, under the same key, to its claims as
  long as it is valid; and the upload service's JSON decoder reads from header and payload what the
  library wrote.
\<close>

definition jwt_standard :: "crypto_lib \<Rightarrow> token_lib \<Rightarrow> string \<Rightarrow> (accessClaims \<Rightarrow> string) \<Rightarrow> bool" where
  "jwt_standard lib ulib header json \<longleftrightarrow>
     (\<forall>key c. jwt_sign lib key c = Some (compact (hmac ulib) key header (json c))) \<and>
     (\<forall>key c now. ac_NotBefore c \<le> now \<longrightarrow> now < ac_ExpiresAt c \<longrightarrow> jwt_parse lib key now (compact (hmac ulib) key header (json c)) = Some c) \<and>
     b64 ulib = DecodeString url_alphabet \<and> json_alg ulib header = Some ''HS256'' \<and>
     (\<forall>c. json_claims ulib (json c) = Some \<lparr>tc_Sub = ac_Subject c, tc_WorkspaceID = ac_WorkspaceID c, tc_Exp = ac_ExpiresAt c, tc_Nbf = ac_NotBefore c\<rparr>)"

text \<open>The JWT library as the orchestrator and telemetry call it: at the current time.\<close>

definition parse_at :: "crypto_lib \<Rightarrow> int \<Rightarrow> string \<Rightarrow> string \<Rightarrow> (string \<times> string) option" where
  "parse_at lib t key token = map_option (\<lambda>c. (ac_Subject c, ac_WorkspaceID c)) (jwt_parse lib key (unix_seconds t) token)"

lemma url_no_dot: "CHR ''.'' \<notin> set (EncodeToString url_alphabet x)"
  using encode_set [OF good_alphabets(2), of x] by (auto simp: url_alphabet_def)

lemma compact_split:
  "split_on CHR ''.'' (compact mac key header payload) =
     [EncodeToString url_alphabet header, EncodeToString url_alphabet payload,
      EncodeToString url_alphabet (mac key (EncodeToString url_alphabet header @ ''.'' @ EncodeToString url_alphabet payload))]"
  using url_no_dot by (simp add: compact_def Let_def split_on_append split_on_no_sep)

lemma url_round_trip: "DecodeString url_alphabet (EncodeToString url_alphabet x) = Some x"
  using decode_encode good_alphabets by simp

lemma jwt_parse_compact:
  "jwt_standard lib ulib header json \<Longrightarrow> ac_NotBefore c \<le> n \<Longrightarrow> n < ac_ExpiresAt c \<Longrightarrow>
   jwt_parse lib key n (compact (hmac ulib) key header (json c)) = Some c"
  unfolding jwt_standard_def by blast

lemma VerifyHS256_compact:
  assumes "jwt_standard lib ulib header json"
  shows "VerifyHS256 ulib (compact (hmac ulib) key header (json c)) key n =
    check_claims n \<lparr>tc_Sub = ac_Subject c, tc_WorkspaceID = ac_WorkspaceID c, tc_Exp = ac_ExpiresAt c, tc_Nbf = ac_NotBefore c\<rparr>"
  using assms by (simp add: VerifyHS256_def compact_split jwt_standard_def url_round_trip)

lemma Mint_token:
  assumes "jwt_standard lib ulib header json" "Mint lib key user wsid now ttl w = (Inr token, w')"
  obtains c where "token = compact (hmac ulib) key header (json c)" "ac_Subject c = user" "ac_WorkspaceID c = wsid"
    "ac_NotBefore c = unix_seconds now" "ac_ExpiresAt c = unix_seconds (now + ttl)" "user \<noteq> []" "wsid \<noteq> []"
proof -
  obtain i w1 where n: "user \<noteq> []" "wsid \<noteq> []" "new_id w = (Inr i, w1)"
    using assms(2) by (auto simp: Mint_def and_then_def ret_def split: if_splits prod.splits sum.splits)
  let ?c = "\<lparr>ac_WorkspaceID = wsid, ac_Issuer = tokenIssuer, ac_Subject = user, ac_IssuedAt = unix_seconds now,
      ac_NotBefore = unix_seconds now, ac_ExpiresAt = unix_seconds (now + ttl), ac_ID = i\<rparr>"
  have "token = compact (hmac ulib) key header (json ?c)"
    using assms n by (simp add: Mint_def and_then_def ret_def jwt_standard_def)
  then show thesis by (rule that) (simp_all add: n)
qed

text \<open>Each service takes its key from its environment by the same decoding.\<close>

lemma upload_key: "LoadConfig (DecodeString url_alphabet) getenv = Inr cfg \<Longrightarrow>
    DecodeString url_alphabet (getenv ''UPLOAD_AUTH_HS256_KEY'') = Some (uc_AuthHS256Key cfg)"
  by (auto simp: LoadConfig_def Let_def split: sum.splits option.splits if_splits)

lemma telemetry_key: "Tel_Load url_parse getenv = Inr cfg \<Longrightarrow>
    DecodeString url_alphabet (getenv ''TELEMETRY_AUTH_HS256_KEY'') = Some (tk_AuthHS256Key cfg)"
  by (auto simp: Tel_Load_def Let_def split: option.splits if_splits)

lemma orchestrator_key: "NewVerifier decode secret = Some key \<Longrightarrow> decode secret = Some key"
  by (auto simp: NewVerifier_def split: option.splits if_splits)

lemma unix_seconds_mono: "now \<le> t \<Longrightarrow> unix_seconds now \<le> unix_seconds t"
  by (simp add: unix_seconds_def zdiv_mono1)

text \<open>
  C35. An access token is good everywhere. Configure the four services from environments that hold
  the same key text. Whatever token the tenancy service mints for a user in a workspace, the
  tenancy service itself, the orchestrator, the upload service and telemetry accept it from the
  moment of issue until it expires, and all of them take it for that user in that workspace.
\<close>

theorem minted_token_accepted_everywhere:
  assumes lib: "jwt_standard lib ulib header json"
    and configs: "Tenancy_LoadConfig url_parse tenv = Inr tcfg" "FromEnv oenv = Inr ocfg"
      "LoadConfig (DecodeString url_alphabet) uenv = Inr ucfg" "Tel_Load url_parse kenv = Inr kcfg"
    and verifier: "NewVerifier (DecodeString url_alphabet) (gc_JWTSecret ocfg) = Some okey"
    and shared: "oenv ''ORCH_JWT_SECRET'' = tenv ''TENANCY_AUTH_HS256_KEY''" "uenv ''UPLOAD_AUTH_HS256_KEY'' = tenv ''TENANCY_AUTH_HS256_KEY''"
      "kenv ''TELEMETRY_AUTH_HS256_KEY'' = tenv ''TENANCY_AUTH_HS256_KEY''"
    and minted: "Mint lib (nc_AuthHS256Key tcfg) user wsid now (nc_AccessTokenTTL tcfg) w = (Inr token, w')"
    and time: "0 \<le> unix_seconds now" "now \<le> t" "unix_seconds t < unix_seconds (now + nc_AccessTokenTTL tcfg)"
  shows "Ten_Verify lib (nc_AuthHS256Key tcfg) token t = Some \<lparr>tn_UserID = user, tn_WorkspaceID = wsid\<rparr> \<and>
    Verify (parse_at lib t) okey token = Some \<lparr>id_UserID = user, id_WorkspaceID = wsid\<rparr> \<and>
    VerifyHS256 ulib token (uc_AuthHS256Key ucfg) (unix_seconds t) = Inr \<lparr>ui_WorkspaceID = wsid, ui_UserID = user\<rparr> \<and>
    Tel_Verify (parse_at lib t) (tk_AuthHS256Key kcfg) token = Some \<lparr>ti_UserID = user, ti_WorkspaceID = wsid\<rparr>"
proof -
  have key: "DecodeString url_alphabet (tenv ''TENANCY_AUTH_HS256_KEY'') = Some (nc_AuthHS256Key tcfg)"
    using Tenancy_LoadConfig_limits [OF configs(1)] by blast
  then have keys: "okey = nc_AuthHS256Key tcfg" "uc_AuthHS256Key ucfg = nc_AuthHS256Key tcfg" "tk_AuthHS256Key kcfg = nc_AuthHS256Key tcfg"
    using orchestrator_key [OF verifier] FromEnv_limits [OF configs(2)] upload_key [OF configs(3)] telemetry_key [OF configs(4)] shared
    by simp_all
  obtain c where c: "token = compact (hmac ulib) (nc_AuthHS256Key tcfg) header (json c)" "ac_Subject c = user" "ac_WorkspaceID c = wsid"
    "ac_NotBefore c = unix_seconds now" "ac_ExpiresAt c = unix_seconds (now + nc_AccessTokenTTL tcfg)" "user \<noteq> []" "wsid \<noteq> []"
    by (rule Mint_token [OF lib minted])
  note seconds = unix_seconds_mono [OF time(2)]
  have parse: "jwt_parse lib (nc_AuthHS256Key tcfg) (unix_seconds t) token = Some c"
    unfolding c(1) by (rule jwt_parse_compact [OF lib]) (use c time seconds in simp_all)
  have "VerifyHS256 ulib token (nc_AuthHS256Key tcfg) (unix_seconds t) = Inr \<lparr>ui_WorkspaceID = wsid, ui_UserID = user\<rparr>"
    unfolding c(1) VerifyHS256_compact [OF lib] check_claims_iff using c time seconds by auto
  then show ?thesis using parse c(2,3,6,7) by (simp add: keys Ten_Verify_def Verify_def Tel_Verify_def parse_at_def)
qed

section \<open>A library that meets the standard, and environments\<close>

definition ex_fields :: "accessClaims \<Rightarrow> string list" where
  "ex_fields c = [EncodeToString url_alphabet (ac_WorkspaceID c), EncodeToString url_alphabet (ac_Issuer c),
     EncodeToString url_alphabet (ac_Subject c), show_int (ac_IssuedAt c), show_int (ac_NotBefore c), show_int (ac_ExpiresAt c),
     EncodeToString url_alphabet (ac_ID c)]"

definition ex_json :: "accessClaims \<Rightarrow> string" where
  "ex_json c = join_with CHR '','' (ex_fields c)"

definition ex_read_int :: "string \<Rightarrow> int option" where
  "ex_read_int s = (case s of [] \<Rightarrow> None | d # ds \<Rightarrow>
     if d = CHR ''-'' then map_option (\<lambda>n. - int n) (read_nat ds) else map_option int (read_nat s))"

definition ex_unjson :: "string \<Rightarrow> accessClaims option" where
  "ex_unjson s = (case split_on CHR '','' s of
     [a, b, c, d, e, f, g] \<Rightarrow>
       (case (those (map (DecodeString url_alphabet) [a, b, c, g]), those (map ex_read_int [d, e, f])) of
          (Some [ws, iss, sub, jti], Some [iat, nbf, until]) \<Rightarrow>
            Some \<lparr>ac_WorkspaceID = ws, ac_Issuer = iss, ac_Subject = sub, ac_IssuedAt = iat, ac_NotBefore = nbf, ac_ExpiresAt = until, ac_ID = jti\<rparr>
        | _ \<Rightarrow> None)
   | _ \<Rightarrow> None)"

lemma ex_read_int_show: "ex_read_int (show_int i) = Some i"
proof -
  obtain d ds where d: "show_nat (nat i) = d # ds" using show_nat_digits [of "nat i"] by (cases "show_nat (nat i)") auto
  have "is_digit d" using show_nat_digits [of "nat i"] d by simp
  then have "d \<noteq> CHR ''-''" by (auto simp: is_digit_def between_def)
  then show ?thesis using read_show [of "nat i"] read_show [of "nat (- i)"] d by (cases "i < 0") (simp_all add: ex_read_int_def show_int_def)
qed

lemma no_comma: "CHR '','' \<notin> set (EncodeToString url_alphabet x)" "CHR '','' \<notin> set (show_int i)"
proof -
  show "CHR '','' \<notin> set (EncodeToString url_alphabet x)" using encode_set [OF good_alphabets(2), of x] by (auto simp: url_alphabet_def)
  have "CHR '','' \<notin> set (show_nat n)" for n
    using show_nat_digits [of n] by (auto simp: list_all_iff is_digit_def between_def)
  then show "CHR '','' \<notin> set (show_int i)" by (simp add: show_int_def)
qed

lemma ex_unjson_json: "ex_unjson (ex_json c) = Some c"
proof -
  have "split_on CHR '','' (ex_json c) = ex_fields c"
    by (simp add: ex_json_def ex_fields_def split_on_append split_on_no_sep no_comma)
  then show ?thesis by (simp add: ex_unjson_def ex_fields_def url_round_trip ex_read_int_show)
qed

definition ex_header :: string where
  "ex_header = ''HS256''"

definition ex_hmac :: "string \<Rightarrow> string \<Rightarrow> string" where
  "ex_hmac key msg = key @ msg"

definition ex_jwt_parse :: "string \<Rightarrow> int \<Rightarrow> string \<Rightarrow> accessClaims option" where
  "ex_jwt_parse key now token = (case split_on CHR ''.'' token of
     [p0, p1, p2] \<Rightarrow>
       if DecodeString url_alphabet p2 \<noteq> Some (ex_hmac key (p0 @ ''.'' @ p1)) then None
       else (case DecodeString url_alphabet p1 of
               None \<Rightarrow> None
             | Some js \<Rightarrow> (case ex_unjson js of None \<Rightarrow> None | Some c \<Rightarrow> if ac_NotBefore c \<le> now \<and> now < ac_ExpiresAt c then Some c else None))
   | _ \<Rightarrow> None)"

definition ex_jwt :: crypto_lib where
  "ex_jwt = \<lparr>jwt_sign = (\<lambda>key c. Some (compact ex_hmac key ex_header (ex_json c))), jwt_parse = ex_jwt_parse,
     IDKey = (\<lambda>_ _ _ _ _ _. []), argon_version = 19, sha256_hex = (\<lambda>s. s)\<rparr>"

definition ex_token_lib :: token_lib where
  "ex_token_lib = \<lparr>b64 = DecodeString url_alphabet, hmac = ex_hmac, json_alg = Some,
     json_claims = (\<lambda>s. map_option (\<lambda>c. \<lparr>tc_Sub = ac_Subject c, tc_WorkspaceID = ac_WorkspaceID c, tc_Exp = ac_ExpiresAt c,
       tc_Nbf = ac_NotBefore c\<rparr>) (ex_unjson s))\<rparr>"

lemma ex_jwt_standard: "jwt_standard ex_jwt ex_token_lib ex_header ex_json"
  by (simp add: jwt_standard_def ex_jwt_def ex_token_lib_def ex_jwt_parse_def compact_split url_round_trip ex_unjson_json ex_header_def)

definition ex_key_text :: string where
  "ex_key_text = replicate 43 CHR ''A''"

definition ex_env :: "(string \<times> string) list \<Rightarrow> string \<Rightarrow> string" where
  "ex_env kvs name = (case map_of kvs name of None \<Rightarrow> [] | Some v \<Rightarrow> v)"

definition ex_url_parse :: "string \<Rightarrow> (string \<times> string) option" where
  "ex_url_parse s = Some (if has_prefix ''nats'' s then ''nats'' else ''https'', ''host'')"

definition ex_tenv :: "string \<Rightarrow> string" where
  "ex_tenv = ex_env ((''TENANCY_AUTH_HS256_KEY'', ex_key_text) # (''TENANCY_INTERNAL_TOKEN'', replicate 16 CHR ''i'') # map (\<lambda>v. (v, ''x''))
     [''TENANCY_DATABASE_URL'', ''TENANCY_OIDC_CLIENT_ID'', ''TENANCY_OIDC_CLIENT_SECRET'', ''TENANCY_OIDC_REDIRECT_URL'', ''TENANCY_TIERS_CONFIG_PATH''])"

definition ex_oenv :: "string \<Rightarrow> string" where
  "ex_oenv = ex_env ((''ORCH_JWT_SECRET'', ex_key_text) # map (\<lambda>v. (v, ''x'')) required_env)"

definition ex_uenv :: "string \<Rightarrow> string" where
  "ex_uenv = ex_env ((''UPLOAD_AUTH_HS256_KEY'', ex_key_text) # map (\<lambda>v. (v, ''x''))
     [''UPLOAD_DATABASE_URL'', ''UPLOAD_S3_ENDPOINT'', ''UPLOAD_S3_BUCKET'', ''UPLOAD_S3_ACCESS_KEY'', ''UPLOAD_S3_SECRET_KEY'', ''UPLOAD_QUOTA_CONFIG_PATH''])"

definition ex_kenv :: "string \<Rightarrow> string" where
  "ex_kenv = ex_env [(''TELEMETRY_AUTH_HS256_KEY'', ex_key_text)]"

lemma ex_key_bytes: "DecodeString url_alphabet ex_key_text = Some (replicate 32 (CHR 0x00))"
  by code_simp

lemma ex_hosts: "SplitHostPort ''127.0.0.1:5401'' = Some (''127.0.0.1'', ''5401'')" "SplitHostPort ''127.0.0.1:8094'' = Some (''127.0.0.1'', ''8094'')"
  by code_simp+

lemma ex_tenancy: "\<exists>cfg. Tenancy_LoadConfig ex_url_parse ex_tenv = Inr cfg \<and> nc_AccessTokenTTL cfg = 900 * 1000000000"
  by (simp add: Tenancy_LoadConfig_def envDuration_def envBool_def envDefault_def ex_tenv_def ex_env_def ex_key_bytes ex_hosts http_url_def
      ex_url_parse_def has_prefix_def hour_def ex_key_text_def [symmetric] Let_def) (simp add: ex_key_text_def)

lemma ex_orchestrator: "\<exists>cfg. FromEnv ex_oenv = Inr cfg \<and> gc_JWTSecret cfg = ex_key_text"
  by (simp add: FromEnv_def env_checked_def required_env_def ex_oenv_def ex_env_def Let_def) (simp add: ex_key_text_def)

lemma ex_upload: "\<exists>cfg. LoadConfig (DecodeString url_alphabet) ex_uenv = Inr cfg"
  by (simp add: LoadConfig_def envInt64_def envBool_def ex_uenv_def ex_env_def ex_key_bytes ChunkSizeBytes_def Let_def) (simp add: ex_key_text_def)

lemma ex_telemetry: "\<exists>cfg. Tel_Load ex_url_parse ex_kenv = Inr cfg"
  by (simp add: Tel_Load_def getenv_or_def ex_kenv_def ex_env_def ex_key_bytes ex_hosts ParseUint_def read_nat_def is_digit_def between_def
      digit_val_def ex_url_parse_def has_prefix_def Let_def) (simp add: ex_key_text_def)

definition ex_mint_db :: ten where
  "ex_mint_db = \<lparr>io_script = [], id_supply = [''jti''], clock = 0, t_users = [], t_workspaces = [], t_members = [], t_refresh = [],
     t_logins = [], t_apikeys = [], t_metered = [], t_rollups = [], entropy = []\<rparr>"

definition ex_now :: int where
  "ex_now = 62135596800 * 1000000000"

theorem minted_token_accepted_everywhere_witness:
  "\<exists>token ucfg kcfg. fst (Mint ex_jwt (replicate 32 (CHR 0x00)) ''u'' ''w'' ex_now (900 * 1000000000) ex_mint_db) = Inr token \<and>
     LoadConfig (DecodeString url_alphabet) ex_uenv = Inr ucfg \<and> Tel_Load ex_url_parse ex_kenv = Inr kcfg \<and>
     VerifyHS256 ex_token_lib token (uc_AuthHS256Key ucfg) (unix_seconds ex_now) = Inr \<lparr>ui_WorkspaceID = ''w'', ui_UserID = ''u''\<rparr> \<and>
     Tel_Verify (parse_at ex_jwt ex_now) (tk_AuthHS256Key kcfg) token = Some \<lparr>ti_UserID = ''u'', ti_WorkspaceID = ''w''\<rparr>"
proof -
  let ?key = "replicate 32 (CHR 0x00)"
  obtain tcfg where t: "Tenancy_LoadConfig ex_url_parse ex_tenv = Inr tcfg" "nc_AccessTokenTTL tcfg = 900 * 1000000000" using ex_tenancy by blast
  obtain ocfg where o: "FromEnv ex_oenv = Inr ocfg" "gc_JWTSecret ocfg = ex_key_text" using ex_orchestrator by blast
  obtain ucfg where u: "LoadConfig (DecodeString url_alphabet) ex_uenv = Inr ucfg" using ex_upload by blast
  obtain kcfg where k: "Tel_Load ex_url_parse ex_kenv = Inr kcfg" using ex_telemetry by blast
  have v: "NewVerifier (DecodeString url_alphabet) (gc_JWTSecret ocfg) = Some ?key"
    by (simp add: o(2) NewVerifier_def ex_key_bytes) (simp add: ex_key_text_def)
  have env: "ex_tenv ''TENANCY_AUTH_HS256_KEY'' = ex_key_text" "ex_oenv ''ORCH_JWT_SECRET'' = ex_key_text"
    "ex_uenv ''UPLOAD_AUTH_HS256_KEY'' = ex_key_text" "ex_kenv ''TELEMETRY_AUTH_HS256_KEY'' = ex_key_text"
    by (simp_all add: ex_tenv_def ex_oenv_def ex_uenv_def ex_kenv_def ex_env_def)
  have key: "nc_AuthHS256Key tcfg = ?key" using Tenancy_LoadConfig_limits [OF t(1)] env(1) ex_key_bytes by simp
  obtain token where m: "fst (Mint ex_jwt ?key ''u'' ''w'' ex_now (900 * 1000000000) ex_mint_db) = Inr token"
    by (simp add: Mint_def ex_jwt_def and_then_def new_id_def ex_mint_db_def ret_def)
  then obtain w' where m': "Mint ex_jwt (nc_AuthHS256Key tcfg) ''u'' ''w'' ex_now (nc_AccessTokenTTL tcfg) ex_mint_db = (Inr token, w')"
    unfolding key t(2) by (metis prod.collapse)
  have time: "0 \<le> unix_seconds ex_now" "ex_now \<le> ex_now" "unix_seconds ex_now < unix_seconds (ex_now + nc_AccessTokenTTL tcfg)"
    unfolding t(2) by (simp_all add: unix_seconds_def ex_now_def)
  have "VerifyHS256 ex_token_lib token (uc_AuthHS256Key ucfg) (unix_seconds ex_now) = Inr \<lparr>ui_WorkspaceID = ''w'', ui_UserID = ''u''\<rparr> \<and>
    Tel_Verify (parse_at ex_jwt ex_now) (tk_AuthHS256Key kcfg) token = Some \<lparr>ti_UserID = ''u'', ti_WorkspaceID = ''w''\<rparr>"
    using minted_token_accepted_everywhere [OF ex_jwt_standard t(1) o(1) u k v _ _ _ m' time] env by simp
  with m u k show ?thesis by blast
qed

end
