(* ===== verification/Migrations.thy ===== *)
theory Migrations
  imports GoText
begin

text \<open>
  The migration runners of the orchestrator (\<open>services/orchestrator/internal/store/migrate.go\<close>) and
  of the tenancy service (\<open>services/tenancy/migrate.go\<close>), which differ only in the wording of errors
  and in who opens the connection. What a script does to the schema is a parameter: \<open>exec sql d\<close> is
  the schema after it, or nothing if the script fails. Statements may fail as the environment says;
  a transaction takes effect at its commit, whose acknowledgement may be lost. The advisory lock
  makes concurrent runs one after the other.
\<close>

section \<open>The embedded files\<close>

record migrationFile =
  mf_Version :: int
  mf_Name :: string
  mf_SQL :: string

datatype mig_err =
  MigName string | MigVersion string | MigDuplicate string string | MigReadFile string | MigNone
| MigLock | MigTable | MigReadVersions | MigBegin string | MigApply string | MigRecord string | MigCommit string

text \<open>A directory entry is a name with the contents, if they can be read.\<close>

fun collect :: "(string \<times> string option) list \<Rightarrow> (int \<times> string) list \<Rightarrow> mig_err + migrationFile list" where
  "collect [] seen = Inr []"
| "collect ((name, content) # es) seen =
     (if \<not> has_suffix ''.up.sql'' name then collect es seen
      else case cut CHR ''_'' name of
        None \<Rightarrow> Inl (MigName name)
      | Some (prefix, _) \<Rightarrow>
          (case ParseInt prefix of
             None \<Rightarrow> Inl (MigVersion name)
           | Some v \<Rightarrow>
               (case map_of seen v of
                  Some prev \<Rightarrow> Inl (MigDuplicate name prev)
                | None \<Rightarrow>
                    (case content of
                       None \<Rightarrow> Inl (MigReadFile name)
                     | Some sql \<Rightarrow>
                         (case collect es ((v, name) # seen) of
                            Inl e \<Rightarrow> Inl e
                          | Inr ms \<Rightarrow> Inr (\<lparr>mf_Version = v, mf_Name = name, mf_SQL = sql\<rparr> # ms))))))"

definition loadMigrations :: "(string \<times> string option) list \<Rightarrow> mig_err + migrationFile list" where
  "loadMigrations entries =
     (case collect entries [] of
        Inl e \<Rightarrow> Inl e
      | Inr out \<Rightarrow> if out = [] then Inl MigNone else Inr (sort_key mf_Version out))"

section \<open>The database\<close>

record 'd migdb = env +
  md_created :: bool
  md_versions :: "(int \<times> string) list"
  md_schema :: 'd

definition begin_tx :: "('d migdb, unit) op" where
  "begin_tx = with_io (\<lambda>s. (Inr (), s))"

text \<open>Inside a transaction: the schema as the transaction sees it is carried along.\<close>

definition tx_exec :: "(string \<Rightarrow> 'd \<Rightarrow> 'd option) \<Rightarrow> string \<Rightarrow> ('d migdb, 'd) op" where
  "tx_exec exec sql = with_io (\<lambda>s. (case exec sql (md_schema s) of None \<Rightarrow> Inl ErrIO | Some d \<Rightarrow> Inr d, s))"

definition tx_record :: "migrationFile \<Rightarrow> ('d migdb, unit) op" where
  "tx_record m = with_io (\<lambda>s. (if has_key fst (mf_Version m) (md_versions s) then Inl ErrConflict else Inr (), s))"

definition tx_commit :: "migrationFile \<Rightarrow> 'd \<Rightarrow> ('d migdb, unit) op" where
  "tx_commit m d = with_io (\<lambda>s. (Inr (), s\<lparr>md_schema := d, md_versions := md_versions s @ [(mf_Version m, mf_Name m)]\<rparr>))"

definition apply_migration :: "(string \<Rightarrow> 'd \<Rightarrow> 'd option) \<Rightarrow> migrationFile \<Rightarrow> 'd migdb \<Rightarrow> (mig_err + unit) \<times> 'd migdb" where
  "apply_migration exec m =
     and_then begin_tx (\<lambda>r. case r of Inl _ \<Rightarrow> ret (Inl (MigBegin (mf_Name m))) | Inr _ \<Rightarrow>
     and_then (tx_exec exec (mf_SQL m)) (\<lambda>r. case r of Inl _ \<Rightarrow> ret (Inl (MigApply (mf_Name m))) | Inr d \<Rightarrow>
     and_then (tx_record m) (\<lambda>r. case r of Inl _ \<Rightarrow> ret (Inl (MigRecord (mf_Name m))) | Inr _ \<Rightarrow>
     and_then (tx_commit m d) (\<lambda>r. case r of Inl _ \<Rightarrow> ret (Inl (MigCommit (mf_Name m))) | Inr _ \<Rightarrow> ret (Inr ())))))"

primrec apply_pending ::
  "(string \<Rightarrow> 'd \<Rightarrow> 'd option) \<Rightarrow> int set \<Rightarrow> migrationFile list \<Rightarrow> 'd migdb \<Rightarrow> (mig_err + unit) \<times> 'd migdb" where
  "apply_pending exec applied [] = ret (Inr ())"
| "apply_pending exec applied (m # ms) =
     (if mf_Version m \<in> applied then apply_pending exec applied ms
      else and_then (apply_migration exec m) (\<lambda>r. case r of Inl e \<Rightarrow> ret (Inl e) | Inr _ \<Rightarrow> apply_pending exec applied ms))"

definition advisory_lock :: "('d migdb, unit) op" where
  "advisory_lock = with_io (\<lambda>s. (Inr (), s))"

definition create_table :: "('d migdb, unit) op" where
  "create_table = with_io (\<lambda>s. (Inr (), s\<lparr>md_created := True\<rparr>))"

definition read_versions :: "('d migdb, int set) op" where
  "read_versions = with_io (\<lambda>s. (Inr (set (map fst (md_versions s))), s))"

text \<open>\<open>Migrate\<close> and \<open>runMigrations\<close>; the unlock that is deferred has no effect on the tables.\<close>

definition Migrate ::
  "(string \<Rightarrow> 'd \<Rightarrow> 'd option) \<Rightarrow> (string \<times> string option) list \<Rightarrow> 'd migdb \<Rightarrow> (mig_err + unit) \<times> 'd migdb" where
  "Migrate exec entries =
     (case loadMigrations entries of
        Inl e \<Rightarrow> ret (Inl e)
      | Inr ms \<Rightarrow>
     and_then advisory_lock (\<lambda>r. case r of Inl _ \<Rightarrow> ret (Inl MigLock) | Inr _ \<Rightarrow>
     and_then create_table (\<lambda>r. case r of Inl _ \<Rightarrow> ret (Inl MigTable) | Inr _ \<Rightarrow>
     and_then read_versions (\<lambda>r. case r of Inl _ \<Rightarrow> ret (Inl MigReadVersions) | Inr applied \<Rightarrow>
       apply_pending exec applied ms))))"

section \<open>The files are a strictly ordered list\<close>

lemma collect_versions:
  "collect es seen = Inr ms \<Longrightarrow> distinct (map mf_Version ms) \<and> set (map mf_Version ms) \<inter> fst ` set seen = {}"
proof (induction es seen arbitrary: ms rule: collect.induct)
  case (2 name content es seen)
  show ?case
  proof (cases "has_suffix ''.up.sql'' name")
    case True
    with "2.prems" obtain p q v sql rest where c: "cut CHR ''_'' name = Some (p, q)" "ParseInt p = Some v" "map_of seen v = None"
      "content = Some sql" "collect es ((v, name) # seen) = Inr rest" "ms = \<lparr>mf_Version = v, mf_Name = name, mf_SQL = sql\<rparr> # rest"
      by (auto split: option.splits sum.splits)
    from "2.IH"(2) [OF _ c(1) refl c(2,3,4), of rest] True c(3,5,6) show ?thesis by (auto simp: map_of_eq_None_iff)
  qed (use 2 in auto)
qed simp

lemma loadMigrations_sorted:
  assumes "loadMigrations entries = Inr ms"
  shows "sorted_wrt (<) (map mf_Version ms)" "ms \<noteq> []"
proof -
  obtain out where out: "collect entries [] = Inr out" "out \<noteq> []" "ms = sort_key mf_Version out"
    using assms by (auto simp: loadMigrations_def split: sum.splits if_splits)
  have "distinct (map mf_Version out)" using collect_versions [OF out(1)] by simp
  then have "distinct (map mf_Version ms)" using out(3) by (simp add: distinct_map)
  then show "sorted_wrt (<) (map mf_Version ms)" using out(3) by (simp add: strict_sorted_iff)
  have "length ms = length out" using out(3) by simp
  then show "ms \<noteq> []" using out(2) by auto
qed

section \<open>Every script once, in order\<close>

fun run_scripts :: "(string \<Rightarrow> 'd \<Rightarrow> 'd option) \<Rightarrow> migrationFile list \<Rightarrow> 'd \<Rightarrow> 'd option" where
  "run_scripts exec [] d = Some d"
| "run_scripts exec (m # ms) d = (case exec (mf_SQL m) d of None \<Rightarrow> None | Some d' \<Rightarrow> run_scripts exec ms d')"

lemma run_scripts_snoc:
  "run_scripts exec (ms @ [m]) d = (case run_scripts exec ms d of None \<Rightarrow> None | Some d' \<Rightarrow> exec (mf_SQL m) d')"
  by (induction ms arbitrary: d) (auto split: option.splits)

abbreviation row_of :: "migrationFile \<Rightarrow> int \<times> string" where
  "row_of m \<equiv> (mf_Version m, mf_Name m)"

text \<open>The first \<open>k\<close> files have been applied, and nothing else.\<close>

definition migrated :: "(string \<Rightarrow> 'd \<Rightarrow> 'd option) \<Rightarrow> migrationFile list \<Rightarrow> 'd \<Rightarrow> nat \<Rightarrow> 'd migdb \<Rightarrow> bool" where
  "migrated exec ms d0 k s \<longleftrightarrow> k \<le> length ms \<and> md_versions s = map row_of (take k ms) \<and>
     run_scripts exec (take k ms) d0 = Some (md_schema s)"

lemma migrated_frame [simp]:
  "migrated exec ms d0 k (s\<lparr>io_script := os\<rparr>) = migrated exec ms d0 k s" "migrated exec ms d0 k (s\<lparr>md_created := b\<rparr>) = migrated exec ms d0 k s"
  by (simp_all add: migrated_def)

lemma query_step:
  assumes "with_io (\<lambda>s. (g s, s)) s = (r, s')" "\<And>os. g (s\<lparr>io_script := os\<rparr>) = g s"
  shows "\<exists>os. s' = s\<lparr>io_script := os\<rparr> \<and> (isl r \<or> r = g s)"
proof -
  have n: "s0 = s\<lparr>io_script := tl (io_script s)\<rparr>" if "next_io s = (x, s0)" for x s0 by (rule next_io_update [OF that])
  show ?thesis by (cases rule: with_io_cases [of s "\<lambda>s. (g s, s)"]) (use assms in \<open>auto dest!: n\<close>)
qed

lemma tx_commit_step:
  assumes "tx_commit m d s = (r, s')"
  shows "\<exists>os. s' = s\<lparr>io_script := os\<rparr> \<and> isl r \<or>
    s' = s\<lparr>io_script := os, md_schema := d, md_versions := md_versions s @ [row_of m]\<rparr>"
proof -
  let ?f = "\<lambda>s. (Inr (), s\<lparr>md_schema := d, md_versions := md_versions s @ [row_of m]\<rparr>)"
  have n: "s0 = s\<lparr>io_script := tl (io_script s)\<rparr>" if "next_io s = (x, s0)" for x s0 by (rule next_io_update [OF that])
  show ?thesis by (cases rule: with_io_cases [of s ?f]) (use assms in \<open>auto simp: tx_commit_def dest!: n\<close>)
qed

lemma tx_exec_step:
  "tx_exec exec sql s = (r, s') \<Longrightarrow> \<exists>os. s' = s\<lparr>io_script := os\<rparr> \<and> (\<forall>d. r = Inr d \<longrightarrow> exec sql (md_schema s) = Some d)"
  unfolding tx_exec_def by (drule query_step) (auto split: option.splits)

lemma tx_record_step:
  "tx_record m s = (r, s') \<Longrightarrow> \<exists>os. s' = s\<lparr>io_script := os\<rparr> \<and> (r = Inr () \<longrightarrow> \<not> has_key fst (mf_Version m) (md_versions s))"
  unfolding tx_record_def by (drule query_step) (auto split: if_splits)

text \<open>A migration either leaves the tables alone and fails, or takes effect as a whole.\<close>

lemma apply_migration_atomic:
  assumes "apply_migration exec m s = (r, s')"
  obtains (nothing) os where "s' = s\<lparr>io_script := os\<rparr>" "r \<noteq> Inr ()"
  | (applied) os d where "exec (mf_SQL m) (md_schema s) = Some d" "\<not> has_key fst (mf_Version m) (md_versions s)"
      "s' = s\<lparr>io_script := os, md_schema := d, md_versions := md_versions s @ [row_of m]\<rparr>"
proof -
  obtain r1 s1 where 1: "begin_tx s = (r1, s1)" by fastforce
  obtain r2 s2 where 2: "tx_exec exec (mf_SQL m) s1 = (r2, s2)" by fastforce
  obtain r3 s3 where 3: "tx_record m s2 = (r3, s3)" by fastforce
  obtain o1 where e1: "s1 = s\<lparr>io_script := o1\<rparr>" using query_step [OF 1 [unfolded begin_tx_def]] by blast
  obtain o2 where e2: "s2 = s\<lparr>io_script := o2\<rparr>" "\<And>d. r2 = Inr d \<Longrightarrow> exec (mf_SQL m) (md_schema s) = Some d"
    using tx_exec_step [OF 2] e1 by auto
  obtain o3 where e3: "s3 = s\<lparr>io_script := o3\<rparr>" "r3 = Inr () \<Longrightarrow> \<not> has_key fst (mf_Version m) (md_versions s)"
    using tx_record_step [OF 3] e2(1) by auto
  show thesis
  proof (cases "isl r1 \<or> isl r2 \<or> isl r3")
    case True
    then obtain os where "s' = s\<lparr>io_script := os\<rparr>" "r \<noteq> Inr ()"
      using assms 1 2 3 e1 e2(1) e3(1) by (cases r1; cases r2; cases r3) (auto simp: apply_migration_def and_then_def ret_def)
    then show thesis by (rule nothing)
  next
    case False
    then obtain d where d: "r1 = Inr ()" "r2 = Inr d" "r3 = Inr ()" by (cases r1; cases r2; cases r3) auto
    obtain r4 s4 where 4: "tx_commit m d s3 = (r4, s4)" by fastforce
    have r: "s' = s4" "r = Inr () \<Longrightarrow> \<not> isl r4"
      using assms 1 2 3 4 d by (auto simp: apply_migration_def and_then_def ret_def split: sum.splits)
    from tx_commit_step [OF 4] e3(1) obtain os where
      "s4 = s\<lparr>io_script := os\<rparr> \<and> isl r4 \<or> s4 = s\<lparr>io_script := os, md_schema := d, md_versions := md_versions s @ [row_of m]\<rparr>" by auto
    then show thesis
    proof
      assume lost: "s4 = s\<lparr>io_script := os\<rparr> \<and> isl r4"
      show thesis by (rule nothing [of os]) (use r lost in auto)
    next
      assume effect: "s4 = s\<lparr>io_script := os, md_schema := d, md_versions := md_versions s @ [row_of m]\<rparr>"
      show thesis by (rule applied [OF e2(2) [OF d(2)] e3(2) [OF d(3)]]) (use r(1) effect in simp)
    qed
  qed
qed

lemma apply_rest:
  assumes "sorted_wrt (<) (map mf_Version ms)" "ms = before @ rest" "migrated exec ms d0 (length before) s"
    and "\<forall>m\<in>set rest. mf_Version m \<notin> applied" "apply_pending exec applied rest s = (r, s')"
  shows "\<exists>k. migrated exec ms d0 k s' \<and> length before \<le> k \<and> (r = Inr () \<longrightarrow> k = length ms)"
  using assms(2-)
proof (induction rest arbitrary: before s)
  case Nil
  then show ?case by (auto simp: ret_def)
next
  case (Cons m rest)
  from Cons.prems(3,4) obtain r1 s1 where m: "apply_migration exec m s = (r1, s1)"
    "(case r1 of Inl e \<Rightarrow> ret (Inl e) | Inr _ \<Rightarrow> apply_pending exec applied rest) s1 = (r, s')"
    by (auto elim: and_thenE)
  from m(1) show ?case
  proof (cases rule: apply_migration_atomic)
    case (nothing os)
    then have "s' = s\<lparr>io_script := os\<rparr>" "r \<noteq> Inr ()" using m(2) by (auto simp: ret_def split: sum.splits)
    then show ?thesis using Cons.prems(2) by auto
  next
    case (applied os d)
    have mig: "migrated exec ms d0 (length (before @ [m])) s1"
      using Cons.prems(1,2) applied(1,3) by (simp add: migrated_def run_scripts_snoc)
    show ?thesis
    proof (cases r1)
      case (Inl e)
      then have "s' = s1" "r \<noteq> Inr ()" using m(2) by (auto simp: ret_def)
      then show ?thesis using mig by (intro exI [of _ "length (before @ [m])"]) simp
    next
      case (Inr u)
      then have "apply_pending exec applied rest s1 = (r, s')" using m(2) by simp
      from Cons.IH [OF _ mig _ this] Cons.prems(1,3) show ?thesis by auto
    qed
  qed
qed

lemma pending_suffix:
  assumes "sorted_wrt (<) (map mf_Version ms)" "k \<le> length ms"
  shows "apply_pending exec (set (map mf_Version (take k ms))) ms s = apply_pending exec (set (map mf_Version (take k ms))) (drop k ms) s"
    and "\<forall>m\<in>set (drop k ms). mf_Version m \<notin> set (map mf_Version (take k ms))"
proof -
  have skip: "apply_pending exec A (as @ bs) s = apply_pending exec A bs s" if "\<forall>m\<in>set as. mf_Version m \<in> A" for A as bs
    using that by (induction as) auto
  show "apply_pending exec (set (map mf_Version (take k ms))) ms s = apply_pending exec (set (map mf_Version (take k ms))) (drop k ms) s"
    using skip [of "take k ms" "set (map mf_Version (take k ms))" "drop k ms"] by simp
  have "distinct (map mf_Version (take k ms @ drop k ms))" using assms(1) by (simp add: strict_sorted_iff)
  then show "\<forall>m\<in>set (drop k ms). mf_Version m \<notin> set (map mf_Version (take k ms))"
    unfolding map_append distinct_append by auto
qed

lemma Migrate_step:
  assumes "loadMigrations entries = Inr ms" "migrated exec ms d0 k s" "Migrate exec entries s = (r, s')"
  shows "\<exists>k'. migrated exec ms d0 k' s' \<and> k \<le> k' \<and> (r = Inr () \<longrightarrow> k' = length ms)"
proof -
  obtain r1 s1 where 1: "advisory_lock s = (r1, s1)" by fastforce
  obtain r2 s2 where 2: "create_table s1 = (r2, s2)" by fastforce
  obtain r3 s3 where 3: "read_versions s2 = (r3, s3)" by fastforce
  have m1: "migrated exec ms d0 k s1" using query_step [OF 1 [unfolded advisory_lock_def]] assms(2) by auto
  have "migrated exec ms d0 k (snd (create_table s1))" unfolding create_table_def
    by (rule with_io_inv [where I = "migrated exec ms d0 k"]) (use m1 in simp_all)
  with 2 have m2: "migrated exec ms d0 k s2" by simp
  obtain o3 where e3: "s3 = s2\<lparr>io_script := o3\<rparr>" "isl r3 \<or> r3 = Inr (set (map fst (md_versions s2)))"
    using query_step [OF 3 [unfolded read_versions_def]] by auto
  then have m3: "migrated exec ms d0 k s3" using m2 by simp
  show ?thesis
  proof (cases "isl r1 \<or> isl r2 \<or> isl r3")
    case True
    then have "r \<noteq> Inr ()" "s' = s1 \<or> s' = s2 \<or> s' = s3"
      using assms(1,3) 1 2 3 by (cases r1; cases r2; cases r3; auto simp: Migrate_def and_then_def ret_def)+
    then show ?thesis using m1 m2 m3 by (intro exI [of _ k]) auto
  next
    case False
    have vs: "set (map fst (md_versions s2)) = set (map mf_Version (take k ms))" "k \<le> length ms"
      using m2 by (simp_all add: migrated_def image_comp comp_def)
    have run: "apply_pending exec (set (map mf_Version (take k ms))) ms s3 = (r, s')"
      using assms(1,3) 1 2 3 False e3(2) vs(1) by (cases r1; cases r2; cases r3) (auto simp: Migrate_def and_then_def)
    note sorted = loadMigrations_sorted(1) [OF assms(1)]
    note suffix = pending_suffix [OF sorted vs(2)]
    have "apply_pending exec (set (map mf_Version (take k ms))) (drop k ms) s3 = (r, s')"
      using run suffix(1) [of exec s3] by (simp only:)
    moreover have "length (take k ms) = k" using vs(2) by simp
    ultimately show ?thesis using apply_rest [OF sorted _ _ suffix(2), of "take k ms" exec d0 s3 r s'] m3 by simp
  qed
qed

text \<open>
  C37. Migrations run once and in order. Let a service start any number of times on a database
  whose bookkeeping is empty, each run failing wherever the environment makes it fail, also after
  a commit whose acknowledgement is lost. The versions recorded are then those of a first part of
  the files in ascending order of version, and the schema is what exactly these scripts, run once
  each in that order, make of the initial one; a start that succeeds leaves none of them out.
\<close>

theorem migrations_once_in_order:
  assumes "loadMigrations entries = Inr ms" "md_versions s0 = []"
    and "s = ((\<lambda>s. snd (Migrate exec entries s)) ^^ n) s0"
  shows "sorted_wrt (<) (map mf_Version ms) \<and>
    (\<exists>k \<le> length ms. md_versions s = map (\<lambda>m. (mf_Version m, mf_Name m)) (take k ms) \<and>
       run_scripts exec (take k ms) (md_schema s0) = Some (md_schema s)) \<and>
    (fst (Migrate exec entries s) = Inr () \<longrightarrow> map fst (md_versions (snd (Migrate exec entries s))) = map mf_Version ms)"
proof -
  have "\<exists>k. migrated exec ms (md_schema s0) k (((\<lambda>s. snd (Migrate exec entries s)) ^^ n) s0)" for n
  proof (induction n)
    case 0
    have "migrated exec ms (md_schema s0) 0 s0" using assms(2) by (simp add: migrated_def)
    then show ?case by auto
  next
    case (Suc n)
    then obtain k where k: "migrated exec ms (md_schema s0) k (((\<lambda>s. snd (Migrate exec entries s)) ^^ n) s0)" by blast
    from Migrate_step [OF assms(1) k] show ?case by (metis funpow.simps(2) o_apply prod.collapse)
  qed
  then obtain k where k: "migrated exec ms (md_schema s0) k s" unfolding assms(3) by blast
  obtain r s' where run: "Migrate exec entries s = (r, s')" by fastforce
  from Migrate_step [OF assms(1) k run] have "r = Inr () \<longrightarrow> map fst (md_versions s') = map mf_Version ms"
    by (auto simp: migrated_def)
  with k run loadMigrations_sorted(1) [OF assms(1)] show ?thesis by (auto simp: migrated_def)
qed

definition ex_entries :: "(string \<times> string option) list" where
  "ex_entries = [(''0001_init.down.sql'', Some ''drop''), (''0001_init.up.sql'', Some ''create''), (''0002_more.up.sql'', Some ''alter'')]"

definition ex_files :: "migrationFile list" where
  "ex_files = [\<lparr>mf_Version = 1, mf_Name = ''0001_init.up.sql'', mf_SQL = ''create''\<rparr>,
               \<lparr>mf_Version = 2, mf_Name = ''0002_more.up.sql'', mf_SQL = ''alter''\<rparr>]"

text \<open>The acknowledgement of the first commit is lost; the second start finishes.\<close>

definition ex_migdb :: "string list migdb" where
  "ex_migdb = \<lparr>io_script = [IoOk, IoOk, IoOk, IoOk, IoOk, IoOk, IoLost], id_supply = [], clock = 0, md_created = False, md_versions = [], md_schema = []\<rparr>"

definition ex_exec :: "string \<Rightarrow> string list \<Rightarrow> string list option" where
  "ex_exec sql d = Some (d @ [sql])"

lemma ex_entries_load: "loadMigrations ex_entries = Inr ex_files"
  by (simp add: loadMigrations_def ex_entries_def ex_files_def has_suffix_def has_prefix_def cut_def ParseInt_def read_nat_def
      is_digit_def between_def digit_val_def in_i64_def)

lemmas migrate_simps = Migrate_def ex_entries_load ex_files_def advisory_lock_def create_table_def read_versions_def apply_migration_def
  begin_tx_def tx_exec_def tx_record_def tx_commit_def and_then_def ret_def with_io_def next_io_def ex_exec_def has_key_def

definition ex_half :: "string list migdb" where
  "ex_half = \<lparr>io_script = [], id_supply = [], clock = 0, md_created = True, md_versions = [(1, ''0001_init.up.sql'')], md_schema = [''create'']\<rparr>"

lemma ex_first_start: "Migrate ex_exec ex_entries ex_migdb = (Inl (MigCommit ''0001_init.up.sql''), ex_half)"
  by (simp add: migrate_simps ex_migdb_def ex_half_def)

lemma ex_second_start: "fst (Migrate ex_exec ex_entries ex_half) = Inr ()"
  by (simp add: migrate_simps ex_half_def)

theorem migrations_once_in_order_witness:
  "fst (Migrate ex_exec ex_entries ex_migdb) = Inl (MigCommit ''0001_init.up.sql'') \<and>
   map fst (md_versions (snd (Migrate ex_exec ex_entries (snd (Migrate ex_exec ex_entries ex_migdb))))) = [1, 2]"
proof -
  have "md_versions ex_migdb = []" by (simp add: ex_migdb_def)
  moreover have "ex_half = ((\<lambda>s. snd (Migrate ex_exec ex_entries s)) ^^ 1) ex_migdb" by (simp add: ex_first_start)
  ultimately have "map fst (md_versions (snd (Migrate ex_exec ex_entries ex_half))) = map mf_Version ex_files"
    using migrations_once_in_order [OF ex_entries_load] ex_second_start by blast
  then show ?thesis by (simp add: ex_first_start ex_files_def)
qed

end
