(* ===== verification/Streams.thy ===== *)
theory Streams
  imports Contracts
begin

text \<open>
  Streams and consumers on the message broker: \<open>services/orchestrator/internal/natsio/natsio.go\<close>, the
  publisher of \<open>services/upload/publisher.go\<close>, the set-up of the metering consumer in
  \<open>services/tenancy/metering.go\<close> and of the landed-object consumer in
  \<open>services/orchestrator/internal/consumer/landed.go\<close>. The client library of the broker is a
  parameter; the locale \<open>jetstream\<close> states what the broker documents.
\<close>

section \<open>The client library\<close>

datatype js_err = StreamNotFound | StreamNameAlreadyInUse | JsFailure

record StreamConfig =
  st_Name :: string
  st_Subjects :: "string list"

record ConsumerConfig =
  cc_Durable :: string
  cc_FilterSubject :: string
  cc_MaxDeliver :: int
  cc_AckWait :: int

type_synonym ('b, 'a) js_op = "'b \<Rightarrow> (js_err + 'a) \<times> 'b"

text \<open>
  \<open>js_Connect\<close> is \<open>nats.Connect\<close> followed by \<open>jetstream.New\<close>. Every stream of the services keeps its
  messages in files under the limits policy, so a configuration is a name and its subjects.
\<close>

record 'b js_client =
  js_Connect :: "string \<Rightarrow> ('b, unit) js_op"
  js_StreamNameBySubject :: "string \<Rightarrow> ('b, string) js_op"
  js_Stream :: "string \<Rightarrow> ('b, unit) js_op"
  js_CreateStream :: "StreamConfig \<Rightarrow> ('b, unit) js_op"
  js_CreateOrUpdateStream :: "StreamConfig \<Rightarrow> ('b, unit) js_op"
  js_CreateOrUpdateConsumer :: "string \<Rightarrow> ConsumerConfig \<Rightarrow> ('b, unit) js_op"
  js_Consume :: "string \<Rightarrow> string \<Rightarrow> ('b, unit) js_op"

section \<open>The upload publisher (publisher.go)\<close>

datatype setup_err = NatsConnect | EnsureStream | StreamLookup | CreateStreamFailed | ConsumerFailed | ConsumeFailed

definition ftStreamName :: string where
  "ftStreamName = ''AETHER_FT''"

definition ftStreamConfig :: StreamConfig where
  "ftStreamConfig = \<lparr>st_Name = ftStreamName, st_Subjects = [SubjectUploadLanded, SubjectMetering]\<rparr>"

text \<open>The next call when one succeeds, the given error when it fails.\<close>

definition or_fail :: "'e \<Rightarrow> ('a \<Rightarrow> 'b \<Rightarrow> ('e + 'c) \<times> 'b) \<Rightarrow> 'x + 'a \<Rightarrow> 'b \<Rightarrow> ('e + 'c) \<times> 'b" where
  "or_fail e k r = (case r of Inl _ \<Rightarrow> ret (Inl e) | Inr x \<Rightarrow> k x)"

lemma or_failE:
  assumes "and_then f (or_fail e k) b = (Inr y, b')"
  obtains x b1 where "f b = (Inr x, b1)" "k x b1 = (Inr y, b')"
  using assms by (cases "f b"; cases "fst (f b)") (auto simp: and_then_def or_fail_def ret_def)

definition NewJetStreamPublisher :: "'b js_client \<Rightarrow> string \<Rightarrow> 'b \<Rightarrow> (setup_err + unit) \<times> 'b" where
  "NewJetStreamPublisher cl url =
     and_then (js_Connect cl url) (or_fail NatsConnect (\<lambda>_.
     and_then (js_CreateOrUpdateStream cl ftStreamConfig) (or_fail EnsureStream (\<lambda>_. ret (Inr ())))))"

section \<open>The metering consumer (tenancy/metering.go)\<close>

definition meteringConsumerName :: string where
  "meteringConsumerName = ''tenancy-metering''"

definition metering_consumer :: ConsumerConfig where
  "metering_consumer = \<lparr>cc_Durable = meteringConsumerName, cc_FilterSubject = SubjectMetering, cc_MaxDeliver = 0, cc_AckWait = 0\<rparr>"

text \<open>The stream by its name, created when it is not found.\<close>

definition ensure_ft_stream :: "'b js_client \<Rightarrow> ('b, unit) js_op" where
  "ensure_ft_stream cl =
     and_then (js_Stream cl ftStreamName) (\<lambda>r.
       if r = Inl StreamNotFound then js_CreateStream cl ftStreamConfig else ret r)"

definition NewMeteringConsumer :: "'b js_client \<Rightarrow> string \<Rightarrow> 'b \<Rightarrow> (setup_err + unit) \<times> 'b" where
  "NewMeteringConsumer cl url =
     and_then (js_Connect cl url) (or_fail NatsConnect (\<lambda>_.
     and_then (ensure_ft_stream cl) (or_fail EnsureStream (\<lambda>_.
     and_then (js_CreateOrUpdateConsumer cl ftStreamName metering_consumer) (or_fail ConsumerFailed (\<lambda>_.
     and_then (js_Consume cl ftStreamName meteringConsumerName) (or_fail ConsumeFailed (\<lambda>_. ret (Inr ())))))))))"

section \<open>The orchestrator's side (natsio.go, landed.go)\<close>

definition Nats_Connect :: "'b js_client \<Rightarrow> string \<Rightarrow> 'b \<Rightarrow> (setup_err + unit) \<times> 'b" where
  "Nats_Connect cl url = and_then (js_Connect cl url) (or_fail NatsConnect (\<lambda>_. ret (Inr ())))"

definition EnsureStreamForSubject :: "'b js_client \<Rightarrow> string \<Rightarrow> string \<Rightarrow> 'b \<Rightarrow> (setup_err + string) \<times> 'b" where
  "EnsureStreamForSubject cl fallbackName subject =
     and_then (js_StreamNameBySubject cl subject) (\<lambda>r. case r of
       Inr name \<Rightarrow> ret (Inr name)
     | Inl e \<Rightarrow>
         if e \<noteq> StreamNotFound then ret (Inl StreamLookup)
         else and_then (js_CreateStream cl \<lparr>st_Name = fallbackName, st_Subjects = [subject]\<rparr>) (\<lambda>r. case r of
                Inr _ \<Rightarrow> ret (Inr fallbackName)
              | Inl e \<Rightarrow> if e = StreamNameAlreadyInUse then ret (Inr fallbackName) else ret (Inl CreateStreamFailed)))"

definition landed_consumer :: ConsumerConfig where
  "landed_consumer = \<lparr>cc_Durable = ''orchestrator-landed'', cc_FilterSubject = SubjectUploadLanded, cc_MaxDeliver = 10,
     cc_AckWait = 2 * 60 * 1000000000\<rparr>"

definition Landed_Start :: "'b js_client \<Rightarrow> string \<Rightarrow> 'b \<Rightarrow> (setup_err + unit) \<times> 'b" where
  "Landed_Start cl streamName =
     and_then (js_CreateOrUpdateConsumer cl streamName landed_consumer) (or_fail ConsumerFailed (\<lambda>_.
     and_then (js_Consume cl streamName (cc_Durable landed_consumer)) (or_fail ConsumeFailed (\<lambda>_. ret (Inr ())))))"

section \<open>What the broker documents\<close>

record broker =
  br_streams :: "string \<rightharpoonup> string list"
  br_consumers :: "string \<times> string \<rightharpoonup> ConsumerConfig"

text \<open>No other stream has a subject of the configuration: the broker refuses overlapping streams.\<close>

definition apart :: "StreamConfig \<Rightarrow> broker \<Rightarrow> bool" where
  "apart c v \<longleftrightarrow> (\<forall>n subs. br_streams v n = Some subs \<and> n \<noteq> st_Name c \<longrightarrow> set subs \<inter> set (st_Subjects c) = {})"

definition with_stream :: "StreamConfig \<Rightarrow> broker \<Rightarrow> broker" where
  "with_stream c v = v\<lparr>br_streams := (br_streams v)(st_Name c \<mapsto> st_Subjects c)\<rparr>"

definition with_consumer :: "string \<Rightarrow> ConsumerConfig \<Rightarrow> broker \<Rightarrow> broker" where
  "with_consumer n c v = v\<lparr>br_consumers := (br_consumers v)((n, cc_Durable c) \<mapsto> c)\<rparr>"

definition carries :: "broker \<Rightarrow> string \<Rightarrow> string \<Rightarrow> bool" where
  "carries v n s \<longleftrightarrow> (\<exists>subs. br_streams v n = Some subs \<and> s \<in> set subs)"

text \<open>
  A failed call may have had its effect: the answer can be lost. A stream that exists with the same
  configuration counts as created. A consumer's filter has to be a subject of its stream.
\<close>

locale jetstream =
  fixes cl :: "'b js_client" and view :: "'b \<Rightarrow> broker"
  assumes connect_view: "view (snd (js_Connect cl url b)) = view b"
    and consume_view: "view (snd (js_Consume cl n d b)) = view b"
    and lookup_view: "view (snd (js_StreamNameBySubject cl s b)) = view b"
    and lookup_found: "fst (js_StreamNameBySubject cl s b) = Inr n \<Longrightarrow> carries (view b) n s"
    and stream_view: "view (snd (js_Stream cl n b)) = view b"
    and stream_found: "fst (js_Stream cl n b) = Inr u \<Longrightarrow> br_streams (view b) n \<noteq> None"
    and create_effect: "view (snd (js_CreateStream cl c b)) = view b \<or>
      (br_streams (view b) (st_Name c) = None \<and> apart c (view b) \<and> view (snd (js_CreateStream cl c b)) = with_stream c (view b))"
    and create_ok: "fst (js_CreateStream cl c b) = Inr u \<Longrightarrow> br_streams (view (snd (js_CreateStream cl c b))) (st_Name c) = Some (st_Subjects c)"
    and create_used: "fst (js_CreateStream cl c b) = Inl StreamNameAlreadyInUse \<Longrightarrow> br_streams (view b) (st_Name c) \<noteq> None"
    and update_effect: "view (snd (js_CreateOrUpdateStream cl c b)) = view b \<or>
      (apart c (view b) \<and> view (snd (js_CreateOrUpdateStream cl c b)) = with_stream c (view b))"
    and update_ok: "fst (js_CreateOrUpdateStream cl c b) = Inr u \<Longrightarrow>
      br_streams (view (snd (js_CreateOrUpdateStream cl c b))) (st_Name c) = Some (st_Subjects c)"
    and consumer_effect: "view (snd (js_CreateOrUpdateConsumer cl n k b)) = view b \<or>
      (carries (view b) n (cc_FilterSubject k) \<and> view (snd (js_CreateOrUpdateConsumer cl n k b)) = with_consumer n k (view b))"
    and consumer_ok: "fst (js_CreateOrUpdateConsumer cl n k b) = Inr u \<Longrightarrow>
      carries (view b) n (cc_FilterSubject k) \<and> view (snd (js_CreateOrUpdateConsumer cl n k b)) = with_consumer n k (view b)"

section \<open>How the services share the broker\<close>

definition orchUploadStream :: string where
  "orchUploadStream = ''AETHER_FT_UPLOAD''"

definition orchMeteringStream :: string where
  "orchMeteringStream = ''AETHER_FT_METERING''"

text \<open>The streams the services make, and who of their streams may be there together.\<close>

definition our_streams :: "(string \<times> string list) list" where
  "our_streams = [(ftStreamName, [SubjectUploadLanded, SubjectMetering]), (orchUploadStream, [SubjectUploadLanded]),
     (orchMeteringStream, [SubjectMetering])]"

definition ours :: "string \<Rightarrow> string list \<Rightarrow> bool" where
  "ours n subs \<longleftrightarrow> n \<in> set (map fst our_streams) \<or> SubjectUploadLanded \<in> set subs \<or> SubjectMetering \<in> set subs"

definition layout :: "broker \<Rightarrow> bool" where
  "layout v \<longleftrightarrow>
     (\<forall>n subs. br_streams v n = Some subs \<and> ours n subs \<longrightarrow> (n, subs) \<in> set our_streams) \<and>
     (br_streams v ftStreamName \<noteq> None \<longrightarrow> br_streams v orchUploadStream = None \<and> br_streams v orchMeteringStream = None) \<and>
     (\<forall>n k. br_consumers v (n, cc_Durable landed_consumer) = Some k \<longrightarrow> k = landed_consumer) \<and>
     (\<forall>n k. br_consumers v (n, cc_Durable metering_consumer) = Some k \<longrightarrow> k = metering_consumer)"

definition evolves :: "broker \<Rightarrow> broker \<Rightarrow> bool" where
  "evolves v v' \<longleftrightarrow> (layout v \<longrightarrow> layout v' \<and> br_streams v \<subseteq>\<^sub>m br_streams v' \<and> br_consumers v \<subseteq>\<^sub>m br_consumers v')"

lemma evolves_refl [simp]: "evolves v v"
  by (simp add: evolves_def)

lemma evolves_trans: "evolves v v' \<Longrightarrow> evolves v' v'' \<Longrightarrow> evolves v v''"
  unfolding evolves_def by (blast intro: map_le_trans)

lemma names_differ [simp]:
  "ftStreamName \<noteq> orchUploadStream" "orchUploadStream \<noteq> ftStreamName" "ftStreamName \<noteq> orchMeteringStream"
  "orchMeteringStream \<noteq> ftStreamName" "orchUploadStream \<noteq> orchMeteringStream" "orchMeteringStream \<noteq> orchUploadStream"
  "SubjectUploadLanded \<noteq> SubjectMetering" "SubjectMetering \<noteq> SubjectUploadLanded"
  by (simp_all add: ftStreamName_def orchUploadStream_def orchMeteringStream_def SubjectUploadLanded_def SubjectMetering_def)

lemma layout_disjoint:
  assumes "layout v" "carries v n s" "carries v m s" "s = SubjectUploadLanded \<or> s = SubjectMetering"
  shows "n = m"
proof -
  have "(n, the (br_streams v n)) \<in> set our_streams" "(m, the (br_streams v m)) \<in> set our_streams"
    using assms unfolding layout_def carries_def ours_def by auto
  then show ?thesis using assms unfolding our_streams_def layout_def carries_def
    by (elim disjE) auto
qed

text \<open>A stream of the services is added or left alone, and its consumers are always the same.\<close>

lemma our_streams_unique: "(n, s) \<in> set our_streams \<Longrightarrow> (n, t) \<in> set our_streams \<Longrightarrow> s = t"
  unfolding our_streams_def by auto

lemma layout_stream: "layout v \<Longrightarrow> (n, s) \<in> set our_streams \<Longrightarrow> br_streams v n = Some t \<Longrightarrow> t = s"
  unfolding layout_def ours_def using our_streams_unique by (metis fst_conv image_eqI set_map)

lemma layout_excludes:
  assumes "layout v" "(m, subs) \<in> set our_streams" "m \<noteq> st_Name c" "apart c v" "set subs \<inter> set (st_Subjects c) \<noteq> {}"
  shows "br_streams v m = None"
proof (rule ccontr)
  assume "br_streams v m \<noteq> None"
  then obtain t where "br_streams v m = Some t" by blast
  with layout_stream [OF assms(1,2)] assms(3-5) show False unfolding apart_def by blast
qed

lemma layout_with_stream:
  assumes "layout v" "(st_Name c, st_Subjects c) \<in> set our_streams" "apart c v"
  shows "layout (with_stream c v)"
proof -
  have "br_streams v orchUploadStream = None" "br_streams v orchMeteringStream = None" if "st_Name c = ftStreamName"
    using layout_excludes [OF assms(1) _ _ assms(3), of orchUploadStream "[SubjectUploadLanded]"]
      layout_excludes [OF assms(1) _ _ assms(3), of orchMeteringStream "[SubjectMetering]"] assms(2) that
    by (auto simp: our_streams_def)
  moreover have "br_streams v ftStreamName = None" if "st_Name c \<noteq> ftStreamName"
    using layout_excludes [OF assms(1) _ _ assms(3), of ftStreamName "[SubjectUploadLanded, SubjectMetering]"] assms(2) that
    by (auto simp: our_streams_def)
  moreover have "st_Name c = ftStreamName \<or> st_Name c = orchUploadStream \<or> st_Name c = orchMeteringStream"
    using assms(2) by (auto simp: our_streams_def)
  ultimately show ?thesis using assms(1,2) unfolding layout_def with_stream_def by (elim disjE) auto
qed

lemma evolves_stream:
  assumes "(st_Name c, st_Subjects c) \<in> set our_streams" "apart c v"
  shows "evolves v (with_stream c v)"
proof (cases "layout v")
  case True
  have "br_streams v \<subseteq>\<^sub>m (br_streams v)(st_Name c \<mapsto> st_Subjects c)"
    using layout_stream [OF True assms(1)] by (auto simp: map_le_def)
  then show ?thesis using layout_with_stream [OF True assms] unfolding evolves_def with_stream_def by (simp add: map_le_def)
qed (simp add: evolves_def)

lemma durables_differ [simp]:
  "cc_Durable landed_consumer \<noteq> cc_Durable metering_consumer" "cc_Durable metering_consumer \<noteq> cc_Durable landed_consumer"
  by (simp_all add: landed_consumer_def metering_consumer_def meteringConsumerName_def)

lemma evolves_consumer:
  assumes "k = landed_consumer \<or> k = metering_consumer"
  shows "evolves v (with_consumer n k v)"
proof (cases "layout v")
  case True
  then have "br_consumers v \<subseteq>\<^sub>m (br_consumers v)((n, cc_Durable k) \<mapsto> k)"
    using assms unfolding layout_def map_le_def by auto
  moreover have "layout (with_consumer n k v)"
    using True assms unfolding layout_def with_consumer_def by auto
  ultimately show ?thesis by (simp add: evolves_def with_consumer_def)
qed (simp add: evolves_def)

section \<open>What each set-up does to the broker\<close>

context jetstream
begin

definition grows :: "('b \<Rightarrow> 'a \<times> 'b) \<Rightarrow> bool" where
  "grows f \<longleftrightarrow> (\<forall>b. evolves (view b) (view (snd (f b))))"

lemma growsI: "(\<And>b. evolves (view b) (view (snd (f b)))) \<Longrightarrow> grows f"
  by (simp add: grows_def)

lemma growsD: "grows f \<Longrightarrow> f b = (r, b') \<Longrightarrow> evolves (view b) (view b')"
  unfolding grows_def by (metis snd_conv)

lemma grows_ret: "grows (ret x)"
  by (simp add: grows_def ret_def)

lemma grows_and_then: "grows f \<Longrightarrow> (\<And>r. grows (g r)) \<Longrightarrow> grows (and_then f g)"
  unfolding grows_def snd_and_then by (blast intro: evolves_trans)

lemma grows_or_fail: "(\<And>x. grows (k x)) \<Longrightarrow> grows (or_fail e k r)"
  by (cases r) (simp_all add: or_fail_def grows_ret)

lemma grows_reads:
  "grows (js_Connect cl url)" "grows (js_Consume cl n d)" "grows (js_StreamNameBySubject cl s)" "grows (js_Stream cl n)"
  by (simp_all add: grows_def connect_view consume_view lookup_view stream_view)

lemma grows_writes:
  assumes "(st_Name c, st_Subjects c) \<in> set our_streams"
  shows "grows (js_CreateStream cl c)" "grows (js_CreateOrUpdateStream cl c)"
  using create_effect [of c] update_effect [of c] evolves_stream [OF assms] unfolding grows_def
  by (metis evolves_refl)+

lemma grows_consumer: "k = landed_consumer \<or> k = metering_consumer \<Longrightarrow> grows (js_CreateOrUpdateConsumer cl n k)"
  using consumer_effect [of n k] evolves_consumer [of k] unfolding grows_def by (metis evolves_refl)

lemmas grows_rules = grows_ret grows_and_then grows_or_fail grows_reads grows_writes grows_consumer

lemma our_configs:
  "(st_Name ftStreamConfig, st_Subjects ftStreamConfig) \<in> set our_streams"
  "(orchUploadStream, [SubjectUploadLanded]) \<in> set our_streams" "(orchMeteringStream, [SubjectMetering]) \<in> set our_streams"
  by (simp_all add: ftStreamConfig_def our_streams_def)

lemma grows_ft: "grows (ensure_ft_stream cl)"
  unfolding ensure_ft_stream_def by (auto intro!: grows_and_then grows_reads grows_ret grows_writes our_configs)

lemma grows_setup:
  "grows (NewJetStreamPublisher cl url)" "grows (NewMeteringConsumer cl url)" "grows (Nats_Connect cl url)" "grows (Landed_Start cl n)"
  unfolding NewJetStreamPublisher_def NewMeteringConsumer_def Nats_Connect_def Landed_Start_def
  by (intro grows_rules grows_ft our_configs disjI1 disjI2 refl)+

lemma grows_ensure:
  assumes "(fallback, [s]) \<in> set our_streams"
  shows "grows (EnsureStreamForSubject cl fallback s)"
  unfolding EnsureStreamForSubject_def using assms
  by (auto intro!: grows_and_then grows_reads grows_ret grows_writes split: sum.splits)

lemma publisher_post:
  assumes "NewJetStreamPublisher cl url b = (Inr u, b')"
  shows "br_streams (view b') ftStreamName = Some [SubjectUploadLanded, SubjectMetering]"
proof -
  obtain b1 x where "js_CreateOrUpdateStream cl ftStreamConfig b1 = (Inr x, b')"
    using assms unfolding NewJetStreamPublisher_def by (elim or_failE) (simp add: ret_def)
  then show ?thesis using update_ok [of ftStreamConfig b1 x] by (simp add: ftStreamConfig_def)
qed

lemma ft_post:
  assumes "ensure_ft_stream cl b = (Inr u, b')" "layout (view b)"
  shows "br_streams (view b') ftStreamName = Some [SubjectUploadLanded, SubjectMetering]"
proof -
  obtain r b1 where r: "js_Stream cl ftStreamName b = (r, b1)" by fastforce
  then have v: "view b1 = view b" using stream_view [of ftStreamName b] by simp
  show ?thesis
  proof (cases "r = Inl StreamNotFound")
    case True
    then have "js_CreateStream cl ftStreamConfig b1 = (Inr u, b')"
      using assms(1) r by (simp add: ensure_ft_stream_def and_then_def)
    then show ?thesis using create_ok [of ftStreamConfig b1 u] by (simp add: ftStreamConfig_def)
  next
    case False
    then have "r = Inr u" "b' = b1" using assms(1) r by (simp_all add: ensure_ft_stream_def and_then_def ret_def)
    then obtain subs where "br_streams (view b') ftStreamName = Some subs"
      using stream_found [of ftStreamName b u] r v by auto
    then show ?thesis using layout_stream [OF assms(2), of ftStreamName] our_configs(1) v \<open>b' = b1\<close> by (auto simp: ftStreamConfig_def)
  qed
qed

lemma metering_post:
  assumes "NewMeteringConsumer cl url b = (Inr u, b')" "layout (view b)"
  shows "br_streams (view b') ftStreamName = Some [SubjectUploadLanded, SubjectMetering] \<and>
    br_consumers (view b') (ftStreamName, meteringConsumerName) = Some metering_consumer"
proof -
  obtain x1 b1 x2 b2 x3 b3 x4 where steps: "js_Connect cl url b = (Inr x1, b1)" "ensure_ft_stream cl b1 = (Inr x2, b2)"
    "js_CreateOrUpdateConsumer cl ftStreamName metering_consumer b2 = (Inr x3, b3)"
    "js_Consume cl ftStreamName meteringConsumerName b3 = (Inr x4, b')"
    using assms(1) unfolding NewMeteringConsumer_def by (elim or_failE) (simp add: ret_def)
  have "view b1 = view b" "view b' = view b3"
    using connect_view [of url b] consume_view [of ftStreamName meteringConsumerName b3] steps by simp_all
  moreover have "view b3 = with_consumer ftStreamName metering_consumer (view b2)"
    using consumer_ok [of ftStreamName metering_consumer b2 x3] steps(3) by simp
  ultimately show ?thesis using ft_post [OF steps(2)] assms(2) by (simp add: with_consumer_def metering_consumer_def)
qed

lemma ensure_post:
  assumes "EnsureStreamForSubject cl fallback s b = (Inr n, b')" "layout (view b)" "(fallback, [s]) \<in> set our_streams"
  shows "carries (view b') n s"
proof -
  obtain r b1 where r: "js_StreamNameBySubject cl s b = (r, b1)" by fastforce
  then have v: "view b1 = view b" using lookup_view [of s b] by simp
  let ?c = "\<lparr>st_Name = fallback, st_Subjects = [s]\<rparr>"
  obtain q b2 where q: "js_CreateStream cl ?c b1 = (q, b2)" by fastforce
  have created: "carries (view b2) fallback s" if "q = Inr u" for u
    using create_ok [of ?c b1 u] q that by (simp add: carries_def)
  have used: "carries (view b2) fallback s" if "q = Inl StreamNameAlreadyInUse"
  proof -
    have "br_streams (view b) fallback \<noteq> None" using create_used [of ?c b1] q that v by simp
    moreover have "view b2 = view b \<or> view b2 = with_stream ?c (view b)" using create_effect [of ?c b1] q v by auto
    ultimately show ?thesis using layout_stream [OF assms(2,3)] by (auto simp: carries_def with_stream_def)
  qed
  show ?thesis
    using assms(1) r q lookup_found [of s b n] v created used
    by (auto simp: EnsureStreamForSubject_def and_then_def ret_def split: sum.splits if_splits)
qed

lemma start_post:
  assumes "Landed_Start cl n b = (Inr u, b')"
  shows "br_consumers (view b') (n, cc_Durable landed_consumer) = Some landed_consumer \<and> carries (view b') n SubjectUploadLanded"
proof -
  obtain x1 b1 x2 where steps: "js_CreateOrUpdateConsumer cl n landed_consumer b = (Inr x1, b1)"
    "js_Consume cl n (cc_Durable landed_consumer) b1 = (Inr x2, b')"
    using assms unfolding Landed_Start_def by (elim or_failE) (simp add: ret_def)
  then have "view b' = with_consumer n landed_consumer (view b)" "carries (view b) n SubjectUploadLanded"
    using consume_view [of n "cc_Durable landed_consumer" b1] consumer_ok [of n landed_consumer b x1]
    by (simp_all add: landed_consumer_def)
  then show ?thesis by (simp add: with_consumer_def carries_def)
qed

text \<open>While one of the orchestrator's own streams exists, the shared stream cannot come into being.\<close>

lemma shared_stream_refused:
  assumes "layout (view b)" "br_streams (view b) orchUploadStream \<noteq> None \<or> br_streams (view b) orchMeteringStream \<noteq> None"
  shows "isl (fst (NewJetStreamPublisher cl url b))" "isl (fst (NewMeteringConsumer cl url b))"
proof -
  have stays: "br_streams v' ftStreamName = None" if "evolves (view b) v'" for v'
    using that assms unfolding evolves_def layout_def map_le_def by (metis domIff)
  obtain r b' where p: "NewJetStreamPublisher cl url b = (r, b')" by fastforce
  then show "isl (fst (NewJetStreamPublisher cl url b))"
    using stays [OF growsD [OF grows_setup(1) p]] publisher_post [of url b _ b'] by (cases r) auto
  obtain q b'' where q: "NewMeteringConsumer cl url b = (q, b'')" by fastforce
  then show "isl (fst (NewMeteringConsumer cl url b))"
    using stays [OF growsD [OF grows_setup(2) q]] metering_post [OF _ assms(1), of url _ b''] by (cases q) auto
qed

end

section \<open>A broker held in memory\<close>

text \<open>The laws have a model: tables of streams and consumers, with calls that fail as the environment says.\<close>

record mem_broker = env +
  mb_streams :: "(string \<times> string list) list"
  mb_consumers :: "((string \<times> string) \<times> ConsumerConfig) list"

definition mem_view :: "mem_broker \<Rightarrow> broker" where
  "mem_view b = \<lparr>br_streams = map_of (mb_streams b), br_consumers = map_of (mb_consumers b)\<rparr>"

definition mem_call :: "(mem_broker, 'a) js_op \<Rightarrow> (mem_broker, 'a) js_op" where
  "mem_call f b = (case next_io b of
     (IoOk, b1) \<Rightarrow> f b1 | (IoFail, b1) \<Rightarrow> (Inl JsFailure, b1) | (IoLost, b1) \<Rightarrow> (Inl JsFailure, snd (f b1)))"

definition mem_apart :: "StreamConfig \<Rightarrow> mem_broker \<Rightarrow> bool" where
  "mem_apart c b = list_all (\<lambda>(n, subs). n = st_Name c \<or> list_all (\<lambda>s. s \<notin> set (st_Subjects c)) subs) (mb_streams b)"

definition mem_has :: "mem_broker \<Rightarrow> string \<Rightarrow> string \<Rightarrow> bool" where
  "mem_has b s n = (case map_of (mb_streams b) n of Some subs \<Rightarrow> s \<in> set subs | None \<Rightarrow> False)"

definition mem_find :: "string \<Rightarrow> (mem_broker, string) js_op" where
  "mem_find s b = (case List.find (mem_has b s) (map fst (mb_streams b)) of None \<Rightarrow> Inl StreamNotFound | Some n \<Rightarrow> Inr n, b)"

definition mem_get :: "string \<Rightarrow> (mem_broker, unit) js_op" where
  "mem_get n b = (if map_of (mb_streams b) n = None then Inl StreamNotFound else Inr (), b)"

definition mem_put :: "StreamConfig \<Rightarrow> (mem_broker, unit) js_op" where
  "mem_put c b = (if mem_apart c b then (Inr (), b\<lparr>mb_streams := (st_Name c, st_Subjects c) # mb_streams b\<rparr>) else (Inl JsFailure, b))"

definition mem_new :: "StreamConfig \<Rightarrow> (mem_broker, unit) js_op" where
  "mem_new c b = (case map_of (mb_streams b) (st_Name c) of
     Some subs \<Rightarrow> (if subs = st_Subjects c then Inr () else Inl StreamNameAlreadyInUse, b)
   | None \<Rightarrow> mem_put c b)"

definition mem_bind :: "string \<Rightarrow> ConsumerConfig \<Rightarrow> (mem_broker, unit) js_op" where
  "mem_bind n k b = (if mem_has b (cc_FilterSubject k) n
     then (Inr (), b\<lparr>mb_consumers := ((n, cc_Durable k), k) # mb_consumers b\<rparr>) else (Inl JsFailure, b))"

definition mem_pull :: "string \<Rightarrow> string \<Rightarrow> (mem_broker, unit) js_op" where
  "mem_pull n d b = (if map_of (mb_consumers b) (n, d) = None then Inl JsFailure else Inr (), b)"

definition mem_js :: "mem_broker js_client" where
  "mem_js =
     \<lparr>js_Connect = (\<lambda>url. mem_call (\<lambda>b. (Inr (), b))), js_StreamNameBySubject = (\<lambda>s. mem_call (mem_find s)),
      js_Stream = (\<lambda>n. mem_call (mem_get n)), js_CreateStream = (\<lambda>c. mem_call (mem_new c)),
      js_CreateOrUpdateStream = (\<lambda>c. mem_call (mem_put c)), js_CreateOrUpdateConsumer = (\<lambda>n k. mem_call (mem_bind n k)),
      js_Consume = (\<lambda>n d. mem_call (mem_pull n d))\<rparr>"

lemma next_io_mem_view: "next_io b = (x, b1) \<Longrightarrow> mem_view b1 = mem_view b"
  using next_io_update [of b x b1] by (simp add: mem_view_def)

lemma mem_call_cases:
  obtains (ok) b1 where "mem_view b1 = mem_view b" "mem_call f b = f b1"
  | (fail) b1 where "mem_view b1 = mem_view b" "mem_call f b = (Inl JsFailure, b1)"
  | (lost) b1 where "mem_view b1 = mem_view b" "mem_call f b = (Inl JsFailure, snd (f b1))"
  using next_io_mem_view [of b] by (cases "next_io b"; cases "fst (next_io b)") (auto simp: mem_call_def)

lemma mem_call_effect:
  assumes "\<And>b1. P (mem_view b1) (mem_view (snd (f b1)))" "\<And>v. P v v"
  shows "P (mem_view b) (mem_view (snd (mem_call f b)))"
proof (cases rule: mem_call_cases [of b f])
  case (ok b1) then show ?thesis using assms(1) [of b1] by simp
next
  case (fail b1) then show ?thesis using assms(2) by simp
next
  case (lost b1) then show ?thesis using assms(1) [of b1] by simp
qed

lemma mem_call_answer:
  assumes "fst (mem_call f b) = r" "r \<noteq> Inl JsFailure"
  obtains b1 where "mem_view b1 = mem_view b" "mem_call f b = f b1" "fst (f b1) = r"
  using assms by (cases rule: mem_call_cases [of b f]) auto

lemma mem_apartD: "mem_apart c b \<Longrightarrow> apart c (mem_view b)"
  unfolding mem_apart_def apart_def mem_view_def by (fastforce simp: list_all_iff dest: map_of_SomeD)

lemma mem_has_carries: "mem_has b s n \<longleftrightarrow> carries (mem_view b) n s"
  by (simp add: mem_has_def carries_def mem_view_def split: option.splits)

lemma mem_put_effect:
  "mem_view (snd (mem_put c b)) = mem_view b \<or> (apart c (mem_view b) \<and> mem_view (snd (mem_put c b)) = with_stream c (mem_view b))"
  "fst (mem_put c b) = Inr u \<Longrightarrow> br_streams (mem_view (snd (mem_put c b))) (st_Name c) = Some (st_Subjects c)"
  "fst (mem_put c b) \<noteq> Inl StreamNameAlreadyInUse"
  using mem_apartD [of c b] by (auto simp: mem_put_def with_stream_def mem_view_def split: if_splits)

lemma mem_new_effect:
  "mem_view (snd (mem_new c b)) = mem_view b \<or>
     (br_streams (mem_view b) (st_Name c) = None \<and> apart c (mem_view b) \<and> mem_view (snd (mem_new c b)) = with_stream c (mem_view b))"
  "fst (mem_new c b) = Inr u \<Longrightarrow> br_streams (mem_view (snd (mem_new c b))) (st_Name c) = Some (st_Subjects c)"
  "fst (mem_new c b) = Inl StreamNameAlreadyInUse \<Longrightarrow> br_streams (mem_view b) (st_Name c) \<noteq> None"
proof -
  have s: "br_streams (mem_view b) (st_Name c) = map_of (mb_streams b) (st_Name c)" by (simp add: mem_view_def)
  note put = mem_put_effect [of c b]
  show "mem_view (snd (mem_new c b)) = mem_view b \<or>
     (br_streams (mem_view b) (st_Name c) = None \<and> apart c (mem_view b) \<and> mem_view (snd (mem_new c b)) = with_stream c (mem_view b))"
    using put(1) s by (simp add: mem_new_def split: option.splits)
  show "fst (mem_new c b) = Inr u \<Longrightarrow> br_streams (mem_view (snd (mem_new c b))) (st_Name c) = Some (st_Subjects c)"
    using put(2) [of u] s by (simp add: mem_new_def split: option.splits if_splits)
  show "fst (mem_new c b) = Inl StreamNameAlreadyInUse \<Longrightarrow> br_streams (mem_view b) (st_Name c) \<noteq> None"
    using put(3) s by (simp add: mem_new_def split: option.splits)
qed

lemma mem_bind_effect:
  "mem_view (snd (mem_bind n k b)) = mem_view b \<or>
     (carries (mem_view b) n (cc_FilterSubject k) \<and> mem_view (snd (mem_bind n k b)) = with_consumer n k (mem_view b))"
  "fst (mem_bind n k b) = Inr u \<Longrightarrow>
     carries (mem_view b) n (cc_FilterSubject k) \<and> mem_view (snd (mem_bind n k b)) = with_consumer n k (mem_view b)"
  using mem_has_carries [of b "cc_FilterSubject k" n]
  by (auto simp: mem_bind_def with_consumer_def mem_view_def split: if_splits)

lemma mem_reads:
  "snd (mem_find s b) = b" "snd (mem_get n b) = b" "snd (mem_pull n d b) = b"
  "fst (mem_find s b) = Inr n \<Longrightarrow> carries (mem_view b) n s"
  "fst (mem_get n b) = Inr u \<Longrightarrow> br_streams (mem_view b) n \<noteq> None"
  by (auto simp: mem_find_def mem_get_def mem_pull_def mem_view_def find_Some_iff mem_has_carries [symmetric]
      mem_has_def carries_def split: option.splits if_splits)

lemma mem_read_view: "(\<And>b. snd (f b) = b) \<Longrightarrow> mem_view (snd (mem_call f b)) = mem_view b"
  by (rule mem_call_effect [where P = "\<lambda>v v'. v' = v"]) simp_all

interpretation mem_jetstream: jetstream mem_js mem_view
proof
  fix url b n d s u and c :: StreamConfig and k :: ConsumerConfig
  show "mem_view (snd (js_Connect mem_js url b)) = mem_view b" "mem_view (snd (js_Consume mem_js n d b)) = mem_view b"
    "mem_view (snd (js_StreamNameBySubject mem_js s b)) = mem_view b" "mem_view (snd (js_Stream mem_js n b)) = mem_view b"
    by (simp_all add: mem_js_def mem_read_view mem_reads)
  show "carries (mem_view b) n s" if "fst (js_StreamNameBySubject mem_js s b) = Inr n"
  proof -
    have "fst (mem_call (mem_find s) b) = Inr n" using that by (simp add: mem_js_def)
    then obtain b1 where "mem_view b1 = mem_view b" "fst (mem_find s b1) = Inr n" by (rule mem_call_answer) simp_all
    then show ?thesis using mem_reads(4) [of s b1 n] by simp
  qed
  show "br_streams (mem_view b) n \<noteq> None" if "fst (js_Stream mem_js n b) = Inr u"
  proof -
    have "fst (mem_call (mem_get n) b) = Inr u" using that by (simp add: mem_js_def)
    then obtain b1 where "mem_view b1 = mem_view b" "fst (mem_get n b1) = Inr u" by (rule mem_call_answer) simp_all
    then show ?thesis using mem_reads(5) [of n b1 u] by simp
  qed
  show "mem_view (snd (js_CreateStream mem_js c b)) = mem_view b \<or>
      (br_streams (mem_view b) (st_Name c) = None \<and> apart c (mem_view b) \<and>
       mem_view (snd (js_CreateStream mem_js c b)) = with_stream c (mem_view b))"
    using mem_call_effect [where f = "mem_new c" and b = b and
        P = "\<lambda>v v'. v' = v \<or> (br_streams v (st_Name c) = None \<and> apart c v \<and> v' = with_stream c v)"] mem_new_effect(1) [of c]
    by (simp add: mem_js_def)
  show "br_streams (mem_view (snd (js_CreateStream mem_js c b))) (st_Name c) = Some (st_Subjects c)"
    if "fst (js_CreateStream mem_js c b) = Inr u"
  proof -
    have "fst (mem_call (mem_new c) b) = Inr u" using that by (simp add: mem_js_def)
    then obtain b1 where "mem_call (mem_new c) b = mem_new c b1" "fst (mem_new c b1) = Inr u" by (rule mem_call_answer) simp_all
    then show ?thesis using mem_new_effect(2) [of c b1 u] by (simp add: mem_js_def)
  qed
  show "br_streams (mem_view b) (st_Name c) \<noteq> None" if "fst (js_CreateStream mem_js c b) = Inl StreamNameAlreadyInUse"
  proof -
    have "fst (mem_call (mem_new c) b) = Inl StreamNameAlreadyInUse" using that by (simp add: mem_js_def)
    then obtain b1 where "mem_view b1 = mem_view b" "fst (mem_new c b1) = Inl StreamNameAlreadyInUse" by (rule mem_call_answer) simp_all
    then show ?thesis using mem_new_effect(3) [of c b1] by simp
  qed
  show "mem_view (snd (js_CreateOrUpdateStream mem_js c b)) = mem_view b \<or>
      (apart c (mem_view b) \<and> mem_view (snd (js_CreateOrUpdateStream mem_js c b)) = with_stream c (mem_view b))"
    using mem_call_effect [where f = "mem_put c" and b = b and P = "\<lambda>v v'. v' = v \<or> (apart c v \<and> v' = with_stream c v)"]
      mem_put_effect(1) [of c] by (simp add: mem_js_def)
  show "br_streams (mem_view (snd (js_CreateOrUpdateStream mem_js c b))) (st_Name c) = Some (st_Subjects c)"
    if "fst (js_CreateOrUpdateStream mem_js c b) = Inr u"
  proof -
    have "fst (mem_call (mem_put c) b) = Inr u" using that by (simp add: mem_js_def)
    then obtain b1 where "mem_call (mem_put c) b = mem_put c b1" "fst (mem_put c b1) = Inr u" by (rule mem_call_answer) simp_all
    then show ?thesis using mem_put_effect(2) [of c b1 u] by (simp add: mem_js_def)
  qed
  show "mem_view (snd (js_CreateOrUpdateConsumer mem_js n k b)) = mem_view b \<or>
      (carries (mem_view b) n (cc_FilterSubject k) \<and> mem_view (snd (js_CreateOrUpdateConsumer mem_js n k b)) = with_consumer n k (mem_view b))"
    using mem_call_effect [where f = "mem_bind n k" and b = b and
        P = "\<lambda>v v'. v' = v \<or> (carries v n (cc_FilterSubject k) \<and> v' = with_consumer n k v)"] mem_bind_effect(1) [of n k]
    by (simp add: mem_js_def)
  show "carries (mem_view b) n (cc_FilterSubject k) \<and> mem_view (snd (js_CreateOrUpdateConsumer mem_js n k b)) = with_consumer n k (mem_view b)"
    if "fst (js_CreateOrUpdateConsumer mem_js n k b) = Inr u"
  proof -
    have "fst (mem_call (mem_bind n k) b) = Inr u" using that by (simp add: mem_js_def)
    then obtain b1 where "mem_view b1 = mem_view b" "mem_call (mem_bind n k) b = mem_bind n k b1" "fst (mem_bind n k b1) = Inr u"
      by (rule mem_call_answer) simp_all
    then show ?thesis using mem_bind_effect(2) [of n k b1 u] by (simp add: mem_js_def)
  qed
qed

end
