(* ===== verification/Startup.thy ===== *)
theory Startup
  imports FfmpegAdapter UploadProps TenOidc SharedTokens Migrations Streams
begin

text \<open>
  The four \<open>main\<close> programs: \<open>services/upload/main.go\<close>, \<open>services/tenancy/main.go\<close>,
  \<open>services/orchestrator/cmd/orchestrator/main.go\<close> and \<open>services/telemetry/cmd/telemetry/main.go\<close>. A
  program checks its configuration and what it depends on, step by step, and either exits with the
  first error or ends up with a service whose parts are those of the other theories. Services that
  start one after the other meet at the broker and at their databases.
\<close>

section \<open>Hosts and sites\<close>

text \<open>
  The world of one start: the environment, the files, what an address parses to, which connection
  strings the database driver accepts, what running a command gives, and what the identity provider
  answers to discovery.
\<close>

record host =
  ho_getenv :: "string \<Rightarrow> string"
  ho_read_file :: "string \<Rightarrow> string option"
  ho_url_parse :: "string \<Rightarrow> (string \<times> string) option"
  ho_dsn_ok :: "string \<Rightarrow> bool"
  ho_quota_file :: "string \<Rightarrow> fileConfig json_in option"
  ho_output :: runner_output
  ho_mkdir :: "string \<Rightarrow> bool"
  ho_discovery :: "discoveryDoc http_reply"

text \<open>What does not differ between starts: libraries and the embedded migrations.\<close>

record ('d, 'b, 's) deployment =
  dp_js :: "'b js_client"
  dp_s3 :: "'s s3_client"
  dp_exec :: "string \<Rightarrow> 'd \<Rightarrow> 'd option"
  dp_quota_yaml :: "string \<Rightarrow> QuotaConfigFile option"
  dp_quota_json :: "string \<Rightarrow> QuotaConfigFile option"
  dp_tier_yaml :: "string \<Rightarrow> TierConfig option"
  dp_crypto :: crypto_lib
  dp_sha :: "string \<Rightarrow> string"
  dp_encode :: "(string \<times> string) list \<Rightarrow> string"
  dp_ten_files :: "(string \<times> string option) list"
  dp_orch_files :: "(string \<times> string option) list"

record ('d, 'b) site =
  site_upl :: env
  site_ten :: "'d migdb"
  site_orch :: "'d migdb"
  site_broker :: 'b

datatype start_err =
  BadConfig | BadQuotaFile | BadTierFile | BadSigner | DatabaseFailed | MigrationFailed | BadS3Endpoint
| DiscoveryFailed | GateFailed adapter_err | ScratchFailed | BadScheduler | BadVerifier | BrokerFailed
| CpuUnreadable | SubscribeFailed

type_synonym ('d, 'b, 'a) start = "('d, 'b) site \<Rightarrow> (start_err + 'a) \<times> ('d, 'b) site"

definition on_upl :: "(env \<Rightarrow> 'r \<times> env) \<Rightarrow> ('d, 'b) site \<Rightarrow> 'r \<times> ('d, 'b) site" where
  "on_upl f s = (case f (site_upl s) of (r, d) \<Rightarrow> (r, s\<lparr>site_upl := d\<rparr>))"

definition on_ten :: "('d migdb \<Rightarrow> 'r \<times> 'd migdb) \<Rightarrow> ('d, 'b) site \<Rightarrow> 'r \<times> ('d, 'b) site" where
  "on_ten f s = (case f (site_ten s) of (r, d) \<Rightarrow> (r, s\<lparr>site_ten := d\<rparr>))"

definition on_orch :: "('d migdb \<Rightarrow> 'r \<times> 'd migdb) \<Rightarrow> ('d, 'b) site \<Rightarrow> 'r \<times> ('d, 'b) site" where
  "on_orch f s = (case f (site_orch s) of (r, d) \<Rightarrow> (r, s\<lparr>site_orch := d\<rparr>))"

definition on_broker :: "('b \<Rightarrow> 'r \<times> 'b) \<Rightarrow> ('d, 'b) site \<Rightarrow> 'r \<times> ('d, 'b) site" where
  "on_broker f s = (case f (site_broker s) of (r, b) \<Rightarrow> (r, s\<lparr>site_broker := b\<rparr>))"

text \<open>A check that depends on nothing but the host, before the rest of the program.\<close>

definition require :: "start_err \<Rightarrow> 'x + 'a \<Rightarrow> ('a \<Rightarrow> 's \<Rightarrow> (start_err + 'c) \<times> 's) \<Rightarrow> 's \<Rightarrow> (start_err + 'c) \<times> 's" where
  "require e r k = or_fail e k r"

section \<open>Databases and object storage\<close>

text \<open>\<open>pgx.Connect\<close>, and \<open>pgxpool.New\<close> followed by \<open>Ping\<close>: the connection string is parsed, then the server is asked.\<close>

definition pg_open :: "(string \<Rightarrow> bool) \<Rightarrow> string \<Rightarrow> ('s env_scheme, unit) op" where
  "pg_open dsn_ok url = (if dsn_ok url then with_io (\<lambda>d. (Inr (), d)) else ret (Inl ErrIO))"

definition pg_close :: "('s env_scheme, unit) op" where
  "pg_close = with_io (\<lambda>d. (Inr (), d))"

definition Ten_NewPostgresStore ::
  "(string \<Rightarrow> bool) \<Rightarrow> (string \<Rightarrow> 'd \<Rightarrow> 'd option) \<Rightarrow> (string \<times> string option) list \<Rightarrow> string \<Rightarrow> 'd migdb \<Rightarrow> (start_err + unit) \<times> 'd migdb" where
  "Ten_NewPostgresStore dsn_ok exec files url =
     and_then (pg_open dsn_ok url) (or_fail DatabaseFailed (\<lambda>_.
     and_then (Migrate exec files) (or_fail MigrationFailed (\<lambda>_.
     and_then pg_close (or_fail DatabaseFailed (\<lambda>_.
     and_then (pg_open dsn_ok url) (or_fail DatabaseFailed (\<lambda>_. ret (Inr ())))))))))"

text \<open>The orchestrator's \<open>Migrate\<close> opens its connection between loading the files and taking the lock.\<close>

definition Orch_Migrate ::
  "(string \<Rightarrow> bool) \<Rightarrow> (string \<Rightarrow> 'd \<Rightarrow> 'd option) \<Rightarrow> (string \<times> string option) list \<Rightarrow> string \<Rightarrow> 'd migdb \<Rightarrow> (start_err + unit) \<times> 'd migdb" where
  "Orch_Migrate dsn_ok exec files url =
     (case loadMigrations files of
        Inl _ \<Rightarrow> ret (Inl MigrationFailed)
      | Inr _ \<Rightarrow>
          and_then (pg_open dsn_ok url) (or_fail MigrationFailed (\<lambda>_.
          and_then (Migrate exec files) (or_fail MigrationFailed (\<lambda>_. ret (Inr ()))))))"

definition NewS3 :: "(string \<Rightarrow> (string \<times> string) option) \<Rightarrow> string \<Rightarrow> string \<Rightarrow> start_err + unit" where
  "NewS3 url_parse endpoint bkt =
     (if bkt = [] then Inl BadS3Endpoint else if url_parse endpoint = None then Inl BadS3Endpoint else Inr ())"

section \<open>Scratch space (scheduler.go)\<close>

definition StagingRoot :: "(string \<Rightarrow> bool) \<Rightarrow> string \<Rightarrow> start_err + string" where
  "StagingRoot mkdir dir = (let p = filepath_Clean dir in if mkdir p then Inr p else Inl ScratchFailed)"

section \<open>Upload (main.go)\<close>

record 's upload_process =
  pu_server :: "'s Server"
  pu_gauge :: InflightGauge
  pu_backoff :: BackoffDirector
  pu_key :: string
  pu_addr :: string

definition Upload_main :: "('d, 'b, 's) deployment \<Rightarrow> host \<Rightarrow> ('d, 'b, 's upload_process) start" where
  "Upload_main dp h =
     require BadConfig (LoadConfig (DecodeString url_alphabet) (ho_getenv h)) (\<lambda>cfg.
     require BadQuotaFile (LoadConfigQuota (ho_read_file h) (dp_quota_yaml dp) (dp_quota_json dp) (uc_QuotaConfigPath cfg)) (\<lambda>quota.
     and_then (on_upl (pg_open (ho_dsn_ok h) (uc_DatabaseURL cfg))) (or_fail DatabaseFailed (\<lambda>_.
     if ho_url_parse h (uc_S3Endpoint cfg) = None then ret (Inl BadS3Endpoint) else
     and_then (on_broker (NewJetStreamPublisher (dp_js dp) (uc_NATSURL cfg))) (or_fail BrokerFailed (\<lambda>_.
     ret (Inr \<lparr>pu_server = deployed_upload (dp_s3 dp) (uc_S3Bucket cfg) quota (uc_MaxObjectBytes cfg),
               pu_gauge = NewInflightGauge (uc_MaxInflightBytes cfg),
               pu_backoff = NewBackoffDirector 1000000000 (60 * 1000000000),
               pu_key = uc_AuthHS256Key cfg, pu_addr = uc_ListenAddr cfg\<rparr>)))))))"

section \<open>Tenancy (main.go)\<close>

record ten_process =
  pt_server :: TenServer
  pt_oidc :: OIDCClient
  pt_addr :: string

definition Tenancy_main :: "('d, 'b, 's) deployment \<Rightarrow> host \<Rightarrow> ('d, 'b, ten_process) start" where
  "Tenancy_main dp h =
     require BadConfig (Tenancy_LoadConfig (ho_url_parse h) (ho_getenv h)) (\<lambda>cfg.
     require BadTierFile (LoadTierConfig (ho_read_file h) (dp_tier_yaml dp) (nc_TiersConfigPath cfg)) (\<lambda>tiers.
     (case newHS256Signer (nc_AuthHS256Key cfg) of None \<Rightarrow> ret (Inl BadSigner) | Some key \<Rightarrow>
     and_then (on_ten (Ten_NewPostgresStore (ho_dsn_ok h) (dp_exec dp) (dp_ten_files dp) (nc_DatabaseURL cfg))) (\<lambda>r.
     case r of Inl e \<Rightarrow> ret (Inl e) | Inr _ \<Rightarrow>
     require DiscoveryFailed (NewOIDCClient (ho_discovery h) (nc_OIDCIssuer cfg) (nc_OIDCClientID cfg) (nc_OIDCClientSecret cfg)
       (nc_OIDCRedirectURL cfg)) (\<lambda>oidc.
     and_then (on_broker (NewMeteringConsumer (dp_js dp) (nc_NATSURL cfg))) (or_fail BrokerFailed (\<lambda>_.
     ret (Inr \<lparr>pt_server = Ten_NewServer (dp_crypto dp) key (AuthCodeURL (dp_sha dp) (dp_encode dp) oidc) tiers
                 (nc_AccessTokenTTL cfg) (nc_RefreshTokenTTL cfg) (nc_InternalToken cfg) (nc_CookieSecure cfg),
               pt_oidc = oidc, pt_addr = nc_ListenAddr cfg\<rparr>))))))))"

section \<open>Orchestrator (main.go)\<close>

record orch_process =
  po_engine :: AdapterConfig
  po_sched :: SchedConfig
  po_quota :: fileConfig
  po_key :: string
  po_landed :: string
  po_scratch :: string
  po_autoCreate :: bool
  po_addr :: string

definition Orch_run :: "('d, 'b, 's) deployment \<Rightarrow> host \<Rightarrow> ('d, 'b, orch_process) start" where
  "Orch_run dp h =
     require BadConfig (FromEnv (ho_getenv h)) (\<lambda>cfg.
     (case NewAdapter \<lparr>ac_FFmpegPath = gc_FFmpegPath cfg, ac_FFprobePath = gc_FFprobePath cfg\<rparr> (ho_output h) of
        Inl e \<Rightarrow> ret (Inl (GateFailed e)) | Inr eng \<Rightarrow>
     and_then (on_orch (Orch_Migrate (ho_dsn_ok h) (dp_exec dp) (dp_orch_files dp) (gc_DatabaseURL cfg))) (or_fail MigrationFailed (\<lambda>_.
     and_then (on_orch (pg_open (ho_dsn_ok h) (gc_DatabaseURL cfg))) (or_fail DatabaseFailed (\<lambda>_.
     require BadS3Endpoint (NewS3 (ho_url_parse h) (gc_S3Endpoint cfg) (gc_S3Bucket cfg)) (\<lambda>_.
     require ScratchFailed (StagingRoot (ho_mkdir h) (gc_ScratchDir cfg)) (\<lambda>scratch.
     and_then (on_broker (Nats_Connect (dp_js dp) (gc_NATSURL cfg))) (or_fail BrokerFailed (\<lambda>_.
     and_then (on_broker (EnsureStreamForSubject (dp_js dp) orchUploadStream SubjectUploadLanded)) (or_fail BrokerFailed (\<lambda>landed.
     and_then (on_broker (EnsureStreamForSubject (dp_js dp) orchMeteringStream SubjectMetering)) (or_fail BrokerFailed (\<lambda>_.
     require BadQuotaFile (NewFromFile (ho_quota_file h (gc_QuotaConfigPath cfg)) True) (\<lambda>quota.
     require BadScheduler (New \<lparr>sc_Slots = gc_SchedulerSlots cfg, sc_PollInterval = gc_SchedulerPollInterval cfg,
       sc_StagingDir = scratch, sc_ProgressPersistEvery = 0\<rparr>) (\<lambda>sched.
     and_then (on_broker (Landed_Start (dp_js dp) landed)) (or_fail BrokerFailed (\<lambda>_.
     (case NewVerifier (DecodeString url_alphabet) (gc_JWTSecret cfg) of None \<Rightarrow> ret (Inl BadVerifier) | Some key \<Rightarrow>
     ret (Inr \<lparr>po_engine = eng, po_sched = sched, po_quota = quota, po_key = key, po_landed = landed, po_scratch = scratch,
               po_autoCreate = gc_AutoCreateJobs cfg, po_addr = gc_HTTPAddr cfg\<rparr>))))))))))))))))))))"

section \<open>Telemetry (main.go)\<close>

text \<open>
  \<open>nvml_init\<close>, \<open>nvml_count\<close> and \<open>nvml_handle\<close> are the answers of the GPU library, \<open>connects\<close> whether
  \<open>nats.Connect\<close> succeeds and \<open>subscribes\<close> whether a subscription does.
\<close>

record tel_process =
  pk_system :: System
  pk_hubs :: tel_hubs
  pk_key :: string
  pk_interval :: int
  pk_heartbeat :: int
  pk_subjects :: "string list"
  pk_addr :: string

definition tel_subjects :: "string list" where
  "tel_subjects = [TelSubjectJobState, TelSubjectJobProgress, SubjectLog]"

definition tel_health :: "tel_process \<Rightarrow> bool \<Rightarrow> (string \<times> string) list" where
  "tel_health p online =
     [(''gpu'', if sy_gpu (pk_system p) then GPUStateOK else GPUStateUnavailable),
      (''nats'', if online then ''connected'' else ''disconnected'')]"

definition Tel_run ::
  "host \<Rightarrow> (string + string) \<Rightarrow> string option \<Rightarrow> string + int \<Rightarrow> string option \<Rightarrow> bool \<Rightarrow> (string \<Rightarrow> bool) \<Rightarrow> start_err + tel_process" where
  "Tel_run h stat nvml_init nvml_count nvml_handle connects subscribes =
     (case Tel_Load (ho_url_parse h) (ho_getenv h) of Inl _ \<Rightarrow> Inl BadConfig | Inr cfg \<Rightarrow>
     (case NewCPU stat of Inl _ \<Rightarrow> Inl CpuUnreadable | Inr cpu \<Rightarrow>
     (let sys = (case fst (NewNVML nvml_init nvml_count nvml_handle) of
                   Inl reason \<Rightarrow> NewSystem cpu False reason | Inr _ \<Rightarrow> NewSystem cpu True [])
      in if \<not> connects then Inl BrokerFailed
         else if \<not> list_all subscribes tel_subjects then Inl SubscribeFailed
         else case Tel_NewVerifier (tk_AuthHS256Key cfg) of None \<Rightarrow> Inl BadVerifier | Some key \<Rightarrow>
           Inr \<lparr>pk_system = sys,
                pk_hubs = \<lparr>th_hardware = Hub_New (tk_StreamBufferSize cfg), th_jobs = Hub_New (tk_StreamBufferSize cfg),
                           th_logs = Hub_New (tk_StreamBufferSize cfg)\<rparr>,
                pk_key = key, pk_interval = tk_SampleInterval cfg, pk_heartbeat = tk_HeartbeatInterval cfg,
                pk_subjects = tel_subjects, pk_addr = tk_ListenAddr cfg\<rparr>)))"

section \<open>Starting services one after the other\<close>

datatype service = UploadService | TenancyService | OrchestratorService

definition boot :: "('d, 'b, 's) deployment \<Rightarrow> service \<times> host \<Rightarrow> ('d, 'b) site \<Rightarrow> bool \<times> ('d, 'b) site" where
  "boot dp start s =
     (case fst start of
        UploadService \<Rightarrow> (case Upload_main dp (snd start) s of (r, s') \<Rightarrow> (\<not> isl r, s'))
      | TenancyService \<Rightarrow> (case Tenancy_main dp (snd start) s of (r, s') \<Rightarrow> (\<not> isl r, s'))
      | OrchestratorService \<Rightarrow> (case Orch_run dp (snd start) s of (r, s') \<Rightarrow> (\<not> isl r, s')))"

primrec boots :: "('d, 'b, 's) deployment \<Rightarrow> (service \<times> host) list \<Rightarrow> ('d, 'b) site \<Rightarrow> service list \<times> ('d, 'b) site" where
  "boots dp [] s = ([], s)"
| "boots dp (x # xs) s =
     (case boot dp x s of (ok, s1) \<Rightarrow>
      case boots dp xs s1 of (up, s2) \<Rightarrow> (if ok then fst x # up else up, s2))"

section \<open>A start that succeeds passed every check\<close>

lemma requireE:
  assumes "require e r k s = (Inr y, s')"
  obtains x where "r = Inr x" "k x s = (Inr y, s')"
  using assms by (cases r) (auto simp: require_def or_fail_def ret_def)

lemma or_fail_Inr [simp]: "or_fail e k (Inr x) = k x"
  by (simp add: or_fail_def)

lemma ret_Inr [simp]: "ret (Inr x) s = (Inr y, s') \<longleftrightarrow> x = y \<and> s = s'" "ret (Inl e) s = (Inr y, s') \<longleftrightarrow> False"
  by (auto simp: ret_def)

lemma on_thenE:
  assumes "on_ten f s = (r, s')" obtains d where "f (site_ten s) = (r, d)" "s' = s\<lparr>site_ten := d\<rparr>"
  using assms by (auto simp: on_ten_def split: prod.splits)

lemma on_orchE:
  assumes "on_orch f s = (r, s')" obtains d where "f (site_orch s) = (r, d)" "s' = s\<lparr>site_orch := d\<rparr>"
  using assms by (auto simp: on_orch_def split: prod.splits)

lemma on_brokerE:
  assumes "on_broker f s = (r, s')" obtains b where "f (site_broker s) = (r, b)" "s' = s\<lparr>site_broker := b\<rparr>"
  using assms by (auto simp: on_broker_def split: prod.splits)

lemma on_uplE:
  assumes "on_upl f s = (r, s')" obtains d where "f (site_upl s) = (r, d)" "s' = s\<lparr>site_upl := d\<rparr>"
  using assms by (auto simp: on_upl_def split: prod.splits)

lemma Upload_mainE:
  assumes "Upload_main dp h s = (Inr p, s')"
  obtains cfg quota d b where
    "LoadConfig (DecodeString url_alphabet) (ho_getenv h) = Inr cfg"
    "LoadConfigQuota (ho_read_file h) (dp_quota_yaml dp) (dp_quota_json dp) (uc_QuotaConfigPath cfg) = Inr quota"
    "NewJetStreamPublisher (dp_js dp) (uc_NATSURL cfg) (site_broker s) = (Inr (), b)"
    "s' = s\<lparr>site_upl := d, site_broker := b\<rparr>"
    "p = \<lparr>pu_server = deployed_upload (dp_s3 dp) (uc_S3Bucket cfg) quota (uc_MaxObjectBytes cfg),
      pu_gauge = NewInflightGauge (uc_MaxInflightBytes cfg), pu_backoff = NewBackoffDirector 1000000000 (60 * 1000000000),
      pu_key = uc_AuthHS256Key cfg, pu_addr = uc_ListenAddr cfg\<rparr>"
  using assms unfolding Upload_main_def
  by (elim requireE or_failE on_uplE) (auto split: if_splits elim!: or_failE on_brokerE)

lemma Tenancy_mainE:
  assumes "Tenancy_main dp h s = (Inr p, s')"
  obtains cfg tiers key oidc d b where
    "Tenancy_LoadConfig (ho_url_parse h) (ho_getenv h) = Inr cfg"
    "LoadTierConfig (ho_read_file h) (dp_tier_yaml dp) (nc_TiersConfigPath cfg) = Inr tiers"
    "newHS256Signer (nc_AuthHS256Key cfg) = Some key"
    "Ten_NewPostgresStore (ho_dsn_ok h) (dp_exec dp) (dp_ten_files dp) (nc_DatabaseURL cfg) (site_ten s) = (Inr (), d)"
    "NewOIDCClient (ho_discovery h) (nc_OIDCIssuer cfg) (nc_OIDCClientID cfg) (nc_OIDCClientSecret cfg) (nc_OIDCRedirectURL cfg) = Inr oidc"
    "NewMeteringConsumer (dp_js dp) (nc_NATSURL cfg) (site_broker s) = (Inr (), b)"
    "s' = s\<lparr>site_ten := d, site_broker := b\<rparr>"
    "p = \<lparr>pt_server = Ten_NewServer (dp_crypto dp) key (AuthCodeURL (dp_sha dp) (dp_encode dp) oidc) tiers
        (nc_AccessTokenTTL cfg) (nc_RefreshTokenTTL cfg) (nc_InternalToken cfg) (nc_CookieSecure cfg),
      pt_oidc = oidc, pt_addr = nc_ListenAddr cfg\<rparr>"
  using assms unfolding Tenancy_main_def
  by (elim requireE) (auto split: option.splits sum.splits elim!: and_thenE requireE or_failE on_thenE on_brokerE)

lemma Orch_runE:
  assumes "Orch_run dp h s = (Inr p, s')"
  obtains cfg d1 d2 b1 b2 b3 b4 m where
    "FromEnv (ho_getenv h) = Inr cfg"
    "NewAdapter \<lparr>ac_FFmpegPath = gc_FFmpegPath cfg, ac_FFprobePath = gc_FFprobePath cfg\<rparr> (ho_output h) = Inr (po_engine p)"
    "Orch_Migrate (ho_dsn_ok h) (dp_exec dp) (dp_orch_files dp) (gc_DatabaseURL cfg) (site_orch s) = (Inr (), d1)"
    "pg_open (ho_dsn_ok h) (gc_DatabaseURL cfg) d1 = (Inr (), d2)"
    "StagingRoot (ho_mkdir h) (gc_ScratchDir cfg) = Inr (po_scratch p)"
    "Nats_Connect (dp_js dp) (gc_NATSURL cfg) (site_broker s) = (Inr (), b1)"
    "EnsureStreamForSubject (dp_js dp) orchUploadStream SubjectUploadLanded b1 = (Inr (po_landed p), b2)"
    "EnsureStreamForSubject (dp_js dp) orchMeteringStream SubjectMetering b2 = (Inr m, b3)"
    "NewFromFile (ho_quota_file h (gc_QuotaConfigPath cfg)) True = Inr (po_quota p)"
    "New \<lparr>sc_Slots = gc_SchedulerSlots cfg, sc_PollInterval = gc_SchedulerPollInterval cfg,
       sc_StagingDir = po_scratch p, sc_ProgressPersistEvery = 0\<rparr> = Inr (po_sched p)"
    "Landed_Start (dp_js dp) (po_landed p) b3 = (Inr (), b4)"
    "NewVerifier (DecodeString url_alphabet) (gc_JWTSecret cfg) = Some (po_key p)"
    "s' = s\<lparr>site_orch := d2, site_broker := b4\<rparr>"
  using assms unfolding Orch_run_def
  by (elim requireE) (auto split: option.splits sum.splits elim!: requireE or_failE on_orchE on_brokerE)

text \<open>Migrations that succeed leave no version out, whatever the table held.\<close>

lemma with_io_id: "with_io (\<lambda>s. (x, s)) s = (Inr y, s') \<Longrightarrow> \<exists>os. s' = s\<lparr>io_script := os\<rparr>"
  by (cases rule: with_io_cases [of s "\<lambda>s. (x, s)"]) (auto dest!: next_io_update)

lemma tx_reads:
  "begin_tx s = (Inr x, s') \<Longrightarrow> md_versions s' = md_versions s"
  "tx_exec exec sql s = (Inr d, s') \<Longrightarrow> md_versions s' = md_versions s"
  "tx_record m s = (Inr y, s') \<Longrightarrow> md_versions s' = md_versions s"
  "advisory_lock s = (Inr z, s') \<Longrightarrow> md_versions s' = md_versions s"
  "create_table s = (Inr z, s') \<Longrightarrow> md_versions s' = md_versions s"
  unfolding begin_tx_def tx_exec_def tx_record_def advisory_lock_def create_table_def
  by (erule with_io_Inr; auto dest!: next_io_update split: if_splits option.splits)+

lemma tx_commit_records: "tx_commit m d s = (Inr x, s') \<Longrightarrow> md_versions s' = md_versions s @ [row_of m]"
  unfolding tx_commit_def by (erule with_io_Inr) (auto dest!: next_io_update)

lemma apply_migration_records:
  assumes "apply_migration exec m s = (Inr u, s')"
  shows "md_versions s' = md_versions s @ [row_of m]"
  using assms unfolding apply_migration_def
  by (auto simp: ret_def tx_reads tx_commit_records elim!: and_thenE split: sum.splits)

lemma apply_pending_complete:
  "apply_pending exec applied ms s = (Inr u, s') \<Longrightarrow>
     set (map fst (md_versions s)) \<union> (set (map mf_Version ms) - applied) \<subseteq> set (map fst (md_versions s'))"
proof (induction ms arbitrary: s)
  case (Cons m ms)
  show ?case
  proof (cases "mf_Version m \<in> applied")
    case True
    then show ?thesis using Cons by auto
  next
    case False
    then obtain s1 where "apply_migration exec m s = (Inr (), s1)" "apply_pending exec applied ms s1 = (Inr u, s')"
      using Cons.prems by (auto simp: ret_def elim!: and_thenE split: sum.splits)
    then show ?thesis using Cons.IH [of s1] apply_migration_records [of exec m s "()" s1] by auto
  qed
qed (simp add: ret_def)

lemma Migrate_complete:
  assumes "Migrate exec files s = (Inr u, s')"
  shows "\<exists>ms. loadMigrations files = Inr ms \<and> set (map mf_Version ms) \<subseteq> set (map fst (md_versions s'))"
proof -
  obtain ms where ms: "loadMigrations files = Inr ms" using assms by (auto simp: Migrate_def ret_def split: sum.splits)
  then obtain s1 s2 s3 applied where steps: "read_versions s2 = (Inr applied, s3)" "apply_pending exec applied ms s3 = (Inr u, s')"
    using assms by (auto simp: Migrate_def ret_def elim!: and_thenE split: sum.splits)
  then have "applied = set (map fst (md_versions s3))"
    unfolding read_versions_def by (elim with_io_Inr) (auto dest!: next_io_update)
  then show ?thesis using apply_pending_complete [OF steps(2)] ms by auto
qed

lemma pg_versions:
  "pg_open ok url d = (Inr x, d') \<Longrightarrow> md_versions d' = md_versions d" "pg_close d = (Inr y, d') \<Longrightarrow> md_versions d' = md_versions d"
  by (auto simp: pg_open_def pg_close_def split: if_splits dest!: with_io_id)

definition schema_current :: "(string \<times> string option) list \<Rightarrow> 'd migdb \<Rightarrow> bool" where
  "schema_current files d \<longleftrightarrow> (\<exists>ms. loadMigrations files = Inr ms \<and> set (map mf_Version ms) \<subseteq> set (map fst (md_versions d)))"

lemma orch_checked:
  assumes "Orch_run dp h s = (Inr p, s')"
  shows "verifyBuild (po_engine p) (ho_output h) = None" "schema_current (dp_orch_files dp) (site_orch s')"
    "1 \<le> sc_Slots (po_sched p)" "sc_Slots (po_sched p) \<le> 64" "0 < sc_PollInterval (po_sched p)" "sc_StagingDir (po_sched p) \<noteq> []"
    "32 \<le> length (po_key p)" "lim_MaxActiveJobs (fc_Defaults (po_quota p)) \<noteq> 0" "lim_MaxUploadBytes (fc_Defaults (po_quota p)) \<noteq> 0"
proof -
  obtain cfg d1 d2 b4 where
    cfg: "FromEnv (ho_getenv h) = Inr cfg" and
    eng: "NewAdapter \<lparr>ac_FFmpegPath = gc_FFmpegPath cfg, ac_FFprobePath = gc_FFprobePath cfg\<rparr> (ho_output h) = Inr (po_engine p)" and
    mig: "Orch_Migrate (ho_dsn_ok h) (dp_exec dp) (dp_orch_files dp) (gc_DatabaseURL cfg) (site_orch s) = (Inr (), d1)" and
    pool: "pg_open (ho_dsn_ok h) (gc_DatabaseURL cfg) d1 = (Inr (), d2)" and
    scratch: "StagingRoot (ho_mkdir h) (gc_ScratchDir cfg) = Inr (po_scratch p)" and
    quota: "NewFromFile (ho_quota_file h (gc_QuotaConfigPath cfg)) True = Inr (po_quota p)" and
    sched: "New \<lparr>sc_Slots = gc_SchedulerSlots cfg, sc_PollInterval = gc_SchedulerPollInterval cfg,
       sc_StagingDir = po_scratch p, sc_ProgressPersistEvery = 0\<rparr> = Inr (po_sched p)" and
    key: "NewVerifier (DecodeString url_alphabet) (gc_JWTSecret cfg) = Some (po_key p)" and
    s': "s' = s\<lparr>site_orch := d2, site_broker := b4\<rparr>"
    by (rule Orch_runE [OF assms]) (rule that)
  show "verifyBuild (po_engine p) (ho_output h) = None"
    using eng by (auto simp: NewAdapter_def split: if_splits option.splits)
  obtain d0 where "Migrate (dp_exec dp) (dp_orch_files dp) d0 = (Inr (), d1)"
    using mig unfolding Orch_Migrate_def by (auto split: sum.splits elim!: or_failE)
  then show "schema_current (dp_orch_files dp) (site_orch s')"
    using Migrate_complete pg_versions(1) [OF pool] s' by (fastforce simp: schema_current_def)
  have made: "po_sched p = \<lparr>sc_Slots = gc_SchedulerSlots cfg, sc_PollInterval = gc_SchedulerPollInterval cfg,
      sc_StagingDir = po_scratch p, sc_ProgressPersistEvery = 500000000\<rparr>" "po_scratch p \<noteq> []"
    using FromEnv_limits [OF cfg] sched by (simp_all add: New_def Let_def split: if_splits)
  show "1 \<le> sc_Slots (po_sched p)" "sc_Slots (po_sched p) \<le> 64" "0 < sc_PollInterval (po_sched p)" "sc_StagingDir (po_sched p) \<noteq> []"
    using FromEnv_limits [OF cfg] made by simp_all
  show "32 \<le> length (po_key p)" using key by (auto simp: NewVerifier_def split: if_splits option.splits)
  show "lim_MaxActiveJobs (fc_Defaults (po_quota p)) \<noteq> 0" "lim_MaxUploadBytes (fc_Defaults (po_quota p)) \<noteq> 0"
    using quota by (auto simp: NewFromFile_def split: option.splits json_in.splits if_splits)
qed

lemma tenancy_checked:
  assumes "Tenancy_main dp h s = (Inr p, s')"
  shows "schema_current (dp_ten_files dp) (site_ten s')" "tiers_validate (ts_tiers (pt_server p)) = None" "32 \<le> length (ts_key (pt_server p))"
    "0 < ts_accessTokenTTL (pt_server p)" "ts_accessTokenTTL (pt_server p) \<le> hour"
    "ts_accessTokenTTL (pt_server p) < ts_refreshTokenTTL (pt_server p)" "16 \<le> length (ts_internalToken (pt_server p))"
    "oc_authorizationEndpoint (pt_oidc p) \<noteq> []" "oc_tokenEndpoint (pt_oidc p) \<noteq> []" "oc_jwksURI (pt_oidc p) \<noteq> []"
proof -
  obtain cfg tiers key oidc d b where
    cfg: "Tenancy_LoadConfig (ho_url_parse h) (ho_getenv h) = Inr cfg" and
    tiers: "LoadTierConfig (ho_read_file h) (dp_tier_yaml dp) (nc_TiersConfigPath cfg) = Inr tiers" and
    key: "newHS256Signer (nc_AuthHS256Key cfg) = Some key" and
    store: "Ten_NewPostgresStore (ho_dsn_ok h) (dp_exec dp) (dp_ten_files dp) (nc_DatabaseURL cfg) (site_ten s) = (Inr (), d)" and
    oidc: "NewOIDCClient (ho_discovery h) (nc_OIDCIssuer cfg) (nc_OIDCClientID cfg) (nc_OIDCClientSecret cfg) (nc_OIDCRedirectURL cfg) = Inr oidc" and
    s': "s' = s\<lparr>site_ten := d, site_broker := b\<rparr>" and
    p: "p = \<lparr>pt_server = Ten_NewServer (dp_crypto dp) key (AuthCodeURL (dp_sha dp) (dp_encode dp) oidc) tiers
        (nc_AccessTokenTTL cfg) (nc_RefreshTokenTTL cfg) (nc_InternalToken cfg) (nc_CookieSecure cfg),
      pt_oidc = oidc, pt_addr = nc_ListenAddr cfg\<rparr>"
    by (rule Tenancy_mainE [OF assms]) (rule that)
  note server = p Ten_NewServer_def
  obtain d0 d1 d2 where "Migrate (dp_exec dp) (dp_ten_files dp) d0 = (Inr (), d1)" "pg_close d1 = (Inr (), d2)"
    "pg_open (ho_dsn_ok h) (nc_DatabaseURL cfg) d2 = (Inr (), d)"
    using store unfolding Ten_NewPostgresStore_def by (auto elim!: or_failE)
  then show "schema_current (dp_ten_files dp) (site_ten s')"
    using Migrate_complete pg_versions s' by (fastforce simp: schema_current_def)
  show "tiers_validate (ts_tiers (pt_server p)) = None"
    using tiers by (auto simp: server LoadTierConfig_def split: option.splits)
  show "32 \<le> length (ts_key (pt_server p))" using key by (auto simp: server newHS256Signer_def split: if_splits)
  show "0 < ts_accessTokenTTL (pt_server p)" "ts_accessTokenTTL (pt_server p) \<le> hour"
    "ts_accessTokenTTL (pt_server p) < ts_refreshTokenTTL (pt_server p)" "16 \<le> length (ts_internalToken (pt_server p))"
    using Tenancy_LoadConfig_limits [OF cfg] by (simp_all add: server)
  show "oc_authorizationEndpoint (pt_oidc p) \<noteq> []" "oc_tokenEndpoint (pt_oidc p) \<noteq> []" "oc_jwksURI (pt_oidc p) \<noteq> []"
    using oidc by (auto simp: server NewOIDCClient_def split: sum.splits if_splits)
qed

lemma upload_checked:
  assumes "Upload_main dp h s = (Inr p, s')"
  shows "32 \<le> length (pu_key p)" "ChunkSizeBytes \<le> g_ceiling (pu_gauge p)" "g_current (pu_gauge p) = 0" "0 < sv_maxObjectBytes (pu_server p)"
    "sv_chunkSize (pu_server p) = ChunkSizeBytes"
proof -
  obtain cfg quota where cfg: "LoadConfig (DecodeString url_alphabet) (ho_getenv h) = Inr cfg" and
    p: "p = \<lparr>pu_server = deployed_upload (dp_s3 dp) (uc_S3Bucket cfg) quota (uc_MaxObjectBytes cfg),
      pu_gauge = NewInflightGauge (uc_MaxInflightBytes cfg), pu_backoff = NewBackoffDirector 1000000000 (60 * 1000000000),
      pu_key = uc_AuthHS256Key cfg, pu_addr = uc_ListenAddr cfg\<rparr>"
    by (rule Upload_mainE [OF assms]) (rule that)
  show "32 \<le> length (pu_key p)" "ChunkSizeBytes \<le> g_ceiling (pu_gauge p)" "g_current (pu_gauge p) = 0" "0 < sv_maxObjectBytes (pu_server p)"
    "sv_chunkSize (pu_server p) = ChunkSizeBytes"
    using LoadConfig_limits [OF cfg] by (simp_all add: p NewInflightGauge_def deployed_upload_def NewServer_def)
qed

lemma telemetry_checked:
  assumes "Tel_run h stat nvml_init nvml_count nvml_handle connects subscribes = Inr p"
  shows "32 \<le> length (pk_key p)" "16 \<le> hb_bufSize (th_hardware (pk_hubs p))" "hb_bufSize (th_hardware (pk_hubs p)) \<le> 4096"
    "sy_gpu (pk_system p) \<longleftrightarrow> sy_gpuAbsentWhy (pk_system p) = []"
proof -
  obtain cfg cpu where cfg: "Tel_Load (ho_url_parse h) (ho_getenv h) = Inr cfg" and
    p: "pk_key p = tk_AuthHS256Key cfg" "th_hardware (pk_hubs p) = Hub_New (tk_StreamBufferSize cfg)"
    "pk_system p = (case fst (NewNVML nvml_init nvml_count nvml_handle) of
                   Inl reason \<Rightarrow> NewSystem cpu False reason | Inr _ \<Rightarrow> NewSystem cpu True [])"
    using assms by (auto simp: Tel_run_def Let_def Tel_NewVerifier_def split: sum.splits if_splits option.splits)
  show "32 \<le> length (pk_key p)" "16 \<le> hb_bufSize (th_hardware (pk_hubs p))" "hb_bufSize (th_hardware (pk_hubs p)) \<le> 4096"
    using Tel_Load_limits [OF cfg] by (simp_all add: p Hub_New_def)
  show "sy_gpu (pk_system p) \<longleftrightarrow> sy_gpuAbsentWhy (pk_system p) = []"
    by (auto simp: p NewSystem_def NewNVML_def split: sum.splits option.splits)
qed

section \<open>The broker across starts\<close>

lemma map_le_Some: "m \<subseteq>\<^sub>m m' \<Longrightarrow> m k = Some x \<Longrightarrow> m' k = Some x"
  by (metis domI map_le_def)

lemma carries_mono: "br_streams v \<subseteq>\<^sub>m br_streams v' \<Longrightarrow> carries v n s \<Longrightarrow> carries v' n s"
  unfolding carries_def using map_le_Some by metis

context jetstream
begin

definition site_grows :: "(('d, 'b) site \<Rightarrow> 'a \<times> ('d, 'b) site) \<Rightarrow> bool" where
  "site_grows f \<longleftrightarrow> (\<forall>s. evolves (view (site_broker s)) (view (site_broker (snd (f s)))))"

lemma site_growsD: "site_grows f \<Longrightarrow> f s = (r, s') \<Longrightarrow> evolves (view (site_broker s)) (view (site_broker s'))"
  unfolding site_grows_def by (metis snd_conv)

lemma site_grows_ret: "site_grows (ret x)"
  by (simp add: site_grows_def ret_def)

lemma site_grows_and_then: "site_grows f \<Longrightarrow> (\<And>r. site_grows (g r)) \<Longrightarrow> site_grows (and_then f g)"
  unfolding site_grows_def snd_and_then by (blast intro: evolves_trans)

lemma site_grows_or_fail: "(\<And>x. site_grows (k x)) \<Longrightarrow> site_grows (or_fail e k r)"
  by (cases r) (simp_all add: or_fail_def site_grows_ret)

lemma site_grows_require: "(\<And>x. site_grows (k x)) \<Longrightarrow> site_grows (require e r k)"
  unfolding require_def by (rule site_grows_or_fail)

lemma site_grows_local: "site_grows (on_upl f)" "site_grows (on_ten g)" "site_grows (on_orch g)"
  by (simp_all add: site_grows_def on_upl_def on_ten_def on_orch_def split: prod.splits)

lemma site_grows_broker: "grows f \<Longrightarrow> site_grows (on_broker f)"
  by (auto simp: site_grows_def on_broker_def dest: growsD split: prod.splits)

lemma site_grows_option: "site_grows a \<Longrightarrow> (\<And>x. site_grows (b x)) \<Longrightarrow> site_grows (case r of None \<Rightarrow> a | Some x \<Rightarrow> b x)"
  by (cases r) simp_all

lemma site_grows_sum: "(\<And>e. site_grows (a e)) \<Longrightarrow> (\<And>x. site_grows (b x)) \<Longrightarrow> site_grows (case r of Inl e \<Rightarrow> a e | Inr x \<Rightarrow> b x)"
  by (cases r) simp_all

lemma site_grows_if: "site_grows f \<Longrightarrow> site_grows g \<Longrightarrow> site_grows (if c then f else g)"
  by simp

lemmas site_rules = site_grows_ret site_grows_and_then site_grows_or_fail site_grows_require site_grows_local site_grows_broker
  site_grows_option site_grows_sum site_grows_if grows_setup grows_ensure our_configs(2,3)

lemma mains_grow:
  assumes "dp_js dp = cl"
  shows "site_grows (Upload_main dp h)" "site_grows (Tenancy_main dp h)" "site_grows (Orch_run dp h)"
  unfolding Upload_main_def Tenancy_main_def Orch_run_def assms by (intro site_rules)+

lemma boot_grows:
  assumes "dp_js dp = cl" "boot dp x s = (ok, s')"
  shows "evolves (view (site_broker s)) (view (site_broker s'))"
  using assms(2) site_growsD [OF mains_grow(1) [OF assms(1)]] site_growsD [OF mains_grow(2) [OF assms(1)]]
    site_growsD [OF mains_grow(3) [OF assms(1)]]
  by (auto simp: boot_def split: service.splits prod.splits)

lemma ensure_name:
  assumes "EnsureStreamForSubject cl fallback s b = (Inr n, b')"
  shows "n = fallback \<or> carries (view b) n s"
proof -
  obtain r b1 where r: "js_StreamNameBySubject cl s b = (r, b1)" by fastforce
  then show ?thesis using assms lookup_found [of s b n]
    by (auto simp: EnsureStreamForSubject_def ret_def and_then_def split: sum.splits if_splits prod.splits)
qed

lemma orch_makes_streams:
  assumes "dp_js dp = cl" "layout (view (site_broker s))" "br_streams (view (site_broker s)) ftStreamName = None"
    and "Orch_run dp h s = (Inr p, s')"
  shows "br_streams (view (site_broker s')) orchUploadStream \<noteq> None"
proof -
  obtain cfg :: OrchConfig and d2 b1 b2 b3 b4 m where run: "Nats_Connect (dp_js dp) (gc_NATSURL cfg) (site_broker s) = (Inr (), b1)"
    "EnsureStreamForSubject (dp_js dp) orchUploadStream SubjectUploadLanded b1 = (Inr (po_landed p), b2)"
    "EnsureStreamForSubject (dp_js dp) orchMeteringStream SubjectMetering b2 = (Inr m, b3)"
    "Landed_Start (dp_js dp) (po_landed p) b3 = (Inr (), b4)" "s' = s\<lparr>site_orch := d2, site_broker := b4\<rparr>"
    by (rule Orch_runE [OF assms(4)]) (rule that)
  note steps = run [unfolded assms(1)]
  have v: "view b1 = view (site_broker s)"
    using steps(1) connect_view [of "gc_NATSURL cfg" "site_broker s"] unfolding Nats_Connect_def by (auto simp: ret_def elim!: or_failE)
  have e: "layout (view b2)" "br_streams (view b2) \<subseteq>\<^sub>m br_streams (view b4)"
    using assms(2) v growsD [OF grows_ensure [OF our_configs(2)] steps(2)] growsD [OF grows_ensure [OF our_configs(3)] steps(3)]
      growsD [OF grows_setup(4) steps(4)] by (auto simp: evolves_def intro: map_le_trans)
  have "po_landed p \<noteq> ftStreamName" using ensure_name [OF steps(2)] v assms(3) by (auto simp: carries_def)
  moreover have c: "carries (view b2) (po_landed p) SubjectUploadLanded"
    using ensure_post [OF steps(2) _ our_configs(2)] v assms(2) by simp
  then have "(po_landed p, the (br_streams (view b2) (po_landed p))) \<in> set our_streams"
    using e(1) unfolding layout_def carries_def ours_def by auto
  ultimately have "po_landed p = orchUploadStream" using c by (auto simp: our_streams_def carries_def)
  then show ?thesis using c map_le_Some [OF e(2)] steps(5) by (auto simp: carries_def)
qed

lemma orch_serves:
  assumes "dp_js dp = cl" "layout (view (site_broker s))" "Orch_run dp h s = (Inr p, s')"
  shows "carries (view (site_broker s')) (po_landed p) SubjectUploadLanded \<and>
    br_consumers (view (site_broker s')) (po_landed p, cc_Durable landed_consumer) = Some landed_consumer \<and>
    (\<exists>m. carries (view (site_broker s')) m SubjectMetering)"
proof -
  obtain cfg :: OrchConfig and d2 b1 b2 b3 b4 m where run: "Nats_Connect (dp_js dp) (gc_NATSURL cfg) (site_broker s) = (Inr (), b1)"
    "EnsureStreamForSubject (dp_js dp) orchUploadStream SubjectUploadLanded b1 = (Inr (po_landed p), b2)"
    "EnsureStreamForSubject (dp_js dp) orchMeteringStream SubjectMetering b2 = (Inr m, b3)"
    "Landed_Start (dp_js dp) (po_landed p) b3 = (Inr (), b4)" "s' = s\<lparr>site_orch := d2, site_broker := b4\<rparr>"
    by (rule Orch_runE [OF assms(3)]) (rule that)
  note steps = run [unfolded assms(1)]
  have L: "layout (view b1)" "layout (view b2)" "layout (view b3)" and le: "br_streams (view b3) \<subseteq>\<^sub>m br_streams (view b4)"
    using assms(2) growsD [OF grows_setup(3) steps(1)] growsD [OF grows_ensure [OF our_configs(2)] steps(2)]
      growsD [OF grows_ensure [OF our_configs(3)] steps(3)] growsD [OF grows_setup(4) steps(4)]
    by (auto simp: evolves_def)
  have "carries (view b3) m SubjectMetering" by (rule ensure_post [OF steps(3) L(2) our_configs(3)])
  then have "carries (view b4) m SubjectMetering" by (rule carries_mono [OF le])
  then show ?thesis using start_post [OF steps(4)] steps(5) by auto
qed

end

lemma served: "(case f of (r, s) \<Rightarrow> (\<not> isl r, s)) = (True, s') \<Longrightarrow> \<exists>p. f = (Inr p, s')"
  by (cases f; cases "fst f") auto

lemma boot_serves:
  assumes "boot dp x s = (True, s')"
  shows "case fst x of UploadService \<Rightarrow> \<exists>p. Upload_main dp (snd x) s = (Inr p, s')
    | TenancyService \<Rightarrow> \<exists>p. Tenancy_main dp (snd x) s = (Inr p, s')
    | OrchestratorService \<Rightarrow> \<exists>p. Orch_run dp (snd x) s = (Inr p, s')"
  using assms unfolding boot_def by (cases "fst x") (auto dest!: served)

text \<open>What a service that is up needs of the broker.\<close>

fun needs :: "service \<Rightarrow> broker \<Rightarrow> bool" where
  "needs UploadService v = (br_streams v ftStreamName = Some [SubjectUploadLanded, SubjectMetering])"
| "needs TenancyService v = (br_streams v ftStreamName = Some [SubjectUploadLanded, SubjectMetering] \<and>
     br_consumers v (ftStreamName, meteringConsumerName) = Some metering_consumer)"
| "needs OrchestratorService v = ((\<exists>m. carries v m SubjectMetering) \<and>
     (\<exists>n. carries v n SubjectUploadLanded \<and> br_consumers v (n, cc_Durable landed_consumer) = Some landed_consumer))"

lemma needs_mono:
  assumes "needs x v" "br_streams v \<subseteq>\<^sub>m br_streams v'" "br_consumers v \<subseteq>\<^sub>m br_consumers v'"
  shows "needs x v'"
  using assms(1) map_le_Some [OF assms(2)] map_le_Some [OF assms(3)] carries_mono [OF assms(2)]
  by (cases x) (simp, simp, simp, meson)

context jetstream
begin

lemma boot_meets:
  assumes dp: "dp_js dp = cl" and L: "layout (view (site_broker s))" and run: "boot dp x s = (True, s')"
  shows "needs (fst x) (view (site_broker s'))"
proof (cases "fst x")
  case UploadService
  then obtain p where "Upload_main dp (snd x) s = (Inr p, s')"
    using boot_serves [OF run] by auto
  then obtain cfg :: UploadConfig and d b where "NewJetStreamPublisher (dp_js dp) (uc_NATSURL cfg) (site_broker s) = (Inr (), b)"
    "s' = s\<lparr>site_upl := d, site_broker := b\<rparr>" by (rule Upload_mainE) (rule that)
  then show ?thesis using publisher_post UploadService dp by auto
next
  case TenancyService
  then obtain p where "Tenancy_main dp (snd x) s = (Inr p, s')"
    using boot_serves [OF run] by auto
  then obtain cfg :: TenancyConfig and d b where "NewMeteringConsumer (dp_js dp) (nc_NATSURL cfg) (site_broker s) = (Inr (), b)"
    "s' = s\<lparr>site_ten := d, site_broker := b\<rparr>" by (rule Tenancy_mainE) (rule that)
  then show ?thesis using metering_post [OF _ L] TenancyService dp by auto
next
  case OrchestratorService
  then obtain p where "Orch_run dp (snd x) s = (Inr p, s')"
    using boot_serves [OF run] by auto
  then show ?thesis using orch_serves [OF dp L] OrchestratorService by auto
qed

lemma boots_share:
  assumes "dp_js dp = cl" "layout (view (site_broker s))" "boots dp starts s = (up, s')"
  shows "(\<forall>x\<in>set up. needs x (view (site_broker s'))) \<and> evolves (view (site_broker s)) (view (site_broker s'))"
  using assms(2,3)
proof (induction starts arbitrary: s up)
  case Nil
  then show ?case by simp
next
  case (Cons x xs)
  obtain ok s1 where h: "boot dp x s = (ok, s1)" by fastforce
  obtain up1 s2 where t: "boots dp xs s1 = (up1, s2)" by fastforce
  have s2: "s2 = s'" and up: "up = (if ok then fst x # up1 else up1)" using Cons.prems(2) h t by simp_all
  note e = boot_grows [OF assms(1) h]
  then have L: "layout (view (site_broker s1))" using Cons.prems(1) by (simp add: evolves_def)
  note ih = Cons.IH [OF L t [unfolded s2]]
  have "needs (fst x) (view (site_broker s'))" if ok
    using needs_mono [OF boot_meets [OF assms(1) Cons.prems(1), of x s1]] ih L h that by (auto simp: evolves_def)
  then show ?case using ih evolves_trans [OF e] up by auto
qed

end

section \<open>Properties\<close>

text \<open>
  C38. Services that are up share their streams. Start the upload service, tenancy and the
  orchestrator in any order and any number of times, on hosts that differ, with any failures, on a
  broker without foreign streams for their subjects. Whichever starts succeeded, each subject is
  carried by one stream at most, that stream and the durable consumer each service asked for are
  there, and once upload or tenancy is up it is the shared stream that the orchestrator's
  landed-object consumer reads, as configured.
\<close>

theorem services_share_streams:
  assumes "jetstream (dp_js dp) view" "layout (view (site_broker s))" "boots dp starts s = (up, s')"
    and v: "v = view (site_broker s')"
  shows "(\<forall>n m subject. subject \<in> {SubjectUploadLanded, SubjectMetering} \<and> carries v n subject \<and> carries v m subject \<longrightarrow> n = m) \<and>
    (\<forall>x\<in>set up. needs x v) \<and>
    (OrchestratorService \<in> set up \<and> (UploadService \<in> set up \<or> TenancyService \<in> set up) \<longrightarrow>
       br_consumers v (ftStreamName, cc_Durable landed_consumer) = Some landed_consumer)"
proof -
  have "layout v" and up: "\<forall>x\<in>set up. needs x v"
    using jetstream.boots_share [OF assms(1) refl assms(2,3)] assms(2) by (simp_all add: evolves_def v)
  then have one: "n = m" if "carries v n subject" "carries v m subject" "subject \<in> {SubjectUploadLanded, SubjectMetering}" for n m subject
    using layout_disjoint [OF _ that(1,2)] that(3) by blast
  have "br_consumers v (ftStreamName, cc_Durable landed_consumer) = Some landed_consumer"
    if orch: "OrchestratorService \<in> set up" and other: "UploadService \<in> set up \<or> TenancyService \<in> set up"
  proof -
    have "carries v ftStreamName SubjectUploadLanded" using up other by (auto simp: carries_def)
    moreover obtain n where "carries v n SubjectUploadLanded" "br_consumers v (n, cc_Durable landed_consumer) = Some landed_consumer"
      using bspec [OF up orch] by auto
    ultimately show ?thesis using one [of n SubjectUploadLanded ftStreamName] by simp
  qed
  with one up show ?thesis by blast
qed

text \<open>
  The order of the first start matters. When the orchestrator comes up on a broker without the shared
  stream, it creates streams of its own, and from then on no start of the upload service and none
  of tenancy succeeds.
\<close>

lemma boots_locked_out:
  assumes "jetstream (dp_js dp) view" "layout (view (site_broker s))" "boots dp starts s = (up, s')"
    and "br_streams (view (site_broker s)) orchUploadStream \<noteq> None \<or> br_streams (view (site_broker s)) orchMeteringStream \<noteq> None"
  shows "UploadService \<notin> set up \<and> TenancyService \<notin> set up"
proof -
  have e: "layout (view (site_broker s'))" "br_streams (view (site_broker s)) \<subseteq>\<^sub>m br_streams (view (site_broker s'))"
    and up: "\<forall>x\<in>set up. needs x (view (site_broker s'))"
    using jetstream.boots_share [OF assms(1) refl assms(2,3)] assms(2) by (simp_all add: evolves_def)
  have "br_streams (view (site_broker s')) orchUploadStream \<noteq> None \<or> br_streams (view (site_broker s')) orchMeteringStream \<noteq> None"
    using assms(4) map_le_Some [OF e(2)] by auto
  then have "br_streams (view (site_broker s')) ftStreamName = None" using e(1) by (auto simp: layout_def)
  then show ?thesis using up by auto
qed

theorem orchestrator_first_locks_out:
  assumes "jetstream (dp_js dp) view" "layout (view (site_broker s))" "br_streams (view (site_broker s)) ftStreamName = None"
    and "Orch_run dp h s = (Inr p, s1)" "boots dp starts s1 = (up, s2)"
  shows "UploadService \<notin> set up \<and> TenancyService \<notin> set up"
proof -
  have "layout (view (site_broker s1))"
    using jetstream.site_growsD [OF assms(1) jetstream.mains_grow(3) [OF assms(1) refl] assms(4)] assms(2) by (simp add: evolves_def)
  then show ?thesis
    using boots_locked_out [OF assms(1) _ assms(5)] jetstream.orch_makes_streams [OF assms(1) refl assms(2,3,4)] by blast
qed

text \<open>
  C39. What serves was checked. An orchestrator that serves runs an encoder whose build configuration
  passed the licence gate, on a schema with every migration, with 1 to 64 slots, a scratch directory,
  quota defaults and a key of 32 bytes at least. A tenancy service that serves has every migration,
  a valid tier table, a key, token lifetimes in order, an internal token and a discovered provider.
  An upload service has a key and room for a chunk; telemetry has a key and buffers within their
  bounds, and it says why there is no GPU exactly when there is none.
\<close>

theorem serving_is_checked:
  "(Orch_run dp h s = (Inr po, s1) \<longrightarrow>
      verifyBuild (po_engine po) (ho_output h) = None \<and> schema_current (dp_orch_files dp) (site_orch s1) \<and>
      sc_Slots (po_sched po) \<in> {1..64} \<and> 0 < sc_PollInterval (po_sched po) \<and> sc_StagingDir (po_sched po) \<noteq> [] \<and>
      32 \<le> length (po_key po) \<and> lim_MaxActiveJobs (fc_Defaults (po_quota po)) \<noteq> 0 \<and> lim_MaxUploadBytes (fc_Defaults (po_quota po)) \<noteq> 0) \<and>
   (Tenancy_main dp h s = (Inr pt, s2) \<longrightarrow>
      schema_current (dp_ten_files dp) (site_ten s2) \<and> tiers_validate (ts_tiers (pt_server pt)) = None \<and>
      32 \<le> length (ts_key (pt_server pt)) \<and> 0 < ts_accessTokenTTL (pt_server pt) \<and> ts_accessTokenTTL (pt_server pt) \<le> hour \<and>
      ts_accessTokenTTL (pt_server pt) < ts_refreshTokenTTL (pt_server pt) \<and> 16 \<le> length (ts_internalToken (pt_server pt)) \<and>
      oc_tokenEndpoint (pt_oidc pt) \<noteq> [] \<and> oc_jwksURI (pt_oidc pt) \<noteq> []) \<and>
   (Upload_main dp h s = (Inr pu, s3) \<longrightarrow>
      32 \<le> length (pu_key pu) \<and> ChunkSizeBytes \<le> g_ceiling (pu_gauge pu) \<and> g_current (pu_gauge pu) = 0 \<and>
      0 < sv_maxObjectBytes (pu_server pu)) \<and>
   (Tel_run h stat nvml_init nvml_count nvml_handle connects subscribes = Inr pk \<longrightarrow>
      32 \<le> length (pk_key pk) \<and> hb_bufSize (th_hardware (pk_hubs pk)) \<in> {16..4096} \<and>
      (sy_gpu (pk_system pk) \<longleftrightarrow> sy_gpuAbsentWhy (pk_system pk) = []))"
  using orch_checked [of dp h s po s1] tenancy_checked [of dp h s pt s2] upload_checked [of dp h s pu s3]
    telemetry_checked [of h stat nvml_init nvml_count nvml_handle connects subscribes pk]
  by (intro conjI impI) simp_all

section \<open>A site that comes up\<close>

definition ex_host :: "(string \<Rightarrow> string) \<Rightarrow> host" where
  "ex_host getenv = \<lparr>ho_getenv = getenv, ho_read_file = (\<lambda>_. Some ''text''), ho_url_parse = ex_url_parse, ho_dsn_ok = (\<lambda>_. True),
     ho_quota_file = (\<lambda>_. Some (JsonValue \<lparr>fc_Defaults = \<lparr>lim_MaxActiveJobs = 2, lim_MaxUploadBytes = 9\<rparr>, fc_Workspaces = []\<rparr> [])),
     ho_output = (\<lambda>_ _. (''--enable-nvenc'', [], None)), ho_mkdir = (\<lambda>_. True),
     ho_discovery = Reply 200 (Some \<lparr>dd_Issuer = ''https://accounts.google.com'', dd_AuthorizationEndpoint = ''a'', dd_TokenEndpoint = ''t'', dd_JWKSURI = ''j''\<rparr>)\<rparr>"

definition ex_deployment :: "(string list, mem_broker, mem) deployment" where
  "ex_deployment = \<lparr>dp_js = mem_js, dp_s3 = mem_client ''x'', dp_exec = ex_exec,
     dp_quota_yaml = (\<lambda>_. Some \<lparr>qc_DenyUnknownWorkspaces = False,
       qc_Defaults = \<lparr>wq_MaxUploadBytes = None, wq_AllowUploads = Some True, wq_AllowJobs = Some True\<rparr>, qc_Workspaces = []\<rparr>),
     dp_quota_json = (\<lambda>_. None),
     dp_tier_yaml = (\<lambda>_. Some \<lparr>tg_DefaultTier = ''free'', tg_Tiers = [(''free'', \<lparr>ti_EncodeHoursPerMonth = 1, ti_StorageBytes = 1,
       ti_MaxUploadBytes = 8, ti_AllowUploads = True, ti_AllowJobs = True\<rparr>)]\<rparr>),
     dp_crypto = ex_jwt, dp_sha = (\<lambda>x. x), dp_encode = (\<lambda>_. []), dp_ten_files = ex_entries, dp_orch_files = ex_entries\<rparr>"

definition ex_broker :: "(string \<times> string list) list \<Rightarrow> ((string \<times> string) \<times> ConsumerConfig) list \<Rightarrow> mem_broker" where
  "ex_broker ss cs = \<lparr>io_script = [], id_supply = [], clock = 0, mb_streams = ss, mb_consumers = cs\<rparr>"

definition ex_site :: "(string list, mem_broker) site" where
  "ex_site = \<lparr>site_upl = \<lparr>io_script = [], id_supply = [], clock = 0\<rparr>, site_ten = ex_half, site_orch = ex_half, site_broker = ex_broker [] []\<rparr>"

definition ex_uenv2 :: "string \<Rightarrow> string" where
  "ex_uenv2 = ex_env ((''UPLOAD_QUOTA_CONFIG_PATH'', ''q.yaml'') # (''UPLOAD_AUTH_HS256_KEY'', ex_key_text) # map (\<lambda>v. (v, ''x''))
     [''UPLOAD_DATABASE_URL'', ''UPLOAD_S3_ENDPOINT'', ''UPLOAD_S3_BUCKET'', ''UPLOAD_S3_ACCESS_KEY'', ''UPLOAD_S3_SECRET_KEY''])"

lemma ex_tenancy_config: "\<exists>cfg. Tenancy_LoadConfig ex_url_parse ex_tenv = Inr cfg \<and> nc_OIDCIssuer cfg = ''https://accounts.google.com'' \<and>
    length (nc_AuthHS256Key cfg) = 32"
  by (simp add: Tenancy_LoadConfig_def envDuration_def envBool_def envDefault_def ex_tenv_def ex_env_def ex_key_bytes ex_hosts http_url_def
      ex_url_parse_def has_prefix_def hour_def ex_key_text_def [symmetric] Let_def) (simp add: ex_key_text_def)

lemma ex_orch_config: "\<exists>cfg. FromEnv ex_oenv = Inr cfg \<and> gc_JWTSecret cfg = ex_key_text \<and> gc_FFmpegPath cfg = ''x'' \<and> gc_FFprobePath cfg = ''x'' \<and>
    gc_S3Bucket cfg = ''x'' \<and> gc_SchedulerSlots cfg = 3 \<and> gc_SchedulerPollInterval cfg = 2000000000"
  by (simp add: FromEnv_def env_checked_def required_env_def ex_oenv_def ex_env_def Let_def) (simp add: ex_key_text_def)

lemma ex_upload_config: "\<exists>cfg. LoadConfig (DecodeString url_alphabet) ex_uenv2 = Inr cfg \<and> uc_QuotaConfigPath cfg = ''q.yaml''"
  by (simp add: LoadConfig_def envInt64_def envBool_def ex_uenv2_def ex_env_def ex_key_bytes ChunkSizeBytes_def Let_def) (simp add: ex_key_text_def)

lemma ex_migrated: "\<exists>d. Migrate ex_exec ex_entries ex_half = (Inr (), d) \<and> io_script d = []"
  by (simp add: migrate_simps ex_half_def)

lemma ex_half_calm: "io_script ex_half = []"
  by (simp add: ex_half_def)

lemma pg_calm: "io_script d = [] \<Longrightarrow> ok url \<Longrightarrow> pg_open ok url d = (Inr (), d)" "io_script d = [] \<Longrightarrow> pg_close d = (Inr (), d)"
  by (simp_all add: pg_open_def pg_close_def with_io_def next_io_def)

lemma mem_calm: "mem_call f (ex_broker ss cs) = f (ex_broker ss cs)"
  by (simp add: mem_call_def next_io_def ex_broker_def)

abbreviation ex_ft :: "string \<times> string list" where
  "ex_ft \<equiv> (ftStreamName, [SubjectUploadLanded, SubjectMetering])"

abbreviation ex_bound :: "(string \<times> string) \<times> ConsumerConfig" where
  "ex_bound \<equiv> ((ftStreamName, meteringConsumerName), metering_consumer)"

lemmas mem_simps = mem_js_def mem_calm mem_get_def mem_new_def mem_put_def mem_apart_def mem_bind_def mem_has_def mem_pull_def mem_find_def
  ex_broker_def and_then_def ret_def

lemma ex_consumer: "NewMeteringConsumer mem_js url (ex_broker [] []) = (Inr (), ex_broker [ex_ft] [ex_bound])"
  by (simp add: NewMeteringConsumer_def ensure_ft_stream_def ftStreamConfig_def metering_consumer_def mem_simps mem_calm [unfolded ex_broker_def])

lemma ex_publisher: "NewJetStreamPublisher mem_js url (ex_broker [ex_ft] cs) = (Inr (), ex_broker [ex_ft, ex_ft] cs)"
  by (simp add: NewJetStreamPublisher_def ftStreamConfig_def mem_simps mem_calm [unfolded ex_broker_def])

lemma ex_ensure:
  "s \<in> {SubjectUploadLanded, SubjectMetering} \<Longrightarrow>
     EnsureStreamForSubject mem_js fallback s (ex_broker [ex_ft, ex_ft] cs) = (Inr ftStreamName, ex_broker [ex_ft, ex_ft] cs)"
  by (auto simp: EnsureStreamForSubject_def mem_simps mem_calm [unfolded ex_broker_def])

lemma ex_landed:
  "Landed_Start mem_js ftStreamName (ex_broker [ex_ft, ex_ft] cs) =
     (Inr (), ex_broker [ex_ft, ex_ft] (((ftStreamName, cc_Durable landed_consumer), landed_consumer) # cs))"
  by (simp add: Landed_Start_def landed_consumer_def mem_simps mem_calm [unfolded ex_broker_def])

lemma ex_connect: "Nats_Connect mem_js url (ex_broker ss cs) = (Inr (), ex_broker ss cs)"
  by (simp add: Nats_Connect_def mem_simps mem_calm [unfolded ex_broker_def])

lemmas run_simps = require_def and_then_def on_ten_def on_orch_def on_upl_def on_broker_def ret_def

lemma ex_tenancy_up:
  "\<exists>p d. Tenancy_main ex_deployment (ex_host ex_tenv) ex_site = (Inr p, ex_site\<lparr>site_ten := d, site_broker := ex_broker [ex_ft] [ex_bound]\<rparr>)"
proof -
  obtain cfg where cfg: "Tenancy_LoadConfig ex_url_parse ex_tenv = Inr cfg" "nc_OIDCIssuer cfg = ''https://accounts.google.com''"
    "length (nc_AuthHS256Key cfg) = 32" using ex_tenancy_config by blast
  obtain d where d: "Migrate ex_exec ex_entries ex_half = (Inr (), d)" "io_script d = []" using ex_migrated by blast
  have "Ten_NewPostgresStore (\<lambda>_. True) ex_exec ex_entries (nc_DatabaseURL cfg) ex_half = (Inr (), d)"
    using d by (simp add: Ten_NewPostgresStore_def run_simps pg_calm ex_half_calm)
  then show ?thesis
    using cfg by (simp add: Tenancy_main_def ex_deployment_def ex_host_def ex_site_def run_simps ex_consumer newHS256Signer_def
        LoadTierConfig_def tiers_validate_def Lookup_def NewOIDCClient_def reply_value_def)
qed

lemma ex_upload_up:
  "\<exists>p. Upload_main ex_deployment (ex_host ex_uenv2) (ex_site\<lparr>site_ten := d, site_broker := ex_broker [ex_ft] cs\<rparr>) =
     (Inr p, ex_site\<lparr>site_ten := d, site_broker := ex_broker [ex_ft, ex_ft] cs\<rparr>)"
proof -
  obtain cfg where cfg: "LoadConfig (DecodeString url_alphabet) ex_uenv2 = Inr cfg" "uc_QuotaConfigPath cfg = ''q.yaml''"
    using ex_upload_config by blast
  have ext: "to_lower (ext_of ''q.yaml'') = ''.yaml''" by code_simp
  show ?thesis
    using cfg by (simp add: Upload_main_def ex_deployment_def ex_host_def ex_site_def run_simps ex_publisher pg_calm ext ex_url_parse_def
        LoadConfigQuota_def NewConfigQuota_def validateWorkspaceQuota_def Let_def)
qed

lemma ex_gate: "CheckBuildconf (''--enable-nvenc'' @ [CHR 0x0A]) = None"
  by code_simp

lemma ex_orch_up:
  "\<exists>p d'. Orch_run ex_deployment (ex_host ex_oenv) (ex_site\<lparr>site_ten := d, site_broker := ex_broker [ex_ft, ex_ft] cs\<rparr>) =
     (Inr p, ex_site\<lparr>site_ten := d, site_orch := d',
       site_broker := ex_broker [ex_ft, ex_ft] (((ftStreamName, cc_Durable landed_consumer), landed_consumer) # cs)\<rparr>)"
proof -
  obtain cfg where cfg: "FromEnv ex_oenv = Inr cfg" "gc_JWTSecret cfg = ex_key_text" "gc_FFmpegPath cfg = ''x''" "gc_FFprobePath cfg = ''x''"
    "gc_S3Bucket cfg = ''x''" "gc_SchedulerSlots cfg = 3" "gc_SchedulerPollInterval cfg = 2000000000" using ex_orch_config by blast
  obtain d' where d: "Migrate ex_exec ex_entries ex_half = (Inr (), d')" "io_script d' = []" using ex_migrated by blast
  have mig: "Orch_Migrate (\<lambda>_. True) ex_exec ex_entries (gc_DatabaseURL cfg) ex_half = (Inr (), d')"
    using d by (simp add: Orch_Migrate_def run_simps pg_calm ex_half_calm ex_entries_load)
  have key: "NewVerifier (DecodeString url_alphabet) ex_key_text = Some (replicate 32 (CHR 0x00))"
    by (simp add: NewVerifier_def ex_key_bytes) (simp add: ex_key_text_def)
  show ?thesis
    using cfg by (simp add: Orch_run_def ex_deployment_def ex_host_def ex_site_def run_simps mig pg_calm d(2) ex_connect ex_ensure ex_landed key
        NewAdapter_def verifyBuild_def ex_gate [simplified] NewS3_def ex_url_parse_def StagingRoot_def filepath_Clean_nonempty NewFromFile_def
        New_def Let_def)
qed

lemma ex_layout: "layout (mem_view (ex_broker [] []))"
  by (simp add: layout_def mem_view_def ex_broker_def)

theorem services_share_streams_witness:
  "\<exists>s'. boots ex_deployment [(TenancyService, ex_host ex_tenv), (UploadService, ex_host ex_uenv2), (OrchestratorService, ex_host ex_oenv)] ex_site =
       ([TenancyService, UploadService, OrchestratorService], s') \<and>
     br_consumers (mem_view (site_broker s')) (ftStreamName, cc_Durable landed_consumer) = Some landed_consumer \<and>
     needs TenancyService (mem_view (site_broker s'))"
proof -
  obtain p d where t: "Tenancy_main ex_deployment (ex_host ex_tenv) ex_site =
    (Inr p, ex_site\<lparr>site_ten := d, site_broker := ex_broker [ex_ft] [ex_bound]\<rparr>)" using ex_tenancy_up by blast
  obtain q where u: "Upload_main ex_deployment (ex_host ex_uenv2) (ex_site\<lparr>site_ten := d, site_broker := ex_broker [ex_ft] [ex_bound]\<rparr>) =
    (Inr q, ex_site\<lparr>site_ten := d, site_broker := ex_broker [ex_ft, ex_ft] [ex_bound]\<rparr>)" using ex_upload_up by blast
  obtain r s' where "Orch_run ex_deployment (ex_host ex_oenv) (ex_site\<lparr>site_ten := d, site_broker := ex_broker [ex_ft, ex_ft] [ex_bound]\<rparr>) =
    (Inr r, s')" using ex_orch_up by blast
  with t u have run: "boots ex_deployment [(TenancyService, ex_host ex_tenv), (UploadService, ex_host ex_uenv2), (OrchestratorService, ex_host ex_oenv)]
      ex_site = ([TenancyService, UploadService, OrchestratorService], s')"
    by (simp add: boot_def)
  have "jetstream (dp_js ex_deployment) mem_view" by (simp add: ex_deployment_def mem_jetstream.jetstream_axioms)
  moreover have "layout (mem_view (site_broker ex_site))" by (simp add: ex_site_def ex_layout)
  ultimately have "br_consumers (mem_view (site_broker s')) (ftStreamName, cc_Durable landed_consumer) = Some landed_consumer \<and>
      needs TenancyService (mem_view (site_broker s'))"
    using services_share_streams [OF _ _ run refl, of mem_view] by simp
  then show ?thesis using run by blast
qed

lemma ex_telemetry_up: "\<exists>p. Tel_run (ex_host ex_kenv) (Inr ex_stat0) (Some ''no library'') (Inr 0) None True (\<lambda>_. True) = Inr p"
proof -
  obtain cfg where cfg: "Tel_Load ex_url_parse ex_kenv = Inr cfg" using ex_telemetry by blast
  obtain cpu where "NewCPU (Inr ex_stat0) = Inr cpu" using cpu_read_exact [OF ex_stat_numbers(1)] by (simp add: NewCPU_def)
  then show ?thesis using cfg Tel_Load_limits [OF cfg] by (simp add: Tel_run_def ex_host_def NewNVML_def Let_def list_all_iff)
qed

theorem serving_is_checked_witness:
  "\<exists>pt po pu pk s1 s2 s3.
     Tenancy_main ex_deployment (ex_host ex_tenv) ex_site = (Inr pt, s1) \<and> Upload_main ex_deployment (ex_host ex_uenv2) s1 = (Inr pu, s2) \<and>
     Orch_run ex_deployment (ex_host ex_oenv) s2 = (Inr po, s3) \<and>
     Tel_run (ex_host ex_kenv) (Inr ex_stat0) (Some ''no library'') (Inr 0) None True (\<lambda>_. True) = Inr pk \<and>
     schema_current ex_entries (site_ten s1) \<and> schema_current ex_entries (site_orch s3) \<and> sc_Slots (po_sched po) \<in> {1..64} \<and>
     ChunkSizeBytes \<le> g_ceiling (pu_gauge pu) \<and> hb_bufSize (th_hardware (pk_hubs pk)) \<in> {16..4096}"
proof -
  obtain pt d where t: "Tenancy_main ex_deployment (ex_host ex_tenv) ex_site =
    (Inr pt, ex_site\<lparr>site_ten := d, site_broker := ex_broker [ex_ft] [ex_bound]\<rparr>)" (is "_ = (_, ?s1)") using ex_tenancy_up by blast
  obtain pu where u: "Upload_main ex_deployment (ex_host ex_uenv2) ?s1 =
    (Inr pu, ex_site\<lparr>site_ten := d, site_broker := ex_broker [ex_ft, ex_ft] [ex_bound]\<rparr>)" (is "_ = (_, ?s2)") using ex_upload_up by blast
  obtain po s3 where r: "Orch_run ex_deployment (ex_host ex_oenv) ?s2 = (Inr po, s3)" using ex_orch_up by blast
  obtain pk where k: "Tel_run (ex_host ex_kenv) (Inr ex_stat0) (Some ''no library'') (Inr 0) None True (\<lambda>_. True) = Inr pk"
    using ex_telemetry_up by blast
  have files: "dp_ten_files ex_deployment = ex_entries" "dp_orch_files ex_deployment = ex_entries" by (simp_all add: ex_deployment_def)
  have "schema_current ex_entries (site_ten ?s1)"
    using serving_is_checked [of ex_deployment "ex_host ex_tenv" ex_site _ _ pt ?s1] t files by simp
  moreover have "schema_current ex_entries (site_orch s3)" "sc_Slots (po_sched po) \<in> {1..64}"
    using serving_is_checked [of ex_deployment "ex_host ex_oenv" ?s2 po s3] r files by simp_all
  moreover have "ChunkSizeBytes \<le> g_ceiling (pu_gauge pu)"
    using serving_is_checked [of ex_deployment "ex_host ex_uenv2" ?s1 _ _ _ _ pu ?s2] u by simp
  moreover have "hb_bufSize (th_hardware (pk_hubs pk)) \<in> {16..4096}"
    using serving_is_checked [of ex_deployment "ex_host ex_kenv" ex_site _ _ _ _ _ _ "Inr ex_stat0" "Some ''no library''" "Inr 0" None True "\<lambda>_. True" pk] k
    by simp
  ultimately show ?thesis using t u r k by blast
qed

end
