(* ===== verification/Routes.thy ===== *)
theory Routes
  imports Startup UploadScope TenAccess
begin

text \<open>
  The HTTP surface of the four services as a whole: which handler a request reaches and what stands
  in front of it. \<open>Handler\<close> of \<open>orchestrator/internal/httpapi/api.go\<close>, \<open>Routes\<close> and the request log of
  \<open>upload/server.go\<close> and \<open>tenancy/server.go\<close>, and the handler that \<open>New\<close> of
  \<open>telemetry/internal/server/server.go\<close> returns. The route tables are written with the patterns of
  the source and searched by the multiplexer of \<open>ServeMux\<close>. The JSON decoders are parameters, as
  in \<open>Boundary\<close>; those that read from the network see the bytes and whether the connection broke.
\<close>

type_synonym ('i, 's, 'r) endpoint = "(string \<Rightarrow> string) \<Rightarrow> http_request \<Rightarrow> 'i option \<Rightarrow> 's \<Rightarrow> 'r \<times> 's"

text \<open>What a multiplexer does with a request, given how its own answers are written.\<close>

definition dispatch ::
  "(mux_reply \<Rightarrow> 'r) \<Rightarrow> ('i, 's, 'r) endpoint route list \<Rightarrow> http_request \<Rightarrow> 'i option \<Rightarrow> 's \<Rightarrow> 'r \<times> 's" where
  "dispatch own rs q ident =
     (case mux_serve rs q of Inl m \<Rightarrow> ret (own m) | Inr (h, pv) \<Rightarrow> h pv q ident)"

section \<open>Orchestrator (api.go)\<close>

record orch_decoders =
  od_job :: "string \<Rightarrow> createJobRequest json_in"
  od_preset :: "string \<Rightarrow> presetBody json_in"
  od_patch :: "string \<Rightarrow> presetPatch json_in"

text \<open>The body is read in full, up to one MiB, before it is decoded.\<close>

definition orch_body :: "(string \<Rightarrow> 'a json_in) \<Rightarrow> http_request \<Rightarrow> 'a json_in" where
  "orch_body dec q = (if rq_Broken q \<or> length (rq_Body q) > 2 ^ 20 then JsonUnreadable else dec (rq_Body q))"

definition orch_mux ::
  "API \<Rightarrow> (string \<Rightarrow> bool) \<Rightarrow> orch_decoders \<Rightarrow> (Identity, orch, api_resp) endpoint route list" where
  "orch_mux a uuid_ok dec = mux_of
     [(''GET /v1/jobs'', \<lambda>pv q ident. listJobs ident (query_Get ''state'' (rq_Query q))),
      (''POST /v1/jobs'', \<lambda>pv q ident. createJob a uuid_ok ident (orch_body (od_job dec) q)),
      (''GET /v1/jobs/{id}'', \<lambda>pv q ident. getJob uuid_ok ident (pv ''id'')),
      (''POST /v1/jobs/{id}/retry'', \<lambda>pv q ident. retryJob a uuid_ok ident (pv ''id'')),
      (''DELETE /v1/jobs/{id}'', \<lambda>pv q ident. cancelJob a uuid_ok ident (pv ''id'')),
      (''GET /v1/presets'', \<lambda>pv q ident. listPresets ident),
      (''POST /v1/presets'', \<lambda>pv q ident. createPreset ident (orch_body (od_preset dec) q)),
      (''GET /v1/presets/{id}'', \<lambda>pv q ident. getPreset uuid_ok ident (pv ''id'')),
      (''PATCH /v1/presets/{id}'', \<lambda>pv q ident. patchPreset uuid_ok ident (pv ''id'') (orch_body (od_patch dec) q))]"

definition Orch_Handler ::
  "(string \<Rightarrow> string \<Rightarrow> (string \<times> string) option) \<Rightarrow> string \<Rightarrow> API \<Rightarrow> (string \<Rightarrow> bool) \<Rightarrow> orch_decoders \<Rightarrow>
   http_request \<Rightarrow> orch \<Rightarrow> api_resp \<times> orch" where
  "Orch_Handler parse key a uuid_ok dec q =
     Middleware parse key (rq_Header q ''Authorization'') (\<lambda>i.
       dispatch (\<lambda>m. (mux_status m, BMux m)) (orch_mux a uuid_ok dec) q (Some i))"

section \<open>The request log (server.go of upload and tenancy)\<close>

text \<open>One line per request; its duration is left out.\<close>

record 'i log_line =
  ll_RequestID :: string
  ll_Method :: string
  ll_Path :: string
  ll_Status :: int
  ll_Identity :: "'i option"

text \<open>
  \<open>rid\<close> is what the generator of request ids yields: without entropy it panics before the request is
  looked at. A handler that panics takes the log line with it. The answer carries the request id.
\<close>

definition log_request ::
  "string option \<Rightarrow> ('b \<Rightarrow> bool) \<Rightarrow> http_request \<Rightarrow> ('s \<Rightarrow> ('i option \<times> int \<times> 'b) \<times> 's) \<Rightarrow>
   's \<times> 'i log_line list \<Rightarrow> (string \<times> int \<times> 'b) option \<times> 's \<times> 'i log_line list" where
  "log_request rid panicked q next s =
     (case rid of
        None \<Rightarrow> (None, s)
      | Some i \<Rightarrow>
          (case next (fst s) of
             ((ident, status, body), w) \<Rightarrow>
               if panicked body then (None, w, snd s)
               else (Some (i, status, body), w,
                     snd s @ [\<lparr>ll_RequestID = i, ll_Method = rq_Method q, ll_Path = rq_Path q, ll_Status = status,
                               ll_Identity = ident\<rparr>])))"

text \<open>A handler outside the authenticated group logs no identity.\<close>

definition anonymously :: "('s \<Rightarrow> 'r \<times> 's) \<Rightarrow> 's \<Rightarrow> ('i option \<times> 'r) \<times> 's" where
  "anonymously f = and_then f (\<lambda>r. ret (None, r))"

section \<open>Upload (server.go)\<close>

definition chunk_request :: "(string \<Rightarrow> string) \<Rightarrow> http_request \<Rightarrow> chunkRequest" where
  "chunk_request pv q =
     \<lparr>kq_Index = pv ''n'', kq_ContentLength = rq_ContentLength q, kq_Sha = rq_Header q ''X-Chunk-Sha256'',
      kq_Bytes = rq_Body q, kq_Broken = rq_Broken q\<rparr>"

definition upload_api ::
  "'b Server \<Rightarrow> (string \<Rightarrow> string) \<Rightarrow> (string \<Rightarrow> string option) \<Rightarrow> (string \<Rightarrow> bool \<Rightarrow> createRequest json_in) \<Rightarrow>
   (UpIdentity, 'b upl, up_resp) endpoint route list" where
  "upload_api sv sha uuid_parse dec = mux_of
     [(''POST /v1/uploads'', \<lambda>pv q ident. handleCreate sv ident (dec (rq_Body q) (rq_Broken q))),
      (''GET /v1/uploads/{id}'', \<lambda>pv q ident. handleGet uuid_parse ident (pv ''id'')),
      (''PUT /v1/uploads/{id}/chunks/{n}'', \<lambda>pv q ident. handlePutChunk sv sha uuid_parse ident (pv ''id'') (chunk_request pv q)),
      (''POST /v1/uploads/{id}/complete'', \<lambda>pv q ident. handleComplete sv sha uuid_parse ident (pv ''id'')),
      (''DELETE /v1/uploads/{id}'', \<lambda>pv q ident. handleCancel sv uuid_parse ident (pv ''id''))]"

record upload_auth =
  ua_lib :: token_lib
  ua_key :: string

text \<open>\<open>now\<close> is the reading of the clock the token is checked against.\<close>

definition upload_protected ::
  "upload_auth \<Rightarrow> int \<Rightarrow> (UpIdentity, 'b upl, up_resp) endpoint route list \<Rightarrow> http_request \<Rightarrow>
   'b upl \<Rightarrow> (UpIdentity option \<times> up_resp) \<times> 'b upl" where
  "upload_protected au now api q =
     (case AuthMiddleware (ua_lib au) (ua_key au) (rq_Header q ''Authorization'') now of
        Inl msg \<Rightarrow> ret (None, uerr 401 ''unauthorized'' msg)
      | Inr i \<Rightarrow> and_then (dispatch (\<lambda>m. (mux_status m, UMux m)) api q (Some i)) (\<lambda>r. ret (Some i, r)))"

definition upload_root ::
  "upload_auth \<Rightarrow> int \<Rightarrow> (UpIdentity, 'b upl, up_resp) endpoint route list \<Rightarrow>
   (unit, 'b upl, UpIdentity option \<times> up_resp) endpoint route list" where
  "upload_root au now api = mux_of
     [(''GET /healthz'', \<lambda>pv q _. anonymously (ret (200, UOk))),
      (''/v1/'', \<lambda>pv q _. upload_protected au now api q)]"

definition requestLogger ::
  "string option \<Rightarrow> http_request \<Rightarrow> ('b upl \<Rightarrow> (UpIdentity option \<times> up_resp) \<times> 'b upl) \<Rightarrow>
   'b upl \<times> UpIdentity log_line list \<Rightarrow> (string \<times> up_resp) option \<times> 'b upl \<times> UpIdentity log_line list" where
  "requestLogger rid q next = log_request rid (\<lambda>_. False) q next"

definition Upload_Routes ::
  "'b Server \<Rightarrow> (string \<Rightarrow> string) \<Rightarrow> (string \<Rightarrow> string option) \<Rightarrow> (string \<Rightarrow> bool \<Rightarrow> createRequest json_in) \<Rightarrow>
   upload_auth \<Rightarrow> string option \<Rightarrow> int \<Rightarrow> http_request \<Rightarrow> 'b upl \<times> UpIdentity log_line list \<Rightarrow>
   (string \<times> up_resp) option \<times> 'b upl \<times> UpIdentity log_line list" where
  "Upload_Routes sv sha uuid_parse dec au rid now q =
     requestLogger rid q
       (dispatch (\<lambda>m. (None, mux_status m, UMux m)) (upload_root au now (upload_api sv sha uuid_parse dec)) q None)"

section \<open>Tenancy (server.go)\<close>

record ten_decoders =
  td_workspace :: "string \<Rightarrow> bool \<Rightarrow> string json_in"
  td_switch :: "string \<Rightarrow> bool \<Rightarrow> string json_in"
  td_member :: "string \<Rightarrow> bool \<Rightarrow> addMemberRequest json_in"
  td_role :: "string \<Rightarrow> bool \<Rightarrow> string json_in"
  td_apikey :: "string \<Rightarrow> bool \<Rightarrow> string json_in"
  td_quota_upload :: "string \<Rightarrow> bool \<Rightarrow> quotaUploadRequest json_in"
  td_quota_job :: "string \<Rightarrow> bool \<Rightarrow> string json_in"
  td_refresh :: "string \<Rightarrow> string json_in"
  td_token :: "string \<Rightarrow> string json_in"

definition maxBodyBytes :: nat where
  "maxBodyBytes = 2 ^ 20"

definition optional_body :: "(string \<Rightarrow> 'a json_in) \<Rightarrow> http_request \<Rightarrow> 'a json_in option" where
  "optional_body dec q =
     (if rq_Broken q \<or> length (rq_Body q) > maxBodyBytes then Some JsonUnreadable
      else if trim_space (rq_Body q) = [] then None else Some (dec (rq_Body q)))"

definition refreshCookieName :: string where
  "refreshCookieName = ''aether_refresh''"

definition ten_api :: "TenServer \<Rightarrow> ten_decoders \<Rightarrow> (TenIdentity, ten, ten_resp) endpoint route list" where
  "ten_api sv dec = mux_of
     [(''GET /v1/me'', \<lambda>pv q ident. handleMe ident),
      (''POST /v1/workspaces'', \<lambda>pv q ident. handleCreateWorkspace sv ident (td_workspace dec (rq_Body q) (rq_Broken q))),
      (''GET /v1/workspaces'', \<lambda>pv q ident. handleListWorkspaces ident),
      (''GET /v1/workspaces/active'', \<lambda>pv q ident. handleActiveWorkspace ident),
      (''POST /v1/workspaces/switch'', \<lambda>pv q ident. handleSwitchWorkspace sv ident (td_switch dec (rq_Body q) (rq_Broken q))),
      (''GET /v1/workspaces/{id}/members'', \<lambda>pv q ident. handleListMembers ident (pv ''id'')),
      (''POST /v1/workspaces/{id}/members'', \<lambda>pv q ident. handleAddMember ident (pv ''id'') (td_member dec (rq_Body q) (rq_Broken q))),
      (''PATCH /v1/workspaces/{id}/members/{userId}'',
         \<lambda>pv q ident. handleUpdateMemberRole ident (pv ''id'') (pv ''userId'') (td_role dec (rq_Body q) (rq_Broken q))),
      (''DELETE /v1/workspaces/{id}/members/{userId}'', \<lambda>pv q ident. handleRemoveMember ident (pv ''id'') (pv ''userId'')),
      (''POST /v1/apikeys'', \<lambda>pv q ident. handleCreateAPIKey sv ident (td_apikey dec (rq_Body q) (rq_Broken q))),
      (''GET /v1/apikeys'', \<lambda>pv q ident. handleListAPIKeys ident),
      (''DELETE /v1/apikeys/{id}'', \<lambda>pv q ident. handleRevokeAPIKey ident (pv ''id'')),
      (''GET /v1/usage'', \<lambda>pv q ident. handleUsage sv ident)]"

definition ten_internal :: "TenServer \<Rightarrow> ten_decoders \<Rightarrow> (TenIdentity, ten, ten_resp) endpoint route list" where
  "ten_internal sv dec = mux_of
     [(''POST /internal/v1/quota/check-upload-session'',
         \<lambda>pv q _. handleQuotaCheckUpload sv (td_quota_upload dec (rq_Body q) (rq_Broken q))),
      (''POST /internal/v1/quota/check-job-admission'',
         \<lambda>pv q _. handleQuotaCheckJob sv (td_quota_job dec (rq_Body q) (rq_Broken q)))]"

abbreviation ten_mux_resp :: "mux_reply \<Rightarrow> ten_resp" where
  "ten_mux_resp m \<equiv> (mux_status m, TMux m)"

definition ten_protected ::
  "TenServer \<Rightarrow> ten_decoders \<Rightarrow> http_request \<Rightarrow> ten \<Rightarrow> (TenIdentity option \<times> ten_resp) \<times> ten" where
  "ten_protected sv dec q =
     and_then (authMiddleware sv (rq_Header q ''Authorization'') (rq_Header q ''X-API-Key'')) (\<lambda>r. case r of
       Inl resp \<Rightarrow> ret (None, resp)
     | Inr i \<Rightarrow> and_then (dispatch ten_mux_resp (ten_api sv dec) q (Some i)) (\<lambda>r. ret (Some i, r)))"

definition ten_root ::
  "TenServer \<Rightarrow> provider \<Rightarrow> ten_decoders \<Rightarrow> (unit, ten, TenIdentity option \<times> ten_resp) endpoint route list" where
  "ten_root sv prov dec = mux_of
     [(''GET /healthz'', \<lambda>pv q _. anonymously (ret (200, TOk))),
      (''GET /v1/auth/login'', \<lambda>pv q _. anonymously (handleLogin sv)),
      (''GET /v1/auth/callback'', \<lambda>pv q _. anonymously (handleCallback sv prov
         \<lparr>cq_error = query_Get ''error'' (rq_Query q), cq_state = query_Get ''state'' (rq_Query q),
          cq_code = query_Get ''code'' (rq_Query q)\<rparr>)),
      (''POST /v1/auth/refresh'', \<lambda>pv q _. anonymously (handleRefresh sv (optional_body (td_refresh dec) q) (rq_Cookie q refreshCookieName))),
      (''POST /v1/auth/logout'', \<lambda>pv q _. anonymously (handleLogout sv (optional_body (td_refresh dec) q) (rq_Cookie q refreshCookieName))),
      (''POST /v1/auth/token'', \<lambda>pv q _. anonymously (handleAPIKeyToken sv (rq_Header q ''X-API-Key'') (optional_body (td_token dec) q))),
      (''/v1/'', \<lambda>pv q _. ten_protected sv dec q),
      (''/internal/v1/'', \<lambda>pv q _. anonymously (internalAuthMiddleware sv (rq_Header q ''X-Internal-Token'')
         (dispatch ten_mux_resp (ten_internal sv dec) q None)))]"

definition Ten_requestLogger ::
  "string option \<Rightarrow> http_request \<Rightarrow> (ten \<Rightarrow> (TenIdentity option \<times> ten_resp) \<times> ten) \<Rightarrow>
   ten \<times> TenIdentity log_line list \<Rightarrow> (string \<times> ten_resp) option \<times> ten \<times> TenIdentity log_line list" where
  "Ten_requestLogger rid q next = log_request rid (\<lambda>b. b = TAbort) q next"

definition Ten_Routes ::
  "TenServer \<Rightarrow> provider \<Rightarrow> ten_decoders \<Rightarrow> string option \<Rightarrow> http_request \<Rightarrow> ten \<times> TenIdentity log_line list \<Rightarrow>
   (string \<times> ten_resp) option \<times> ten \<times> TenIdentity log_line list" where
  "Ten_Routes sv prov dec rid q =
     Ten_requestLogger rid q (dispatch (\<lambda>m. (None, ten_mux_resp m)) (ten_root sv prov dec) q None)"

section \<open>Telemetry (server.go)\<close>

definition tel_mux :: "tel_route route list" where
  "tel_mux = mux_of
     [(''GET /healthz'', Healthz), (''GET /v1/streams/hardware'', StreamHardware),
      (''GET /v1/streams/jobs'', StreamJobs), (''GET /v1/streams/logs'', StreamLogs)]"

definition Tel_Handler ::
  "(string \<Rightarrow> string \<Rightarrow> (string \<times> string) option) \<Rightarrow> string \<Rightarrow> (string \<times> string) list option \<Rightarrow>
   hw_payload Event list \<times> job_payload Event list \<times> LogStreamEvent Event list \<Rightarrow> bool \<Rightarrow>
   http_request \<Rightarrow> tel_hubs \<Rightarrow> tel_resp \<times> tel_hubs" where
  "Tel_Handler parse key health order flusher q =
     (case mux_serve tel_mux q of
        Inl m \<Rightarrow> ret (TelMux m)
      | Inr (route, _) \<Rightarrow>
          serve parse key health order route
            \<lparr>tr_authorization = rq_Header q ''Authorization'', tr_query = rq_Query q, tr_flusher = flusher\<rparr>)"

section \<open>Which handlers a request can reach\<close>

lemma mux_of_mem: "r \<in> set (mux_of ps) \<Longrightarrow> \<exists>p. (p, rt_handler r) \<in> set ps \<and> r = parsePattern (p, rt_handler r)"
proof -
  have h: "rt_handler (parsePattern x) = snd x" for x :: "string \<times> 'a" by (simp add: parsePattern_def split: prod.splits)
  assume "r \<in> set (mux_of ps)"
  then obtain x where "x \<in> set ps" "r = parsePattern x" by (auto simp: mux_of_def)
  then show ?thesis using h by (metis prod.collapse)
qed

text \<open>Whatever holds of the multiplexer's own answers and of every handler of the table holds of the table.\<close>

lemma dispatch_all:
  assumes "rs = mux_of ps" "\<And>m. P (ret (own m))" "list_all (\<lambda>x. \<forall>pv. P (snd x pv q ident)) ps"
  shows "P (dispatch own rs q ident)"
proof (cases "mux_serve rs q")
  case (Inl m)
  then show ?thesis using assms(2) by (simp add: dispatch_def)
next
  case (Inr x)
  obtain h pv where x: "x = (h, pv)" by (cases x)
  obtain r where "r \<in> set rs" "h = rt_handler r" using mux_serve_sound [OF Inr [unfolded x]] by metis
  then obtain p where "(p, h) \<in> set ps" using mux_of_mem [of r ps] assms(1) by auto
  then have "P (h pv q ident)" using assms(3) by (auto simp: list_all_iff)
  then show ?thesis using Inr x by (simp add: dispatch_def)
qed

text \<open>The caller of a request, as the services see it.\<close>

definition orch_caller :: "(string \<Rightarrow> string \<Rightarrow> (string \<times> string) option) \<Rightarrow> string \<Rightarrow> http_request \<Rightarrow> Identity option" where
  "orch_caller parse key q =
     (if has_prefix ''Bearer '' (rq_Header q ''Authorization'')
      then Verify parse key (trim_prefix ''Bearer '' (rq_Header q ''Authorization'')) else None)"

lemma Orch_Handler_caller:
  "Orch_Handler parse key a uuid_ok dec q w =
     (case orch_caller parse key q of
        None \<Rightarrow> (writeError 401 (if has_prefix ''Bearer '' (rq_Header q ''Authorization'') then ''invalid bearer token'' else ''missing bearer token''), w)
      | Some i \<Rightarrow> dispatch (\<lambda>m. (mux_status m, BMux m)) (orch_mux a uuid_ok dec) q (Some i) w)"
  by (simp add: Orch_Handler_def Middleware_def orch_caller_def ret_def split: option.splits)

definition upload_caller :: "upload_auth \<Rightarrow> int \<Rightarrow> http_request \<Rightarrow> UpIdentity option" where
  "upload_caller au now q =
     (case AuthMiddleware (ua_lib au) (ua_key au) (rq_Header q ''Authorization'') now of Inl _ \<Rightarrow> None | Inr i \<Rightarrow> Some i)"

definition ten_caller :: "TenServer \<Rightarrow> http_request \<Rightarrow> ten \<Rightarrow> TenIdentity option" where
  "ten_caller sv q w =
     (case fst (authMiddleware sv (rq_Header q ''Authorization'') (rq_Header q ''X-API-Key'') w) of Inl _ \<Rightarrow> None | Inr i \<Rightarrow> Some i)"

end
