(* ===== verification/RouteTables.thy ===== *)
theory RouteTables
  imports Routes
begin

text \<open>
  The route tables of \<open>Routes\<close>, parsed and searched: for every route of the orchestrator, the
  upload service and tenancy, the lookup of a path of its form ends at its handler with the values
  of its wildcards. \<open>orch_reached\<close>, \<open>upload_reached\<close> and \<open>ten_reached\<close> carry this through the
  multiplexers and the middleware of each service.
\<close>

section \<open>The routes\<close>

text \<open>\<open>GET\<close> routes also serve \<open>HEAD\<close>.\<close>

definition serves :: "string \<Rightarrow> string \<Rightarrow> bool" where
  "serves p m \<longleftrightarrow> m = p \<or> m = ''HEAD'' \<and> p = ''GET''"

definition lookup ::
  "('i, 's, 'r) endpoint route list \<Rightarrow> http_request \<Rightarrow> string \<Rightarrow> string list \<Rightarrow> ('i option \<Rightarrow> 's \<Rightarrow> 'r \<times> 's) option" where
  "lookup rs q m segs = map_option (\<lambda>x. rt_handler (fst x) (PathValue x) q) (matchMethodAndPath rs m segs)"

lemma matchPath_no_routes [simp]: "matchPath [] segs = None"
  by (induction segs) (simp_all add: leaf_def lit_children_def wild_children_def)

lemmas table_defs = mux_of_def parsePattern_def parse_seg_def cut_def has_prefix_def pathUnescape_def pct_decode_plain

lemmas search_defs = lookup_def matchMethodAndPath_def of_method_def lit_children_def wild_children_def leaf_def PathValue_def serves_def

lemma lookup_hit:
  assumes "plain_request q m segs" "lookup rs q m segs = Some h"
    and "\<And>r vs. matchMethodAndPath rs m segs = Some (r, vs) \<Longrightarrow> last (rt_segs r) \<noteq> PMulti"
  shows "dispatch own rs q = h"
proof -
  obtain r vs where x: "matchMethodAndPath rs m segs = Some (r, vs)" "h = rt_handler r (PathValue (r, vs)) q"
    using assms(2) by (auto simp: lookup_def)
  from mux_hit [OF assms(1) x(1) assms(3) [OF x(1)]] show ?thesis using x(2) by (simp add: dispatch_def fun_eq_iff)
qed

text \<open>\<open>asks q p segs\<close>: a request for a plain path that a route with method \<open>p\<close> serves.\<close>

definition asks :: "http_request \<Rightarrow> string \<Rightarrow> string list \<Rightarrow> bool" where
  "asks q p segs \<longleftrightarrow> (\<exists>m. serves p m \<and> plain_request q m segs)"

lemma plain_not_slash: "plain_request q m segs \<Longrightarrow> x \<in> set segs \<Longrightarrow> x \<noteq> ''/''"
proof -
  assume "plain_request q m segs" "x \<in> set segs"
  then have "CHR ''/'' \<notin> set x" by (simp add: plain_request_def list_all_iff plain_seg_def)
  then show ?thesis by force
qed

lemma plain_slashes: "list_all plain_seg segs \<Longrightarrow> length (filter (\<lambda>c. c = CHR ''/'') (plain_path segs)) = length segs"
proof (induction segs)
  case (Cons s segs)
  then have "filter (\<lambda>c. c = CHR ''/'') s = []" by (auto simp: plain_seg_def filter_empty_conv)
  then show ?case using Cons by simp
qed simp

text \<open>A subtree with fewer segments than the path has takes the request.\<close>

lemma subtree_hit:
  assumes "plain_request q m segs" "lookup rs q m segs = Some h"
    and "\<And>r vs. matchMethodAndPath rs m (segs @ [''/'']) = Some (r, vs) \<Longrightarrow> last (rt_segs r) = PMulti \<and> length (rt_segs r) \<le> length segs"
  shows "dispatch own rs q = h"
proof -
  obtain r vs where x: "matchMethodAndPath rs m segs = Some (r, vs)" "h = rt_handler r (PathValue (r, vs)) q"
    using assms(2) by (auto simp: lookup_def)
  have p: "list_all plain_seg segs" using assms(1) by (simp add: plain_request_def)
  have "\<not> exactMatch (matchMethodAndPath rs m (segs @ [''/''])) (plain_path segs @ ''/'')"
    using assms(3) plain_slashes [OF p] by (fastforce simp: exactMatch_def split: option.splits)
  from mux_hit_subtree [OF assms(1) x(1) this] show ?thesis using x(2) by (simp add: dispatch_def fun_eq_iff)
qed

text \<open>Tables of routes that all name a method, but not \<open>HEAD\<close>, and have no subtrees.\<close>

definition flat :: "'h route list \<Rightarrow> bool" where
  "flat rs \<longleftrightarrow> list_all (\<lambda>r. last (rt_segs r) \<noteq> PMulti \<and> rt_method r \<noteq> ''HEAD'' \<and> rt_method r \<noteq> []) rs"

lemma flat_hit:
  assumes "flat rs" "asks q p segs" "\<forall>x \<in> set segs. x \<noteq> ''/'' \<Longrightarrow> lookup rs q p segs = Some h"
  shows "dispatch own rs q = h"
proof -
  obtain m where m: "serves p m" "plain_request q m segs" using assms(2) by (auto simp: asks_def)
  have none: "of_method ''HEAD'' rs = []" "of_method [] rs = []"
    using assms(1) by (auto simp: flat_def of_method_def filter_empty_conv list_all_iff)
  have "lookup rs q p segs = Some h" using assms(3) plain_not_slash [OF m(2)] by blast
  then have l: "lookup rs q m segs = Some h"
  proof (cases "m = p")
    case False
    then have "m = ''HEAD''" "p = ''GET''" using m(1) by (simp_all add: serves_def)
    then show ?thesis using \<open>lookup rs q p segs = Some h\<close> none
      by (auto simp: lookup_def matchMethodAndPath_def split: option.splits)
  qed simp
  show ?thesis
  proof (rule lookup_hit [OF m(2) l])
    fix r vs assume "matchMethodAndPath rs m segs = Some (r, vs)"
    from matchMethodAndPath_sound(1) [OF this] show "last (rt_segs r) \<noteq> PMulti" using assms(1) by (simp add: flat_def list_all_iff)
  qed
qed

text \<open>The table of the orchestrator, parsed.\<close>

lemma orch_table:
  "orch_mux a uuid_ok dec =
     [\<lparr>rt_method = ''GET'', rt_segs = [PLit ''v1'', PLit ''jobs''], rt_handler = \<lambda>pv q ident. listJobs ident (query_Get ''state'' (rq_Query q))\<rparr>,
      \<lparr>rt_method = ''POST'', rt_segs = [PLit ''v1'', PLit ''jobs''], rt_handler = \<lambda>pv q ident. createJob a uuid_ok ident (orch_body (od_job dec) q)\<rparr>,
      \<lparr>rt_method = ''GET'', rt_segs = [PLit ''v1'', PLit ''jobs'', PWild ''id''], rt_handler = \<lambda>pv q ident. getJob uuid_ok ident (pv ''id'')\<rparr>,
      \<lparr>rt_method = ''POST'', rt_segs = [PLit ''v1'', PLit ''jobs'', PWild ''id'', PLit ''retry''], rt_handler = \<lambda>pv q ident. retryJob a uuid_ok ident (pv ''id'')\<rparr>,
      \<lparr>rt_method = ''DELETE'', rt_segs = [PLit ''v1'', PLit ''jobs'', PWild ''id''], rt_handler = \<lambda>pv q ident. cancelJob a uuid_ok ident (pv ''id'')\<rparr>,
      \<lparr>rt_method = ''GET'', rt_segs = [PLit ''v1'', PLit ''presets''], rt_handler = \<lambda>pv q ident. listPresets ident\<rparr>,
      \<lparr>rt_method = ''POST'', rt_segs = [PLit ''v1'', PLit ''presets''], rt_handler = \<lambda>pv q ident. createPreset ident (orch_body (od_preset dec) q)\<rparr>,
      \<lparr>rt_method = ''GET'', rt_segs = [PLit ''v1'', PLit ''presets'', PWild ''id''], rt_handler = \<lambda>pv q ident. getPreset uuid_ok ident (pv ''id'')\<rparr>,
      \<lparr>rt_method = ''PATCH'', rt_segs = [PLit ''v1'', PLit ''presets'', PWild ''id''], rt_handler = \<lambda>pv q ident. patchPreset uuid_ok ident (pv ''id'') (orch_body (od_patch dec) q)\<rparr>]"
  unfolding orch_mux_def by (simp add: table_defs)

lemma orch_flat: "flat (orch_mux a uuid_ok dec)"
  unfolding orch_table flat_def by simp

lemma orch_lookups:
  "lookup (orch_mux a uuid_ok dec) q ''GET'' [''v1'', ''jobs''] = Some (\<lambda>ident. listJobs ident (query_Get ''state'' (rq_Query q)))"
  "lookup (orch_mux a uuid_ok dec) q ''POST'' [''v1'', ''jobs''] = Some (\<lambda>ident. createJob a uuid_ok ident (orch_body (od_job dec) q))"
  "i \<noteq> ''/'' \<Longrightarrow> lookup (orch_mux a uuid_ok dec) q ''GET'' [''v1'', ''jobs'', i] = Some (\<lambda>ident. getJob uuid_ok ident i)"
  "i \<noteq> ''/'' \<Longrightarrow> lookup (orch_mux a uuid_ok dec) q ''POST'' [''v1'', ''jobs'', i, ''retry''] = Some (\<lambda>ident. retryJob a uuid_ok ident i)"
  "i \<noteq> ''/'' \<Longrightarrow> lookup (orch_mux a uuid_ok dec) q ''DELETE'' [''v1'', ''jobs'', i] = Some (\<lambda>ident. cancelJob a uuid_ok ident i)"
  "lookup (orch_mux a uuid_ok dec) q ''GET'' [''v1'', ''presets''] = Some (\<lambda>ident. listPresets ident)"
  "lookup (orch_mux a uuid_ok dec) q ''POST'' [''v1'', ''presets''] = Some (\<lambda>ident. createPreset ident (orch_body (od_preset dec) q))"
  "i \<noteq> ''/'' \<Longrightarrow> lookup (orch_mux a uuid_ok dec) q ''GET'' [''v1'', ''presets'', i] = Some (\<lambda>ident. getPreset uuid_ok ident i)"
  "i \<noteq> ''/'' \<Longrightarrow> lookup (orch_mux a uuid_ok dec) q ''PATCH'' [''v1'', ''presets'', i] =
     Some (\<lambda>ident. patchPreset uuid_ok ident i (orch_body (od_patch dec) q))"
  unfolding orch_table by (simp_all add: search_defs)

lemma orch_reached:
  assumes "orch_caller parse key q = Some c" "asks q p segs" "\<forall>x \<in> set segs. x \<noteq> ''/'' \<Longrightarrow> lookup (orch_mux a uuid_ok dec) q p segs = Some h"
  shows "Orch_Handler parse key a uuid_ok dec q = h (Some c)"
  using flat_hit [OF orch_flat assms(2,3)] assms(1) by (simp add: fun_eq_iff Orch_Handler_caller)

lemma upload_table:
  "upload_api sv sha uuid_parse dec =
     [\<lparr>rt_method = ''POST'', rt_segs = [PLit ''v1'', PLit ''uploads''], rt_handler = \<lambda>pv q ident. handleCreate sv ident (dec (rq_Body q) (rq_Broken q))\<rparr>,
      \<lparr>rt_method = ''GET'', rt_segs = [PLit ''v1'', PLit ''uploads'', PWild ''id''], rt_handler = \<lambda>pv q ident. handleGet uuid_parse ident (pv ''id'')\<rparr>,
      \<lparr>rt_method = ''PUT'', rt_segs = [PLit ''v1'', PLit ''uploads'', PWild ''id'', PLit ''chunks'', PWild ''n''],
        rt_handler = \<lambda>pv q ident. handlePutChunk sv sha uuid_parse ident (pv ''id'') (chunk_request pv q)\<rparr>,
      \<lparr>rt_method = ''POST'', rt_segs = [PLit ''v1'', PLit ''uploads'', PWild ''id'', PLit ''complete''],
        rt_handler = \<lambda>pv q ident. handleComplete sv sha uuid_parse ident (pv ''id'')\<rparr>,
      \<lparr>rt_method = ''DELETE'', rt_segs = [PLit ''v1'', PLit ''uploads'', PWild ''id''], rt_handler = \<lambda>pv q ident. handleCancel sv uuid_parse ident (pv ''id'')\<rparr>]"
  unfolding upload_api_def by (simp add: table_defs)

lemma upload_flat: "flat (upload_api sv sha uuid_parse dec)"
  unfolding upload_table flat_def by simp

lemma upload_lookups:
  "lookup (upload_api sv sha uuid_parse dec) q ''POST'' [''v1'', ''uploads''] = Some (\<lambda>ident. handleCreate sv ident (dec (rq_Body q) (rq_Broken q)))"
  "i \<noteq> ''/'' \<Longrightarrow> lookup (upload_api sv sha uuid_parse dec) q ''GET'' [''v1'', ''uploads'', i] = Some (\<lambda>ident. handleGet uuid_parse ident i)"
  "i \<noteq> ''/'' \<Longrightarrow> n \<noteq> ''/'' \<Longrightarrow> lookup (upload_api sv sha uuid_parse dec) q ''PUT'' [''v1'', ''uploads'', i, ''chunks'', n] =
     Some (\<lambda>ident. handlePutChunk sv sha uuid_parse ident i
       \<lparr>kq_Index = n, kq_ContentLength = rq_ContentLength q, kq_Sha = rq_Header q ''X-Chunk-Sha256'', kq_Bytes = rq_Body q, kq_Broken = rq_Broken q\<rparr>)"
  "i \<noteq> ''/'' \<Longrightarrow> lookup (upload_api sv sha uuid_parse dec) q ''POST'' [''v1'', ''uploads'', i, ''complete''] =
     Some (\<lambda>ident. handleComplete sv sha uuid_parse ident i)"
  "i \<noteq> ''/'' \<Longrightarrow> lookup (upload_api sv sha uuid_parse dec) q ''DELETE'' [''v1'', ''uploads'', i] = Some (\<lambda>ident. handleCancel sv uuid_parse ident i)"
  unfolding upload_table by (simp_all add: search_defs chunk_request_def)

lemma upload_root_api:
  assumes "plain_request q m (''v1'' # x # xs)"
  shows "dispatch own (upload_root au now api) q = (\<lambda>_. upload_protected au now api q)"
proof (rule subtree_hit [OF assms])
  have s: "x \<noteq> ''/''" using plain_not_slash [OF assms] by simp
  then show "lookup (upload_root au now api) q m (''v1'' # x # xs) = Some (\<lambda>_. upload_protected au now api q)"
    unfolding upload_root_def by (auto simp: table_defs search_defs)
  fix r vs
  assume "matchMethodAndPath (upload_root au now api) m ((''v1'' # x # xs) @ [''/'']) = Some (r, vs)"
  then show "last (rt_segs r) = PMulti \<and> length (rt_segs r) \<le> length (''v1'' # x # xs)"
    unfolding upload_root_def by (auto simp: table_defs search_defs split: if_splits)
qed

lemma upload_reached:
  assumes "upload_caller au now q = Some c" "asks q p (''v1'' # x # xs)"
    and "\<forall>y \<in> set (''v1'' # x # xs). y \<noteq> ''/'' \<Longrightarrow> lookup (upload_api sv sha uuid_parse dec) q p (''v1'' # x # xs) = Some h"
  shows "Upload_Routes sv sha uuid_parse dec au rid now q = requestLogger rid q (and_then (h (Some c)) (\<lambda>r. ret (Some c, r)))"
proof -
  obtain m where m: "plain_request q m (''v1'' # x # xs)" using assms(2) by (auto simp: asks_def)
  have "upload_protected au now (upload_api sv sha uuid_parse dec) q = and_then (h (Some c)) (\<lambda>r. ret (Some c, r))"
    using assms(1) flat_hit [OF upload_flat assms(2,3)]
    by (auto simp: upload_protected_def upload_caller_def split: sum.splits)
  then show ?thesis by (simp add: Upload_Routes_def upload_root_api [OF m])
qed

section \<open>The routes of tenancy\<close>

lemma ten_table:
  "ten_api sv dec =
     [\<lparr>rt_method = ''GET'', rt_segs = [PLit ''v1'', PLit ''me''], rt_handler = \<lambda>pv q ident. handleMe ident\<rparr>,
      \<lparr>rt_method = ''POST'', rt_segs = [PLit ''v1'', PLit ''workspaces''], rt_handler = \<lambda>pv q ident. handleCreateWorkspace sv ident (td_workspace dec (rq_Body q) (rq_Broken q))\<rparr>,
      \<lparr>rt_method = ''GET'', rt_segs = [PLit ''v1'', PLit ''workspaces''], rt_handler = \<lambda>pv q ident. handleListWorkspaces ident\<rparr>,
      \<lparr>rt_method = ''GET'', rt_segs = [PLit ''v1'', PLit ''workspaces'', PLit ''active''], rt_handler = \<lambda>pv q ident. handleActiveWorkspace ident\<rparr>,
      \<lparr>rt_method = ''POST'', rt_segs = [PLit ''v1'', PLit ''workspaces'', PLit ''switch''], rt_handler = \<lambda>pv q ident. handleSwitchWorkspace sv ident (td_switch dec (rq_Body q) (rq_Broken q))\<rparr>,
      \<lparr>rt_method = ''GET'', rt_segs = [PLit ''v1'', PLit ''workspaces'', PWild ''id'', PLit ''members''], rt_handler = \<lambda>pv q ident. handleListMembers ident (pv ''id'')\<rparr>,
      \<lparr>rt_method = ''POST'', rt_segs = [PLit ''v1'', PLit ''workspaces'', PWild ''id'', PLit ''members''], rt_handler = \<lambda>pv q ident. handleAddMember ident (pv ''id'') (td_member dec (rq_Body q) (rq_Broken q))\<rparr>,
      \<lparr>rt_method = ''PATCH'', rt_segs = [PLit ''v1'', PLit ''workspaces'', PWild ''id'', PLit ''members'', PWild ''userId''], rt_handler = \<lambda>pv q ident. handleUpdateMemberRole ident (pv ''id'') (pv ''userId'') (td_role dec (rq_Body q) (rq_Broken q))\<rparr>,
      \<lparr>rt_method = ''DELETE'', rt_segs = [PLit ''v1'', PLit ''workspaces'', PWild ''id'', PLit ''members'', PWild ''userId''], rt_handler = \<lambda>pv q ident. handleRemoveMember ident (pv ''id'') (pv ''userId'')\<rparr>,
      \<lparr>rt_method = ''POST'', rt_segs = [PLit ''v1'', PLit ''apikeys''], rt_handler = \<lambda>pv q ident. handleCreateAPIKey sv ident (td_apikey dec (rq_Body q) (rq_Broken q))\<rparr>,
      \<lparr>rt_method = ''GET'', rt_segs = [PLit ''v1'', PLit ''apikeys''], rt_handler = \<lambda>pv q ident. handleListAPIKeys ident\<rparr>,
      \<lparr>rt_method = ''DELETE'', rt_segs = [PLit ''v1'', PLit ''apikeys'', PWild ''id''], rt_handler = \<lambda>pv q ident. handleRevokeAPIKey ident (pv ''id'')\<rparr>,
      \<lparr>rt_method = ''GET'', rt_segs = [PLit ''v1'', PLit ''usage''], rt_handler = \<lambda>pv q ident. handleUsage sv ident\<rparr>]"
  unfolding ten_api_def by (simp add: table_defs)

lemma ten_flat: "flat (ten_api sv dec)"
  unfolding ten_table flat_def by simp

lemma ten_lookups:
  "lookup (ten_api sv dec) q ''GET'' [''v1'', ''me''] = Some (\<lambda>ident. handleMe ident)"
  "lookup (ten_api sv dec) q ''POST'' [''v1'', ''workspaces''] = Some (\<lambda>ident. handleCreateWorkspace sv ident (td_workspace dec (rq_Body q) (rq_Broken q)))"
  "lookup (ten_api sv dec) q ''GET'' [''v1'', ''workspaces''] = Some (\<lambda>ident. handleListWorkspaces ident)"
  "lookup (ten_api sv dec) q ''GET'' [''v1'', ''workspaces'', ''active''] = Some (\<lambda>ident. handleActiveWorkspace ident)"
  "lookup (ten_api sv dec) q ''POST'' [''v1'', ''workspaces'', ''switch''] = Some (\<lambda>ident. handleSwitchWorkspace sv ident (td_switch dec (rq_Body q) (rq_Broken q)))"
  "i \<noteq> ''/'' \<Longrightarrow> lookup (ten_api sv dec) q ''GET'' [''v1'', ''workspaces'', i, ''members''] = Some (\<lambda>ident. handleListMembers ident i)"
  "i \<noteq> ''/'' \<Longrightarrow> lookup (ten_api sv dec) q ''POST'' [''v1'', ''workspaces'', i, ''members''] = Some (\<lambda>ident. handleAddMember ident i (td_member dec (rq_Body q) (rq_Broken q)))"
  "i \<noteq> ''/'' \<Longrightarrow> u \<noteq> ''/'' \<Longrightarrow> lookup (ten_api sv dec) q ''PATCH'' [''v1'', ''workspaces'', i, ''members'', u] = Some (\<lambda>ident. handleUpdateMemberRole ident i u (td_role dec (rq_Body q) (rq_Broken q)))"
  "i \<noteq> ''/'' \<Longrightarrow> u \<noteq> ''/'' \<Longrightarrow> lookup (ten_api sv dec) q ''DELETE'' [''v1'', ''workspaces'', i, ''members'', u] = Some (\<lambda>ident. handleRemoveMember ident i u)"
  "lookup (ten_api sv dec) q ''POST'' [''v1'', ''apikeys''] = Some (\<lambda>ident. handleCreateAPIKey sv ident (td_apikey dec (rq_Body q) (rq_Broken q)))"
  "lookup (ten_api sv dec) q ''GET'' [''v1'', ''apikeys''] = Some (\<lambda>ident. handleListAPIKeys ident)"
  "i \<noteq> ''/'' \<Longrightarrow> lookup (ten_api sv dec) q ''DELETE'' [''v1'', ''apikeys'', i] = Some (\<lambda>ident. handleRevokeAPIKey ident i)"
  "lookup (ten_api sv dec) q ''GET'' [''v1'', ''usage''] = Some (\<lambda>ident. handleUsage sv ident)"
  unfolding ten_table by (simp_all add: search_defs)

lemma seg_matches_lits: "seg_matches (map PLit ls) segs = (if segs = ls then Some [] else None)"
proof (induction ls arbitrary: segs)
  case Nil
  show ?case by (cases segs) simp_all
next
  case (Cons l ls)
  then show ?case by (cases segs) auto
qed

text \<open>Where no route of the request's method matches, a subtree for all methods takes over.\<close>

lemma only_subtrees:
  assumes "\<And>r. r \<in> set rs \<Longrightarrow> rt_method r \<noteq> [] \<Longrightarrow> serves (rt_method r) m \<Longrightarrow> seg_matches (rt_segs r) segs = None"
  shows "matchMethodAndPath rs m segs = matchPath (of_method [] rs) segs"
proof -
  have none: "matchPath (of_method n rs) segs = None" if "n \<noteq> []" "serves n m" for n
  proof (rule ccontr)
    assume "matchPath (of_method n rs) segs \<noteq> None"
    then obtain r vs where "matchPath (of_method n rs) segs = Some (r, vs)" by fastforce
    from matchPath_sound [OF this] show False using assms that by (fastforce simp: of_method_def)
  qed
  show ?thesis
  proof (cases "m = []")
    case True
    then show ?thesis by (simp add: matchMethodAndPath_def split: option.splits)
  next
    case False
    then have "matchPath (of_method m rs) segs = None" by (rule none) (simp add: serves_def)
    moreover have "m = ''HEAD'' \<Longrightarrow> matchPath (of_method ''GET'' rs) segs = None" by (rule none) (simp_all add: serves_def)
    ultimately show ?thesis by (simp add: matchMethodAndPath_def)
  qed
qed

lemma ten_root_table:
  "ten_root sv prov dec =
     [\<lparr>rt_method = ''GET'', rt_segs = [PLit ''healthz''], rt_handler = \<lambda>pv q _. anonymously (ret (200, TOk))\<rparr>,
      \<lparr>rt_method = ''GET'', rt_segs = [PLit ''v1'', PLit ''auth'', PLit ''login''], rt_handler = \<lambda>pv q _. anonymously (handleLogin sv)\<rparr>,
      \<lparr>rt_method = ''GET'', rt_segs = [PLit ''v1'', PLit ''auth'', PLit ''callback''], rt_handler = \<lambda>pv q _. anonymously (handleCallback sv prov
         \<lparr>cq_error = query_Get ''error'' (rq_Query q), cq_state = query_Get ''state'' (rq_Query q), cq_code = query_Get ''code'' (rq_Query q)\<rparr>)\<rparr>,
      \<lparr>rt_method = ''POST'', rt_segs = [PLit ''v1'', PLit ''auth'', PLit ''refresh''], rt_handler = \<lambda>pv q _. anonymously (handleRefresh sv (optional_body (td_refresh dec) q) (rq_Cookie q refreshCookieName))\<rparr>,
      \<lparr>rt_method = ''POST'', rt_segs = [PLit ''v1'', PLit ''auth'', PLit ''logout''], rt_handler = \<lambda>pv q _. anonymously (handleLogout sv (optional_body (td_refresh dec) q) (rq_Cookie q refreshCookieName))\<rparr>,
      \<lparr>rt_method = ''POST'', rt_segs = [PLit ''v1'', PLit ''auth'', PLit ''token''], rt_handler = \<lambda>pv q _. anonymously (handleAPIKeyToken sv (rq_Header q ''X-API-Key'') (optional_body (td_token dec) q))\<rparr>,
      \<lparr>rt_method = [], rt_segs = [PLit ''v1'', PMulti], rt_handler = \<lambda>pv q _. ten_protected sv dec q\<rparr>,
      \<lparr>rt_method = [], rt_segs = [PLit ''internal'', PLit ''v1'', PMulti], rt_handler = \<lambda>pv q _. anonymously
        (internalAuthMiddleware sv (rq_Header q ''X-Internal-Token'') (dispatch ten_mux_resp (ten_internal sv dec) q None))\<rparr>]"
  unfolding ten_root_def by (simp add: table_defs)

lemma ten_root_lookups:
  "lookup (ten_root sv prov dec) q ''GET'' [''healthz''] = Some (\<lambda>_. anonymously (ret (200, TOk)))"
  "lookup (ten_root sv prov dec) q ''HEAD'' [''healthz''] = Some (\<lambda>_. anonymously (ret (200, TOk)))"
  "lookup (ten_root sv prov dec) q ''GET'' [''v1'', ''auth'', ''login''] = Some (\<lambda>_. anonymously (handleLogin sv))"
  "lookup (ten_root sv prov dec) q ''HEAD'' [''v1'', ''auth'', ''login''] = Some (\<lambda>_. anonymously (handleLogin sv))"
  "lookup (ten_root sv prov dec) q ''GET'' [''v1'', ''auth'', ''callback''] = Some (\<lambda>_. anonymously (handleCallback sv prov
         \<lparr>cq_error = query_Get ''error'' (rq_Query q), cq_state = query_Get ''state'' (rq_Query q), cq_code = query_Get ''code'' (rq_Query q)\<rparr>))"
  "lookup (ten_root sv prov dec) q ''HEAD'' [''v1'', ''auth'', ''callback''] = Some (\<lambda>_. anonymously (handleCallback sv prov
         \<lparr>cq_error = query_Get ''error'' (rq_Query q), cq_state = query_Get ''state'' (rq_Query q), cq_code = query_Get ''code'' (rq_Query q)\<rparr>))"
  "lookup (ten_root sv prov dec) q ''POST'' [''v1'', ''auth'', ''refresh''] = Some (\<lambda>_. anonymously (handleRefresh sv (optional_body (td_refresh dec) q) (rq_Cookie q refreshCookieName)))"
  "lookup (ten_root sv prov dec) q ''POST'' [''v1'', ''auth'', ''logout''] = Some (\<lambda>_. anonymously (handleLogout sv (optional_body (td_refresh dec) q) (rq_Cookie q refreshCookieName)))"
  "lookup (ten_root sv prov dec) q ''POST'' [''v1'', ''auth'', ''token''] = Some (\<lambda>_. anonymously (handleAPIKeyToken sv (rq_Header q ''X-API-Key'') (optional_body (td_token dec) q)))"
  unfolding ten_root_table by (simp_all add: search_defs)

text \<open>The endpoints of the sign-in flow, which stand outside the authenticated group.\<close>

definition open_route :: "string \<Rightarrow> string list \<Rightarrow> bool" where
  "open_route m segs \<longleftrightarrow>
     serves ''GET'' m \<and> segs \<in> {[''v1'', ''auth'', ''login''], [''v1'', ''auth'', ''callback'']} \<or>
     m = ''POST'' \<and> segs \<in> {[''v1'', ''auth'', ''refresh''], [''v1'', ''auth'', ''logout''], [''v1'', ''auth'', ''token'']}"

lemmas lits = seg_matches_lits [of "[a]", simplified] seg_matches_lits [of "[a, b, c]", simplified] for a b c

lemma ten_root_subtrees:
  assumes "\<not> open_route m segs" "segs \<noteq> [''healthz'']"
  shows "matchMethodAndPath (ten_root sv prov dec) m segs = matchPath (of_method [] (ten_root sv prov dec)) segs"
proof (rule only_subtrees)
  fix r assume "r \<in> set (ten_root sv prov dec)" "rt_method r \<noteq> []" "serves (rt_method r) m"
  then show "seg_matches (rt_segs r) segs = None"
    using assms unfolding ten_root_table by (auto simp: lits open_route_def serves_def)
qed

lemma ten_subtrees_eval:
  "of_method [] (ten_root sv prov dec) = map (\<lambda>r. (rt_segs r, r)) (drop 6 (ten_root sv prov dec))"
  unfolding ten_root_table by (simp add: of_method_def)

lemma ten_root_hit:
  assumes "plain_request q m (''v1'' # x # xs)" "lookup (ten_root sv prov dec) q m (''v1'' # x # xs) = Some h"
  shows "dispatch own (ten_root sv prov dec) q = h"
proof (rule subtree_hit [OF assms])
  have o: "\<not> open_route m (''v1'' # x # xs @ [''/''])" by (auto simp: open_route_def append_eq_Cons_conv)
  fix r vs
  assume "matchMethodAndPath (ten_root sv prov dec) m ((''v1'' # x # xs) @ [''/'']) = Some (r, vs)"
  then show "last (rt_segs r) = PMulti \<and> length (rt_segs r) \<le> length (''v1'' # x # xs)"
    using plain_not_slash [OF assms(1), of x]
    by (simp add: ten_root_subtrees [unfolded ten_subtrees_eval, OF o]) (auto simp: ten_root_table search_defs)
qed

lemma ten_root_api:
  assumes "plain_request q m (''v1'' # x # xs)" "\<not> open_route m (''v1'' # x # xs)"
  shows "dispatch own (ten_root sv prov dec) q = (\<lambda>_. ten_protected sv dec q)"
proof (rule ten_root_hit [OF assms(1)])
  show "lookup (ten_root sv prov dec) q m (''v1'' # x # xs) = Some (\<lambda>_. ten_protected sv dec q)"
    using plain_not_slash [OF assms(1), of x]
    by (simp add: lookup_def ten_root_subtrees [unfolded ten_subtrees_eval, OF assms(2)]) (simp add: ten_root_table search_defs)
qed

lemma ten_root_internal:
  assumes "plain_request q m (''internal'' # ''v1'' # x # xs)"
  shows "dispatch own (ten_root sv prov dec) q = (\<lambda>_. anonymously
     (internalAuthMiddleware sv (rq_Header q ''X-Internal-Token'') (dispatch ten_mux_resp (ten_internal sv dec) q None)))"
proof (rule subtree_hit [OF assms])
  have o: "\<not> open_route m (''internal'' # ys)" for ys by (simp add: open_route_def)
  note sub = ten_root_subtrees [unfolded ten_subtrees_eval, OF o]
  show "lookup (ten_root sv prov dec) q m (''internal'' # ''v1'' # x # xs) = Some (\<lambda>_. anonymously
     (internalAuthMiddleware sv (rq_Header q ''X-Internal-Token'') (dispatch ten_mux_resp (ten_internal sv dec) q None)))"
    using plain_not_slash [OF assms, of x] by (simp add: lookup_def sub) (simp add: ten_root_table search_defs)
  fix r vs
  assume "matchMethodAndPath (ten_root sv prov dec) m ((''internal'' # ''v1'' # x # xs) @ [''/'']) = Some (r, vs)"
  then show "last (rt_segs r) = PMulti \<and> length (rt_segs r) \<le> length (''internal'' # ''v1'' # x # xs)"
    using plain_not_slash [OF assms, of x] by (simp add: sub) (auto simp: ten_root_table search_defs)
qed

lemma ten_internal_table:
  "ten_internal sv dec =
     [\<lparr>rt_method = ''POST'', rt_segs = map PLit [''internal'', ''v1'', ''quota'', ''check-upload-session''],
        rt_handler = \<lambda>pv q _. handleQuotaCheckUpload sv (td_quota_upload dec (rq_Body q) (rq_Broken q))\<rparr>,
      \<lparr>rt_method = ''POST'', rt_segs = map PLit [''internal'', ''v1'', ''quota'', ''check-job-admission''],
        rt_handler = \<lambda>pv q _. handleQuotaCheckJob sv (td_quota_job dec (rq_Body q) (rq_Broken q))\<rparr>]"
  unfolding ten_internal_def by (simp add: table_defs)

lemma ten_internal_flat: "flat (ten_internal sv dec)"
  unfolding ten_internal_table flat_def by simp

lemma ten_internal_lookups:
  "lookup (ten_internal sv dec) q ''POST'' [''internal'', ''v1'', ''quota'', ''check-upload-session''] =
     Some (\<lambda>_. handleQuotaCheckUpload sv (td_quota_upload dec (rq_Body q) (rq_Broken q)))"
  "lookup (ten_internal sv dec) q ''POST'' [''internal'', ''v1'', ''quota'', ''check-job-admission''] =
     Some (\<lambda>_. handleQuotaCheckJob sv (td_quota_job dec (rq_Body q) (rq_Broken q)))"
  unfolding ten_internal_table by (simp_all add: search_defs)

text \<open>What the log and the middleware make of a handler.\<close>

definition behind_auth ::
  "TenServer \<Rightarrow> http_request \<Rightarrow> (TenIdentity option \<Rightarrow> ten \<Rightarrow> ten_resp \<times> ten) \<Rightarrow> ten \<Rightarrow> (TenIdentity option \<times> ten_resp) \<times> ten" where
  "behind_auth sv q h =
     and_then (authMiddleware sv (rq_Header q ''Authorization'') (rq_Header q ''X-API-Key'')) (\<lambda>r. case r of
       Inl resp \<Rightarrow> ret (None, resp) | Inr i \<Rightarrow> and_then (h (Some i)) (\<lambda>r. ret (Some i, r)))"

lemma ten_reached:
  assumes "asks q p (''v1'' # x # xs)" "x \<noteq> ''auth''"
    and "\<forall>y \<in> set (''v1'' # x # xs). y \<noteq> ''/'' \<Longrightarrow> lookup (ten_api sv dec) q p (''v1'' # x # xs) = Some h"
  shows "Ten_Routes sv prov dec rid q = Ten_requestLogger rid q (behind_auth sv q h)"
proof -
  obtain m where m: "plain_request q m (''v1'' # x # xs)" using assms(1) by (auto simp: asks_def)
  have "\<not> open_route m (''v1'' # x # xs)" using assms(2) by (simp add: open_route_def)
  from ten_root_api [OF m this] show ?thesis
    by (simp add: Ten_Routes_def ten_protected_def behind_auth_def flat_hit [OF ten_flat assms(1,3)])
qed

lemma ten_open_reached:
  assumes "asks q p (''v1'' # x # xs)" "\<And>m. serves p m \<Longrightarrow> lookup (ten_root sv prov dec) q m (''v1'' # x # xs) = Some (\<lambda>_. h)"
  shows "Ten_Routes sv prov dec rid q = Ten_requestLogger rid q h"
  using assms ten_root_hit [of q _ x xs] by (fastforce simp: asks_def Ten_Routes_def)

lemma ten_internal_reached:
  assumes "asks q p (''internal'' # ''v1'' # x # xs)"
    and "lookup (ten_internal sv dec) q p (''internal'' # ''v1'' # x # xs) = Some (\<lambda>_. h)"
  shows "Ten_Routes sv prov dec rid q = Ten_requestLogger rid q (anonymously (internalAuthMiddleware sv (rq_Header q ''X-Internal-Token'') h))"
proof -
  obtain m where m: "plain_request q m (''internal'' # ''v1'' # x # xs)" using assms(1) by (auto simp: asks_def)
  show ?thesis using flat_hit [OF ten_internal_flat assms(1), of sv dec] assms(2)
    by (simp add: Ten_Routes_def ten_root_internal [OF m])
qed

end
