(* ===== verification/Edge.thy ===== *)
theory Edge
  imports RouteTables
begin

text \<open>
  What the services guarantee at their edge, for every HTTP request: the theorems about single
  handlers lifted through the route tables and the middleware.
\<close>

section \<open>Logged requests\<close>

lemma snd_anonymously [simp]: "snd (anonymously f w) = snd (f w)" "snd (fst (anonymously f w)) = fst (f w)"
  by (simp_all add: anonymously_def and_then_def ret_def split: prod.splits)

lemma log_request_state: "fst (snd (log_request rid p q next s)) = (if rid = None then fst s else snd (next (fst s)))"
  by (auto simp: log_request_def split: option.splits prod.splits)

lemma log_request_answer: "fst (log_request rid p q next (w, lines)) = Some (i, r) \<Longrightarrow> rid = Some i \<and> r = snd (fst (next w))"
  by (auto simp: log_request_def split: option.splits prod.splits if_splits)

text \<open>A request that is answered leaves exactly one line, with the status and the identity of the answer; any other none.\<close>

lemma log_request_lines:
  "snd (snd (log_request rid p q next s)) =
     (case fst (log_request rid p q next s) of
        None \<Rightarrow> snd s
      | Some (i, status, _) \<Rightarrow> snd s @ [\<lparr>ll_RequestID = i, ll_Method = rq_Method q, ll_Path = rq_Path q, ll_Status = status,
          ll_Identity = fst (fst (next (fst s)))\<rparr>])"
  by (auto simp: log_request_def split: option.splits prod.splits)

section \<open>Example requests\<close>

definition ex_request :: "string \<Rightarrow> string list \<Rightarrow> string \<Rightarrow> string \<Rightarrow> http_request" where
  "ex_request m segs authorization body =
     \<lparr>rq_Method = m, rq_RequestURI = plain_path segs, rq_EscapedPath = plain_path segs, rq_Path = plain_path segs, rq_RawQuery = [],
      rq_Query = [], rq_Header = (\<lambda>h. if h = ''Authorization'' then authorization else if h = ''X-Chunk-Sha256'' then ex_sha ''hi'' else []),
      rq_Cookie = (\<lambda>_. []), rq_ContentLength = int (length body), rq_Body = body, rq_Broken = False\<rparr>"

lemma ex_asks: "segs \<noteq> [] \<Longrightarrow> list_all plain_seg segs \<Longrightarrow> asks (ex_request m segs au body) m segs"
  by (cases segs) (auto simp: asks_def serves_def plain_request_def ex_request_def)

lemma ex_header [simp]: "rq_Header (ex_request m segs au body) ''Authorization'' = au" "rq_Header (ex_request m segs au body) ''X-API-Key'' = []"
  by (simp_all add: ex_request_def)

text \<open>A token library in which a token names the workspace, and an upload of two bytes.\<close>

definition ex_upload_auth :: upload_auth where
  "ex_upload_auth = \<lparr>ua_lib = \<lparr>b64 = Some, hmac = (\<lambda>_ _. ''s''), json_alg = Some,
      json_claims = (\<lambda>ws. Some \<lparr>tc_Sub = ''u'', tc_WorkspaceID = ws, tc_Exp = 100, tc_Nbf = 0\<rparr>)\<rparr>, ua_key = ''k''\<rparr>"

definition ex_create_body :: "string \<Rightarrow> bool \<Rightarrow> createRequest json_in" where
  "ex_create_body body broken = JsonValue \<lparr>cq_Filename = ''f'', cq_SizeBytes = 2, cq_Mime = ''v/m''\<rparr> []"

definition ex_after_create :: "mem upl \<times> UpIdentity log_line list" where
  "ex_after_create = snd (Upload_Routes ex_server ex_sha Some ex_create_body ex_upload_auth (Some ''r1'') 5
     (ex_request ''POST'' [''v1'', ''uploads''] ''Bearer HS256.ws.s'' []) (ex_empty, []))"

definition ex_after_put :: "mem upl \<times> UpIdentity log_line list" where
  "ex_after_put = snd (Upload_Routes ex_server ex_sha Some ex_create_body ex_upload_auth (Some ''r2'') 5
     (ex_request ''PUT'' [''v1'', ''uploads'', ''s1'', ''chunks'', ''0''] ''Bearer HS256.ws.s'' ''hi'') ex_after_create)"

lemma ex_callers:
  "upload_caller ex_upload_auth 5 (ex_request m segs ''Bearer HS256.ws.s'' body) = Some ex_caller"
  "upload_caller ex_upload_auth 5 (ex_request m segs ''Bearer HS256.other.s'' body) = Some \<lparr>ui_WorkspaceID = ''other'', ui_UserID = ''u''\<rparr>"
  by (simp_all add: upload_caller_def AuthMiddleware_def VerifyHS256_def check_claims_def ex_upload_auth_def has_prefix_def trim_prefix_def ex_caller_def)

lemma ex_served: "fst ex_after_create = ex_created" "fst ex_after_put = ex_uploaded"
proof -
  have q: "asks (ex_request ''POST'' [''v1'', ''uploads''] au b) ''POST'' [''v1'', ''uploads'']"
    "asks (ex_request ''PUT'' [''v1'', ''uploads'', ''s1'', ''chunks'', ''0''] au b) ''PUT'' [''v1'', ''uploads'', ''s1'', ''chunks'', ''0'']" for au b
    by (rule ex_asks; simp add: plain_seg_def)+
  show c: "fst ex_after_create = ex_created"
    unfolding ex_after_create_def upload_reached [OF ex_callers(1) q(1) upload_lookups(1)]
    by (simp add: requestLogger_def log_request_state snd_and_then ret_def ex_created_def ex_create_body_def)
  show "fst ex_after_put = ex_uploaded"
    unfolding ex_after_put_def upload_reached [OF ex_callers(1) q(2) upload_lookups(3) [of "''s1''" "''0''"], simplified]
    using c by (simp add: requestLogger_def log_request_state snd_and_then ret_def ex_uploaded_def ex_put_def ex_request_def)
qed

text \<open>A token library in which a token is the name of the user, and no bodies.\<close>

definition ex_route_server :: TenServer where
  "ex_route_server = ex_ten_server\<lparr>ts_lib := ex_lib\<lparr>jwt_parse := (\<lambda>_ _ t. Some \<lparr>ac_WorkspaceID = ''w1'', ac_Issuer = [], ac_Subject = t,
     ac_IssuedAt = 0, ac_NotBefore = 0, ac_ExpiresAt = 100, ac_ID = []\<rparr>)\<rparr>\<rparr>"

definition ex_ten_decoders :: ten_decoders where
  "ex_ten_decoders = \<lparr>td_workspace = (\<lambda>_ _. JsonUnreadable), td_switch = (\<lambda>_ _. JsonUnreadable), td_member = (\<lambda>_ _. JsonUnreadable),
     td_role = (\<lambda>_ _. JsonUnreadable), td_apikey = (\<lambda>_ _. JsonUnreadable), td_quota_upload = (\<lambda>_ _. JsonUnreadable),
     td_quota_job = (\<lambda>_ _. JsonUnreadable), td_refresh = (\<lambda>_. JsonUnreadable), td_token = (\<lambda>_. JsonUnreadable)\<rparr>"

section \<open>Orchestrator requests\<close>

lemma isolated_own: "isolated ws (ret (c, BMux m))"
  by (simp add: isolated_def ret_def)

text \<open>
  C6. Workspaces are isolated at the edge. Whatever request reaches the orchestrator, with whatever
  method, path, query and body: without an acceptable bearer token the answer is 401 and nothing
  changes; with a token of workspace \<open>W\<close> the jobs, presets and sources of all other workspaces stay
  exactly as they were, and no job and no preset that is not of \<open>W\<close> is returned, whichever storage
  calls fail.
\<close>

theorem orchestrator_isolates_workspaces:
  "case orch_caller parse key q of
     None \<Rightarrow> fst (fst (Orch_Handler parse key (deployed_api cfg) uuid_ok dec q w)) = 401 \<and>
             snd (Orch_Handler parse key (deployed_api cfg) uuid_ok dec q w) = w
   | Some i \<Rightarrow> others (id_WorkspaceID i) (snd (Orch_Handler parse key (deployed_api cfg) uuid_ok dec q w)) = others (id_WorkspaceID i) w \<and>
             owned (id_WorkspaceID i) (snd (fst (Orch_Handler parse key (deployed_api cfg) uuid_ok dec q w)))"
proof (cases "orch_caller parse key q")
  case None
  then show ?thesis by (simp add: Orch_Handler_caller)
next
  case (Some i)
  have "isolated (id_WorkspaceID i) (dispatch (\<lambda>m. (mux_status m, BMux m)) (orch_mux (deployed_api cfg) uuid_ok dec) q (Some i))"
    by (rule dispatch_all [OF orch_mux_def])
      (simp_all add: deployed_scoped.createJob_isolated deployed_scoped.retryJob_isolated deployed_scoped.cancelJob_isolated
        read_handlers_isolated preset_handlers_isolated isolated_own)
  then show ?thesis using Some by (simp add: Orch_Handler_caller isolated_def)
qed

section \<open>Upload requests\<close>

text \<open>Behind the root multiplexer: health, the multiplexer's own answers, or the API for the caller.\<close>

lemma upload_root_all:
  assumes "\<And>m. P (ret (None, mux_status m, UMux m))" "P (anonymously (ret (200, UOk)))"
    and "upload_caller au now q = None \<Longrightarrow> \<forall>msg. P (ret (None, uerr 401 ''unauthorized'' msg))"
    and "\<And>i. upload_caller au now q = Some i \<Longrightarrow>
      P (and_then (dispatch (\<lambda>m. (mux_status m, UMux m)) api q (Some i)) (\<lambda>r. ret (Some i, r)))"
  shows "P (dispatch (\<lambda>m. (None, mux_status m, UMux m)) (upload_root au now api) q None)"
proof (rule dispatch_all [OF upload_root_def])
  have "P (upload_protected au now api q)"
    using assms(3,4) by (auto simp: upload_protected_def upload_caller_def split: sum.splits)
  then show "list_all (\<lambda>x. \<forall>pv. P (snd x pv q None))
     [(''GET /healthz'', \<lambda>pv q _. anonymously (ret (200, UOk))), (''/v1/'', \<lambda>pv q _. upload_protected au now api q)]"
    using assms(2) by simp
qed (rule assms(1))

inductive upload_http ::
  "'b Server \<Rightarrow> (string \<Rightarrow> string) \<Rightarrow> (string \<Rightarrow> string option) \<Rightarrow> (string \<Rightarrow> bool \<Rightarrow> createRequest json_in) \<Rightarrow> upload_auth \<Rightarrow>
   'b upl \<times> UpIdentity log_line list \<Rightarrow> 'b upl \<times> UpIdentity log_line list \<Rightarrow> bool"
  for sv sha uuid_parse dec au where
  request: "upload_http sv sha uuid_parse dec au s (snd (Upload_Routes sv sha uuid_parse dec au rid now q s))"

lemma upload_request_step:
  "(upload_step sv sha uuid_parse)\<^sup>*\<^sup>* w (fst (snd (Upload_Routes sv sha uuid_parse dec au rid now q (w, lines))))"
proof -
  let ?P = "\<lambda>f. \<forall>w. (upload_step sv sha uuid_parse)\<^sup>*\<^sup>* w (snd (f w))"
  have api: "?P (dispatch (\<lambda>m. (mux_status m, UMux m)) (upload_api sv sha uuid_parse dec) q (Some i))" for i
    by (rule dispatch_all [OF upload_api_def]) (simp_all add: ret_def r_into_rtranclp upload_step.intros)
  have "?P (dispatch (\<lambda>m. (None, mux_status m, UMux m)) (upload_root au now (upload_api sv sha uuid_parse dec)) q None)"
    by (rule upload_root_all) (use api in \<open>simp_all add: ret_def snd_and_then\<close>)
  then show ?thesis by (simp add: Upload_Routes_def requestLogger_def log_request_state)
qed

lemma upload_http_run:
  "(upload_http sv sha uuid_parse dec au)\<^sup>*\<^sup>* s s' \<Longrightarrow> (upload_step sv sha uuid_parse)\<^sup>*\<^sup>* (fst s) (fst s')"
proof (induction rule: rtranclp_induct)
  case (step t u)
  from step(2) have "(upload_step sv sha uuid_parse)\<^sup>*\<^sup>* (fst t) (fst u)"
    using upload_request_step [of sv sha uuid_parse "fst t" dec au _ _ _ "snd t"] by cases auto
  then show ?case using step(3) by simp
qed simp

text \<open>
  C17. Workspaces do not see each other's uploads, at the edge. After any requests whatever, a
  request whose token is missing, unacceptable or of another workspace leaves the row and the
  chunk map of every session as they are, and a session is only ever shown to a caller whose token
  is of the session's workspace.
\<close>

theorem upload_isolates_workspaces:
  assumes "s3_service obj part cl bkt" "\<forall>x. hex64 (sha x)" "in_i64 maxObject"
    and "(upload_http (deployed_upload cl bkt cfg maxObject) sha uuid_parse dec au)\<^sup>*\<^sup>* (w0, lines0) (w, lines)" "fresh_upload obj w0"
    and "s \<in> set (u_sessions w)" "map_option ui_WorkspaceID (upload_caller au now q) \<noteq> Some (ss_WorkspaceID s)"
    and "Upload_Routes (deployed_upload cl bkt cfg maxObject) sha uuid_parse dec au rid now q (w, lines) = (resp, w', lines')"
  shows "s \<in> set (u_sessions w') \<and> chunks_of (ss_ID s) (u_chunks w') = chunks_of (ss_ID s) (u_chunks w) \<and>
    (\<forall>i r t. resp = Some (i, r) \<longrightarrow> shows_session r = Some t \<longrightarrow>
       map_option ui_WorkspaceID (upload_caller au now q) = Some (ss_WorkspaceID t))"
proof -
  let ?sv = "deployed_upload cl bkt cfg maxObject"
  let ?spared = "\<lambda>w'. s \<in> set (u_sessions w') \<and> chunks_of (ss_ID s) (u_chunks w') = chunks_of (ss_ID s) (u_chunks w)"
  let ?shown = "\<lambda>r. \<forall>t. shows_session r = Some t \<longrightarrow> map_option ui_WorkspaceID (upload_caller au now q) = Some (ss_WorkspaceID t)"
  have run: "(upload_step ?sv sha uuid_parse)\<^sup>*\<^sup>* w0 w" using upload_http_run [OF assms(4)] by simp
  have own: "?spared w" using assms(6) by simp
  let ?Q = "\<lambda>f. ?spared (snd (f w)) \<and> ?shown (snd (fst (f w)))"
  define P where "P f \<longleftrightarrow> ?spared (snd (f w)) \<and> ?shown (fst (f w))" for f :: "'a upl \<Rightarrow> up_resp \<times> 'a upl"
  have api: "P (dispatch (\<lambda>m. (mux_status m, UMux m)) (upload_api ?sv sha uuid_parse dec) q (Some i))"
    if i: "upload_caller au now q = Some i" for i
  proof -
    have "ui_WorkspaceID i \<noteq> ss_WorkspaceID s" using assms(7) i by simp
    note h = uploads_isolate_workspaces [OF assms(1-3) run assms(5,6) this]
    have hP: "P f" if "f = handleCreate ?sv (Some i) body \<or> f = handleGet uuid_parse (Some i) path \<or>
        f = handlePutChunk ?sv sha uuid_parse (Some i) path k \<or> f = handleComplete ?sv sha uuid_parse (Some i) path \<or>
        f = handleCancel ?sv uuid_parse (Some i) path" for f body path k
      using h [OF that] by (simp add: P_def i)
    have "P (handleCreate ?sv (Some i) body)" "P (handleGet uuid_parse (Some i) path)"
      "P (handlePutChunk ?sv sha uuid_parse (Some i) path k)" "P (handleComplete ?sv sha uuid_parse (Some i) path)"
      "P (handleCancel ?sv uuid_parse (Some i) path)" for body path k
      by (rule hP [of _ body path k], simp)+
    note handlers = this
    have own': "P (ret (mux_status m, UMux m))" for m using own by (simp add: P_def ret_def)
    show ?thesis by (rule dispatch_all [OF upload_api_def, where P = P]) (simp_all add: handlers own')
  qed
  have "?Q (dispatch (\<lambda>m. (None, mux_status m, UMux m)) (upload_root au now (upload_api ?sv sha uuid_parse dec)) q None)"
    by (rule upload_root_all) (use own api [unfolded P_def] in \<open>simp_all add: ret_def and_then_result\<close>)
  moreover have "w' = fst (snd (Upload_Routes ?sv sha uuid_parse dec au rid now q (w, lines)))"
    "resp = fst (Upload_Routes ?sv sha uuid_parse dec au rid now q (w, lines))" using assms(8) by simp_all
  ultimately show ?thesis using own log_request_answer
    by (fastforce simp: Upload_Routes_def requestLogger_def log_request_state)
qed

theorem upload_isolates_workspaces_witness:
  "UploadProps.ex_session \<in> set (u_sessions (fst (snd (Upload_Routes ex_server ex_sha Some ex_create_body ex_upload_auth (Some ''r3'') 5
     (ex_request ''DELETE'' [''v1'', ''uploads'', ''s1''] ''Bearer HS256.other.s'' []) ex_after_put))))"
proof -
  let ?q = "ex_request ''DELETE'' [''v1'', ''uploads'', ''s1''] ''Bearer HS256.other.s'' []"
  have m: "in_i64 (2 ^ 40)" by (simp add: in_i64_def)
  have h: "\<forall>x. hex64 (ex_sha x)" by (simp add: ex_sha_hex)
  have e: "ex_after_put = (ex_uploaded, snd ex_after_put)" using ex_served(2) by (metis prod.collapse)
  have "upload_http ex_server ex_sha Some ex_create_body ex_upload_auth (ex_empty, []) ex_after_create"
    unfolding ex_after_create_def by (rule upload_http.request)
  moreover have "upload_http ex_server ex_sha Some ex_create_body ex_upload_auth ex_after_create ex_after_put"
    unfolding ex_after_put_def by (rule upload_http.request)
  ultimately have "(upload_http ex_server ex_sha Some ex_create_body ex_upload_auth)\<^sup>*\<^sup>* (ex_empty, []) ex_after_put"
    by (meson converse_rtranclp_into_rtranclp r_into_rtranclp)
  then have run: "(upload_http ex_server ex_sha Some ex_create_body ex_upload_auth)\<^sup>*\<^sup>* (ex_empty, []) (ex_uploaded, snd ex_after_put)"
    by (subst (asm) e)
  have s: "UploadProps.ex_session \<in> set (u_sessions ex_uploaded)" by (simp add: ex_uploaded_eq ex_created_eq)
  have i: "map_option ui_WorkspaceID (upload_caller ex_upload_auth 5 ?q) \<noteq> Some (ss_WorkspaceID UploadProps.ex_session)"
    by (simp add: ex_callers(2) ex_session_fields)
  obtain resp w' lines' where r: "Upload_Routes ex_server ex_sha Some ex_create_body ex_upload_auth (Some ''r3'') 5 ?q (ex_uploaded, snd ex_after_put) =
    (resp, w', lines')" by (metis prod.collapse)
  have "UploadProps.ex_session \<in> set (u_sessions w')"
    using upload_isolates_workspaces [OF mem.s3_service_axioms h m run [unfolded ex_server_def] ex_run(2) s i r [unfolded ex_server_def]] by blast
  then show ?thesis by (subst e) (simp add: r)
qed

section \<open>Tenancy requests\<close>

lemma keeps_anonymously: "keeps R f \<Longrightarrow> keeps R (anonymously f)"
  by (simp add: keeps_def)

text \<open>A request for the API is a check of its credentials, followed by at most one handler for the caller they name.\<close>

lemma ten_protected_cases:
  "\<exists>w1. w1 = snd (authMiddleware sv (rq_Header q ''Authorization'') (rq_Header q ''X-API-Key'') w) \<and>
     (snd (ten_protected sv dec q w) = w1 \<or>
      (\<exists>i. ten_caller sv q w = Some i \<and> api_request sv i w1 (snd (ten_protected sv dec q w))))"
proof -
  have d: "snd (dispatch ten_mux_resp (ten_api sv dec) q (Some i) x) = x \<or>
      api_request sv i x (snd (dispatch ten_mux_resp (ten_api sv dec) q (Some i) x))" for i x
    by (rule dispatch_all [OF ten_api_def]) (simp_all add: ret_def api_request.intros)
  obtain r w1 where a: "authMiddleware sv (rq_Header q ''Authorization'') (rq_Header q ''X-API-Key'') w = (r, w1)" by (cases "authMiddleware sv (rq_Header q ''Authorization'') (rq_Header q ''X-API-Key'') w")
  show ?thesis
  proof (cases r)
    case (Inl e)
    then show ?thesis by (simp add: ten_protected_def and_then_result a ret_def)
  next
    case (Inr i)
    then show ?thesis using d [of i w1] by (simp add: ten_protected_def ten_caller_def and_then_result a ret_def)
  qed
qed

lemma roles_token: "keeps same_roles (CreateRefreshToken rt)"
  unfolding CreateRefreshToken_def by (rule same_roles_io) (simp add: same_roles_def role_of_def)

lemmas roles_open = roles.keeps_logins(3) roles.keeps_logout
  roles.keeps_callback [OF roles.keeps_store_refresh, OF roles_token] roles.keeps_refresh [OF roles.keeps_store_refresh, OF roles_token]
  roles.keeps_key_handlers(3,4)

lemma roles_internal: "keeps same_roles (internalAuthMiddleware sv tok (dispatch ten_mux_resp (ten_internal sv dec) q None))"
proof -
  have "keeps same_roles (dispatch ten_mux_resp (ten_internal sv dec) q None)"
    by (rule dispatch_all [OF ten_internal_def]) (simp_all add: roles.keeps_quota roles.keeps_ret)
  then show ?thesis by (simp add: internalAuthMiddleware_def roles.keeps_ret)
qed

lemma ten_request_roles:
  "same_roles w (fst (snd (Ten_Routes sv prov dec rid q (w, lines)))) \<or>
   (\<exists>i w1. ten_caller sv q w = Some i \<and> same_roles w w1 \<and> api_request sv i w1 (fst (snd (Ten_Routes sv prov dec rid q (w, lines)))))"
proof -
  define P where "P f \<longleftrightarrow> same_roles w (snd (f w)) \<or> (\<exists>i w1. ten_caller sv q w = Some i \<and> same_roles w w1 \<and> api_request sv i w1 (snd (f w)))"
    for f :: "ten \<Rightarrow> (TenIdentity option \<times> ten_resp) \<times> ten"
  have k: "P f" if "keeps same_roles f" for f using that by (simp add: P_def keeps_def)
  have "same_roles w (snd (authMiddleware sv a b w))" for a b
    using roles.keeps_key_handlers(3) [of sv a b] by (simp add: keeps_def)
  then have prot: "P (ten_protected sv dec q)" using ten_protected_cases [of sv q w dec] by (auto simp: P_def)
  have "P (dispatch (\<lambda>m. (None, ten_mux_resp m)) (ten_root sv prov dec) q None)"
    by (rule dispatch_all [OF ten_root_def])
      (simp_all add: prot k roles.keeps_ret keeps_anonymously roles_open roles_internal)
  moreover have "same_roles w w" by (simp add: same_roles_def)
  ultimately show ?thesis by (auto simp: P_def Ten_Routes_def Ten_requestLogger_def log_request_state)
qed

text \<open>
  C20. Memberships change only lawfully, at the edge. Whatever request reaches tenancy, with whatever
  method, path and body, and however the database fails, the role of every user in every workspace
  there was stays as it is, unless the request carries credentials of a person (a bearer token,
  not an API key) who is an owner of that workspace, or leaves it, or is an admin of it and the
  other party neither was nor becomes more than a member.
\<close>

theorem tenancy_changes_roles_lawfully:
  assumes "has_key ws_ID wsid (t_workspaces w)" "Ten_Routes sv prov dec rid q (w, lines) = (resp, w', lines')"
  shows "role_of w' wsid target = role_of w wsid target \<or>
    (\<exists>i. ten_caller sv q w = Some i \<and> \<not> has_prefix apiKeyUserPrefix (tn_UserID i) \<and>
      (role_of w wsid (tn_UserID i) = Some RoleOwner \<or>
       target = tn_UserID i \<and> role_of w' wsid target = None \<or>
       role_of w wsid (tn_UserID i) = Some RoleAdmin \<and>
         role_of w wsid target \<in> {None, Some RoleMember} \<and> role_of w' wsid target \<in> {None, Some RoleMember}))"
proof -
  have w': "w' = fst (snd (Ten_Routes sv prov dec rid q (w, lines)))" using assms(2) by simp
  from ten_request_roles [of w sv prov dec rid q lines] consider (same) "same_roles w w'"
    | (api) i w1 where "ten_caller sv q w = Some i" "same_roles w w1" "api_request sv i w1 w'"
    unfolding w' by blast
  then show ?thesis
  proof cases
    case same
    then show ?thesis using assms(1) by (simp add: same_roles_def)
  next
    case api
    then have "has_key ws_ID wsid (t_workspaces w1)" and r: "role_of w1 wsid u = role_of w wsid u" for u
      using assms(1) by (simp_all add: same_roles_def)
    from membership_changes_lawful [OF api(3) this(1), of target] show ?thesis unfolding r using api(1) by blast
  qed
qed

theorem tenancy_changes_roles_lawfully_witness:
  "role_of (fst (snd (Ten_Routes ex_route_server ex_provider ex_ten_decoders (Some ''r'')
     (ex_request ''DELETE'' [''v1'', ''workspaces'', ''w1'', ''members'', ''o''] ''Bearer a'' []) (ex_team, [])))) ''w1'' ''o'' = Some RoleOwner"
proof -
  let ?q = "ex_request ''DELETE'' [''v1'', ''workspaces'', ''w1'', ''members'', ''o''] ''Bearer a'' []"
  have h: "has_key ws_ID ''w1'' (t_workspaces ex_team)" by (simp add: has_key_def ex_team_def)
  have r: "role_of ex_team ''w1'' ''a'' = Some RoleAdmin" "role_of ex_team ''w1'' ''o'' = Some RoleOwner"
    by (simp_all add: role_of_def ex_team_def member_at_def)
  have c: "ten_caller ex_route_server ?q ex_team = Some \<lparr>tn_UserID = ''a'', tn_WorkspaceID = ''w1''\<rparr>"
    by (simp add: ten_caller_def authMiddleware_def bearer_or_key_def has_prefix_def trim_prefix_def apiKeyPrefix_def at_clock_def Ten_Verify_def
        ex_route_server_def ret_def Let_def)
  obtain resp w' lines' where x: "Ten_Routes ex_route_server ex_provider ex_ten_decoders (Some ''r'') ?q (ex_team, []) = (resp, w', lines')"
    by (metis prod.collapse)
  show ?thesis
    using tenancy_changes_roles_lawfully [OF h x, of "''o''"] r unfolding c x by (auto simp: RoleOwner_def RoleAdmin_def RoleMember_def)
qed

section \<open>Tenancy requests as steps\<close>

lemma api_request_step: "api_request sv i w w' \<Longrightarrow> ten_step sv w w'"
  by (cases rule: api_request.cases) (auto intro: ten_step.intros)

text \<open>A request is a run of the steps of \<open>TenAuth\<close>, so what holds along their runs holds of the service.\<close>

lemma ten_request_steps: "(ten_step sv)\<^sup>*\<^sup>* w (fst (snd (Ten_Routes sv prov dec rid q (w, lines))))"
proof -
  define P where "P f \<longleftrightarrow> (\<forall>w. (ten_step sv)\<^sup>*\<^sup>* w (snd (f w)))" for f :: "ten \<Rightarrow> (TenIdentity option \<times> ten_resp) \<times> ten"
  have auth: "ten_step sv w (snd (authMiddleware sv (rq_Header q ''Authorization'') (rq_Header q ''X-API-Key'') w))" for w
    by (rule ten_step.auth)
  have prot: "P (ten_protected sv dec q)"
    unfolding P_def
  proof
    fix w
    obtain w1 where w1: "ten_step sv w w1" and
      "snd (ten_protected sv dec q w) = w1 \<or> (\<exists>i. api_request sv i w1 (snd (ten_protected sv dec q w)))"
      using ten_protected_cases [of sv q w dec] auth [of w] by blast
    then consider "snd (ten_protected sv dec q w) = w1" | i where "api_request sv i w1 (snd (ten_protected sv dec q w))" by blast
    then show "(ten_step sv)\<^sup>*\<^sup>* w (snd (ten_protected sv dec q w))"
    proof cases
      case 1
      then show ?thesis using w1 by simp
    next
      case 2
      then show ?thesis using w1 api_request_step by (blast intro: rtranclp.rtrancl_into_rtrancl r_into_rtranclp)
    qed
  qed
  have "\<forall>w. (ten_step sv)\<^sup>*\<^sup>* w (snd (dispatch ten_mux_resp (ten_internal sv dec) q None w))"
    by (rule dispatch_all [OF ten_internal_def]) (simp_all add: ret_def r_into_rtranclp ten_step.quota_upload ten_step.quota_job)
  then have int: "P (anonymously (internalAuthMiddleware sv tok (dispatch ten_mux_resp (ten_internal sv dec) q None)))" for tok
    by (simp add: P_def internalAuthMiddleware_def ret_def)
  have st: "P (anonymously f)" if "\<And>w. ten_step sv w (snd (f w))" for f using that by (simp add: P_def r_into_rtranclp)
  have ok: "P (ret x)" "P (anonymously (ret y))" for x y by (simp_all add: P_def ret_def)
  have "P (dispatch (\<lambda>m. (None, ten_mux_resp m)) (ten_root sv prov dec) q None)"
    by (rule dispatch_all [OF ten_root_def, where P = P]) (simp_all add: prot int ok st ten_step.intros)
  then show ?thesis by (simp add: P_def Ten_Routes_def Ten_requestLogger_def log_request_state)
qed

section \<open>The guard in front of tenancy\<close>

text \<open>Nothing was written: only answers of the storage were used up.\<close>

definition only_read :: "ten \<Rightarrow> ten \<Rightarrow> bool" where
  "only_read w w' \<longleftrightarrow> (\<exists>ios. w' = w\<lparr>io_script := ios\<rparr>)"

lemma only_read_refl [simp]: "only_read w w"
  unfolding only_read_def by (rule exI [of _ "io_script w"]) simp

lemma next_io_only_read: "only_read w (snd (next_io w))"
  by (simp add: next_io_def split: list.splits) (auto simp: only_read_def)

lemma GetAPIKey_only_read: "only_read w (snd (GetAPIKey i w))"
  using next_io_only_read [of w]
  by (cases rule: with_io_cases [of w "\<lambda>w. (query_row (\<lambda>k. ak_ID k = i) (t_apikeys w), w)"]) (simp_all add: GetAPIKey_def)

lemma verify_key_refused: "fst (verifyAPIKeyString lib raw w) = Inl e \<Longrightarrow> only_read w (snd (verifyAPIKeyString lib raw w))"
  using GetAPIKey_only_read [of w]
  by (auto simp: verifyAPIKeyString_def and_then_result ret_def split: option.splits prod.splits sum.splits if_splits)

lemma auth_refused:
  assumes "authMiddleware sv a k w = (Inl r, w')"
  shows "only_read w w'" "fst r = 401 \<or> r = internalError"
proof -
  let ?t = "bearer_or_key a k"
  show "fst r = 401 \<or> r = internalError"
    using assms by (auto simp: authMiddleware_def Let_def and_then_result ret_def at_clock_def split: if_splits sum.splits option.splits)
  show "only_read w w'"
  proof (cases "fst (verifyAPIKeyString (ts_lib sv) ?t w)")
    case (Inl e)
    from verify_key_refused [OF Inl] Inl assms show ?thesis
      by (auto simp: authMiddleware_def Let_def and_then_result ret_def at_clock_def split: if_splits)
  next
    case (Inr key)
    then show ?thesis using assms
      by (auto simp: authMiddleware_def Let_def and_then_result ret_def at_clock_def split: if_splits)
  qed
qed

text \<open>The answers open to everyone: refusals, the health check, and what the multiplexer says of a path.\<close>

definition public_answer :: "http_request \<Rightarrow> ten_resp \<Rightarrow> bool" where
  "public_answer q r \<longleftrightarrow>
     fst r = 401 \<or> r = internalError \<or> r = (200, TOk) \<and> path_segments (rq_EscapedPath q) = [''healthz''] \<or>
     (case snd r of TMux m \<Rightarrow> fst r = mux_status m | _ \<Rightarrow> False)"

text \<open>What a handler does with a request, given who the credentials name.\<close>

definition guarded ::
  "TenServer \<Rightarrow> http_request \<Rightarrow> ten \<Rightarrow> TenIdentity option \<Rightarrow> ten_resp \<Rightarrow> ten \<Rightarrow> bool" where
  "guarded sv q w ident r w' \<longleftrightarrow>
     (case ident of
        None \<Rightarrow> only_read w w' \<and> public_answer q r
      | Some c \<Rightarrow> ten_caller sv q w = Some c \<and>
          (\<exists>w1. w1 = snd (authMiddleware sv (rq_Header q ''Authorization'') (rq_Header q ''X-API-Key'') w) \<and>
             (w' = w1 \<and> (\<exists>m. r = ten_mux_resp m) \<or> api_request sv c w1 w')))"

lemma guarded_ret: "guarded sv q w None (ten_mux_resp m) w" "path_segments (rq_EscapedPath q) = [''healthz''] \<Longrightarrow> guarded sv q w None (200, TOk) w"
  by (simp_all add: guarded_def public_answer_def)

lemma guarded_protected:
  "guarded sv q w (fst (fst (ten_protected sv dec q w))) (snd (fst (ten_protected sv dec q w))) (snd (ten_protected sv dec q w))"
proof -
  obtain r w1 where a: "authMiddleware sv (rq_Header q ''Authorization'') (rq_Header q ''X-API-Key'') w = (r, w1)" by fastforce
  show ?thesis
  proof (cases r)
    case (Inl e)
    then show ?thesis using a auth_refused [OF a [unfolded Inl]]
      by (auto simp: ten_protected_def and_then_result ret_def guarded_def public_answer_def)
  next
    case (Inr c)
    let ?Q = "\<lambda>f. snd (f w1) = w1 \<and> (\<exists>m. fst (f w1) = ten_mux_resp m) \<or> api_request sv c w1 (snd (f w1))"
    have "?Q (dispatch ten_mux_resp (ten_api sv dec) q (Some c))"
      by (rule dispatch_all [OF ten_api_def, where P = ?Q]) (auto simp: ret_def api_request.intros)
    then show ?thesis using Inr a by (simp add: ten_protected_def and_then_result ret_def guarded_def ten_caller_def)
  qed
qed

text \<open>The routes that a request outside the sign-in flow can reach.\<close>

lemma ten_root_outside:
  assumes "rt \<in> set (ten_root sv prov dec)" "serves (rt_method rt) m \<or> rt_method rt = []" "seg_matches (rt_segs rt) segs = Some vs"
    and "\<not> open_route m segs"
  shows "rt = ten_root sv prov dec ! 0 \<and> segs = [''healthz''] \<or> rt = ten_root sv prov dec ! 6 \<or> rt = ten_root sv prov dec ! 7"
proof -
  have len: "length (ten_root sv prov dec) = 8" by (simp add: ten_root_table)
  obtain k where k: "k < 8" "rt = ten_root sv prov dec ! k" using assms(1) unfolding in_set_conv_nth len by blast
  have lit: "segs = ls" if "rt_segs rt = map PLit ls" for ls
    using assms(3) that by (simp add: seg_matches_lits split: if_splits)
  consider "k = 0" | "k = 1" | "k = 2" | "k = 3" | "k = 4" | "k = 5" | "k = 6" | "k = 7" using k(1) by linarith
  then show ?thesis
  proof cases
    case 1
    then show ?thesis using k(2) lit [of "[''healthz'']"] by (simp add: ten_root_table)
  next
    case 2
    then have "serves ''GET'' m" "segs = [''v1'', ''auth'', ''login'']"
      using assms(2) k(2) lit [of "[''v1'', ''auth'', ''login'']"] by (simp_all add: ten_root_table)
    then show ?thesis using assms(4) by (simp add: open_route_def serves_def)
  next
    case 3
    then have "serves ''GET'' m" "segs = [''v1'', ''auth'', ''callback'']"
      using assms(2) k(2) lit [of "[''v1'', ''auth'', ''callback'']"] by (simp_all add: ten_root_table)
    then show ?thesis using assms(4) by (simp add: open_route_def serves_def)
  next
    case 4
    then have "serves ''POST'' m" "segs = [''v1'', ''auth'', ''refresh'']"
      using assms(2) k(2) lit [of "[''v1'', ''auth'', ''refresh'']"] by (simp_all add: ten_root_table)
    then show ?thesis using assms(4) by (simp add: open_route_def serves_def)
  next
    case 5
    then have "serves ''POST'' m" "segs = [''v1'', ''auth'', ''logout'']"
      using assms(2) k(2) lit [of "[''v1'', ''auth'', ''logout'']"] by (simp_all add: ten_root_table)
    then show ?thesis using assms(4) by (simp add: open_route_def serves_def)
  next
    case 6
    then have "serves ''POST'' m" "segs = [''v1'', ''auth'', ''token'']"
      using assms(2) k(2) lit [of "[''v1'', ''auth'', ''token'']"] by (simp_all add: ten_root_table)
    then show ?thesis using assms(4) by (simp add: open_route_def serves_def)
  qed (use k(2) in simp_all)
qed

lemma ten_root_guarded:
  assumes "\<not> open_route (rq_Method q) (path_segments (rq_EscapedPath q))" "rq_Header q ''X-Internal-Token'' \<noteq> ts_internalToken sv"
    and f: "dispatch (\<lambda>m. (None, ten_mux_resp m)) (ten_root sv prov dec) q None w = ((ident, r), w')"
  shows "guarded sv q w ident r w'"
proof (cases "mux_serve (ten_root sv prov dec) q")
  case (Inl m)
  then show ?thesis using f by (auto simp: dispatch_def ret_def guarded_ret)
next
  case (Inr x)
  obtain h pv where x: "x = (h, pv)" by (cases x)
  obtain rt vs where rt: "rt \<in> set (ten_root sv prov dec)" "h = rt_handler rt" "serves (rt_method rt) (rq_Method q) \<or> rt_method rt = []"
    "seg_matches (rt_segs rt) (path_segments (rq_EscapedPath q)) = Some vs"
    using mux_serve_sound [OF Inr [unfolded x]] unfolding serves_def by (metis insert_iff singletonD)
  from ten_root_outside [OF rt(1,3,4) assms(1)] have k: "h = rt_handler (ten_root sv prov dec ! 0) \<and> path_segments (rq_EscapedPath q) = [''healthz''] \<or>
    h = rt_handler (ten_root sv prov dec ! 6) \<or> h = rt_handler (ten_root sv prov dec ! 7)" using rt(2) by blast
  have h: "h pv q None w = ((ident, r), w')" using Inr x f by (simp add: dispatch_def)
  consider "h = (\<lambda>pv q _. anonymously (ret (200, TOk)))" "path_segments (rq_EscapedPath q) = [''healthz'']"
    | "h = (\<lambda>pv q _. ten_protected sv dec q)"
    | "h = (\<lambda>pv q _. anonymously (internalAuthMiddleware sv (rq_Header q ''X-Internal-Token'') (dispatch ten_mux_resp (ten_internal sv dec) q None)))"
    using k by (elim disjE conjE) (simp_all add: ten_root_table)
  then show ?thesis
  proof cases
    case 1
    then show ?thesis using h by (auto simp: anonymously_def and_then_def ret_def guarded_ret)
  next
    case 2
    then show ?thesis using h guarded_protected [of sv q w dec] by simp
  next
    case 3
    then show ?thesis using assms(2) h
      by (auto simp: anonymously_def and_then_def ret_def internalAuthMiddleware_def guarded_def public_answer_def)
  qed
qed

text \<open>
  C40. Nothing happens in tenancy without credentials. Take any request whatever, with any method and
  any path, clean or not, that is not one of the five requests of the sign-in flow and does not carry
  the internal token. If its bearer token or API key is missing or not accepted, nothing is written
  to the database, the answer is a refusal (401, or 500 when the key could not be looked up), the
  health check, or the multiplexer's own word on the path (not found, method not allowed, redirect),
  and the log names no identity. If its credentials are those of a caller, all that happens is the
  check of the credentials and at most one handler of the API run for exactly this caller.
\<close>

theorem tenancy_guards_requests:
  assumes "\<not> open_route (rq_Method q) (path_segments (rq_EscapedPath q))" "rq_Header q ''X-Internal-Token'' \<noteq> ts_internalToken sv"
    and "Ten_Routes sv prov dec rid q (w, lines) = (resp, w', lines')"
  shows "(ten_caller sv q w = None \<longrightarrow>
      only_read w w' \<and> (\<forall>i r. resp = Some (i, r) \<longrightarrow> public_answer q r) \<and>
      (\<forall>l \<in> set lines'. l \<in> set lines \<or> ll_Identity l = None)) \<and>
    (\<forall>c. ten_caller sv q w = Some c \<longrightarrow>
      (let w1 = snd (authMiddleware sv (rq_Header q ''Authorization'') (rq_Header q ''X-API-Key'') w)
       in only_read w w' \<or> w' = w1 \<or> api_request sv c w1 w') \<and>
      (\<forall>l \<in> set lines'. l \<in> set lines \<or> ll_Identity l \<in> {None, Some c}))"
proof -
  let ?d = "dispatch (\<lambda>m. (None, ten_mux_resp m)) (ten_root sv prov dec) q None w"
  obtain ident r w2 where d: "?d = ((ident, r), w2)" by (cases ?d, cases "fst ?d") (simp add: prod_eq_iff)
  note g = ten_root_guarded [OF assms(1,2) d]
  have w': "w' = w \<and> resp = None \<and> lines' = lines \<or> w' = w2 \<and> (resp = None \<or> (\<exists>i. resp = Some (i, r))) \<and>
      (\<forall>l \<in> set lines'. l \<in> set lines \<or> ll_Identity l = ident)"
  proof (cases rid)
    case None
    then show ?thesis using assms(3) by (simp add: Ten_Routes_def Ten_requestLogger_def log_request_def)
  next
    case (Some i)
    obtain status body where r: "r = (status, body)" by (cases r)
    show ?thesis
    proof (cases "body = TAbort")
      case True
      then show ?thesis using assms(3) Some d r by (simp add: Ten_Routes_def Ten_requestLogger_def log_request_def)
    next
      case False
      then have "resp = Some (i, r)" "w' = w2" "lines' = lines @ [\<lparr>ll_RequestID = i, ll_Method = rq_Method q, ll_Path = rq_Path q,
          ll_Status = status, ll_Identity = ident\<rparr>]"
        using assms(3) Some d r by (simp_all add: Ten_Routes_def Ten_requestLogger_def log_request_def)
      then show ?thesis by simp
    qed
  qed
  show ?thesis
  proof (cases ident)
    case None
    then show ?thesis using g w' by (auto simp: guarded_def Let_def)
  next
    case (Some c)
    then show ?thesis using g w' by (auto simp: guarded_def Let_def)
  qed
qed

theorem tenancy_guards_requests_witness:
  "only_read ex_team (fst (snd (Ten_Routes ex_route_server ex_provider ex_ten_decoders (Some ''r'')
     (ex_request ''DELETE'' [''v1'', ''workspaces'', ''w1'', ''members'', ''o''] [] []) (ex_team, []))))"
proof -
  let ?segs = "[''v1'', ''workspaces'', ''w1'', ''members'', ''o'']"
  let ?q = "ex_request ''DELETE'' ?segs [] []"
  have p: "path_segments (rq_EscapedPath ?q) = ?segs"
    unfolding ex_request_def http_request.simps by (rule path_segments_plain) (simp add: plain_seg_def)
  have c: "ten_caller ex_route_server ?q ex_team = None"
    by (simp add: ten_caller_def authMiddleware_def bearer_or_key_def has_prefix_def ret_def)
  have o: "\<not> open_route (rq_Method ?q) (path_segments (rq_EscapedPath ?q))" unfolding p by (simp add: open_route_def)
  have t: "rq_Header ?q ''X-Internal-Token'' \<noteq> ts_internalToken ex_route_server"
    by (simp add: ex_request_def ex_route_server_def ex_ten_server_def)
  obtain resp w' lines' where x: "Ten_Routes ex_route_server ex_provider ex_ten_decoders (Some ''r'') ?q (ex_team, []) = (resp, w', lines')"
    by (metis prod.collapse)
  show ?thesis using tenancy_guards_requests [OF o t x] c unfolding x by simp
qed

section \<open>The routes\<close>

text \<open>
  Each route of the orchestrator and of the upload service, asked for by a caller with an
  acceptable token, runs its handler for that caller with the path values of the request.
\<close>

theorem client_routes:
  "(\<forall>c. orch_caller parse key q = Some c \<longrightarrow>
   (asks q ''GET'' [''v1'', ''jobs''] \<longrightarrow> Orch_Handler parse key a uuid_ok dec q = listJobs (Some c) (query_Get ''state'' (rq_Query q))) \<and>
   (asks q ''POST'' [''v1'', ''jobs''] \<longrightarrow> Orch_Handler parse key a uuid_ok dec q = createJob a uuid_ok (Some c) (orch_body (od_job dec) q)) \<and>
   (asks q ''GET'' [''v1'', ''jobs'', i] \<longrightarrow> Orch_Handler parse key a uuid_ok dec q = getJob uuid_ok (Some c) i) \<and>
   (asks q ''POST'' [''v1'', ''jobs'', i, ''retry''] \<longrightarrow> Orch_Handler parse key a uuid_ok dec q = retryJob a uuid_ok (Some c) i) \<and>
   (asks q ''DELETE'' [''v1'', ''jobs'', i] \<longrightarrow> Orch_Handler parse key a uuid_ok dec q = cancelJob a uuid_ok (Some c) i) \<and>
   (asks q ''GET'' [''v1'', ''presets''] \<longrightarrow> Orch_Handler parse key a uuid_ok dec q = listPresets (Some c)) \<and>
   (asks q ''POST'' [''v1'', ''presets''] \<longrightarrow> Orch_Handler parse key a uuid_ok dec q = createPreset (Some c) (orch_body (od_preset dec) q)) \<and>
   (asks q ''GET'' [''v1'', ''presets'', i] \<longrightarrow> Orch_Handler parse key a uuid_ok dec q = getPreset uuid_ok (Some c) i) \<and>
   (asks q ''PATCH'' [''v1'', ''presets'', i] \<longrightarrow> Orch_Handler parse key a uuid_ok dec q = patchPreset uuid_ok (Some c) i (orch_body (od_patch dec) q)))"
  by (intro conjI allI impI; erule (1) orch_reached; simp add: orch_lookups)

theorem upload_client_routes:
  "(\<forall>c. upload_caller au now q = Some c \<longrightarrow>
   (asks q ''POST'' [''v1'', ''uploads''] \<longrightarrow>
     Upload_Routes sv sha uuid_parse dec au rid now q = requestLogger rid q (and_then (handleCreate sv (Some c) (dec (rq_Body q) (rq_Broken q))) (\<lambda>r. ret (Some c, r)))) \<and>
   (asks q ''GET'' [''v1'', ''uploads'', i] \<longrightarrow>
     Upload_Routes sv sha uuid_parse dec au rid now q = requestLogger rid q (and_then (handleGet uuid_parse (Some c) i) (\<lambda>r. ret (Some c, r)))) \<and>
   (asks q ''PUT'' [''v1'', ''uploads'', i, ''chunks'', n] \<longrightarrow>
     Upload_Routes sv sha uuid_parse dec au rid now q = requestLogger rid q (and_then (handlePutChunk sv sha uuid_parse (Some c) i
       \<lparr>kq_Index = n, kq_ContentLength = rq_ContentLength q, kq_Sha = rq_Header q ''X-Chunk-Sha256'', kq_Bytes = rq_Body q, kq_Broken = rq_Broken q\<rparr>) (\<lambda>r. ret (Some c, r)))) \<and>
   (asks q ''POST'' [''v1'', ''uploads'', i, ''complete''] \<longrightarrow>
     Upload_Routes sv sha uuid_parse dec au rid now q = requestLogger rid q (and_then (handleComplete sv sha uuid_parse (Some c) i) (\<lambda>r. ret (Some c, r)))) \<and>
   (asks q ''DELETE'' [''v1'', ''uploads'', i] \<longrightarrow>
     Upload_Routes sv sha uuid_parse dec au rid now q = requestLogger rid q (and_then (handleCancel sv uuid_parse (Some c) i) (\<lambda>r. ret (Some c, r)))))"
  by (intro conjI allI impI; erule (1) upload_reached; simp add: upload_lookups)

text \<open>
  Tenancy routes. A request for the plain path of one of the thirteen API routes runs that
  route's handler behind the authentication middleware, with the values of the path; the five
  routes of the sign-in flow run without it; the two quota routes run behind the internal token;
  and every other request for a plain path under \<open>/v1/\<close>, whatever its method, meets the
  authentication middleware before anything else.
\<close>

theorem tenancy_routes:
  "(asks q ''GET'' [''v1'', ''me''] \<longrightarrow> Ten_Routes sv prov dec rid q = Ten_requestLogger rid q (behind_auth sv q (handleMe))) \<and>
   (asks q ''POST'' [''v1'', ''workspaces''] \<longrightarrow> Ten_Routes sv prov dec rid q = Ten_requestLogger rid q (behind_auth sv q (\<lambda>ident. handleCreateWorkspace sv ident (td_workspace dec (rq_Body q) (rq_Broken q))))) \<and>
   (asks q ''GET'' [''v1'', ''workspaces''] \<longrightarrow> Ten_Routes sv prov dec rid q = Ten_requestLogger rid q (behind_auth sv q (handleListWorkspaces))) \<and>
   (asks q ''GET'' [''v1'', ''workspaces'', ''active''] \<longrightarrow> Ten_Routes sv prov dec rid q = Ten_requestLogger rid q (behind_auth sv q (handleActiveWorkspace))) \<and>
   (asks q ''POST'' [''v1'', ''workspaces'', ''switch''] \<longrightarrow> Ten_Routes sv prov dec rid q = Ten_requestLogger rid q (behind_auth sv q (\<lambda>ident. handleSwitchWorkspace sv ident (td_switch dec (rq_Body q) (rq_Broken q))))) \<and>
   (asks q ''GET'' [''v1'', ''workspaces'', i, ''members''] \<longrightarrow> Ten_Routes sv prov dec rid q = Ten_requestLogger rid q (behind_auth sv q (\<lambda>ident. handleListMembers ident i))) \<and>
   (asks q ''POST'' [''v1'', ''workspaces'', i, ''members''] \<longrightarrow> Ten_Routes sv prov dec rid q = Ten_requestLogger rid q (behind_auth sv q (\<lambda>ident. handleAddMember ident i (td_member dec (rq_Body q) (rq_Broken q))))) \<and>
   (asks q ''PATCH'' [''v1'', ''workspaces'', i, ''members'', u] \<longrightarrow> Ten_Routes sv prov dec rid q = Ten_requestLogger rid q (behind_auth sv q (\<lambda>ident. handleUpdateMemberRole ident i u (td_role dec (rq_Body q) (rq_Broken q))))) \<and>
   (asks q ''DELETE'' [''v1'', ''workspaces'', i, ''members'', u] \<longrightarrow> Ten_Routes sv prov dec rid q = Ten_requestLogger rid q (behind_auth sv q (\<lambda>ident. handleRemoveMember ident i u))) \<and>
   (asks q ''POST'' [''v1'', ''apikeys''] \<longrightarrow> Ten_Routes sv prov dec rid q = Ten_requestLogger rid q (behind_auth sv q (\<lambda>ident. handleCreateAPIKey sv ident (td_apikey dec (rq_Body q) (rq_Broken q))))) \<and>
   (asks q ''GET'' [''v1'', ''apikeys''] \<longrightarrow> Ten_Routes sv prov dec rid q = Ten_requestLogger rid q (behind_auth sv q (handleListAPIKeys))) \<and>
   (asks q ''DELETE'' [''v1'', ''apikeys'', i] \<longrightarrow> Ten_Routes sv prov dec rid q = Ten_requestLogger rid q (behind_auth sv q (\<lambda>ident. handleRevokeAPIKey ident i))) \<and>
   (asks q ''GET'' [''v1'', ''usage''] \<longrightarrow> Ten_Routes sv prov dec rid q = Ten_requestLogger rid q (behind_auth sv q (\<lambda>ident. handleUsage sv ident))) \<and>
   (asks q ''GET'' [''v1'', ''auth'', ''login''] \<longrightarrow> Ten_Routes sv prov dec rid q = Ten_requestLogger rid q (anonymously (handleLogin sv))) \<and>
   (asks q ''GET'' [''v1'', ''auth'', ''callback''] \<longrightarrow> Ten_Routes sv prov dec rid q = Ten_requestLogger rid q (anonymously (handleCallback sv prov
     \<lparr>cq_error = query_Get ''error'' (rq_Query q), cq_state = query_Get ''state'' (rq_Query q), cq_code = query_Get ''code'' (rq_Query q)\<rparr>))) \<and>
   (asks q ''POST'' [''v1'', ''auth'', ''refresh''] \<longrightarrow> Ten_Routes sv prov dec rid q = Ten_requestLogger rid q (anonymously (handleRefresh sv (optional_body (td_refresh dec) q) (rq_Cookie q refreshCookieName)))) \<and>
   (asks q ''POST'' [''v1'', ''auth'', ''logout''] \<longrightarrow> Ten_Routes sv prov dec rid q = Ten_requestLogger rid q (anonymously (handleLogout sv (optional_body (td_refresh dec) q) (rq_Cookie q refreshCookieName)))) \<and>
   (asks q ''POST'' [''v1'', ''auth'', ''token''] \<longrightarrow> Ten_Routes sv prov dec rid q = Ten_requestLogger rid q (anonymously (handleAPIKeyToken sv (rq_Header q ''X-API-Key'') (optional_body (td_token dec) q)))) \<and>
   (asks q ''POST'' [''internal'', ''v1'', ''quota'', ''check-upload-session''] \<longrightarrow>
     Ten_Routes sv prov dec rid q = Ten_requestLogger rid q (anonymously (internalAuthMiddleware sv (rq_Header q ''X-Internal-Token'') (handleQuotaCheckUpload sv (td_quota_upload dec (rq_Body q) (rq_Broken q)))))) \<and>
   (asks q ''POST'' [''internal'', ''v1'', ''quota'', ''check-job-admission''] \<longrightarrow>
     Ten_Routes sv prov dec rid q = Ten_requestLogger rid q (anonymously (internalAuthMiddleware sv (rq_Header q ''X-Internal-Token'') (handleQuotaCheckJob sv (td_quota_job dec (rq_Body q) (rq_Broken q)))))) \<and>
   (\<forall>m x xs. plain_request q m (''v1'' # x # xs) \<longrightarrow> \<not> open_route m (''v1'' # x # xs) \<longrightarrow> Ten_Routes sv prov dec rid q = Ten_requestLogger rid q (ten_protected sv dec q))"
proof (intro conjI impI allI)
  fix m x xs
  assume "plain_request q m (''v1'' # x # xs)" "\<not> open_route m (''v1'' # x # xs)"
  from ten_root_api [OF this] show "Ten_Routes sv prov dec rid q = Ten_requestLogger rid q (ten_protected sv dec q)"
    by (simp add: Ten_Routes_def)
qed (erule ten_reached ten_open_reached ten_internal_reached; (simp add: ten_lookups ten_internal_lookups serves_def; fail)?;
    (auto simp: serves_def ten_root_lookups)?)+

theorem tenancy_routes_witness:
  "fst (Ten_Routes ex_route_server ex_provider ex_ten_decoders (Some ''r'') (ex_request ''GET'' [''v1'', ''me''] [] []) (ex_team, [])) =
     Some (''r'', terr 401 ''unauthorized'' ''missing bearer token or api key'')"
proof -
  have "asks (ex_request ''GET'' [''v1'', ''me''] [] []) ''GET'' [''v1'', ''me'']" by (rule ex_asks; simp add: plain_seg_def)
  then have "Ten_Routes ex_route_server ex_provider ex_ten_decoders (Some ''r'') (ex_request ''GET'' [''v1'', ''me''] [] []) =
    Ten_requestLogger (Some ''r'') (ex_request ''GET'' [''v1'', ''me''] [] [])
      (behind_auth ex_route_server (ex_request ''GET'' [''v1'', ''me''] [] []) handleMe)"
    using tenancy_routes [of "ex_request ''GET'' [''v1'', ''me''] [] []" ex_route_server ex_provider ex_ten_decoders "Some ''r''"] by blast
  then show ?thesis
    by (simp add: Ten_requestLogger_def log_request_def behind_auth_def and_then_def authMiddleware_def bearer_or_key_def has_prefix_def ret_def)
qed

section \<open>Telemetry requests\<close>

text \<open>Without an acceptable token no request gets a stream and no hub changes.\<close>

theorem telemetry_requests_admitted:
  assumes "\<not> bearer parse key (rq_Header q ''Authorization'')"
  shows "(\<forall>i. fst (Tel_Handler parse key health order flusher q s) \<noteq> SseStream i) \<and>
    snd (Tel_Handler parse key health order flusher q s) = s"
proof (cases "mux_serve tel_mux q")
  case (Inl m)
  then show ?thesis by (simp add: Tel_Handler_def ret_def)
next
  case (Inr x)
  obtain route pv where x: "x = (route, pv)" by (cases x)
  let ?r = "\<lparr>tr_authorization = rq_Header q ''Authorization'', tr_query = rq_Query q, tr_flusher = flusher\<rparr>"
  from stream_admission [of parse key health order route ?r s] assms
  have "(\<forall>i. fst (serve parse key health order route ?r s) \<noteq> SseStream i)" "route = Healthz \<or> snd (serve parse key health order route ?r s) = s"
    by auto
  moreover have "snd (serve parse key health order Healthz ?r s) = s" by (simp add: serve_def ret_def)
  ultimately show ?thesis using Inr x by (auto simp: Tel_Handler_def)
qed

end
