(* ===== verification/Spec2Isabelle.thy ===== *)
theory Spec2Isabelle
  imports UploadToOrch TenRaces TelFrames TenClient Edge
begin

text \<open>
  A verification development of the Go services of aether-edit, \<open>src/services\<close>. Four services share
  a Postgres cluster, an S3 bucket, a NATS broker and one token signing key. The \<^emph>\<open>upload\<close> service
  takes a file in chunks, assembles and verifies it, stores it under its digest and announces it.
  The \<^emph>\<open>orchestrator\<close> hears of landed objects, keeps the table of transcode jobs, runs them on a fixed
  number of slots and reports progress and usage. The \<^emph>\<open>tenancy\<close> service signs users in, keeps
  workspaces, members, sessions and API keys, adds up the usage and answers quota questions.
  \<^emph>\<open>Telemetry\<close> turns hardware samples, job events and log lines into event streams for browsers.

  \<^bold>\<open>How programs are modelled.\<close> A service is a record of its state that extends the environment
  \<open>env\<close> of \<open>Prelude\<close>: a wall clock (nanoseconds since Go's zero time), a supply of fresh identifiers
  and a script that says of every storage or network call whether it succeeds, fails before its
  effect, or takes effect and loses the answer. An operation maps a state to a result
  (\<open>error + value\<close>) and the next state; \<open>and_then\<close>, \<open>with_io\<close> and \<open>ret\<close> compose them as the code
  does. One SQL statement or transaction is one atomic step. Concurrency is an interleaving of
  steps where the code is concurrent by design (the scheduler's slots, the streams of the hub, the
  upload gauge, the races of \<open>TenRaces\<close>); HTTP requests otherwise run one after the other.

  \<^bold>\<open>Shared theories.\<close> \<open>Prelude\<close> has the environment, 64-bit arithmetic, tables of rows and the locale
  \<open>step_rel\<close> of relations that every step keeps. \<open>Triples\<close> has pre- and postconditions for programs.
  \<open>GoText\<close> and \<open>Base64\<close> are what the services use of \<open>strings\<close>, \<open>strconv\<close>, \<open>regexp\<close>, \<open>net\<close> and
  \<open>encoding/base64\<close>; \<open>Boundary\<close> is the outcome of decoding a JSON body. \<open>Contracts\<close> is
  \<open>services/contracts\<close> with the static quota policy and the locale \<open>quota_checker\<close>, which the static
  checker, the orchestrator's checker, the metered checker and the remote client all interpret.

  \<^bold>\<open>Orchestrator\<close> (\<open>orchestrator/internal\<close>). \<open>JobModel\<close>: states, error classes, presets and their
  validation (\<open>jobs\<close>). \<open>OrchStore\<close>: the tables and every method of \<open>store/store.go\<close>.
  \<open>JobLifecycle\<close>: the locale \<open>store_op\<close>, interpreted for each method; the legal transitions of a job,
  the well-formedness of reachable tables, the refinement to an abstract state machine, the
  finality of completed jobs. \<open>ObjectKeys\<close>: object keys and the parser of landed events
  (\<open>events\<close>, \<open>objstore\<close>). \<open>Handlers\<close>: metering, progress, wake-ups, and the locale \<open>store_prog\<close>.
  \<open>OrchQuota\<close> (\<open>quota\<close>), \<open>OrchApi\<close> (\<open>auth\<close>, \<open>httpapi\<close>: isolation of workspaces, admission cap, valid
  presets), \<open>OrchScheduler\<close> (\<open>scheduler\<close>, \<open>engine\<close>: the slots, and a runner that brings its attempt to an end),
  \<open>OrchConsumer\<close> (\<open>consumer\<close>: one job per landed object under redelivery, the disposition of every
  message), \<open>FfmpegAdapter\<close> (\<open>engine/ffmpegadapter\<close>: argument vectors, licence gate, progress
  parser, probe and transcode as an instance of the engine interface).

  \<^bold>\<open>Upload\<close> (\<open>upload\<close>). \<open>UploadGauge\<close> (\<open>backpressure.go\<close>), \<open>UploadStore\<close> (\<open>store.go\<close>, \<open>postgres.go\<close>),
  \<open>UploadBlob\<close> (\<open>blobstore.go\<close>, with the locales \<open>s3_service\<close> for what S3 documents and \<open>blob_store\<close> for
  what the service relies on), \<open>UploadAuth\<close> (\<open>auth.go\<close>, \<open>config.go\<close>), \<open>UploadServer\<close> (\<open>server.go\<close>,
  \<open>publisher.go\<close>). \<open>UploadInv\<close> is the invariant between tables and bucket and \<open>UploadLifecycle\<close> shows
  that every handler keeps it; \<open>UploadProps\<close> and \<open>UploadScope\<close> draw the properties: a completed upload
  is the verified concatenation of its chunks under its own digest, and workspaces do not meet.
  \<open>UploadToOrch\<close> reads the announcements of the one service with the parser of the other.

  \<^bold>\<open>Tenancy\<close> (\<open>tenancy\<close>). \<open>TenStore\<close> (\<open>store.go\<close>, \<open>postgres.go\<close>), \<open>TenMetering\<close> (\<open>metering.go\<close>),
  \<open>TenQuota\<close> (\<open>tiers.go\<close>, \<open>quota.go\<close>), \<open>TenKeys\<close> (\<open>tokens.go\<close>, \<open>apikeys.go\<close>), \<open>TenServer\<close> (\<open>server.go\<close>,
  \<open>workspaces.go\<close>), \<open>TenAuth\<close> (\<open>authflow.go\<close>), \<open>TenOidc\<close> (\<open>oidc.go\<close>), \<open>TenClient\<close> (\<open>quotaclient\<close>).
  \<open>TenFrame\<close> is a locale of relations kept by all requests of the service; \<open>TenOwners\<close> (every workspace
  keeps an owner, roles change lawfully), \<open>TenSessions\<close> (refresh tokens are used once, a replay ends
  the session), \<open>TenUsage\<close> (rollups are the recorded events summed up, and admission follows them)
  and \<open>TenAccess\<close> (the life of an API key) are interpretations of it. \<open>TenRaces\<close> shows what is lost
  when two requests interleave.

  \<^bold>\<open>Telemetry\<close> (\<open>telemetry/internal\<close>). \<open>TelHub\<close> (\<open>hub\<close>: the bounded buffers and the streaming
  goroutine beside its publishers; no loss is silent, no wake-up is missed), \<open>TelFrames\<close> (the text
  of the stream and a client that reads it back), \<open>TelJobs\<close> (\<open>jobs\<close>: under every interleaving of its
  two subscriptions the aggregate refines one automaton per job), \<open>TelHardware\<close> (\<open>sampler\<close>, \<open>pipeline\<close>), \<open>TelHttp\<close> (\<open>auth\<close>, \<open>server\<close>, \<open>logstream\<close>,
  \<open>config\<close>).

  \<^bold>\<open>All services.\<close> \<open>Migrations\<close> is the migration runner of tenancy and orchestrator, \<open>ServiceConfig\<close>
  their configuration loaders, and \<open>SharedTokens\<close> composes the four configurations and the four
  verifiers: a token signed by tenancy is accepted by all services, as the same identity. \<open>Streams\<close>
  is how services set up the broker (\<open>natsio\<close>, \<open>publisher.go\<close>, \<open>NewMeteringConsumer\<close>, the consumer of
  \<open>landed.go\<close>), with the locale \<open>jetstream\<close> for what the broker documents. \<open>Startup\<close> is the four \<open>main\<close>
  programs: what serves was checked, and services that are up share their streams. \<open>ServeMux\<close> is the
  request multiplexer of \<open>net/http\<close>; \<open>Routes\<close> mounts the handlers of the four services on it with the
  patterns of the source, behind their middleware and the request log; \<open>RouteTables\<close> evaluates the
  tables; \<open>Edge\<close> lifts what holds of handlers to whole HTTP requests: isolation of workspaces in
  orchestrator and upload, lawful role changes in tenancy, no effect on tenancy without credentials,
  and which handler a path reaches.

  \<^bold>\<open>Parameters.\<close> Code outside the repository is an argument of the definitions that use it: the S3
  client, the client of the broker, the JWT and YAML libraries, SHA-256, HMAC, RS256 and argon2, \<open>url.Parse\<close> and the form
  encoder, ffmpeg and ffprobe, NVML, the identity provider, the SQL of the migrations. What a
  property needs of it is a hypothesis of the property or of a locale, and there is an instance
  for each.

  \<^bold>\<open>Idealisations.\<close> \<open>float64\<close> is \<open>real\<close>; the fraction of a parsed duration is exact. Times keep
  their nanoseconds in the database, where Postgres rounds to microseconds. Text is a list of bytes
  as characters; case mapping and white space are those of ASCII. A JSON body is given by what the
  decoder makes of it; the response is a value and not its encoding. The panic of the identifier generator is an error or, in tenancy, an aborted
  request. Iteration over a Go map is in some order, and where the order could show, the error does
  not tell which entry it was. The orchestrator's bucket is the list of its keys, that of the upload
  service has contents. Payloads of the hub are values of any type; a stream carries fewer than
  \<open>2 ^ 64\<close> events. Since reals are finite, every payload marshals and no sum overflows its double
  column. A storage call can fail at any point; that a statement is refused because of its text (a
  NUL byte, invalid UTF-8) is one of these failures and not tied to the text. Identifiers are
  compared as text, where Postgres compares the values of \<open>uuid\<close> columns; the attempt counter is not
  bounded by its column. Subjects of the broker are compared exactly: the services use no wildcards,
  and streams of others that overlap theirs by one are not considered. Except where interleaving is
  part of the model (the job runner, the scheduler loop, the upload gauge, the hub, the aggregator,
  \<open>TenRaces\<close>, \<open>admission_check_races\<close>) requests are handled one after the other. The advisory lock makes migration runs sequential.

  \<^bold>\<open>Bounds and fuel.\<close> Recursion is structural or has a termination proof, and no definition takes
  fuel. Loops over rows, chunks and rungs run over lists; the loops that never end (the scheduler,
  a stream) are step relations, and what they reach in how many steps is a property.

  \<^bold>\<open>Not modelled.\<close> The HTTP listeners of the \<open>main\<close> programs and their shutdown, \<open>exec.go\<close> (a wrapper
  of \<open>os/exec\<close>), log messages other than the line per request, and HTTP header values of
  responses. The web console, the TypeScript packages and the
  infrastructure files are outside the services; \<open>services/api\<close> and \<open>services/renderer\<close> hold no code.
\<close>

section \<open>The quota client meets the routes of tenancy\<close>

text \<open>
  \<open>quota_route\<close> of \<open>TenClient\<close> names the two quota endpoints by their URL. Through the multiplexer, the
  internal token and the request log of tenancy the two requests reach the same handlers.
\<close>

theorem quota_requests_are_routed:
  assumes "rq_Header q ''X-Internal-Token'' = token"
  shows "asks q ''POST'' [''internal'', ''v1'', ''quota'', ''check-upload-session''] \<Longrightarrow>
      td_quota_upload dec (rq_Body q) (rq_Broken q) = JsonValue r [] \<Longrightarrow>
      Ten_Routes sv prov dec rid q = Ten_requestLogger rid q (anonymously
        (quota_route sv base (base @ ''/internal/v1/quota/check-upload-session'') token (UploadReq r)))"
    and "asks q ''POST'' [''internal'', ''v1'', ''quota'', ''check-job-admission''] \<Longrightarrow>
      td_quota_job dec (rq_Body q) (rq_Broken q) = JsonValue wsid [] \<Longrightarrow>
      Ten_Routes sv prov dec rid q = Ten_requestLogger rid q (anonymously
        (quota_route sv base (base @ ''/internal/v1/quota/check-job-admission'') token (JobReq wsid)))"
  using ten_internal_reached [OF _ ten_internal_lookups(1), of q sv prov dec rid]
    ten_internal_reached [OF _ ten_internal_lookups(2), of q sv prov dec rid] assms
  by (simp_all add: quota_route_def)

end
